(* ===== verification/Prelude.thy ===== *)
theory Prelude
  imports Complex_Main "HOL-Library.More_List"
begin

text \<open>
  Shared vocabulary of the development: the result type of fallible operations, the text and
  time types of the program, finite tables with an integer primary key (the shape every
  SQLAlchemy model of the program has), and the lemma collections the components use.
\<close>

section \<open>Lemma collections\<close>

named_theorems guard_simps \<open>unfolding rules for guards that raise\<close>

named_theorems frame_simps \<open>what an operation leaves unchanged\<close>

section \<open>Text, time and JSON values\<close>

text \<open>
  A Python \<open>str\<close> whose content the program inspects is a list of code points. Dates are day
  ordinals, as \<open>date.toordinal\<close> counts them; moments are microseconds since the epoch.
\<close>

type_synonym ustr = "nat list"

type_synonym date = int

type_synonym moment = int

definition lit :: "string \<Rightarrow> ustr" where
  "lit s = map of_char s"

text \<open>The JSON payloads that the audit log stores in its \<open>old_value\<close> and \<open>new_value\<close>.\<close>

datatype json =
    JNull
  | JBool bool
  | JInt int
  | JNum rat
  | JStr string
  | JText ustr
  | JList "json list"
  | JObj "(string \<times> json) list"

definition json_opt_int :: "int option \<Rightarrow> json" where
  "json_opt_int x = (case x of None \<Rightarrow> JNull | Some i \<Rightarrow> JInt i)"

section \<open>Errors as values\<close>

text \<open>
  \<open>HTTPException(status_code, detail)\<close>. The details are Persian sentences; the model writes an
  English gloss of each. \<open>HTTPConflict\<close> is the structured detail that carries the identifier
  of the case that is already open.
\<close>

text \<open>Exceptions of the language; one that no handler catches ends the request with status 500.\<close>

datatype py_exc =
    KeyError int | IndexError | TypeError | AttributeError | ValueError string
  | OverflowError | IntegrityError string | DataError string

datatype http_error =
    HTTPException nat string
  | HTTPConflict nat string "int option"
  | Uncaught py_exc

fun error_status :: "http_error \<Rightarrow> nat" where
  "error_status (HTTPException c _) = c"
| "error_status (HTTPConflict c _ _) = c"
| "error_status (Uncaught _) = 500"

definition uncaught :: "py_exc + 'a \<Rightarrow> http_error + 'a" where
  "uncaught m = (case m of Inl x \<Rightarrow> Inl (Uncaught x) | Inr y \<Rightarrow> Inr y)"

lemma uncaught_simps [simp]:
  "uncaught (Inl x) = Inl (Uncaught x)"
  "uncaught (Inr y) = Inr y"
  "uncaught m = Inr z \<longleftrightarrow> m = Inr z"
  by (cases m; simp add: uncaught_def)+

type_synonym 'a result = "http_error + 'a"

text \<open>\<open>bindE m f\<close> runs \<open>f\<close> on the value of \<open>m\<close> unless \<open>m\<close> raised.\<close>

definition bindE :: "'e + 'a \<Rightarrow> ('a \<Rightarrow> 'e + 'b) \<Rightarrow> 'e + 'b" where
  "bindE m f = (case m of Inl e \<Rightarrow> Inl e | Inr x \<Rightarrow> f x)"

lemma bindE_simps [simp]:
  "bindE (Inl e) f = Inl e"
  "bindE (Inr x) f = f x"
  by (simp_all add: bindE_def)

lemma bindE_Inr_iff: "bindE m f = Inr y \<longleftrightarrow> (\<exists>x. m = Inr x \<and> f x = Inr y)"
  by (cases m) auto

lemma bindE_Inl_iff:
  "bindE m f = Inl e \<longleftrightarrow> m = Inl e \<or> (\<exists>x. m = Inr x \<and> f x = Inl e)"
  by (cases m) auto

lemma bindE_assoc: "bindE (bindE m f) g = bindE m (\<lambda>x. bindE (f x) g)"
  by (cases m) auto

text \<open>A guard that raises unless its condition holds.\<close>

definition require :: "bool \<Rightarrow> 'e \<Rightarrow> 'e + unit" where
  "require b e = (if b then Inr () else Inl e)"

lemma require_simps [simp]:
  "require True e = Inr ()"
  "require False e = Inl e"
  "require b e = Inr u \<longleftrightarrow> b"
  "require b e = Inl e' \<longleftrightarrow> \<not> b \<and> e' = e"
  by (auto simp: require_def)

text \<open>A loop over a list whose body may raise: it stops at the first error.\<close>

fun foldE :: "('a \<Rightarrow> 's \<Rightarrow> 'e + 's) \<Rightarrow> 'a list \<Rightarrow> 's \<Rightarrow> 'e + 's" where
  "foldE f [] s = Inr s"
| "foldE f (x # xs) s = bindE (f x s) (foldE f xs)"

lemma foldE_invariant:
  assumes step: "\<And>x s s'. x \<in> set xs \<Longrightarrow> P s \<Longrightarrow> f x s = Inr s' \<Longrightarrow> P s'"
    and start: "P s" and run: "foldE f xs s = Inr s'"
  shows "P s'"
  using assms
proof (induction xs arbitrary: s)
  case Nil
  then show ?case by simp
next
  case (Cons x xs)
  then obtain t where "f x s = Inr t" "foldE f xs t = Inr s'"
    by (auto simp: bindE_Inr_iff)
  with Cons.prems(1,2) Cons.IH show ?case
    by (metis list.set_intros(1) list.set_intros(2))
qed

text \<open>A plain loop keeps what its body keeps.\<close>

lemma fold_invariant_list:
  assumes "\<And>x s. x \<in> set xs \<Longrightarrow> P s \<Longrightarrow> P (f x s)" and "P s"
  shows "P (fold f xs s)"
  using assms by (induction xs arbitrary: s) simp_all

section \<open>Tables with an integer primary key\<close>

text \<open>
  A table is the list of its rows in insertion order. \<open>tbl_get\<close> is \<open>db.get\<close>, \<open>tbl_upd\<close>
  assigns attributes of one persistent row, and \<open>tbl_next\<close> is the identifier the next insert
  receives.
\<close>

definition tbl_get :: "('r \<Rightarrow> int) \<Rightarrow> 'r list \<Rightarrow> int \<Rightarrow> 'r option" where
  "tbl_get key t k = find (\<lambda>r. key r = k) t"

definition tbl_upd :: "('r \<Rightarrow> int) \<Rightarrow> int \<Rightarrow> ('r \<Rightarrow> 'r) \<Rightarrow> 'r list \<Rightarrow> 'r list" where
  "tbl_upd key k f t = map (\<lambda>r. if key r = k then f r else r) t"

definition tbl_next :: "('r \<Rightarrow> int) \<Rightarrow> 'r list \<Rightarrow> int" where
  "tbl_next key t = foldr (\<lambda>r m. max (key r) m) t 0 + 1"

text \<open>Primary keys are unique.\<close>

definition tbl_ok :: "('r \<Rightarrow> int) \<Rightarrow> 'r list \<Rightarrow> bool" where
  "tbl_ok key t \<longleftrightarrow> distinct (map key t)"

lemma tbl_get_Some_set: "tbl_get key t k = Some r \<Longrightarrow> r \<in> set t \<and> key r = k"
  by (auto simp: tbl_get_def find_Some_iff)

lemma tbl_get_None: "tbl_get key t k = None \<longleftrightarrow> (\<forall>r\<in>set t. key r \<noteq> k)"
  by (auto simp: tbl_get_def find_None_iff)

lemma tbl_get_in: "tbl_ok key t \<Longrightarrow> r \<in> set t \<Longrightarrow> tbl_get key t (key r) = Some r"
proof -
  assume ok: "tbl_ok key t" and r: "r \<in> set t"
  then obtain r' where "tbl_get key t (key r) = Some r'"
    by (metis not_None_eq tbl_get_None)
  moreover from this have "r' \<in> set t" "key r' = key r"
    by (auto dest: tbl_get_Some_set)
  with ok r have "r' = r"
    by (auto simp: tbl_ok_def distinct_map dest: inj_onD)
  ultimately show ?thesis by simp
qed

lemma tbl_get_upd:
  assumes "\<And>r. key (f r) = key r"
  shows "tbl_get key (tbl_upd key k f t) j
       = (if j = k then map_option f (tbl_get key t j) else tbl_get key t j)"
  using assms by (induction t) (auto simp: tbl_get_def tbl_upd_def)

lemma tbl_upd_keys: "(\<And>r. key (f r) = key r) \<Longrightarrow> map key (tbl_upd key k f t) = map key t"
  by (induction t) (auto simp: tbl_upd_def)

lemma tbl_upd_map: "(\<And>r. g (f r) = g r) \<Longrightarrow> map g (tbl_upd key k f t) = map g t"
  by (induction t) (auto simp: tbl_upd_def)

lemma tbl_ok_upd: "(\<And>r. key (f r) = key r) \<Longrightarrow> tbl_ok key (tbl_upd key k f t) = tbl_ok key t"
  by (simp add: tbl_ok_def tbl_upd_keys)

lemma tbl_upd_length [simp]: "length (tbl_upd key k f t) = length t"
  by (simp add: tbl_upd_def)

lemma set_tbl_upd: "set (tbl_upd key k f t) = (\<lambda>r. if key r = k then f r else r) ` set t"
  by (simp add: tbl_upd_def)

lemma tbl_next_gt: "r \<in> set t \<Longrightarrow> key r < tbl_next key t"
  by (induction t) (auto simp: tbl_next_def)

lemma tbl_next_fresh: "tbl_get key t (tbl_next key t) = None"
  by (fastforce simp: tbl_get_None dest: tbl_next_gt [where key = key])

lemma tbl_ok_insert: "tbl_ok key t \<Longrightarrow> key r = tbl_next key t \<Longrightarrow> tbl_ok key (t @ [r])"
  by (fastforce simp: tbl_ok_def dest: tbl_next_gt [where key = key])

lemma tbl_get_append:
  "tbl_get key (t @ [r]) k
   = (case tbl_get key t k of Some x \<Rightarrow> Some x | None \<Rightarrow> if key r = k then Some r else None)"
  by (induction t) (auto simp: tbl_get_def)

lemma tbl_get_append_Some: "tbl_get key t k = Some r \<Longrightarrow> tbl_get key (t @ u) k = Some r"
  by (induction t) (auto simp: tbl_get_def split: if_splits)

lemma tbl_get_filter: "k \<noteq> j \<Longrightarrow> tbl_get key (filter (\<lambda>x. key x \<noteq> j) t) k = tbl_get key t k"
  by (induction t) (auto simp: tbl_get_def)

lemma tbl_upd_twice:
  assumes "\<And>r. key (f r) = key r"
  shows "tbl_upd key k g (tbl_upd key k f t) = tbl_upd key k (g \<circ> f) t"
  using assms by (induction t) (auto simp: tbl_upd_def)

section \<open>The contract of a row store\<close>

text \<open>
  What a component relies on when it works on one table of the session: reading a row by its
  identifier, and assigning attributes of that row. The laws say that a write is seen by the
  next read and by no read of another row. Every table of the session is an instance.
\<close>

locale row_store =
  fixes get :: "'d \<Rightarrow> int \<Rightarrow> 'r option"
    and upd :: "int \<Rightarrow> ('r \<Rightarrow> 'r) \<Rightarrow> 'd \<Rightarrow> 'd"
    and key :: "'r \<Rightarrow> int"
  assumes row_key: "get d k = Some r \<Longrightarrow> key r = k"
    and row_same: "(\<And>r. key (f r) = key r) \<Longrightarrow> get (upd k f d) k = map_option f (get d k)"
    and row_other: "(\<And>r. key (f r) = key r) \<Longrightarrow> j \<noteq> k \<Longrightarrow> get (upd k f d) j = get d j"
begin

lemma row_upd:
  "(\<And>r. key (f r) = key r) \<Longrightarrow>
   get (upd k f d) j = (if j = k then map_option f (get d j) else get d j)"
  by (simp add: row_same row_other)

lemma row_upd_Some:
  "(\<And>r. key (f r) = key r) \<Longrightarrow> get d k = Some r \<Longrightarrow> get (upd k f d) k = Some (f r)"
  by (simp add: row_same)

lemma row_missing: "(\<And>r. key (f r) = key r) \<Longrightarrow> get d j = None \<Longrightarrow> get (upd k f d) j = None"
  by (auto simp: row_upd)

lemma row_twice:
  assumes "\<And>r. key (f r) = key r" and "\<And>r. key (g r) = key r"
  shows "get (upd k g (upd k f d)) j = get (upd k (\<lambda>r. g (f r)) d) j"
  using assms by (cases "j = k") (simp_all add: row_upd option.map_comp comp_def)

text \<open>A property of every row survives a write that keeps it on the written row.\<close>

lemma row_all:
  assumes "\<And>r. key (f r) = key r"
    and "\<And>r. get d k = Some r \<Longrightarrow> P r \<Longrightarrow> P (f r)"
    and "\<And>j r. get d j = Some r \<Longrightarrow> P r"
    and "get (upd k f d) j = Some r"
  shows "P r"
  using assms by (cases "j = k") (auto simp: row_upd)

end

section \<open>Labelled transition systems with an invariant\<close>

text \<open>
  The contract behind every invariant of the development: a step function over commands, and a
  predicate that each step keeps. The run over a list of commands then keeps it.
\<close>

locale invariant_system =
  fixes step :: "'c \<Rightarrow> 's \<Rightarrow> 's"
    and inv :: "'s \<Rightarrow> bool"
  assumes step_inv: "inv s \<Longrightarrow> inv (step c s)"
begin

lemma run_inv: "inv s \<Longrightarrow> inv (fold step cs s)"
  by (induction cs arbitrary: s) (simp_all add: step_inv)

end

end
