(* ===== verification/Schema.thy ===== *)
theory Schema
  imports Prelude
begin

text \<open>
  The data model of \<open>backend/app/models\<close>: the enumerations of \<open>models/enums.py\<close>, one record
  per SQLAlchemy model (columns in the order of the class, relationships left out because they
  are queries), and the session state \<open>db\<close> holding every table. Row identifiers are integers,
  moments and dates are the integers of \<open>Prelude\<close>, and numeric columns are exact rationals.
  \<open>db_get\<close> operations and attribute writes of the tables used as stores are instances of the
  contract \<open>row_store\<close>.
\<close>

section \<open>Enumerations\<close>

datatype personnel_status = p_active | p_inactive

datatype separation_reason = resignation | dismissal | contract_end | retirement | other_reason

datatype user_role = unit_supervisor | hr | deputy | ceo | employee | support

datatype indicator_section = general | specialized

datatype evaluation_status =
  draft | submitted | hr_approved | deputy_approved | finalized | cancelled

datatype evaluation_stage = supervisor_scoring | st_hr_review | st_deputy_review | st_ceo_final

datatype comment_stage = cm_hr_review | cm_deputy_review | cm_ceo_final

datatype period_status = period_open | period_closed

datatype plan_status = plan_open | plan_completed | plan_cancelled

datatype scheme_status = scheme_draft | scheme_active | scheme_retired

datatype delivery_channel = email | sms

datatype delivery_status = d_pending | d_sent | d_failed | d_abandoned

datatype capability =
    manage_users | manage_capabilities | manage_scoring | manage_integrations
  | view_audit_log | manage_modules | view_diagnostics | manage_personnel

fun status_value :: "evaluation_status \<Rightarrow> string" where
  "status_value draft = ''draft''"
| "status_value submitted = ''submitted''"
| "status_value hr_approved = ''hr_approved''"
| "status_value deputy_approved = ''deputy_approved''"
| "status_value finalized = ''finalized''"
| "status_value cancelled = ''cancelled''"

fun role_value :: "user_role \<Rightarrow> string" where
  "role_value unit_supervisor = ''unit_supervisor''"
| "role_value hr = ''hr''"
| "role_value deputy = ''deputy''"
| "role_value ceo = ''ceo''"
| "role_value employee = ''employee''"
| "role_value support = ''support''"

text \<open>The order in which the enumeration lists the statuses: the forward direction of a case.\<close>

fun status_rank :: "evaluation_status \<Rightarrow> nat" where
  "status_rank draft = 0"
| "status_rank submitted = 1"
| "status_rank hr_approved = 2"
| "status_rank deputy_approved = 3"
| "status_rank finalized = 4"
| "status_rank cancelled = 5"

lemma status_rank_inj: "status_rank a = status_rank b \<Longrightarrow> a = b"
  by (cases a; cases b) simp_all

instantiation evaluation_status :: linorder
begin

definition less_eq_evaluation_status :: "evaluation_status \<Rightarrow> evaluation_status \<Rightarrow> bool" where
  "a \<le> b \<longleftrightarrow> status_rank a \<le> status_rank b"

definition less_evaluation_status :: "evaluation_status \<Rightarrow> evaluation_status \<Rightarrow> bool" where
  "a < b \<longleftrightarrow> status_rank a < status_rank b"

instance
  by standard
    (auto simp: less_eq_evaluation_status_def less_evaluation_status_def intro: status_rank_inj)

end

lemmas status_order = less_eq_evaluation_status_def less_evaluation_status_def

section \<open>Rows\<close>

record personnel =
  p_id :: int
  p_code :: ustr
  p_full_name :: ustr
  p_job_title :: ustr
  p_is_manager :: bool
  p_org_unit :: ustr
  p_contract_start :: date
  p_contract_end :: date
  p_status :: personnel_status
  p_separation_date :: "date option"
  p_separation_reason :: "separation_reason option"

record user =
  u_id :: int
  u_personnel_id :: "int option"
  u_username :: string
  u_full_name :: "ustr option"
  u_password_hash :: string
  u_role :: user_role
  u_is_active :: bool
  u_must_change_password :: bool
  u_token_version :: int
  u_email :: "string option"
  u_phone :: "string option"
  u_notify_by_email :: bool
  u_notify_by_sms :: bool

text \<open>The identity a request acts under (\<open>schemas/auth.py\<close>).\<close>

record current_user =
  cu_id :: int
  cu_username :: string
  cu_role :: user_role
  cu_personnel_id :: "int option"

record evaluation_record =
  er_id :: int
  er_code :: string
  er_verify_token :: "string option"
  er_subject :: int
  er_supervisor :: "int option"
  er_deputy :: "int option"
  er_ceo :: int
  er_hr :: "int option"
  er_period :: "int option"
  er_scheme :: "int option"
  er_framework :: "int option"
  er_status :: evaluation_status
  er_base_pct :: "rat option"
  er_general_pct :: "rat option"
  er_specialized_pct :: "rat option"
  er_final_pct :: "rat option"
  er_recommendation :: "ustr option"
  er_bonus_points :: "rat option"
  er_bonus_reason :: "ustr option"
  er_evaluator_comment :: "ustr option"
  er_final_snapshot :: "json option"
  er_created_at :: moment
  er_stage_entered_at :: moment
  er_finalized_at :: "moment option"
  er_acknowledged_at :: "moment option"
  er_acknowledged_by :: "int option"
  er_self_submitted_at :: "moment option"
  er_self_note :: "ustr option"
  er_self_invited_at :: "moment option"
  er_self_invited_by :: "int option"
  er_contract_start :: "date option"
  er_contract_end :: "date option"
  er_extended_until :: "date option"
  er_extended_at :: "moment option"
  er_extended_by :: "int option"
  er_extension_reason :: "ustr option"
  er_objection_at :: "moment option"
  er_objection_reason :: "ustr option"
  er_objection_resolved_at :: "moment option"
  er_objection_resolution :: "ustr option"
  er_objection_resolved_by :: "int option"

record evaluation_score =
  es_id :: int
  es_record :: int
  es_indicator :: int
  es_score :: int
  es_evidence :: "ustr option"

record evaluation_comment =
  ec_id :: int
  ec_record :: int
  ec_commenter :: int
  ec_parent :: "int option"
  ec_stage :: comment_stage
  ec_text :: ustr
  ec_created_at :: moment

record evaluation_access =
  ea_id :: int
  ea_personnel :: int
  ea_supervisor :: "int option"
  ea_deputy :: "int option"
  ea_ceo :: int
  ea_updated_by :: "int option"

record evaluation_period =
  ep_id :: int
  ep_name :: ustr
  ep_starts_on :: date
  ep_ends_on :: date
  ep_status :: period_status
  ep_created_by :: "int option"
  ep_closed_at :: "moment option"

record scoring_scheme =
  ss_id :: int
  ss_version :: int
  ss_name :: ustr
  ss_status :: scheme_status
  ss_general_weight :: rat
  ss_specialized_weight :: rat
  ss_evidence_scores :: "int list"
  ss_evidence_min :: int
  ss_evidence_max :: int
  ss_bonus_max :: rat
  ss_plan_max_pct :: rat
  ss_thresholds :: "(rat \<times> ustr) list"
  ss_weights :: "(int \<times> rat) list"
  ss_created_by :: "int option"
  ss_activated_by :: "int option"
  ss_activated_at :: "moment option"
  ss_retired_at :: "moment option"

record indicator =
  in_id :: int
  in_section :: indicator_section
  in_category :: ustr
  in_description :: ustr
  in_order :: int
  in_active :: bool

record indicator_framework =
  if_id :: int
  if_version :: int
  if_members :: "int list"
  if_change_kind :: string
  if_change_note :: "ustr option"
  if_created_by :: "int option"

record contract_assessment =
  ca_id :: int
  ca_personnel :: int
  ca_contract_start :: date
  ca_contract_end :: date
  ca_framework :: int
  ca_submitted_by :: "int option"
  ca_source_record :: "int option"
  ca_submitted_at :: "moment option"
  ca_note :: "ustr option"
  ca_invited_at :: "moment option"
  ca_invited_by :: "int option"

record contract_assessment_score =
  cs_id :: int
  cs_assessment :: int
  cs_indicator :: int
  cs_score :: int
  cs_note :: "ustr option"

record audit_log =
  al_id :: int
  al_record :: "int option"
  al_actor :: int
  al_event :: string
  al_old :: "json option"
  al_new :: "json option"
  al_created_at :: moment
  al_prev_hash :: string
  al_entry_hash :: string

record notification =
  nt_id :: int
  nt_user :: int
  nt_type :: string
  nt_message :: ustr
  nt_link :: "string option"
  nt_record :: "int option"
  nt_dedup :: "string option"
  nt_created_at :: moment
  nt_read_at :: "moment option"

record notification_delivery =
  nd_id :: int
  nd_notification :: int
  nd_channel :: delivery_channel
  nd_recipient :: string
  nd_status :: delivery_status
  nd_attempts :: int
  nd_last_attempt_at :: "moment option"
  nd_last_error :: "string option"
  nd_sent_at :: "moment option"
  nd_created_at :: moment

record auth_session =
  as_id :: int
  as_user :: int
  as_jti :: string
  as_expires_at :: moment
  as_rotated_at :: "moment option"
  as_replaced_by :: "string option"
  as_revoked_at :: "moment option"
  as_user_agent :: "string option"
  as_ip :: "string option"
  as_last_used_at :: "moment option"

record login_attempt =
  la_username :: string
  la_failed_count :: int
  la_first_failed_at :: moment
  la_last_failed_at :: moment
  la_locked_until :: "moment option"

record user_capability =
  uc_id :: int
  uc_user :: int
  uc_capability :: capability
  uc_granted_by :: "int option"

record module_setting =
  ms_key :: string
  ms_enabled :: bool
  ms_updated_by :: "int option"

record improvement_plan =
  ip_id :: int
  ip_record :: int
  ip_personnel :: int
  ip_title :: ustr
  ip_owner :: "int option"
  ip_status :: plan_status
  ip_review_date :: date
  ip_summary :: "ustr option"
  ip_follow_up :: "int option"
  ip_created_by :: "int option"
  ip_completed_at :: "moment option"

record plan_goal =
  pg_id :: int
  pg_plan :: int
  pg_description :: ustr
  pg_done :: bool
  pg_order :: int

record org_unit =
  ou_id :: int
  ou_site :: "ustr option"
  ou_name :: ustr
  ou_active :: bool
  ou_order :: int

record scheduler_run =
  sr_id :: int
  sr_started_at :: moment
  sr_finished_at :: "moment option"
  sr_status :: string
  sr_trigger :: string
  sr_summary :: "(string \<times> int) list option"
  sr_error :: "string option"

record evaluation_document =
  ed_id :: int
  ed_record :: int
  ed_pdf :: "nat list"
  ed_sha256 :: string

section \<open>The session\<close>

record db =
  personnels :: "personnel list"
  users :: "user list"
  records :: "evaluation_record list"
  scores :: "evaluation_score list"
  comments :: "evaluation_comment list"
  accesses :: "evaluation_access list"
  periods :: "evaluation_period list"
  schemes :: "scoring_scheme list"
  indicators :: "indicator list"
  frameworks :: "indicator_framework list"
  assessments :: "contract_assessment list"
  assessment_scores :: "contract_assessment_score list"
  audits :: "audit_log list"
  notifications :: "notification list"
  deliveries :: "notification_delivery list"
  sessions :: "auth_session list"
  login_attempts :: "login_attempt list"
  capabilities :: "user_capability list"
  modules :: "module_setting list"
  plans :: "improvement_plan list"
  goals :: "plan_goal list"
  org_units :: "org_unit list"
  scheduler_runs :: "scheduler_run list"
  documents :: "evaluation_document list"
  code_seq :: int

definition empty_db :: db where
  "empty_db = \<lparr>personnels = [], users = [], records = [], scores = [], comments = [],
     accesses = [], periods = [], schemes = [], indicators = [], frameworks = [],
     assessments = [], assessment_scores = [], audits = [], notifications = [],
     deliveries = [], sessions = [], login_attempts = [], capabilities = [], modules = [],
     plans = [], goals = [], org_units = [], scheduler_runs = [], documents = [],
     code_seq = 0\<rparr>"

section \<open>Reading and writing single rows\<close>

definition get_user :: "db \<Rightarrow> int \<Rightarrow> user option" where
  "get_user d = tbl_get u_id (users d)"

definition upd_user :: "int \<Rightarrow> (user \<Rightarrow> user) \<Rightarrow> db \<Rightarrow> db" where
  "upd_user k f d = d\<lparr>users := tbl_upd u_id k f (users d)\<rparr>"

definition get_personnel :: "db \<Rightarrow> int \<Rightarrow> personnel option" where
  "get_personnel d = tbl_get p_id (personnels d)"

definition upd_personnel :: "int \<Rightarrow> (personnel \<Rightarrow> personnel) \<Rightarrow> db \<Rightarrow> db" where
  "upd_personnel k f d = d\<lparr>personnels := tbl_upd p_id k f (personnels d)\<rparr>"

definition get_record :: "db \<Rightarrow> int \<Rightarrow> evaluation_record option" where
  "get_record d = tbl_get er_id (records d)"

definition upd_record :: "int \<Rightarrow> (evaluation_record \<Rightarrow> evaluation_record) \<Rightarrow> db \<Rightarrow> db" where
  "upd_record k f d = d\<lparr>records := tbl_upd er_id k f (records d)\<rparr>"

definition get_scheme :: "db \<Rightarrow> int \<Rightarrow> scoring_scheme option" where
  "get_scheme d = tbl_get ss_id (schemes d)"

definition upd_scheme :: "int \<Rightarrow> (scoring_scheme \<Rightarrow> scoring_scheme) \<Rightarrow> db \<Rightarrow> db" where
  "upd_scheme k f d = d\<lparr>schemes := tbl_upd ss_id k f (schemes d)\<rparr>"

definition get_framework :: "db \<Rightarrow> int \<Rightarrow> indicator_framework option" where
  "get_framework d = tbl_get if_id (frameworks d)"

definition get_period :: "db \<Rightarrow> int \<Rightarrow> evaluation_period option" where
  "get_period d = tbl_get ep_id (periods d)"

definition upd_period :: "int \<Rightarrow> (evaluation_period \<Rightarrow> evaluation_period) \<Rightarrow> db \<Rightarrow> db" where
  "upd_period k f d = d\<lparr>periods := tbl_upd ep_id k f (periods d)\<rparr>"

definition upd_delivery ::
  "int \<Rightarrow> (notification_delivery \<Rightarrow> notification_delivery) \<Rightarrow> db \<Rightarrow> db" where
  "upd_delivery k f d = d\<lparr>deliveries := tbl_upd nd_id k f (deliveries d)\<rparr>"

definition get_delivery :: "db \<Rightarrow> int \<Rightarrow> notification_delivery option" where
  "get_delivery d = tbl_get nd_id (deliveries d)"

definition get_plan :: "db \<Rightarrow> int \<Rightarrow> improvement_plan option" where
  "get_plan d = tbl_get ip_id (plans d)"

definition upd_plan :: "int \<Rightarrow> (improvement_plan \<Rightarrow> improvement_plan) \<Rightarrow> db \<Rightarrow> db" where
  "upd_plan k f d = d\<lparr>plans := tbl_upd ip_id k f (plans d)\<rparr>"

lemmas store_defs = get_user_def upd_user_def get_personnel_def upd_personnel_def
  get_record_def upd_record_def get_scheme_def upd_scheme_def get_framework_def
  get_period_def upd_period_def get_delivery_def upd_delivery_def get_plan_def upd_plan_def

interpretation user_st: row_store get_user upd_user u_id
  by unfold_locales (auto simp: store_defs tbl_get_upd dest: tbl_get_Some_set)

interpretation personnel_st: row_store get_personnel upd_personnel p_id
  by unfold_locales (auto simp: store_defs tbl_get_upd dest: tbl_get_Some_set)

interpretation record_st: row_store get_record upd_record er_id
  by unfold_locales (auto simp: store_defs tbl_get_upd dest: tbl_get_Some_set)

interpretation scheme_st: row_store get_scheme upd_scheme ss_id
  by unfold_locales (auto simp: store_defs tbl_get_upd dest: tbl_get_Some_set)

interpretation period_st: row_store get_period upd_period ep_id
  by unfold_locales (auto simp: store_defs tbl_get_upd dest: tbl_get_Some_set)

interpretation delivery_st: row_store get_delivery upd_delivery nd_id
  by unfold_locales (auto simp: store_defs tbl_get_upd dest: tbl_get_Some_set)

interpretation plan_st: row_store get_plan upd_plan ip_id
  by unfold_locales (auto simp: store_defs tbl_get_upd dest: tbl_get_Some_set)

text \<open>Reads of one table are not affected by a write to another.\<close>

lemma get_frame [frame_simps]:
  "get_user (upd_record k f d) = get_user d"
  "get_personnel (upd_record k f d) = get_personnel d"
  "get_scheme (upd_record k f d) = get_scheme d"
  "get_framework (upd_record k f d) = get_framework d"
  "get_period (upd_record k f d) = get_period d"
  "get_record (upd_user k g d) = get_record d"
  "get_record (upd_scheme k h d) = get_record d"
  by (simp_all add: store_defs)

lemma upd_record_tables [frame_simps]:
  "personnels (upd_record k f d) = personnels d"
  "users (upd_record k f d) = users d"
  "scores (upd_record k f d) = scores d"
  "comments (upd_record k f d) = comments d"
  "accesses (upd_record k f d) = accesses d"
  "periods (upd_record k f d) = periods d"
  "schemes (upd_record k f d) = schemes d"
  "indicators (upd_record k f d) = indicators d"
  "frameworks (upd_record k f d) = frameworks d"
  "assessments (upd_record k f d) = assessments d"
  "audits (upd_record k f d) = audits d"
  "notifications (upd_record k f d) = notifications d"
  "deliveries (upd_record k f d) = deliveries d"
  "capabilities (upd_record k f d) = capabilities d"
  "modules (upd_record k f d) = modules d"
  by (simp_all add: upd_record_def)

end
