(* ===== verification/PyFloat.thy ===== *)
theory PyFloat
  imports Prelude
begin

text \<open>
  Python floats. A finite float is the rational number it denotes; every arithmetic operation
  of the program is the exact operation followed by \<open>fl\<close>, the rounding to the nearest IEEE
  binary64 number with ties to even (53 bit significand, smallest quantum \<open>2^-1074\<close>). Overflow
  to infinity is not modelled: every quantity of the program is a percentage, a weight or a
  point count. \<open>round(x, n)\<close> of CPython is correctly rounded: it rounds the exact binary value
  to \<open>n\<close> decimals with ties to even and converts back, which is \<open>py_round\<close>.

  The lemmas show that \<open>fl\<close> and \<open>py_round\<close> are monotone, fix the numbers they should fix, and
  stay within a half quantum of their argument. The locale \<open>rounding\<close> states what the scoring
  code relies on, and both functions are instances.
\<close>

section \<open>Rounding to an integer, ties to even\<close>

definition rne :: "rat \<Rightarrow> int" where
  "rne x = (let n = \<lfloor>x\<rfloor>; r = x - of_int n in
     if r < 1/2 then n else if 1/2 < r then n + 1 else if even n then n else n + 1)"

lemma rne_of_int [simp]: "rne (of_int n) = n"
  by (simp add: rne_def Let_def)

lemma rne_lower: "\<lfloor>x\<rfloor> \<le> rne x"
  by (simp add: rne_def Let_def)

lemma rne_upper: "rne x \<le> \<lceil>x\<rceil>"
proof -
  have "of_int \<lfloor>x\<rfloor> < x \<Longrightarrow> \<lfloor>x\<rfloor> + 1 \<le> \<lceil>x\<rceil>"
    by (simp add: less_ceiling_iff zless_imp_add1_zle)
  moreover have "\<lfloor>x\<rfloor> \<le> \<lceil>x\<rceil>" by (rule floor_le_ceiling)
  ultimately show ?thesis
    by (auto simp: rne_def Let_def)
qed

lemma rne_mono: "x \<le> y \<Longrightarrow> rne x \<le> rne y"
proof -
  assume le: "x \<le> y"
  then have fle: "\<lfloor>x\<rfloor> \<le> \<lfloor>y\<rfloor>" by (rule floor_mono)
  show ?thesis
  proof (cases "\<lfloor>x\<rfloor> = \<lfloor>y\<rfloor>")
    case True
    with le show ?thesis by (auto simp: rne_def Let_def)
  next
    case False
    with fle have "\<lfloor>x\<rfloor> + 1 \<le> \<lfloor>y\<rfloor>" by simp
    moreover have "rne x \<le> \<lfloor>x\<rfloor> + 1" by (simp add: rne_def Let_def)
    moreover have "\<lfloor>y\<rfloor> \<le> rne y" by (rule rne_lower)
    ultimately show ?thesis by linarith
  qed
qed

lemma rne_error: "\<bar>of_int (rne x) - x\<bar> \<le> 1/2"
proof -
  define r where "r = x - of_int \<lfloor>x\<rfloor>"
  have r: "0 \<le> r" "r < 1" "x = of_int \<lfloor>x\<rfloor> + r"
    using floor_correct [of x] by (auto simp: r_def)
  have "rne x = (if r < 1/2 then \<lfloor>x\<rfloor> else if 1/2 < r then \<lfloor>x\<rfloor> + 1
      else if even \<lfloor>x\<rfloor> then \<lfloor>x\<rfloor> else \<lfloor>x\<rfloor> + 1)"
    by (simp add: rne_def Let_def r_def)
  then consider "rne x = \<lfloor>x\<rfloor>" "r \<le> 1/2" | "rne x = \<lfloor>x\<rfloor> + 1" "1/2 \<le> r"
    by (fastforce split: if_splits)
  then show ?thesis
  proof cases
    case 1
    then have "of_int (rne x) - x = - r" by (simp add: r_def)
    with r 1 show ?thesis by simp
  next
    case 2
    then have "of_int (rne x) - x = 1 - r" by (simp add: r_def)
    with r 2 show ?thesis by simp
  qed
qed

lemma rne_le_int: "x \<le> of_int n \<Longrightarrow> rne x \<le> n"
  using rne_mono [of x "of_int n"] by simp

lemma rne_ge_int: "of_int n \<le> x \<Longrightarrow> n \<le> rne x"
  using rne_mono [of "of_int n" x] by simp

lemma rne_near: "\<bar>x - of_int n\<bar> < 1/2 \<Longrightarrow> rne x = n"
proof -
  assume near: "\<bar>x - of_int n\<bar> < 1/2"
  have "\<bar>of_int (rne x) - of_int n\<bar> \<le> \<bar>of_int (rne x) - x\<bar> + \<bar>x - (of_int n :: rat)\<bar>"
    by linarith
  with near rne_error [of x] have "\<bar>of_int (rne x) - (of_int n :: rat)\<bar> < 1"
    by linarith
  then have "\<bar>of_int (rne x - n) :: rat\<bar> < of_int 1" by simp
  then have "\<bar>rne x - n\<bar> < 1"
    by (metis of_int_abs of_int_less_iff)
  then show ?thesis by simp
qed

section \<open>The binary exponent\<close>

text \<open>
  \<open>bits n\<close> is the length of the binary numeral of \<open>n\<close>; \<open>ilog2 x\<close> is the integer part of the
  binary logarithm of a positive rational, found from the lengths of numerator and denominator.
\<close>

function bits :: "int \<Rightarrow> nat" where
  "bits n = (if n \<le> 0 then 0 else Suc (bits (n div 2)))"
  by pat_completeness auto
termination
  by (relation "measure nat") auto

declare bits.simps [simp del]

lemma bits_upper: "n < 2 ^ bits n"
proof (induction n rule: bits.induct)
  case (1 n)
  then show ?case by (cases "n \<le> 0") (auto simp: bits.simps [of n])
qed

lemma bits_lower: "0 < n \<Longrightarrow> 2 ^ (bits n - 1) \<le> n"
proof (induction n rule: bits.induct)
  case (1 n)
  show ?case
  proof (cases "n div 2 \<le> 0")
    case True
    with 1(2) have "n = 1" by auto
    then show ?thesis by (simp add: bits.simps)
  next
    case False
    with 1 have IH: "2 ^ (bits (n div 2) - 1) \<le> n div 2" by simp
    from False have "bits (n div 2) \<noteq> 0" by (simp add: bits.simps)
    then have "(2::int) ^ bits (n div 2) = 2 * 2 ^ (bits (n div 2) - 1)"
      by (cases "bits (n div 2)") simp_all
    with IH have "2 ^ bits (n div 2) \<le> n" by simp
    with 1(2) show ?thesis by (simp add: bits.simps [of n])
  qed
qed

definition pow2 :: "int \<Rightarrow> rat" where
  "pow2 e = (if 0 \<le> e then 2 ^ nat e else 1 / 2 ^ nat (- e))"

lemma pow2_pos [simp]: "0 < pow2 e"
  by (simp add: pow2_def)

lemma pow2_nz [simp]: "pow2 e \<noteq> 0"
  using pow2_pos [of e] by linarith

lemma pow2_powi: "pow2 e = 2 powi e"
  by (simp add: pow2_def power_int_def field_simps)

lemma pow2_add: "pow2 (a + b) = pow2 a * pow2 b"
  by (simp add: pow2_powi power_int_add)

lemma pow2_diff: "pow2 (a - b) = pow2 a / pow2 b"
  by (simp add: pow2_powi power_int_diff)

lemma pow2_mono: "a \<le> b \<Longrightarrow> pow2 a \<le> pow2 b"
  by (simp add: pow2_powi power_int_increasing)

lemma pow2_less: "pow2 a < pow2 b \<longleftrightarrow> a < b"
  by (metis linorder_not_less order.strict_iff_order pow2_mono pow2_powi power_int_strict_increasing
      one_less_numeral_iff semiring_norm(76))

lemma pow2_nat: "0 \<le> e \<Longrightarrow> pow2 e = of_int (2 ^ nat e)"
  by (simp add: pow2_def)

definition ilog2 :: "rat \<Rightarrow> int" where
  "ilog2 x = (let (p, q) = quotient_of x; k = int (bits p) - int (bits q) in
     if pow2 k \<le> x then k else k - 1)"

lemma ilog2_bounds:
  assumes "0 < x"
  shows "pow2 (ilog2 x) \<le> x" and "x < pow2 (ilog2 x + 1)"
proof -
  obtain p q where pq: "quotient_of x = (p, q)" by fastforce
  then have x: "x = of_int p / of_int q" by (rule quotient_of_div)
  have q: "0 < q" using pq by (rule quotient_of_denom_pos)
  with assms x have p: "0 < p" by (simp add: zero_less_divide_iff)
  define a where "a = int (bits p)"
  define b where "b = int (bits q)"
  have up: "of_int n < pow2 (int (bits n))" "pow2 (int (bits n) - 1) \<le> of_int n"
    if "0 < n" for n
  proof -
    have "of_int n < (of_int (2 ^ bits n) :: rat)"
      using bits_upper [of n] by (simp only: of_int_less_iff)
    then show "of_int n < pow2 (int (bits n))" by (simp add: pow2_nat)
    have nz: "bits n \<noteq> 0" using that by (simp add: bits.simps)
    have "(of_int (2 ^ (bits n - 1)) :: rat) \<le> of_int n"
      using bits_lower [OF that] by (simp only: of_int_le_iff)
    moreover have "nat (int (bits n) - 1) = bits n - 1" by simp
    ultimately show "pow2 (int (bits n) - 1) \<le> of_int n"
      using nz by (simp add: pow2_nat)
  qed
  have lt: "x < pow2 (a - b + 1)"
  proof -
    have "x * of_int q = of_int p" using q by (simp add: x)
    also have "\<dots> < pow2 a" using up(1) [OF p] by (simp add: a_def)
    also have "\<dots> = pow2 (a - b + 1) * pow2 (b - 1)"
      by (simp flip: pow2_add)
    also have "\<dots> \<le> pow2 (a - b + 1) * of_int q"
      using up(2) [OF q] by (simp add: b_def)
    finally show ?thesis using q by simp
  qed
  have ge: "pow2 (a - b - 1) \<le> x"
  proof -
    have "pow2 (a - b - 1) * of_int q \<le> pow2 (a - b - 1) * pow2 b"
      using up(1) [OF q] by (simp add: b_def)
    also have "\<dots> = pow2 (a - 1)" by (simp flip: pow2_add)
    also have "\<dots> \<le> of_int p" using up(2) [OF p] by (simp add: a_def)
    also have "\<dots> = x * of_int q" using q by (simp add: x)
    finally show ?thesis using q by simp
  qed
  have def': "ilog2 x = (if pow2 (a - b) \<le> x then a - b else a - b - 1)"
    by (simp add: ilog2_def pq a_def b_def Let_def)
  show "pow2 (ilog2 x) \<le> x" using ge by (simp add: def')
  show "x < pow2 (ilog2 x + 1)" using lt by (simp add: def')
qed

lemma ilog2_mono: "0 < x \<Longrightarrow> x \<le> y \<Longrightarrow> ilog2 x \<le> ilog2 y"
proof -
  assume x: "0 < x" and le: "x \<le> y"
  have "pow2 (ilog2 x) < pow2 (ilog2 y + 1)"
    using ilog2_bounds(1) [OF x] ilog2_bounds(2) [of y] x le by linarith
  then show ?thesis by (simp add: pow2_less)
qed

lemma ilog2_less: "0 < x \<Longrightarrow> x < pow2 e \<Longrightarrow> ilog2 x < e"
  using ilog2_bounds(1) [of x] pow2_less [of "ilog2 x" e] by linarith

section \<open>Rounding to a binary64 number\<close>

text \<open>The distance of neighbouring floats at the magnitude of \<open>x\<close>.\<close>

definition quantum :: "rat \<Rightarrow> rat" where
  "quantum x = pow2 (max (ilog2 x - 52) (- 1074))"

definition fl :: "rat \<Rightarrow> rat" where
  "fl x = (if x = 0 then 0
     else if 0 < x then of_int (rne (x / quantum x)) * quantum x
     else - (of_int (rne (- x / quantum (- x))) * quantum (- x)))"

lemma quantum_pos [simp]: "0 < quantum x"
  by (simp add: quantum_def)

lemma quantum_nz [simp]: "quantum x \<noteq> 0"
  using quantum_pos [of x] by linarith

lemma fl_0 [simp]: "fl 0 = 0"
  by (simp add: fl_def)

lemma fl_minus: "fl (- x) = - fl x"
  by (simp add: fl_def)

lemma fl_pos: "0 < x \<Longrightarrow> fl x = of_int (rne (x / quantum x)) * quantum x"
  by (simp add: fl_def)

lemma fl_nonneg: "0 \<le> x \<Longrightarrow> 0 \<le> fl x"
proof (cases "x = 0")
  case False
  assume "0 \<le> x"
  with False have "0 < x" by simp
  moreover from this have "0 \<le> x / quantum x"
    by (simp add: less_imp_le)
  then have "0 \<le> rne (x / quantum x)" using rne_ge_int [of 0] by simp
  ultimately show ?thesis by (simp add: fl_pos less_imp_le)
qed simp

text \<open>A multiple of the quantum is a float.\<close>

lemma fl_grid:
  assumes "0 < x" and "x = of_int m * pow2 e" and "max (ilog2 x - 52) (- 1074) \<le> e"
  shows "fl x = x"
proof -
  define k where "k = max (ilog2 x - 52) (- 1074)"
  have e: "0 \<le> e - k" using assms(3) by (simp add: k_def)
  have "x / quantum x = of_int m * pow2 (e - k)"
    by (simp add: assms(2) quantum_def k_def pow2_diff flip: assms(2))
  also have "\<dots> = of_int (m * 2 ^ nat (e - k))"
    using e by (simp add: pow2_nat)
  finally have "of_int (rne (x / quantum x)) = x / quantum x" by (metis rne_of_int)
  with assms(1) show ?thesis by (simp add: fl_pos)
qed

text \<open>Every dyadic number with at most 53 significant bits is a float, in particular small integers.\<close>

lemma fl_dyadic:
  assumes m: "\<bar>m\<bar> \<le> 2 ^ 53" and e: "- 1074 \<le> e"
  shows "fl (of_int m * pow2 e) = of_int m * pow2 e"
proof -
  have pos: "fl (of_int m * pow2 e) = of_int m * pow2 e"
    if m: "0 < m" "m \<le> 2 ^ 53" and e: "- 1074 \<le> e" for m e
  proof (cases "m = 2 ^ 53")
    case True
    have eq: "of_int m * pow2 e = of_int 1 * pow2 (e + 53)"
      by (simp add: True pow2_add) (simp add: pow2_def)
    have "ilog2 (of_int m * pow2 e) < e + 54"
      by (rule ilog2_less) (use m in \<open>simp_all add: eq pow2_less\<close>)
    then show ?thesis using e m
      by (intro fl_grid [of _ 1 "e + 53"]) (simp_all add: eq)
  next
    case False
    with m have "m < 2 ^ 53" by simp
    then have "of_int m < (of_int (2 ^ 53) :: rat)" by (simp only: of_int_less_iff)
    also have "\<dots> = pow2 53" by (simp add: pow2_def)
    finally have "of_int m * pow2 e < pow2 (53 + e)" by (simp add: pow2_add)
    then have "ilog2 (of_int m * pow2 e) < 53 + e"
      using m by (intro ilog2_less) simp_all
    with e m show ?thesis
      by (intro fl_grid [of _ m e]) simp_all
  qed
  consider "m = 0" | "0 < m" | "m < 0" by linarith
  then show ?thesis
  proof cases
    case 3
    with pos [of "- m" e] m e have "fl (- (of_int m * pow2 e)) = - (of_int m * pow2 e)" by simp
    then show ?thesis by (simp add: fl_minus)
  qed (use pos m e in simp_all)
qed

lemma fl_int: "\<bar>n\<bar> \<le> 2 ^ 53 \<Longrightarrow> fl (of_int n) = of_int n"
  using fl_dyadic [of n 0] by (simp add: pow2_def)

lemma fl_mono_pos:
  assumes x: "0 < x" and le: "x \<le> y"
  shows "fl x \<le> fl y"
proof -
  have y: "0 < y" using x le by simp
  show ?thesis
  proof (cases "quantum x = quantum y")
    case True
    have "x / quantum y \<le> y / quantum y"
      using le by (simp add: divide_right_mono less_imp_le)
    with True x y show ?thesis by (simp add: fl_pos rne_mono)
  next
    case False
    define k where "k = ilog2 y"
    have ne: "max (ilog2 x - 52) (- 1074) \<noteq> max (ilog2 y - 52) (- 1074)"
      using False by (auto simp: quantum_def)
    then have lt: "ilog2 x < k" and big: "- 1022 < k"
      using ilog2_mono [OF x le] by (simp_all add: k_def)
    have xk: "x \<le> pow2 k"
      using ilog2_bounds(2) [OF x] pow2_mono [of "ilog2 x + 1" k] lt by linarith
    have yk: "pow2 k \<le> y" using ilog2_bounds(1) [OF y] by (simp add: k_def)
    have int: "\<exists>n. pow2 k / quantum z = of_int n" if "quantum z = pow2 j" "j \<le> k" for z j
      using that by (auto simp: pow2_nat simp flip: pow2_diff)
    obtain n where n: "pow2 k / quantum x = of_int n"
      using int [of x "max (ilog2 x - 52) (- 1074)"] lt big by (auto simp: quantum_def)
    obtain m where m: "pow2 k / quantum y = of_int m"
      using int [of y "max (ilog2 y - 52) (- 1074)"] big by (auto simp: quantum_def k_def)
    have "x / quantum x \<le> of_int n"
      using xk by (simp add: divide_right_mono less_imp_le flip: n)
    then have "of_int (rne (x / quantum x)) \<le> (of_int n :: rat)" by (simp add: rne_le_int)
    then have "fl x \<le> of_int n * quantum x" using x by (simp add: fl_pos)
    also have "\<dots> = of_int m * quantum y"
      using n m by (metis nonzero_divide_eq_eq order_less_irrefl quantum_pos)
    also have "\<dots> \<le> of_int (rne (y / quantum y)) * quantum y"
    proof -
      have "of_int m \<le> y / quantum y"
        using yk by (simp add: divide_right_mono less_imp_le flip: m)
      then have "m \<le> rne (y / quantum y)" by (rule rne_ge_int)
      then show ?thesis by (simp add: mult_right_mono less_imp_le)
    qed
    finally show ?thesis using y by (simp add: fl_pos)
  qed
qed

lemma fl_mono: "x \<le> y \<Longrightarrow> fl x \<le> fl y"
proof -
  assume le: "x \<le> y"
  consider "0 < x" | "x \<le> 0" "0 \<le> y" | "y < 0" by linarith
  then show ?thesis
  proof cases
    case 1
    then show ?thesis using le by (rule fl_mono_pos)
  next
    case 2
    then show ?thesis using fl_nonneg [of y] fl_nonneg [of "- x"] by (simp add: fl_minus)
  next
    case 3
    then have "fl (- y) \<le> fl (- x)" using le by (intro fl_mono_pos) simp_all
    then show ?thesis by (simp add: fl_minus)
  qed
qed

lemma fl_one [simp]: "fl 1 = 1"
  using fl_int [of 1] by simp

lemma fl_numeral: "numeral n \<le> (2::int) ^ 53 \<Longrightarrow> fl (numeral n) = numeral n"
  using fl_int [of "numeral n"] by simp

text \<open>The rounding error is at most half a quantum.\<close>

lemma fl_error: "\<bar>fl x - x\<bar> \<le> \<bar>x\<bar> / 2 ^ 53 + 1 / 2 ^ 1075"
proof -
  have pos: "\<bar>fl x - x\<bar> \<le> x / 2 ^ 53 + 1 / 2 ^ 1075" if x: "0 < x" for x
  proof -
    have "fl x - x = (of_int (rne (x / quantum x)) - x / quantum x) * quantum x"
      using x by (simp add: fl_pos left_diff_distrib)
    then have "\<bar>fl x - x\<bar> = \<bar>of_int (rne (x / quantum x)) - x / quantum x\<bar> * quantum x"
      by (simp add: abs_mult abs_of_pos)
    also have "\<dots> \<le> 1/2 * quantum x"
      by (rule mult_right_mono [OF rne_error]) (simp add: less_imp_le)
    finally have err: "\<bar>fl x - x\<bar> \<le> 1/2 * quantum x" .
    have "quantum x \<le> x / 2 ^ 52 + 1 / 2 ^ 1074"
    proof (cases "- 1074 \<le> ilog2 x - 52")
      case True
      then have "quantum x = pow2 (ilog2 x) / pow2 52"
        by (simp add: quantum_def pow2_diff)
      also have "\<dots> \<le> x / 2 ^ 52"
        using ilog2_bounds(1) [OF x] by (simp add: pow2_def divide_right_mono)
      finally show ?thesis by (simp add: add_increasing2)
    next
      case False
      then have "quantum x = 1 / 2 ^ 1074" by (simp add: quantum_def pow2_def)
      then show ?thesis using x by simp
    qed
    then have "1/2 * quantum x \<le> 1/2 * (x / 2 ^ 52 + 1 / 2 ^ 1074)" by simp
    with err show ?thesis by (simp add: field_simps)
  qed
  consider "x = 0" | "0 < x" | "x < 0" by linarith
  then show ?thesis
  proof cases
    case 3
    then have "\<bar>fl (- x) - - x\<bar> \<le> - x / 2 ^ 53 + 1 / 2 ^ 1075" by (intro pos) simp
    with 3 show ?thesis by (simp add: fl_minus)
  qed (use pos in simp_all)
qed

text \<open>A rounded number is a float, so rounding it again changes nothing.\<close>

lemma fl_idem [simp]: "fl (fl x) = fl x"
proof -
  have pos: "fl (fl x) = fl x" if x: "0 < x" for x
  proof -
    define e where "e = max (ilog2 x - 52) (- 1074)"
    have q: "quantum x = pow2 e" by (simp add: quantum_def e_def)
    have "x < pow2 (ilog2 x + 1)" using x by (rule ilog2_bounds)
    also have "\<dots> \<le> pow2 (e + 53)" by (rule pow2_mono) (simp add: e_def)
    also have "\<dots> = of_int (2 ^ 53) * pow2 e" by (simp add: pow2_add) (simp add: pow2_def)
    finally have "x / quantum x \<le> of_int (2 ^ 53)"
      by (simp add: q pos_divide_le_eq less_imp_le)
    then have "rne (x / quantum x) \<le> 2 ^ 53" by (rule rne_le_int)
    moreover have "0 \<le> x / quantum x" using x by (simp add: less_imp_le)
    then have "0 \<le> rne (x / quantum x)" using rne_ge_int [of 0] by simp
    ultimately have "fl (of_int (rne (x / quantum x)) * pow2 e) = of_int (rne (x / quantum x)) * pow2 e"
      by (intro fl_dyadic) (simp_all add: e_def)
    then show ?thesis using x by (simp add: fl_pos q)
  qed
  consider "x = 0" | "0 < x" | "x < 0" by linarith
  then show ?thesis
  proof cases
    case 3
    with pos [of "- x"] show ?thesis by (simp add: fl_minus)
  qed (use pos in simp_all)
qed

section \<open>The built-in \<open>round(x, n)\<close>\<close>

definition py_round :: "nat \<Rightarrow> rat \<Rightarrow> rat" where
  "py_round n x = fl (of_int (rne (x * 10 ^ n)) / 10 ^ n)"

lemma py_round_mono: "x \<le> y \<Longrightarrow> py_round n x \<le> py_round n y"
  by (simp add: py_round_def fl_mono rne_mono divide_right_mono)

lemma py_round_int: "\<bar>k\<bar> \<le> 2 ^ 53 \<Longrightarrow> py_round n (of_int k) = of_int k"
proof -
  assume k: "\<bar>k\<bar> \<le> 2 ^ 53"
  have "(of_int k * 10 ^ n :: rat) = of_int (k * 10 ^ n)" by simp
  then have "rne (of_int k * 10 ^ n) = k * 10 ^ n" by (metis rne_of_int)
  with k show ?thesis by (simp add: py_round_def fl_int)
qed

lemma py_round_0 [simp]: "py_round n 0 = 0"
  using py_round_int [of 0 n] by simp

text \<open>A number with \<open>n\<close> decimals, as a float, is a fixed point.\<close>

lemma py_round_decimal:
  assumes k: "\<bar>k\<bar> \<le> 2 ^ 50" and n: "n \<le> 4"
  shows "py_round n (fl (of_int k / 10 ^ n)) = fl (of_int k / 10 ^ n)"
proof -
  define x :: rat where "x = of_int k / 10 ^ n"
  have ten: "1 \<le> (10::rat) ^ n" "(10::rat) ^ n \<le> 10 ^ 4"
    using power_increasing [OF n, of "10::rat"] by simp_all
  have kx: "x * 10 ^ n = of_int k" by (simp add: x_def)
  have ak: "\<bar>of_int k :: rat\<bar> \<le> 2 ^ 50"
  proof -
    have "of_int \<bar>k\<bar> \<le> (of_int (2 ^ 50) :: rat)" using k by (simp only: of_int_le_iff)
    then show ?thesis by simp
  qed
  have "\<bar>fl x * 10 ^ n - of_int k\<bar> = \<bar>fl x - x\<bar> * 10 ^ n"
    by (simp only: left_diff_distrib [symmetric] abs_mult flip: kx) simp
  also have "\<dots> \<le> (\<bar>x\<bar> / 2 ^ 53 + 1 / 2 ^ 1075) * 10 ^ n"
    by (intro mult_right_mono fl_error) simp
  also have "\<dots> = \<bar>of_int k\<bar> / 2 ^ 53 + 10 ^ n / 2 ^ 1075"
    by (simp add: x_def distrib_right abs_mult)
  also have "\<dots> \<le> 2 ^ 50 / 2 ^ 53 + 10 ^ 4 / 2 ^ 1075"
    using ak ten by (intro add_mono divide_right_mono) simp_all
  also have "\<dots> < (1/2 :: rat)" by simp
  finally have "rne (fl x * 10 ^ n) = k" by (rule rne_near)
  then show ?thesis by (simp add: py_round_def x_def)
qed

text \<open>Rounding to \<open>n\<close> decimals moves a number of ordinary size by half a unit of the last place.\<close>

lemma py_round_error:
  assumes x: "\<bar>x\<bar> \<le> 2 ^ 20"
  shows "\<bar>py_round n x - x\<bar> \<le> 1 / (2 * 10 ^ n) + 1 / 2 ^ 30"
proof -
  define y :: rat where "y = of_int (rne (x * 10 ^ n)) / 10 ^ n"
  have "(y - x) * 10 ^ n = of_int (rne (x * 10 ^ n)) - x * 10 ^ n"
    by (simp add: y_def left_diff_distrib)
  then have "\<bar>y - x\<bar> * 10 ^ n \<le> 1/2"
    using rne_error [of "x * 10 ^ n"] by (metis abs_mult abs_of_pos zero_less_numeral zero_less_power)
  then have yx: "\<bar>y - x\<bar> \<le> 1 / (2 * 10 ^ n)"
    by (simp add: field_simps)
  have "(1::rat) \<le> 10 ^ n" by simp
  then have "(1::rat) \<le> 2 * 10 ^ n" by linarith
  then have "(1::rat) / (2 * 10 ^ n) \<le> 1" by simp
  with yx x have y: "\<bar>y\<bar> \<le> 2 ^ 20 + 1" by linarith
  have "\<bar>fl y - y\<bar> \<le> \<bar>y\<bar> / 2 ^ 53 + 1 / 2 ^ 1075" by (rule fl_error)
  also have "\<dots> \<le> (2 ^ 20 + 1) / 2 ^ 53 + 1 / 2 ^ 1075"
    using y by (intro add_mono divide_right_mono) simp_all
  also have "\<dots> \<le> (1 / 2 ^ 30 :: rat)" by simp
  finally have "\<bar>fl y - y\<bar> \<le> 1 / 2 ^ 30" .
  moreover have "\<bar>fl y - x\<bar> \<le> \<bar>fl y - y\<bar> + \<bar>y - x\<bar>" by linarith
  ultimately have "\<bar>fl y - x\<bar> \<le> 1 / (2 * 10 ^ n) + 1 / 2 ^ 30" using yx by linarith
  then show ?thesis by (simp only: py_round_def y_def)
qed

lemma fl_error_small: "\<bar>x\<bar> \<le> 2 ^ 20 \<Longrightarrow> \<bar>fl x - x\<bar> \<le> 1 / 2 ^ 30"
proof -
  assume x: "\<bar>x\<bar> \<le> 2 ^ 20"
  have "\<bar>fl x - x\<bar> \<le> \<bar>x\<bar> / 2 ^ 53 + 1 / 2 ^ 1075" by (rule fl_error)
  also have "\<dots> \<le> 2 ^ 20 / 2 ^ 53 + 1 / 2 ^ 1075"
    using x by (intro add_mono divide_right_mono) simp_all
  also have "\<dots> \<le> (1 / 2 ^ 30 :: rat)" by simp
  finally show ?thesis .
qed

lemma fl_py_round [simp]: "fl (py_round n x) = py_round n x"
  by (simp add: py_round_def)

text \<open>Rounding twice to the same number of decimals is rounding once.\<close>

lemma py_round_idem:
  assumes x: "\<bar>x\<bar> \<le> 2 ^ 20" and n: "n \<le> 4"
  shows "py_round n (py_round n x) = py_round n x"
proof -
  have p: "(10::rat) ^ n \<le> 10 ^ 4" using power_increasing [OF n, of "10::rat"] by simp
  have "\<bar>x\<bar> * 10 ^ n \<le> 2 ^ 20 * 10 ^ 4"
    using x p by (intro mult_mono) simp_all
  then have "\<bar>x * 10 ^ n\<bar> \<le> 2 ^ 20 * 10 ^ 4" by (simp add: abs_mult)
  then have "x * 10 ^ n \<le> of_int (2 ^ 20 * 10 ^ 4)" "of_int (- (2 ^ 20 * 10 ^ 4)) \<le> x * 10 ^ n"
    by (simp_all add: abs_le_iff)
  then have "rne (x * 10 ^ n) \<le> 2 ^ 20 * 10 ^ 4" "- (2 ^ 20 * 10 ^ 4) \<le> rne (x * 10 ^ n)"
    by (blast intro: rne_le_int rne_ge_int)+
  then have "\<bar>rne (x * 10 ^ n)\<bar> \<le> 2 ^ 50" by simp
  from py_round_decimal [OF this n] show ?thesis by (simp add: py_round_def)
qed

section \<open>What the scoring code relies on\<close>

locale rounding =
  fixes r :: "rat \<Rightarrow> rat"
  assumes r_mono: "x \<le> y \<Longrightarrow> r x \<le> r y"
    and r_zero: "r 0 = 0"
    and r_one: "r 1 = 1"
    and r_hundred: "r 100 = 100"
begin

lemma r_nonneg: "0 \<le> x \<Longrightarrow> 0 \<le> r x"
  using r_mono [of 0 x] by (simp add: r_zero)

lemma r_le_one: "x \<le> 1 \<Longrightarrow> r x \<le> 1"
  using r_mono [of x 1] by (simp add: r_one)

lemma r_le_hundred: "x \<le> 100 \<Longrightarrow> r x \<le> 100"
  using r_mono [of x 100] by (simp add: r_hundred)

lemma r_percent: "0 \<le> x \<Longrightarrow> x \<le> 100 \<Longrightarrow> 0 \<le> r x \<and> r x \<le> 100"
  by (simp add: r_nonneg r_le_hundred)

end

interpretation flr: rounding fl
  by unfold_locales (simp_all add: fl_mono fl_numeral)

interpretation rnd: rounding "py_round n" for n
  using py_round_int [of 1 n] py_round_int [of 100 n]
  by unfold_locales (simp_all add: py_round_mono)

end
