(* ===== verification/Environment.thy ===== *)
theory Environment
  imports Schema PyFloat
begin

text \<open>
  What a request reads from outside the session: the clock (\<open>datetime.now(UTC)\<close>), the server's
  calendar date (\<open>date.today()\<close>), the settings of \<open>core/config.py\<close> that the modelled code uses,
  and the primitives that are parameters: SHA-256 with its hexadecimal rendering, the decimal
  rendering of a float inside a JSON document, and the rounding that the database applies to a
  value stored in a \<open>NUMERIC\<close> column with the given number of decimals. \<open>set_order\<close> is the order in
  which a Python set of the listed integers is iterated, \<open>channels_on\<close> the kinds of the outbound
  channels that are configured (in the iteration order of that set), \<open>token\<close> the value that
  \<open>secrets\<close> or \<open>uuid4\<close> draws during the request, \<open>password_matches\<close> and \<open>password_digest\<close> the calls
  of the Argon2 package, \<open>render_pdf\<close> the WeasyPrint renderer (\<open>None\<close> when it fails or is not
  installed), and \<open>name_order\<close> the order in which the database returns people sorted by name, which
  depends on its collation.
\<close>

record settings =
  objection_window_days :: int
  min_cohort_size :: int
  login_max_failed_attempts :: int
  login_lockout_minutes :: int
  login_attempt_window_minutes :: int
  access_token_expire_minutes :: int
  refresh_token_expire_days :: int
  contract_expiry_alert_days :: int
  sla_reminder_days :: int
  improvement_review_alert_days :: int
  notification_dedup_days :: int
  delivery_batch_size :: nat
  delivery_max_attempts :: int
  delivery_retry_base_minutes :: int

definition default_settings :: settings where
  "default_settings = \<lparr>objection_window_days = 7, min_cohort_size = 5,
     login_max_failed_attempts = 5, login_lockout_minutes = 15,
     login_attempt_window_minutes = 15, access_token_expire_minutes = 30,
     refresh_token_expire_days = 7, contract_expiry_alert_days = 30, sla_reminder_days = 3,
     improvement_review_alert_days = 7, notification_dedup_days = 7,
     delivery_batch_size = 50, delivery_max_attempts = 5, delivery_retry_base_minutes = 5\<rparr>"

record env =
  now :: moment
  today :: date
  cfg :: settings
  sha256_hex :: "ustr \<Rightarrow> string"
  sha256_bytes :: "nat list \<Rightarrow> string"
  float_text :: "rat \<Rightarrow> ustr"
  numeric_col :: "nat \<Rightarrow> rat \<Rightarrow> rat"
  set_order :: "int list \<Rightarrow> int list"
  channels_on :: "delivery_channel list"
  token :: string
  password_matches :: "string \<Rightarrow> string \<Rightarrow> bool"
  password_digest :: "string \<Rightarrow> string"
  render_pdf :: "json option \<Rightarrow> string option \<Rightarrow> nat list option"
  name_order :: "personnel list \<Rightarrow> personnel list"

definition minutes :: "int \<Rightarrow> moment" where
  "minutes n = n * 60 * 1000000"

definition days :: "int \<Rightarrow> moment" where
  "days n = n * 86400 * 1000000"

text \<open>PostgreSQL rounds a value to the scale of a NUMERIC column half away from zero.\<close>

definition half_away :: "nat \<Rightarrow> rat \<Rightarrow> rat" where
  "half_away n x = (if 0 \<le> x then of_int \<lfloor>x * 10 ^ n + 1/2\<rfloor> / 10 ^ n
     else - (of_int \<lfloor>- x * 10 ^ n + 1/2\<rfloor> / 10 ^ n))"

text \<open>An environment for concrete runs: a readable stand-in for the digest, fixed clock.\<close>

definition demo_env :: env where
  "demo_env = \<lparr>now = days 20000, today = 739251, cfg = default_settings,
     sha256_hex = map char_of, sha256_bytes = map char_of, float_text = (\<lambda>q. []),
     numeric_col = half_away, set_order = (\<lambda>xs. sort (remdups xs)), channels_on = [email, sms],
     token = ''token'', password_matches = (\<lambda>p h. h = p), password_digest = (\<lambda>p. p),
     render_pdf = (\<lambda>snap url. None), name_order = (\<lambda>ps. ps)\<rparr>"

text \<open>What the code relies on of a set's iteration: every element once.\<close>

definition iterates :: "env \<Rightarrow> bool" where
  "iterates e \<longleftrightarrow> (\<forall>xs. distinct (set_order e xs) \<and> set (set_order e xs) = set xs)"

text \<open>What the code relies on of a sorted query: the same rows, each once.\<close>

definition arranges :: "env \<Rightarrow> bool" where
  "arranges e \<longleftrightarrow> (\<forall>ps. set (name_order e ps) = set ps \<and> (distinct ps \<longrightarrow> distinct (name_order e ps)))"

lemma demo_env_arranges: "arranges demo_env"
  by (simp add: arranges_def demo_env_def)

lemma demo_env_iterates: "iterates demo_env"
  by (simp add: iterates_def demo_env_def)

end
