(* ===== verification/AuditChain.thy ===== *)
theory AuditChain
  imports Environment "HOL-Library.List_Lexorder" "HOL-Library.Char_ord"
begin

text \<open>
  \<open>services/audit.py\<close>: the append-only event log whose rows are chained by a digest. The
  canonical text of a row (\<open>json.dumps\<close> with sorted keys and no blanks) is built explicitly; the
  digest itself is the parameter \<open>sha256_hex\<close> of the environment. The lemmas show that every
  logged event extends a chain that verifies, that the log is only ever appended to, and that a
  verified chain is determined by its length and last digest when the digest has no collisions.
\<close>

section \<open>json.dumps(..., sort_keys=True, ensure_ascii=False, separators=(",", ":"))\<close>

fun digits_of :: "nat \<Rightarrow> ustr" where
  "digits_of n = (if n < 10 then [48 + n] else digits_of (n div 10) @ [48 + n mod 10])"

declare digits_of.simps [simp del]

definition int_text :: "int \<Rightarrow> ustr" where
  "int_text i = (if i < 0 then 45 # digits_of (nat (- i)) else digits_of (nat i))"

text \<open>
  \<open>date.isoformat()\<close> of a day ordinal (day 1 is 0001-01-01), by counting from the first of March of
  year 0, and \<open>datetime.isoformat()\<close> of a moment in UTC.
\<close>

definition pad_to :: "nat \<Rightarrow> int \<Rightarrow> ustr" where
  "pad_to n k = (let t = int_text k in replicate (n - length t) 48 @ t)"

definition civil_of :: "date \<Rightarrow> int \<times> int \<times> int" where
  "civil_of n =
     (let z = n + 305; era = z div 146097; doe = z mod 146097;
          yoe = (doe - doe div 1460 + doe div 36524 - doe div 146096) div 365;
          doy = doe - (365 * yoe + yoe div 4 - yoe div 100);
          mp = (5 * doy + 2) div 153;
          day = doy - (153 * mp + 2) div 5 + 1;
          month = (if mp < 10 then mp + 3 else mp - 9);
          year = yoe + era * 400 + (if month \<le> 2 then 1 else 0)
      in (year, month, day))"

definition iso_date :: "date \<Rightarrow> string" where
  "iso_date n = (case civil_of n of (y, m, d) \<Rightarrow>
     map char_of (pad_to 4 y @ lit ''-'' @ pad_to 2 m @ lit ''-'' @ pad_to 2 d))"

definition iso_moment :: "moment \<Rightarrow> string" where
  "iso_moment t =
     (let us = t mod 86400000000; sec = us div 1000000; frac = us mod 1000000 in
      iso_date (t div 86400000000 + 719163) @
      map char_of (lit ''T'' @ pad_to 2 (sec div 3600) @ lit '':'' @ pad_to 2 (sec div 60 mod 60) @
        lit '':'' @ pad_to 2 (sec mod 60) @
        (if frac = 0 then [] else lit ''.'' @ pad_to 6 frac) @ lit ''+00:00''))"

definition hex_digit :: "nat \<Rightarrow> nat" where
  "hex_digit n = (if n < 10 then 48 + n else 87 + n)"

definition escape_char :: "nat \<Rightarrow> ustr" where
  "escape_char c =
     (if c = 34 then [92, 34] else if c = 92 then [92, 92]
      else if c = 10 then [92, 110] else if c = 13 then [92, 114]
      else if c = 9 then [92, 116] else if c = 8 then [92, 98] else if c = 12 then [92, 102]
      else if c < 32 then [92, 117, 48, 48, hex_digit (c div 16), hex_digit (c mod 16)]
      else [c])"

definition json_string :: "ustr \<Rightarrow> ustr" where
  "json_string s = [34] @ concat (map escape_char s) @ [34]"

fun join_with :: "ustr \<Rightarrow> ustr list \<Rightarrow> ustr" where
  "join_with sep [] = []"
| "join_with sep [x] = x"
| "join_with sep (x # y # ys) = x @ sep @ join_with sep (y # ys)"

text \<open>The members of an object, rendered, in the order of their keys.\<close>

definition object_text :: "(string \<times> ustr) list \<Rightarrow> ustr" where
  "object_text kvs = [123] @
     join_with [44] (map (\<lambda>(k, v). json_string (lit k) @ [58] @ v) (sort_key fst kvs)) @ [125]"

fun json_text :: "env \<Rightarrow> json \<Rightarrow> ustr"
and json_texts :: "env \<Rightarrow> json list \<Rightarrow> ustr list"
and member_texts :: "env \<Rightarrow> (string \<times> json) list \<Rightarrow> (string \<times> ustr) list" where
  "json_text e JNull = lit ''null''"
| "json_text e (JBool b) = (if b then lit ''true'' else lit ''false'')"
| "json_text e (JInt i) = int_text i"
| "json_text e (JNum q) = float_text e q"
| "json_text e (JStr s) = json_string (lit s)"
| "json_text e (JText s) = json_string s"
| "json_text e (JList xs) = [91] @ join_with [44] (json_texts e xs) @ [93]"
| "json_text e (JObj kvs) = object_text (member_texts e kvs)"
| "json_texts e [] = []"
| "json_texts e (x # xs) = json_text e x # json_texts e xs"
| "member_texts e [] = []"
| "member_texts e ((k, v) # kvs) = (k, json_text e v) # member_texts e kvs"

section \<open>The chain\<close>

definition GENESIS_HASH :: string where
  "GENESIS_HASH = replicate 64 (CHR ''0'')"

definition json_of :: "json option \<Rightarrow> json" where
  "json_of v = (case v of None \<Rightarrow> JNull | Some j \<Rightarrow> j)"

definition canonical ::
  "env \<Rightarrow> int \<Rightarrow> string \<Rightarrow> int option \<Rightarrow> json option \<Rightarrow> json option \<Rightarrow> string \<Rightarrow> ustr" where
  "canonical e actor event rid old new prev =
     json_text e (JObj
       [(''actor_user_id'', JInt actor), (''event_type'', JStr event),
        (''evaluation_record_id'', json_opt_int rid),
        (''old_value'', json_of old), (''new_value'', json_of new), (''prev_hash'', JStr prev)])"

definition compute_hash ::
  "env \<Rightarrow> int \<Rightarrow> string \<Rightarrow> int option \<Rightarrow> json option \<Rightarrow> json option \<Rightarrow> string \<Rightarrow> string" where
  "compute_hash e actor event rid old new prev =
     sha256_hex e (canonical e actor event rid old new prev)"

text \<open>\<open>ORDER BY id\<close>.\<close>

definition audit_rows :: "db \<Rightarrow> audit_log list" where
  "audit_rows d = sort_key al_id (audits d)"

definition last_hash :: "db \<Rightarrow> string" where
  "last_hash d = (case audit_rows d of [] \<Rightarrow> GENESIS_HASH
     | r # rs \<Rightarrow> al_entry_hash (last (r # rs)))"

definition log_event ::
  "env \<Rightarrow> int \<Rightarrow> string \<Rightarrow> int option \<Rightarrow> json option \<Rightarrow> json option \<Rightarrow> db \<Rightarrow> db" where
  "log_event e actor event rid old new d =
     (let prev = last_hash d;
          entry = compute_hash e actor event rid old new prev
      in d\<lparr>audits := audits d @ [\<lparr>al_id = tbl_next al_id (audits d), al_record = rid,
            al_actor = actor, al_event = event, al_old = old, al_new = new,
            al_created_at = now e, al_prev_hash = prev, al_entry_hash = entry\<rparr>]\<rparr>)"

datatype chain_report =
    ChainOk nat
  | ChainLinkBroken nat int
  | ChainRowEdited nat int

text \<open>The verification loop: \<open>checked\<close> counts the rows read, \<open>expected\<close> is the digest the row must follow.\<close>

fun verify_rows :: "env \<Rightarrow> nat \<Rightarrow> string \<Rightarrow> audit_log list \<Rightarrow> chain_report" where
  "verify_rows e checked expected [] = ChainOk checked"
| "verify_rows e checked expected (r # rs) =
     (let recomputed = compute_hash e (al_actor r) (al_event r) (al_record r) (al_old r) (al_new r)
                         (al_prev_hash r)
      in if al_prev_hash r \<noteq> expected then ChainLinkBroken (Suc checked) (al_id r)
         else if recomputed \<noteq> al_entry_hash r then ChainRowEdited (Suc checked) (al_id r)
         else verify_rows e (Suc checked) (al_entry_hash r) rs)"

definition verify_chain :: "env \<Rightarrow> nat option \<Rightarrow> db \<Rightarrow> chain_report" where
  "verify_chain e limit d =
     verify_rows e 0 GENESIS_HASH
       (case limit of None \<Rightarrow> audit_rows d | Some n \<Rightarrow> take n (audit_rows d))"

section \<open>The log only grows\<close>

definition audit_prefix :: "db \<Rightarrow> db \<Rightarrow> bool" where
  "audit_prefix d d' \<longleftrightarrow> (\<exists>new. audits d' = audits d @ new)"

lemma audit_prefix_refl [simp, intro]: "audit_prefix d d"
  by (simp add: audit_prefix_def)

lemma audit_prefix_trans: "audit_prefix a b \<Longrightarrow> audit_prefix b c \<Longrightarrow> audit_prefix a c"
  by (auto simp: audit_prefix_def)

lemma audit_prefix_same: "audits d' = audits d \<Longrightarrow> audit_prefix d d'"
  by (simp add: audit_prefix_def)

lemma log_event_prefix [intro]: "audit_prefix d (log_event e a t r x y d)"
  by (simp add: audit_prefix_def log_event_def Let_def)

lemma log_event_tables [frame_simps]:
  "personnels (log_event e a t r x y d) = personnels d"
  "users (log_event e a t r x y d) = users d"
  "records (log_event e a t r x y d) = records d"
  "scores (log_event e a t r x y d) = scores d"
  "comments (log_event e a t r x y d) = comments d"
  "accesses (log_event e a t r x y d) = accesses d"
  "periods (log_event e a t r x y d) = periods d"
  "schemes (log_event e a t r x y d) = schemes d"
  "indicators (log_event e a t r x y d) = indicators d"
  "frameworks (log_event e a t r x y d) = frameworks d"
  "assessments (log_event e a t r x y d) = assessments d"
  "assessment_scores (log_event e a t r x y d) = assessment_scores d"
  "notifications (log_event e a t r x y d) = notifications d"
  "deliveries (log_event e a t r x y d) = deliveries d"
  "sessions (log_event e a t r x y d) = sessions d"
  "login_attempts (log_event e a t r x y d) = login_attempts d"
  "capabilities (log_event e a t r x y d) = capabilities d"
  "modules (log_event e a t r x y d) = modules d"
  "plans (log_event e a t r x y d) = plans d"
  "goals (log_event e a t r x y d) = goals d"
  "org_units (log_event e a t r x y d) = org_units d"
  "scheduler_runs (log_event e a t r x y d) = scheduler_runs d"
  "documents (log_event e a t r x y d) = documents d"
  "code_seq (log_event e a t r x y d) = code_seq d"
  by (simp_all add: log_event_def Let_def)

lemma log_event_gets [frame_simps]:
  "get_user (log_event e a t r x y d) = get_user d"
  "get_personnel (log_event e a t r x y d) = get_personnel d"
  "get_record (log_event e a t r x y d) = get_record d"
  "get_scheme (log_event e a t r x y d) = get_scheme d"
  "get_framework (log_event e a t r x y d) = get_framework d"
  "get_period (log_event e a t r x y d) = get_period d"
  "get_plan (log_event e a t r x y d) = get_plan d"
  "get_delivery (log_event e a t r x y d) = get_delivery d"
  by (simp_all add: store_defs frame_simps)

lemma log_event_last:
  "audits (log_event e a t r x y d) = audits d @ [last (audits (log_event e a t r x y d))]"
  "al_event (last (audits (log_event e a t r x y d))) = t"
  "al_actor (last (audits (log_event e a t r x y d))) = a"
  "al_record (last (audits (log_event e a t r x y d))) = r"
  "al_new (last (audits (log_event e a t r x y d))) = y"
  "al_old (last (audits (log_event e a t r x y d))) = x"
  by (simp_all add: log_event_def Let_def)

section \<open>Verified chains\<close>

definition chain_end :: "string \<Rightarrow> audit_log list \<Rightarrow> string" where
  "chain_end expected rs = (if rs = [] then expected else al_entry_hash (last rs))"

lemma chain_end_simps [simp]:
  "chain_end ex [] = ex"
  "chain_end ex (r # rs) = chain_end (al_entry_hash r) rs"
  by (simp_all add: chain_end_def)

lemma verify_rows_append:
  "verify_rows e n ex (rs @ ss) =
     (case verify_rows e n ex rs of ChainOk k \<Rightarrow> verify_rows e k (chain_end ex rs) ss | bad \<Rightarrow> bad)"
  by (induction rs arbitrary: n ex) (simp_all add: Let_def split: chain_report.splits)

lemma verify_rows_count: "verify_rows e n ex rs = ChainOk k \<Longrightarrow> k = n + length rs"
proof (induction rs arbitrary: n ex)
  case (Cons r rs)
  then have "verify_rows e (Suc n) (al_entry_hash r) rs = ChainOk k"
    by (simp add: Let_def split: if_splits)
  from Cons.IH [OF this] show ?case by simp
qed simp

lemma verify_rows_snoc:
  "verify_rows e n ex (rs @ [r]) = ChainOk k \<longleftrightarrow>
     verify_rows e n ex rs = ChainOk (n + length rs) \<and> k = Suc (n + length rs) \<and>
     al_prev_hash r = chain_end ex rs \<and>
     compute_hash e (al_actor r) (al_event r) (al_record r) (al_old r) (al_new r) (al_prev_hash r)
       = al_entry_hash r"
  by (cases "verify_rows e n ex rs")
    (auto simp: verify_rows_append Let_def dest: verify_rows_count)

text \<open>A chain that verifies still verifies on every shorter reading (\<open>limit\<close>).\<close>

lemma verify_rows_take:
  "verify_rows e n ex rs = ChainOk k \<Longrightarrow> \<exists>j. verify_rows e n ex (take m rs) = ChainOk j"
proof (induction rs arbitrary: n ex m)
  case (Cons r rs)
  then show ?case by (cases m) (auto simp: Let_def split: if_splits)
qed simp

definition audit_ok :: "env \<Rightarrow> db \<Rightarrow> bool" where
  "audit_ok e d \<longleftrightarrow> sorted_wrt (<) (map al_id (audits d)) \<and>
     verify_rows e 0 GENESIS_HASH (audits d) = ChainOk (length (audits d))"

lemma sorted_key_id: "sorted (map f xs) \<Longrightarrow> sort_key f xs = xs"
  by (induction xs) (auto simp: insort_is_Cons)

lemma strict_sorted_le: "sorted_wrt (<) (xs :: int list) \<Longrightarrow> sorted xs"
  by (rule sorted_wrt_mono_rel [of _ "(<)"]) simp_all

lemma audit_rows_id: "sorted_wrt (<) (map al_id (audits d)) \<Longrightarrow> audit_rows d = audits d"
  by (simp add: audit_rows_def sorted_key_id strict_sorted_le)

lemma audit_ok_verify: "audit_ok e d \<Longrightarrow> verify_chain e None d = ChainOk (length (audits d))"
  by (simp add: audit_ok_def verify_chain_def audit_rows_id)

lemma audit_ok_empty: "audits d = [] \<Longrightarrow> audit_ok e d"
  by (simp add: audit_ok_def)

lemma last_hash_end: "last_hash d = chain_end GENESIS_HASH (audit_rows d)"
  by (simp add: last_hash_def chain_end_def split: list.split)

lemma audit_ok_log: "audit_ok e d \<Longrightarrow> audit_ok e (log_event e a t r x y d)"
proof -
  assume ok: "audit_ok e d"
  have id: "audit_rows d = audits d" using ok by (simp add: audit_ok_def audit_rows_id)
  have fresh: "\<forall>k\<in>set (map al_id (audits d)). k < tbl_next al_id (audits d)"
    using tbl_next_gt [where key = al_id] by fastforce
  show ?thesis
    using ok fresh
    by (simp add: audit_ok_def log_event_def Let_def sorted_wrt_append verify_rows_snoc
        last_hash_end id)
qed

text \<open>An operation that leaves the log alone, or that only logs events, keeps the log well formed.\<close>

lemma audit_ok_same: "audits d' = audits d \<Longrightarrow> audit_ok e d' = audit_ok e d"
  by (simp add: audit_ok_def)

section \<open>The contract of an event sink\<close>

text \<open>
  What the services rely on when they report an event: reporting appends one row and keeps the
  log well formed. \<open>log_event\<close> provides it.
\<close>

locale event_sink =
  fixes emit :: "'e \<Rightarrow> 'd \<Rightarrow> 'd"
    and rows :: "'d \<Rightarrow> 'r list"
    and well :: "'d \<Rightarrow> bool"
  assumes emit_appends: "\<exists>r. rows (emit x d) = rows d @ [r]"
    and emit_well: "well d \<Longrightarrow> well (emit x d)"
begin

lemma emits_append: "\<exists>new. rows (fold emit xs d) = rows d @ new \<and> length new = length xs"
proof (induction xs arbitrary: d)
  case (Cons x xs)
  obtain r where "rows (emit x d) = rows d @ [r]" using emit_appends by blast
  moreover obtain new where "rows (fold emit xs (emit x d)) = rows (emit x d) @ new"
    "length new = length xs" using Cons.IH by blast
  ultimately show ?case by (intro exI [of _ "r # new"]) simp
qed simp

lemma emits_well: "well d \<Longrightarrow> well (fold emit xs d)"
  by (induction xs arbitrary: d) (simp_all add: emit_well)

end

interpretation audit_sink: event_sink
  "\<lambda>(a, t, r, x, y). log_event e a t r x y" audits "audit_ok e" for e
proof
  show "\<exists>row. audits ((\<lambda>(a, t, r, x, y). log_event e a t r x y) c d) = audits d @ [row]" for c d
    by (cases c) (auto simp: log_event_def Let_def)
  show "audit_ok e d \<Longrightarrow> audit_ok e ((\<lambda>(a, t, r, x, y). log_event e a t r x y) c d)" for c d
    by (cases c) (auto simp: audit_ok_log)
qed

section \<open>Tampering\<close>

text \<open>A digest is 64 hexadecimal characters, so its canonical rendering is itself in quotes.\<close>

definition is_hex_digest :: "string \<Rightarrow> bool" where
  "is_hex_digest h \<longleftrightarrow> length h = 64 \<and> (\<forall>c\<in>set h. c \<in> set ''0123456789abcdef'')"

lemma lit_inject [simp]: "lit a = lit b \<longleftrightarrow> a = b"
proof -
  have "inj (of_char :: char \<Rightarrow> nat)" by (rule inj_of_char)
  then show ?thesis by (simp add: lit_def inj_map_eq_map)
qed

lemma escape_hex: "c \<in> set ''0123456789abcdef'' \<Longrightarrow> escape_char (of_char c) = [of_char c]"
  by (auto simp: escape_char_def)

lemma json_string_digest:
  assumes "is_hex_digest h"
  shows "json_string (lit h) = [34] @ lit h @ [34]"
proof -
  have "concat (map escape_char (lit h)) = lit h"
    if "\<forall>c\<in>set h. c \<in> set ''0123456789abcdef''" for h
    using that
  proof (induction h)
    case (Cons c h)
    then have "escape_char (of_char c) = [of_char c]" by (intro escape_hex) simp
    with Cons show ?case by (simp add: lit_def)
  qed (simp add: lit_def)
  with assms show ?thesis by (simp add: json_string_def is_hex_digest_def)
qed

lemma payload_keys_sorted:
  "sort_key fst [(''actor_user_id'', a), (''event_type'', b), (''evaluation_record_id'', c),
     (''old_value'', v), (''new_value'', w), (''prev_hash'', p)]
   = [(''actor_user_id'', a), (''evaluation_record_id'', c), (''event_type'', b),
     (''new_value'', w), (''old_value'', v), (''prev_hash'', p)]"
  by (simp add: sort_key_def less_char_def)

lemma canonical_tail:
  "\<exists>front. \<forall>prev. canonical e a t r x y prev = front @ json_string (lit prev) @ [125]"
proof (intro exI allI)
  fix prev
  show "canonical e a t r x y prev =
    ([123] @ (json_string (lit ''actor_user_id'') @ [58] @ int_text a) @ [44]
      @ (json_string (lit ''evaluation_record_id'') @ [58] @ json_text e (json_opt_int r)) @ [44]
      @ (json_string (lit ''event_type'') @ [58] @ json_string (lit t)) @ [44]
      @ (json_string (lit ''new_value'') @ [58] @ json_text e (json_of y)) @ [44]
      @ (json_string (lit ''old_value'') @ [58] @ json_text e (json_of x)) @ [44]
      @ json_string (lit ''prev_hash'') @ [58]) @ json_string (lit prev) @ [125]"
    by (simp add: canonical_def object_text_def payload_keys_sorted)
qed

lemma canonical_prev:
  assumes "canonical e a t r x y p = canonical e a' t' r' x' y' p'"
    and "is_hex_digest p" and "is_hex_digest p'"
  shows "p = p'"
proof -
  obtain f f' where
    "canonical e a t r x y p = (f @ [34]) @ lit p @ [34, 125]"
    "canonical e a' t' r' x' y' p' = (f' @ [34]) @ lit p' @ [34, 125]"
    using canonical_tail [of e a t r x y] canonical_tail [of e a' t' r' x' y'] assms(2,3)
    by (metis (no_types, lifting) append_assoc append_Cons append_Nil json_string_digest)
  with assms(1) have "(f @ [34]) @ lit p @ [34, 125] = (f' @ [34]) @ lit p' @ [34, 125]"
    by simp
  moreover have "length (lit p @ [34, 125]) = length (lit p' @ [34, 125])"
    using assms(2,3) by (simp add: lit_def is_hex_digest_def)
  ultimately have "lit p = lit p'" by (metis append_eq_append_conv append_same_eq)
  then show ?thesis by simp
qed

definition row_text :: "env \<Rightarrow> audit_log \<Rightarrow> ustr" where
  "row_text e r = canonical e (al_actor r) (al_event r) (al_record r) (al_old r) (al_new r)
     (al_prev_hash r)"

lemma verified_row_hash:
  "verify_rows e n ex rs = ChainOk k \<Longrightarrow> r \<in> set rs \<Longrightarrow> al_entry_hash r = sha256_hex e (row_text e r)"
  by (induction rs arbitrary: n ex)
    (auto simp: Let_def compute_hash_def row_text_def split: if_splits)

lemma verified_prev_hex:
  assumes "\<And>t. is_hex_digest (sha256_hex e t)"
  shows "verify_rows e n ex rs = ChainOk k \<Longrightarrow> is_hex_digest ex \<Longrightarrow> r \<in> set rs \<Longrightarrow>
    is_hex_digest (al_prev_hash r)"
proof (induction rs arbitrary: n ex)
  case (Cons s rs)
  from Cons.prems(1) have s: "al_prev_hash s = ex" "al_entry_hash s = sha256_hex e (row_text e s)"
    "verify_rows e (Suc n) (al_entry_hash s) rs = ChainOk k"
    by (auto simp: Let_def compute_hash_def row_text_def split: if_splits)
  then show ?case using Cons.IH [OF s(3)] Cons.prems assms by auto
qed simp

lemma genesis_hex: "is_hex_digest GENESIS_HASH"
  by (simp add: is_hex_digest_def GENESIS_HASH_def)

lemma verified_chain_determined:
  assumes hex: "\<And>t. is_hex_digest (sha256_hex e t)"
  shows "length as = length bs \<Longrightarrow>
    inj_on (sha256_hex e) (row_text e ` (set as \<union> set bs)) \<Longrightarrow>
    verify_rows e 0 GENESIS_HASH as = ChainOk i \<Longrightarrow> verify_rows e 0 GENESIS_HASH bs = ChainOk j \<Longrightarrow>
    (as \<noteq> [] \<Longrightarrow> al_entry_hash (last as) = al_entry_hash (last bs)) \<Longrightarrow>
    map (row_text e) as = map (row_text e) bs"
proof (induction as arbitrary: bs i j rule: rev_induct)
  case (snoc a as)
  from snoc.prems(1) obtain b cs where bs: "bs = cs @ [b]" and len: "length as = length cs"
    by (metis length_append_singleton length_Suc_conv_rev)
  have va: "verify_rows e 0 GENESIS_HASH as = ChainOk (length as)"
    and pa: "al_prev_hash a = chain_end GENESIS_HASH as"
    using snoc.prems(3) by (simp_all add: verify_rows_snoc)
  have vb: "verify_rows e 0 GENESIS_HASH cs = ChainOk (length cs)"
    and pb: "al_prev_hash b = chain_end GENESIS_HASH cs"
    using snoc.prems(4) by (simp_all add: verify_rows_snoc bs)
  have "al_entry_hash a = al_entry_hash b" using snoc.prems(5) bs by simp
  then have "sha256_hex e (row_text e a) = sha256_hex e (row_text e b)"
    using verified_row_hash [OF snoc.prems(3), of a] verified_row_hash [OF snoc.prems(4), of b]
    by (simp add: bs)
  then have eq: "row_text e a = row_text e b"
    by (rule inj_onD [OF snoc.prems(2)]) (simp_all add: bs)
  have "is_hex_digest (al_prev_hash a)"
    by (rule verified_prev_hex [OF hex snoc.prems(3) genesis_hex]) simp
  moreover have "is_hex_digest (al_prev_hash b)"
    by (rule verified_prev_hex [OF hex snoc.prems(4) genesis_hex]) (simp add: bs)
  ultimately have prev: "al_prev_hash a = al_prev_hash b"
    by (rule canonical_prev [OF eq [unfolded row_text_def]])
  have last: "as \<noteq> [] \<Longrightarrow> al_entry_hash (last as) = al_entry_hash (last cs)"
    using prev pa pb len by (auto simp: chain_end_def split: if_splits)
  have "inj_on (sha256_hex e) (row_text e ` (set as \<union> set cs))"
    using snoc.prems(2) by (rule inj_on_subset) (auto simp: bs)
  from snoc.IH [OF len this va vb last] show ?case by (simp add: bs eq)
qed simp

end
