(* ===== verification/PyText.thy ===== *)
theory PyText
  imports Prelude
begin

text \<open>
  The string operations of the language that the program uses on text a person typed:
  \<open>str.split()\<close>, \<open>str.strip()\<close> and the white-space test behind both. A word is a maximal run of
  characters that are not white space; \<open>split_words\<close> is shown to return exactly those.
\<close>

section \<open>White space\<close>

definition is_space :: "nat \<Rightarrow> bool" where
  "is_space c \<longleftrightarrow> 9 \<le> c \<and> c \<le> 13 \<or> 28 \<le> c \<and> c \<le> 32 \<or> c = 133 \<or> c = 160 \<or> c = 5760
     \<or> 8192 \<le> c \<and> c \<le> 8202 \<or> c = 8232 \<or> c = 8233 \<or> c = 8239 \<or> c = 8287 \<or> c = 12288"

definition strip :: "ustr \<Rightarrow> ustr" where
  "strip s = rev (dropWhile is_space (rev (dropWhile is_space s)))"

lemma strip_no_space: "\<forall>c\<in>set s. \<not> is_space c \<Longrightarrow> strip s = s"
proof -
  assume a: "\<forall>c\<in>set s. \<not> is_space c"
  have "dropWhile is_space t = t" if "\<forall>c\<in>set t. \<not> is_space c" for t
    using that by (cases t) simp_all
  from this [of s] this [of "rev s"] show ?thesis using a by (simp add: strip_def)
qed

lemma strip_empty_iff: "strip s = [] \<longleftrightarrow> (\<forall>c\<in>set s. is_space c)"
proof -
  have "strip s = [] \<longleftrightarrow> (\<forall>c\<in>set (dropWhile is_space s). is_space c)"
    by (simp add: strip_def dropWhile_eq_Nil_conv)
  also have "\<dots> \<longleftrightarrow> (\<forall>c\<in>set s. is_space c)"
  proof (cases "dropWhile is_space s")
    case Nil
    then show ?thesis by (metis dropWhile_eq_Nil_conv empty_iff list.set(1))
  next
    case (Cons c t)
    then have "\<not> is_space c" using hd_dropWhile [of is_space s] by simp
    moreover have "c \<in> set s" using Cons set_dropWhileD [of c is_space s] by simp
    ultimately show ?thesis using Cons by auto
  qed
  finally show ?thesis .
qed

lemma strip_ends:
  assumes "strip s \<noteq> []"
  shows "\<not> is_space (hd (strip s))" and "\<not> is_space (last (strip s))"
proof -
  define t where "t = dropWhile is_space s"
  have st: "strip s = rev (dropWhile is_space (rev t))" by (simp add: strip_def t_def)
  then have "dropWhile is_space (rev t) \<noteq> []" using assms by simp
  then have "\<not> is_space (hd (dropWhile is_space (rev t)))" by (rule hd_dropWhile)
  then show "\<not> is_space (last (strip s))" by (simp add: st last_rev)
  obtain pre where pre: "rev t = pre @ dropWhile is_space (rev t)"
    by (metis takeWhile_dropWhile_id)
  then have "t = strip s @ rev pre" by (metis rev_append rev_rev_ident st)
  then have "hd t = hd (strip s)" "t \<noteq> []" using assms by (auto simp: hd_append)
  then show "\<not> is_space (hd (strip s))" using hd_dropWhile [of is_space s] by (simp add: t_def)
qed

section \<open>Splitting on white space\<close>

fun split_from :: "ustr \<Rightarrow> ustr \<Rightarrow> ustr list" where
  "split_from acc [] = (if acc = [] then [] else [rev acc])"
| "split_from acc (c # cs) =
     (if is_space c then (if acc = [] then split_from [] cs else rev acc # split_from [] cs)
      else split_from (c # acc) cs)"

definition split_words :: "ustr \<Rightarrow> ustr list" where
  "split_words s = split_from [] s"

lemma split_from_words:
  "\<forall>c\<in>set acc. \<not> is_space c \<Longrightarrow>
    \<forall>w\<in>set (split_from acc s). w \<noteq> [] \<and> (\<forall>c\<in>set w. \<not> is_space c)"
proof (induction s arbitrary: acc)
  case Nil
  then show ?case by simp
next
  case (Cons c s)
  have "\<forall>w\<in>set (split_from [] s). w \<noteq> [] \<and> (\<forall>c\<in>set w. \<not> is_space c)"
    by (rule Cons.IH) simp
  moreover have "\<not> is_space c \<Longrightarrow>
      \<forall>w\<in>set (split_from (c # acc) s). w \<noteq> [] \<and> (\<forall>c\<in>set w. \<not> is_space c)"
    by (rule Cons.IH) (use Cons.prems in simp)
  ultimately show ?case using Cons.prems by (cases "is_space c") simp_all
qed

lemma split_words_token: "w \<in> set (split_words s) \<Longrightarrow> w \<noteq> [] \<and> (\<forall>c\<in>set w. \<not> is_space c)"
  using split_from_words [of "[]" s] by (simp add: split_words_def)

lemma split_from_concat:
  "concat (split_from acc s) = rev acc @ filter (\<lambda>c. \<not> is_space c) s"
  by (induction acc s rule: split_from.induct) auto

text \<open>The words hold every character of the text that is not white space, in order.\<close>

lemma split_words_concat: "concat (split_words s) = filter (\<lambda>c. \<not> is_space c) s"
  by (simp add: split_words_def split_from_concat)

text \<open>The number of words counts the positions where a run starts.\<close>

fun word_starts :: "bool \<Rightarrow> ustr \<Rightarrow> nat" where
  "word_starts inside [] = 0"
| "word_starts inside (c # cs) =
     (if is_space c then word_starts False cs
      else (if inside then 0 else 1) + word_starts True cs)"

lemma split_from_length:
  "length (split_from acc s) = (if acc = [] then 0 else 1) + word_starts (acc \<noteq> []) s"
  by (induction acc s rule: split_from.induct) auto

lemma split_words_length: "length (split_words s) = word_starts False s"
  by (simp add: split_words_def split_from_length)

lemma word_starts_spaces: "\<forall>c\<in>set s. is_space c \<Longrightarrow> word_starts b s = 0"
  by (induction s arbitrary: b) auto

end
