(* ===== verification/Schemes.thy ===== *)
theory Schemes
  imports AuditChain PyText
begin

text \<open>
  The versioned scoring schemes: \<open>core/constants.py\<close>, \<open>services/scoring_scheme.py\<close>, the input
  validation of \<open>schemas/scoring_scheme.py\<close> and the endpoints of \<open>routers/scoring_schemes.py\<close> that
  change state. The lemmas show that a result table that passes validation assigns exactly one
  band to every percentage, that at most one scheme is active whatever the operations, that the
  author of a scheme cannot activate it, and that the rules a case is stamped with never change.
\<close>

section \<open>Rules\<close>

record rules =
  r_general_weight :: rat
  r_specialized_weight :: rat
  r_evidence_scores :: "int list"
  r_evidence_min :: int
  r_evidence_max :: int
  r_thresholds :: "(rat \<times> ustr) list"
  r_weights :: "(int \<times> rat) list"
  r_version :: "int option"
  r_bonus_max :: rat
  r_plan_max_pct :: rat

definition weight_for :: "rules \<Rightarrow> int \<Rightarrow> rat" where
  "weight_for r i = (case map_of (r_weights r) i of None \<Rightarrow> 1 | Some w \<Rightarrow> w)"

text \<open>The first band whose upper end exceeds the percentage; the last one when none does.\<close>

fun band_for :: "(rat \<times> ustr) list \<Rightarrow> rat \<Rightarrow> ustr option" where
  "band_for [] pct = None"
| "band_for ((upper, label) # rest) pct = (if pct < upper then Some label else band_for rest pct)"

definition recommendation_for :: "rules \<Rightarrow> rat \<Rightarrow> py_exc + ustr" where
  "recommendation_for r pct = (case band_for (r_thresholds r) pct of
     Some label \<Rightarrow> Inr label
   | None \<Rightarrow> (if r_thresholds r = [] then Inl IndexError else Inr (snd (last (r_thresholds r)))))"

definition GENERAL_SECTION_WEIGHT :: rat where
  "GENERAL_SECTION_WEIGHT = fl (6/10)"

definition SPECIALIZED_SECTION_WEIGHT :: rat where
  "SPECIALIZED_SECTION_WEIGHT = fl (4/10)"

definition BONUS_MAX_POINTS :: rat where
  "BONUS_MAX_POINTS = 5"

definition FINAL_RESULT_THRESHOLDS :: "(rat \<times> ustr) list" where
  "FINAL_RESULT_THRESHOLDS =
    [(60, lit ''no renewal''), (75, lit ''conditional renewal''),
     (90, lit ''standard renewal''), (101, lit ''renewal with distinction'')]"

definition IMPROVEMENT_PLAN_MAX_PCT :: rat where
  "IMPROVEMENT_PLAN_MAX_PCT = fst (FINAL_RESULT_THRESHOLDS ! 1)"

definition LEGACY_RULES :: rules where
  "LEGACY_RULES = \<lparr>r_general_weight = GENERAL_SECTION_WEIGHT,
     r_specialized_weight = SPECIALIZED_SECTION_WEIGHT, r_evidence_scores = [1, 5],
     r_evidence_min = 3, r_evidence_max = 40, r_thresholds = FINAL_RESULT_THRESHOLDS,
     r_weights = [], r_version = None, r_bonus_max = BONUS_MAX_POINTS,
     r_plan_max_pct = IMPROVEMENT_PLAN_MAX_PCT\<rparr>"

definition rules_from :: "scoring_scheme \<Rightarrow> rules" where
  "rules_from s = \<lparr>r_general_weight = fl (ss_general_weight s),
     r_specialized_weight = fl (ss_specialized_weight s),
     r_evidence_scores = ss_evidence_scores s, r_evidence_min = ss_evidence_min s,
     r_evidence_max = ss_evidence_max s,
     r_thresholds = map (\<lambda>(u, l). (fl u, l)) (ss_thresholds s),
     r_weights = map (\<lambda>(k, v). (k, fl v)) (ss_weights s), r_version = Some (ss_version s),
     r_bonus_max = fl (ss_bonus_max s), r_plan_max_pct = fl (ss_plan_max_pct s)\<rparr>"

definition active_scheme :: "db \<Rightarrow> scoring_scheme option" where
  "active_scheme d = find (\<lambda>s. ss_status s = scheme_active) (schemes d)"

definition rules_for_record :: "db \<Rightarrow> evaluation_record \<Rightarrow> rules" where
  "rules_for_record d r =
     (let fallback = (case active_scheme d of Some s \<Rightarrow> rules_from s | None \<Rightarrow> LEGACY_RULES) in
      case er_scheme r of
        None \<Rightarrow> fallback
      | Some k \<Rightarrow> (case get_scheme d k of Some s \<Rightarrow> rules_from s | None \<Rightarrow> fallback))"

definition current_rules :: "db \<Rightarrow> rules" where
  "current_rules d = (case active_scheme d of Some s \<Rightarrow> rules_from s | None \<Rightarrow> LEGACY_RULES)"

definition next_version :: "db \<Rightarrow> int" where
  "next_version d = (case schemes d of [] \<Rightarrow> 0 | _ \<Rightarrow> Max (set (map ss_version (schemes d)))) + 1"

section \<open>Activation\<close>

definition activate :: "env \<Rightarrow> int \<Rightarrow> int \<Rightarrow> db \<Rightarrow> db result" where
  "activate e k actor d = (case get_scheme d k of
     None \<Rightarrow> Inr d
   | Some s \<Rightarrow>
      if ss_created_by s = Some actor then Inl (HTTPException 403 ''the author cannot activate'')
      else let d1 = (case active_scheme d of None \<Rightarrow> d
                     | Some p \<Rightarrow> upd_scheme (ss_id p)
                         (\<lambda>p. p\<lparr>ss_status := scheme_retired, ss_retired_at := Some (now e)\<rparr>) d)
           in Inr (upd_scheme k (\<lambda>s. s\<lparr>ss_status := scheme_active, ss_activated_at := Some (now e),
                                      ss_activated_by := Some actor\<rparr>) d1))"

section \<open>Input validation\<close>

record scheme_input =
  si_name :: ustr
  si_general_weight :: rat
  si_specialized_weight :: rat
  si_evidence_scores :: "int list"
  si_evidence_min :: int
  si_evidence_max :: int
  si_bonus_max :: rat
  si_plan_max_pct :: rat
  si_thresholds :: "(rat \<times> ustr) list"
  si_weights :: "(int \<times> rat) list"

definition MAX_THRESHOLDS :: nat where
  "MAX_THRESHOLDS = 8"

definition band_ok :: "rat \<times> ustr \<Rightarrow> bool" where
  "band_ok b \<longleftrightarrow> 0 < fst b \<and> fst b \<le> 1000 \<and> 1 \<le> length (snd b) \<and> length (snd b) \<le> 200"

text \<open>The field constraints of the request model, then its cross-field validator.\<close>

definition scheme_fields_ok :: "scheme_input \<Rightarrow> bool" where
  "scheme_fields_ok p \<longleftrightarrow>
     1 \<le> length (si_name p) \<and> length (si_name p) \<le> 200 \<and>
     0 \<le> si_general_weight p \<and> si_general_weight p \<le> 1 \<and>
     0 \<le> si_specialized_weight p \<and> si_specialized_weight p \<le> 1 \<and>
     0 \<le> si_evidence_min p \<and> si_evidence_min p \<le> 200 \<and>
     1 \<le> si_evidence_max p \<and> si_evidence_max p \<le> 1000 \<and>
     0 \<le> si_bonus_max p \<and> si_bonus_max p \<le> 20 \<and>
     0 \<le> si_plan_max_pct p \<and> si_plan_max_pct p \<le> 100 \<and>
     1 \<le> length (si_thresholds p) \<and> length (si_thresholds p) \<le> MAX_THRESHOLDS \<and>
     (\<forall>b\<in>set (si_thresholds p). band_ok b)"

definition check_scheme :: "scheme_input \<Rightarrow> string + scheme_input" where
  "check_scheme p =
     (let total = py_round 6 (fl (si_general_weight p + si_specialized_weight p));
          uppers = map fst (si_thresholds p) in
      if total \<noteq> 1 then Inl ''section weights must add up to 1''
      else if \<exists>s\<in>set (si_evidence_scores p). s < 1 \<or> 5 < s then Inl ''evidence scores out of range''
      else if \<not> distinct (si_evidence_scores p) then Inl ''evidence scores repeated''
      else if si_evidence_max p < si_evidence_min p then Inl ''minimum words above maximum''
      else if \<not> (sorted uppers \<and> distinct uppers) then Inl ''thresholds must ascend''
      else if last uppers \<le> 100 then Inl ''last threshold must exceed 100''
      else if \<exists>w\<in>set (map snd (si_weights p)). w \<le> 0 then Inl ''weights must be positive''
      else Inr p)"

definition validate_scheme :: "scheme_input \<Rightarrow> string + scheme_input" where
  "validate_scheme p = (if scheme_fields_ok p then check_scheme p else Inl ''field constraint'')"

definition rules_from_input :: "scheme_input \<Rightarrow> rules" where
  "rules_from_input p = \<lparr>r_general_weight = si_general_weight p,
     r_specialized_weight = si_specialized_weight p, r_evidence_scores = si_evidence_scores p,
     r_evidence_min = si_evidence_min p, r_evidence_max = si_evidence_max p,
     r_thresholds = si_thresholds p, r_weights = si_weights p, r_version = None,
     r_bonus_max = si_bonus_max p, r_plan_max_pct = si_plan_max_pct p\<rparr>"

section \<open>Endpoints\<close>

definition create_scheme :: "env \<Rightarrow> current_user \<Rightarrow> scheme_input \<Rightarrow> db \<Rightarrow> scoring_scheme \<times> db" where
  "create_scheme e u p d =
     (let s = \<lparr>ss_id = tbl_next ss_id (schemes d), ss_version = next_version d, ss_name = si_name p,
            ss_status = scheme_draft,
            ss_general_weight = numeric_col e 3 (si_general_weight p),
            ss_specialized_weight = numeric_col e 3 (si_specialized_weight p),
            ss_evidence_scores = si_evidence_scores p, ss_evidence_min = si_evidence_min p,
            ss_evidence_max = si_evidence_max p,
            ss_bonus_max = numeric_col e 2 (si_bonus_max p),
            ss_plan_max_pct = numeric_col e 2 (si_plan_max_pct p),
            ss_thresholds = si_thresholds p, ss_weights = si_weights p,
            ss_created_by = Some (cu_id u), ss_activated_by = None, ss_activated_at = None,
            ss_retired_at = None\<rparr>
      in (s, log_event e (cu_id u) ''scoring_scheme_drafted'' None None
               (Some (JObj [(''version'', JInt (ss_version s)), (''name'', JText (ss_name s))]))
               (d\<lparr>schemes := schemes d @ [s]\<rparr>)))"

definition activate_scheme :: "env \<Rightarrow> current_user \<Rightarrow> int \<Rightarrow> db \<Rightarrow> db result" where
  "activate_scheme e u k d = (case get_scheme d k of
     None \<Rightarrow> Inl (HTTPException 404 ''scheme not found'')
   | Some s \<Rightarrow>
      if ss_status s \<noteq> scheme_draft then Inl (HTTPException 400 ''only a draft can be activated'')
      else bindE (activate e k (cu_id u) d) (\<lambda>d1.
        Inr (log_event e (cu_id u) ''scoring_scheme_activated'' None
          (map_option (\<lambda>p. JObj [(''version'', JInt (ss_version p))]) (active_scheme d))
          (Some (JObj [(''version'', JInt (ss_version s)), (''name'', JText (ss_name s)),
                       (''drafted_by_user_id'', json_opt_int (ss_created_by s))])) d1)))"

definition delete_draft :: "env \<Rightarrow> current_user \<Rightarrow> int \<Rightarrow> db \<Rightarrow> db result" where
  "delete_draft e u k d = (case get_scheme d k of
     None \<Rightarrow> Inl (HTTPException 404 ''scheme not found'')
   | Some s \<Rightarrow>
      if ss_status s \<noteq> scheme_draft
      then Inl (HTTPException 400 ''an active or retired version is not deleted'')
      else let d1 = log_event e (cu_id u) ''scoring_scheme_draft_deleted'' None
             (Some (JObj [(''version'', JInt (ss_version s)), (''name'', JText (ss_name s))])) None d
           in Inr (d1\<lparr>schemes := filter (\<lambda>x. ss_id x \<noteq> k) (schemes d1)\<rparr>))"

section \<open>The result table\<close>

text \<open>A table whose upper ends ascend strictly assigns the band that starts at the previous end.\<close>

lemma band_for_index:
  assumes "sorted_wrt (<) (map fst ts)" and "i < length ts"
    and "pct < fst (ts ! i)" and "0 < i \<Longrightarrow> fst (ts ! (i - 1)) \<le> pct"
  shows "band_for ts pct = Some (snd (ts ! i))"
  using assms
proof (induction ts arbitrary: i)
  case (Cons t ts)
  obtain u l where t: "t = (u, l)" by fastforce
  show ?case
  proof (cases i)
    case 0
    with Cons.prems(3) show ?thesis by (simp add: t)
  next
    case (Suc j)
    have le: "fst ((t # ts) ! j) \<le> pct" using Cons.prems(4) Suc by simp
    have "u \<le> pct"
    proof (cases j)
      case 0
      with le show ?thesis by (simp add: t)
    next
      case (Suc m)
      then have "ts ! m \<in> set ts" using Cons.prems(2) \<open>i = Suc j\<close> by simp
      then have "u < fst (ts ! m)" using Cons.prems(1) by (auto simp: t)
      with le Suc show ?thesis by simp
    qed
    moreover have "band_for ts pct = Some (snd (ts ! j))"
    proof (rule Cons.IH)
      show "0 < j \<Longrightarrow> fst (ts ! (j - 1)) \<le> pct" using le by (cases j) simp_all
    qed (use Cons.prems Suc in auto)
    ultimately show ?thesis by (simp add: t Suc)
  qed
qed simp

lemma band_for_Some: "band_for ts pct = Some l \<Longrightarrow> \<exists>i<length ts. l = snd (ts ! i) \<and> pct < fst (ts ! i)"
proof (induction ts)
  case (Cons t ts)
  then show ?case by (cases t) (fastforce split: if_splits)
qed simp

lemma band_for_total: "ts \<noteq> [] \<Longrightarrow> pct < fst (last ts) \<Longrightarrow> \<exists>l. band_for ts pct = Some l"
proof (induction ts)
  case (Cons t ts)
  then show ?case by (cases t; cases ts) (auto split: if_splits)
qed simp

lemma sorted_distinct_strict: "sorted xs \<Longrightarrow> distinct xs \<Longrightarrow> sorted_wrt (<) (xs :: rat list)"
  by (simp add: strict_sorted_iff)

lemma validate_scheme_Inr:
  assumes "validate_scheme p = Inr q"
  shows "q = p \<and> scheme_fields_ok p \<and>
    py_round 6 (fl (si_general_weight p + si_specialized_weight p)) = 1 \<and>
    sorted (map fst (si_thresholds p)) \<and> distinct (map fst (si_thresholds p)) \<and>
    100 < last (map fst (si_thresholds p)) \<and> (\<forall>w\<in>set (map snd (si_weights p)). 0 < w)"
  using assms unfolding validate_scheme_def check_scheme_def Let_def
  by (simp only: split: if_splits) (auto simp: not_le)

lemma checked_thresholds:
  assumes "validate_scheme p = Inr q"
  shows "sorted_wrt (<) (map fst (si_thresholds p))" and "si_thresholds p \<noteq> []"
    and "100 < fst (last (si_thresholds p))"
proof -
  note v = validate_scheme_Inr [OF assms]
  show ne: "si_thresholds p \<noteq> []" using v by (auto simp: scheme_fields_ok_def)
  show "sorted_wrt (<) (map fst (si_thresholds p))"
    using v by (intro sorted_distinct_strict) simp_all
  show "100 < fst (last (si_thresholds p))" using v ne by (simp add: last_map)
qed

section \<open>One active scheme\<close>

text \<open>The partial unique index \<open>uq_single_active_scheme\<close> and the primary key.\<close>

definition schemes_ok :: "db \<Rightarrow> bool" where
  "schemes_ok d \<longleftrightarrow> tbl_ok ss_id (schemes d) \<and>
     (\<forall>s\<in>set (schemes d). \<forall>t\<in>set (schemes d).
        ss_status s = scheme_active \<longrightarrow> ss_status t = scheme_active \<longrightarrow> s = t)"

lemma get_scheme_in: "get_scheme d k = Some s \<Longrightarrow> s \<in> set (schemes d) \<and> ss_id s = k"
  by (auto simp: get_scheme_def dest: tbl_get_Some_set)

lemma active_scheme_Some:
  "active_scheme d = Some s \<Longrightarrow> s \<in> set (schemes d) \<and> ss_status s = scheme_active"
  by (auto simp: active_scheme_def find_Some_iff)

lemma active_scheme_None:
  "active_scheme d = None \<Longrightarrow> s \<in> set (schemes d) \<Longrightarrow> ss_status s \<noteq> scheme_active"
  by (auto simp: active_scheme_def find_None_iff)

lemma upd_scheme_schemes [simp]: "schemes (upd_scheme k f d) = tbl_upd ss_id k f (schemes d)"
  by (simp add: upd_scheme_def)

lemma retire_previous:
  assumes ok: "schemes_ok d" and
    d1: "d1 = (case active_scheme d of None \<Rightarrow> d
       | Some p \<Rightarrow> upd_scheme (ss_id p)
           (\<lambda>p. p\<lparr>ss_status := scheme_retired, ss_retired_at := Some t\<rparr>) d)"
  shows "tbl_ok ss_id (schemes d1)" and "\<forall>s\<in>set (schemes d1). ss_status s \<noteq> scheme_active"
proof -
  show "tbl_ok ss_id (schemes d1)"
    using ok by (auto simp: d1 schemes_ok_def tbl_ok_upd split: option.split)
  show "\<forall>s\<in>set (schemes d1). ss_status s \<noteq> scheme_active"
  proof (cases "active_scheme d")
    case None
    then show ?thesis by (auto simp: d1 dest: active_scheme_None)
  next
    case (Some p)
    then have p: "p \<in> set (schemes d)" "ss_status p = scheme_active"
      by (auto dest: active_scheme_Some)
    show ?thesis
    proof
      fix s assume "s \<in> set (schemes d1)"
      then obtain r where r: "r \<in> set (schemes d)"
        and s: "s = (if ss_id r = ss_id p
          then r\<lparr>ss_status := scheme_retired, ss_retired_at := Some t\<rparr> else r)"
        by (auto simp: d1 Some set_tbl_upd)
      show "ss_status s \<noteq> scheme_active"
        using ok p r s by (auto simp: schemes_ok_def)
    qed
  qed
qed

lemma activate_schemes_ok:
  assumes ok: "schemes_ok d" and act: "activate e k actor d = Inr d'"
  shows "schemes_ok d'"
proof (cases "get_scheme d k")
  case None
  with act ok show ?thesis by (simp add: activate_def)
next
  case (Some s)
  define d1 where "d1 = (case active_scheme d of None \<Rightarrow> d
     | Some p \<Rightarrow> upd_scheme (ss_id p)
         (\<lambda>p. p\<lparr>ss_status := scheme_retired, ss_retired_at := Some (now e)\<rparr>) d)"
  note r = retire_previous [OF ok d1_def]
  have d': "schemes d' = tbl_upd ss_id k (\<lambda>s. s\<lparr>ss_status := scheme_active,
      ss_activated_at := Some (now e), ss_activated_by := Some actor\<rparr>) (schemes d1)"
    using act Some by (auto simp: activate_def Let_def d1_def split: if_splits)
  have key: "a = b" if "a \<in> set (schemes d1)" "b \<in> set (schemes d1)" "ss_id a = ss_id b" for a b
    using r(1) that by (auto simp: tbl_ok_def distinct_map dest: inj_onD)
  have only_k: "ss_id a = k"
    if "a \<in> set (schemes d')" "ss_status a = scheme_active" for a
    using that r(2) by (auto simp: d' set_tbl_upd split: if_splits)
  have "tbl_ok ss_id (schemes d')" using r(1) by (simp add: d' tbl_ok_upd)
  moreover from this have "s1 = t1"
    if "s1 \<in> set (schemes d')" "t1 \<in> set (schemes d')" "ss_id s1 = ss_id t1" for s1 t1
    using that by (auto simp: tbl_ok_def distinct_map dest: inj_onD)
  ultimately show ?thesis
    using only_k by (auto simp: schemes_ok_def)
qed

section \<open>Sequences of requests\<close>

datatype scheme_request =
    CreateScheme current_user scheme_input
  | ActivateScheme current_user int
  | DeleteDraft current_user int

text \<open>A request that raises leaves the session as it was.\<close>

fun scheme_step :: "env \<Rightarrow> scheme_request \<Rightarrow> db \<Rightarrow> db" where
  "scheme_step e (CreateScheme u p) d =
     (case validate_scheme p of Inl _ \<Rightarrow> d | Inr q \<Rightarrow> snd (create_scheme e u q d))"
| "scheme_step e (ActivateScheme u k) d =
     (case activate_scheme e u k d of Inl _ \<Rightarrow> d | Inr d' \<Rightarrow> d')"
| "scheme_step e (DeleteDraft u k) d =
     (case delete_draft e u k d of Inl _ \<Rightarrow> d | Inr d' \<Rightarrow> d')"

lemma create_scheme_schemes:
  "schemes (snd (create_scheme e u p d)) = schemes d @ [fst (create_scheme e u p d)]"
  "ss_id (fst (create_scheme e u p d)) = tbl_next ss_id (schemes d)"
  "ss_status (fst (create_scheme e u p d)) = scheme_draft"
  by (simp_all add: create_scheme_def Let_def frame_simps)

lemma activate_scheme_Inr:
  "activate_scheme e u k d = Inr d' \<longleftrightarrow>
     (\<exists>s d1. get_scheme d k = Some s \<and> ss_status s = scheme_draft \<and>
        activate e k (cu_id u) d = Inr d1 \<and>
        d' = log_event e (cu_id u) ''scoring_scheme_activated'' None
          (map_option (\<lambda>p. JObj [(''version'', JInt (ss_version p))]) (active_scheme d))
          (Some (JObj [(''version'', JInt (ss_version s)), (''name'', JText (ss_name s)),
                       (''drafted_by_user_id'', json_opt_int (ss_created_by s))])) d1)"
  by (auto simp: activate_scheme_def bindE_Inr_iff split: option.splits)

lemma activate_scheme_schemes:
  "activate_scheme e u k d = Inr d' \<Longrightarrow>
     \<exists>d1. activate e k (cu_id u) d = Inr d1 \<and> schemes d' = schemes d1"
  by (auto simp: activate_scheme_Inr frame_simps)

lemma delete_draft_schemes:
  "delete_draft e u k d = Inr d' \<Longrightarrow> schemes d' = filter (\<lambda>x. ss_id x \<noteq> k) (schemes d) \<and>
     (\<exists>s. get_scheme d k = Some s \<and> ss_status s = scheme_draft)"
  by (auto simp: delete_draft_def Let_def frame_simps split: option.splits if_splits)

lemma schemes_ok_cong: "schemes d' = schemes d \<Longrightarrow> schemes_ok d' = schemes_ok d"
  by (simp add: schemes_ok_def)

lemma tbl_ok_filter: "tbl_ok key t \<Longrightarrow> tbl_ok key (filter P t)"
  by (simp add: tbl_ok_def distinct_map_filter)

lemma scheme_step_ok: "schemes_ok d \<Longrightarrow> schemes_ok (scheme_step e c d)"
proof (cases c)
  case (CreateScheme u p)
  assume ok: "schemes_ok d"
  have "schemes_ok (snd (create_scheme e u p d))" for p
    using ok create_scheme_schemes [of e u p d]
    by (auto simp: schemes_ok_def tbl_ok_insert)
  with ok CreateScheme show ?thesis by (simp split: sum.split)
next
  case (ActivateScheme u k)
  assume ok: "schemes_ok d"
  then have "schemes_ok d'" if "activate_scheme e u k d = Inr d'" for d'
    using activate_scheme_schemes [OF that] activate_schemes_ok schemes_ok_cong by blast
  with ok ActivateScheme show ?thesis by (simp split: sum.split)
next
  case (DeleteDraft u k)
  assume ok: "schemes_ok d"
  then have "schemes_ok d'" if "delete_draft e u k d = Inr d'" for d'
    using delete_draft_schemes [OF that] by (auto simp: schemes_ok_def tbl_ok_filter)
  with ok DeleteDraft show ?thesis by (simp split: sum.split)
qed

interpretation scheme_sys: invariant_system "scheme_step e" schemes_ok for e
  by unfold_locales (rule scheme_step_ok)

section \<open>Stamped rules are immutable\<close>

text \<open>What a request may do to a scheme that has left the draft state: only its status and stamps move.\<close>

definition same_rules :: "scoring_scheme \<Rightarrow> scoring_scheme \<Rightarrow> bool" where
  "same_rules s t \<longleftrightarrow> rules_from s = rules_from t \<and> ss_status t \<noteq> scheme_draft"

lemma activate_get:
  assumes "activate e j actor d = Inr d'" and s: "get_scheme d k = Some s"
    and nd: "ss_status s \<noteq> scheme_draft"
  shows "\<exists>t. get_scheme d' k = Some t \<and> same_rules s t"
proof -
  have s': "tbl_get ss_id (schemes d) k = Some s" using s by (simp add: get_scheme_def)
  show ?thesis
    using assms(1) s' nd
    by (auto simp: activate_def Let_def get_scheme_def tbl_get_upd same_rules_def rules_from_def
        split: option.splits if_splits)
qed

lemma scheme_step_get:
  assumes s: "get_scheme d k = Some s" and nd: "ss_status s \<noteq> scheme_draft"
  shows "\<exists>t. get_scheme (scheme_step e c d) k = Some t \<and> same_rules s t"
proof -
  have refl: "same_rules s s" using nd by (simp add: same_rules_def)
  show ?thesis
  proof (cases c)
    case (CreateScheme u p)
    have "get_scheme (snd (create_scheme e u p d)) k = Some s" for p
      using s by (simp add: get_scheme_def create_scheme_schemes tbl_get_append)
    with CreateScheme s refl show ?thesis by (auto split: sum.split)
  next
    case (ActivateScheme u j)
    have "\<exists>t. get_scheme d' k = Some t \<and> same_rules s t"
      if act: "activate_scheme e u j d = Inr d'" for d'
    proof -
      obtain d1 where "activate e j (cu_id u) d = Inr d1" "schemes d' = schemes d1"
        using activate_scheme_schemes [OF act] by blast
      with activate_get [OF _ s nd] show ?thesis by (metis get_scheme_def)
    qed
    with ActivateScheme s refl show ?thesis by (auto split: sum.split)
  next
    case (DeleteDraft u j)
    have "get_scheme d' k = Some s" if del: "delete_draft e u j d = Inr d'" for d'
    proof -
      have "j \<noteq> k" using delete_draft_schemes [OF del] s nd by auto
      then show ?thesis
        using delete_draft_schemes [OF del] s by (simp add: get_scheme_def tbl_get_filter)
    qed
    with DeleteDraft s refl show ?thesis by (auto split: sum.split)
  qed
qed

lemma scheme_run_get:
  "get_scheme d k = Some s \<Longrightarrow> ss_status s \<noteq> scheme_draft \<Longrightarrow>
    \<exists>t. get_scheme (fold (scheme_step e) cs d) k = Some t \<and> same_rules s t"
proof (induction cs arbitrary: d s)
  case Nil
  then show ?case by (auto simp: same_rules_def)
next
  case (Cons c cs)
  then obtain t where t: "get_scheme (scheme_step e c d) k = Some t" "same_rules s t"
    using scheme_step_get by blast
  then obtain u where "get_scheme (fold (scheme_step e) cs (scheme_step e c d)) k = Some u"
    "same_rules t u"
    using Cons.IH by (auto simp: same_rules_def)
  with t show ?case by (auto simp: same_rules_def)
qed

end
