(* ===== verification/Scoring.thy ===== *)
theory Scoring
  imports Schemes
begin

text \<open>
  \<open>services/evaluation.py\<close>: the evidence rule, the special score (bonus) rule, the weighted result
  of a case and the sequential evaluation code. Every arithmetic step carries the rounding of the
  float operation the code performs. The lemmas show when the two validations pass, that every
  computed percentage lies between 0 and 100 under well-formed rules, that the special score never
  lowers a result, and how far the rounded result is from the sum of its parts.
\<close>

section \<open>Evaluation codes and words\<close>

definition word_count :: "ustr option \<Rightarrow> int" where
  "word_count t = (case t of None \<Rightarrow> 0 | Some s \<Rightarrow> int (length (split_words s)))"

definition pad4 :: "ustr \<Rightarrow> ustr" where
  "pad4 s = replicate (4 - length s) 48 @ s"

text \<open>\<open>nextval\<close> of the sequence, rendered as \<open>EVL-0001\<close>.\<close>

definition next_evaluation_code :: "db \<Rightarrow> string \<times> db" where
  "next_evaluation_code d =
     (let v = code_seq d + 1 in
      (map char_of (lit ''EVL-'' @ pad4 (int_text v)), d\<lparr>code_seq := v\<rparr>))"

section \<open>The evidence rule\<close>

record score_row =
  sr_indicator :: int
  sr_score :: int
  sr_evidence :: "ustr option"

type_synonym evidence_report = "(ustr \<times> int \<times> int) list"

definition row_label :: "(int \<Rightarrow> indicator option) \<Rightarrow> score_row \<Rightarrow> ustr" where
  "row_label inds row = (case inds (sr_indicator row) of
     Some i \<Rightarrow> in_category i | None \<Rightarrow> lit ''indicator #'' @ int_text (sr_indicator row))"

text \<open>
  The two lists of offending rows, each with its label, the limit and the number of words found;
  a non-empty list is the \<open>ValueError\<close> whose message joins them.
\<close>

definition validate_evidence ::
  "score_row list \<Rightarrow> (int \<Rightarrow> indicator option) \<Rightarrow> rules \<Rightarrow> (evidence_report \<times> evidence_report) + unit"
where
  "validate_evidence rows inds r =
     (let violations = [(row_label inds row, r_evidence_min r, word_count (sr_evidence row)) .
            row \<leftarrow> rows, sr_score row \<in> set (r_evidence_scores r) \<and>
                         word_count (sr_evidence row) < r_evidence_min r];
          too_long = [(row_label inds row, r_evidence_max r, word_count (sr_evidence row)) .
            row \<leftarrow> rows, r_evidence_max r < word_count (sr_evidence row)]
      in if violations \<noteq> [] \<or> too_long \<noteq> [] then Inl (violations, too_long) else Inr ())"

section \<open>The special score rule\<close>

definition BONUS_REASON_MIN :: nat where
  "BONUS_REASON_MIN = 10"

definition validate_bonus :: "rat \<Rightarrow> ustr option \<Rightarrow> rules \<Rightarrow> string + unit" where
  "validate_bonus points reason r =
     (if points < 0 then Inl ''special score is negative''
      else if 0 < points \<and> r_bonus_max r \<le> 0 then Inl ''special score is disabled''
      else if r_bonus_max r < points then Inl ''special score above the maximum''
      else if 0 < points \<and> length (strip (case reason of None \<Rightarrow> [] | Some s \<Rightarrow> s)) < BONUS_REASON_MIN
        then Inl ''special score needs a reason''
      else Inr ())"

section \<open>The weighted result\<close>

record section_sums =
  general_sum :: rat
  general_max :: rat
  specialized_sum :: rat
  specialized_max :: rat

definition zero_sums :: section_sums where
  "zero_sums = \<lparr>general_sum = 0, general_max = 0, specialized_sum = 0, specialized_max = 0\<rparr>"

text \<open>One turn of the loop over the scores; \<open>indicators_by_id[...]\<close> raises on a missing key.\<close>

definition add_row ::
  "(int \<Rightarrow> indicator option) \<Rightarrow> rules \<Rightarrow> score_row \<Rightarrow> section_sums \<Rightarrow> py_exc + section_sums" where
  "add_row inds r row s = (case inds (sr_indicator row) of
     None \<Rightarrow> Inl (KeyError (sr_indicator row))
   | Some i \<Rightarrow>
      (let w = weight_for r (sr_indicator row);
           part = fl (of_int (sr_score row) * w);
           most = fl (5 * w) in
       Inr (if in_section i = general
            then s\<lparr>general_sum := fl (general_sum s + part), general_max := fl (general_max s + most)\<rparr>
            else s\<lparr>specialized_sum := fl (specialized_sum s + part),
                   specialized_max := fl (specialized_max s + most)\<rparr>)))"

definition section_pct :: "rat \<Rightarrow> rat \<Rightarrow> rat" where
  "section_pct acc m = (if m \<noteq> 0 then py_round 1 (fl (fl (acc / m) * 100)) else 0)"

definition base_percentage :: "rules \<Rightarrow> rat \<Rightarrow> rat \<Rightarrow> rat" where
  "base_percentage r g s =
     py_round 1 (fl (fl (g * r_general_weight r) + fl (s * r_specialized_weight r)))"

definition applied_bonus :: "rules \<Rightarrow> rat \<Rightarrow> rat \<Rightarrow> rat" where
  "applied_bonus r bonus base =
     py_round 2 (max 0 (min (min bonus (r_bonus_max r)) (fl (100 - base))))"

record calc_result =
  cr_general :: rat
  cr_specialized :: rat
  cr_base :: rat
  cr_bonus :: rat
  cr_final :: rat
  cr_recommendation :: ustr
  cr_version :: "int option"

definition compute_result ::
  "score_row list \<Rightarrow> (int \<Rightarrow> indicator option) \<Rightarrow> rules \<Rightarrow> rat \<Rightarrow> py_exc + calc_result" where
  "compute_result rows inds r bonus =
     bindE (foldE (add_row inds r) rows zero_sums) (\<lambda>t.
       let g = section_pct (general_sum t) (general_max t);
           s = section_pct (specialized_sum t) (specialized_max t);
           base = base_percentage r g s;
           extra = applied_bonus r bonus base;
           final = py_round 1 (fl (base + extra))
       in bindE (recommendation_for r final) (\<lambda>label.
            Inr \<lparr>cr_general = g, cr_specialized = s, cr_base = base, cr_bonus = extra,
                 cr_final = final, cr_recommendation = label, cr_version = r_version r\<rparr>))"

section \<open>Seats of the chain\<close>

datatype seat = seat_supervisor | seat_deputy | seat_ceo

definition seat_user :: "evaluation_access \<Rightarrow> seat \<Rightarrow> int option" where
  "seat_user a s = (case s of seat_supervisor \<Rightarrow> ea_supervisor a | seat_deputy \<Rightarrow> ea_deputy a
     | seat_ceo \<Rightarrow> Some (ea_ceo a))"

definition CHAIN_SEATS :: "seat list" where
  "CHAIN_SEATS = [seat_supervisor, seat_deputy, seat_ceo]"

text \<open>The occupied seats whose user is missing or deactivated.\<close>

definition inactive_seat_labels :: "db \<Rightarrow> evaluation_access \<Rightarrow> seat list" where
  "inactive_seat_labels d a = filter (\<lambda>s. case seat_user a s of None \<Rightarrow> False
     | Some k \<Rightarrow> (case get_user d k of None \<Rightarrow> True | Some u \<Rightarrow> \<not> u_is_active u)) CHAIN_SEATS"

section \<open>Well-formed rules\<close>

definition rules_ok :: "rules \<Rightarrow> bool" where
  "rules_ok r \<longleftrightarrow> 0 \<le> r_general_weight r \<and> 0 \<le> r_specialized_weight r \<and>
     r_general_weight r + r_specialized_weight r \<le> 1 + 1 / 10 ^ 5 \<and>
     (\<forall>w\<in>set (map snd (r_weights r)). 0 < w) \<and>
     r_thresholds r \<noteq> []"

lemma weight_for_pos: "rules_ok r \<Longrightarrow> 0 < weight_for r i"
proof -
  assume "rules_ok r"
  then have "\<forall>w\<in>set (map snd (r_weights r)). 0 < w" by (simp add: rules_ok_def)
  then show ?thesis
    by (auto simp: weight_for_def dest!: map_of_SomeD split: option.split)
qed

section \<open>The sums never exceed their maxima\<close>

definition sums_ok :: "section_sums \<Rightarrow> bool" where
  "sums_ok s \<longleftrightarrow> 0 \<le> general_sum s \<and> general_sum s \<le> general_max s \<and>
     0 \<le> specialized_sum s \<and> specialized_sum s \<le> specialized_max s"

definition scores_in_range :: "score_row list \<Rightarrow> bool" where
  "scores_in_range rows \<longleftrightarrow> (\<forall>row\<in>set rows. 1 \<le> sr_score row \<and> sr_score row \<le> 5)"

lemma add_row_ok:
  assumes r: "rules_ok r" and row: "1 \<le> sr_score row" "sr_score row \<le> 5"
    and s: "sums_ok s" and step: "add_row inds r row s = Inr s'"
  shows "sums_ok s'"
proof -
  define w where "w = weight_for r (sr_indicator row)"
  have w: "0 < w" using r by (simp add: w_def weight_for_pos)
  have "of_int (sr_score row) \<le> (of_int 5 :: rat)" using row(2) by (simp only: of_int_le_iff)
  then have le: "fl (of_int (sr_score row) * w) \<le> fl (5 * w)"
    using w by (intro flr.r_mono mult_right_mono) simp_all
  have nn: "0 \<le> fl (of_int (sr_score row) * w)"
    using w row(1) by (intro flr.r_nonneg mult_nonneg_nonneg) simp_all
  show ?thesis
    using step s le nn
    by (auto simp: add_row_def sums_ok_def Let_def w_def split: option.splits
        intro!: flr.r_nonneg flr.r_mono add_mono)
qed

lemma fold_rows_ok:
  assumes "rules_ok r" and "scores_in_range rows"
    and "foldE (add_row inds r) rows zero_sums = Inr t"
  shows "sums_ok t"
proof (rule foldE_invariant [where f = "add_row inds r" and xs = rows and s = zero_sums])
  show "sums_ok zero_sums" by (simp add: sums_ok_def zero_sums_def)
qed (use assms in \<open>auto simp: scores_in_range_def intro: add_row_ok\<close>)

lemma section_pct_bounds: "0 \<le> a \<Longrightarrow> a \<le> m \<Longrightarrow> 0 \<le> section_pct a m \<and> section_pct a m \<le> 100"
proof (cases "m = 0")
  case False
  assume "0 \<le> a" "a \<le> m"
  with False have q: "0 \<le> a / m" "a / m \<le> 1" by (simp_all add: divide_le_eq_1)
  then have "0 \<le> fl (a / m)" "fl (a / m) \<le> 1"
    by (simp_all add: flr.r_nonneg flr.r_le_one)
  then have "0 \<le> fl (a / m) * 100" "fl (a / m) * 100 \<le> 100" by simp_all
  then show ?thesis using False by (simp add: section_pct_def flr.r_percent rnd.r_percent)
qed (simp add: section_pct_def)

text \<open>A value within a twentieth of a percent of 100 is rounded to at most 100.\<close>

lemma py_round1_le_100: "x \<le> 100 + 1/25 \<Longrightarrow> py_round 1 x \<le> 100"
proof -
  assume x: "x \<le> 100 + 1/25"
  have "rne (x * 10 ^ 1) \<le> rne ((100 + 1/25) * 10 ^ 1)"
    using x by (intro rne_mono mult_right_mono) simp_all
  also have "\<dots> = 1000" by (rule rne_near) simp
  finally have "of_int (rne (x * 10 ^ 1)) \<le> (of_int 1000 :: rat)" by (simp only: of_int_le_iff)
  then have "of_int (rne (x * 10 ^ 1)) / 10 ^ 1 \<le> (100 :: rat)" by simp
  then show ?thesis unfolding py_round_def by (rule flr.r_le_hundred)
qed

lemma base_percentage_bounds:
  assumes r: "rules_ok r" and g: "0 \<le> g" "g \<le> 100" and s: "0 \<le> s" "s \<le> 100"
  shows "0 \<le> base_percentage r g s \<and> base_percentage r g s \<le> 100"
proof -
  define a where "a = r_general_weight r"
  define b where "b = r_specialized_weight r"
  have ab: "0 \<le> a" "0 \<le> b" "a + b \<le> 1 + 1 / 10 ^ 5"
    using r by (simp_all add: rules_ok_def a_def b_def)
  have ga: "0 \<le> g * a" "g * a \<le> 100 * a" and sb: "0 \<le> s * b" "s * b \<le> 100 * b"
    using g s ab by (simp_all add: mult_right_mono)
  have small: "\<bar>g * a\<bar> \<le> 2 ^ 20" "\<bar>s * b\<bar> \<le> 2 ^ 20"
    using ga sb ab by simp_all
  have fa: "fl (g * a) \<le> 100 * a + 1 / 2 ^ 30" and fb: "fl (s * b) \<le> 100 * b + 1 / 2 ^ 30"
    using fl_error_small [OF small(1)] fl_error_small [OF small(2)] ga(2) sb(2)
    by (simp_all only: abs_le_iff) linarith+
  have nn: "0 \<le> fl (g * a)" "0 \<le> fl (s * b)" using ga sb by (simp_all add: flr.r_nonneg)
  define t where "t = fl (g * a) + fl (s * b)"
  have t: "0 \<le> t" "t \<le> 100 + 1/50"
    using fa fb ab nn by (simp_all add: t_def)
  then have "\<bar>t\<bar> \<le> 2 ^ 20" by simp
  then have "\<bar>fl t - t\<bar> \<le> 1 / 2 ^ 30" by (rule fl_error_small)
  then have "fl t \<le> t + 1 / 2 ^ 30" by linarith
  with t have "fl t \<le> 100 + 1/25" by simp
  then have "py_round 1 (fl t) \<le> 100" by (rule py_round1_le_100)
  moreover have "0 \<le> py_round 1 (fl t)" using t by (simp add: flr.r_nonneg rnd.r_nonneg)
  ultimately show ?thesis by (simp add: base_percentage_def t_def a_def b_def)
qed

section \<open>The special score and the final percentage\<close>

lemma applied_bonus_bounds:
  assumes base: "0 \<le> base" "base \<le> 100"
  shows "0 \<le> applied_bonus r bonus base" and "applied_bonus r bonus base \<le> 100 - base + 1/100"
proof -
  define x where "x = max 0 (min (min bonus (r_bonus_max r)) (fl (100 - base)))"
  have small: "\<bar>100 - base\<bar> \<le> 2 ^ 20" using base by simp
  have up: "fl (100 - base) \<le> 100" "0 \<le> fl (100 - base)"
    using base by (simp_all add: flr.r_le_hundred flr.r_nonneg)
  then have x: "0 \<le> x" "x \<le> fl (100 - base)" by (simp_all add: x_def)
  then show "0 \<le> applied_bonus r bonus base"
    by (simp add: applied_bonus_def rnd.r_nonneg flip: x_def)
  have "\<bar>x\<bar> \<le> 2 ^ 20" using x up by simp
  then have "\<bar>py_round 2 x - x\<bar> \<le> 1 / (2 * 10 ^ 2) + 1 / 2 ^ 30" by (rule py_round_error)
  then have "py_round 2 x \<le> x + (1 / (2 * 10 ^ 2) + 1 / 2 ^ 30)" by linarith
  then have "py_round 2 x \<le> x + 1 / 200 + 1 / 2 ^ 30" by simp
  moreover have "\<bar>fl (100 - base) - (100 - base)\<bar> \<le> 1 / 2 ^ 30" by (rule fl_error_small [OF small])
  then have "fl (100 - base) \<le> 100 - base + 1 / 2 ^ 30" by linarith
  ultimately have "py_round 2 x \<le> 100 - base + (1/200 + 1/2^30 + 1/2^30)" using x by linarith
  also have "\<dots> \<le> 100 - base + 1/100" by simp
  finally show "applied_bonus r bonus base \<le> 100 - base + 1/100"
    by (simp add: applied_bonus_def flip: x_def)
qed

lemma applied_bonus_capped: "applied_bonus r bonus base \<le> py_round 2 (max 0 (r_bonus_max r))"
  unfolding applied_bonus_def by (rule rnd.r_mono) simp

lemma applied_bonus_zero: "bonus \<le> 0 \<Longrightarrow> applied_bonus r bonus base = 0"
proof -
  assume "bonus \<le> 0"
  then have "max 0 (min (min bonus (r_bonus_max r)) (fl (100 - base))) = 0" by simp
  then show ?thesis by (simp add: applied_bonus_def)
qed

text \<open>The final percentage, as a function of the base and of the special score entered.\<close>

definition final_percentage :: "rules \<Rightarrow> rat \<Rightarrow> rat \<Rightarrow> rat" where
  "final_percentage r bonus base = py_round 1 (fl (base + applied_bonus r bonus base))"

lemma final_percentage_bounds:
  assumes base: "0 \<le> base" "base \<le> 100"
  shows "0 \<le> final_percentage r bonus base \<and> final_percentage r bonus base \<le> 100"
proof -
  define t where "t = base + applied_bonus r bonus base"
  have t: "0 \<le> t" "t \<le> 100 + 1/100"
    using applied_bonus_bounds [OF base, of r bonus] base by (simp_all add: t_def)
  then have "\<bar>t\<bar> \<le> 2 ^ 20" by simp
  then have "\<bar>fl t - t\<bar> \<le> 1 / 2 ^ 30" by (rule fl_error_small)
  then have "fl t \<le> t + 1 / 2 ^ 30" by linarith
  also have "\<dots> \<le> 100 + 1/25" using t by simp
  finally have "py_round 1 (fl t) \<le> 100" by (rule py_round1_le_100)
  moreover have "0 \<le> py_round 1 (fl t)" using t by (simp add: flr.r_nonneg rnd.r_nonneg)
  ultimately show ?thesis by (simp add: final_percentage_def t_def)
qed

text \<open>A base percentage is a float with one decimal: rounding it again changes nothing.\<close>

lemma base_percentage_fixed:
  assumes r: "rules_ok r" and g: "0 \<le> g" "g \<le> 100" and s: "0 \<le> s" "s \<le> 100"
  shows "py_round 1 (base_percentage r g s) = base_percentage r g s"
proof -
  have "r_general_weight r \<le> 2" "r_specialized_weight r \<le> 2"
    "0 \<le> r_general_weight r" "0 \<le> r_specialized_weight r"
    using r by (simp_all add: rules_ok_def)
  then have "g * r_general_weight r \<le> 100 * 2" "s * r_specialized_weight r \<le> 100 * 2"
    using g s by (intro mult_mono; simp)+
  moreover have "0 \<le> g * r_general_weight r" "0 \<le> s * r_specialized_weight r"
    using g s r by (simp_all add: rules_ok_def)
  moreover have "fl 200 = 200" by (rule fl_numeral) simp
  ultimately have "0 \<le> fl (g * r_general_weight r)" "fl (g * r_general_weight r) \<le> 200"
    "0 \<le> fl (s * r_specialized_weight r)" "fl (s * r_specialized_weight r) \<le> 200"
    using flr.r_mono [of "g * r_general_weight r" 200] flr.r_mono [of "s * r_specialized_weight r" 200]
    by (simp_all add: flr.r_nonneg)
  then have sum: "0 \<le> fl (g * r_general_weight r) + fl (s * r_specialized_weight r)"
    "fl (g * r_general_weight r) + fl (s * r_specialized_weight r) \<le> 400" by simp_all
  moreover have "fl 400 = 400" by (rule fl_numeral) simp
  ultimately have "\<bar>fl (fl (g * r_general_weight r) + fl (s * r_specialized_weight r))\<bar> \<le> 2 ^ 20"
    using flr.r_mono [OF sum(2)] flr.r_nonneg [OF sum(1)] by simp
  then show ?thesis unfolding base_percentage_def by (rule py_round_idem) simp
qed

lemma final_percentage_mono_bonus:
  assumes "b \<le> b'"
  shows "final_percentage r b base \<le> final_percentage r b' base"
proof -
  have "applied_bonus r b base \<le> applied_bonus r b' base"
    unfolding applied_bonus_def using assms by (intro rnd.r_mono) auto
  then show ?thesis
    unfolding final_percentage_def by (intro rnd.r_mono flr.r_mono) simp
qed

text \<open>The result of a run that did not raise, in terms of the sums.\<close>

lemma compute_result_Inr:
  "compute_result rows inds r bonus = Inr c \<longleftrightarrow>
    (\<exists>t label. foldE (add_row inds r) rows zero_sums = Inr t \<and>
       (let g = section_pct (general_sum t) (general_max t);
            s = section_pct (specialized_sum t) (specialized_max t);
            base = base_percentage r g s in
        recommendation_for r (final_percentage r bonus base) = Inr label \<and>
        c = \<lparr>cr_general = g, cr_specialized = s, cr_base = base,
             cr_bonus = applied_bonus r bonus base, cr_final = final_percentage r bonus base,
             cr_recommendation = label, cr_version = r_version r\<rparr>))"
  by (auto simp: compute_result_def bindE_Inr_iff Let_def final_percentage_def)

lemma compute_result_sections:
  assumes r: "rules_ok r" and rows: "scores_in_range rows"
    and c: "compute_result rows inds r bonus = Inr c"
  shows "0 \<le> cr_general c" "cr_general c \<le> 100" "0 \<le> cr_specialized c" "cr_specialized c \<le> 100"
    and "cr_base c = base_percentage r (cr_general c) (cr_specialized c)"
    and "cr_final c = final_percentage r bonus (cr_base c)"
    and "cr_bonus c = applied_bonus r bonus (cr_base c)"
proof -
  obtain t label where t: "foldE (add_row inds r) rows zero_sums = Inr t"
    and c': "cr_general c = section_pct (general_sum t) (general_max t)"
      "cr_specialized c = section_pct (specialized_sum t) (specialized_max t)"
      "cr_base c = base_percentage r (cr_general c) (cr_specialized c)"
      "cr_final c = final_percentage r bonus (cr_base c)"
      "cr_bonus c = applied_bonus r bonus (cr_base c)"
    using c by (auto simp: compute_result_Inr Let_def)
  have "sums_ok t" by (rule fold_rows_ok [OF r rows t])
  then show "0 \<le> cr_general c" "cr_general c \<le> 100" "0 \<le> cr_specialized c" "cr_specialized c \<le> 100"
    using section_pct_bounds by (simp_all add: c' sums_ok_def)
  show "cr_base c = base_percentage r (cr_general c) (cr_specialized c)"
    "cr_final c = final_percentage r bonus (cr_base c)"
    "cr_bonus c = applied_bonus r bonus (cr_base c)" by (fact c')+
qed

text \<open>Only a score for an unknown indicator, or an empty result table, makes the computation raise.\<close>

lemma foldE_add_row_total:
  "(\<forall>row\<in>set rows. inds (sr_indicator row) \<noteq> None) \<Longrightarrow> \<exists>t. foldE (add_row inds r) rows s = Inr t"
proof (induction rows arbitrary: s)
  case (Cons row rows)
  then obtain i where "inds (sr_indicator row) = Some i" by auto
  then obtain s' where "add_row inds r row s = Inr s'" by (auto simp: add_row_def Let_def)
  with Cons show ?case by simp
qed simp

lemma recommendation_total: "r_thresholds r \<noteq> [] \<Longrightarrow> \<exists>l. recommendation_for r pct = Inr l"
  by (simp add: recommendation_for_def split: option.split)

lemma compute_result_total:
  assumes "\<forall>row\<in>set rows. inds (sr_indicator row) \<noteq> None" and "r_thresholds r \<noteq> []"
  shows "\<exists>c. compute_result rows inds r bonus = Inr c"
proof -
  obtain t where "foldE (add_row inds r) rows zero_sums = Inr t"
    using foldE_add_row_total [OF assms(1)] by blast
  then show ?thesis
    using recommendation_total [OF assms(2)] by (auto simp: compute_result_Inr Let_def)
qed

end
