(* ===== verification/Samples.thy ===== *)
theory Samples
  imports Environment
begin

text \<open>
  A small database for concrete runs: one active employee with a complete chain (supervisor,
  deputy, chief executive), a human-resources user, a two-question catalogue with its published
  version, and a case of that employee at any stage. The witnesses of the properties are evaluated
  on it.
\<close>

definition demo_user :: "int \<Rightarrow> user_role \<Rightarrow> int option \<Rightarrow> user" where
  "demo_user k rl pid = \<lparr>u_id = k, u_personnel_id = pid, u_username = ''user'', u_full_name = None,
     u_password_hash = ''secret'', u_role = rl, u_is_active = True, u_must_change_password = False,
     u_token_version = 0, u_email = Some ''a@b'', u_phone = None, u_notify_by_email = True,
     u_notify_by_sms = False\<rparr>"

definition demo_person :: "int \<Rightarrow> personnel" where
  "demo_person k = \<lparr>p_id = k, p_code = lit ''P1'', p_full_name = lit ''Person'', p_job_title = lit ''Clerk'',
     p_is_manager = False, p_org_unit = lit ''Unit'', p_contract_start = 739000,
     p_contract_end = 739365, p_status = p_active, p_separation_date = None,
     p_separation_reason = None\<rparr>"

definition demo_indicator :: "int \<Rightarrow> indicator_section \<Rightarrow> indicator" where
  "demo_indicator k s = \<lparr>in_id = k, in_section = s, in_category = lit ''C'',
     in_description = lit ''Q'', in_order = k, in_active = True\<rparr>"

definition demo_framework :: indicator_framework where
  "demo_framework = \<lparr>if_id = 1, if_version = 1, if_members = [1, 2], if_change_kind = ''seed'',
     if_change_note = None, if_created_by = None\<rparr>"

definition demo_access :: evaluation_access where
  "demo_access = \<lparr>ea_id = 1, ea_personnel = 1, ea_supervisor = Some 2, ea_deputy = Some 3,
     ea_ceo = 4, ea_updated_by = None\<rparr>"

definition demo_hr :: current_user where
  "demo_hr = \<lparr>cu_id = 1, cu_username = ''user'', cu_role = hr, cu_personnel_id = None\<rparr>"

definition demo_supervisor :: current_user where
  "demo_supervisor = \<lparr>cu_id = 2, cu_username = ''user'', cu_role = unit_supervisor, cu_personnel_id = None\<rparr>"

definition demo_deputy :: current_user where
  "demo_deputy = \<lparr>cu_id = 3, cu_username = ''user'', cu_role = deputy, cu_personnel_id = None\<rparr>"

definition demo_ceo :: current_user where
  "demo_ceo = \<lparr>cu_id = 4, cu_username = ''user'', cu_role = ceo, cu_personnel_id = None\<rparr>"

definition demo_employee :: current_user where
  "demo_employee = \<lparr>cu_id = 5, cu_username = ''user'', cu_role = employee, cu_personnel_id = Some 1\<rparr>"

definition demo_db :: db where
  "demo_db = empty_db\<lparr>personnels := [demo_person 1],
     users := [demo_user 1 hr None, demo_user 2 unit_supervisor None, demo_user 3 deputy None,
       demo_user 4 ceo None, demo_user 5 employee (Some 1)],
     accesses := [demo_access],
     indicators := [demo_indicator 1 general, demo_indicator 2 specialized],
     frameworks := [demo_framework]\<rparr>"

text \<open>The case of the person at a given status, its score rows, and the database that holds it.\<close>

definition demo_case :: "evaluation_status \<Rightarrow> evaluation_record" where
  "demo_case s = \<lparr>er_id = 1, er_code = ''1404-0001'', er_verify_token = None, er_subject = 1,
     er_supervisor = Some 2, er_deputy = Some 3, er_ceo = 4,
     er_hr = (if s = draft \<or> s = submitted then None else Some 1), er_period = None,
     er_scheme = None, er_framework = Some 1, er_status = s,
     er_base_pct = Some 72, er_general_pct = Some 80, er_specialized_pct = Some 60,
     er_final_pct = Some 72, er_recommendation = Some (lit ''conditional renewal''),
     er_bonus_points = None, er_bonus_reason = None, er_evaluator_comment = None,
     er_final_snapshot = (if s = finalized then Some JNull else None), er_created_at = days 19990,
     er_stage_entered_at = days 19995, er_finalized_at = (if s = finalized then Some (days 19999) else None),
     er_acknowledged_at = None, er_acknowledged_by = None, er_self_submitted_at = None,
     er_self_note = None, er_self_invited_at = None, er_self_invited_by = None,
     er_contract_start = Some 739000, er_contract_end = Some 739365, er_extended_until = None,
     er_extended_at = None, er_extended_by = None, er_extension_reason = None,
     er_objection_at = None, er_objection_reason = None, er_objection_resolved_at = None,
     er_objection_resolution = None, er_objection_resolved_by = None\<rparr>"

definition demo_score :: "int \<Rightarrow> int \<Rightarrow> evaluation_score" where
  "demo_score k n = \<lparr>es_id = k, es_record = 1, es_indicator = k, es_score = n, es_evidence = None\<rparr>"

definition demo_at :: "evaluation_status \<Rightarrow> db" where
  "demo_at s = demo_db\<lparr>records := [demo_case s], scores := [demo_score 1 4, demo_score 2 3]\<rparr>"

lemma demo_case_sel [simp]:
  "er_id (demo_case s) = 1" "er_subject (demo_case s) = 1" "er_status (demo_case s) = s"
  "er_supervisor (demo_case s) = Some 2" "er_deputy (demo_case s) = Some 3" "er_ceo (demo_case s) = 4"
  "er_bonus_points (demo_case s) = None" "er_base_pct (demo_case s) = Some 72"
  "er_general_pct (demo_case s) = Some 80" "er_specialized_pct (demo_case s) = Some 60"
  "er_recommendation (demo_case s) = Some (lit ''conditional renewal'')"
  "er_final_snapshot (demo_case s) = (if s = finalized then Some JNull else None)"
  "er_finalized_at (demo_case s) = (if s = finalized then Some (days 19999) else None)"
  "er_hr (demo_case s) = (if s = draft \<or> s = submitted then None else Some 1)"
  "er_period (demo_case s) = None" "er_extended_until (demo_case s) = None"
  "er_scheme (demo_case s) = None" "er_framework (demo_case s) = Some 1" "er_final_pct (demo_case s) = Some 72"
  by (simp_all add: demo_case_def)

lemma demo_at_record [simp]: "get_record (demo_at s) 1 = Some (demo_case s)" "records (demo_at s) = [demo_case s]"
  by (simp_all add: get_record_def demo_at_def tbl_get_def)

end
