(* ===== verification/RuleProperties.thy ===== *)
theory RuleProperties
  imports Scoring Samples
begin

text \<open>
  The properties of the scoring rules and of the score computation, with the concrete inputs they
  are applied to.
\<close>

section \<open>Concrete rules and sheets\<close>

definition demo_input :: scheme_input where
  "demo_input = \<lparr>si_name = lit ''Rules'', si_general_weight = 2/5, si_specialized_weight = 3/5,
     si_evidence_scores = [1, 5], si_evidence_min = 3, si_evidence_max = 40, si_bonus_max = 5,
     si_plan_max_pct = 60, si_thresholds = [(60, lit ''low''), (80, lit ''middle''), (101, lit ''high'')],
     si_weights = []\<rparr>"

text \<open>Section weights with four decimals, which add up to one.\<close>

definition fine_input :: scheme_input where
  "fine_input = demo_input\<lparr>si_general_weight := 5/16, si_specialized_weight := 11/16\<rparr>"

definition two_questions :: "int \<Rightarrow> indicator option" where
  "two_questions k =
     (if k = 1 then Some \<lparr>in_id = 1, in_section = general, in_category = lit ''C'',
        in_description = lit ''Q'', in_order = 1, in_active = True\<rparr>
      else if k = 2 then Some \<lparr>in_id = 2, in_section = specialized, in_category = lit ''C'',
        in_description = lit ''Q'', in_order = 2, in_active = True\<rparr>
      else None)"

definition full_marks :: "score_row list" where
  "full_marks = [\<lparr>sr_indicator = 1, sr_score = 5, sr_evidence = Some (lit ''seen by all'')\<rparr>,
     \<lparr>sr_indicator = 2, sr_score = 5, sr_evidence = Some (lit ''seen by all'')\<rparr>]"

definition drafted :: "scheme_input \<Rightarrow> env \<Rightarrow> scoring_scheme" where
  "drafted p e = fst (create_scheme e \<lparr>cu_id = 1, cu_username = ''hr'', cu_role = hr, cu_personnel_id = None\<rparr> p empty_db)"

lemma demo_input_valid: "validate_scheme demo_input = Inr demo_input"
  by code_simp

lemma fine_input_valid: "validate_scheme fine_input = Inr fine_input"
  by code_simp

lemma legacy_ok: "rules_ok LEGACY_RULES"
  by code_simp

lemma full_marks_sums:
  "foldE (add_row two_questions LEGACY_RULES) full_marks zero_sums =
     Inr \<lparr>general_sum = 5, general_max = 5, specialized_sum = 5, specialized_max = 5\<rparr>"
  by code_simp

lemma all_points: "section_pct 5 5 = 100"
  by code_simp

lemma legacy_full: "base_percentage LEGACY_RULES 100 100 = 100" "final_percentage LEGACY_RULES 0 100 = 100"
  by code_simp+

lemma fine_rules:
  "r_general_weight (rules_from (drafted fine_input demo_env)) = fl (313/1000)"
  "r_specialized_weight (rules_from (drafted fine_input demo_env)) = fl (86/125)"
  "r_weights (rules_from (drafted fine_input demo_env)) = []"
  "r_thresholds (rules_from (drafted fine_input demo_env)) =
     [(fl 60, lit ''low''), (fl 80, lit ''middle''), (fl 101, lit ''high'')]"
proof -
  have a: "half_away 3 (5/16) = 313/1000" and b: "half_away 3 (11/16) = 86/125" by code_simp+
  show "r_general_weight (rules_from (drafted fine_input demo_env)) = fl (313/1000)"
    "r_specialized_weight (rules_from (drafted fine_input demo_env)) = fl (86/125)"
    "r_weights (rules_from (drafted fine_input demo_env)) = []"
    "r_thresholds (rules_from (drafted fine_input demo_env)) =
     [(fl 60, lit ''low''), (fl 80, lit ''middle''), (fl 101, lit ''high'')]"
    by (simp_all add: drafted_def create_scheme_def Let_def rules_from_def fine_input_def demo_input_def
        demo_env_def a b)
qed

lemma fine_base: "py_round 1 (fl (fl (100 * fl (313/1000)) + fl (100 * fl (86/125)))) = fl (1001/10)"
  by code_simp

section \<open>The result of a sheet\<close>

text \<open>C1. Under rules whose section weights add up to one, and with every answer between 1 and 5,
  each percentage of the result lies between 0 and 100: the two section percentages, the form's
  percentage and the final one with the special score on top.\<close>

theorem result_within_bounds:
  assumes "rules_ok r" and "scores_in_range rows" and "compute_result rows inds r bonus = Inr c"
  shows "0 \<le> cr_general c \<and> cr_general c \<le> 100 \<and> 0 \<le> cr_specialized c \<and> cr_specialized c \<le> 100 \<and>
    0 \<le> cr_base c \<and> cr_base c \<le> 100 \<and> 0 \<le> cr_final c \<and> cr_final c \<le> 100"
proof -
  note s = compute_result_sections [OF assms]
  have base: "0 \<le> cr_base c" "cr_base c \<le> 100"
    using base_percentage_bounds [OF assms(1) s(1-4)] s(5) by simp_all
  then show ?thesis using s final_percentage_bounds [OF base] by simp
qed

lemma full_marks_result:
  "\<exists>c. compute_result full_marks two_questions LEGACY_RULES 0 = Inr c \<and> cr_final c = 100"
  by (simp add: compute_result_Inr full_marks_sums all_points legacy_full Let_def)
    (simp add: LEGACY_RULES_def recommendation_for_def FINAL_RESULT_THRESHOLDS_def)

theorem result_within_bounds_witness:
  "\<exists>c. compute_result full_marks two_questions LEGACY_RULES 0 = Inr c \<and> cr_final c \<le> 100"
proof -
  obtain c where c: "compute_result full_marks two_questions LEGACY_RULES 0 = Inr c"
    using full_marks_result by blast
  have "scores_in_range full_marks" by code_simp
  from result_within_bounds [OF legacy_ok this c] c show ?thesis by blast
qed

text \<open>The special score only raises the result: a larger special score never gives a smaller final
  percentage, none at all leaves the form's percentage as the final one, and the points that are
  added are never more than the rules allow nor more than what is missing to 100 (up to the
  rounding of the two decimals kept).\<close>

theorem bonus_only_raises:
  assumes "rules_ok r" and "scores_in_range rows"
    and "compute_result rows inds r low = Inr c" and "compute_result rows inds r high = Inr c'"
    and "low \<le> high"
  shows "cr_base c' = cr_base c \<and> cr_final c \<le> cr_final c' \<and>
    (low \<le> 0 \<longrightarrow> cr_bonus c = 0 \<and> cr_final c = cr_base c) \<and>
    0 \<le> cr_bonus c' \<and> cr_bonus c' \<le> py_round 2 (max 0 (r_bonus_max r)) \<and>
    cr_bonus c' \<le> 100 - cr_base c' + 1/100"
proof -
  note s = compute_result_sections [OF assms(1-3)] and s' = compute_result_sections [OF assms(1,2,4)]
  have same: "cr_general c' = cr_general c" "cr_specialized c' = cr_specialized c"
    using assms(3,4) by (auto simp: compute_result_Inr Let_def)
  have base: "0 \<le> cr_base c" "cr_base c \<le> 100"
    using base_percentage_bounds [OF assms(1) s(1-4)] s(5) by simp_all
  have "fl (cr_base c) = cr_base c" by (simp add: s(5) base_percentage_def)
  then have "cr_final c = cr_base c" if "low \<le> 0"
    using that base_percentage_fixed [OF assms(1) s(1-4)] s(5,6)
    by (simp add: final_percentage_def applied_bonus_zero)
  then show ?thesis
    using s s' same base applied_bonus_zero applied_bonus_capped
      applied_bonus_bounds [OF base] final_percentage_mono_bonus [OF assms(5)]
    by simp
qed

theorem bonus_only_raises_witness:
  "\<exists>c c'. compute_result full_marks two_questions LEGACY_RULES 0 = Inr c \<and>
     compute_result full_marks two_questions LEGACY_RULES 2 = Inr c' \<and> cr_final c \<le> cr_final c'"
proof -
  have known: "\<forall>row\<in>set full_marks. two_questions (sr_indicator row) \<noteq> None" by code_simp
  have table: "r_thresholds LEGACY_RULES \<noteq> []" by code_simp
  obtain c c' where c: "compute_result full_marks two_questions LEGACY_RULES 0 = Inr c"
    and c': "compute_result full_marks two_questions LEGACY_RULES 2 = Inr c'"
    using compute_result_total [OF known table] by blast
  have "scores_in_range full_marks" by code_simp
  from bonus_only_raises [OF legacy_ok this c c'] c c' show ?thesis by simp
qed

lemma foldE_add_row_known:
  "foldE (add_row inds r) rows s = Inr t \<Longrightarrow> \<forall>row\<in>set rows. inds (sr_indicator row) \<noteq> None"
proof (induction rows arbitrary: s)
  case (Cons row rows)
  then obtain s' where "add_row inds r row s = Inr s'" "foldE (add_row inds r) rows s' = Inr t"
    by (auto simp: bindE_Inr_iff)
  moreover then have "inds (sr_indicator row) \<noteq> None" by (cases "inds (sr_indicator row)") (auto simp: add_row_def)
  ultimately show ?case using Cons.IH by auto
qed simp

text \<open>The computation never fails on a sheet whose questions are all known, and on a sheet with an
  unknown question it raises the lookup error: nothing is silently skipped.\<close>

theorem result_exists_iff:
  assumes "r_thresholds r \<noteq> []"
  shows "(\<exists>c. compute_result rows inds r bonus = Inr c) \<longleftrightarrow>
    (\<forall>row\<in>set rows. inds (sr_indicator row) \<noteq> None)"
proof
  assume "\<exists>c. compute_result rows inds r bonus = Inr c"
  then obtain t where "foldE (add_row inds r) rows zero_sums = Inr t" by (auto simp: compute_result_Inr)
  then show "\<forall>row\<in>set rows. inds (sr_indicator row) \<noteq> None" by (rule foldE_add_row_known)
qed (use compute_result_total [OF _ assms] in blast)

theorem result_exists_iff_witness:
  "(\<exists>c. compute_result full_marks two_questions LEGACY_RULES 0 = Inr c) \<and>
   \<not> (\<exists>c. compute_result full_marks (\<lambda>_. None) LEGACY_RULES 0 = Inr c)"
proof -
  have table: "r_thresholds LEGACY_RULES \<noteq> []" by code_simp
  have "\<forall>row\<in>set full_marks. two_questions (sr_indicator row) \<noteq> None"
    "\<exists>row\<in>set full_marks. (\<lambda>_. None :: indicator option) (sr_indicator row) = None" by code_simp+
  then show ?thesis using result_exists_iff [OF table] by simp
qed

section \<open>Rules\<close>

text \<open>A table that passes the validation of a rule draft assigns exactly one recommendation to
  every percentage between 0 and 100: the label of the band that the percentage falls in, whose
  lower end is the previous upper end.\<close>

theorem bands_cover_once:
  assumes "validate_scheme p = Inr q" and "0 \<le> pct" and "pct \<le> 100"
  shows "\<exists>!i. i < length (si_thresholds p) \<and> pct < fst (si_thresholds p ! i) \<and>
      (0 < i \<longrightarrow> fst (si_thresholds p ! (i - 1)) \<le> pct) \<and>
      recommendation_for (rules_from_input p) pct = Inr (snd (si_thresholds p ! i))"
proof -
  let ?ts = "si_thresholds p"
  note t = checked_thresholds [OF assms(1)]
  define P where "P i \<longleftrightarrow> i < length ?ts \<and> pct < fst (?ts ! i)" for i
  have last: "P (length ?ts - 1)" using t assms(3) by (simp add: P_def last_conv_nth)
  define i where "i = (LEAST i. P i)"
  have i: "P i" unfolding i_def by (rule LeastI [of P, OF last])
  have below: "fst (?ts ! (i - 1)) \<le> pct" if "0 < i"
    using not_less_Least [of "i - 1" P, folded i_def] that i by (auto simp: P_def not_less)
  have "band_for ?ts pct = Some (snd (?ts ! i))"
    by (rule band_for_index [OF t(1)]) (use i below in \<open>auto simp: P_def\<close>)
  then have rec: "recommendation_for (rules_from_input p) pct = Inr (snd (?ts ! i))"
    by (simp add: recommendation_for_def rules_from_input_def)
  have "j = i" if j: "j < length ?ts" "pct < fst (?ts ! j)" "0 < j \<longrightarrow> fst (?ts ! (j - 1)) \<le> pct" for j
  proof (rule ccontr)
    assume ne: "j \<noteq> i"
    have mono: "fst (?ts ! a) \<le> fst (?ts ! b)" if "a \<le> b" "b < length ?ts" for a b
      using t(1) that by (cases "a = b") (auto simp: sorted_wrt_iff_nth_less less_imp_le)
    show False
    proof (cases "j < i")
      case True
      then have "fst (?ts ! j) \<le> fst (?ts ! (i - 1))" using i by (intro mono) (auto simp: P_def)
      then show False using True below j by simp
    next
      case False
      then have "fst (?ts ! i) \<le> fst (?ts ! (j - 1))" using ne j by (intro mono) auto
      then show False using False ne j i by (simp add: P_def)
    qed
  qed
  then show ?thesis using i below rec by (intro ex1I [of _ i]) (auto simp: P_def)
qed

theorem bands_cover_once_witness:
  "\<exists>!i. i < length (si_thresholds demo_input) \<and> 60 < fst (si_thresholds demo_input ! i) \<and>
      (0 < i \<longrightarrow> fst (si_thresholds demo_input ! (i - 1)) \<le> 60) \<and>
      recommendation_for (rules_from_input demo_input) 60 = Inr (snd (si_thresholds demo_input ! i))"
  by (rule bands_cover_once [OF demo_input_valid]) simp_all

section \<open>Rule versions\<close>

text \<open>Whatever drafts, activations and deletions are requested, in any order, the versions keep
  distinct identifiers and at most one of them is active.\<close>

theorem one_active_scheme:
  assumes "schemes_ok d"
  shows "schemes_ok (fold (scheme_step e) cs d)"
  using assms by (rule scheme_sys.run_inv)

text \<open>A version can be activated only by somebody who did not draft it, and only while it is a
  draft; the activation makes it the active version and retires the previous one.\<close>

theorem activation_is_four_eyes:
  assumes "schemes_ok d" and "activate_scheme e u k d = Inr d'"
  shows "\<exists>s t. get_scheme d k = Some s \<and> ss_status s = scheme_draft \<and> ss_created_by s \<noteq> Some (cu_id u) \<and>
    get_scheme d' k = Some t \<and> active_scheme d' = Some t \<and> rules_from t = rules_from s \<and>
    ss_activated_by t = Some (cu_id u) \<and>
    (\<forall>p. active_scheme d = Some p \<longrightarrow> get_scheme d' (ss_id p) =
       Some (p\<lparr>ss_status := scheme_retired, ss_retired_at := Some (now e)\<rparr>))"
proof -
  obtain s d2 where s: "get_scheme d k = Some s" "ss_status s = scheme_draft"
    and act: "activate e k (cu_id u) d = Inr d2" and d': "schemes d' = schemes d2"
    using assms(2) by (auto simp: activate_scheme_Inr frame_simps)
  define d1 where "d1 = (case active_scheme d of None \<Rightarrow> d
     | Some p \<Rightarrow> upd_scheme (ss_id p)
         (\<lambda>p. p\<lparr>ss_status := scheme_retired, ss_retired_at := Some (now e)\<rparr>) d)"
  let ?on = "\<lambda>s. s\<lparr>ss_status := scheme_active, ss_activated_at := Some (now e),
    ss_activated_by := Some (cu_id u)\<rparr>"
  have author: "ss_created_by s \<noteq> Some (cu_id u)" and d2: "d2 = upd_scheme k ?on d1"
    using act s by (auto simp: activate_def d1_def Let_def split: if_splits)
  have get: "get_scheme d' j = get_scheme d2 j" for j by (simp add: get_scheme_def d')
  have old: "p \<in> set (schemes d) \<and> ss_status p = scheme_active" if "active_scheme d = Some p" for p
    using that by (rule active_scheme_Some)
  have other: "get_scheme d (ss_id p) = Some p \<and> ss_id p \<noteq> k" if p: "active_scheme d = Some p" for p
  proof -
    have "get_scheme d (ss_id p) = Some p"
      using old [OF p] assms(1) by (simp add: get_scheme_def schemes_ok_def tbl_get_in)
    then show ?thesis using s old [OF p] by auto
  qed
  have k1: "get_scheme d1 k = Some s"
    using s other by (auto simp: d1_def scheme_st.row_upd split: option.split)
  then have t: "get_scheme d' k = Some (?on s)" by (simp add: get d2 scheme_st.row_upd)
  have "active_scheme d' = Some (?on s)"
  proof (cases "active_scheme d'")
    case None
    have "ss_status (?on s) \<noteq> scheme_active"
      by (rule active_scheme_None [OF None]) (use get_scheme_in [OF t] in blast)
    then show ?thesis by simp
  next
    case (Some a)
    moreover have "schemes_ok d'"
      using activate_schemes_ok [OF assms(1) act] schemes_ok_cong [OF d'] by simp
    ultimately show ?thesis
      using active_scheme_Some [OF Some] get_scheme_in [OF t] unfolding schemes_ok_def by fastforce
  qed
  moreover have "get_scheme d' (ss_id p) =
      Some (p\<lparr>ss_status := scheme_retired, ss_retired_at := Some (now e)\<rparr>)" if p: "active_scheme d = Some p" for p
    using other [OF p] p by (simp add: get d2 d1_def scheme_st.row_upd)
  ultimately show ?thesis using s author t by (auto simp: rules_from_def)
qed

text \<open>C33. A version that left the draft stage is never edited or deleted again: the rules of a case
  that is stamped with it read the same after any list of requests.\<close>

theorem stamped_rules_never_change:
  assumes "get_scheme d k = Some s" and "ss_status s \<noteq> scheme_draft" and "er_scheme r = Some k"
  shows "rules_for_record (fold (scheme_step e) cs d) r = rules_for_record d r"
proof -
  obtain t where "get_scheme (fold (scheme_step e) cs d) k = Some t" "same_rules s t"
    using scheme_run_get [OF assms(1,2)] by blast
  then show ?thesis using assms by (simp add: rules_for_record_def same_rules_def Let_def)
qed

text \<open>A stored draft, the same version once active, and a second user.\<close>

definition demo_scheme :: "int \<Rightarrow> scheme_status \<Rightarrow> scoring_scheme" where
  "demo_scheme k s = (drafted demo_input demo_env)\<lparr>ss_id := k, ss_version := k, ss_status := s\<rparr>"

definition other_hr :: current_user where
  "other_hr = \<lparr>cu_id = 2, cu_username = ''hr2'', cu_role = hr, cu_personnel_id = None\<rparr>"

definition schemes_db :: db where
  "schemes_db = empty_db\<lparr>schemes := [demo_scheme 1 scheme_active, demo_scheme 2 scheme_draft]\<rparr>"

lemma schemes_db_ok: "schemes_ok schemes_db"
  by (auto simp: schemes_ok_def schemes_db_def tbl_ok_def demo_scheme_def)

lemma schemes_db_get: "get_scheme schemes_db 1 = Some (demo_scheme 1 scheme_active)"
  "get_scheme schemes_db 2 = Some (demo_scheme 2 scheme_draft)"
  by (simp_all add: get_scheme_def schemes_db_def tbl_get_def demo_scheme_def)

lemma demo_scheme_sel: "ss_status (demo_scheme k s) = s" "ss_id (demo_scheme k s) = k"
  "ss_created_by (demo_scheme k s) = Some 1"
  by (simp_all add: demo_scheme_def drafted_def create_scheme_def Let_def)

theorem one_active_scheme_witness:
  "schemes_ok (fold (scheme_step demo_env) [CreateScheme other_hr demo_input, ActivateScheme other_hr 2, DeleteDraft other_hr 3] schemes_db)"
  by (rule one_active_scheme [OF schemes_db_ok])

theorem activation_is_four_eyes_witness:
  "\<exists>d'. activate_scheme demo_env other_hr 2 schemes_db = Inr d' \<and>
     (\<exists>t. active_scheme d' = Some t \<and> ss_activated_by t = Some 2)"
proof -
  obtain d' where d': "activate_scheme demo_env other_hr 2 schemes_db = Inr d'"
    by (simp add: activate_scheme_Inr schemes_db_get demo_scheme_sel activate_def Let_def other_hr_def)
  show ?thesis
    using activation_is_four_eyes [OF schemes_db_ok d'] d' by (auto simp: other_hr_def)
qed

theorem stamped_rules_never_change_witness:
  "rules_for_record (fold (scheme_step demo_env) [ActivateScheme other_hr 2, DeleteDraft other_hr 1] schemes_db)
     (demo_case draft\<lparr>er_scheme := Some 1\<rparr>) =
   rules_for_record schemes_db (demo_case draft\<lparr>er_scheme := Some 1\<rparr>)"
  by (rule stamped_rules_never_change [OF schemes_db_get(1)]) (simp_all add: demo_scheme_sel)

text \<open>The validation of a draft checks the section weights with six decimals, the database keeps
  three: a draft with the weights 0.3125 and 0.6875 is accepted, and a full score sheet under the
  stored version ends at 100.1 percent.\<close>

theorem stored_weights_exceed_one:
  "validate_scheme fine_input = Inr fine_input \<and>
   (\<exists>c. compute_result full_marks two_questions (rules_from (drafted fine_input demo_env)) 0 = Inr c \<and>
      cr_final c = fl (1001/10))"
proof -
  let ?r = "rules_from (drafted fine_input demo_env)"
  have rows: "add_row two_questions ?r = add_row two_questions LEGACY_RULES"
  proof -
    have w: "weight_for ?r = weight_for LEGACY_RULES"
      by (simp add: weight_for_def fun_eq_iff fine_rules) (simp add: LEGACY_RULES_def)
    show ?thesis unfolding add_row_def w ..
  qed
  have base: "base_percentage ?r 100 100 = fl (1001/10)"
    by (simp only: base_percentage_def fine_rules fine_base)
  have "py_round 1 (fl (1001/10)) = fl (1001/10)" by code_simp
  then have final: "final_percentage ?r 0 (fl (1001/10)) = fl (1001/10)"
    by (simp only: final_percentage_def applied_bonus_zero order_refl add_0_right fl_idem)
  have top: "fl (1001/10) < fl 101" "\<not> fl (1001/10) < fl 60" "\<not> fl (1001/10) < fl 80"
    by code_simp+
  show ?thesis
    by (simp add: fine_input_valid compute_result_Inr rows full_marks_sums all_points base final top Let_def
        recommendation_for_def fine_rules)
qed

end
