(* ===== verification/Frameworks.thy ===== *)
theory Frameworks
  imports AuditChain
begin

text \<open>
  The question list and its frozen versions: \<open>services/indicator_framework.py\<close> and the endpoints of
  \<open>routers/indicators.py\<close>. A framework is a snapshot of the active question ids; a case points to
  one and is scored on exactly its members. The lemmas show that published versions are never
  rewritten, that a case somebody has touched keeps its questions whatever happens to the list,
  that publishing moves every untouched open case to the newest version, and that a question that
  carries a score is never deleted.
\<close>

section \<open>The question store\<close>

definition get_indicator :: "db \<Rightarrow> int \<Rightarrow> indicator option" where
  "get_indicator d = tbl_get in_id (indicators d)"

definition upd_indicator :: "int \<Rightarrow> (indicator \<Rightarrow> indicator) \<Rightarrow> db \<Rightarrow> db" where
  "upd_indicator k f d = d\<lparr>indicators := tbl_upd in_id k f (indicators d)\<rparr>"

interpretation indicator_st: row_store get_indicator upd_indicator in_id
  by unfold_locales
    (auto simp: get_indicator_def upd_indicator_def tbl_get_upd dest: tbl_get_Some_set)

definition OPEN_STATUSES :: "evaluation_status list" where
  "OPEN_STATUSES = [draft, submitted, hr_approved, deputy_approved]"

definition is_open :: "evaluation_record \<Rightarrow> bool" where
  "is_open r \<longleftrightarrow> er_status r \<in> set OPEN_STATUSES"

lemma is_open_iff: "is_open r \<longleftrightarrow> er_status r \<noteq> finalized \<and> er_status r \<noteq> cancelled"
  by (cases "er_status r") (simp_all add: is_open_def OPEN_STATUSES_def)

section \<open>Versions\<close>

definition active_member_ids :: "db \<Rightarrow> int list" where
  "active_member_ids d = sort (map in_id (filter in_active (indicators d)))"

text \<open>The row with the highest version (\<open>ORDER BY version DESC LIMIT 1\<close>).\<close>

definition newer_framework ::
  "indicator_framework \<Rightarrow> indicator_framework option \<Rightarrow> indicator_framework option" where
  "newer_framework f best = (case best of None \<Rightarrow> Some f
     | Some b \<Rightarrow> if if_version b < if_version f then Some f else Some b)"

definition current_framework :: "db \<Rightarrow> indicator_framework option" where
  "current_framework d = fold newer_framework (frameworks d) None"

definition bump ::
  "int option \<Rightarrow> string \<Rightarrow> ustr option \<Rightarrow> db \<Rightarrow> indicator_framework \<times> db" where
  "bump actor kind note d =
     (let f = \<lparr>if_id = tbl_next if_id (frameworks d),
            if_version = (case current_framework d of None \<Rightarrow> 0 | Some l \<Rightarrow> if_version l) + 1,
            if_members = active_member_ids d, if_change_kind = kind, if_change_note = note,
            if_created_by = actor\<rparr>
      in (f, d\<lparr>frameworks := frameworks d @ [f]\<rparr>))"

definition ensure_framework :: "db \<Rightarrow> indicator_framework \<times> db" where
  "ensure_framework d = (case current_framework d of
     None \<Rightarrow> bump None ''seed'' None d
   | Some f \<Rightarrow> if if_members f \<noteq> active_member_ids d then bump None ''seed'' None d else (f, d))"

section \<open>The questions of a case\<close>

definition indicator_ids_for_record :: "db \<Rightarrow> evaluation_record \<Rightarrow> int set" where
  "indicator_ids_for_record d r = (case er_framework r of
     None \<Rightarrow> set (active_member_ids d)
   | Some k \<Rightarrow> (case get_framework d k of
       None \<Rightarrow> set (active_member_ids d)
     | Some f \<Rightarrow> set (if_members f)))"

text \<open>The dictionary \<open>{i.id: i}\<close> as the list of its values.\<close>

definition indicators_for_record :: "db \<Rightarrow> evaluation_record \<Rightarrow> indicator list" where
  "indicators_for_record d r =
     filter (\<lambda>i. in_id i \<in> indicator_ids_for_record d r) (indicators d)"

abbreviation by_id :: "indicator list \<Rightarrow> int \<Rightarrow> indicator option" where
  "by_id \<equiv> tbl_get in_id"

definition is_untouched :: "db \<Rightarrow> evaluation_record \<Rightarrow> bool" where
  "is_untouched d r \<longleftrightarrow>
     (\<forall>s\<in>set (scores d). es_record s \<noteq> er_id r) \<and>
     (\<forall>a\<in>set (assessments d).
        \<not> (ca_personnel a = er_subject r \<and> Some (ca_contract_start a) = er_contract_start r)) \<and>
     er_self_submitted_at r = None"

definition impact_of_membership_change :: "db \<Rightarrow> nat \<times> nat" where
  "impact_of_membership_change d =
     (length (filter (\<lambda>r. is_open r \<and> \<not> is_untouched d r) (records d)),
      length (filter (\<lambda>r. is_open r \<and> is_untouched d r) (records d)))"

text \<open>
  The rows the rebinding moves. \<open>indicator_framework_id != :id\<close> is not true of a NULL, so a case
  without a framework stays without one.
\<close>

definition rebinds :: "db \<Rightarrow> indicator_framework \<Rightarrow> evaluation_record \<Rightarrow> bool" where
  "rebinds d f r \<longleftrightarrow> is_open r \<and> er_framework r \<noteq> None \<and> er_framework r \<noteq> Some (if_id f) \<and>
     is_untouched d r"

definition rebind_untouched_open_records :: "indicator_framework \<Rightarrow> db \<Rightarrow> nat \<times> db" where
  "rebind_untouched_open_records f d =
     (length (filter (rebinds d f) (records d)),
      d\<lparr>records := map (\<lambda>r. if rebinds d f r then r\<lparr>er_framework := Some (if_id f)\<rparr> else r)
                      (records d)\<rparr>)"

section \<open>Endpoints\<close>

definition publish :: "int \<Rightarrow> string \<Rightarrow> ustr option \<Rightarrow> db \<Rightarrow> nat \<times> db" where
  "publish actor kind note d =
     (let (f, d1) = bump (Some actor) kind note d in rebind_untouched_open_records f d1)"

definition scored_count :: "db \<Rightarrow> int \<Rightarrow> nat" where
  "scored_count d k = length (filter (\<lambda>s. es_indicator s = k) (scores d))"

fun section_value :: "indicator_section \<Rightarrow> string" where
  "section_value general = ''general''"
| "section_value specialized = ''specialized''"

definition max_order :: "indicator_section \<Rightarrow> db \<Rightarrow> int" where
  "max_order s d = (case filter (\<lambda>i. in_section i = s) (indicators d) of
     [] \<Rightarrow> 0 | xs \<Rightarrow> Max (set (map in_order xs)))"

definition create_indicator ::
  "env \<Rightarrow> current_user \<Rightarrow> indicator_section \<Rightarrow> ustr \<Rightarrow> ustr \<Rightarrow> db \<Rightarrow> indicator \<times> db" where
  "create_indicator e u s category description d =
     (let i = \<lparr>in_id = tbl_next in_id (indicators d), in_section = s, in_category = category,
            in_description = description, in_order = max_order s d + 1, in_active = True\<rparr>;
          (moved, d1) = publish (cu_id u) ''indicator_added'' None
            (d\<lparr>indicators := indicators d @ [i]\<rparr>)
      in (i, log_event e (cu_id u) ''indicator_created'' None None
           (Some (JObj [(''id'', JInt (in_id i)), (''section'', JStr (section_value s)),
              (''category'', JText category), (''description'', JText description),
              (''rebound_open_records'', JInt (int moved))])) d1))"

text \<open>The report endpoint may publish the first version, and commits it.\<close>

definition framework_impact :: "db \<Rightarrow> (int \<times> nat \<times> nat \<times> nat) \<times> db" where
  "framework_impact d =
     (let (f, d1) = ensure_framework d;
          (frozen, movable) = impact_of_membership_change d1
      in ((if_version f, length (if_members f), frozen, movable), d1))"

text \<open>\<open>enumerate(ordered_ids, start=1)\<close>.\<close>

fun place :: "int \<Rightarrow> int list \<Rightarrow> db \<Rightarrow> db" where
  "place n [] d = d"
| "place n (k # ks) d = place (n + 1) ks (upd_indicator k (\<lambda>i. i\<lparr>in_order := n\<rparr>) d)"

definition reorder_indicators ::
  "env \<Rightarrow> current_user \<Rightarrow> indicator_section \<Rightarrow> int list \<Rightarrow> db \<Rightarrow> db result" where
  "reorder_indicators e u s ordered d =
     (let existing = set (map in_id (filter (\<lambda>i. in_section i = s) (indicators d))) in
      if length ordered \<noteq> card (set ordered) \<or> set ordered \<noteq> existing
      then Inl (HTTPException 400 ''the order must list exactly the questions of the section'')
      else Inr (log_event e (cu_id u) ''indicators_reordered'' None None
             (Some (JObj [(''section'', JStr (section_value s)),
                          (''ordered_ids'', JList (map JInt ordered))]))
             (place 1 ordered d)))"

definition delete_indicator :: "env \<Rightarrow> current_user \<Rightarrow> int \<Rightarrow> db \<Rightarrow> db result" where
  "delete_indicator e u k d = (case get_indicator d k of
     None \<Rightarrow> Inl (HTTPException 404 ''question not found'')
   | Some i \<Rightarrow>
      if scored_count d k \<noteq> 0 then Inl (HTTPException 409 ''the question has been scored'')
      else
        let d1 = log_event e (cu_id u) ''indicator_deleted'' None
              (Some (JObj [(''id'', JInt (in_id i)), (''section'', JStr (section_value (in_section i))),
                 (''category'', JText (in_category i)), (''description'', JText (in_description i))]))
              None d;
            d2 = d1\<lparr>indicators := filter (\<lambda>x. in_id x \<noteq> k) (indicators d1)\<rparr>
        in Inr (snd (publish (cu_id u) ''indicator_deleted'' None d2)))"

text \<open>
  A partial update. \<open>None\<close> is a field the payload does not set; \<open>Some None\<close> is an explicit null,
  which the NOT NULL column refuses at the flush.
\<close>

record indicator_patch =
  pt_category :: "ustr option option"
  pt_description :: "ustr option option"
  pt_order :: "int option option"
  pt_active :: "bool option option"
  pt_reason :: "ustr option"

definition rewrites_meaning :: "indicator_patch \<Rightarrow> indicator \<Rightarrow> bool" where
  "rewrites_meaning p i \<longleftrightarrow>
     (pt_category p \<noteq> None \<and> pt_category p \<noteq> Some (Some (in_category i))) \<or>
     (pt_description p \<noteq> None \<and> pt_description p \<noteq> Some (Some (in_description i)))"

definition patch_has_null :: "indicator_patch \<Rightarrow> bool" where
  "patch_has_null p \<longleftrightarrow> pt_category p = Some None \<or> pt_description p = Some None \<or>
     pt_order p = Some None \<or> pt_active p = Some None"

definition patched :: "'a option option \<Rightarrow> 'a \<Rightarrow> 'a" where
  "patched v old = (case v of Some (Some x) \<Rightarrow> x | _ \<Rightarrow> old)"

definition apply_patch :: "indicator_patch \<Rightarrow> indicator \<Rightarrow> indicator" where
  "apply_patch p i = i\<lparr>in_category := patched (pt_category p) (in_category i),
     in_description := patched (pt_description p) (in_description i),
     in_order := patched (pt_order p) (in_order i),
     in_active := patched (pt_active p) (in_active i)\<rparr>"

definition json_opt :: "('a \<Rightarrow> json) \<Rightarrow> 'a option \<Rightarrow> json" where
  "json_opt f v = (case v of None \<Rightarrow> JNull | Some x \<Rightarrow> f x)"

definition member_if_set :: "string \<Rightarrow> ('a \<Rightarrow> json) \<Rightarrow> 'a option option \<Rightarrow> (string \<times> json) list" where
  "member_if_set name f v = (case v of None \<Rightarrow> [] | Some x \<Rightarrow> [(name, json_opt f x)])"

definition publish_if_flipped ::
  "current_user \<Rightarrow> indicator_patch \<Rightarrow> indicator \<Rightarrow> db \<Rightarrow> nat option \<times> db" where
  "publish_if_flipped u p i d = (case pt_active p of
     Some (Some a) \<Rightarrow> if a = in_active i then (None, d)
       else apfst Some (publish (cu_id u)
              (if a then ''indicator_activated'' else ''indicator_deactivated'') None d)
   | _ \<Rightarrow> (None, d))"

definition update_indicator ::
  "env \<Rightarrow> current_user \<Rightarrow> int \<Rightarrow> indicator_patch \<Rightarrow> db \<Rightarrow> db result" where
  "update_indicator e u k p d = (case get_indicator d k of
     None \<Rightarrow> Inl (HTTPException 404 ''question not found'')
   | Some i \<Rightarrow>
      if rewrites_meaning p i \<and> pt_reason p = None \<and> scored_count d k \<noteq> 0
      then Inl (HTTPException 409 ''a scored question needs a wording-fix reason'')
      else if patch_has_null p then Inl (Uncaught (IntegrityError ''not null''))
      else
        let (moved, d2) = publish_if_flipped u p i (upd_indicator k (apply_patch p) d)
        in Inr (log_event e (cu_id u) ''indicator_updated'' None
             (Some (JObj [(''category'', JText (in_category i)),
                (''description'', JText (in_description i)),
                (''display_order'', JInt (in_order i)), (''is_active'', JBool (in_active i))]))
             (Some (JObj (member_if_set ''category'' JText (pt_category p) @
                member_if_set ''description'' JText (pt_description p) @
                member_if_set ''display_order'' JInt (pt_order p) @
                member_if_set ''is_active'' JBool (pt_active p) @
                (case pt_reason p of Some (x # xs) \<Rightarrow> [(''wording_fix_reason'', JText (x # xs))]
                   | _ \<Rightarrow> []) @
                (case moved of None \<Rightarrow> [] | Some n \<Rightarrow> [(''rebound_open_records'', JInt (int n))])))) d2))"

definition replace_indicator ::
  "env \<Rightarrow> current_user \<Rightarrow> int \<Rightarrow> ustr \<Rightarrow> ustr \<Rightarrow> ustr \<Rightarrow> db \<Rightarrow> db result" where
  "replace_indicator e u k category description reason d = (case get_indicator d k of
     None \<Rightarrow> Inl (HTTPException 404 ''question not found'')
   | Some old \<Rightarrow>
      if \<not> in_active old then Inl (HTTPException 409 ''the question is already inactive'')
      else
        let i = \<lparr>in_id = tbl_next in_id (indicators d), in_section = in_section old,
              in_category = category, in_description = description, in_order = in_order old,
              in_active = True\<rparr>;
            d1 = upd_indicator k (\<lambda>x. x\<lparr>in_active := False\<rparr>) d;
            (moved, d2) = publish (cu_id u) ''indicator_replaced'' (Some reason)
              (d1\<lparr>indicators := indicators d1 @ [i]\<rparr>)
        in Inr (log_event e (cu_id u) ''indicator_replaced'' None
             (Some (JObj [(''id'', JInt (in_id old)), (''category'', JText (in_category old)),
                          (''description'', JText (in_description old))]))
             (Some (JObj [(''id'', JInt (in_id i)), (''category'', JText category),
                (''description'', JText description), (''reason'', JText reason),
                (''rebound_open_records'', JInt (int moved))])) d2))"

section \<open>Sequences of requests\<close>

datatype indicator_request =
    CreateIndicator current_user indicator_section ustr ustr
  | FrameworkImpact
  | ReorderIndicators current_user indicator_section "int list"
  | DeleteIndicator current_user int
  | UpdateIndicator current_user int indicator_patch
  | ReplaceIndicator current_user int ustr ustr ustr

definition committed :: "db \<Rightarrow> db result \<Rightarrow> db" where
  "committed d m = (case m of Inl _ \<Rightarrow> d | Inr d' \<Rightarrow> d')"

lemma committed_simps [simp]: "committed d (Inl x) = d" "committed d (Inr d') = d'"
  by (simp_all add: committed_def)

text \<open>An endpoint that raises is rolled back.\<close>

fun indicator_step :: "env \<Rightarrow> indicator_request \<Rightarrow> db \<Rightarrow> db" where
  "indicator_step e (CreateIndicator u s c t) d = snd (create_indicator e u s c t d)"
| "indicator_step e FrameworkImpact d = snd (framework_impact d)"
| "indicator_step e (ReorderIndicators u s ks) d = committed d (reorder_indicators e u s ks d)"
| "indicator_step e (DeleteIndicator u k) d = committed d (delete_indicator e u k d)"
| "indicator_step e (UpdateIndicator u k p) d = committed d (update_indicator e u k p d)"
| "indicator_step e (ReplaceIndicator u k c t r) d = committed d (replace_indicator e u k c t r d)"

section \<open>What publishing does\<close>

lemma publish_unfold:
  "publish actor kind note d =
     rebind_untouched_open_records (fst (bump (Some actor) kind note d))
       (snd (bump (Some actor) kind note d))"
  by (simp add: publish_def split_beta)

lemma bump_tables [frame_simps]:
  "records (snd (bump a t n d)) = records d"
  "scores (snd (bump a t n d)) = scores d"
  "assessments (snd (bump a t n d)) = assessments d"
  "indicators (snd (bump a t n d)) = indicators d"
  "audits (snd (bump a t n d)) = audits d"
  "frameworks (snd (bump a t n d)) = frameworks d @ [fst (bump a t n d)]"
  by (simp_all add: bump_def Let_def)

lemma bump_fst:
  "if_id (fst (bump a t n d)) = tbl_next if_id (frameworks d)"
  "if_members (fst (bump a t n d)) = active_member_ids d"
  by (simp_all add: bump_def Let_def)

lemma rebind_tables [frame_simps]:
  "frameworks (snd (rebind_untouched_open_records f d)) = frameworks d"
  "scores (snd (rebind_untouched_open_records f d)) = scores d"
  "assessments (snd (rebind_untouched_open_records f d)) = assessments d"
  "indicators (snd (rebind_untouched_open_records f d)) = indicators d"
  "audits (snd (rebind_untouched_open_records f d)) = audits d"
  by (simp_all add: rebind_untouched_open_records_def)

lemma publish_tables [frame_simps]:
  "frameworks (snd (publish a t n d)) = frameworks d @ [fst (bump (Some a) t n d)]"
  "scores (snd (publish a t n d)) = scores d"
  "assessments (snd (publish a t n d)) = assessments d"
  "indicators (snd (publish a t n d)) = indicators d"
  "audits (snd (publish a t n d)) = audits d"
  by (simp_all add: publish_unfold frame_simps)

lemma active_member_ids_cong [frame_simps]:
  "active_member_ids (snd (publish a t n d)) = active_member_ids d"
  "active_member_ids (log_event e ac ty r x y d) = active_member_ids d"
  by (simp_all add: active_member_ids_def frame_simps)

lemma is_untouched_cong:
  "scores d' = scores d \<Longrightarrow> assessments d' = assessments d \<Longrightarrow> is_untouched d' r = is_untouched d r"
  by (simp add: is_untouched_def)

lemma is_untouched_framework [simp]:
  "is_untouched d (r\<lparr>er_framework := x\<rparr>) = is_untouched d r"
  "is_open (r\<lparr>er_framework := x\<rparr>) = is_open r"
  by (simp_all add: is_untouched_def is_open_def)

lemma publish_records:
  "records (snd (publish a t n d)) =
     map (\<lambda>r. if rebinds d (fst (bump (Some a) t n d)) r
              then r\<lparr>er_framework := Some (if_id (fst (bump (Some a) t n d)))\<rparr> else r) (records d)"
proof -
  have "rebinds (snd (bump (Some a) t n d)) f r = rebinds d f r" for f r
    by (simp add: rebinds_def frame_simps is_untouched_cong [of "snd (bump (Some a) t n d)" d])
  then show ?thesis
    by (simp add: publish_unfold rebind_untouched_open_records_def frame_simps)
qed

text \<open>Publishing leaves a touched case as it is and moves every other open case that has a version.\<close>

lemma tbl_get_map:
  "(\<And>r. key (f r) = key r) \<Longrightarrow> tbl_get key (map f t) k = map_option f (tbl_get key t k)"
  by (induction t) (auto simp: tbl_get_def)

lemma publish_get_record:
  "get_record (snd (publish a t n d)) k =
     map_option (\<lambda>r. if rebinds d (fst (bump (Some a) t n d)) r
       then r\<lparr>er_framework := Some (if_id (fst (bump (Some a) t n d)))\<rparr> else r) (get_record d k)"
  unfolding get_record_def publish_records by (rule tbl_get_map) simp

lemma rebinds_touched: "\<not> is_untouched d r \<Longrightarrow> \<not> rebinds d f r"
  by (simp add: rebinds_def)

lemma publish_moves:
  assumes "r \<in> set (records (snd (publish a t n d)))"
    and "is_open r" and "is_untouched d r" and "er_framework r \<noteq> None"
  shows "er_framework r = Some (tbl_next if_id (frameworks d))"
  using assms
  by (auto simp: publish_records rebinds_def bump_fst split: if_splits)

section \<open>Versions are append-only\<close>

text \<open>Identifiers and versions ascend in insertion order (both come from counters that only grow).\<close>

definition frameworks_ok :: "db \<Rightarrow> bool" where
  "frameworks_ok d \<longleftrightarrow> sorted_wrt (<) (map if_id (frameworks d)) \<and>
     sorted_wrt (<) (map if_version (frameworks d))"

text \<open>The newest version lists exactly the active questions.\<close>

definition in_sync :: "db \<Rightarrow> bool" where
  "in_sync d \<longleftrightarrow> (case current_framework d of None \<Rightarrow> True
     | Some f \<Rightarrow> if_members f = active_member_ids d)"

lemma newest_fold:
  "sorted_wrt (<) (map if_version (fs @ [f])) \<Longrightarrow> fold newer_framework (fs @ [f]) None = Some f"
proof (induction fs arbitrary: f rule: rev_induct)
  case Nil
  then show ?case by (simp add: newer_framework_def)
next
  case (snoc g fs)
  then have "fold newer_framework (fs @ [g]) None = Some g" and "if_version g < if_version f"
    by (simp_all add: sorted_wrt_append)
  then have "newer_framework f (fold newer_framework (fs @ [g]) None) = Some f"
    by (simp only: newer_framework_def option.case if_True)
  then show ?case by simp
qed

lemma current_framework_snoc:
  assumes "sorted_wrt (<) (map if_version (frameworks d))" and "frameworks d = fs @ [f]"
  shows "current_framework d = Some f"
  using assms by (simp only: current_framework_def newest_fold)

lemma current_framework_last:
  assumes "frameworks_ok d"
  shows "current_framework d = (if frameworks d = [] then None else Some (last (frameworks d)))"
proof (cases "frameworks d" rule: rev_cases)
  case Nil
  then show ?thesis by (simp add: current_framework_def)
next
  case (snoc fs f)
  with assms show ?thesis by (simp add: frameworks_ok_def current_framework_snoc)
qed

lemma bump_ok: "frameworks_ok d \<Longrightarrow> frameworks_ok (snd (bump a t n d))"
proof -
  assume ok: "frameworks_ok d"
  have ids: "\<forall>f\<in>set (frameworks d). if_id f < tbl_next if_id (frameworks d)"
    by (simp add: tbl_next_gt)
  have vs: "\<forall>f\<in>set (frameworks d). if_version f < if_version (fst (bump a t n d))"
  proof (cases "frameworks d" rule: rev_cases)
    case (snoc fs g)
    then have "current_framework d = Some g" and "\<forall>f\<in>set fs. if_version f < if_version g"
      using ok by (simp_all add: current_framework_last frameworks_ok_def sorted_wrt_append)
    then show ?thesis using snoc by (auto simp: bump_def Let_def)
  qed simp
  show ?thesis
    using ok ids vs
    by (simp add: frameworks_ok_def frame_simps sorted_wrt_append bump_fst)
qed

lemma publish_ok:
  assumes "frameworks_ok d"
  shows "frameworks_ok (snd (publish a t n d))" and "in_sync (snd (publish a t n d))"
proof -
  have "frameworks_ok (snd (bump (Some a) t n d))" using assms by (rule bump_ok)
  then show ok: "frameworks_ok (snd (publish a t n d))"
    by (simp add: frameworks_ok_def frame_simps)
  have "current_framework (snd (publish a t n d)) = Some (fst (bump (Some a) t n d))"
    using current_framework_last [OF ok] by (simp add: frame_simps)
  then show "in_sync (snd (publish a t n d))"
    by (simp add: in_sync_def bump_fst frame_simps)
qed

section \<open>What every request keeps\<close>

lemma upd_indicator_tables [frame_simps]:
  "records (upd_indicator k f d) = records d"
  "scores (upd_indicator k f d) = scores d"
  "assessments (upd_indicator k f d) = assessments d"
  "frameworks (upd_indicator k f d) = frameworks d"
  "audits (upd_indicator k f d) = audits d"
  "indicators (upd_indicator k f d) = tbl_upd in_id k f (indicators d)"
  by (simp_all add: upd_indicator_def)

lemma place_tables [frame_simps]:
  "records (place n ks d) = records d"
  "scores (place n ks d) = scores d"
  "assessments (place n ks d) = assessments d"
  "frameworks (place n ks d) = frameworks d"
  "audits (place n ks d) = audits d"
  by (induction ks arbitrary: n d) (simp_all add: frame_simps)

lemma active_ids_upd:
  assumes "\<And>i. in_id (f i) = in_id i" and "\<And>i. i \<in> set t \<Longrightarrow> in_id i = k \<Longrightarrow> in_active (f i) = in_active i"
  shows "map in_id (filter in_active (tbl_upd in_id k f t)) = map in_id (filter in_active t)"
  using assms(2) by (induction t) (auto simp: tbl_upd_def assms(1))

lemma place_active [frame_simps]: "active_member_ids (place n ks d) = active_member_ids d"
proof (induction ks arbitrary: n d)
  case (Cons k ks)
  then show ?case
    by (simp add: active_member_ids_def frame_simps active_ids_upd)
qed simp

lemma place_ids: "map in_id (indicators (place n ks d)) = map in_id (indicators d)"
  by (induction ks arbitrary: n d) (simp_all add: frame_simps tbl_upd_keys)

lemma ensure_framework_cases:
  "ensure_framework d = bump None ''seed'' None d \<or>
   (\<exists>f. current_framework d = Some f \<and> if_members f = active_member_ids d \<and>
        ensure_framework d = (f, d))"
  by (auto simp: ensure_framework_def split: option.split)

text \<open>The common shape of a step: publish after an edit of the list, or leave the versions alone.\<close>

definition keeps_cases :: "db \<Rightarrow> db \<Rightarrow> bool" where
  "keeps_cases d d' \<longleftrightarrow> frameworks d' = frameworks d \<and> records d' = records d \<and>
     scores d' = scores d \<and> assessments d' = assessments d"

lemma keeps_cases_intros [intro]:
  "keeps_cases d d"
  "keeps_cases d (upd_indicator k f d)"
  "keeps_cases d (place n ks d)"
  "keeps_cases d (d\<lparr>indicators := x\<rparr>)"
  "keeps_cases d (log_event e a t r x' y d)"
  by (simp_all add: keeps_cases_def frame_simps)

lemma keeps_cases_trans [trans]: "keeps_cases a b \<Longrightarrow> keeps_cases b c \<Longrightarrow> keeps_cases a c"
  by (simp add: keeps_cases_def)

definition publishing :: "db \<Rightarrow> db \<Rightarrow> bool" where
  "publishing d d' \<longleftrightarrow> (\<exists>d1 a t n. keeps_cases d d1 \<and> keeps_cases (snd (publish a t n d1)) d' \<and>
     indicators d' = indicators d1)"

lemma publishing_log: "publishing d d1 \<Longrightarrow> publishing d (log_event e a t r x y d1)"
  unfolding publishing_def using keeps_cases_trans keeps_cases_intros(5)
  by (metis log_event_tables(9))

lemma publishing_publish: "keeps_cases d d1 \<Longrightarrow> publishing d (snd (publish a t n d1))"
  unfolding publishing_def using keeps_cases_intros(1) publish_tables(4) by blast

lemma create_publishing: "publishing d (snd (create_indicator e u s c t d))"
  by (auto simp: create_indicator_def Let_def split_beta intro!: publishing_log publishing_publish)

lemma delete_publishing:
  "delete_indicator e u k d = Inr d' \<Longrightarrow> publishing d d'"
proof -
  have "keeps_cases d ((log_event e a t r x y d)\<lparr>indicators := z\<rparr>)" for a t r x y z
    by (simp add: keeps_cases_def frame_simps)
  then show "delete_indicator e u k d = Inr d' \<Longrightarrow> publishing d d'"
    by (auto simp: delete_indicator_def Let_def split: option.splits if_splits
        intro!: publishing_publish)
qed

lemma replace_publishing:
  "replace_indicator e u k c t r d = Inr d' \<Longrightarrow> publishing d d'"
proof -
  have "keeps_cases d ((upd_indicator j f d)\<lparr>indicators := z\<rparr>)" for j f z
    by (simp add: keeps_cases_def frame_simps)
  then show "replace_indicator e u k c t r d = Inr d' \<Longrightarrow> publishing d d'"
    by (auto simp: replace_indicator_def Let_def split_beta split: option.splits if_splits
        intro!: publishing_log publishing_publish)
qed

text \<open>An update publishes exactly when it flips the activity flag.\<close>

lemma flipped_cases:
  "\<not> patch_has_null p \<Longrightarrow>
     (publish_if_flipped u p i d = (None, d) \<and> in_active (apply_patch p i) = in_active i) \<or>
     (\<exists>t. snd (publish_if_flipped u p i d) = snd (publish (cu_id u) t None d))"
  by (auto simp: publish_if_flipped_def apply_patch_def patched_def patch_has_null_def
      split: option.splits)

lemma update_Inr:
  assumes "update_indicator e u k p d = Inr d'"
  shows "\<exists>i x y. get_indicator d k = Some i \<and> \<not> patch_has_null p \<and>
    d' = log_event e (cu_id u) ''indicator_updated'' None x y
      (snd (publish_if_flipped u p i (upd_indicator k (apply_patch p) d)))"
  using assms by (auto simp: update_indicator_def split_beta split: option.splits if_splits)

lemma update_indicators:
  assumes "update_indicator e u k p d = Inr d'"
  shows "indicators d' = tbl_upd in_id k (apply_patch p) (indicators d)"
proof -
  obtain i x y where np: "\<not> patch_has_null p" and d': "d' = log_event e (cu_id u) ''indicator_updated''
      None x y (snd (publish_if_flipped u p i (upd_indicator k (apply_patch p) d)))"
    using update_Inr [OF assms] by blast
  show ?thesis
    using flipped_cases [OF np, of u i "upd_indicator k (apply_patch p) d"] d'
    by (auto simp: frame_simps)
qed

lemma reorder_Inr:
  "reorder_indicators e u s ks d = Inr d' \<Longrightarrow>
    \<exists>x. d' = log_event e (cu_id u) ''indicators_reordered'' None None x (place 1 ks d)"
  by (auto simp: reorder_indicators_def Let_def split: if_splits)

text \<open>
  Every step either publishes, seeds a first version (and touches no case), or leaves versions,
  cases and activity flags alone.
\<close>

definition quiet :: "db \<Rightarrow> db \<Rightarrow> bool" where
  "quiet d d' \<longleftrightarrow> keeps_cases d d' \<and> active_member_ids d' = active_member_ids d"

lemma calm_log: "quiet d d1 \<Longrightarrow> quiet d (log_event e a t r x y d1)"
  by (simp add: quiet_def keeps_cases_def frame_simps)

lemma quiet_intros [intro]:
  "quiet d d"
  "quiet d (place n ks d)"
  by (auto simp: quiet_def frame_simps)

lemma ids_unique:
  "tbl_ok in_id (indicators d) \<Longrightarrow> get_indicator d k = Some i \<Longrightarrow> j \<in> set (indicators d) \<Longrightarrow>
     in_id j = k \<Longrightarrow> j = i"
  using tbl_get_in [of in_id "indicators d" j] by (auto simp: get_indicator_def)

lemma update_step:
  assumes ok: "tbl_ok in_id (indicators d)" and u: "update_indicator e u k p d = Inr d'"
  shows "publishing d d' \<or> quiet d d'"
proof -
  define d1 where "d1 = upd_indicator k (apply_patch p) d"
  obtain i x y where i: "get_indicator d k = Some i" and np: "\<not> patch_has_null p"
    and d': "d' = log_event e (cu_id u) ''indicator_updated'' None x y
      (snd (publish_if_flipped u p i d1))"
    using update_Inr [OF u] by (auto simp: d1_def)
  show ?thesis
    using flipped_cases [OF np, of u i d1]
  proof
    assume a: "publish_if_flipped u p i d1 = (None, d1) \<and> in_active (apply_patch p i) = in_active i"
    then have "active_member_ids d1 = active_member_ids d"
      unfolding d1_def active_member_ids_def frame_simps
      by (subst active_ids_upd)
        (use ids_unique [OF ok i] in \<open>auto simp: apply_patch_def\<close>)
    then have "quiet d d1" by (auto simp: quiet_def d1_def)
    then show ?thesis using a by (simp add: d' calm_log)
  next
    assume "\<exists>t. snd (publish_if_flipped u p i d1) = snd (publish (cu_id u) t None d1)"
    then have "publishing d (snd (publish_if_flipped u p i d1))"
      by (auto simp: d1_def intro!: publishing_publish)
    then show ?thesis by (simp add: d' publishing_log)
  qed
qed

lemma indicator_step_cases:
  assumes ok: "tbl_ok in_id (indicators d)"
  obtains (publish) "publishing d (indicator_step e c d)"
  | (seed) "indicator_step e c d = snd (bump None ''seed'' None d)"
  | (quiet) "quiet d (indicator_step e c d)"
proof (cases c)
  case (CreateIndicator u s cat t)
  then show ?thesis using publish create_publishing by simp
next
  case FrameworkImpact
  from ensure_framework_cases [of d] show ?thesis
  proof
    assume "ensure_framework d = bump None ''seed'' None d"
    then show ?thesis using FrameworkImpact seed by (simp add: framework_impact_def split_beta)
  next
    assume "\<exists>f. current_framework d = Some f \<and> if_members f = active_member_ids d \<and>
        ensure_framework d = (f, d)"
    then have "snd (ensure_framework d) = d" by auto
    then show ?thesis using FrameworkImpact quiet by (auto simp: framework_impact_def split_beta)
  qed
next
  case (ReorderIndicators u s ks)
  then show ?thesis
    using quiet by (cases "reorder_indicators e u s ks d") (auto dest!: reorder_Inr intro: calm_log)
next
  case (DeleteIndicator u k)
  then show ?thesis
    using publish quiet delete_publishing [of e u k d]
    by (cases "delete_indicator e u k d") auto
next
  case (UpdateIndicator u k p)
  then show ?thesis
    using publish quiet update_step [OF ok, of e u k p]
    by (cases "update_indicator e u k p d") auto
next
  case (ReplaceIndicator u k cat t r)
  then show ?thesis
    using publish quiet replace_publishing [of e u k cat t r d]
    by (cases "replace_indicator e u k cat t r d") auto
qed

section \<open>The invariant of the question list\<close>

text \<open>
  Question identifiers are unique, published versions ascend, the newest one lists the active
  questions, and every score belongs to a question that exists.
\<close>

definition scores_known :: "db \<Rightarrow> bool" where
  "scores_known d \<longleftrightarrow> (\<forall>s\<in>set (scores d). es_indicator s \<in> in_id ` set (indicators d))"

definition catalogue_ok :: "db \<Rightarrow> bool" where
  "catalogue_ok d \<longleftrightarrow> tbl_ok in_id (indicators d) \<and> frameworks_ok d \<and> in_sync d \<and> scores_known d"

lemma in_sync_cong:
  "frameworks d' = frameworks d \<Longrightarrow> active_member_ids d' = active_member_ids d \<Longrightarrow>
     in_sync d' = in_sync d"
  by (auto simp: in_sync_def current_framework_def split: option.split)

lemma publishing_ok: "publishing d d' \<Longrightarrow> frameworks_ok d \<Longrightarrow> frameworks_ok d' \<and> in_sync d'"
proof -
  assume "publishing d d'" and ok: "frameworks_ok d"
  then obtain d1 a t n where d1: "keeps_cases d d1"
    and d2: "keeps_cases (snd (publish a t n d1)) d'" and i: "indicators d' = indicators d1"
    by (auto simp: publishing_def)
  have "frameworks_ok d1" using ok d1 by (simp add: frameworks_ok_def keeps_cases_def)
  note p = publish_ok [OF this, of a t n]
  have "active_member_ids d' = active_member_ids (snd (publish a t n d1))"
    using i by (simp add: frame_simps) (simp add: active_member_ids_def)
  then show ?thesis
    using p d2 in_sync_cong [of d' "snd (publish a t n d1)"]
    by (simp add: frameworks_ok_def keeps_cases_def)
qed

lemma seed_ok: "frameworks_ok d \<Longrightarrow> in_sync (snd (bump a t n d))"
proof -
  assume "frameworks_ok d"
  then have "current_framework (snd (bump a t n d)) = Some (fst (bump a t n d))"
    using bump_ok [of d a t n] by (simp add: current_framework_last frame_simps)
  then show ?thesis
    by (simp add: in_sync_def bump_fst active_member_ids_def frame_simps)
qed

text \<open>The identifiers in use after a step.\<close>

lemma step_ids:
  assumes ok: "tbl_ok in_id (indicators d)"
  shows "tbl_ok in_id (indicators (indicator_step e c d))"
proof (cases c)
  case (CreateIndicator u s cat t)
  then show ?thesis
    using ok by (simp add: create_indicator_def Let_def split_beta frame_simps tbl_ok_insert)
next
  case FrameworkImpact
  then show ?thesis
    using ok ensure_framework_cases [of d]
    by (auto simp: framework_impact_def split_beta frame_simps)
next
  case (ReorderIndicators u s ks)
  then show ?thesis
    using ok by (cases "reorder_indicators e u s ks d")
      (auto dest!: reorder_Inr simp: frame_simps tbl_ok_def place_ids)
next
  case (DeleteIndicator u k)
  then show ?thesis
    using ok by (auto simp: delete_indicator_def Let_def frame_simps tbl_ok_def distinct_map_filter
        split: option.split)
next
  case (UpdateIndicator u k p)
  then show ?thesis
    using ok by (cases "update_indicator e u k p d")
      (simp_all add: update_indicators tbl_ok_upd apply_patch_def)
next
  case (ReplaceIndicator u k cat t r)
  have keys: "map in_id (tbl_upd in_id k (\<lambda>x. x\<lparr>in_active := False\<rparr>) (indicators d)) =
      map in_id (indicators d)"
    by (rule tbl_upd_keys) simp
  have "tbl_next in_id (indicators d) \<notin> in_id ` set (indicators d)"
    using tbl_next_gt [of _ "indicators d" in_id] by force
  then have "tbl_ok in_id (tbl_upd in_id k (\<lambda>x. x\<lparr>in_active := False\<rparr>) (indicators d) @ [i])"
    if "in_id i = tbl_next in_id (indicators d)" for i
    using ok that by (simp add: tbl_ok_def keys flip: map_map)
  then show ?thesis
    using ok ReplaceIndicator
    by (simp add: replace_indicator_def Let_def split_beta frame_simps split: option.split)
qed

lemma step_scores: "scores (indicator_step e c d) = scores d"
proof (cases c)
  case FrameworkImpact
  then show ?thesis
    using ensure_framework_cases [of d] by (auto simp: framework_impact_def split_beta frame_simps)
next
  case (ReorderIndicators u s ks)
  then show ?thesis
    by (cases "reorder_indicators e u s ks d") (auto dest!: reorder_Inr simp: frame_simps)
next
  case (UpdateIndicator u k p)
  then show ?thesis
  proof (cases "update_indicator e u k p d")
    case (Inr d')
    then obtain i x y where "\<not> patch_has_null p" and
      d': "d' = log_event e (cu_id u) ''indicator_updated'' None x y
        (snd (publish_if_flipped u p i (upd_indicator k (apply_patch p) d)))"
      using update_Inr by blast
    then show ?thesis
      using UpdateIndicator Inr flipped_cases [of p u i "upd_indicator k (apply_patch p) d"]
      by (auto simp: frame_simps)
  qed simp
qed (auto simp: create_indicator_def delete_indicator_def replace_indicator_def Let_def split_beta
      frame_simps split: option.split)

lemma step_known:
  assumes "scores_known d"
  shows "scores_known (indicator_step e c d)"
proof -
  have grows: "in_id ` set (indicators d) \<subseteq> in_id ` set (indicators (indicator_step e c d)) \<or>
     (\<exists>k. scored_count d k = 0 \<and>
        in_id ` set (indicators d) - {k} \<subseteq> in_id ` set (indicators (indicator_step e c d)))"
  proof (cases c)
    case FrameworkImpact
    then show ?thesis
      using ensure_framework_cases [of d] by (auto simp: framework_impact_def split_beta frame_simps)
  next
    case (ReorderIndicators u s ks)
    then show ?thesis
      using arg_cong [OF place_ids [of 1 ks d], of set]
      by (cases "reorder_indicators e u s ks d") (auto dest!: reorder_Inr simp: frame_simps)
  next
    case (UpdateIndicator u k p)
    have "map in_id (tbl_upd in_id k (apply_patch p) (indicators d)) = map in_id (indicators d)"
      by (rule tbl_upd_keys) (simp add: apply_patch_def)
    from arg_cong [OF this, of set] show ?thesis
      using UpdateIndicator by (cases "update_indicator e u k p d") (simp_all add: update_indicators)
  next
    case (DeleteIndicator u k)
    then show ?thesis
      by (force simp: delete_indicator_def Let_def frame_simps split: option.split)
  next
    case (ReplaceIndicator u k cat t r)
    have "map in_id (tbl_upd in_id k (\<lambda>x. x\<lparr>in_active := False\<rparr>) (indicators d)) =
        map in_id (indicators d)"
      by (rule tbl_upd_keys) simp
    from arg_cong [OF this, of set] show ?thesis
      using ReplaceIndicator
      by (auto simp: replace_indicator_def Let_def split_beta frame_simps split: option.split)
  qed (auto simp: create_indicator_def Let_def split_beta frame_simps)
  have "es_indicator s \<noteq> k" if "scored_count d k = 0" "s \<in> set (scores d)" for s k
    using that by (auto simp: scored_count_def filter_empty_conv)
  then show ?thesis
    using assms grows unfolding scores_known_def step_scores by blast
qed

lemma step_catalogue: "catalogue_ok d \<Longrightarrow> catalogue_ok (indicator_step e c d)"
proof -
  assume "catalogue_ok d"
  then have ids: "tbl_ok in_id (indicators d)" and fw: "frameworks_ok d" and sync: "in_sync d"
    and known: "scores_known d"
    by (simp_all add: catalogue_ok_def)
  have "frameworks_ok (indicator_step e c d) \<and> in_sync (indicator_step e c d)"
  proof (rule indicator_step_cases [OF ids, of e c])
    assume "publishing d (indicator_step e c d)"
    then show ?thesis using fw by (rule publishing_ok)
  next
    assume "indicator_step e c d = snd (bump None ''seed'' None d)"
    then show ?thesis using fw bump_ok seed_ok by simp
  next
    assume "quiet d (indicator_step e c d)"
    then show ?thesis
      using fw sync in_sync_cong [of "indicator_step e c d" d]
      by (simp add: quiet_def keeps_cases_def frameworks_ok_def)
  qed
  then show ?thesis
    using step_ids [OF ids] step_known [OF known] by (simp add: catalogue_ok_def)
qed

interpretation catalogue_sys: invariant_system "indicator_step e" catalogue_ok for e
  by unfold_locales (rule step_catalogue)

section \<open>Cases keep their questions\<close>

text \<open>A case with a published version, touched by an evaluator or by its subject.\<close>

definition frozen_case :: "db \<Rightarrow> int \<Rightarrow> evaluation_record \<Rightarrow> indicator_framework \<Rightarrow> bool" where
  "frozen_case d k r f \<longleftrightarrow> get_record d k = Some r \<and> \<not> is_untouched d r \<and>
     (\<exists>j. er_framework r = Some j \<and> get_framework d j = Some f)"

lemma get_framework_append:
  "get_framework d j = Some f \<Longrightarrow> frameworks d' = frameworks d @ fs \<Longrightarrow> get_framework d' j = Some f"
  by (simp add: get_framework_def tbl_get_append_Some)

lemma frozen_case_transfer:
  assumes "frozen_case d k r f" and "get_record d' k = Some r"
    and "\<not> is_untouched d' r" and "frameworks d' = frameworks d @ fs"
  shows "frozen_case d' k r f"
  using assms(1-3) get_framework_append [OF _ assms(4)] unfolding frozen_case_def by blast

lemma step_frozen:
  assumes ids: "tbl_ok in_id (indicators d)" and fz: "frozen_case d k r f"
  shows "frozen_case (indicator_step e c d) k r f"
proof (rule indicator_step_cases [OF ids, of e c])
  assume "publishing d (indicator_step e c d)"
  then obtain d1 a t n where d1: "keeps_cases d d1"
    and d2: "keeps_cases (snd (publish a t n d1)) (indicator_step e c d)"
    by (auto simp: publishing_def)
  have r1: "get_record d1 k = Some r" and nu: "\<not> is_untouched d1 r"
    using fz d1 by (auto simp: frozen_case_def keeps_cases_def get_record_def is_untouched_def)
  have "get_record (indicator_step e c d) k = get_record (snd (publish a t n d1)) k"
    using d2 by (simp add: keeps_cases_def get_record_def)
  then have "get_record (indicator_step e c d) k = Some r"
    using r1 rebinds_touched [OF nu] by (simp add: publish_get_record)
  moreover have "frameworks (indicator_step e c d) = frameworks d @ [fst (bump (Some a) t n d1)]"
    and "\<not> is_untouched (indicator_step e c d) r"
    using d1 d2 fz by (simp_all add: keeps_cases_def frame_simps frozen_case_def is_untouched_def)
  ultimately show ?thesis using frozen_case_transfer [OF fz] by blast
next
  assume "indicator_step e c d = snd (bump None ''seed'' None d)"
  then have "frameworks (indicator_step e c d) = frameworks d @ [fst (bump None ''seed'' None d)]"
    and "get_record (indicator_step e c d) k = get_record d k"
    and "is_untouched (indicator_step e c d) r = is_untouched d r"
    by (simp_all add: frame_simps is_untouched_def get_record_def)
  then show ?thesis
    using frozen_case_transfer [OF fz] fz by (simp add: frozen_case_def)
next
  assume "quiet d (indicator_step e c d)"
  then show ?thesis
    using fz
    by (auto simp: frozen_case_def quiet_def keeps_cases_def get_record_def get_framework_def
        is_untouched_def)
qed

lemma run_frozen:
  "tbl_ok in_id (indicators d) \<Longrightarrow> frozen_case d k r f \<Longrightarrow>
     frozen_case (fold (indicator_step e) cs d) k r f"
  by (induction cs arbitrary: d) (simp_all add: step_ids step_frozen)

lemma frozen_ids: "frozen_case d k r f \<Longrightarrow> indicator_ids_for_record d r = set (if_members f)"
  by (auto simp: frozen_case_def indicator_ids_for_record_def)

lemma indicators_for_record_ids:
  "in_id ` set (indicators_for_record d r) = indicator_ids_for_record d r \<inter> in_id ` set (indicators d)"
  by (auto simp: indicators_for_record_def)

text \<open>Publishing a version append-only.\<close>

lemma step_versions:
  assumes "tbl_ok in_id (indicators d)"
  shows "\<exists>fs. frameworks (indicator_step e c d) = frameworks d @ fs"
proof (rule indicator_step_cases [OF assms, of e c])
  assume "publishing d (indicator_step e c d)"
  then show ?thesis by (auto simp: publishing_def keeps_cases_def frame_simps)
qed (auto simp: frame_simps quiet_def keeps_cases_def)

end
