(* ===== verification/Access.thy ===== *)
theory Access
  imports Frameworks
begin

text \<open>
  Who may do what: the role guards of \<open>api/deps.py\<close> and the hierarchy rule \<open>may_act_at\<close> of
  \<open>services/workflow.py\<close>, the capabilities and modules of \<open>services/authorization.py\<close> and
  \<open>core/modules.py\<close>, the segregation rules of \<open>services/self_evaluation.py\<close>, the submission window
  of \<open>services/evaluation_window.py\<close>, the cohort rule of \<open>services/privacy.py\<close> and the chain of
  evaluators that \<open>routers/evaluation_access.py\<close> writes. The lemmas show that the guards accept
  exactly the intended cases and that no accepted chain makes a person their own evaluator.
\<close>

section \<open>Roles\<close>

fun chain_rank :: "user_role \<Rightarrow> nat option" where
  "chain_rank unit_supervisor = Some 1"
| "chain_rank deputy = Some 2"
| "chain_rank ceo = Some 3"
| "chain_rank _ = None"

definition may_act_at :: "user_role \<Rightarrow> user_role \<Rightarrow> bool" where
  "may_act_at user_role stage_role =
     (if stage_role = hr then user_role = hr
      else (case (chain_rank user_role, chain_rank stage_role) of
          (Some u, Some s) \<Rightarrow> s \<le> u
        | _ \<Rightarrow> False))"

definition require_roles :: "user_role list \<Rightarrow> current_user \<Rightarrow> unit result" where
  "require_roles allowed u =
     require (cu_role u \<in> set allowed) (HTTPException 403 ''no access to this section'')"

definition require_chain_stage :: "user_role \<Rightarrow> current_user \<Rightarrow> unit result" where
  "require_chain_stage stage u =
     require (may_act_at (cu_role u) stage) (HTTPException 403 ''no access to this section'')"

text \<open>
  \<open>get_current_user\<close> on a decoded token: \<open>None\<close> when there are no credentials, the token does not
  decode or its type is not \<open>access\<close>; otherwise the subject (\<open>None\<close> when it is not an integer) and
  the token version.
\<close>

definition FORCED_PASSWORD_CHANGE_EXEMPT_PATHS :: "string list" where
  "FORCED_PASSWORD_CHANGE_EXEMPT_PATHS = [''/api/auth/change-password'', ''/api/auth/me'']"

definition as_current_user :: "user \<Rightarrow> current_user" where
  "as_current_user x = \<lparr>cu_id = u_id x, cu_username = u_username x, cu_role = u_role x,
     cu_personnel_id = u_personnel_id x\<rparr>"

definition get_current_user ::
  "string \<Rightarrow> (int option \<times> int option) option \<Rightarrow> db \<Rightarrow> current_user result" where
  "get_current_user path payload d =
     (let unauthorized = HTTPException 401 ''invalid or expired token'' in
      case payload of
        None \<Rightarrow> Inl unauthorized
      | Some (None, _) \<Rightarrow> Inl unauthorized
      | Some (Some uid, tv) \<Rightarrow> (case get_user d uid of
          None \<Rightarrow> Inl unauthorized
        | Some x \<Rightarrow>
            if \<not> u_is_active x then Inl unauthorized
            else if tv \<noteq> Some (u_token_version x) then Inl unauthorized
            else if u_must_change_password x \<and>
                    path \<notin> set FORCED_PASSWORD_CHANGE_EXEMPT_PATHS
            then Inl (HTTPException 403 ''change the password first'')
            else Inr (as_current_user x)))"

definition require_own_personnel :: "current_user \<Rightarrow> int result" where
  "require_own_personnel u =
     (if cu_role u = support then Inl (HTTPException 403 ''not for the super admin'')
      else case cu_personnel_id u of
        None \<Rightarrow> Inl (HTTPException 403 ''the account has no personnel file'')
      | Some k \<Rightarrow> Inr k)"

section \<open>Capabilities\<close>

definition DEFAULT_HR_CAPABILITIES :: "capability list" where
  "DEFAULT_HR_CAPABILITIES = [manage_users, manage_personnel, manage_scoring]"

definition capabilities_of :: "db \<Rightarrow> int \<Rightarrow> capability set" where
  "capabilities_of d k = uc_capability ` {c \<in> set (capabilities d). uc_user c = k}"

definition has_capability :: "db \<Rightarrow> int \<Rightarrow> capability \<Rightarrow> bool" where
  "has_capability d k c \<longleftrightarrow> (\<exists>x\<in>set (capabilities d). uc_user x = k \<and> uc_capability x = c)"

definition grant :: "int \<Rightarrow> int option \<Rightarrow> capability \<Rightarrow> db \<Rightarrow> db" where
  "grant k by c d = d\<lparr>capabilities := capabilities d @
     [\<lparr>uc_id = tbl_next uc_id (capabilities d), uc_user = k, uc_capability = c,
       uc_granted_by = by\<rparr>]\<rparr>"

definition apply_default_hr_capabilities :: "int \<Rightarrow> db \<Rightarrow> db" where
  "apply_default_hr_capabilities k d =
     fold (grant k None) DEFAULT_HR_CAPABILITIES
       (d\<lparr>capabilities := filter (\<lambda>c. uc_user c \<noteq> k) (capabilities d)\<rparr>)"

definition require_capability :: "capability list \<Rightarrow> current_user \<Rightarrow> db \<Rightarrow> unit result" where
  "require_capability needed u d =
     (let missing = filter (\<lambda>c. c \<notin> capabilities_of d (cu_id u)) needed in
      require (missing = []) (HTTPException 403 ''a capability is missing''))"

definition require_role_or_capability ::
  "user_role \<Rightarrow> capability \<Rightarrow> current_user \<Rightarrow> db \<Rightarrow> unit result" where
  "require_role_or_capability r c u d =
     require (cu_role u = r \<or> c \<in> capabilities_of d (cu_id u))
       (HTTPException 403 ''a capability is missing'')"

definition audit_log_reader :: "current_user \<Rightarrow> db \<Rightarrow> unit result" where
  "audit_log_reader u d =
     require (view_audit_log \<in> capabilities_of d (cu_id u) \<or>
              view_diagnostics \<in> capabilities_of d (cu_id u))
       (HTTPException 403 ''no access to this section'')"

section \<open>Modules\<close>

record module_def =
  md_key :: string
  md_default :: bool
  md_locked :: bool

definition MODULES :: "module_def list" where
  "MODULES =
    [\<lparr>md_key = ''periods'', md_default = True, md_locked = False\<rparr>,
     \<lparr>md_key = ''improvement_plans'', md_default = True, md_locked = False\<rparr>,
     \<lparr>md_key = ''self_assessment'', md_default = True, md_locked = False\<rparr>,
     \<lparr>md_key = ''objections'', md_default = False, md_locked = True\<rparr>,
     \<lparr>md_key = ''employee_overview_cards'', md_default = False, md_locked = True\<rparr>,
     \<lparr>md_key = ''employee_evaluation_visibility'', md_default = False, md_locked = True\<rparr>,
     \<lparr>md_key = ''employee_result_acknowledgement'', md_default = False, md_locked = True\<rparr>,
     \<lparr>md_key = ''role_analytics'', md_default = True, md_locked = False\<rparr>,
     \<lparr>md_key = ''outbound_notifications'', md_default = True, md_locked = False\<rparr>]"

definition module_by_key :: "string \<Rightarrow> module_def option" where
  "module_by_key key = find (\<lambda>m. md_key m = key) MODULES"

definition get_module :: "db \<Rightarrow> string \<Rightarrow> module_setting option" where
  "get_module d key = find (\<lambda>m. ms_key m = key) (modules d)"

definition is_module_enabled :: "db \<Rightarrow> string \<Rightarrow> bool" where
  "is_module_enabled d key =
     (let m = module_by_key key in
      if (case m of Some x \<Rightarrow> md_locked x | None \<Rightarrow> False) then False
      else case get_module d key of
        Some row \<Rightarrow> ms_enabled row
      | None \<Rightarrow> (case m of Some x \<Rightarrow> md_default x | None \<Rightarrow> True))"

definition module_states :: "db \<Rightarrow> (string \<times> bool) list" where
  "module_states d = map (\<lambda>m. (md_key m,
     if md_locked m then False
     else case get_module d (md_key m) of Some row \<Rightarrow> ms_enabled row | None \<Rightarrow> md_default m)) MODULES"

definition require_module :: "string \<Rightarrow> db \<Rightarrow> unit result" where
  "require_module key d =
     require (is_module_enabled d key) (HTTPException 403 ''the section is disabled'')"

text \<open>The four locked modules are off whatever the settings table says.\<close>

lemma locked_modules_off [simp]:
  "is_module_enabled d ''objections'' = False"
  "is_module_enabled d ''employee_overview_cards'' = False"
  "is_module_enabled d ''employee_evaluation_visibility'' = False"
  "is_module_enabled d ''employee_result_acknowledgement'' = False"
  by (simp_all add: is_module_enabled_def module_by_key_def MODULES_def)

lemma module_states_agree:
  "map_of (module_states d) key = Some b \<Longrightarrow> is_module_enabled d key = b"
  by (simp add: module_states_def MODULES_def is_module_enabled_def module_by_key_def
      split: if_splits option.splits)

section \<open>Cohorts\<close>

definition is_below_cohort :: "env \<Rightarrow> int \<Rightarrow> bool" where
  "is_below_cohort e n \<longleftrightarrow> n < min_cohort_size (cfg e)"

definition suppressed_avg :: "env \<Rightarrow> rat option \<Rightarrow> int \<Rightarrow> rat option" where
  "suppressed_avg e v n = (if v = None \<or> is_below_cohort e n then None else v)"

section \<open>Segregation of duties\<close>

definition ensure_evaluators_are_not_the_subject ::
  "db \<Rightarrow> int \<Rightarrow> int option list \<Rightarrow> unit result" where
  "ensure_evaluators_are_not_the_subject d pid evaluators =
     (let candidates = List.map_filter id evaluators in
      if candidates = [] then Inr ()
      else require (\<not> (\<exists>x\<in>set (users d). u_id x \<in> set candidates \<and> u_personnel_id x = Some pid))
             (HTTPException 400 ''nobody evaluates themselves''))"

definition redundant :: "int option \<Rightarrow> int option \<Rightarrow> bool" where
  "redundant a b \<longleftrightarrow> a \<noteq> None \<and> b \<noteq> None \<and> a = b"

definition ensure_chain_stages_are_not_redundant ::
  "int option \<Rightarrow> int option \<Rightarrow> int option \<Rightarrow> unit result" where
  "ensure_chain_stages_are_not_redundant sv dep ceo_id =
     (if redundant sv dep then Inl (HTTPException 400 ''supervisor and deputy are one person'')
      else if redundant dep ceo_id then Inl (HTTPException 400 ''deputy and ceo are one person'')
      else Inr ())"

definition ensure_not_deciding_about_oneself ::
  "evaluation_record \<Rightarrow> current_user \<Rightarrow> unit result" where
  "ensure_not_deciding_about_oneself r u =
     (case cu_personnel_id u of
        None \<Rightarrow> Inr ()
      | Some p \<Rightarrow> if p \<noteq> er_subject r then Inr ()
                 else Inl (HTTPException 403 ''this is your own evaluation''))"

definition access_seats :: "evaluation_access \<Rightarrow> int option list" where
  "access_seats a = [ea_supervisor a, ea_deputy a, Some (ea_ceo a)]"

definition record_seats :: "evaluation_record \<Rightarrow> int option list" where
  "record_seats r = [er_supervisor r, er_deputy r, Some (er_ceo r)]"

definition ensure_user_link_is_not_self_evaluation ::
  "db \<Rightarrow> int \<Rightarrow> int \<Rightarrow> unit result" where
  "ensure_user_link_is_not_self_evaluation d k pid =
     require (\<not> ((\<exists>a\<in>set (accesses d). ea_personnel a = pid \<and> Some k \<in> set (access_seats a)) \<or>
                 (\<exists>r\<in>set (records d). er_subject r = pid \<and> Some k \<in> set (record_seats r))))
       (HTTPException 400 ''the user evaluates this person'')"

section \<open>The submission window\<close>

record window =
  closes_on :: "date option"
  extended :: bool

definition window_is_open :: "env \<Rightarrow> window \<Rightarrow> bool" where
  "window_is_open e w = (case closes_on w of None \<Rightarrow> True | Some c \<Rightarrow> today e \<le> c)"

definition window_days_left :: "env \<Rightarrow> window \<Rightarrow> int option" where
  "window_days_left e w = map_option (\<lambda>c. c - today e) (closes_on w)"

definition open_period :: "db \<Rightarrow> evaluation_period option" where
  "open_period d = find (\<lambda>p. ep_status p = period_open) (periods d)"

definition window_for :: "db \<Rightarrow> evaluation_record \<Rightarrow> window" where
  "window_for d r =
     (let period_end = (case er_period r of None \<Rightarrow> None
            | Some k \<Rightarrow> map_option ep_ends_on (get_period d k))
      in case er_extended_until r of
           Some x \<Rightarrow> (case period_end of
               None \<Rightarrow> \<lparr>closes_on = Some x, extended = True\<rparr>
             | Some p \<Rightarrow> if p < x then \<lparr>closes_on = Some x, extended = True\<rparr>
                        else \<lparr>closes_on = Some p, extended = False\<rparr>)
         | None \<Rightarrow> \<lparr>closes_on = period_end, extended = False\<rparr>)"

definition ensure_open :: "env \<Rightarrow> db \<Rightarrow> evaluation_record \<Rightarrow> window result" where
  "ensure_open e d r =
     (let w = window_for d r in
      if window_is_open e w then Inr w
      else Inl (HTTPException 400 ''the submission window is closed''))"

definition record_accepts_entries :: "env \<Rightarrow> db \<Rightarrow> evaluation_record \<Rightarrow> bool" where
  "record_accepts_entries e d r = window_is_open e (window_for d r)"

section \<open>The chain of evaluators\<close>

definition access_of :: "db \<Rightarrow> int \<Rightarrow> evaluation_access option" where
  "access_of d pid = find (\<lambda>a. ea_personnel a = pid) (accesses d)"

definition ensure_active_user_with_role :: "db \<Rightarrow> int \<Rightarrow> user_role \<Rightarrow> unit result" where
  "ensure_active_user_with_role d k r = (case get_user d k of
     None \<Rightarrow> Inl (HTTPException 400 ''the chosen user does not exist or is inactive'')
   | Some x \<Rightarrow>
      if \<not> u_is_active x then Inl (HTTPException 400 ''the chosen user does not exist or is inactive'')
      else require (may_act_at (u_role x) r) (HTTPException 400 ''the user cannot take this stage''))"

definition ensure_optional_user :: "db \<Rightarrow> int option \<Rightarrow> user_role \<Rightarrow> unit result" where
  "ensure_optional_user d k r = (case k of None \<Rightarrow> Inr () | Some x \<Rightarrow> ensure_active_user_with_role d x r)"

record access_input =
  ai_supervisor :: "int option"
  ai_deputy :: "int option"
  ai_ceo :: int

definition check_access :: "db \<Rightarrow> int \<Rightarrow> access_input \<Rightarrow> unit result" where
  "check_access d pid p = (case get_personnel d pid of
     None \<Rightarrow> Inl (HTTPException 404 ''personnel not found'')
   | Some per \<Rightarrow>
      if p_is_manager per \<and> ai_supervisor p \<noteq> None
      then Inl (HTTPException 400 ''a manager has no unit supervisor'')
      else bindE (ensure_optional_user d (ai_supervisor p) unit_supervisor) (\<lambda>_.
        bindE (ensure_optional_user d (ai_deputy p) deputy) (\<lambda>_.
        bindE (ensure_active_user_with_role d (ai_ceo p) ceo) (\<lambda>_.
        bindE (ensure_evaluators_are_not_the_subject d pid
                 [ai_supervisor p, ai_deputy p, Some (ai_ceo p)]) (\<lambda>_.
        ensure_chain_stages_are_not_redundant (ai_supervisor p) (ai_deputy p) (Some (ai_ceo p)))))))"

definition seats_json :: "int option \<Rightarrow> int option \<Rightarrow> int \<Rightarrow> (string \<times> json) list" where
  "seats_json sv dep ceo_id = [(''unit_supervisor_user_id'', json_opt_int sv),
     (''deputy_user_id'', json_opt_int dep), (''ceo_user_id'', JInt ceo_id)]"

definition write_access :: "current_user \<Rightarrow> int \<Rightarrow> access_input \<Rightarrow> db \<Rightarrow> db" where
  "write_access u pid p d = (case access_of d pid of
     None \<Rightarrow> d\<lparr>accesses := accesses d @
       [\<lparr>ea_id = tbl_next ea_id (accesses d), ea_personnel = pid, ea_supervisor = ai_supervisor p,
         ea_deputy = ai_deputy p, ea_ceo = ai_ceo p, ea_updated_by = Some (cu_id u)\<rparr>]\<rparr>
   | Some a \<Rightarrow> d\<lparr>accesses := tbl_upd ea_id (ea_id a)
       (\<lambda>a. a\<lparr>ea_supervisor := ai_supervisor p, ea_deputy := ai_deputy p, ea_ceo := ai_ceo p,
              ea_updated_by := Some (cu_id u)\<rparr>) (accesses d)\<rparr>)"

definition upsert_access ::
  "env \<Rightarrow> current_user \<Rightarrow> int \<Rightarrow> access_input \<Rightarrow> db \<Rightarrow> db result" where
  "upsert_access e u pid p d =
     bindE (require_role_or_capability hr manage_personnel u d) (\<lambda>_.
     bindE (check_access d pid p) (\<lambda>_.
       Inr (log_event e (cu_id u) ''access_updated'' None
         (map_option (\<lambda>a. JObj (seats_json (ea_supervisor a) (ea_deputy a) (ea_ceo a)))
            (access_of d pid))
         (Some (JObj ((''personnel_id'', JInt pid) #
            seats_json (ai_supervisor p) (ai_deputy p) (ai_ceo p))))
         (write_access u pid p d))))"

definition get_access :: "db \<Rightarrow> current_user \<Rightarrow> int \<Rightarrow> evaluation_access option result" where
  "get_access d u pid =
     bindE (require_role_or_capability hr manage_personnel u d) (\<lambda>_.
       if get_personnel d pid = None then Inl (HTTPException 404 ''personnel not found'')
       else Inr (access_of d pid))"

section \<open>Guards\<close>

lemma may_act_at_hr [simp]: "may_act_at r hr \<longleftrightarrow> r = hr"
  by (simp add: may_act_at_def)

lemma may_act_at_chain:
  "may_act_at r unit_supervisor \<longleftrightarrow> r \<in> {unit_supervisor, deputy, ceo}"
  "may_act_at r deputy \<longleftrightarrow> r \<in> {deputy, ceo}"
  "may_act_at r ceo \<longleftrightarrow> r = ceo"
  by (cases r; simp add: may_act_at_def)+

text \<open>The hierarchy is transitive and never reaches into the human-resources stage.\<close>

lemma may_act_at_trans:
  "may_act_at a b \<Longrightarrow> may_act_at b c \<Longrightarrow> may_act_at a c"
  by (cases a; cases b; cases c; simp add: may_act_at_def)

lemma has_capability_iff: "has_capability d k c \<longleftrightarrow> c \<in> capabilities_of d k"
  by (auto simp: has_capability_def capabilities_of_def)

lemma require_capability_Inr [guard_simps]:
  "require_capability needed u d = Inr x \<longleftrightarrow> set needed \<subseteq> capabilities_of d (cu_id u)"
  by (auto simp: require_capability_def Let_def filter_empty_conv)

lemma guard_Inr [guard_simps]:
  "require_role_or_capability r c u d = Inr x \<longleftrightarrow>
     cu_role u = r \<or> c \<in> capabilities_of d (cu_id u)"
  "require_roles rs u = Inr x \<longleftrightarrow> cu_role u \<in> set rs"
  "require_chain_stage s u = Inr x \<longleftrightarrow> may_act_at (cu_role u) s"
  "require_module key d = Inr x \<longleftrightarrow> is_module_enabled d key"
  "audit_log_reader u d = Inr x \<longleftrightarrow>
     view_audit_log \<in> capabilities_of d (cu_id u) \<or> view_diagnostics \<in> capabilities_of d (cu_id u)"
  by (simp_all add: require_role_or_capability_def require_roles_def require_chain_stage_def
      require_module_def audit_log_reader_def)

lemma get_current_user_Inr:
  "get_current_user path payload d = Inr cu \<longleftrightarrow>
    (\<exists>uid x. payload = Some (Some uid, Some (u_token_version x)) \<and> get_user d uid = Some x \<and>
       u_is_active x \<and>
       (u_must_change_password x \<longrightarrow> path \<in> set FORCED_PASSWORD_CHANGE_EXEMPT_PATHS) \<and>
       cu = as_current_user x)"
  by (auto simp: get_current_user_def Let_def split: option.splits if_splits prod.splits)

lemma capabilities_of_list:
  "capabilities_of d k = set (map uc_capability (filter (\<lambda>c. uc_user c = k) (capabilities d)))"
  by (auto simp: capabilities_of_def)

lemma grant_capabilities: "capabilities_of (grant k by c d) j =
    (if j = k then insert c (capabilities_of d j) else capabilities_of d j)"
  by (simp add: grant_def capabilities_of_list)

lemma apply_default_hr_exact:
  "capabilities_of (apply_default_hr_capabilities k d) j =
    (if j = k then set DEFAULT_HR_CAPABILITIES else capabilities_of d j)"
proof -
  have "capabilities_of (d\<lparr>capabilities := filter (\<lambda>c. uc_user c \<noteq> k) (capabilities d)\<rparr>) j =
      (if j = k then {} else capabilities_of d j)"
    by (auto simp: capabilities_of_def)
  then show ?thesis
    by (auto simp: apply_default_hr_capabilities_def DEFAULT_HR_CAPABILITIES_def grant_capabilities)
qed

section \<open>Nobody evaluates themselves\<close>

text \<open>One of the seats is held by a user whose personnel file is the subject's.\<close>

definition own_evaluator :: "db \<Rightarrow> int \<Rightarrow> int option list \<Rightarrow> bool" where
  "own_evaluator d pid seats \<longleftrightarrow>
     (\<exists>x\<in>set (users d). Some (u_id x) \<in> set seats \<and> u_personnel_id x = Some pid)"

definition segregated :: "db \<Rightarrow> bool" where
  "segregated d \<longleftrightarrow>
     (\<forall>a\<in>set (accesses d). \<not> own_evaluator d (ea_personnel a) (access_seats a)) \<and>
     (\<forall>r\<in>set (records d). \<not> own_evaluator d (er_subject r) (record_seats r))"

text \<open>The two pairs of stages a chain may not merge. Supervisor and chief executive may coincide.\<close>

definition chain_ok :: "int option \<Rightarrow> int option \<Rightarrow> int option \<Rightarrow> bool" where
  "chain_ok sv dep ceo_id \<longleftrightarrow> (sv \<noteq> None \<longrightarrow> sv \<noteq> dep) \<and> (dep \<noteq> None \<longrightarrow> dep \<noteq> ceo_id)"

lemma evaluators_not_subject_Inr [guard_simps]:
  "ensure_evaluators_are_not_the_subject d pid seats = Inr x \<longleftrightarrow> \<not> own_evaluator d pid seats"
proof -
  have "k \<in> set (List.map_filter id seats) \<longleftrightarrow> Some k \<in> set seats" for k
    by (induction seats) (auto simp: List.map_filter_def)
  then show ?thesis
    by (auto simp: ensure_evaluators_are_not_the_subject_def own_evaluator_def Let_def)
qed

lemma chain_stages_Inr [guard_simps]:
  "ensure_chain_stages_are_not_redundant sv dep ceo_id = Inr x \<longleftrightarrow> chain_ok sv dep ceo_id"
  by (auto simp: ensure_chain_stages_are_not_redundant_def redundant_def chain_ok_def)

lemma not_about_oneself_Inr [guard_simps]:
  "ensure_not_deciding_about_oneself r u = Inr x \<longleftrightarrow> cu_personnel_id u \<noteq> Some (er_subject r)"
  by (auto simp: ensure_not_deciding_about_oneself_def split: option.split)

lemma user_link_Inr [guard_simps]:
  "ensure_user_link_is_not_self_evaluation d k pid = Inr x \<longleftrightarrow>
     (\<forall>a\<in>set (accesses d). ea_personnel a = pid \<longrightarrow> Some k \<notin> set (access_seats a)) \<and>
     (\<forall>r\<in>set (records d). er_subject r = pid \<longrightarrow> Some k \<notin> set (record_seats r))"
  by (auto simp: ensure_user_link_is_not_self_evaluation_def)

text \<open>Linking a user to a personnel file keeps the rule when the link guard passes.\<close>

lemma own_evaluator_link:
  assumes seg: "\<not> own_evaluator d p seats" and ids: "tbl_ok u_id (users d)"
    and guard: "p = pid \<longrightarrow> Some k \<notin> set seats"
    and us: "users d' = tbl_upd u_id k f (users d)"
    and id: "\<And>x. u_id (f x) = u_id x" and pers: "\<And>x. u_personnel_id (f x) = Some pid"
  shows "\<not> own_evaluator d' p seats"
proof
  assume "own_evaluator d' p seats"
  then obtain x where x: "x \<in> set (users d)"
    and seat: "Some (u_id x) \<in> set seats"
    and p: "u_personnel_id (if u_id x = k then f x else x) = Some p"
    using id by (auto simp: own_evaluator_def us set_tbl_upd split: if_splits)
  show False
  proof (cases "u_id x = k")
    case True
    then show False using p pers guard seat by simp
  next
    case False
    then show False using p seat x seg by (auto simp: own_evaluator_def)
  qed
qed

lemma link_segregated:
  assumes seg: "segregated d" and ids: "tbl_ok u_id (users d)"
    and guard: "ensure_user_link_is_not_self_evaluation d k pid = Inr ()"
    and id: "\<And>x. u_id (f x) = u_id x" and pers: "\<And>x. u_personnel_id (f x) = Some pid"
  shows "segregated (upd_user k f d)"
proof -
  have us: "users (upd_user k f d) = tbl_upd u_id k f (users d)"
    and rest: "accesses (upd_user k f d) = accesses d" "records (upd_user k f d) = records d"
    by (simp_all add: upd_user_def)
  have "\<not> own_evaluator (upd_user k f d) (ea_personnel a) (access_seats a)" if "a \<in> set (accesses d)" for a
    by (rule own_evaluator_link [OF _ ids _ us id pers])
      (use seg guard that in \<open>auto simp: segregated_def guard_simps\<close>)
  moreover have "\<not> own_evaluator (upd_user k f d) (er_subject r) (record_seats r)"
    if "r \<in> set (records d)" for r
    by (rule own_evaluator_link [OF _ ids _ us id pers])
      (use seg guard that in \<open>auto simp: segregated_def guard_simps\<close>)
  ultimately show ?thesis by (simp add: segregated_def rest)
qed

section \<open>Writing a chain\<close>

lemma active_user_Inr [guard_simps]:
  "ensure_active_user_with_role d k r = Inr x \<longleftrightarrow>
     (\<exists>y. get_user d k = Some y \<and> u_is_active y \<and> may_act_at (u_role y) r)"
  by (auto simp: ensure_active_user_with_role_def split: option.split)

lemma optional_user_Inr [guard_simps]:
  "ensure_optional_user d k r = Inr x \<longleftrightarrow>
     (\<forall>j. k = Some j \<longrightarrow> (\<exists>y. get_user d j = Some y \<and> u_is_active y \<and> may_act_at (u_role y) r))"
  by (auto simp: ensure_optional_user_def active_user_Inr split: option.split)

text \<open>What a chain that was accepted satisfies.\<close>

definition seat_filled :: "db \<Rightarrow> user_role \<Rightarrow> int option \<Rightarrow> bool" where
  "seat_filled d r k \<longleftrightarrow>
     (\<forall>j. k = Some j \<longrightarrow> (\<exists>y. get_user d j = Some y \<and> u_is_active y \<and> may_act_at (u_role y) r))"

lemma check_access_Inr:
  "check_access d pid p = Inr x \<longleftrightarrow>
     (\<exists>per. get_personnel d pid = Some per \<and> (p_is_manager per \<longrightarrow> ai_supervisor p = None)) \<and>
     seat_filled d unit_supervisor (ai_supervisor p) \<and> seat_filled d deputy (ai_deputy p) \<and>
     seat_filled d ceo (Some (ai_ceo p)) \<and>
     \<not> own_evaluator d pid [ai_supervisor p, ai_deputy p, Some (ai_ceo p)] \<and>
     chain_ok (ai_supervisor p) (ai_deputy p) (Some (ai_ceo p))"
  by (auto simp: check_access_def bindE_Inr_iff guard_simps seat_filled_def split: option.split)

lemma upsert_access_Inr:
  "upsert_access e u pid p d = Inr d' \<Longrightarrow>
    check_access d pid p = Inr () \<and>
    (cu_role u = hr \<or> manage_personnel \<in> capabilities_of d (cu_id u)) \<and>
    (\<exists>x y. d' = log_event e (cu_id u) ''access_updated'' None x y (write_access u pid p d))"
  by (auto simp: upsert_access_def bindE_Inr_iff guard_simps)

text \<open>One chain per person (the unique constraint on \<open>personnel_id\<close>) and unique row identifiers.\<close>

definition accesses_ok :: "db \<Rightarrow> bool" where
  "accesses_ok d \<longleftrightarrow> tbl_ok ea_id (accesses d) \<and> distinct (map ea_personnel (accesses d))"

lemma access_of_Some: "access_of d pid = Some a \<Longrightarrow> a \<in> set (accesses d) \<and> ea_personnel a = pid"
  by (auto simp: access_of_def find_Some_iff)

lemma access_of_None: "access_of d pid = None \<longleftrightarrow> pid \<notin> ea_personnel ` set (accesses d)"
  by (auto simp: access_of_def find_None_iff)

lemma write_access_tables [frame_simps]:
  "users (write_access u pid p d) = users d"
  "records (write_access u pid p d) = records d"
  "personnels (write_access u pid p d) = personnels d"
  by (simp_all add: write_access_def split: option.split)

lemma write_access_ok: "accesses_ok d \<Longrightarrow> accesses_ok (write_access u pid p d)"
proof (cases "access_of d pid")
  case None
  assume ok: "accesses_ok d"
  have "pid \<notin> ea_personnel ` set (accesses d)" using None access_of_None by blast
  with None ok show ?thesis
    by (simp add: write_access_def accesses_ok_def tbl_ok_insert)
next
  case (Some a)
  assume "accesses_ok d"
  then show ?thesis
    using Some by (simp add: write_access_def accesses_ok_def tbl_ok_upd tbl_upd_map)
qed

lemma write_access_rows:
  assumes ok: "accesses_ok d" and b: "b \<in> set (accesses (write_access u pid p d))"
  shows "b \<in> set (accesses d) \<or>
    (ea_personnel b = pid \<and> access_seats b = [ai_supervisor p, ai_deputy p, Some (ai_ceo p)])"
proof (cases "access_of d pid")
  case None
  with b show ?thesis by (auto simp: write_access_def access_seats_def)
next
  case (Some a)
  have same: "x = a" if "x \<in> set (accesses d)" "ea_id x = ea_id a" for x
    using ok that access_of_Some [OF Some]
    by (auto simp: accesses_ok_def tbl_ok_def distinct_map dest: inj_onD)
  obtain x where x: "x \<in> set (accesses d)"
    and bx: "b = (if ea_id x = ea_id a then x\<lparr>ea_supervisor := ai_supervisor p,
      ea_deputy := ai_deputy p, ea_ceo := ai_ceo p, ea_updated_by := Some (cu_id u)\<rparr> else x)"
    using b Some by (auto simp: write_access_def set_tbl_upd)
  show ?thesis
  proof (cases "ea_id x = ea_id a")
    case True
    then have "x = a" using same x by blast
    then show ?thesis using bx access_of_Some [OF Some] by (simp add: access_seats_def)
  qed (use x bx in simp)
qed

lemma upsert_access_segregated:
  assumes seg: "segregated d" and ok: "accesses_ok d"
    and up: "upsert_access e u pid p d = Inr d'"
  shows "segregated d'" and "accesses_ok d'"
proof -
  obtain x y where d': "d' = log_event e (cu_id u) ''access_updated'' None x y (write_access u pid p d)"
    and chk: "check_access d pid p = Inr ()"
    using upsert_access_Inr [OF up] by blast
  have us: "users d' = users d" and rs: "records d' = records d"
    and acc: "accesses d' = accesses (write_access u pid p d)"
    by (simp_all add: d' frame_simps)
  have own: "own_evaluator d' q seats = own_evaluator d q seats" for q seats
    by (simp add: own_evaluator_def us)
  show "segregated d'"
    using seg chk write_access_rows [OF ok]
    unfolding segregated_def own rs acc check_access_Inr by metis
  show "accesses_ok d'"
    using write_access_ok [OF ok] by (simp add: accesses_ok_def acc)
qed

section \<open>The window\<close>

lemma window_for_extension:
  assumes "er_period r = Some k" and "get_period d k = Some p"
  shows "closes_on (window_for d (r\<lparr>er_extended_until := Some x\<rparr>)) = Some (max x (ep_ends_on p))"
  using assms by (simp add: window_for_def max_def)

lemma window_for_unlimited:
  "er_period r = None \<Longrightarrow> er_extended_until r = None \<Longrightarrow> closes_on (window_for d r) = None"
  by (simp add: window_for_def)

lemma ensure_open_Inr [guard_simps]:
  "ensure_open e d r = Inr w \<longleftrightarrow> w = window_for d r \<and> record_accepts_entries e d r"
  by (auto simp: ensure_open_def record_accepts_entries_def Let_def)

lemma record_accepts_iff:
  "record_accepts_entries e d r \<longleftrightarrow>
     (case closes_on (window_for d r) of None \<Rightarrow> True | Some c \<Rightarrow> today e \<le> c)"
  by (simp add: record_accepts_entries_def window_is_open_def)

end
