(* ===== verification/Notifications.thy ===== *)
theory Notifications
  imports Access
begin

text \<open>
  \<open>services/notifications.py\<close> and the outbox half of \<open>services/delivery.py\<close>: in-app notices, the
  deduplicated notice of the scheduled jobs, the notices of each workflow action, and the delivery
  rows that a notice of an outbound type puts in the outbox. The Persian sentences are rendered in
  English. The lemmas show who receives a notice, that a user receives it once, that the outbox
  only ever holds addresses the user has opted in to, and that a repeated reminder is suppressed
  inside its window and not after it.
\<close>

section \<open>The outbox\<close>

definition OUTBOUND_TYPES :: "string list" where
  "OUTBOUND_TYPES =
    [''workflow_hr_approve'', ''workflow_deputy_approve'', ''workflow_reassigned'',
     ''workflow_hr_return'', ''workflow_deputy_return'', ''workflow_ceo_return'',
     ''evaluation_finalized_self'', ''sla_reminder'', ''contract_expiry'',
     ''improvement_review_due'', ''orphaned_case'', ''bulk_evaluations_assigned'']"

definition result_hidden :: "db \<Rightarrow> string \<Rightarrow> bool" where
  "result_hidden d type \<longleftrightarrow> type = ''evaluation_finalized_self'' \<and>
     \<not> is_module_enabled d ''employee_evaluation_visibility''"

definition recipient_for :: "user \<Rightarrow> delivery_channel \<Rightarrow> string option" where
  "recipient_for x kind =
     (let addr = (case kind of email \<Rightarrow> u_email x | sms \<Rightarrow> u_phone x);
          opted = (case kind of email \<Rightarrow> u_notify_by_email x | sms \<Rightarrow> u_notify_by_sms x)
      in case addr of None \<Rightarrow> None | Some a \<Rightarrow> if opted \<and> a \<noteq> [] then Some a else None)"

definition enqueue_one :: "env \<Rightarrow> notification \<Rightarrow> user \<Rightarrow> delivery_channel \<Rightarrow> db \<Rightarrow> db" where
  "enqueue_one e n x kind d = (case recipient_for x kind of
     None \<Rightarrow> d
   | Some a \<Rightarrow> d\<lparr>deliveries := deliveries d @
       [\<lparr>nd_id = tbl_next nd_id (deliveries d), nd_notification = nt_id n, nd_channel = kind,
         nd_recipient = a, nd_status = d_pending, nd_attempts = 0, nd_last_attempt_at = None,
         nd_last_error = None, nd_sent_at = None, nd_created_at = now e\<rparr>]\<rparr>)"

definition enqueue_for :: "env \<Rightarrow> notification \<Rightarrow> db \<Rightarrow> db" where
  "enqueue_for e n d =
     (if nt_type n \<notin> set OUTBOUND_TYPES then d
      else if result_hidden d (nt_type n) then d
      else if channels_on e = [] then d
      else case get_user d (nt_user n) of
        None \<Rightarrow> d
      | Some x \<Rightarrow> if \<not> u_is_active x then d else fold (enqueue_one e n x) (channels_on e) d)"

section \<open>Notices\<close>

definition add_notification ::
  "env \<Rightarrow> int \<Rightarrow> string \<Rightarrow> ustr \<Rightarrow> string option \<Rightarrow> int option \<Rightarrow> string option \<Rightarrow> db \<Rightarrow> db" where
  "add_notification e k type message link rid dedup d =
     (let n = \<lparr>nt_id = tbl_next nt_id (notifications d), nt_user = k, nt_type = type,
            nt_message = message, nt_link = link, nt_record = rid, nt_dedup = dedup,
            nt_created_at = now e, nt_read_at = None\<rparr>
      in enqueue_for e n (d\<lparr>notifications := notifications d @ [n]\<rparr>))"

definition notify ::
  "env \<Rightarrow> int list \<Rightarrow> string \<Rightarrow> ustr \<Rightarrow> int option \<Rightarrow> string option \<Rightarrow> db \<Rightarrow> db" where
  "notify e ids type message rid link d =
     (if result_hidden d type then d
      else fold (\<lambda>k. add_notification e k type message link rid None) (set_order e ids) d)"

definition notify_once ::
  "env \<Rightarrow> int \<Rightarrow> string \<Rightarrow> ustr \<Rightarrow> string \<Rightarrow> int \<Rightarrow> int option \<Rightarrow> string option \<Rightarrow> db \<Rightarrow> bool \<times> db" where
  "notify_once e k type message dedup within_days rid link d =
     (if result_hidden d type then (False, d)
      else
        let cutoff = now e - days within_days in
        if \<exists>n\<in>set (notifications d). nt_user n = k \<and> nt_dedup n = Some dedup \<and>
             cutoff \<le> nt_created_at n
        then (False, d)
        else (True, add_notification e k type message link rid (Some dedup) d))"

definition active_user_ids_with_role :: "db \<Rightarrow> user_role \<Rightarrow> int list" where
  "active_user_ids_with_role d r = map u_id (filter (\<lambda>x. u_role x = r \<and> u_is_active x) (users d))"

section \<open>Workflow notices\<close>

datatype action =
    Submit | ManagerSubmit | DirectCeoSubmit | HrApprove | HrFinalizeDirectCeo | HrApproveManager
  | DeputyApprove | CeoFinalize | HrReturn | DeputyReturn | CeoReturn | CeoReturnManager | Cancel

fun action_name :: "action \<Rightarrow> string" where
  "action_name Submit = ''submit''"
| "action_name ManagerSubmit = ''manager_submit''"
| "action_name DirectCeoSubmit = ''direct_ceo_submit''"
| "action_name HrApprove = ''hr_approve''"
| "action_name HrFinalizeDirectCeo = ''hr_finalize_direct_ceo''"
| "action_name HrApproveManager = ''hr_approve_manager''"
| "action_name DeputyApprove = ''deputy_approve''"
| "action_name CeoFinalize = ''ceo_finalize''"
| "action_name HrReturn = ''hr_return''"
| "action_name DeputyReturn = ''deputy_return''"
| "action_name CeoReturn = ''ceo_return''"
| "action_name CeoReturnManager = ''ceo_return_manager''"
| "action_name Cancel = ''cancel''"

text \<open>Python's \<open>a or b\<close> on an optional identifier: zero counts as absent.\<close>

definition or_id :: "int option \<Rightarrow> int \<Rightarrow> int" where
  "or_id a b = (case a of None \<Rightarrow> b | Some k \<Rightarrow> if k = 0 then b else k)"

definition opt_list :: "'a option \<Rightarrow> 'a list" where
  "opt_list v = (case v of None \<Rightarrow> [] | Some x \<Rightarrow> [x])"

lemma set_opt_list [simp]: "set (opt_list v) = set_option v"
  by (cases v) (simp_all add: opt_list_def)

text \<open>The subject of a case; the foreign key guarantees that it exists.\<close>

definition subject_name :: "db \<Rightarrow> evaluation_record \<Rightarrow> ustr" where
  "subject_name d r = (case get_personnel d (er_subject r) of None \<Rightarrow> [] | Some p \<Rightarrow> p_full_name p)"

definition int_str :: "int \<Rightarrow> string" where
  "int_str k = map char_of (int_text k)"

definition evaluation_link :: "int \<Rightarrow> string" where
  "evaluation_link k = ''/evaluations/'' @ int_str k"

text \<open>Who scores the case: the supervisor, else the deputy, else the chief executive.\<close>

definition evaluator_of :: "evaluation_record \<Rightarrow> int option" where
  "evaluator_of r = (if er_supervisor r = None \<and> er_deputy r = None then Some (er_ceo r)
     else if er_supervisor r = None then er_deputy r else er_supervisor r)"

definition after_hr :: "evaluation_record \<Rightarrow> int" where
  "after_hr r = or_id (er_deputy r) (er_ceo r)"

definition action_recipients :: "db \<Rightarrow> evaluation_record \<Rightarrow> action \<Rightarrow> int list" where
  "action_recipients d r a = (case a of
     Submit \<Rightarrow> active_user_ids_with_role d hr
   | ManagerSubmit \<Rightarrow> active_user_ids_with_role d hr
   | DirectCeoSubmit \<Rightarrow> active_user_ids_with_role d hr
   | HrApprove \<Rightarrow> [after_hr r]
   | HrApproveManager \<Rightarrow> [er_ceo r]
   | HrFinalizeDirectCeo \<Rightarrow> [er_ceo r]
   | DeputyApprove \<Rightarrow> [er_ceo r]
   | CeoFinalize \<Rightarrow> opt_list (evaluator_of r)
   | HrReturn \<Rightarrow> opt_list (evaluator_of r)
   | DeputyReturn \<Rightarrow> active_user_ids_with_role d hr
   | CeoReturn \<Rightarrow> [after_hr r]
   | CeoReturnManager \<Rightarrow> active_user_ids_with_role d hr
   | Cancel \<Rightarrow> opt_list (er_supervisor r) @ opt_list (er_deputy r) @ [er_ceo r])"

definition action_phrase :: "action \<Rightarrow> string" where
  "action_phrase a = (case a of
     Submit \<Rightarrow> '' is in the queue of human resources''
   | ManagerSubmit \<Rightarrow> '' is in the queue of human resources''
   | DirectCeoSubmit \<Rightarrow> '' is in the queue of human resources''
   | HrApprove \<Rightarrow> '' waits for your review and approval''
   | HrApproveManager \<Rightarrow> '' waits for your final approval''
   | HrFinalizeDirectCeo \<Rightarrow> '' was finalized by human resources''
   | DeputyApprove \<Rightarrow> '' waits for your final approval''
   | CeoFinalize \<Rightarrow> '' was finalized''
   | HrReturn \<Rightarrow> '' was returned by human resources; see the comments''
   | DeputyReturn \<Rightarrow> '' was returned by the deputy; see the comments''
   | CeoReturn \<Rightarrow> '' was returned by the chief executive; see the comments''
   | CeoReturnManager \<Rightarrow> '' was returned by the chief executive; see the comments''
   | Cancel \<Rightarrow> '' was cancelled by human resources; see the comments'')"

definition case_message :: "db \<Rightarrow> evaluation_record \<Rightarrow> string \<Rightarrow> ustr" where
  "case_message d r phrase =
     lit ''Case '' @ lit (er_code r) @ lit '' ('' @ subject_name d r @ lit '')'' @ lit phrase"

definition subject_user_ids :: "db \<Rightarrow> evaluation_record \<Rightarrow> int list" where
  "subject_user_ids d r = map u_id (filter (\<lambda>x. u_role x = employee \<and>
     u_personnel_id x = Some (er_subject r) \<and> u_is_active x) (users d))"

definition notify_for_workflow_action :: "env \<Rightarrow> evaluation_record \<Rightarrow> action \<Rightarrow> db \<Rightarrow> db" where
  "notify_for_workflow_action e r a d =
     (let recipients = action_recipients d r a;
          d1 = (if recipients \<noteq> []
                then notify e recipients (''workflow_'' @ action_name a)
                       (case_message d r (action_phrase a)) (Some (er_id r))
                       (Some (evaluation_link (er_id r))) d
                else d)
      in if (a = CeoFinalize \<or> a = HrFinalizeDirectCeo) \<and>
            is_module_enabled d1 ''employee_evaluation_visibility''
         then if subject_user_ids d1 r \<noteq> []
              then notify e (subject_user_ids d1 r) ''evaluation_finalized_self''
                     (lit ''Your evaluation '' @ lit (er_code r) @ lit '' was finalized'')
                     (Some (er_id r)) (Some ''/me'') d1
              else d1
         else d1)"

definition notify_stage_owner_reassigned ::
  "env \<Rightarrow> evaluation_record \<Rightarrow> int \<Rightarrow> string \<Rightarrow> db \<Rightarrow> db" where
  "notify_stage_owner_reassigned e r owner label d =
     notify e [owner] ''workflow_reassigned''
       (case_message d r ('' was assigned to you as '' @ label)) (Some (er_id r))
       (Some (evaluation_link (er_id r))) d"

section \<open>A notice changes only the two tables of notices\<close>

text \<open>The frame of every notifying operation.\<close>

definition notices_only :: "db \<Rightarrow> db \<Rightarrow> bool" where
  "notices_only d d' \<longleftrightarrow>
     d' = d\<lparr>notifications := notifications d', deliveries := deliveries d'\<rparr>"

lemma notices_only_refl [simp, intro]: "notices_only d d"
  by (simp add: notices_only_def)

lemma notices_only_trans [trans]: "notices_only a b \<Longrightarrow> notices_only b c \<Longrightarrow> notices_only a c"
  by (cases a; cases b; cases c) (simp add: notices_only_def)

lemma notices_only_fold:
  "(\<And>x d. notices_only d (f x d)) \<Longrightarrow> notices_only d (fold f xs d)"
proof (induction xs arbitrary: d)
  case (Cons x xs)
  then show ?case by (metis fold_Cons comp_apply notices_only_trans)
qed simp

lemma enqueue_only [intro]: "notices_only d (enqueue_for e n d)"
  by (auto simp: enqueue_for_def enqueue_one_def notices_only_def
      intro!: notices_only_fold [unfolded notices_only_def] split: option.split)

lemma add_notification_only [intro]: "notices_only d (add_notification e k t m l r x d)"
proof -
  let ?n = "\<lparr>nt_id = tbl_next nt_id (notifications d), nt_user = k, nt_type = t, nt_message = m,
    nt_link = l, nt_record = r, nt_dedup = x, nt_created_at = now e, nt_read_at = None\<rparr>"
  have "notices_only d (d\<lparr>notifications := notifications d @ [?n]\<rparr>)"
    by (cases d) (simp add: notices_only_def)
  then show ?thesis
    unfolding add_notification_def Let_def by (rule notices_only_trans) (rule enqueue_only)
qed

lemma notify_only [intro]: "notices_only d (notify e ids t m r l d)"
  by (auto simp: notify_def intro!: notices_only_fold)

lemma notify_once_only [intro]: "notices_only d (snd (notify_once e k t m x w r l d))"
  by (auto simp: notify_once_def Let_def)

lemma workflow_notice_only [intro]: "notices_only d (notify_for_workflow_action e r a d)"
  using notices_only_trans by (auto simp: notify_for_workflow_action_def Let_def)

lemma reassigned_notice_only [intro]: "notices_only d (notify_stage_owner_reassigned e r k s d)"
  by (auto simp: notify_stage_owner_reassigned_def)

text \<open>Everything else, table by table.\<close>

lemma notices_only_tables:
  assumes "notices_only d d'"
  shows "personnels d' = personnels d" "users d' = users d" "records d' = records d"
    "scores d' = scores d" "comments d' = comments d" "accesses d' = accesses d"
    "periods d' = periods d" "schemes d' = schemes d" "indicators d' = indicators d"
    "frameworks d' = frameworks d" "assessments d' = assessments d"
    "assessment_scores d' = assessment_scores d" "audits d' = audits d"
    "sessions d' = sessions d" "login_attempts d' = login_attempts d"
    "capabilities d' = capabilities d" "modules d' = modules d" "plans d' = plans d"
    "goals d' = goals d" "org_units d' = org_units d" "scheduler_runs d' = scheduler_runs d"
    "documents d' = documents d" "code_seq d' = code_seq d"
  by (subst assms [unfolded notices_only_def], simp)+

lemmas notify_tables [frame_simps] =
  notices_only_tables [OF notify_only]
  notices_only_tables [OF notify_once_only]
  notices_only_tables [OF workflow_notice_only]
  notices_only_tables [OF reassigned_notice_only]

lemma notify_gets [frame_simps]:
  "get_record (notify e ids t m r l d) = get_record d"
  "get_user (notify e ids t m r l d) = get_user d"
  "get_record (notify_for_workflow_action e r' a d) = get_record d"
  "get_user (notify_for_workflow_action e r' a d) = get_user d"
  "get_record (notify_stage_owner_reassigned e r' k s d) = get_record d"
  "get_user (notify_stage_owner_reassigned e r' k s d) = get_user d"
  by (simp_all add: store_defs frame_simps)

section \<open>Who receives what\<close>

lemma add_notification_rows:
  "\<exists>n. notifications (add_notification e k t m l r x d) = notifications d @ [n] \<and>
     nt_user n = k \<and> nt_type n = t \<and> nt_message n = m \<and> nt_record n = r \<and> nt_link n = l \<and>
     nt_dedup n = x \<and> nt_created_at n = now e \<and> nt_read_at n = None"
proof -
  have "notifications (enqueue_one e n y c z) = notifications z" for n y c z
    by (simp add: enqueue_one_def split: option.split)
  then have "notifications (fold (enqueue_one e n y) cs z) = notifications z" for n y cs z
    by (induction cs arbitrary: z) simp_all
  then have "notifications (enqueue_for e n z) = notifications z" for n z
    by (simp add: enqueue_for_def split: option.split)
  then show ?thesis by (simp add: add_notification_def Let_def)
qed

text \<open>One notice per member of the set of recipients.\<close>

lemma fold_notices:
  "\<exists>new. notifications (fold (\<lambda>k. add_notification e k t m l r None) ks d) = notifications d @ new \<and>
     map nt_user new = ks \<and>
     (\<forall>n\<in>set new. nt_type n = t \<and> nt_message n = m \<and> nt_record n = r \<and> nt_read_at n = None)"
proof (induction ks arbitrary: d)
  case Nil
  show ?case by (intro exI [of _ "[]"]) simp
next
  case (Cons k ks)
  obtain n where n: "notifications (add_notification e k t m l r None d) = notifications d @ [n]"
    "nt_user n = k" "nt_type n = t" "nt_message n = m" "nt_record n = r" "nt_read_at n = None"
    using add_notification_rows by metis
  obtain new where "notifications (fold (\<lambda>k. add_notification e k t m l r None) ks
       (add_notification e k t m l r None d)) = (notifications d @ [n]) @ new"
    and "map nt_user new = ks"
    and "\<forall>n\<in>set new. nt_type n = t \<and> nt_message n = m \<and> nt_record n = r \<and> nt_read_at n = None"
    using Cons.IH [of "add_notification e k t m l r None d"] n(1) by auto
  with n show ?case by (intro exI [of _ "n # new"]) simp
qed

lemma notify_rows:
  assumes "\<not> result_hidden d t"
  shows "\<exists>new. notifications (notify e ids t m r l d) = notifications d @ new \<and>
    map nt_user new = set_order e ids \<and>
    (\<forall>n\<in>set new. nt_type n = t \<and> nt_message n = m \<and> nt_record n = r \<and> nt_read_at n = None)"
  using fold_notices assms by (simp add: notify_def)

lemma not_hidden [simp]: "t \<noteq> ''evaluation_finalized_self'' \<Longrightarrow> \<not> result_hidden d t"
  by (simp add: result_hidden_def)

lemma workflow_notice_rows:
  assumes "action_recipients d r a \<noteq> []"
  shows "\<exists>new. notifications (notify_for_workflow_action e r a d) = notifications d @ new \<and>
    map nt_user new = set_order e (action_recipients d r a) \<and>
    (\<forall>n\<in>set new. nt_type n = ''workflow_'' @ action_name a \<and> nt_record n = Some (er_id r) \<and>
       nt_read_at n = None)"
proof -
  have "notify_for_workflow_action e r a d = notify e (action_recipients d r a)
      (''workflow_'' @ action_name a) (case_message d r (action_phrase a)) (Some (er_id r))
      (Some (evaluation_link (er_id r))) d"
    using assms by (simp add: notify_for_workflow_action_def)
  then show ?thesis using notify_rows [of d "''workflow_'' @ action_name a"] by fastforce
qed

section \<open>The outbox holds only addresses the user opted in to\<close>

lemma recipient_for_Some:
  "recipient_for x kind = Some a \<longleftrightarrow> a \<noteq> [] \<and>
     (case kind of email \<Rightarrow> u_email x = Some a \<and> u_notify_by_email x
                 | sms \<Rightarrow> u_phone x = Some a \<and> u_notify_by_sms x)"
  by (cases kind) (auto simp: recipient_for_def Let_def split: option.splits if_splits)

definition fresh_delivery :: "notification \<Rightarrow> user \<Rightarrow> notification_delivery \<Rightarrow> bool" where
  "fresh_delivery n x v \<longleftrightarrow> nd_notification v = nt_id n \<and>
     recipient_for x (nd_channel v) = Some (nd_recipient v) \<and> nd_status v = d_pending \<and>
     nd_attempts v = 0 \<and> nd_last_attempt_at v = None"

lemma fold_enqueue:
  "\<exists>new. deliveries (fold (enqueue_one e n x) ks d) = deliveries d @ new \<and>
     map nd_channel new = filter (\<lambda>k. recipient_for x k \<noteq> None) ks \<and>
     (\<forall>v\<in>set new. fresh_delivery n x v)"
proof (induction ks arbitrary: d)
  case Nil
  show ?case by (intro exI [of _ "[]"]) simp
next
  case (Cons k ks)
  show ?case
  proof (cases "recipient_for x k")
    case None
    then have "enqueue_one e n x k d = d" by (simp add: enqueue_one_def)
    then show ?thesis using None Cons.IH [of d] by simp
  next
    case (Some a)
    define v where "v = \<lparr>nd_id = tbl_next nd_id (deliveries d), nd_notification = nt_id n,
      nd_channel = k, nd_recipient = a, nd_status = d_pending, nd_attempts = 0,
      nd_last_attempt_at = None, nd_last_error = None, nd_sent_at = None, nd_created_at = now e\<rparr>"
    have v: "deliveries (enqueue_one e n x k d) = deliveries d @ [v]"
      "nd_channel v = k" "fresh_delivery n x v"
      using Some by (simp_all add: enqueue_one_def fresh_delivery_def v_def)
    obtain new where "deliveries (fold (enqueue_one e n x) ks (enqueue_one e n x k d)) =
        (deliveries d @ [v]) @ new"
      and "map nd_channel new = filter (\<lambda>k. recipient_for x k \<noteq> None) ks"
      and "\<forall>v\<in>set new. fresh_delivery n x v"
      using Cons.IH [of "enqueue_one e n x k d"] v(1) by auto
    then show ?thesis using Some v by (intro exI [of _ "v # new"]) simp
  qed
qed

lemma enqueue_for_rows:
  "deliveries (enqueue_for e n d) = deliveries d \<or>
   (\<exists>x new. get_user d (nt_user n) = Some x \<and> u_is_active x \<and> nt_type n \<in> set OUTBOUND_TYPES \<and>
      deliveries (enqueue_for e n d) = deliveries d @ new \<and>
      map nd_channel new = filter (\<lambda>k. recipient_for x k \<noteq> None) (channels_on e) \<and>
      (\<forall>v\<in>set new. fresh_delivery n x v))"
  using fold_enqueue by (auto simp: enqueue_for_def split: option.split)

section \<open>Reminders\<close>

lemma notify_once_fst:
  "fst (notify_once e k t m x w r l d) \<longleftrightarrow> \<not> result_hidden d t \<and>
     (\<forall>n\<in>set (notifications d). nt_user n = k \<longrightarrow> nt_dedup n = Some x \<longrightarrow> nt_created_at n < now e - days w)"
  by (auto simp: notify_once_def Let_def not_le)

lemma notify_once_False: "\<not> fst (notify_once e k t m x w r l d) \<Longrightarrow> snd (notify_once e k t m x w r l d) = d"
  by (auto simp: notify_once_def Let_def split: if_splits)

lemma notify_once_row:
  assumes "fst (notify_once e k t m x w r l d)"
  shows "\<exists>n. notifications (snd (notify_once e k t m x w r l d)) = notifications d @ [n] \<and>
    nt_user n = k \<and> nt_type n = t \<and> nt_dedup n = Some x \<and> nt_created_at n = now e"
proof -
  have "notify_once e k t m x w r l d = (True, add_notification e k t m l r (Some x) d)"
    using assms by (auto simp: notify_once_def Let_def split: if_splits)
  then show ?thesis using add_notification_rows by (metis snd_conv)
qed

lemma notify_once_suppressed:
  assumes "fst (notify_once e k t m x w r l d)" and "now e' - days w' \<le> now e"
  shows "\<not> fst (notify_once e' k t' m' x w' r' l' (snd (notify_once e k t m x w r l d)))"
proof -
  obtain n where "notifications (snd (notify_once e k t m x w r l d)) = notifications d @ [n]"
    "nt_user n = k" "nt_dedup n = Some x" "nt_created_at n = now e"
    using notify_once_row [OF assms(1)] by blast
  then show ?thesis using assms(2) by (auto simp: notify_once_fst not_less)
qed

end
