(* ===== verification/Workflow.thy ===== *)
theory Workflow
  imports Notifications Scoring
begin

text \<open>
  The state machine of a case: \<open>services/workflow.py\<close>. The table of transitions with their guards,
  the check that a transition is allowed, its application (claim of an unowned human-resources
  case, hook, status change, audit row, notices) and the computation of the result when a scoring
  is submitted. The lemmas characterise exactly who may perform which action from which status and
  what an applied transition leaves behind.
\<close>

section \<open>The table of transitions\<close>

datatype assignee = as_supervisor | as_deputy | as_ceo | as_hr

definition assignee_of :: "assignee \<Rightarrow> evaluation_record \<Rightarrow> int option" where
  "assignee_of s r = (case s of as_supervisor \<Rightarrow> er_supervisor r | as_deputy \<Rightarrow> er_deputy r
     | as_ceo \<Rightarrow> Some (er_ceo r) | as_hr \<Rightarrow> er_hr r)"

definition is_manager_path :: "evaluation_record \<Rightarrow> bool" where
  "is_manager_path r \<longleftrightarrow> er_supervisor r = None"

definition is_direct_ceo_path :: "evaluation_record \<Rightarrow> bool" where
  "is_direct_ceo_path r \<longleftrightarrow> er_supervisor r = None \<and> er_deputy r = None"

definition skips_deputy :: "evaluation_record \<Rightarrow> bool" where
  "skips_deputy r \<longleftrightarrow> er_deputy r = None"

definition single_decider :: "evaluation_record \<Rightarrow> bool" where
  "single_decider r \<longleftrightarrow> er_supervisor r \<noteq> None \<and> er_supervisor r = Some (er_ceo r)"

record transition =
  tr_from :: "evaluation_status list"
  tr_to :: evaluation_status
  tr_role :: user_role
  tr_assignee :: "assignee option"
  tr_claimable :: bool
  tr_guard :: "evaluation_record \<Rightarrow> bool"
  tr_error :: nat

definition transition_of :: "action \<Rightarrow> transition" where
  "transition_of a = (case a of
     Submit \<Rightarrow> \<lparr>tr_from = [draft], tr_to = submitted, tr_role = unit_supervisor,
       tr_assignee = Some as_supervisor, tr_claimable = False,
       tr_guard = (\<lambda>r. \<not> is_manager_path r), tr_error = 403\<rparr>
   | ManagerSubmit \<Rightarrow> \<lparr>tr_from = [draft], tr_to = submitted, tr_role = deputy,
       tr_assignee = Some as_deputy, tr_claimable = False,
       tr_guard = is_manager_path, tr_error = 403\<rparr>
   | DirectCeoSubmit \<Rightarrow> \<lparr>tr_from = [draft], tr_to = submitted, tr_role = ceo,
       tr_assignee = Some as_ceo, tr_claimable = False,
       tr_guard = is_direct_ceo_path, tr_error = 403\<rparr>
   | HrApprove \<Rightarrow> \<lparr>tr_from = [submitted], tr_to = hr_approved, tr_role = hr,
       tr_assignee = Some as_hr, tr_claimable = True,
       tr_guard = (\<lambda>r. \<not> is_manager_path r), tr_error = 400\<rparr>
   | HrFinalizeDirectCeo \<Rightarrow> \<lparr>tr_from = [submitted], tr_to = finalized, tr_role = hr,
       tr_assignee = Some as_hr, tr_claimable = True,
       tr_guard = is_direct_ceo_path, tr_error = 400\<rparr>
   | HrApproveManager \<Rightarrow> \<lparr>tr_from = [submitted], tr_to = deputy_approved, tr_role = hr,
       tr_assignee = Some as_hr, tr_claimable = True,
       tr_guard = is_manager_path, tr_error = 400\<rparr>
   | DeputyApprove \<Rightarrow> \<lparr>tr_from = [hr_approved], tr_to = deputy_approved, tr_role = deputy,
       tr_assignee = Some as_deputy, tr_claimable = False,
       tr_guard = (\<lambda>r. True), tr_error = 403\<rparr>
   | CeoFinalize \<Rightarrow> \<lparr>tr_from = [deputy_approved, hr_approved], tr_to = finalized, tr_role = ceo,
       tr_assignee = Some as_ceo, tr_claimable = False,
       tr_guard = (\<lambda>r. er_status r \<noteq> hr_approved \<or> er_deputy r = None), tr_error = 403\<rparr>
   | HrReturn \<Rightarrow> \<lparr>tr_from = [submitted], tr_to = draft, tr_role = hr,
       tr_assignee = Some as_hr, tr_claimable = True,
       tr_guard = (\<lambda>r. True), tr_error = 400\<rparr>
   | DeputyReturn \<Rightarrow> \<lparr>tr_from = [hr_approved], tr_to = submitted, tr_role = deputy,
       tr_assignee = Some as_deputy, tr_claimable = False,
       tr_guard = (\<lambda>r. True), tr_error = 403\<rparr>
   | CeoReturn \<Rightarrow> \<lparr>tr_from = [deputy_approved], tr_to = hr_approved, tr_role = ceo,
       tr_assignee = Some as_ceo, tr_claimable = False,
       tr_guard = (\<lambda>r. \<not> is_manager_path r), tr_error = 403\<rparr>
   | CeoReturnManager \<Rightarrow> \<lparr>tr_from = [deputy_approved], tr_to = submitted, tr_role = ceo,
       tr_assignee = Some as_ceo, tr_claimable = False,
       tr_guard = is_manager_path, tr_error = 403\<rparr>
   | Cancel \<Rightarrow> \<lparr>tr_from = OPEN_STATUSES, tr_to = cancelled, tr_role = hr,
       tr_assignee = None, tr_claimable = False,
       tr_guard = (\<lambda>r. True), tr_error = 400\<rparr>)"

definition owns_stage :: "transition \<Rightarrow> evaluation_record \<Rightarrow> current_user \<Rightarrow> bool" where
  "owns_stage t r u = (case tr_assignee t of
     None \<Rightarrow> True
   | Some s \<Rightarrow> (assignee_of s r = None \<and> tr_claimable t) \<or> assignee_of s r = Some (cu_id u))"

definition ensure_transition_allowed ::
  "evaluation_record \<Rightarrow> action \<Rightarrow> current_user \<Rightarrow> transition result" where
  "ensure_transition_allowed r a u =
     (let t = transition_of a; denied = HTTPException (tr_error t) ''not at this stage'' in
      if er_status r \<notin> set (tr_from t) \<or> \<not> may_act_at (cu_role u) (tr_role t) then Inl denied
      else if \<not> tr_guard t r then Inl denied
      else if \<not> owns_stage t r u then Inl (HTTPException 403 ''not the owner of the stage'')
      else Inr t)"

section \<open>Applying a transition\<close>

definition scores_of :: "db \<Rightarrow> int \<Rightarrow> evaluation_score list" where
  "scores_of d k = filter (\<lambda>s. es_record s = k) (scores d)"

definition claim :: "env \<Rightarrow> transition \<Rightarrow> evaluation_record \<Rightarrow> current_user \<Rightarrow> db \<Rightarrow> db" where
  "claim e t r u d =
     (if tr_claimable t \<and> tr_assignee t = Some as_hr \<and> er_hr r = None
      then log_event e (cu_id u) ''hr_case_claimed'' (Some (er_id r)) None
             (Some (JObj [(''hr_user_id'', JInt (cu_id u)), (''implicit'', JBool True)]))
             (upd_record (er_id r) (\<lambda>r. r\<lparr>er_hr := Some (cu_id u)\<rparr>) d)
      else d)"

definition enter_stage :: "env \<Rightarrow> evaluation_status \<Rightarrow> evaluation_record \<Rightarrow> evaluation_record" where
  "enter_stage e s r = r\<lparr>er_status := s, er_stage_entered_at := now e,
     er_finalized_at := (if s = finalized \<and> er_finalized_at r = None then Some (now e)
                         else er_finalized_at r)\<rparr>"

definition status_json :: "evaluation_status \<Rightarrow> json" where
  "status_json s = JObj [(''status'', JStr (status_value s))]"

text \<open>
  The hook \<open>before\<close> runs after the claim and before the status changes. The notices are written
  for the row as it is after the change.
\<close>

definition apply_transition ::
  "env \<Rightarrow> evaluation_record \<Rightarrow> action \<Rightarrow> current_user \<Rightarrow> (db \<Rightarrow> db result) \<Rightarrow> db \<Rightarrow> db result" where
  "apply_transition e r a u hook d =
     bindE (ensure_transition_allowed r a u) (\<lambda>t.
       if tr_to t = finalized \<and> (er_final_pct r = None \<or> scores_of d (er_id r) = [])
       then Inl (HTTPException 400 ''the case has no computed result'')
       else bindE (hook (claim e t r u d)) (\<lambda>d2.
         let d3 = upd_record (er_id r) (enter_stage e (tr_to t)) d2;
             d4 = log_event e (cu_id u) ''status_changed'' (Some (er_id r))
               (Some (status_json (er_status r))) (Some (status_json (tr_to t))) d3
         in Inr (case get_record d4 (er_id r) of
                   None \<Rightarrow> d4
                 | Some r' \<Rightarrow> notify_for_workflow_action e r' a d4)))"

section \<open>Submitting a scoring\<close>

definition scores_as_dicts :: "db \<Rightarrow> evaluation_record \<Rightarrow> score_row list" where
  "scores_as_dicts d r = map (\<lambda>s. \<lparr>sr_indicator = es_indicator s, sr_score = es_score s,
     sr_evidence = es_evidence s\<rparr>) (scores_of d (er_id r))"

definition result_json :: "calc_result \<Rightarrow> json" where
  "result_json c = JObj [(''general_score_pct'', JNum (cr_general c)),
     (''specialized_score_pct'', JNum (cr_specialized c)), (''base_weighted_pct'', JNum (cr_base c)),
     (''bonus_points'', JNum (cr_bonus c)), (''final_weighted_pct'', JNum (cr_final c)),
     (''recommendation'', JText (cr_recommendation c)),
     (''scheme_version'', json_opt_int (cr_version c))]"

text \<open>The percentages are written to \<open>NUMERIC(5, 2)\<close> columns.\<close>

definition store_result :: "env \<Rightarrow> calc_result \<Rightarrow> evaluation_record \<Rightarrow> evaluation_record" where
  "store_result e c r = r\<lparr>er_base_pct := Some (numeric_col e 2 (cr_base c)),
     er_general_pct := Some (numeric_col e 2 (cr_general c)),
     er_specialized_pct := Some (numeric_col e 2 (cr_specialized c)),
     er_final_pct := Some (numeric_col e 2 (cr_final c)),
     er_recommendation := Some (cr_recommendation c)\<rparr>"

definition bonus_of :: "evaluation_record \<Rightarrow> rat" where
  "bonus_of r = (case er_bonus_points r of None \<Rightarrow> 0 | Some q \<Rightarrow> fl q)"

definition finalize_scoring ::
  "env \<Rightarrow> evaluation_record \<Rightarrow> current_user \<Rightarrow> db \<Rightarrow> db result" where
  "finalize_scoring e r u d =
     (let inds = indicators_for_record d r;
          rows = scores_as_dicts d r;
          rules = rules_for_record d r in
      if set (map sr_indicator rows) \<noteq> set (map in_id inds)
      then Inl (HTTPException 400 ''every question of the case must be scored'')
      else case validate_evidence rows (by_id inds) rules of
        Inl _ \<Rightarrow> Inl (HTTPException 400 ''evidence is missing or too long'')
      | Inr _ \<Rightarrow> bindE (uncaught (compute_result rows (by_id inds) rules (bonus_of r))) (\<lambda>c.
          Inr (log_event e (cu_id u) ''score_submitted'' (Some (er_id r)) None (Some (result_json c))
            (upd_record (er_id r) (store_result e c) d))))"

section \<open>Who may do what, when\<close>

lemma transition_allowed_Inr [guard_simps]:
  "ensure_transition_allowed r a u = Inr t \<longleftrightarrow>
     t = transition_of a \<and> er_status r \<in> set (tr_from t) \<and> may_act_at (cu_role u) (tr_role t) \<and>
     tr_guard t r \<and> owns_stage t r u"
  by (auto simp: ensure_transition_allowed_def Let_def)

lemma transition_denied:
  "ensure_transition_allowed r a u = Inl x \<Longrightarrow> error_status x = 400 \<or> error_status x = 403"
  by (cases a) (auto simp: ensure_transition_allowed_def transition_of_def Let_def split: if_splits)

lemma from_open: "s \<in> set (tr_from (transition_of a)) \<Longrightarrow> s \<noteq> finalized \<and> s \<noteq> cancelled"
  by (cases a) (auto simp: transition_of_def OPEN_STATUSES_def)

text \<open>Forward actions raise the rank of the status; the four return actions lower it.\<close>

definition is_return :: "action \<Rightarrow> bool" where
  "is_return a \<longleftrightarrow> a \<in> {HrReturn, DeputyReturn, CeoReturn, CeoReturnManager}"

lemma action_direction:
  assumes "s \<in> set (tr_from (transition_of a))"
  shows "if is_return a then tr_to (transition_of a) < s else s < tr_to (transition_of a)"
  using assms by (cases a) (auto simp: transition_of_def is_return_def OPEN_STATUSES_def status_order)

text \<open>The seat whose holder an action needs; cancelling needs none.\<close>

fun actor_seat :: "action \<Rightarrow> assignee option" where
  "actor_seat Submit = Some as_supervisor"
| "actor_seat ManagerSubmit = Some as_deputy"
| "actor_seat DirectCeoSubmit = Some as_ceo"
| "actor_seat DeputyApprove = Some as_deputy"
| "actor_seat DeputyReturn = Some as_deputy"
| "actor_seat CeoFinalize = Some as_ceo"
| "actor_seat CeoReturn = Some as_ceo"
| "actor_seat CeoReturnManager = Some as_ceo"
| "actor_seat Cancel = None"
| "actor_seat _ = Some as_hr"

lemma tr_assignee_seat: "tr_assignee (transition_of a) = actor_seat a"
  by (cases a) (simp_all add: transition_of_def)

lemma tr_claimable_iff: "tr_claimable (transition_of a) \<longleftrightarrow> actor_seat a = Some as_hr"
  by (cases a) (simp_all add: transition_of_def)

section \<open>What an applied transition leaves behind\<close>

lemma claim_get:
  assumes "get_record d (er_id r) = Some r"
  shows "get_record (claim e t r u d) k =
    (if k = er_id r \<and> tr_claimable t \<and> tr_assignee t = Some as_hr \<and> er_hr r = None
     then Some (r\<lparr>er_hr := Some (cu_id u)\<rparr>) else get_record d k)"
  using assms by (auto simp: claim_def frame_simps record_st.row_upd)

lemma claim_tables [frame_simps]:
  "scores (claim e t r u d) = scores d"
  "users (claim e t r u d) = users d"
  "accesses (claim e t r u d) = accesses d"
  "schemes (claim e t r u d) = schemes d"
  "indicators (claim e t r u d) = indicators d"
  "frameworks (claim e t r u d) = frameworks d"
  "personnels (claim e t r u d) = personnels d"
  "periods (claim e t r u d) = periods d"
  "comments (claim e t r u d) = comments d"
  by (simp_all add: claim_def frame_simps)

lemma enter_stage_sel [simp]:
  "er_id (enter_stage e s r) = er_id r"
  "er_status (enter_stage e s r) = s"
  "er_hr (enter_stage e s r) = er_hr r"
  "er_supervisor (enter_stage e s r) = er_supervisor r"
  "er_deputy (enter_stage e s r) = er_deputy r"
  "er_ceo (enter_stage e s r) = er_ceo r"
  "er_subject (enter_stage e s r) = er_subject r"
  "er_scheme (enter_stage e s r) = er_scheme r"
  "er_framework (enter_stage e s r) = er_framework r"
  "er_stage_entered_at (enter_stage e s r) = now e"
  "er_final_pct (enter_stage e s r) = er_final_pct r"
  "er_final_snapshot (enter_stage e s r) = er_final_snapshot r"
  by (simp_all add: enter_stage_def)

lemma apply_transition_Inr:
  "apply_transition e r a u hook d = Inr d' \<longleftrightarrow>
     ensure_transition_allowed r a u = Inr (transition_of a) \<and>
     (tr_to (transition_of a) = finalized \<longrightarrow> er_final_pct r \<noteq> None \<and> scores_of d (er_id r) \<noteq> []) \<and>
     (\<exists>d2. hook (claim e (transition_of a) r u d) = Inr d2 \<and>
        (let d4 = log_event e (cu_id u) ''status_changed'' (Some (er_id r))
               (Some (status_json (er_status r))) (Some (status_json (tr_to (transition_of a))))
               (upd_record (er_id r) (enter_stage e (tr_to (transition_of a))) d2)
         in d' = (case get_record d4 (er_id r) of
                   None \<Rightarrow> d4
                 | Some r' \<Rightarrow> notify_for_workflow_action e r' a d4)))"
  unfolding apply_transition_def bindE_Inr_iff Let_def
  by (auto simp: guard_simps bindE_Inr_iff)

text \<open>The row of the case after the transition, in terms of the row the hook left.\<close>

lemma apply_transition_row:
  assumes run: "apply_transition e r a u hook d = Inr d'"
    and hook: "\<And>d2. hook (claim e (transition_of a) r u d) = Inr d2 \<Longrightarrow>
      get_record d2 (er_id r) = Some r2 \<and> er_id r2 = er_id r"
  shows "get_record d' (er_id r) = Some (enter_stage e (tr_to (transition_of a)) r2)"
proof -
  obtain d2 where h: "hook (claim e (transition_of a) r u d) = Inr d2"
    and d': "d' = (let d4 = log_event e (cu_id u) ''status_changed'' (Some (er_id r))
               (Some (status_json (er_status r))) (Some (status_json (tr_to (transition_of a))))
               (upd_record (er_id r) (enter_stage e (tr_to (transition_of a))) d2)
         in (case get_record d4 (er_id r) of None \<Rightarrow> d4 | Some r' \<Rightarrow> notify_for_workflow_action e r' a d4))"
    using run unfolding apply_transition_Inr Let_def by blast
  have "get_record d2 (er_id r) = Some r2" using hook [OF h] by simp
  then show ?thesis
    by (simp add: d' Let_def frame_simps record_st.row_upd_Some)
qed

lemma apply_transition_other:
  assumes run: "apply_transition e r a u hook d = Inr d'" and "k \<noteq> er_id r"
    and hook: "\<And>d2. hook (claim e (transition_of a) r u d) = Inr d2 \<Longrightarrow>
      get_record d2 k = get_record (claim e (transition_of a) r u d) k"
    and row: "get_record d (er_id r) = Some r"
  shows "get_record d' k = get_record d k"
proof -
  obtain d2 where h: "hook (claim e (transition_of a) r u d) = Inr d2"
    and d': "d' = (let d4 = log_event e (cu_id u) ''status_changed'' (Some (er_id r))
               (Some (status_json (er_status r))) (Some (status_json (tr_to (transition_of a))))
               (upd_record (er_id r) (enter_stage e (tr_to (transition_of a))) d2)
         in (case get_record d4 (er_id r) of None \<Rightarrow> d4 | Some r' \<Rightarrow> notify_for_workflow_action e r' a d4))"
    using run unfolding apply_transition_Inr Let_def by blast
  have "get_record d2 k = get_record d k"
    using hook [OF h] claim_get [OF row] assms(2) by simp
  then show ?thesis
    using assms(2) by (simp add: d' Let_def frame_simps record_st.row_other split: option.split)
qed

end
