(* ===== verification/SelfAssessment.thy ===== *)
theory SelfAssessment
  imports Notifications
begin

text \<open>
  The employee's own side: \<open>services/self_assessment.py\<close> and the endpoints of \<open>routers/me.py\<close>. A
  self-assessment belongs to a contract, is pinned to the question list of the moment it is
  submitted, and is final. The lemmas show who can submit what and when, that a submitted
  assessment answers exactly the questions it is pinned to, that no operation of this component
  changes it afterwards, and how objections and acknowledgements are guarded.
\<close>

section \<open>Eligibility\<close>

definition EXCLUDED_ROLES :: "user_role list" where
  "EXCLUDED_ROLES = [ceo, deputy, support]"

definition may_self_assess :: "user_role \<Rightarrow> bool" where
  "may_self_assess r \<longleftrightarrow> r \<notin> set EXCLUDED_ROLES"

definition may_view :: "user_role \<Rightarrow> bool" where
  "may_view r \<longleftrightarrow> r = hr"

definition contract_is_open :: "env \<Rightarrow> personnel \<Rightarrow> bool" where
  "contract_is_open e p \<longleftrightarrow> p_status p = p_active \<and> p_contract_start p \<le> today e \<and>
     today e \<le> p_contract_end p \<and>
     (case p_separation_date p of None \<Rightarrow> True | Some s \<Rightarrow> today e < s)"

definition get_assessment :: "db \<Rightarrow> int \<Rightarrow> contract_assessment option" where
  "get_assessment d = tbl_get ca_id (assessments d)"

definition upd_assessment ::
  "int \<Rightarrow> (contract_assessment \<Rightarrow> contract_assessment) \<Rightarrow> db \<Rightarrow> db" where
  "upd_assessment k f d = d\<lparr>assessments := tbl_upd ca_id k f (assessments d)\<rparr>"

interpretation assessment_st: row_store get_assessment upd_assessment ca_id
  by unfold_locales
    (auto simp: get_assessment_def upd_assessment_def tbl_get_upd dest: tbl_get_Some_set)

definition assessment_for_contract :: "db \<Rightarrow> int \<Rightarrow> date \<Rightarrow> contract_assessment option" where
  "assessment_for_contract d pid start =
     find (\<lambda>a. ca_personnel a = pid \<and> ca_contract_start a = start) (assessments d)"

definition assessment_for_evaluation :: "db \<Rightarrow> evaluation_record \<Rightarrow> contract_assessment option" where
  "assessment_for_evaluation d r =
     (let start = (case er_contract_start r of Some s \<Rightarrow> Some s
            | None \<Rightarrow> map_option p_contract_start (get_personnel d (er_subject r)))
      in case start of None \<Rightarrow> None
         | Some s \<Rightarrow> (case assessment_for_contract d (er_subject r) s of
             None \<Rightarrow> None
           | Some a \<Rightarrow> if ca_submitted_at a = None then None else Some a))"

definition indicator_ids_for_assessment :: "db \<Rightarrow> contract_assessment \<Rightarrow> int set" where
  "indicator_ids_for_assessment d a =
     (let pinned = (case get_framework d (ca_framework a) of None \<Rightarrow> {} | Some f \<Rightarrow> set (if_members f))
      in if ca_submitted_at a = None
         then (case current_framework d of Some f \<Rightarrow> set (if_members f) | None \<Rightarrow> pinned)
         else pinned)"

datatype assessment_state =
    STATE_NO_ACCOUNT | STATE_NOT_ELIGIBLE | STATE_CLOSED | STATE_PENDING | STATE_INVITED
  | STATE_SUBMITTED

definition state_of :: "env \<Rightarrow> db \<Rightarrow> personnel \<Rightarrow> user_role option \<Rightarrow> assessment_state" where
  "state_of e d p role = (case role of
     None \<Rightarrow> STATE_NO_ACCOUNT
   | Some r \<Rightarrow>
      if \<not> may_self_assess r then STATE_NOT_ELIGIBLE
      else
        let a = assessment_for_contract d (p_id p) (p_contract_start p) in
        if (case a of Some x \<Rightarrow> ca_submitted_at x \<noteq> None | None \<Rightarrow> False) then STATE_SUBMITTED
        else if \<not> contract_is_open e p then STATE_CLOSED
        else if (case a of Some x \<Rightarrow> ca_invited_at x \<noteq> None | None \<Rightarrow> False) then STATE_INVITED
        else STATE_PENDING)"

section \<open>Invitations\<close>

definition new_assessment :: "personnel \<Rightarrow> int \<Rightarrow> db \<Rightarrow> contract_assessment" where
  "new_assessment p fid d = \<lparr>ca_id = tbl_next ca_id (assessments d), ca_personnel = p_id p,
     ca_contract_start = p_contract_start p, ca_contract_end = p_contract_end p,
     ca_framework = fid, ca_submitted_by = None, ca_source_record = None, ca_submitted_at = None,
     ca_note = None, ca_invited_at = None, ca_invited_by = None\<rparr>"

definition add_assessment :: "contract_assessment \<Rightarrow> db \<Rightarrow> db" where
  "add_assessment a d = d\<lparr>assessments := assessments d @ [a]\<rparr>"

definition account_of :: "db \<Rightarrow> int \<Rightarrow> user option" where
  "account_of d pid = find (\<lambda>x. u_personnel_id x = Some pid \<and> u_is_active x) (users d)"

definition open_assessment :: "personnel \<Rightarrow> db \<Rightarrow> contract_assessment \<times> db" where
  "open_assessment p d = (case assessment_for_contract d (p_id p) (p_contract_start p) of
     None \<Rightarrow> (let (f, d1) = ensure_framework d; a = new_assessment p (if_id f) d1
              in (a, add_assessment a d1))
   | Some a \<Rightarrow> (a\<lparr>ca_contract_end := p_contract_end p\<rparr>,
               upd_assessment (ca_id a) (\<lambda>a. a\<lparr>ca_contract_end := p_contract_end p\<rparr>) d))"

definition invite :: "env \<Rightarrow> personnel \<Rightarrow> int \<Rightarrow> db \<Rightarrow> db result" where
  "invite e p actor d = (case account_of d (p_id p) of
     None \<Rightarrow> Inl (HTTPException 400 ''no active account'')
   | Some account \<Rightarrow>
      if \<not> may_self_assess (u_role account) then Inl (HTTPException 400 ''not subject to self-assessment'')
      else if \<not> contract_is_open e p then Inl (HTTPException 400 ''the contract is not active'')
      else
        let old = assessment_for_contract d (p_id p) (p_contract_start p) in
        if (case old of Some a \<Rightarrow> ca_submitted_at a \<noteq> None | None \<Rightarrow> False)
        then Inl (HTTPException 400 ''already submitted for this contract'')
        else
          let is_reminder = (case old of Some a \<Rightarrow> ca_invited_at a \<noteq> None | None \<Rightarrow> False);
              (a, d1) = open_assessment p d;
              d2 = upd_assessment (ca_id a)
                (\<lambda>a. a\<lparr>ca_invited_at := Some (now e), ca_invited_by := Some actor\<rparr>) d1;
              d3 = notify e [u_id account] ''self_assessment_invited''
                (lit ''Reminder: please submit your self-assessment'') None (Some ''/me'') d2
          in Inr (log_event e actor
               (if is_reminder then ''self_assessment_reminded'' else ''self_assessment_invited'') None
               None (Some (JObj [(''personnel_id'', JInt (p_id p)),
                  (''contract_self_assessment_id'', JInt (ca_id a)),
                  (''contract_start_date'', JStr (iso_date (p_contract_start p))),
                  (''notified_user_id'', JInt (u_id account))])) d3))"

section \<open>Submission\<close>

text \<open>A row of the payload: question, score from 1 to 5, note.\<close>

record self_score =
  ps_indicator :: int
  ps_score :: int
  ps_note :: "ustr option"

definition ensure_current_assessment ::
  "env \<Rightarrow> personnel \<Rightarrow> user_role \<Rightarrow> int option \<Rightarrow> db \<Rightarrow> contract_assessment option \<times> db" where
  "ensure_current_assessment e p role preferred d =
     (let old = assessment_for_contract d (p_id p) (p_contract_start p) in
      if old \<noteq> None \<or> \<not> may_self_assess role \<or> \<not> contract_is_open e p then (old, d)
      else
        let (fid, d1) = (if preferred \<noteq> None \<and> preferred \<noteq> Some 0 then (the preferred, d)
                         else apfst if_id (ensure_framework d));
            a = new_assessment p fid d1
        in (Some a, add_assessment a d1))"

definition get_current_self_assessment ::
  "env \<Rightarrow> current_user \<Rightarrow> db \<Rightarrow> (contract_assessment option \<times> db) result" where
  "get_current_self_assessment e u d =
     bindE (require_own_personnel u) (\<lambda>pid.
     bindE (require_module ''self_assessment'' d) (\<lambda>_.
       case get_personnel d pid of
         None \<Rightarrow> Inl (HTTPException 404 ''personnel not found'')
       | Some p \<Rightarrow> Inr (ensure_current_assessment e p (cu_role u) None d)))"

text \<open>The loop over the payload: a question outside the list, or repeated, is refused.\<close>

fun check_answers :: "int set \<Rightarrow> int set \<Rightarrow> self_score list \<Rightarrow> (int set) result" where
  "check_answers allowed seen [] = Inr seen"
| "check_answers allowed seen (x # xs) =
     (if ps_indicator x \<notin> allowed then Inl (HTTPException 400 ''not a question of this assessment'')
      else if ps_indicator x \<in> seen then Inl (HTTPException 400 ''a question is scored once'')
      else check_answers allowed (insert (ps_indicator x) seen) xs)"

definition add_self_score :: "int \<Rightarrow> self_score \<Rightarrow> db \<Rightarrow> db" where
  "add_self_score k x d = d\<lparr>assessment_scores := assessment_scores d @
     [\<lparr>cs_id = tbl_next cs_id (assessment_scores d), cs_assessment = k,
       cs_indicator = ps_indicator x, cs_score = ps_score x, cs_note = ps_note x\<rparr>]\<rparr>"

definition submission_target ::
  "personnel \<Rightarrow> int option \<Rightarrow> db \<Rightarrow> contract_assessment \<times> db" where
  "submission_target p preferred d = (case assessment_for_contract d (p_id p) (p_contract_start p) of
     None \<Rightarrow>
       (let (fid, d1) = (if preferred \<noteq> None \<and> preferred \<noteq> Some 0 then (the preferred, d)
                         else apfst if_id (ensure_framework d));
            a = new_assessment p fid d1
        in (a, add_assessment a d1))
   | Some a \<Rightarrow> (a\<lparr>ca_contract_end := p_contract_end p\<rparr>,
               upd_assessment (ca_id a) (\<lambda>a. a\<lparr>ca_contract_end := p_contract_end p\<rparr>) d))"

text \<open>The writes of an accepted submission: the answers, the stamp, the audit row, the notices.\<close>

definition stamp_submission ::
  "env \<Rightarrow> current_user \<Rightarrow> int \<Rightarrow> self_score list \<Rightarrow> ustr option \<Rightarrow> db \<Rightarrow> db" where
  "stamp_submission e u k answers note d =
     upd_assessment k (\<lambda>a. a\<lparr>ca_submitted_at := Some (now e), ca_submitted_by := Some (cu_id u),
        ca_note := note\<rparr>) (fold (add_self_score k) answers d)"

definition record_submission ::
  "env \<Rightarrow> current_user \<Rightarrow> personnel \<Rightarrow> int \<Rightarrow> self_score list \<Rightarrow> ustr option \<Rightarrow> db \<Rightarrow> db" where
  "record_submission e u p k answers note d =
     (let d1 = log_event e (cu_id u) ''self_assessment_submitted'' None None
            (Some (JObj [(''personnel_id'', JInt (p_id p)),
               (''contract_self_assessment_id'', JInt k),
               (''contract_start_date'', JStr (iso_date (p_contract_start p))),
               (''scored_indicators'', JInt (int (length answers)))]))
            (stamp_submission e u k answers note d);
          hr_ids = filter (\<lambda>j. j \<noteq> cu_id u) (active_user_ids_with_role d1 hr)
      in notify e hr_ids ''self_assessment_submitted''
           (p_full_name p @ lit '' submitted the self-assessment of the current contract'') None
           (Some (''/hr/personnel?self-assessment='' @ int_str (p_id p))) d1)"

definition submit_current ::
  "env \<Rightarrow> current_user \<Rightarrow> int \<Rightarrow> self_score list \<Rightarrow> ustr option \<Rightarrow> int option \<Rightarrow> db \<Rightarrow> db result" where
  "submit_current e u pid answers note preferred d = (case get_personnel d pid of
     None \<Rightarrow> Inl (HTTPException 404 ''personnel not found'')
   | Some p \<Rightarrow>
      if \<not> may_self_assess (cu_role u) then Inl (HTTPException 403 ''no self-assessment for this role'')
      else if \<not> contract_is_open e p then Inl (HTTPException 400 ''outside the contract'')
      else if (case assessment_for_contract d (p_id p) (p_contract_start p) of
                 Some a \<Rightarrow> ca_submitted_at a \<noteq> None | None \<Rightarrow> False)
      then Inl (HTTPException 400 ''already submitted and final'')
      else
        let (a, d1) = submission_target p preferred d;
            (f, d2) = ensure_framework d1;
            pinned = a\<lparr>ca_framework := if_id f\<rparr>;
            d3 = upd_assessment (ca_id a) (\<lambda>a. a\<lparr>ca_framework := if_id f\<rparr>) d2;
            allowed = indicator_ids_for_assessment d3 pinned
        in bindE (check_answers allowed {} answers) (\<lambda>seen.
             if allowed = {} \<or> seen \<noteq> allowed
             then Inl (HTTPException 400 ''every question must be scored'')
             else Inr (record_submission e u p (ca_id a) answers note d3)))"

definition submit_current_self_assessment ::
  "env \<Rightarrow> current_user \<Rightarrow> self_score list \<Rightarrow> ustr option \<Rightarrow> db \<Rightarrow> db result" where
  "submit_current_self_assessment e u answers note d =
     bindE (require_own_personnel u) (\<lambda>pid.
     bindE (require_module ''self_assessment'' d) (\<lambda>_.
       submit_current e u pid answers note None d))"

section \<open>The employee's own cases\<close>

definition my_record_or_404 :: "db \<Rightarrow> int \<Rightarrow> current_user \<Rightarrow> evaluation_record result" where
  "my_record_or_404 d k u = (case get_record d k of
     None \<Rightarrow> Inl (HTTPException 404 ''evaluation not found'')
   | Some r \<Rightarrow> if cu_personnel_id u = None \<or> cu_personnel_id u \<noteq> Some (er_subject r)
       then Inl (HTTPException 404 ''evaluation not found'') else Inr r)"

definition submit_self_assessment ::
  "env \<Rightarrow> current_user \<Rightarrow> int \<Rightarrow> self_score list \<Rightarrow> ustr option \<Rightarrow> db \<Rightarrow> db result" where
  "submit_self_assessment e u k answers note d =
     bindE (require_own_personnel u) (\<lambda>pid.
     bindE (require_module ''self_assessment'' d) (\<lambda>_.
     bindE (my_record_or_404 d k u) (\<lambda>r.
       submit_current e u pid answers note (er_framework r) d)))"

definition get_my_self_assessment ::
  "env \<Rightarrow> current_user \<Rightarrow> int \<Rightarrow> db \<Rightarrow> (contract_assessment option \<times> db) result" where
  "get_my_self_assessment e u k d =
     bindE (require_own_personnel u) (\<lambda>pid.
     bindE (my_record_or_404 d k u) (\<lambda>r.
       case get_personnel d pid of
         None \<Rightarrow> Inl (HTTPException 404 ''personnel not found'')
       | Some p \<Rightarrow> Inr (ensure_current_assessment e p (cu_role u) (er_framework r) d)))"

definition my_evaluations :: "current_user \<Rightarrow> db \<Rightarrow> evaluation_record list result" where
  "my_evaluations u d =
     bindE (require_module ''employee_evaluation_visibility'' d) (\<lambda>_.
     bindE (require_own_personnel u) (\<lambda>pid.
       Inr (rev (sort_key (\<lambda>r. case er_finalized_at r of None \<Rightarrow> 0 | Some t \<Rightarrow> t)
              (filter (\<lambda>r. er_subject r = pid \<and> er_status r = finalized) (records d))))))"

definition my_open_evaluation ::
  "current_user \<Rightarrow> db \<Rightarrow> (evaluation_record \<times> int list \<times> window) list result" where
  "my_open_evaluation u d =
     bindE (require_module ''employee_evaluation_visibility'' d) (\<lambda>_.
     bindE (require_own_personnel u) (\<lambda>pid.
       Inr (map (\<lambda>r. (r, sorted_list_of_set (indicator_ids_for_record d r), window_for d r))
         (rev (sort_key er_created_at
            (filter (\<lambda>r. er_subject r = pid \<and> is_open r) (records d)))))))"

definition my_self_assessments :: "current_user \<Rightarrow> db \<Rightarrow> contract_assessment list result" where
  "my_self_assessments u d =
     bindE (require_own_personnel u) (\<lambda>pid.
       Inr (rev (sort_key (\<lambda>a. case ca_submitted_at a of None \<Rightarrow> 0 | Some t \<Rightarrow> t)
         (filter (\<lambda>a. ca_personnel a = pid \<and> ca_submitted_at a \<noteq> None) (assessments d)))))"

definition my_improvement_plans :: "current_user \<Rightarrow> db \<Rightarrow> improvement_plan list result" where
  "my_improvement_plans u d =
     bindE (require_own_personnel u) (\<lambda>pid.
       Inr (sort_key ip_review_date
         (filter (\<lambda>p. ip_personnel p = pid \<and> ip_status p = plan_open) (plans d))))"

section \<open>Acknowledgement and objection\<close>

definition file_objection :: "env \<Rightarrow> current_user \<Rightarrow> int \<Rightarrow> ustr \<Rightarrow> db \<Rightarrow> db result" where
  "file_objection e u k reason d =
     bindE (require_module ''objections'' d) (\<lambda>_.
     bindE (require_own_personnel u) (\<lambda>_.
     bindE (my_record_or_404 d k u) (\<lambda>r.
       if er_status r \<noteq> finalized then Inl (HTTPException 400 ''only a finalized evaluation'')
       else case er_acknowledged_at r of
         None \<Rightarrow> Inl (HTTPException 400 ''acknowledge the result first'')
       | Some seen \<Rightarrow>
          if er_objection_at r \<noteq> None then Inl (HTTPException 400 ''an objection was already filed'')
          else if seen + days (objection_window_days (cfg e)) < now e
          then Inl (HTTPException 400 ''the objection window is over'')
          else
            let d1 = upd_record k (\<lambda>r. r\<lparr>er_objection_at := Some (now e),
                       er_objection_reason := Some reason\<rparr>) d;
                d2 = log_event e (cu_id u) ''evaluation_objection_filed'' (Some k) None
                       (Some (JObj [(''reason'', JText reason)])) d1
            in Inr (notify e (active_user_ids_with_role d2 hr) ''evaluation_objection_filed''
                 (subject_name d2 r @ lit '' objected to the result of case '' @ lit (er_code r))
                 (Some k) (Some (evaluation_link k)) d2))))"

definition acknowledge_evaluation :: "env \<Rightarrow> current_user \<Rightarrow> int \<Rightarrow> db \<Rightarrow> db result" where
  "acknowledge_evaluation e u k d =
     bindE (require_module ''employee_result_acknowledgement'' d) (\<lambda>_.
     bindE (require_own_personnel u) (\<lambda>_.
     bindE (my_record_or_404 d k u) (\<lambda>r.
       if er_status r \<noteq> finalized then Inl (HTTPException 400 ''only a finalized evaluation'')
       else if er_acknowledged_at r \<noteq> None then Inl (HTTPException 400 ''already acknowledged'')
       else
         let d1 = upd_record k (\<lambda>r. r\<lparr>er_acknowledged_at := Some (now e),
                    er_acknowledged_by := Some (cu_id u)\<rparr>) d;
             d2 = log_event e (cu_id u) ''evaluation_acknowledged'' (Some k) None
                    (Some (JObj [(''acknowledged_at'', JStr (iso_moment (now e)))])) d1
         in Inr (notify e (active_user_ids_with_role d2 hr) ''evaluation_acknowledged''
              (subject_name d2 r @ lit '' saw the result of case '' @ lit (er_code r))
              (Some k) (Some (evaluation_link k)) d2))))"

section \<open>What an operation may touch\<close>

definition self_scores :: "db \<Rightarrow> int \<Rightarrow> contract_assessment_score list" where
  "self_scores d k = filter (\<lambda>s. cs_assessment s = k) (assessment_scores d)"

definition same_assessment :: "int \<Rightarrow> db \<Rightarrow> db \<Rightarrow> bool" where
  "same_assessment k d d' \<longleftrightarrow> get_assessment d' k = get_assessment d k \<and>
     self_scores d' k = self_scores d k"

lemma same_assessment_refl [simp, intro]: "same_assessment k d d"
  by (simp add: same_assessment_def)

lemma same_assessment_trans [trans]:
  "same_assessment k a b \<Longrightarrow> same_assessment k b c \<Longrightarrow> same_assessment k a c"
  by (simp add: same_assessment_def)

lemma same_assessment_tables:
  "assessments d' = assessments d \<Longrightarrow> assessment_scores d' = assessment_scores d \<Longrightarrow>
     same_assessment k d d'"
  by (simp add: same_assessment_def get_assessment_def self_scores_def)

lemma ensure_framework_assessments [frame_simps]:
  "assessments (snd (ensure_framework d)) = assessments d"
  "assessment_scores (snd (ensure_framework d)) = assessment_scores d"
  "records (snd (ensure_framework d)) = records d"
  "users (snd (ensure_framework d)) = users d"
  "accesses (snd (ensure_framework d)) = accesses d"
  "personnels (snd (ensure_framework d)) = personnels d"
  "periods (snd (ensure_framework d)) = periods d"
  "schemes (snd (ensure_framework d)) = schemes d"
  "scores (snd (ensure_framework d)) = scores d"
  "audits (snd (ensure_framework d)) = audits d"
  "code_seq (snd (ensure_framework d)) = code_seq d"
  by (auto simp: ensure_framework_def bump_def Let_def split: option.split)

lemma same_assessment_upd:
  "(\<And>a. ca_id (f a) = ca_id a) \<Longrightarrow> k \<noteq> j \<Longrightarrow> same_assessment k d (upd_assessment j f d)"
  by (simp add: same_assessment_def assessment_st.row_other self_scores_def)
    (simp add: upd_assessment_def)

lemma same_assessment_add:
  "k \<noteq> ca_id a \<Longrightarrow> same_assessment k d (add_assessment a d)"
  by (simp add: same_assessment_def add_assessment_def get_assessment_def tbl_get_append self_scores_def
      split: option.split)

lemma same_assessment_score: "k \<noteq> j \<Longrightarrow> same_assessment k d (fold (add_self_score j) xs d)"
proof (induction xs arbitrary: d)
  case (Cons x xs)
  have "same_assessment k d (add_self_score j x d)"
    using Cons.prems by (simp add: same_assessment_def add_self_score_def get_assessment_def self_scores_def)
  with Cons show ?case by (auto intro: same_assessment_trans)
qed simp

text \<open>
  The row an operation works on: it is either new or not submitted yet. \<open>assessments_ok\<close> is the
  primary key of the table.
\<close>

definition writable :: "db \<Rightarrow> int \<Rightarrow> bool" where
  "writable d j \<longleftrightarrow> (case get_assessment d j of None \<Rightarrow> True | Some a \<Rightarrow> ca_submitted_at a = None)"

definition assessments_ok :: "db \<Rightarrow> bool" where
  "assessments_ok d \<longleftrightarrow> tbl_ok ca_id (assessments d)"

lemma fresh_writable: "writable d (tbl_next ca_id (assessments d))"
  by (simp add: writable_def get_assessment_def tbl_next_fresh)

lemma found_writable:
  assumes "assessments_ok d" and "assessment_for_contract d pid s = Some a"
    and "ca_submitted_at a = None"
  shows "writable d (ca_id a)"
proof -
  have "a \<in> set (assessments d)"
    using assms(2) by (auto simp: assessment_for_contract_def find_Some_iff)
  then have "get_assessment d (ca_id a) = Some a"
    using assms(1) by (simp add: get_assessment_def assessments_ok_def tbl_get_in)
  then show ?thesis using assms(3) by (simp add: writable_def)
qed

lemma unsubmitted_iff:
  "\<not> (case m of Some a \<Rightarrow> ca_submitted_at a \<noteq> None | None \<Rightarrow> False) \<longleftrightarrow>
     (\<forall>a. m = Some a \<longrightarrow> ca_submitted_at a = None)"
  by (cases m) simp_all

text \<open>The two ways of obtaining the row: reuse the one of the contract, or add a new one.\<close>

lemma target_same:
  assumes ok: "assessments_ok d"
    and un: "\<forall>a. assessment_for_contract d (p_id p) (p_contract_start p) = Some a \<longrightarrow> ca_submitted_at a = None"
  shows "writable d (ca_id (fst (submission_target p preferred d)))"
    and "k \<noteq> ca_id (fst (submission_target p preferred d)) \<Longrightarrow>
      same_assessment k d (snd (submission_target p preferred d))"
proof -
  define d1 where "d1 = (if preferred \<noteq> None \<and> preferred \<noteq> Some 0 then d else snd (ensure_framework d))"
  have d1: "assessments d1 = assessments d" "assessment_scores d1 = assessment_scores d"
    by (simp_all add: d1_def frame_simps)
  have new: "\<exists>fid. submission_target p preferred d =
      (new_assessment p fid d1, add_assessment (new_assessment p fid d1) d1)"
    if "assessment_for_contract d (p_id p) (p_contract_start p) = None"
    using that by (auto simp: submission_target_def Let_def split_beta d1_def apfst_def map_prod_def)
  show "writable d (ca_id (fst (submission_target p preferred d)))"
  proof (cases "assessment_for_contract d (p_id p) (p_contract_start p)")
    case None
    then show ?thesis using new fresh_writable [of d] d1 by (auto simp: new_assessment_def)
  next
    case (Some a)
    then show ?thesis using found_writable [OF ok Some] un by (simp add: submission_target_def)
  qed
  show "same_assessment k d (snd (submission_target p preferred d))"
    if "k \<noteq> ca_id (fst (submission_target p preferred d))"
  proof (cases "assessment_for_contract d (p_id p) (p_contract_start p)")
    case None
    then obtain fid where t: "submission_target p preferred d =
        (new_assessment p fid d1, add_assessment (new_assessment p fid d1) d1)"
      using new by blast
    have "same_assessment k d d1" using d1 by (rule same_assessment_tables)
    also have "same_assessment k d1 (add_assessment (new_assessment p fid d1) d1)"
      using that t by (intro same_assessment_add) simp
    finally show ?thesis by (simp add: t)
  next
    case (Some a)
    then show ?thesis using that by (simp add: submission_target_def same_assessment_upd)
  qed
qed

lemma open_assessment_target: "open_assessment p d = submission_target p None d"
  by (simp add: open_assessment_def submission_target_def split_beta apfst_def map_prod_def Let_def
      split: option.split)

lemma submit_current_frame:
  assumes ok: "assessments_ok d" and sub: "submit_current e u pid answers note preferred d = Inr d'"
  shows "\<exists>j. writable d j \<and> (\<forall>k. k \<noteq> j \<longrightarrow> same_assessment k d d')"
proof -
  obtain p where p: "get_personnel d pid = Some p"
    using sub by (auto simp: submit_current_def split: option.splits)
  define a where "a = fst (submission_target p preferred d)"
  define d1 where "d1 = snd (submission_target p preferred d)"
  define f where "f = fst (ensure_framework d1)"
  define d3 where "d3 = upd_assessment (ca_id a) (\<lambda>a. a\<lparr>ca_framework := if_id f\<rparr>)
    (snd (ensure_framework d1))"
  have un: "\<forall>a. assessment_for_contract d (p_id p) (p_contract_start p) = Some a \<longrightarrow> ca_submitted_at a = None"
    using sub p by (auto simp: submit_current_def split: if_splits)
  have "d' = record_submission e u p (ca_id a) answers note d3"
    using sub p unfolding submit_current_def Let_def split_beta
    by (auto simp: bindE_Inr_iff a_def d1_def f_def d3_def split: if_splits)
  then have d': "assessments d' = assessments (stamp_submission e u (ca_id a) answers note d3)"
    "assessment_scores d' = assessment_scores (stamp_submission e u (ca_id a) answers note d3)"
    by (simp_all add: record_submission_def Let_def frame_simps)
  have "same_assessment k d d'" if k: "k \<noteq> ca_id a" for k
  proof -
    have "same_assessment k d d1"
      using target_same(2) [OF ok un] k by (simp add: a_def d1_def)
    also have "same_assessment k d1 (snd (ensure_framework d1))"
      by (rule same_assessment_tables) (simp_all add: frame_simps)
    also have "same_assessment k (snd (ensure_framework d1)) d3"
      unfolding d3_def by (rule same_assessment_upd) (use k in simp_all)
    also have "same_assessment k d3 (fold (add_self_score (ca_id a)) answers d3)"
      by (rule same_assessment_score [OF k])
    also have "same_assessment k (fold (add_self_score (ca_id a)) answers d3)
        (stamp_submission e u (ca_id a) answers note d3)"
      unfolding stamp_submission_def by (rule same_assessment_upd) (use k in simp_all)
    also have "same_assessment k (stamp_submission e u (ca_id a) answers note d3) d'"
      by (rule same_assessment_tables [OF d'])
    finally show ?thesis .
  qed
  then show ?thesis using target_same(1) [OF ok un] by (auto simp: a_def)
qed

lemma invite_frame:
  assumes ok: "assessments_ok d" and inv: "invite e p actor d = Inr d'"
  shows "\<exists>j. writable d j \<and> (\<forall>k. k \<noteq> j \<longrightarrow> same_assessment k d d')"
proof -
  define a where "a = fst (open_assessment p d)"
  define d2 where "d2 = upd_assessment (ca_id a)
    (\<lambda>a. a\<lparr>ca_invited_at := Some (now e), ca_invited_by := Some actor\<rparr>) (snd (open_assessment p d))"
  have un: "\<forall>a. assessment_for_contract d (p_id p) (p_contract_start p) = Some a \<longrightarrow> ca_submitted_at a = None"
    using inv by (auto simp: invite_def Let_def split: option.splits if_splits)
  have "\<exists>t z ids ty m l. d' = log_event e actor t None None z (notify e ids ty m None l d2)"
    using inv unfolding invite_def Let_def split_beta a_def [symmetric]
    by (auto simp: d2_def split: option.splits if_splits) blast+
  then have d': "assessments d' = assessments d2" "assessment_scores d' = assessment_scores d2"
    by (auto simp: frame_simps)
  have "same_assessment k d d'" if k: "k \<noteq> ca_id a" for k
  proof -
    have "same_assessment k d (snd (open_assessment p d))"
      using target_same(2) [OF ok un] k by (simp add: a_def open_assessment_target)
    also have "same_assessment k (snd (open_assessment p d)) d2"
      unfolding d2_def by (rule same_assessment_upd) (use k in simp_all)
    also have "same_assessment k d2 d'" by (rule same_assessment_tables [OF d'])
    finally show ?thesis .
  qed
  then show ?thesis
    using target_same(1) [OF ok un] by (auto simp: a_def open_assessment_target)
qed

lemma ensure_current_frame:
  "same_assessment k d (snd (ensure_current_assessment e p r pref d)) \<or>
     k = tbl_next ca_id (assessments d)"
proof -
  define d1 where "d1 = (if pref \<noteq> None \<and> pref \<noteq> Some 0 then d else snd (ensure_framework d))"
  have d1: "assessments d1 = assessments d" "assessment_scores d1 = assessment_scores d"
    by (simp_all add: d1_def frame_simps)
  have "snd (ensure_current_assessment e p r pref d) = d \<or>
      (\<exists>fid. snd (ensure_current_assessment e p r pref d) =
         add_assessment (new_assessment p fid d1) d1)"
    by (auto simp: ensure_current_assessment_def Let_def split_beta d1_def apfst_def map_prod_def)
  then show ?thesis
    using same_assessment_tables [OF d1, of k] same_assessment_add [of k _ d1] d1
    by (auto simp: new_assessment_def intro: same_assessment_trans)
qed

section \<open>A submitted assessment is final\<close>

datatype self_request =
    InviteRequest personnel int
  | OpenForm current_user
  | OpenCaseForm current_user int
  | SubmitSelf current_user "self_score list" "ustr option"
  | SubmitCaseSelf current_user int "self_score list" "ustr option"

fun self_step :: "env \<Rightarrow> self_request \<Rightarrow> db \<Rightarrow> db" where
  "self_step e (InviteRequest p actor) d = committed d (invite e p actor d)"
| "self_step e (OpenForm u) d = (case get_current_self_assessment e u d of Inl _ \<Rightarrow> d | Inr s \<Rightarrow> snd s)"
| "self_step e (OpenCaseForm u k) d = (case get_my_self_assessment e u k d of Inl _ \<Rightarrow> d | Inr s \<Rightarrow> snd s)"
| "self_step e (SubmitSelf u xs n) d = committed d (submit_current_self_assessment e u xs n d)"
| "self_step e (SubmitCaseSelf u k xs n) d = committed d (submit_self_assessment e u k xs n d)"

lemma self_step_frame:
  assumes ok: "assessments_ok d"
  shows "\<exists>j. writable d j \<and> (\<forall>k. k \<noteq> j \<longrightarrow> same_assessment k d (self_step e c d))"
proof -
  have triv: ?thesis if "self_step e c d = d" using that fresh_writable by auto
  have form: ?thesis if "ensure_current_assessment e p r pref d = (a, self_step e c d)" for p r pref a
    using that ensure_current_frame [of _ d e p r pref] fresh_writable by (metis snd_conv)
  show ?thesis
  proof (cases c)
    case (InviteRequest p actor)
    then show ?thesis using triv invite_frame [OF ok] by (cases "invite e p actor d") auto
  next
    case (OpenForm u)
    then show ?thesis
      using triv form
      by (cases "get_current_self_assessment e u d")
        (auto simp: get_current_self_assessment_def bindE_Inr_iff split: option.splits)
  next
    case (OpenCaseForm u k)
    then show ?thesis
      using triv form
      by (cases "get_my_self_assessment e u k d")
        (auto simp: get_my_self_assessment_def bindE_Inr_iff split: option.splits)
  next
    case (SubmitSelf u xs n)
    then show ?thesis
      using triv submit_current_frame [OF ok]
      by (cases "submit_current_self_assessment e u xs n d")
        (auto simp: submit_current_self_assessment_def bindE_Inr_iff)
  next
    case (SubmitCaseSelf u k xs n)
    then show ?thesis
      using triv submit_current_frame [OF ok]
      by (cases "submit_self_assessment e u k xs n d")
        (auto simp: submit_self_assessment_def bindE_Inr_iff)
  qed
qed

lemma self_step_final:
  assumes "assessments_ok d" and "get_assessment d k = Some a" and "ca_submitted_at a \<noteq> None"
  shows "get_assessment (self_step e c d) k = Some a \<and> self_scores (self_step e c d) k = self_scores d k"
proof -
  obtain j where j: "writable d j" "k \<noteq> j \<longrightarrow> same_assessment k d (self_step e c d)"
    using self_step_frame [OF assms(1)] by blast
  then have "k \<noteq> j" using assms(2,3) by (auto simp: writable_def)
  then show ?thesis using j assms(2) by (simp add: same_assessment_def)
qed

lemma assessments_ok_intros:
  "assessments_ok d \<Longrightarrow> assessments d' = assessments d \<Longrightarrow> assessments_ok d'"
  "assessments_ok d \<Longrightarrow> (\<And>a. ca_id (f a) = ca_id a) \<Longrightarrow> assessments_ok (upd_assessment k f d)"
  "assessments_ok d \<Longrightarrow> assessments_ok (add_assessment (new_assessment p fid d) d)"
  by (simp_all add: assessments_ok_def upd_assessment_def tbl_ok_upd add_assessment_def
      new_assessment_def tbl_ok_insert)

lemma fold_scores_assessments [frame_simps]:
  "assessments (fold (add_self_score k) xs d) = assessments d"
  "frameworks (fold (add_self_score k) xs d) = frameworks d"
  by (induction xs arbitrary: d) (simp_all add: add_self_score_def)

lemma framework_ok: "assessments_ok d \<Longrightarrow> assessments_ok (snd (ensure_framework d))"
  by (erule assessments_ok_intros) (simp add: frame_simps)

lemma target_ok: "assessments_ok d \<Longrightarrow> assessments_ok (snd (submission_target p pref d))"
  by (auto simp: submission_target_def Let_def split_beta apfst_def map_prod_def
      intro!: assessments_ok_intros(2,3) framework_ok split: option.split)

lemma record_submission_ok:
  "assessments_ok d \<Longrightarrow> assessments_ok (record_submission e u p k xs n d)"
proof (rule assessments_ok_intros(1) [of "stamp_submission e u k xs n d"])
  assume "assessments_ok d"
  then have "assessments_ok (fold (add_self_score k) xs d)"
    by (rule assessments_ok_intros(1)) (simp add: frame_simps)
  then show "assessments_ok (stamp_submission e u k xs n d)"
    unfolding stamp_submission_def by (rule assessments_ok_intros(2)) simp
qed (simp add: record_submission_def Let_def frame_simps)

text \<open>What an accepted submission did.\<close>

lemma submit_current_Inr:
  assumes "submit_current e u pid answers note preferred d = Inr d'"
  obtains p a d1 f d2 where "get_personnel d pid = Some p" and "may_self_assess (cu_role u)"
    and "contract_is_open e p"
    and "\<forall>a. assessment_for_contract d (p_id p) (p_contract_start p) = Some a \<longrightarrow> ca_submitted_at a = None"
    and "submission_target p preferred d = (a, d1)" and "ensure_framework d1 = (f, d2)"
    and "check_answers (indicator_ids_for_assessment
          (upd_assessment (ca_id a) (\<lambda>a. a\<lparr>ca_framework := if_id f\<rparr>) d2) (a\<lparr>ca_framework := if_id f\<rparr>))
          {} answers =
        Inr (indicator_ids_for_assessment
          (upd_assessment (ca_id a) (\<lambda>a. a\<lparr>ca_framework := if_id f\<rparr>) d2) (a\<lparr>ca_framework := if_id f\<rparr>))"
    and "d' = record_submission e u p (ca_id a) answers note
      (upd_assessment (ca_id a) (\<lambda>a. a\<lparr>ca_framework := if_id f\<rparr>) d2)"
proof -
  obtain p where p: "get_personnel d pid = Some p"
    using assms by (auto simp: submit_current_def split: option.splits)
  obtain a d1 where t: "submission_target p preferred d = (a, d1)" by fastforce
  obtain f d2 where f: "ensure_framework d1 = (f, d2)" by fastforce
  show thesis
    by (rule that [OF p _ _ _ t f])
      (use assms p t f in \<open>auto simp: submit_current_def Let_def bindE_Inr_iff split: if_splits\<close>)
qed

lemma submit_current_ok:
  "assessments_ok d \<Longrightarrow> submit_current e u pid answers note preferred d = Inr d' \<Longrightarrow> assessments_ok d'"
proof -
  assume ok: "assessments_ok d" and sub: "submit_current e u pid answers note preferred d = Inr d'"
  obtain p a d1 f d2 where t: "submission_target p preferred d = (a, d1)"
    and f: "ensure_framework d1 = (f, d2)"
    and d': "d' = record_submission e u p (ca_id a) answers note
      (upd_assessment (ca_id a) (\<lambda>a. a\<lparr>ca_framework := if_id f\<rparr>) d2)"
    by (rule submit_current_Inr [OF sub])
  have "assessments_ok d2"
    using target_ok [OF ok, of p preferred] framework_ok [of d1] by (simp add: t f)
  then show ?thesis
    unfolding d' by (intro record_submission_ok assessments_ok_intros(2)) simp_all
qed

lemma invite_ok: "assessments_ok d \<Longrightarrow> invite e p actor d = Inr d' \<Longrightarrow> assessments_ok d'"
proof -
  assume ok: "assessments_ok d" and inv: "invite e p actor d = Inr d'"
  obtain a d1 where t: "submission_target p None d = (a, d1)" by fastforce
  have "assessments d' = assessments (upd_assessment (ca_id a)
      (\<lambda>a. a\<lparr>ca_invited_at := Some (now e), ca_invited_by := Some actor\<rparr>) d1)"
    using inv t by (auto simp: invite_def Let_def open_assessment_target frame_simps
        split: option.splits if_splits)
  moreover have "assessments_ok d1" using target_ok [OF ok, of p None] by (simp add: t)
  moreover from this have "assessments_ok (upd_assessment (ca_id a)
      (\<lambda>a. a\<lparr>ca_invited_at := Some (now e), ca_invited_by := Some actor\<rparr>) d1)"
    by (rule assessments_ok_intros(2)) simp
  ultimately show ?thesis by (simp add: assessments_ok_def)
qed

lemma ensure_current_ok: "assessments_ok d \<Longrightarrow> assessments_ok (snd (ensure_current_assessment e p r pref d))"
  by (auto simp: ensure_current_assessment_def Let_def split_beta apfst_def map_prod_def
      intro!: assessments_ok_intros(3) framework_ok)

lemma self_step_ok: "assessments_ok d \<Longrightarrow> assessments_ok (self_step e c d)"
proof (cases c)
  case (OpenForm u)
  assume "assessments_ok d"
  then show ?thesis
    using OpenForm ensure_current_ok [of d]
    by (auto simp: get_current_self_assessment_def bindE_def split: sum.split option.split) (metis snd_conv)+
next
  case (OpenCaseForm u k)
  assume "assessments_ok d"
  then show ?thesis
    using OpenCaseForm ensure_current_ok [of d]
    by (auto simp: get_my_self_assessment_def bindE_def split: sum.split option.split) (metis snd_conv)+
qed (auto simp: committed_def submit_current_self_assessment_def submit_self_assessment_def
      bindE_Inr_iff split: sum.split intro: invite_ok submit_current_ok)

lemma self_run_final:
  "assessments_ok d \<Longrightarrow> get_assessment d k = Some a \<Longrightarrow> ca_submitted_at a \<noteq> None \<Longrightarrow>
     get_assessment (fold (self_step e) cs d) k = Some a \<and>
     self_scores (fold (self_step e) cs d) k = self_scores d k"
proof (induction cs arbitrary: d)
  case (Cons c cs)
  then show ?case using self_step_final [of d k a e c] self_step_ok [of d e c] by simp
qed simp

section \<open>A submitted assessment is complete\<close>

lemma check_answers_Inr:
  "check_answers allowed seen xs = Inr s \<longleftrightarrow>
     set (map ps_indicator xs) \<subseteq> allowed \<and> distinct (map ps_indicator xs) \<and>
     set (map ps_indicator xs) \<inter> seen = {} \<and> s = seen \<union> set (map ps_indicator xs)"
  by (induction xs arbitrary: seen) auto

lemma ensure_framework_current:
  assumes "frameworks_ok d" and "ensure_framework d = (f, d')"
  shows "current_framework d' = Some f \<and> if_members f = active_member_ids d'"
proof -
  have "current_framework (snd (bump None ''seed'' None d)) = Some (fst (bump None ''seed'' None d))"
    using bump_ok [OF assms(1)] by (simp add: current_framework_last frame_simps)
  moreover have "if_members (fst (bump None ''seed'' None d)) =
      active_member_ids (snd (bump None ''seed'' None d))"
    by (simp add: bump_fst active_member_ids_def frame_simps)
  ultimately show ?thesis
    using assms(2) ensure_framework_cases [of d] by (auto simp: prod_eq_iff)
qed

lemma target_frameworks_ok:
  "frameworks_ok d \<Longrightarrow> frameworks_ok (snd (submission_target p pref d))"
proof -
  assume ok: "frameworks_ok d"
  then have "frameworks_ok (snd (ensure_framework d))"
    using ensure_framework_cases [of d] bump_ok [OF ok] by auto
  moreover have "frameworks_ok x \<Longrightarrow> frameworks_ok (add_assessment a x)"
    and "frameworks_ok x \<Longrightarrow> frameworks_ok (upd_assessment k f x)" for x a k f
    by (simp_all add: frameworks_ok_def add_assessment_def upd_assessment_def)
  ultimately show ?thesis
    using ok by (auto simp: submission_target_def Let_def split_beta apfst_def map_prod_def
        split: option.split)
qed

lemma submit_current_complete:
  assumes fw: "frameworks_ok d" and sub: "submit_current e u pid answers note preferred d = Inr d'"
  shows "\<exists>f. current_framework d' = Some f \<and> if_members f = active_member_ids d' \<and>
    distinct (map ps_indicator answers) \<and> set (map ps_indicator answers) = set (if_members f)"
proof -
  obtain p a d1 f d2 where
    un: "\<forall>a. assessment_for_contract d (p_id p) (p_contract_start p) = Some a \<longrightarrow> ca_submitted_at a = None"
    and t: "submission_target p preferred d = (a, d1)" and f: "ensure_framework d1 = (f, d2)"
    and chk: "check_answers (indicator_ids_for_assessment
          (upd_assessment (ca_id a) (\<lambda>a. a\<lparr>ca_framework := if_id f\<rparr>) d2) (a\<lparr>ca_framework := if_id f\<rparr>))
          {} answers =
        Inr (indicator_ids_for_assessment
          (upd_assessment (ca_id a) (\<lambda>a. a\<lparr>ca_framework := if_id f\<rparr>) d2) (a\<lparr>ca_framework := if_id f\<rparr>))"
    and d': "d' = record_submission e u p (ca_id a) answers note
      (upd_assessment (ca_id a) (\<lambda>a. a\<lparr>ca_framework := if_id f\<rparr>) d2)"
    by (rule submit_current_Inr [OF sub])
  have cur: "current_framework d2 = Some f" "if_members f = active_member_ids d2"
    using ensure_framework_current [OF _ f] target_frameworks_ok [OF fw, of p preferred] t by simp_all
  have keep: "frameworks d' = frameworks d2" "indicators d' = indicators d2"
  proof -
    have "indicators (fold (add_self_score k) xs x) = indicators x" for k xs x
      by (induction xs arbitrary: x) (simp_all add: add_self_score_def)
    then show "frameworks d' = frameworks d2" "indicators d' = indicators d2"
      by (simp_all add: d' record_submission_def stamp_submission_def Let_def frame_simps)
        (simp_all add: upd_assessment_def frame_simps)
  qed
  have "ca_submitted_at a = None"
    using t un by (auto simp: submission_target_def Let_def split_beta new_assessment_def
        split: option.splits)
  moreover have "current_framework (upd_assessment k g d2) = Some f" for k g
    using cur(1) by (simp add: upd_assessment_def current_framework_def)
  ultimately have "check_answers (set (if_members f)) {} answers = Inr (set (if_members f))"
    using chk by (simp add: indicator_ids_for_assessment_def Let_def)
  then have "distinct (map ps_indicator answers) \<and> set (map ps_indicator answers) = set (if_members f)"
    by (auto simp: check_answers_Inr)
  moreover have "current_framework d' = Some f" "if_members f = active_member_ids d'"
    using cur keep by (simp_all add: current_framework_def active_member_ids_def)
  ultimately show ?thesis by blast
qed

section \<open>Objections\<close>

lemma file_objection_closed: "file_objection e u k reason d = Inl (HTTPException 403 ''the section is disabled'')"
  by (simp add: file_objection_def require_module_def require_def)

lemma acknowledge_closed:
  "acknowledge_evaluation e u k d = Inl (HTTPException 403 ''the section is disabled'')"
  by (simp add: acknowledge_evaluation_def require_module_def require_def)

end
