(* ===== verification/Documents.thy ===== *)
theory Documents
  imports Workflow SelfAssessment "HOL-Library.Multiset"
begin

text \<open>
  The final document of a case: the snapshot of \<open>services/snapshot.py\<close>, its archival as a PDF in
  \<open>services/documents.py\<close> (rendering is the parameter \<open>render_pdf\<close> of the environment) and the
  public verification of \<open>routers/verify.py\<close>. The lemmas show that archiving is idempotent and
  never replaces a document, and that verification answers only for finalized cases.
\<close>

section \<open>The snapshot\<close>

definition SNAPSHOT_VERSION :: int where
  "SNAPSHOT_VERSION = 6"

text \<open>\<open>User.display_name\<close>: the name of the personnel file, else the full name, else the user name.\<close>

definition display_name :: "db \<Rightarrow> user \<Rightarrow> ustr" where
  "display_name d x =
     (let file_name = (case u_personnel_id x of None \<Rightarrow> []
            | Some k \<Rightarrow> (case get_personnel d k of None \<Rightarrow> [] | Some p \<Rightarrow> p_full_name p))
      in if file_name \<noteq> [] then file_name
         else case u_full_name x of Some (c # cs) \<Rightarrow> c # cs | _ \<Rightarrow> lit (u_username x))"

fun comment_stage_value :: "comment_stage \<Rightarrow> string" where
  "comment_stage_value cm_hr_review = ''hr_review''"
| "comment_stage_value cm_deputy_review = ''deputy_review''"
| "comment_stage_value cm_ceo_final = ''ceo_final''"

definition json_float :: "rat option \<Rightarrow> json" where
  "json_float v = json_opt (\<lambda>q. JNum (fl q)) v"

text \<open>One row of the comparison of the self-assessment with the evaluator's scores.\<close>

record gap_row =
  gp_indicator :: int
  gp_category :: ustr
  gp_description :: ustr
  gp_self :: int
  gp_evaluator :: "int option"
  gp_gap :: "int option"
  gp_note :: "ustr option"

definition gap_row_of ::
  "(int \<Rightarrow> indicator option) \<Rightarrow> (int \<Rightarrow> int option) \<Rightarrow> contract_assessment_score \<Rightarrow> gap_row" where
  "gap_row_of inds evaluator s =
     \<lparr>gp_indicator = cs_indicator s,
      gp_category = (case inds (cs_indicator s) of Some i \<Rightarrow> in_category i | None \<Rightarrow> lit ''-''),
      gp_description = (case inds (cs_indicator s) of Some i \<Rightarrow> in_description i
                        | None \<Rightarrow> lit ''(deleted question)''),
      gp_self = cs_score s, gp_evaluator = evaluator (cs_indicator s),
      gp_gap = map_option (\<lambda>x. cs_score s - x) (evaluator (cs_indicator s)),
      gp_note = cs_note s\<rparr>"

definition gap_size :: "gap_row \<Rightarrow> int" where
  "gap_size r = (case gp_gap r of None \<Rightarrow> 0 | Some g \<Rightarrow> \<bar>g\<bar>)"

text \<open>Largest gap first; \<open>list.sort(reverse=True)\<close> keeps equal rows in order.\<close>

definition gap_rows ::
  "(int \<Rightarrow> indicator option) \<Rightarrow> evaluation_score list \<Rightarrow> contract_assessment_score list \<Rightarrow> gap_row list" where
  "gap_rows inds evaluator_scores self =
     (let evaluator = map_of (rev (map (\<lambda>s. (es_indicator s, es_score s)) evaluator_scores))
      in sort_key (\<lambda>r. - gap_size r) (map (gap_row_of inds evaluator) self))"

definition gap_json :: "gap_row \<Rightarrow> json" where
  "gap_json r = JObj [(''indicator_id'', JInt (gp_indicator r)), (''category'', JText (gp_category r)),
     (''description'', JText (gp_description r)), (''self_score'', JInt (gp_self r)),
     (''evaluator_score'', json_opt_int (gp_evaluator r)), (''gap'', json_opt_int (gp_gap r)),
     (''note'', json_opt JText (gp_note r))]"

definition self_assessment_block ::
  "contract_assessment option \<Rightarrow> contract_assessment_score list \<Rightarrow> evaluation_score list \<Rightarrow>
   (int \<Rightarrow> indicator option) \<Rightarrow> json" where
  "self_assessment_block a self evaluator_scores inds = (case a of
     None \<Rightarrow> JNull
   | Some x \<Rightarrow> (case ca_submitted_at x of
       None \<Rightarrow> JNull
     | Some t \<Rightarrow> JObj [(''submitted_at'', JStr (iso_moment t)), (''note'', json_opt JText (ca_note x)),
         (''rows'', JList (map gap_json (gap_rows inds evaluator_scores self)))]))"

definition score_json :: "(int \<Rightarrow> indicator option) \<Rightarrow> evaluation_score \<Rightarrow> json" where
  "score_json inds s =
     (let i = inds (es_indicator s) in
      JObj [(''indicator_id'', JInt (es_indicator s)),
        (''category'', JText (case i of Some x \<Rightarrow> in_category x | None \<Rightarrow> lit ''-'')),
        (''description'', JText (case i of Some x \<Rightarrow> in_description x | None \<Rightarrow> lit ''(deleted question)'')),
        (''section'', JStr (case i of Some x \<Rightarrow> section_value (in_section x) | None \<Rightarrow> ''general'')),
        (''score'', JInt (es_score s)), (''evidence_text'', json_opt JText (es_evidence s))])"

definition comment_json :: "evaluation_comment \<Rightarrow> json" where
  "comment_json c = JObj [(''stage'', JStr (comment_stage_value (ec_stage c))),
     (''commenter_user_id'', JInt (ec_commenter c)), (''comment_text'', JText (ec_text c))]"

definition personnel_json :: "personnel \<Rightarrow> json" where
  "personnel_json p = JObj [(''full_name'', JText (p_full_name p)),
     (''personnel_code'', JText (p_code p)), (''job_title'', JText (p_job_title p)),
     (''org_unit'', JText (p_org_unit p))]"

definition evaluator_json :: "db \<Rightarrow> evaluation_record \<Rightarrow> json" where
  "evaluator_json d r =
     (let x = (case evaluator_of r of None \<Rightarrow> None | Some k \<Rightarrow> get_user d k) in
      JObj [(''username'', json_opt (\<lambda>u. JStr (u_username u)) x),
        (''display_name'', json_opt (\<lambda>u. JText (display_name d u)) x),
        (''role_label'', JStr (if is_direct_ceo_path r then ''chief executive''
           else if is_manager_path r then ''deputy'' else ''unit supervisor''))])"

text \<open>A missing personnel row raises \<open>ValueError\<close>. A special score of zero is written as null.\<close>

definition build_final_snapshot :: "db \<Rightarrow> evaluation_record \<Rightarrow> py_exc + json" where
  "build_final_snapshot d r = (case get_personnel d (er_subject r) of
     None \<Rightarrow> Inl (ValueError ''the personnel row is missing'')
   | Some p \<Rightarrow>
      (let evaluator_scores = scores_of d (er_id r);
           a = assessment_for_evaluation d r;
           self = (case a of None \<Rightarrow> [] | Some x \<Rightarrow> self_scores d (ca_id x));
           inds = get_indicator d
       in Inr (JObj [
         (''snapshot_version'', JInt SNAPSHOT_VERSION),
         (''personnel'', personnel_json p),
         (''evaluator'', evaluator_json d r),
         (''single_decider'', JBool (single_decider r)),
         (''self_assessment'', self_assessment_block a self evaluator_scores inds),
         (''evaluation_started_at'', JStr (iso_moment (er_created_at r))),
         (''evaluation_code'', JStr (er_code r)),
         (''general_score_pct'', json_float (er_general_pct r)),
         (''specialized_score_pct'', json_float (er_specialized_pct r)),
         (''final_weighted_pct'', json_float (er_final_pct r)),
         (''base_weighted_pct'', json_float (er_base_pct r)),
         (''bonus_points'', if er_bonus_points r = Some 0 then JNull else json_float (er_bonus_points r)),
         (''bonus_reason'', json_opt JText (er_bonus_reason r)),
         (''recommendation'', json_opt JText (er_recommendation r)),
         (''evaluator_comment'', json_opt JText (er_evaluator_comment r)),
         (''scores'', JList (map (score_json inds) evaluator_scores)),
         (''comments'', JList (map comment_json (filter (\<lambda>c. ec_record c = er_id r) (comments d)))),
         (''finalized_at'', json_opt (\<lambda>t. JStr (iso_moment t)) (er_finalized_at r))])))"

section \<open>Archival\<close>

definition get_document :: "db \<Rightarrow> int \<Rightarrow> evaluation_document option" where
  "get_document d k = find (\<lambda>x. ed_record x = k) (documents d)"

text \<open>\<open>public_base_url\<close> is a deployment setting; only the path of the link is modelled.\<close>

definition verify_url_for :: "string \<Rightarrow> string" where
  "verify_url_for t = ''/verify/'' @ t"

text \<open>
  \<open>render_pdf\<close> is \<open>None\<close> when WeasyPrint is not installed or raises \<open>RuntimeError\<close>; either way
  nothing is stored.
\<close>

definition archive_final_pdf ::
  "env \<Rightarrow> evaluation_record \<Rightarrow> db \<Rightarrow> evaluation_document option \<times> db" where
  "archive_final_pdf e r d = (case get_document d (er_id r) of
     Some x \<Rightarrow> (Some x, d)
   | None \<Rightarrow>
      (let url = (case er_verify_token r of Some (c # cs) \<Rightarrow> Some (verify_url_for (c # cs)) | _ \<Rightarrow> None) in
       case render_pdf e (er_final_snapshot r) url of
         None \<Rightarrow> (None, d)
       | Some bytes \<Rightarrow>
          (let x = \<lparr>ed_id = tbl_next ed_id (documents d), ed_record = er_id r, ed_pdf = bytes,
                 ed_sha256 = sha256_bytes e bytes\<rparr>
           in (Some x, d\<lparr>documents := documents d @ [x]\<rparr>))))"

definition archive_final_pdf_detached :: "env \<Rightarrow> int \<Rightarrow> db \<Rightarrow> db" where
  "archive_final_pdf_detached e k d = (case get_record d k of
     None \<Rightarrow> d | Some r \<Rightarrow> snd (archive_final_pdf e r d))"

section \<open>Verification\<close>

record verification_result =
  vr_code :: string
  vr_full_name :: json
  vr_org_unit :: json
  vr_final_pct :: "rat option"
  vr_recommendation :: "ustr option"
  vr_finalized_at :: "moment option"
  vr_sha256 :: string
  vr_document_ready :: bool

text \<open>\<open>dict.get(key, default)\<close> on a JSON object.\<close>

definition json_get :: "json \<Rightarrow> string \<Rightarrow> json \<Rightarrow> json" where
  "json_get j key dflt = (case j of JObj kvs \<Rightarrow> (case map_of kvs key of Some v \<Rightarrow> v | None \<Rightarrow> dflt)
     | _ \<Rightarrow> dflt)"

definition verify_document :: "string \<Rightarrow> db \<Rightarrow> verification_result result" where
  "verify_document t d = (case find (\<lambda>r. er_verify_token r = Some t) (records d) of
     None \<Rightarrow> Inl (HTTPException 404 ''no finalized document'')
   | Some r \<Rightarrow>
      if er_status r \<noteq> finalized then Inl (HTTPException 404 ''no finalized document'')
      else
        let x = get_document d (er_id r);
            snap = (case er_final_snapshot r of None \<Rightarrow> JObj [] | Some j \<Rightarrow> j);
            p = json_get snap ''personnel'' (JObj [])
        in Inr \<lparr>vr_code = er_code r, vr_full_name = json_get p ''full_name'' (JStr []),
             vr_org_unit = json_get p ''org_unit'' (JStr []),
             vr_final_pct = map_option fl (er_final_pct r),
             vr_recommendation = er_recommendation r, vr_finalized_at = er_finalized_at r,
             vr_sha256 = (case x of None \<Rightarrow> [] | Some y \<Rightarrow> ed_sha256 y),
             vr_document_ready = (x \<noteq> None)\<rparr>)"

section \<open>Documents are never replaced\<close>

lemma archive_get:
  "get_document d k = Some x \<Longrightarrow> get_document (snd (archive_final_pdf e r d)) k = Some x"
proof -
  assume x: "get_document d k = Some x"
  have "find P xs = Some y \<Longrightarrow> find P (xs @ ys) = Some y" for P :: "evaluation_document \<Rightarrow> bool" and xs ys y
    by (induction xs) (auto split: if_splits)
  then show ?thesis
    using x by (auto simp: archive_final_pdf_def get_document_def Let_def split: option.split)
qed

lemma archive_idempotent:
  assumes "archive_final_pdf e r d = (Some x, d1)"
  shows "archive_final_pdf e' r d1 = (Some x, d1)" and "get_document d1 (er_id r) = Some x"
proof -
  have get: "get_document d1 (er_id r) = Some x"
  proof (cases "get_document d (er_id r)")
    case (Some y)
    then show ?thesis using assms by (simp add: archive_final_pdf_def)
  next
    case None
    then obtain bytes where "d1 = d\<lparr>documents := documents d @ [x]\<rparr>" and "ed_record x = er_id r"
      using assms by (auto simp: archive_final_pdf_def Let_def split: option.splits)
    moreover have "find P xs = None \<Longrightarrow> P y \<Longrightarrow> find P (xs @ [y]) = Some y"
      for P :: "evaluation_document \<Rightarrow> bool" and xs y
      by (induction xs) (auto split: if_splits)
    ultimately show ?thesis using None by (simp add: get_document_def)
  qed
  then show "get_document d1 (er_id r) = Some x" .
  show "archive_final_pdf e' r d1 = (Some x, d1)" using get by (simp add: archive_final_pdf_def)
qed

lemma archive_tables [frame_simps]:
  "records (snd (archive_final_pdf e r d)) = records d"
  "audits (snd (archive_final_pdf e r d)) = audits d"
  by (simp_all add: archive_final_pdf_def Let_def split: option.split)

lemma verify_document_Inr:
  assumes "verify_document t d = Inr v"
  shows "\<exists>r\<in>set (records d). er_verify_token r = Some t \<and> er_status r = finalized \<and>
    vr_code v = er_code r \<and> vr_final_pct v = map_option fl (er_final_pct r) \<and>
    vr_recommendation v = er_recommendation r \<and>
    (vr_document_ready v \<longleftrightarrow> get_document d (er_id r) \<noteq> None)"
  using assms
  by (auto simp: verify_document_def Let_def find_Some_iff split: option.splits if_splits)

lemma snapshot_final_pct:
  "build_final_snapshot d r = Inr j \<Longrightarrow>
     json_get j ''final_weighted_pct'' JNull = json_float (er_final_pct r)"
  by (auto simp: build_final_snapshot_def Let_def json_get_def split: option.splits)

text \<open>The comparison lists every self-assessed question once, widest gap first.\<close>

lemma gap_rows_sorted: "sorted (map (\<lambda>r. - gap_size r) (gap_rows inds es self))"
  by (simp add: gap_rows_def Let_def)

lemma gap_rows_questions:
  "mset (map gp_indicator (gap_rows inds es self)) = mset (map cs_indicator self)"
  by (simp add: gap_rows_def Let_def gap_row_of_def multiset.map_comp comp_def)

end
