(* ===== verification/Evaluations.thy ===== *)
theory Evaluations
  imports Documents
begin

text \<open>
  The endpoints of \<open>routers/evaluations.py\<close>: opening a case, scoring it, the steps of the approval
  chain, returns, cancellation, extension of the window, ownership of the human-resources stage,
  reassignment of a seat, objections, comments, and the reading side (scope, filters, detail).
  Bodies arrive validated by the request models of \<open>schemas/evaluation.py\<close>; the wording added to
  stored comments is rendered in English.
\<close>

section \<open>Stages\<close>

fun stage_by_status :: "evaluation_status \<Rightarrow> evaluation_stage option" where
  "stage_by_status draft = Some supervisor_scoring"
| "stage_by_status submitted = Some st_hr_review"
| "stage_by_status hr_approved = Some st_deputy_review"
| "stage_by_status deputy_approved = Some st_ceo_final"
| "stage_by_status finalized = Some st_ceo_final"
| "stage_by_status cancelled = None"

definition EXTENDABLE_STATUSES :: "evaluation_status list" where
  "EXTENDABLE_STATUSES = [draft]"

section \<open>Reading a case\<close>

definition get_record_or_404 :: "db \<Rightarrow> int \<Rightarrow> evaluation_record result" where
  "get_record_or_404 d k = (case get_record d k of
     None \<Rightarrow> Inl (HTTPException 404 ''evaluation not found'') | Some r \<Rightarrow> Inr r)"

definition is_the_scorer :: "evaluation_record \<Rightarrow> current_user \<Rightarrow> bool" where
  "is_the_scorer r u \<longleftrightarrow> er_status r = draft \<and>
     (let (stage_role, scorer) =
        (if is_direct_ceo_path r then (ceo, Some (er_ceo r))
         else if is_manager_path r then (deputy, er_deputy r)
         else (unit_supervisor, er_supervisor r))
      in scorer \<noteq> None \<and> Some (cu_id u) = scorer \<and> may_act_at (cu_role u) stage_role)"

definition ensure_can_view :: "evaluation_record \<Rightarrow> current_user \<Rightarrow> unit result" where
  "ensure_can_view r u =
     bindE (ensure_not_deciding_about_oneself r u) (\<lambda>_.
       if cu_role u = hr then Inr ()
       else require (Some (cu_id u) \<in> set (record_seats r))
              (HTTPException 403 ''no access to this evaluation''))"

definition was_returned :: "db \<Rightarrow> int \<Rightarrow> bool" where
  "was_returned d k \<longleftrightarrow>
     (\<exists>a\<in>set (audits d). al_event a = ''evaluation_returned'' \<and> al_record a = Some k)"

text \<open>What \<open>_to_read\<close> and \<open>_to_detail\<close> add to the row.\<close>

record evaluation_read =
  rd_record :: evaluation_record
  rd_stage :: "evaluation_stage option"
  rd_was_returned :: bool
  rd_window :: window

definition to_read :: "db \<Rightarrow> evaluation_record \<Rightarrow> evaluation_read" where
  "to_read d r = \<lparr>rd_record = r, rd_stage = stage_by_status (er_status r),
     rd_was_returned = was_returned d (er_id r), rd_window = window_for d r\<rparr>"

record evaluation_detail =
  dt_read :: evaluation_read
  dt_self :: "(contract_assessment \<times> contract_assessment_score list) option"
  dt_indicator_ids :: "int list"
  dt_framework_version :: "int option"

definition self_assessment_of ::
  "db \<Rightarrow> evaluation_record \<Rightarrow> (contract_assessment \<times> contract_assessment_score list) option" where
  "self_assessment_of d r =
     map_option (\<lambda>a. (a, self_scores d (ca_id a))) (assessment_for_evaluation d r)"

definition to_detail :: "db \<Rightarrow> evaluation_record \<Rightarrow> current_user \<Rightarrow> evaluation_detail" where
  "to_detail d r u = \<lparr>dt_read = to_read d r,
     dt_self = (if may_view (cu_role u) then self_assessment_of d r else None),
     dt_indicator_ids = sorted_list_of_set (indicator_ids_for_record d r),
     dt_framework_version = (case er_framework r of None \<Rightarrow> None
        | Some k \<Rightarrow> map_option if_version (get_framework d k))\<rparr>"

definition get_evaluation :: "db \<Rightarrow> current_user \<Rightarrow> int \<Rightarrow> evaluation_detail result" where
  "get_evaluation d u k =
     bindE (get_record_or_404 d k) (\<lambda>r.
     bindE (ensure_can_view r u) (\<lambda>_. Inr (to_detail d r u)))"

section \<open>Lists\<close>

definition scope_evaluations_for_role :: "current_user \<Rightarrow> (evaluation_record \<Rightarrow> bool) result" where
  "scope_evaluations_for_role u = (case cu_role u of
     hr \<Rightarrow> Inr (\<lambda>r. True)
   | unit_supervisor \<Rightarrow> Inr (\<lambda>r. er_supervisor r = Some (cu_id u))
   | deputy \<Rightarrow> Inr (\<lambda>r. er_deputy r = Some (cu_id u))
   | ceo \<Rightarrow> Inr (\<lambda>r. er_ceo r = cu_id u)
   | employee \<Rightarrow> (case cu_personnel_id u of
       None \<Rightarrow> Inr (\<lambda>r. False)
     | Some p \<Rightarrow> Inr (\<lambda>r. er_subject r = p \<and> er_status r = finalized))
   | support \<Rightarrow> Inl (HTTPException 403 ''this role has no access to evaluations''))"

text \<open>The filters of the list; \<open>fi_text\<close> is the case-insensitive match on code or name.\<close>

record evaluation_filter =
  fi_text :: "(evaluation_record \<Rightarrow> ustr \<Rightarrow> bool) option"
  fi_status :: "evaluation_status option"
  fi_org_unit :: "ustr option"
  fi_created_from :: "moment option"
  fi_created_to :: "moment option"
  fi_min_pct :: "rat option"
  fi_max_pct :: "rat option"
  fi_subject :: "int option"
  fi_returned :: "bool option"

definition opt_ok :: "('a \<Rightarrow> bool) \<Rightarrow> 'a option \<Rightarrow> bool" where
  "opt_ok P v = (case v of None \<Rightarrow> True | Some x \<Rightarrow> P x)"

definition subject_org_unit :: "db \<Rightarrow> evaluation_record \<Rightarrow> ustr option" where
  "subject_org_unit d r = map_option p_org_unit (get_personnel d (er_subject r))"

definition apply_evaluation_filters ::
  "db \<Rightarrow> evaluation_filter \<Rightarrow> (evaluation_record \<Rightarrow> bool) result" where
  "apply_evaluation_filters d f =
     (if (case (fi_min_pct f, fi_max_pct f) of (Some a, Some b) \<Rightarrow> b < a | _ \<Rightarrow> False)
      then Inl (HTTPException 400 ''minimum above maximum'')
      else if (case (fi_created_from f, fi_created_to f) of (Some a, Some b) \<Rightarrow> b < a | _ \<Rightarrow> False)
      then Inl (HTTPException 400 ''range ends before it starts'')
      else Inr (\<lambda>r.
        opt_ok (\<lambda>s. er_status r = s) (fi_status f) \<and>
        opt_ok (\<lambda>m. m r (subject_name d r)) (fi_text f) \<and>
        opt_ok (\<lambda>o'. o' = [] \<or> subject_org_unit d r = Some o') (fi_org_unit f) \<and>
        opt_ok (\<lambda>t. t \<le> er_created_at r) (fi_created_from f) \<and>
        opt_ok (\<lambda>t. er_created_at r < t + days 1) (fi_created_to f) \<and>
        opt_ok (\<lambda>q. opt_ok (\<lambda>x. q \<le> x) (er_final_pct r) \<and> er_final_pct r \<noteq> None) (fi_min_pct f) \<and>
        opt_ok (\<lambda>q. opt_ok (\<lambda>x. x \<le> q) (er_final_pct r) \<and> er_final_pct r \<noteq> None) (fi_max_pct f) \<and>
        opt_ok (\<lambda>p. er_subject r = p) (fi_subject f) \<and>
        opt_ok (\<lambda>b. was_returned d (er_id r) = b) (fi_returned f)))"

text \<open>Newest first, one page.\<close>

definition list_evaluations ::
  "db \<Rightarrow> current_user \<Rightarrow> evaluation_filter \<Rightarrow> nat \<Rightarrow> nat \<Rightarrow> (nat \<times> evaluation_record list) result" where
  "list_evaluations d u f limit offset =
     (if cu_role u = employee \<and> \<not> is_module_enabled d ''employee_evaluation_visibility''
      then Inl (HTTPException 403 ''results are hidden from employees'')
      else bindE (scope_evaluations_for_role u) (\<lambda>scope.
        bindE (apply_evaluation_filters d f) (\<lambda>keep.
          let rows = filter (\<lambda>r. scope r \<and> keep r) (records d)
          in Inr (length rows, take limit (drop offset (rev (sort_key er_created_at rows)))))))"

definition export_evaluations_excel ::
  "env \<Rightarrow> current_user \<Rightarrow> evaluation_filter \<Rightarrow> db \<Rightarrow> (evaluation_record list \<times> db) result" where
  "export_evaluations_excel e u f d =
     bindE (require_roles [hr] u) (\<lambda>_.
     bindE (apply_evaluation_filters d f) (\<lambda>keep.
       Inr (rev (sort_key er_created_at (filter keep (records d))),
            log_event e (cu_id u) ''excel_exported'' None None None d)))"

section \<open>Opening a case\<close>

definition open_record_of :: "db \<Rightarrow> int \<Rightarrow> evaluation_record option" where
  "open_record_of d pid = find (\<lambda>r. er_subject r = pid \<and> is_open r) (records d)"

text \<open>Who may open the case of this person, and the supervisor seat it starts with.\<close>

definition opening_seat :: "current_user \<Rightarrow> personnel \<Rightarrow> evaluation_access \<Rightarrow> (int option) result" where
  "opening_seat u p a =
     (if ea_supervisor a = None \<and> ea_deputy a = None
      then (if \<not> may_act_at (cu_role u) ceo \<or> cu_id u \<noteq> ea_ceo a
            then Inl (HTTPException 403 ''only the chief executive opens this case'') else Inr None)
      else if p_is_manager p
      then (if \<not> may_act_at (cu_role u) deputy \<or> Some (cu_id u) \<noteq> ea_deputy a
            then Inl (HTTPException 403 ''only the deputy opens this case'') else Inr None)
      else case ea_supervisor a of
        None \<Rightarrow> Inl (HTTPException 400 ''no unit supervisor is defined'')
      | Some s \<Rightarrow> (if \<not> may_act_at (cu_role u) unit_supervisor \<or> cu_id u \<noteq> s
            then Inl (HTTPException 403 ''only the unit supervisor opens this case'') else Inr (Some s)))"

definition framework_for_new_case :: "personnel \<Rightarrow> db \<Rightarrow> indicator_framework \<times> db" where
  "framework_for_new_case p d = (case assessment_for_contract d (p_id p) (p_contract_start p) of
     None \<Rightarrow> ensure_framework d
   | Some a \<Rightarrow> (case get_framework d (ca_framework a) of
       Some f \<Rightarrow> (f, d) | None \<Rightarrow> ensure_framework d))"

definition new_record ::
  "env \<Rightarrow> personnel \<Rightarrow> evaluation_access \<Rightarrow> int option \<Rightarrow> string \<Rightarrow> int \<Rightarrow> db \<Rightarrow> evaluation_record" where
  "new_record e p a sv code fid d =
     \<lparr>er_id = tbl_next er_id (records d), er_code = code, er_verify_token = None,
      er_subject = p_id p, er_supervisor = sv, er_deputy = ea_deputy a, er_ceo = ea_ceo a,
      er_hr = None, er_period = map_option ep_id (open_period d),
      er_scheme = map_option ss_id (active_scheme d), er_framework = Some fid, er_status = draft,
      er_base_pct = None, er_general_pct = None, er_specialized_pct = None, er_final_pct = None,
      er_recommendation = None, er_bonus_points = None, er_bonus_reason = None,
      er_evaluator_comment = None, er_final_snapshot = None, er_created_at = now e,
      er_stage_entered_at = now e, er_finalized_at = None, er_acknowledged_at = None,
      er_acknowledged_by = None, er_self_submitted_at = None, er_self_note = None,
      er_self_invited_at = None, er_self_invited_by = None,
      er_contract_start = Some (p_contract_start p), er_contract_end = Some (p_contract_end p),
      er_extended_until = None, er_extended_at = None, er_extended_by = None,
      er_extension_reason = None, er_objection_at = None, er_objection_reason = None,
      er_objection_resolved_at = None, er_objection_resolution = None,
      er_objection_resolved_by = None\<rparr>"

definition create_evaluation ::
  "env \<Rightarrow> current_user \<Rightarrow> int \<Rightarrow> db \<Rightarrow> (evaluation_record \<times> db) result" where
  "create_evaluation e u pid d =
     bindE (require_chain_stage unit_supervisor u) (\<lambda>_.
     case get_personnel d pid of
       None \<Rightarrow> Inl (HTTPException 404 ''personnel not found'')
     | Some p \<Rightarrow>
        if p_status p \<noteq> p_active then Inl (HTTPException 400 ''the person is inactive'')
        else case access_of d pid of
          None \<Rightarrow> Inl (HTTPException 400 ''no evaluation access is defined'')
        | Some a \<Rightarrow>
           if inactive_seat_labels d a \<noteq> [] then Inl (HTTPException 400 ''inactive seats in the chain'')
           else bindE (opening_seat u p a) (\<lambda>sv.
             case open_record_of d pid of
               Some r \<Rightarrow> Inl (HTTPConflict 409 ''an open evaluation exists'' (Some (er_id r)))
             | None \<Rightarrow>
                let (f, d1) = framework_for_new_case p d;
                    (code, d2) = next_evaluation_code d1;
                    r = new_record e p a sv code (if_id f) d2
                in Inr (r, log_event e (cu_id u) ''status_changed'' (Some (er_id r)) None
                          (Some (status_json draft)) (d2\<lparr>records := records d2 @ [r]\<rparr>))))"

section \<open>Scoring\<close>

text \<open>A row of the payload has a score from 1 to 5 and at most 2000 characters of evidence.\<close>

definition score_input_ok :: "score_row \<Rightarrow> bool" where
  "score_input_ok x \<longleftrightarrow> 1 \<le> sr_score x \<and> sr_score x \<le> 5 \<and>
     opt_ok (\<lambda>t. length t \<le> 2000) (sr_evidence x)"

fun check_scores :: "int set \<Rightarrow> int set \<Rightarrow> score_row list \<Rightarrow> unit result" where
  "check_scores known seen [] = Inr ()"
| "check_scores known seen (x # xs) =
     (if sr_indicator x \<notin> known then Inl (HTTPException 400 ''not a question of this evaluation'')
      else if sr_indicator x \<in> seen then Inl (HTTPException 400 ''a question is scored once'')
      else check_scores known (insert (sr_indicator x) seen) xs)"

definition add_score :: "int \<Rightarrow> score_row \<Rightarrow> db \<Rightarrow> db" where
  "add_score k x d = d\<lparr>scores := scores d @ [\<lparr>es_id = tbl_next es_id (scores d), es_record = k,
     es_indicator = sr_indicator x, es_score = sr_score x, es_evidence = sr_evidence x\<rparr>]\<rparr>"

definition replace_scores :: "evaluation_record \<Rightarrow> score_row list \<Rightarrow> db \<Rightarrow> db result" where
  "replace_scores r xs d =
     bindE (check_scores (in_id ` set (indicators_for_record d r)) {} xs) (\<lambda>_.
       Inr (fold (add_score (er_id r)) xs
         (d\<lparr>scores := filter (\<lambda>s. es_record s \<noteq> er_id r) (scores d)\<rparr>)))"

definition upsert_scores ::
  "env \<Rightarrow> current_user \<Rightarrow> int \<Rightarrow> score_row list \<Rightarrow> db \<Rightarrow> db result" where
  "upsert_scores e u k xs d =
     bindE (get_record_or_404 d k) (\<lambda>r.
     bindE (ensure_open e d r) (\<lambda>_.
     if \<not> is_the_scorer r u then Inl (HTTPException 403 ''you cannot score at this stage'')
     else bindE (replace_scores r xs d) (\<lambda>d1.
       Inr (log_event e (cu_id u) ''scores_draft_saved'' (Some k) None
         (Some (JObj [(''scored_indicators'', JInt (int (length xs)))])) d1))))"

definition set_evaluator_comment ::
  "env \<Rightarrow> current_user \<Rightarrow> int \<Rightarrow> ustr \<Rightarrow> db \<Rightarrow> db result" where
  "set_evaluator_comment e u k text d =
     bindE (get_record_or_404 d k) (\<lambda>r.
     bindE (ensure_open e d r) (\<lambda>_.
     if \<not> is_the_scorer r u then Inl (HTTPException 403 ''you cannot comment at this stage'')
     else Inr (upd_record k (\<lambda>r. r\<lparr>er_evaluator_comment := Some text\<rparr>) d)))"

text \<open>The stored points go through the \<open>NUMERIC(4, 2)\<close> column.\<close>

definition set_special_score ::
  "env \<Rightarrow> current_user \<Rightarrow> int \<Rightarrow> rat \<Rightarrow> ustr option \<Rightarrow> db \<Rightarrow> db result" where
  "set_special_score e u k points reason_in d =
     bindE (get_record_or_404 d k) (\<lambda>r.
     bindE (ensure_open e d r) (\<lambda>_.
     if \<not> is_the_scorer r u then Inl (HTTPException 403 ''you cannot score at this stage'')
     else
       let stripped = strip (case reason_in of None \<Rightarrow> [] | Some t \<Rightarrow> t);
           reason = (if stripped = [] then None else Some stripped)
       in case validate_bonus points reason (rules_for_record d r) of
            Inl msg \<Rightarrow> Inl (HTTPException 400 msg)
          | Inr _ \<Rightarrow>
             let kept = (if 0 < points then reason else None);
                 d1 = upd_record k (\<lambda>r. r\<lparr>er_bonus_points := Some (numeric_col e 2 points),
                        er_bonus_reason := kept\<rparr>) d
             in Inr (log_event e (cu_id u) ''special_score_set'' (Some k)
                  (Some (JObj [(''bonus_points'', json_float (er_bonus_points r)),
                               (''bonus_reason'', json_opt JText (er_bonus_reason r))]))
                  (Some (JObj [(''bonus_points'', JNum points),
                               (''bonus_reason'', json_opt JText kept)])) d1)))"

section \<open>The chain\<close>

definition no_hook :: "db \<Rightarrow> db result" where
  "no_hook d = Inr d"

text \<open>A hook works on the row as it is when it runs.\<close>

definition on_record :: "int \<Rightarrow> (evaluation_record \<Rightarrow> db \<Rightarrow> db result) \<Rightarrow> db \<Rightarrow> db result" where
  "on_record k f d = (case get_record d k of
     None \<Rightarrow> Inl (HTTPException 404 ''evaluation not found'') | Some r \<Rightarrow> f r d)"

definition submit_action :: "evaluation_record \<Rightarrow> action" where
  "submit_action r = (if is_direct_ceo_path r then DirectCeoSubmit
     else if is_manager_path r then ManagerSubmit else Submit)"

definition submit_evaluation :: "env \<Rightarrow> current_user \<Rightarrow> int \<Rightarrow> db \<Rightarrow> db result" where
  "submit_evaluation e u k d =
     bindE (require_chain_stage unit_supervisor u) (\<lambda>_.
     bindE (get_record_or_404 d k) (\<lambda>r.
     bindE (ensure_open e d r) (\<lambda>_.
       apply_transition e r (submit_action r) u (on_record k (\<lambda>r. finalize_scoring e r u)) d)))"

text \<open>The finalization hook: stamp, snapshot of the stamped row, verification token.\<close>

definition finalize_hook :: "env \<Rightarrow> int \<Rightarrow> db \<Rightarrow> db result" where
  "finalize_hook e k d =
     (let d1 = upd_record k (\<lambda>r. r\<lparr>er_finalized_at := Some (now e)\<rparr>) d in
      on_record k (\<lambda>r d1. bindE (uncaught (build_final_snapshot d1 r)) (\<lambda>snap.
        Inr (upd_record k (\<lambda>r. r\<lparr>er_final_snapshot := Some snap, er_verify_token := Some (token e)\<rparr>) d1)))
        d1)"

definition hr_approve_action :: "evaluation_record \<Rightarrow> action" where
  "hr_approve_action r = (if is_direct_ceo_path r then HrFinalizeDirectCeo
     else if is_manager_path r then HrApproveManager else HrApprove)"

definition approve_as_hr :: "env \<Rightarrow> current_user \<Rightarrow> int \<Rightarrow> db \<Rightarrow> db result" where
  "approve_as_hr e u k d =
     bindE (require_roles [hr] u) (\<lambda>_.
     bindE (get_record_or_404 d k) (\<lambda>r.
     bindE (ensure_not_deciding_about_oneself r u) (\<lambda>_.
     bindE (apply_transition e r (hr_approve_action r) u
              (if is_direct_ceo_path r then finalize_hook e k else no_hook) d) (\<lambda>d1.
       Inr (if is_direct_ceo_path r then archive_final_pdf_detached e k d1 else d1)))))"

definition approve_as_deputy :: "env \<Rightarrow> current_user \<Rightarrow> int \<Rightarrow> db \<Rightarrow> db result" where
  "approve_as_deputy e u k d =
     bindE (require_chain_stage deputy u) (\<lambda>_.
     bindE (get_record_or_404 d k) (\<lambda>r. apply_transition e r DeputyApprove u no_hook d))"

definition ceo_finalize :: "env \<Rightarrow> current_user \<Rightarrow> int \<Rightarrow> db \<Rightarrow> db result" where
  "ceo_finalize e u k d =
     bindE (require_chain_stage ceo u) (\<lambda>_.
     bindE (get_record_or_404 d k) (\<lambda>r.
     bindE (apply_transition e r CeoFinalize u (finalize_hook e k) d) (\<lambda>d1.
       Inr (archive_final_pdf_detached e k d1))))"

definition add_comment_row ::
  "env \<Rightarrow> int \<Rightarrow> int \<Rightarrow> int option \<Rightarrow> comment_stage \<Rightarrow> ustr \<Rightarrow> db \<Rightarrow> db" where
  "add_comment_row e k by parent stage text d = d\<lparr>comments := comments d @
     [\<lparr>ec_id = tbl_next ec_id (comments d), ec_record = k, ec_commenter = by, ec_parent = parent,
       ec_stage = stage, ec_text = text, ec_created_at = now e\<rparr>]\<rparr>"

definition return_action_by_role :: "user_role \<Rightarrow> action \<times> comment_stage" where
  "return_action_by_role r = (case r of
     hr \<Rightarrow> (HrReturn, cm_hr_review)
   | deputy \<Rightarrow> (DeputyReturn, cm_deputy_review)
   | _ \<Rightarrow> (CeoReturn, cm_ceo_final))"

definition return_evaluation :: "env \<Rightarrow> current_user \<Rightarrow> int \<Rightarrow> ustr \<Rightarrow> db \<Rightarrow> db result" where
  "return_evaluation e u k reason d =
     bindE (require_roles [hr, deputy, ceo] u) (\<lambda>_.
     bindE (get_record_or_404 d k) (\<lambda>r.
       let (a0, stage) = return_action_by_role (cu_role u);
           a = (if a0 = CeoReturn \<and> is_manager_path r then CeoReturnManager else a0)
       in if a = DeputyReturn \<and> is_manager_path r
          then Inl (HTTPException 400 ''no earlier stage on the manager path'')
          else apply_transition e r a u
            (\<lambda>d. Inr (log_event e (cu_id u) ''evaluation_returned'' (Some k) None
               (Some (JObj [(''reason'', JText reason)]))
               (add_comment_row e k (cu_id u) None stage
                  (lit ''Case returned, reason: '' @ reason) d))) d))"

definition cancel_evaluation :: "env \<Rightarrow> current_user \<Rightarrow> int \<Rightarrow> ustr \<Rightarrow> db \<Rightarrow> db result" where
  "cancel_evaluation e u k reason d =
     bindE (require_roles [hr] u) (\<lambda>_.
     bindE (get_record_or_404 d k) (\<lambda>r.
     bindE (ensure_not_deciding_about_oneself r u) (\<lambda>_.
       apply_transition e r Cancel u
         (\<lambda>d. Inr (log_event e (cu_id u) ''evaluation_cancelled'' (Some k)
            (Some (status_json (er_status r))) (Some (JObj [(''reason'', JText reason)]))
            (add_comment_row e k (cu_id u) None cm_hr_review
               (lit ''Case cancelled, reason: '' @ reason) d))) d)))"

section \<open>Extension of the window\<close>

definition extension_notice :: "env \<Rightarrow> evaluation_record \<Rightarrow> date \<Rightarrow> db \<Rightarrow> db" where
  "extension_notice e r until d =
     (let scorer = (case er_supervisor r of Some s \<Rightarrow> if s = 0 then er_deputy r else Some s
                    | None \<Rightarrow> er_deputy r) in
      case scorer of None \<Rightarrow> d
      | Some s \<Rightarrow> notify e [s] ''submission_window_extended''
          (lit ''The window of case '' @ lit (er_code r) @ lit '' was extended to '' @ lit (iso_date until))
          (Some (er_id r)) (Some (evaluation_link (er_id r))) d)"

definition extend_submission_window ::
  "env \<Rightarrow> current_user \<Rightarrow> int \<Rightarrow> date \<Rightarrow> ustr \<Rightarrow> db \<Rightarrow> db result" where
  "extend_submission_window e u k until reason d =
     bindE (require_roles [hr] u) (\<lambda>_.
     bindE (get_record_or_404 d k) (\<lambda>r.
     bindE (ensure_not_deciding_about_oneself r u) (\<lambda>_.
       if er_status r \<notin> set EXTENDABLE_STATUSES
       then Inl (HTTPException 400 ''the case is past the scoring stage'')
       else
         let d1 = upd_record k (\<lambda>r. r\<lparr>er_extended_until := Some until,
                    er_extended_at := Some (now e), er_extended_by := Some (cu_id u),
                    er_extension_reason := Some reason\<rparr>) d;
             d2 = add_comment_row e k (cu_id u) None cm_hr_review
                    (lit ''Window extended to '' @ lit (iso_date until) @ lit '', reason: '' @ reason) d1;
             d3 = log_event e (cu_id u) ''submission_window_extended'' (Some k)
                    (Some (JObj [(''until'', json_opt (\<lambda>x. JStr (iso_date x)) (er_extended_until r))]))
                    (Some (JObj [(''until'', JStr (iso_date until)), (''reason'', JText reason)])) d2
         in Inr (extension_notice e r until d3))))"

section \<open>Ownership of the human-resources stage\<close>

definition hr_claim :: "env \<Rightarrow> current_user \<Rightarrow> int \<Rightarrow> db \<Rightarrow> db result" where
  "hr_claim e u k d =
     bindE (require_roles [hr] u) (\<lambda>_.
     bindE (get_record_or_404 d k) (\<lambda>r.
     bindE (ensure_not_deciding_about_oneself r u) (\<lambda>_.
       if \<not> is_open r then Inl (HTTPException 400 ''only an open case has an owner'')
       else if er_hr r \<noteq> None then Inl (HTTPException 409 ''the case already has an owner'')
       else Inr (log_event e (cu_id u) ''hr_case_claimed'' (Some k) None
              (Some (JObj [(''hr_user_id'', JInt (cu_id u)), (''implicit'', JBool False)]))
              (upd_record k (\<lambda>r. r\<lparr>er_hr := Some (cu_id u)\<rparr>) d)))))"

definition hr_handover :: "env \<Rightarrow> current_user \<Rightarrow> int \<Rightarrow> int \<Rightarrow> ustr \<Rightarrow> db \<Rightarrow> db result" where
  "hr_handover e u k new reason d =
     bindE (require_roles [hr] u) (\<lambda>_.
     bindE (get_record_or_404 d k) (\<lambda>r.
     bindE (ensure_not_deciding_about_oneself r u) (\<lambda>_.
       if \<not> is_open r then Inl (HTTPException 400 ''only the owner of an open case changes'')
       else case get_user d new of
         None \<Rightarrow> Inl (HTTPException 400 ''the chosen user is not an active hr user'')
       | Some x \<Rightarrow>
          if \<not> u_is_active x \<or> u_role x \<noteq> hr
          then Inl (HTTPException 400 ''the chosen user is not an active hr user'')
          else if Some (u_id x) = er_hr r then Inl (HTTPException 400 ''already the owner'')
          else if u_personnel_id x \<noteq> None \<and> u_personnel_id x = Some (er_subject r)
          then Inl (HTTPException 400 ''the subject cannot own the case'')
          else
            let d1 = upd_record k (\<lambda>r. r\<lparr>er_hr := Some (u_id x)\<rparr>) d;
                d2 = add_comment_row e k (cu_id u) None cm_hr_review
                       (lit ''Case handed over, reason: '' @ reason) d1;
                d3 = log_event e (cu_id u) ''hr_case_handed_over'' (Some k)
                       (Some (JObj [(''hr_user_id'', json_opt_int (er_hr r))]))
                       (Some (JObj [(''hr_user_id'', JInt (u_id x)), (''reason'', JText reason)])) d2
            in Inr (notify_stage_owner_reassigned e r (u_id x) ''human resources'' d3))))"

section \<open>Objections\<close>

definition resolve_objection :: "env \<Rightarrow> current_user \<Rightarrow> int \<Rightarrow> ustr \<Rightarrow> db \<Rightarrow> db result" where
  "resolve_objection e u k resolution d =
     bindE (require_roles [hr] u) (\<lambda>_.
     bindE (get_record_or_404 d k) (\<lambda>r.
     bindE (ensure_not_deciding_about_oneself r u) (\<lambda>_.
       if er_objection_at r = None then Inl (HTTPException 400 ''no objection was filed'')
       else if er_objection_resolved_at r \<noteq> None then Inl (HTTPException 400 ''already answered'')
       else
         let d1 = upd_record k (\<lambda>r. r\<lparr>er_objection_resolved_at := Some (now e),
                    er_objection_resolution := Some resolution,
                    er_objection_resolved_by := Some (cu_id u)\<rparr>) d;
             d2 = log_event e (cu_id u) ''evaluation_objection_resolved'' (Some k)
                    (Some (JObj [(''objection_reason'', json_opt JText (er_objection_reason r))]))
                    (Some (JObj [(''resolution'', JText resolution)])) d1
         in Inr (if subject_user_ids d2 r \<noteq> []
                 then notify e (subject_user_ids d2 r) ''evaluation_objection_resolved''
                   (lit ''Your objection to case '' @ lit (er_code r) @ lit '' was answered'') (Some k)
                   (Some ''/me'') d2
                 else d2))))"

section \<open>Reassigning a seat\<close>

definition seat_role :: "seat \<Rightarrow> user_role" where
  "seat_role s = (case s of seat_supervisor \<Rightarrow> unit_supervisor | seat_deputy \<Rightarrow> deputy | seat_ceo \<Rightarrow> ceo)"

definition seat_label :: "seat \<Rightarrow> string" where
  "seat_label s = (case s of seat_supervisor \<Rightarrow> ''unit supervisor'' | seat_deputy \<Rightarrow> ''deputy''
     | seat_ceo \<Rightarrow> ''chief executive'')"

definition seat_field :: "seat \<Rightarrow> string" where
  "seat_field s = (case s of seat_supervisor \<Rightarrow> ''unit_supervisor_user_id''
     | seat_deputy \<Rightarrow> ''deputy_user_id'' | seat_ceo \<Rightarrow> ''ceo_user_id'')"

definition record_seat :: "seat \<Rightarrow> evaluation_record \<Rightarrow> int option" where
  "record_seat s r = (case s of seat_supervisor \<Rightarrow> er_supervisor r | seat_deputy \<Rightarrow> er_deputy r
     | seat_ceo \<Rightarrow> Some (er_ceo r))"

definition set_seat :: "seat \<Rightarrow> int \<Rightarrow> evaluation_record \<Rightarrow> evaluation_record" where
  "set_seat s k r = (case s of seat_supervisor \<Rightarrow> r\<lparr>er_supervisor := Some k\<rparr>
     | seat_deputy \<Rightarrow> r\<lparr>er_deputy := Some k\<rparr> | seat_ceo \<Rightarrow> r\<lparr>er_ceo := k\<rparr>)"

definition reassign_stage_owner ::
  "env \<Rightarrow> current_user \<Rightarrow> int \<Rightarrow> seat \<Rightarrow> int \<Rightarrow> ustr \<Rightarrow> db \<Rightarrow> db result" where
  "reassign_stage_owner e u k s new reason d =
     bindE (require_roles [hr] u) (\<lambda>_.
     bindE (get_record_or_404 d k) (\<lambda>r.
       if \<not> is_open r then Inl (HTTPException 400 ''only an open case is reassigned'')
       else if record_seat s r = None then Inl (HTTPException 400 ''the case has no such stage'')
       else case get_user d new of
         None \<Rightarrow> Inl (HTTPException 400 ''the chosen user does not exist or is inactive'')
       | Some x \<Rightarrow>
          if \<not> u_is_active x then Inl (HTTPException 400 ''the chosen user does not exist or is inactive'')
          else if u_role x \<noteq> seat_role s then Inl (HTTPException 400 ''the user has another role'')
          else bindE (ensure_evaluators_are_not_the_subject d (er_subject r) [Some new]) (\<lambda>_.
            let r' = set_seat s new r in
            bindE (ensure_chain_stages_are_not_redundant (er_supervisor r') (er_deputy r')
                     (Some (er_ceo r'))) (\<lambda>_.
              let d1 = upd_record k (set_seat s new) d;
                  d2 = add_comment_row e k (cu_id u) None cm_hr_review
                         (lit ''Owner changed: '' @ lit (seat_label s) @ lit '', reason: '' @ reason) d1;
                  d3 = log_event e (cu_id u) ''stage_owner_reassigned'' (Some k)
                         (Some (JObj [(seat_field s, json_opt_int (record_seat s r))]))
                         (Some (JObj [(seat_field s, JInt new), (''reason'', JText reason)])) d2
              in Inr (notify_stage_owner_reassigned e r' (u_id x) (seat_label s) d3)))))"

section \<open>Comments\<close>

definition get_comment :: "db \<Rightarrow> int \<Rightarrow> evaluation_comment option" where
  "get_comment d = tbl_get ec_id (comments d)"

definition add_reply ::
  "env \<Rightarrow> current_user \<Rightarrow> evaluation_record \<Rightarrow> int \<Rightarrow> ustr \<Rightarrow> db \<Rightarrow> db result" where
  "add_reply e u r parent_id text d =
     bindE (ensure_can_view r u) (\<lambda>_.
     case get_comment d parent_id of
       None \<Rightarrow> Inl (HTTPException 404 ''parent comment not found'')
     | Some parent \<Rightarrow>
        if ec_record parent \<noteq> er_id r then Inl (HTTPException 404 ''parent comment not found'')
        else if ec_parent parent \<noteq> None then Inl (HTTPException 400 ''replies are one level deep'')
        else
          let d1 = add_comment_row e (er_id r) (cu_id u) (Some (ec_id parent)) (ec_stage parent) text d;
              d2 = log_event e (cu_id u) ''comment_reply_added'' (Some (er_id r)) None
                     (Some (JObj [(''parent_comment_id'', JInt (ec_id parent)),
                        (''stage'', JStr (comment_stage_value (ec_stage parent)))])) d1
          in Inr (if ec_commenter parent \<noteq> cu_id u
                  then notify e [ec_commenter parent] ''comment_reply_added''
                    (lit ''Your comment in case '' @ lit (er_code r) @ lit '' was answered'')
                    (Some (er_id r)) (Some (evaluation_link (er_id r))) d2
                  else d2))"

definition comment_stage_by_role ::
  "evaluation_record \<Rightarrow> user_role \<Rightarrow> (comment_stage \<times> evaluation_status \<times> int option) option" where
  "comment_stage_by_role r role = (case role of
     hr \<Rightarrow> Some (cm_hr_review, submitted, None)
   | deputy \<Rightarrow> Some (cm_deputy_review, hr_approved, er_deputy r)
   | ceo \<Rightarrow> Some (cm_ceo_final, deputy_approved, Some (er_ceo r))
   | _ \<Rightarrow> None)"

definition add_comment ::
  "env \<Rightarrow> current_user \<Rightarrow> int \<Rightarrow> ustr \<Rightarrow> int option \<Rightarrow> db \<Rightarrow> db result" where
  "add_comment e u k text parent d =
     bindE (get_record_or_404 d k) (\<lambda>r.
     case parent of
       Some p \<Rightarrow> add_reply e u r p text d
     | None \<Rightarrow>
        (case comment_stage_by_role r (cu_role u) of
           None \<Rightarrow> Inl (HTTPException 403 ''your role cannot comment'')
         | Some (stage, required, owner) \<Rightarrow>
            if er_status r \<noteq> required \<or> (owner \<noteq> None \<and> Some (cu_id u) \<noteq> owner)
            then Inl (HTTPException 403 ''you cannot comment at this stage'')
            else Inr (log_event e (cu_id u) ''comment_added'' (Some k) None
                   (Some (JObj [(''stage'', JStr (comment_stage_value stage))]))
                   (add_comment_row e k (cu_id u) None stage text d))))"

section \<open>The PDF endpoint\<close>

definition evaluation_summary_pdf ::
  "env \<Rightarrow> bool \<Rightarrow> current_user \<Rightarrow> int \<Rightarrow> db \<Rightarrow> (nat list \<times> db) result" where
  "evaluation_summary_pdf e available u k d =
     bindE (get_record_or_404 d k) (\<lambda>r.
       let is_subject = (cu_role u = employee \<and> cu_personnel_id u = Some (er_subject r)) in
       bindE (if is_subject then Inr ()
              else bindE (ensure_can_view r u) (\<lambda>_.
                require (cu_role u = hr) (HTTPException 403 ''only hr and the subject''))) (\<lambda>_.
         if er_status r \<noteq> finalized \<or> er_final_snapshot r = None
         then Inl (HTTPException 400 ''not finalized yet'')
         else if \<not> available then Inl (HTTPException 500 ''rendering is not available'')
         else
           let d1 = log_event e (cu_id u) ''pdf_downloaded'' (Some k) None
                 (Some (JObj [(''by_subject'', JBool is_subject)])) d
           in case archive_final_pdf e r d1 of
                (None, _) \<Rightarrow> Inl (HTTPException 500 ''rendering failed'')
              | (Some x, d2) \<Rightarrow> Inr (ed_pdf x, d2)))"

end
