(* ===== verification/CaseMachine.thy ===== *)
theory CaseMachine
  imports Evaluations
begin

text \<open>
  The life of a case as an abstract state machine, and the refinement lemma that every endpoint of
  \<open>routers/evaluations.py\<close> takes either no step or one step of it. The invariants of the chain are
  then rule inductions over the machine.
\<close>

section \<open>Requests\<close>

datatype request =
    CreateEvaluation int
  | UpsertScores int "score_row list"
  | SetEvaluatorComment int ustr
  | SetSpecialScore int rat "ustr option"
  | SubmitEvaluation int
  | ApproveAsHr int
  | ApproveAsDeputy int
  | FinalizeAsCeo int
  | ReturnEvaluation int ustr
  | CancelEvaluation int ustr
  | ExtendWindow int date ustr
  | ClaimHr int
  | HandoverHr int int ustr
  | ResolveObjection int ustr
  | Reassign int seat int ustr
  | AddComment int ustr "int option"

fun handle :: "env \<Rightarrow> current_user \<Rightarrow> request \<Rightarrow> db \<Rightarrow> db result" where
  "handle e u (CreateEvaluation p) d = bindE (create_evaluation e u p d) (\<lambda>s. Inr (snd s))"
| "handle e u (UpsertScores k xs) d = upsert_scores e u k xs d"
| "handle e u (SetEvaluatorComment k t) d = set_evaluator_comment e u k t d"
| "handle e u (SetSpecialScore k q t) d = set_special_score e u k q t d"
| "handle e u (SubmitEvaluation k) d = submit_evaluation e u k d"
| "handle e u (ApproveAsHr k) d = approve_as_hr e u k d"
| "handle e u (ApproveAsDeputy k) d = approve_as_deputy e u k d"
| "handle e u (FinalizeAsCeo k) d = ceo_finalize e u k d"
| "handle e u (ReturnEvaluation k t) d = return_evaluation e u k t d"
| "handle e u (CancelEvaluation k t) d = cancel_evaluation e u k t d"
| "handle e u (ExtendWindow k x t) d = extend_submission_window e u k x t d"
| "handle e u (ClaimHr k) d = hr_claim e u k d"
| "handle e u (HandoverHr k j t) d = hr_handover e u k j t d"
| "handle e u (ResolveObjection k t) d = resolve_objection e u k t d"
| "handle e u (Reassign k s j t) d = reassign_stage_owner e u k s j t d"
| "handle e u (AddComment k t p) d = add_comment e u k t p d"

text \<open>A request that raises is rolled back.\<close>

definition serve :: "env \<Rightarrow> current_user \<times> request \<Rightarrow> db \<Rightarrow> db" where
  "serve e c d = committed d (handle e (fst c) (snd c) d)"

section \<open>The machine\<close>

text \<open>\<open>sits p j\<close> is the segregation rule: user \<open>j\<close> may take a seat in the case of person \<open>p\<close>.\<close>

text \<open>What every step of an existing case keeps: its identity and what it was stamped with.\<close>

definition same_stamp :: "evaluation_record \<Rightarrow> evaluation_record \<Rightarrow> bool" where
  "same_stamp r r' \<longleftrightarrow> er_id r' = er_id r \<and> er_code r' = er_code r \<and> er_subject r' = er_subject r \<and>
     er_scheme r' = er_scheme r \<and> er_framework r' = er_framework r \<and> er_period r' = er_period r \<and>
     er_contract_start r' = er_contract_start r \<and> er_created_at r' = er_created_at r"

definition same_chain :: "evaluation_record \<Rightarrow> evaluation_record \<Rightarrow> bool" where
  "same_chain r r' \<longleftrightarrow> er_supervisor r' = er_supervisor r \<and> er_deputy r' = er_deputy r \<and>
     er_ceo r' = er_ceo r"

definition same_result :: "evaluation_record \<Rightarrow> evaluation_record \<Rightarrow> bool" where
  "same_result r r' \<longleftrightarrow> er_base_pct r' = er_base_pct r \<and> er_general_pct r' = er_general_pct r \<and>
     er_specialized_pct r' = er_specialized_pct r \<and> er_final_pct r' = er_final_pct r \<and>
     er_recommendation r' = er_recommendation r \<and> er_bonus_points r' = er_bonus_points r"

definition is_submit :: "action \<Rightarrow> bool" where
  "is_submit a \<longleftrightarrow> a \<in> {Submit, ManagerSubmit, DirectCeoSubmit}"

text \<open>The actions the endpoints choose on the path of a case.\<close>

definition on_path :: "evaluation_record \<Rightarrow> action \<Rightarrow> bool" where
  "on_path r a \<longleftrightarrow> (is_submit a \<longrightarrow> a = submit_action r) \<and>
     (a \<in> {HrApprove, HrApproveManager, HrFinalizeDirectCeo} \<longrightarrow> a = hr_approve_action r) \<and>
     (a = DeputyReturn \<longrightarrow> \<not> is_manager_path r)"

inductive case_step ::
  "env \<Rightarrow> (int \<Rightarrow> int \<Rightarrow> bool) \<Rightarrow> current_user \<Rightarrow> evaluation_record \<Rightarrow> evaluation_record \<Rightarrow> bool"
  for e :: env and sits :: "int \<Rightarrow> int \<Rightarrow> bool" and u :: current_user where
  move: "\<lbrakk>ensure_transition_allowed r a u = Inr (transition_of a); on_path r a;
      er_status r' = tr_to (transition_of a);
      er_hr r' = (if actor_seat a = Some as_hr then Some (cu_id u) else er_hr r);
      same_chain r r'; same_stamp r r'; \<not> is_submit a \<longrightarrow> same_result r r';
      tr_to (transition_of a) = finalized \<longrightarrow>
        er_final_pct r \<noteq> None \<and> er_final_snapshot r' \<noteq> None \<and> er_finalized_at r' \<noteq> None;
      is_submit a \<longrightarrow> er_final_pct r' \<noteq> None \<and> er_bonus_points r' = er_bonus_points r\<rbrakk>
    \<Longrightarrow> case_step e sits u r r'"
| remark: "\<lbrakk>is_the_scorer r u; r' = r\<lparr>er_evaluator_comment := Some t\<rparr>\<rbrakk> \<Longrightarrow> case_step e sits u r r'"
| reward: "\<lbrakk>is_the_scorer r u; 0 \<le> q;
      r' = r\<lparr>er_bonus_points := Some (numeric_col e 2 q), er_bonus_reason := t\<rparr>\<rbrakk>
    \<Longrightarrow> case_step e sits u r r'"
| extend: "\<lbrakk>cu_role u = hr; er_status r = draft;
      r' = r\<lparr>er_extended_until := Some x, er_extended_at := Some (now e),
             er_extended_by := Some (cu_id u), er_extension_reason := Some t\<rparr>\<rbrakk>
    \<Longrightarrow> case_step e sits u r r'"
| own: "\<lbrakk>cu_role u = hr; is_open r; cu_personnel_id u \<noteq> Some (er_subject r);
      er_hr r = None \<and> j = cu_id u \<or> er_hr r \<noteq> Some j; r' = r\<lparr>er_hr := Some j\<rparr>\<rbrakk>
    \<Longrightarrow> case_step e sits u r r'"
| seat: "\<lbrakk>cu_role u = hr; is_open r; record_seat s r \<noteq> None; sits (er_subject r) j;
      r' = set_seat s j r; chain_ok (er_supervisor r') (er_deputy r') (Some (er_ceo r'))\<rbrakk> \<Longrightarrow> case_step e sits u r r'"
| answer: "\<lbrakk>cu_role u = hr; er_objection_at r \<noteq> None; er_objection_resolved_at r = None;
      r' = r\<lparr>er_objection_resolved_at := Some (now e), er_objection_resolution := Some t,
             er_objection_resolved_by := Some (cu_id u)\<rparr>\<rbrakk> \<Longrightarrow> case_step e sits u r r'"

inductive_cases case_stepE: "case_step e sits u r r'"

lemma same_refl [simp]: "same_stamp r r" "same_chain r r" "same_result r r"
  by (simp_all add: same_stamp_def same_chain_def same_result_def)

section \<open>Invariants of the machine\<close>

text \<open>A case on the manager path skips the deputy's review, a direct case skips both middle stages.\<close>

definition path_ok :: "evaluation_record \<Rightarrow> bool" where
  "path_ok r \<longleftrightarrow> (is_manager_path r \<longrightarrow> er_status r \<noteq> hr_approved) \<and>
     (is_direct_ceo_path r \<longrightarrow> er_status r \<noteq> deputy_approved)"

lemma step_terminal:
  "case_step e sits u r r' \<Longrightarrow> \<not> is_open r \<Longrightarrow> er_status r' = er_status r"
proof (induction rule: case_step.induct)
  case (move r a r')
  then show ?case by (auto simp: guard_simps is_open_iff dest: from_open)
qed (simp_all add: is_open_def OPEN_STATUSES_def)

lemma step_path: "case_step e sits u r r' \<Longrightarrow> path_ok r \<Longrightarrow> path_ok r'"
proof (induction rule: case_step.induct)
  case (move r a r')
  have "is_manager_path r' = is_manager_path r" "is_direct_ceo_path r' = is_direct_ceo_path r"
    using move(5) by (simp_all add: same_chain_def is_manager_path_def is_direct_ceo_path_def)
  with move show ?case
    by (cases a) (auto simp: path_ok_def guard_simps transition_of_def on_path_def hr_approve_action_def
        submit_action_def is_manager_path_def is_direct_ceo_path_def split: if_splits)
next
  case (seat r s r' j)
  then show ?case
    by (cases s) (auto simp: path_ok_def set_seat_def record_seat_def is_manager_path_def
        is_direct_ceo_path_def)
qed (simp_all add: path_ok_def is_manager_path_def is_direct_ceo_path_def)

lemma step_stamp: "case_step e sits u r r' \<Longrightarrow> same_stamp r r'"
  by (induction rule: case_step.induct) (auto simp: same_stamp_def set_seat_def split: seat.split)

lemma step_chain_ok:
  "case_step e sits u r r' \<Longrightarrow> chain_ok (er_supervisor r) (er_deputy r) (Some (er_ceo r)) \<Longrightarrow>
     chain_ok (er_supervisor r') (er_deputy r') (Some (er_ceo r'))"
  by (induction rule: case_step.induct) (auto simp: same_chain_def)

text \<open>Past the scoring stage the result does not change, whoever acts.\<close>

lemma step_result:
  "case_step e sits u r r' \<Longrightarrow> er_status r \<noteq> draft \<Longrightarrow> same_result r r'"
proof (induction rule: case_step.induct)
  case (move r a r')
  then show ?case
    by (cases a) (auto simp: guard_simps transition_of_def is_submit_def)
qed (auto simp: same_result_def set_seat_def is_the_scorer_def split: seat.split)

definition has_result :: "evaluation_record \<Rightarrow> bool" where
  "has_result r \<longleftrightarrow> (er_status r \<noteq> draft \<and> er_status r \<noteq> cancelled \<longrightarrow> er_final_pct r \<noteq> None) \<and>
     (er_status r = finalized \<longrightarrow> er_final_snapshot r \<noteq> None \<and> er_finalized_at r \<noteq> None)"

lemma step_has_result: "case_step e sits u r r' \<Longrightarrow> has_result r \<Longrightarrow> has_result r'"
proof (induction rule: case_step.induct)
  case (move r a r')
  then show ?case
    by (cases a) (auto simp: has_result_def guard_simps transition_of_def is_submit_def same_result_def)
qed (auto simp: has_result_def set_seat_def split: seat.split)

section \<open>Effects on the session\<close>

text \<open>The tables that no request of this router writes, except for the question lists at creation.\<close>

definition static :: "db \<Rightarrow> user list \<times> personnel list \<times> evaluation_access list \<times>
    evaluation_period list \<times> scoring_scheme list \<times> indicator list \<times> contract_assessment list \<times>
    contract_assessment_score list \<times> user_capability list \<times> module_setting list" where
  "static d = (users d, personnels d, accesses d, periods d, schemes d, indicators d, assessments d,
     assessment_scores d, capabilities d, modules d)"

definition row_step :: "db \<Rightarrow> db \<Rightarrow> int \<Rightarrow> evaluation_record \<Rightarrow> bool" where
  "row_step d d' k r' \<longleftrightarrow> (\<forall>j. get_record d' j = (if j = k then Some r' else get_record d j)) \<and>
     static d' = static d \<and> frameworks d' = frameworks d \<and>
     map er_id (records d') = map er_id (records d)"

text \<open>An operation that leaves the cases and the static tables alone.\<close>

definition quiet_step :: "db \<Rightarrow> db \<Rightarrow> bool" where
  "quiet_step d d' \<longleftrightarrow> records d' = records d \<and> static d' = static d \<and> frameworks d' = frameworks d"

lemma quiet_step_refl [simp, intro]: "quiet_step d d"
  by (simp add: quiet_step_def)

lemma quiet_step_trans [trans]: "quiet_step a b \<Longrightarrow> quiet_step b c \<Longrightarrow> quiet_step a c"
  by (simp add: quiet_step_def)

lemma quiet_log [intro]: "quiet_step d d1 \<Longrightarrow> quiet_step d (log_event e a t r x y d1)"
  by (simp add: quiet_step_def static_def frame_simps)

lemma quiet_comment [intro]: "quiet_step d d1 \<Longrightarrow> quiet_step d (add_comment_row e k b p s t d1)"
  by (simp add: quiet_step_def static_def add_comment_row_def)

lemma quiet_notices: "notices_only d1 d2 \<Longrightarrow> quiet_step d d1 \<Longrightarrow> quiet_step d d2"
  by (simp add: quiet_step_def static_def notices_only_tables)

lemmas quiet_notify [intro] =
  quiet_notices [OF notify_only]
  quiet_notices [OF workflow_notice_only]
  quiet_notices [OF reassigned_notice_only]

lemma quiet_extension_notice [intro]: "quiet_step d d1 \<Longrightarrow> quiet_step d (extension_notice e r x d1)"
  by (auto simp: extension_notice_def Let_def split: option.split)

lemma quiet_archive [intro]: "quiet_step d d1 \<Longrightarrow> quiet_step d (archive_final_pdf_detached e k d1)"
  by (auto simp: quiet_step_def static_def archive_final_pdf_detached_def archive_final_pdf_def Let_def
      split: option.split)

lemma row_quiet: "row_step d d1 k r \<Longrightarrow> quiet_step d1 d2 \<Longrightarrow> row_step d d2 k r"
  by (simp add: row_step_def quiet_step_def get_record_def)

lemma row_step_upd:
  assumes "get_record d k = Some r" and "\<And>r. er_id (f r) = er_id r"
  shows "row_step d (upd_record k f d) k (f r)"
  using assms
  by (simp add: row_step_def record_st.row_upd static_def frame_simps)
    (simp add: upd_record_def tbl_upd_keys)

lemma row_step_trans: "row_step d d1 k r1 \<Longrightarrow> row_step d1 d2 k r2 \<Longrightarrow> row_step d d2 k r2"
  by (simp add: row_step_def)

lemma row_step_refl: "get_record d k = Some r \<Longrightarrow> row_step d d k r"
  by (simp add: row_step_def)

section \<open>The hooks\<close>

definition claimed :: "current_user \<Rightarrow> action \<Rightarrow> evaluation_record \<Rightarrow> evaluation_record" where
  "claimed u a r = (if actor_seat a = Some as_hr \<and> er_hr r = None then r\<lparr>er_hr := Some (cu_id u)\<rparr> else r)"

lemma claim_row:
  assumes "get_record d k = Some r" and "er_id r = k"
  shows "row_step d (claim e (transition_of a) r u d) k (claimed u a r)"
  using assms
  by (auto simp: claim_def claimed_def tr_assignee_seat tr_claimable_iff
      intro!: row_step_refl
      row_quiet [OF row_step_upd [where f = "\<lambda>r. r\<lparr>er_hr := Some (cu_id u)\<rparr>"]])

text \<open>
  A hook on case \<open>k\<close>: it writes that row only, and what it does to it is described by \<open>Q\<close>.
\<close>

definition hook_spec ::
  "(db \<Rightarrow> db result) \<Rightarrow> int \<Rightarrow> (evaluation_record \<Rightarrow> evaluation_record \<Rightarrow> bool) \<Rightarrow> bool" where
  "hook_spec hook k Q \<longleftrightarrow> (\<forall>d r d2. get_record d k = Some r \<longrightarrow> hook d = Inr d2 \<longrightarrow>
     (\<exists>r2. row_step d d2 k r2 \<and> Q r r2))"

lemma apply_transition_step:
  assumes run: "apply_transition e r a u hook d = Inr d'" and r: "get_record d k = Some r"
    and hook: "hook_spec hook k Q"
  obtains r2 where "row_step d d' k (enter_stage e (tr_to (transition_of a)) r2)"
    and "Q (claimed u a r) r2"
    and "ensure_transition_allowed r a u = Inr (transition_of a)"
    and "tr_to (transition_of a) = finalized \<longrightarrow> er_final_pct r \<noteq> None \<and> scores_of d k \<noteq> []"
proof -
  have k: "er_id r = k" using record_st.row_key [OF r] .
  let ?t = "transition_of a"
  obtain d2 where h: "hook (claim e ?t r u d) = Inr d2"
    and allowed: "ensure_transition_allowed r a u = Inr ?t"
    and fin: "tr_to ?t = finalized \<longrightarrow> er_final_pct r \<noteq> None \<and> scores_of d k \<noteq> []"
    and d': "d' = (let d4 = log_event e (cu_id u) ''status_changed'' (Some k)
               (Some (status_json (er_status r))) (Some (status_json (tr_to ?t)))
               (upd_record k (enter_stage e (tr_to ?t)) d2)
         in (case get_record d4 k of None \<Rightarrow> d4 | Some r' \<Rightarrow> notify_for_workflow_action e r' a d4))"
    using run unfolding apply_transition_Inr k Let_def by blast
  have c: "row_step d (claim e ?t r u d) k (claimed u a r)" by (rule claim_row [OF r k])
  then have "get_record (claim e ?t r u d) k = Some (claimed u a r)" by (simp add: row_step_def)
  then obtain r2 where r2: "row_step (claim e ?t r u d) d2 k r2" and q: "Q (claimed u a r) r2"
    using hook h unfolding hook_spec_def by blast
  have "row_step d d2 k r2" by (rule row_step_trans [OF c r2])
  moreover have "row_step d2 (upd_record k (enter_stage e (tr_to ?t)) d2) k (enter_stage e (tr_to ?t) r2)"
    using r2 by (intro row_step_upd) (simp_all add: row_step_def)
  ultimately have "row_step d (upd_record k (enter_stage e (tr_to ?t)) d2) k (enter_stage e (tr_to ?t) r2)"
    by (rule row_step_trans)
  then have "row_step d d' k (enter_stage e (tr_to ?t) r2)"
    by (rule row_quiet) (auto simp: d' Let_def split: option.split)
  then show thesis using that q allowed fin by blast
qed

definition only_result :: "evaluation_record \<Rightarrow> evaluation_record \<Rightarrow> bool" where
  "only_result r r2 \<longleftrightarrow> same_stamp r r2 \<and> same_chain r r2 \<and> er_hr r2 = er_hr r \<and>
     er_final_pct r2 \<noteq> None \<and> er_bonus_points r2 = er_bonus_points r"

definition only_final :: "evaluation_record \<Rightarrow> evaluation_record \<Rightarrow> bool" where
  "only_final r r2 \<longleftrightarrow> same_stamp r r2 \<and> same_chain r r2 \<and> er_hr r2 = er_hr r \<and>
     er_final_snapshot r2 \<noteq> None \<and> er_finalized_at r2 \<noteq> None \<and> same_result r r2"

lemma no_hook_spec: "hook_spec no_hook k (=)"
  by (auto simp: hook_spec_def no_hook_def intro: row_step_refl)

lemma remark_hook_spec:
  "hook_spec (\<lambda>d. Inr (log_event e a t r x y (add_comment_row e' k' b p s w d))) k (=)"
  by (auto simp: hook_spec_def intro!: row_quiet [OF row_step_refl])

lemma scoring_hook_spec: "hook_spec (on_record k (\<lambda>r. finalize_scoring e r u)) k only_result"
proof -
  have "\<exists>r2. row_step d d2 k r2 \<and> only_result r r2"
    if r: "get_record d k = Some r" and h: "on_record k (\<lambda>r. finalize_scoring e r u) d = Inr d2" for d r d2
  proof -
    have id: "er_id r = k" using record_st.row_key [OF r] .
    obtain c x where d2: "d2 = log_event e (cu_id u) ''score_submitted'' (Some k) None x
        (upd_record k (store_result e c) d)"
      using h r id by (auto simp: on_record_def finalize_scoring_def Let_def bindE_Inr_iff
          split: if_splits sum.splits)
    have "row_step d (upd_record k (store_result e c) d) k (store_result e c r)"
      by (rule row_step_upd [OF r]) (simp add: store_result_def)
    then have "row_step d d2 k (store_result e c r)"
      unfolding d2 by (rule row_quiet) auto
    moreover have "only_result r (store_result e c r)"
      by (simp add: only_result_def store_result_def same_stamp_def same_chain_def)
    ultimately show ?thesis by blast
  qed
  then show ?thesis by (auto simp: hook_spec_def)
qed

lemma finalize_hook_spec: "hook_spec (finalize_hook e k) k only_final"
proof -
  have "\<exists>r2. row_step d d2 k r2 \<and> only_final r r2"
    if r: "get_record d k = Some r" and h: "finalize_hook e k d = Inr d2" for d r d2
  proof -
    let ?r1 = "r\<lparr>er_finalized_at := Some (now e)\<rparr>"
    let ?d1 = "upd_record k (\<lambda>r. r\<lparr>er_finalized_at := Some (now e)\<rparr>) d"
    have s1: "row_step d ?d1 k ?r1" by (rule row_step_upd [OF r]) simp
    then have g1: "get_record ?d1 k = Some ?r1" by (simp add: row_step_def)
    obtain snap where d2: "d2 = upd_record k (\<lambda>r. r\<lparr>er_final_snapshot := Some snap,
        er_verify_token := Some (token e)\<rparr>) ?d1"
      using h g1 by (auto simp: finalize_hook_def on_record_def bindE_Inr_iff Let_def)
    have "row_step ?d1 d2 k (?r1\<lparr>er_final_snapshot := Some snap, er_verify_token := Some (token e)\<rparr>)"
      unfolding d2 by (rule row_step_upd [OF g1]) simp
    with s1 have "row_step d d2 k (?r1\<lparr>er_final_snapshot := Some snap, er_verify_token := Some (token e)\<rparr>)"
      by (rule row_step_trans)
    moreover have "only_final r (?r1\<lparr>er_final_snapshot := Some snap, er_verify_token := Some (token e)\<rparr>)"
      by (simp add: only_final_def same_stamp_def same_chain_def same_result_def)
    ultimately show ?thesis by blast
  qed
  then show ?thesis by (auto simp: hook_spec_def)
qed

section \<open>Every endpoint refines the machine\<close>

text \<open>The effect of a request on one existing case.\<close>

definition may_sit :: "db \<Rightarrow> int \<Rightarrow> int \<Rightarrow> bool" where
  "may_sit d pid j \<longleftrightarrow> \<not> own_evaluator d pid [Some j]"

definition effect :: "env \<Rightarrow> current_user \<Rightarrow> db \<Rightarrow> db \<Rightarrow> bool" where
  "effect e u d d' \<longleftrightarrow> (\<exists>k r r'. get_record d k = Some r \<and> row_step d d' k r' \<and>
     (r' = r \<or> case_step e (may_sit d) u r r'))"

lemma effect_stay: "get_record d k = Some r \<Longrightarrow> quiet_step d d' \<Longrightarrow> effect e u d d'"
  unfolding effect_def using row_quiet [OF row_step_refl] by blast

lemma effect_quiet: "effect e u d d1 \<Longrightarrow> quiet_step d1 d2 \<Longrightarrow> effect e u d d2"
  unfolding effect_def using row_quiet by blast

lemma effect_row:
  assumes "get_record d k = Some r" and "case_step e (may_sit d) u r (f r)" and "\<And>r. er_id (f r) = er_id r"
    and "quiet_step (upd_record k f d) d'"
  shows "effect e u d d'"
proof -
  have "row_step d d' k (f r)" by (rule row_quiet [OF row_step_upd [OF assms(1,3)] assms(4)])
  then show ?thesis using assms(1,2) by (auto simp: effect_def)
qed

lemma get_or_404_Inr [guard_simps]: "get_record_or_404 d k = Inr r \<longleftrightarrow> get_record d k = Some r"
  by (auto simp: get_record_or_404_def split: option.split)

lemma upsert_scores_effect:
  assumes "upsert_scores e u k xs d = Inr d'"
  shows "effect e u d d'"
proof -
  obtain r x where r: "get_record d k = Some r" and
    d': "d' = log_event e (cu_id u) ''scores_draft_saved'' (Some k) None x
      (fold (add_score (er_id r)) xs (d\<lparr>scores := filter (\<lambda>s. es_record s \<noteq> er_id r) (scores d)\<rparr>))"
    using assms
    by (auto simp: upsert_scores_def bindE_Inr_iff guard_simps replace_scores_def split: if_splits)
  have "quiet_step d (fold (add_score j) xs d0)" if "quiet_step d d0" for j d0
    using that by (induction xs arbitrary: d0) (simp_all add: quiet_step_def static_def add_score_def)
  moreover have "quiet_step d (d\<lparr>scores := z\<rparr>)" for z by (simp add: quiet_step_def static_def)
  ultimately have "quiet_step d d'" by (auto simp: d')
  with r show ?thesis by (rule effect_stay)
qed

lemma evaluator_comment_effect:
  "set_evaluator_comment e u k t d = Inr d' \<Longrightarrow> effect e u d d'"
  by (auto simp: set_evaluator_comment_def bindE_Inr_iff guard_simps split: if_splits
      intro!: effect_row case_step.remark)

lemma validate_bonus_Inr:
  "validate_bonus q reason r = Inr x \<Longrightarrow> 0 \<le> q"
  by (auto simp: validate_bonus_def split: if_splits)

lemma special_score_effect:
  assumes "set_special_score e u k q t d = Inr d'"
  shows "effect e u d d'"
proof -
  obtain r w x y where r: "get_record d k = Some r" and scorer: "is_the_scorer r u" and q: "0 \<le> q"
    and d': "d' = log_event e (cu_id u) ''special_score_set'' (Some k) x y
      (upd_record k (\<lambda>r. r\<lparr>er_bonus_points := Some (numeric_col e 2 q), er_bonus_reason := w\<rparr>) d)"
    using assms
    by (auto simp: set_special_score_def bindE_Inr_iff guard_simps Let_def split: if_splits sum.splits
        dest!: validate_bonus_Inr)
  show ?thesis
    by (rule effect_row [OF r, where f = "\<lambda>r. r\<lparr>er_bonus_points := Some (numeric_col e 2 q),
          er_bonus_reason := w\<rparr>"])
      (auto simp: d' intro: case_step.reward [OF scorer q])
qed

text \<open>A transition through a hook that keeps what it must is a \<open>move\<close> of the machine.\<close>

lemma claimed_sel [simp]:
  "same_stamp r (claimed u a r)" "same_chain r (claimed u a r)" "same_result r (claimed u a r)"
  "er_status (claimed u a r) = er_status r" "er_id (claimed u a r) = er_id r"
  "er_bonus_points (claimed u a r) = er_bonus_points r"
  by (simp_all add: claimed_def same_stamp_def same_chain_def same_result_def)

lemma claimed_hr:
  assumes "ensure_transition_allowed r a u = Inr (transition_of a)"
  shows "er_hr (claimed u a r) = (if actor_seat a = Some as_hr then Some (cu_id u) else er_hr r)"
  using assms
  by (auto simp: guard_simps owns_stage_def claimed_def tr_assignee_seat tr_claimable_iff assignee_of_def)

lemma same_trans:
  "same_stamp a b \<Longrightarrow> same_stamp b c \<Longrightarrow> same_stamp a c"
  "same_chain a b \<Longrightarrow> same_chain b c \<Longrightarrow> same_chain a c"
  "same_result a b \<Longrightarrow> same_result b c \<Longrightarrow> same_result a c"
  by (simp_all add: same_stamp_def same_chain_def same_result_def)

lemma enter_stage_same [simp]:
  "same_stamp r (enter_stage e s r)" "same_chain r (enter_stage e s r)" "same_result r (enter_stage e s r)"
  "er_bonus_points (enter_stage e s r) = er_bonus_points r"
  by (simp_all add: enter_stage_def same_stamp_def same_chain_def same_result_def)

lemma transition_effect:
  assumes run: "apply_transition e r a u hook d = Inr d'" and r: "get_record d k = Some r"
    and path: "on_path r a" and hook: "hook_spec hook k Q"
    and q: "\<And>x y. Q x y \<Longrightarrow> same_stamp x y \<and> same_chain x y \<and> er_hr y = er_hr x \<and>
      (\<not> is_submit a \<longrightarrow> same_result x y) \<and>
      (tr_to (transition_of a) = finalized \<longrightarrow> er_final_snapshot y \<noteq> None \<and> er_finalized_at y \<noteq> None) \<and>
      (is_submit a \<longrightarrow> er_final_pct y \<noteq> None \<and> er_bonus_points y = er_bonus_points x)"
  shows "effect e u d d'"
proof -
  let ?t = "transition_of a"
  obtain r2 where step: "row_step d d' k (enter_stage e (tr_to ?t) r2)" and r2: "Q (claimed u a r) r2"
    and allowed: "ensure_transition_allowed r a u = Inr ?t"
    and fin: "tr_to ?t = finalized \<longrightarrow> er_final_pct r \<noteq> None \<and> scores_of d k \<noteq> []"
    by (rule apply_transition_step [OF run r hook])
  note Q = q [OF r2]
  have "er_finalized_at (enter_stage e s r2) \<noteq> None" if "er_finalized_at r2 \<noteq> None" for s
    using that by (simp add: enter_stage_def)
  moreover have "same_stamp r (enter_stage e (tr_to ?t) r2)" "same_chain r (enter_stage e (tr_to ?t) r2)"
    "\<not> is_submit a \<longrightarrow> same_result r (enter_stage e (tr_to ?t) r2)"
    using Q same_trans claimed_sel enter_stage_same by metis+
  ultimately have "case_step e (may_sit d) u r (enter_stage e (tr_to ?t) r2)"
    using Q fin allowed
    by (intro case_step.move [OF allowed path]) (simp_all add: claimed_hr [OF allowed])
  with r step show ?thesis by (auto simp: effect_def)
qed

lemma on_path_simps [simp]:
  "on_path r (submit_action r)" "on_path r (hr_approve_action r)"
  "on_path r DeputyApprove" "on_path r CeoFinalize" "on_path r HrReturn" "on_path r CeoReturn"
  "on_path r CeoReturnManager" "on_path r Cancel"
  by (simp_all add: on_path_def submit_action_def hr_approve_action_def is_submit_def)

lemma submit_action_facts:
  "is_submit (submit_action r)" "tr_to (transition_of (submit_action r)) = submitted"
  by (simp_all add: submit_action_def is_submit_def transition_of_def)

lemma submit_effect:
  assumes "submit_evaluation e u k d = Inr d'"
  shows "effect e u d d'"
proof -
  obtain r where r: "get_record d k = Some r"
    and run: "apply_transition e r (submit_action r) u (on_record k (\<lambda>r. finalize_scoring e r u)) d = Inr d'"
    using assms by (auto simp: submit_evaluation_def bindE_Inr_iff guard_simps)
  show ?thesis
    by (rule transition_effect [OF run r _ scoring_hook_spec])
      (auto simp: only_result_def submit_action_facts)
qed

lemma approve_as_hr_effect:
  assumes "approve_as_hr e u k d = Inr d'"
  shows "effect e u d d'"
proof -
  obtain r d1 where r: "get_record d k = Some r"
    and run: "apply_transition e r (hr_approve_action r) u
      (if is_direct_ceo_path r then finalize_hook e k else no_hook) d = Inr d1"
    and d': "d' = (if is_direct_ceo_path r then archive_final_pdf_detached e k d1 else d1)"
    using assms by (auto simp: approve_as_hr_def bindE_Inr_iff guard_simps)
  have nosub: "\<not> is_submit (hr_approve_action r)"
    by (simp add: hr_approve_action_def is_submit_def)
  have "effect e u d d1"
  proof (cases "is_direct_ceo_path r")
    case True
    then show ?thesis
      using run nosub
      by (intro transition_effect [OF _ r _ finalize_hook_spec [of e k]]) (auto simp: only_final_def)
  next
    case False
    then have "tr_to (transition_of (hr_approve_action r)) \<noteq> finalized"
      by (simp add: hr_approve_action_def transition_of_def)
    then show ?thesis
      using run False nosub
      by (intro transition_effect [OF _ r _ no_hook_spec [of k]]) auto
  qed
  then show ?thesis by (rule effect_quiet) (auto simp: d')
qed

lemma approve_as_deputy_effect: "approve_as_deputy e u k d = Inr d' \<Longrightarrow> effect e u d d'"
  unfolding approve_as_deputy_def bindE_Inr_iff guard_simps
  by (elim exE conjE, erule transition_effect [OF _ _ _ no_hook_spec])
    (auto simp: is_submit_def transition_of_def)

lemma ceo_finalize_effect:
  assumes "ceo_finalize e u k d = Inr d'"
  shows "effect e u d d'"
proof -
  obtain r d1 where r: "get_record d k = Some r"
    and run: "apply_transition e r CeoFinalize u (finalize_hook e k) d = Inr d1"
    and d': "d' = archive_final_pdf_detached e k d1"
    using assms by (auto simp: ceo_finalize_def bindE_Inr_iff guard_simps)
  have "effect e u d d1"
    by (rule transition_effect [OF run r _ finalize_hook_spec]) (auto simp: only_final_def is_submit_def)
  then show ?thesis by (rule effect_quiet) (auto simp: d')
qed

lemma return_run:
  assumes "return_evaluation e u k t d = Inr d'"
  obtains r a where "get_record d k = Some r"
    and "apply_transition e r a u (\<lambda>d. Inr (log_event e (cu_id u) ''evaluation_returned'' (Some k) None
      (Some (JObj [(''reason'', JText t)]))
      (add_comment_row e k (cu_id u) None (snd (return_action_by_role (cu_role u)))
        (lit ''Case returned, reason: '' @ t) d))) d = Inr d'"
    and "a \<in> {HrReturn, DeputyReturn, CeoReturn, CeoReturnManager}" and "on_path r a"
proof -
  obtain r where r: "get_record d k = Some r"
    using assms by (auto simp: return_evaluation_def bindE_Inr_iff guard_simps)
  define a0 where "a0 = fst (return_action_by_role (cu_role u))"
  define a where "a = (if a0 = CeoReturn \<and> is_manager_path r then CeoReturnManager else a0)"
  have a0: "a0 \<in> {HrReturn, DeputyReturn, CeoReturn}"
    by (cases "cu_role u") (simp_all add: a0_def return_action_by_role_def)
  have run: "apply_transition e r a u (\<lambda>d. Inr (log_event e (cu_id u) ''evaluation_returned'' (Some k) None
      (Some (JObj [(''reason'', JText t)]))
      (add_comment_row e k (cu_id u) None (snd (return_action_by_role (cu_role u)))
        (lit ''Case returned, reason: '' @ t) d))) d = Inr d'"
    and dep: "\<not> (a = DeputyReturn \<and> is_manager_path r)"
    using assms r
    by (auto simp: return_evaluation_def bindE_Inr_iff guard_simps Let_def split_beta a0_def a_def
        split: if_splits)
  have "on_path r a" and "a \<in> {HrReturn, DeputyReturn, CeoReturn, CeoReturnManager}"
    using a0 dep by (auto simp: a_def on_path_def is_submit_def)
  then show thesis using r run that by blast
qed

lemma return_effect:
  assumes "return_evaluation e u k t d = Inr d'"
  shows "effect e u d d'"
  using assms
  by (rule return_run, intro transition_effect [OF _ _ _ remark_hook_spec])
    (auto simp: is_submit_def transition_of_def)

lemma cancel_effect: "cancel_evaluation e u k t d = Inr d' \<Longrightarrow> effect e u d d'"
  unfolding cancel_evaluation_def bindE_Inr_iff guard_simps
  by (elim exE conjE, erule transition_effect [OF _ _ _ remark_hook_spec])
    (auto simp: is_submit_def transition_of_def)

lemma extend_effect:
  assumes "extend_submission_window e u k x t d = Inr d'"
  shows "effect e u d d'"
proof -
  let ?f = "\<lambda>r. r\<lparr>er_extended_until := Some x, er_extended_at := Some (now e),
    er_extended_by := Some (cu_id u), er_extension_reason := Some t\<rparr>"
  obtain r where r: "get_record d k = Some r" and st: "er_status r = draft" and hr: "cu_role u = hr"
    and q: "quiet_step (upd_record k ?f d) d'"
    using assms
    by (auto simp: extend_submission_window_def bindE_Inr_iff guard_simps Let_def EXTENDABLE_STATUSES_def
        split: if_splits)
  show ?thesis
    by (rule effect_row [OF r case_step.extend [OF hr st refl] _ q]) simp
qed

lemma claim_effect:
  assumes "hr_claim e u k d = Inr d'"
  shows "effect e u d d'"
proof -
  let ?f = "\<lambda>r. r\<lparr>er_hr := Some (cu_id u)\<rparr>"
  obtain r where r: "get_record d k = Some r" and op: "is_open r" and hr: "cu_role u = hr"
    and own: "cu_personnel_id u \<noteq> Some (er_subject r)" and free: "er_hr r = None"
    and q: "quiet_step (upd_record k ?f d) d'"
    using assms by (auto simp: hr_claim_def bindE_Inr_iff guard_simps split: if_splits)
  show ?thesis
    by (rule effect_row [OF r case_step.own [OF hr op own _ refl] _ q]) (use free in simp_all)
qed

lemma handover_effect:
  assumes "hr_handover e u k j t d = Inr d'"
  shows "effect e u d d'"
proof -
  obtain x where x: "get_user d j = Some x"
    using assms by (auto simp: hr_handover_def bindE_Inr_iff split: if_splits option.splits)
  have id: "u_id x = j" by (rule user_st.row_key [OF x])
  obtain r where r: "get_record d k = Some r" and op: "is_open r" and hr: "cu_role u = hr"
    and own: "cu_personnel_id u \<noteq> Some (er_subject r)" and other: "er_hr r \<noteq> Some j"
    and q: "quiet_step (upd_record k (\<lambda>r. r\<lparr>er_hr := Some j\<rparr>) d) d'"
    using assms x id
    by (auto simp: hr_handover_def bindE_Inr_iff guard_simps Let_def split: if_splits)
  show ?thesis
    by (rule effect_row [OF r case_step.own [OF hr op own _ refl] _ q]) (use other in simp_all)
qed

lemma resolve_effect:
  assumes "resolve_objection e u k t d = Inr d'"
  shows "effect e u d d'"
proof -
  let ?f = "\<lambda>r. r\<lparr>er_objection_resolved_at := Some (now e), er_objection_resolution := Some t,
    er_objection_resolved_by := Some (cu_id u)\<rparr>"
  obtain r where r: "get_record d k = Some r" and hr: "cu_role u = hr"
    and ob: "er_objection_at r \<noteq> None" "er_objection_resolved_at r = None"
    and q: "quiet_step (upd_record k ?f d) d'"
    using assms
    by (auto simp: resolve_objection_def bindE_Inr_iff guard_simps Let_def split: if_splits)
  show ?thesis
    by (rule effect_row [OF r case_step.answer [OF hr ob refl] _ q]) simp
qed

lemma set_seat_id [simp]: "er_id (set_seat s j r) = er_id r" "er_subject (set_seat s j r) = er_subject r"
  by (simp_all add: set_seat_def split: seat.split)

lemma reassign_Inr:
  assumes "reassign_stage_owner e u k s j t d = Inr d'"
  obtains r x where "get_record d k = Some r" and "cu_role u = hr" and "is_open r"
    and "record_seat s r \<noteq> None" and "get_user d j = Some x" and "u_is_active x"
    and "u_role x = seat_role s" and "\<not> own_evaluator d (er_subject r) [Some j]"
    and "chain_ok (er_supervisor (set_seat s j r)) (er_deputy (set_seat s j r))
          (Some (er_ceo (set_seat s j r)))"
    and "quiet_step (upd_record k (set_seat s j) d) d'"
proof -
  obtain r where r: "get_record d k = Some r"
    using assms by (auto simp: reassign_stage_owner_def bindE_Inr_iff guard_simps)
  obtain x where x: "get_user d j = Some x"
    using assms r
    by (auto simp: reassign_stage_owner_def bindE_Inr_iff guard_simps split: if_splits option.splits)
  show thesis
    by (rule that [OF r _ _ _ x])
      (use assms r x in \<open>auto simp: reassign_stage_owner_def bindE_Inr_iff guard_simps Let_def
        split: if_splits\<close>)
qed

lemma reassign_effect: "reassign_stage_owner e u k s j t d = Inr d' \<Longrightarrow> effect e u d d'"
  by (erule reassign_Inr, rule effect_row [where f = "set_seat s j"]) (auto intro: case_step.seat simp: may_sit_def)

lemma comment_quiet:
  assumes "add_comment e u k t p d = Inr d'"
  shows "quiet_step d d'"
proof -
  obtain r where r: "get_record d k = Some r"
    using assms by (auto simp: add_comment_def bindE_Inr_iff guard_simps)
  show ?thesis
  proof (cases p)
    case None
    then obtain stage required owner where "comment_stage_by_role r (cu_role u) = Some (stage, required, owner)"
      using assms r by (auto simp: add_comment_def bindE_Inr_iff guard_simps split: option.splits)
    then show ?thesis
      using assms r None by (auto simp: add_comment_def bindE_Inr_iff guard_simps split: if_splits)
  next
    case (Some j)
    then show ?thesis
      using assms r
      by (auto simp: add_comment_def add_reply_def bindE_Inr_iff guard_simps Let_def
          split: if_splits option.splits)
  qed
qed

lemma comment_effect: "add_comment e u k t p d = Inr d' \<Longrightarrow> effect e u d d'"
  using comment_quiet [of e u k t p d d']
  by (auto simp: add_comment_def bindE_Inr_iff guard_simps intro: effect_stay)

fun is_create :: "request \<Rightarrow> bool" where
  "is_create (CreateEvaluation p) = True"
| "is_create _ = False"

lemma handle_effect:
  assumes "handle e u c d = Inr d'" and "\<not> is_create c"
  shows "effect e u d d'"
  using assms
  by (cases c)
    (auto intro: upsert_scores_effect evaluator_comment_effect special_score_effect submit_effect
      approve_as_hr_effect approve_as_deputy_effect ceo_finalize_effect return_effect cancel_effect
      extend_effect claim_effect handover_effect resolve_effect reassign_effect comment_effect)

section \<open>Opening a case\<close>

lemma create_Inr:
  assumes "create_evaluation e u pid d = Inr (r, d')"
  obtains p a sv f d1 where "get_personnel d pid = Some p" and "p_status p = p_active"
    and "access_of d pid = Some a" and "inactive_seat_labels d a = []"
    and "opening_seat u p a = Inr sv" and "open_record_of d pid = None"
    and "framework_for_new_case p d = (f, d1)"
    and "r = new_record e p a sv (fst (next_evaluation_code d1)) (if_id f) (snd (next_evaluation_code d1))"
    and "records d' = records d @ [r]" and "static d' = static d" and "frameworks d' = frameworks d1"
    and "d' = log_event e (cu_id u) ''status_changed'' (Some (er_id r)) None (Some (status_json draft))
      ((snd (next_evaluation_code d1))\<lparr>records := records d @ [r]\<rparr>)"
proof -
  obtain p a sv where p: "get_personnel d pid = Some p" "p_status p = p_active"
    and a: "access_of d pid = Some a" "inactive_seat_labels d a = []"
    and sv: "opening_seat u p a = Inr sv" and no: "open_record_of d pid = None"
    using assms
    by (auto simp: create_evaluation_def bindE_Inr_iff guard_simps split: option.splits if_splits)
  obtain f d1 where f: "framework_for_new_case p d = (f, d1)" by fastforce
  obtain code d2 where c: "next_evaluation_code d1 = (code, d2)" by fastforce
  have d2: "records d2 = records d1" "static d2 = static d1" "frameworks d2 = frameworks d1"
    using c by (auto simp: next_evaluation_code_def Let_def static_def)
  have ens: "records (snd (ensure_framework d)) = records d" "static (snd (ensure_framework d)) = static d"
    by (auto simp: ensure_framework_def bump_def Let_def static_def split: option.split)
  then have d1: "records d1 = records d" "static d1 = static d"
    using f by (auto simp: framework_for_new_case_def prod_eq_iff split: option.splits)
  have run: "r = new_record e p a sv code (if_id f) d2"
    "d' = log_event e (cu_id u) ''status_changed'' (Some (er_id r)) None
       (Some (status_json draft)) (d2\<lparr>records := records d2 @ [r]\<rparr>)"
    using assms p a sv no f c
    by (auto simp: create_evaluation_def bindE_Inr_iff guard_simps Let_def)
  show thesis
    by (rule that [OF p a sv no f])
      (use run c d1 d2 in \<open>simp_all add: frame_simps static_def\<close>)
qed

lemma new_record_sel [simp]:
  "er_id (new_record e p a sv code fid d) = tbl_next er_id (records d)"
  "er_subject (new_record e p a sv code fid d) = p_id p"
  "er_status (new_record e p a sv code fid d) = draft"
  "er_supervisor (new_record e p a sv code fid d) = sv"
  "er_deputy (new_record e p a sv code fid d) = ea_deputy a"
  "er_ceo (new_record e p a sv code fid d) = ea_ceo a"
  "er_hr (new_record e p a sv code fid d) = None"
  by (simp_all add: new_record_def)

lemma opening_seat_Inr:
  "opening_seat u p a = Inr sv \<Longrightarrow>
     (sv = None \<and> (ea_deputy a = None \<longrightarrow> ea_supervisor a = None \<and> cu_id u = ea_ceo a) \<and>
        (ea_deputy a \<noteq> None \<longrightarrow> p_is_manager p \<and> ea_deputy a = Some (cu_id u))) \<or>
     (sv = Some (cu_id u) \<and> ea_supervisor a = Some (cu_id u) \<and> \<not> p_is_manager p)"
  by (auto simp: opening_seat_def split: if_splits option.splits)

section \<open>The invariant of the cases\<close>

definition record_chain_ok :: "evaluation_record \<Rightarrow> bool" where
  "record_chain_ok r \<longleftrightarrow> chain_ok (er_supervisor r) (er_deputy r) (Some (er_ceo r))"

definition access_chain_ok :: "evaluation_access \<Rightarrow> bool" where
  "access_chain_ok a \<longleftrightarrow> chain_ok (ea_supervisor a) (ea_deputy a) (Some (ea_ceo a))"

text \<open>At most one open case per person (the partial unique index \<open>uq_open_evaluation_per_personnel\<close>).\<close>

definition one_open :: "db \<Rightarrow> bool" where
  "one_open d \<longleftrightarrow> (\<forall>r\<in>set (records d). \<forall>s\<in>set (records d).
     is_open r \<longrightarrow> is_open s \<longrightarrow> er_subject r = er_subject s \<longrightarrow> er_id r = er_id s)"

definition case_ok :: "db \<Rightarrow> evaluation_record \<Rightarrow> bool" where
  "case_ok d r \<longleftrightarrow> path_ok r \<and> has_result r \<and> record_chain_ok r \<and>
     \<not> own_evaluator d (er_subject r) (record_seats r)"

definition cases_ok :: "db \<Rightarrow> bool" where
  "cases_ok d \<longleftrightarrow> tbl_ok er_id (records d) \<and> one_open d \<and> (\<forall>r\<in>set (records d). case_ok d r) \<and>
     (\<forall>a\<in>set (accesses d). access_chain_ok a \<and> \<not> own_evaluator d (ea_personnel a) (access_seats a))"

lemma cases_ok_segregated: "cases_ok d \<Longrightarrow> segregated d"
  by (simp add: cases_ok_def segregated_def case_ok_def)

lemma static_own: "static d' = static d \<Longrightarrow> own_evaluator d' = own_evaluator d"
  by (simp add: static_def own_evaluator_def fun_eq_iff)

lemma step_seats:
  assumes "case_step e sits u r r'" and "\<And>j. sits (er_subject r) j \<Longrightarrow> \<not> own_evaluator d (er_subject r) [Some j]"
    and "\<not> own_evaluator d (er_subject r) (record_seats r)"
  shows "\<not> own_evaluator d (er_subject r') (record_seats r')"
  using assms
proof (induction rule: case_step.induct)
  case (move r a r')
  then show ?case by (simp add: same_chain_def same_stamp_def record_seats_def)
next
  case (seat r s r' j)
  then show ?case
    by (cases s) (auto simp: own_evaluator_def record_seats_def set_seat_def)
qed (simp_all add: record_seats_def)

text \<open>Every row after a step is a row from before, or the stepped one.\<close>

lemma effect_rows:
  assumes tbl: "tbl_ok er_id (records d)" and eff: "effect e u d d'" and s: "s \<in> set (records d')"
  shows "\<exists>r\<in>set (records d). er_id s = er_id r \<and> (s = r \<or> case_step e (may_sit d) u r s)"
proof -
  obtain k r r' where r: "get_record d k = Some r" and row: "row_step d d' k r'"
    and step: "r' = r \<or> case_step e (may_sit d) u r r'"
    using eff by (auto simp: effect_def)
  have "tbl_ok er_id (records d')" using tbl row by (simp add: tbl_ok_def row_step_def)
  then have s': "get_record d' (er_id s) = Some s" using s by (simp add: get_record_def tbl_get_in)
  show ?thesis
  proof (cases "er_id s = k")
    case True
    then have "s = r'" using s' row by (simp add: row_step_def)
    moreover have "r \<in> set (records d) \<and> er_id r = k"
      using r by (auto simp: get_record_def dest: tbl_get_Some_set)
    ultimately show ?thesis using step True by (intro bexI [of _ r]) auto
  next
    case False
    then have "get_record d (er_id s) = Some s" using s' row by (simp add: row_step_def)
    then show ?thesis by (auto simp: get_record_def dest: tbl_get_Some_set)
  qed
qed

lemma effect_static: "effect e u d d' \<Longrightarrow> static d' = static d \<and> map er_id (records d') = map er_id (records d)"
  by (auto simp: effect_def row_step_def)

lemma step_open: "case_step e sits u r s \<Longrightarrow> is_open s \<Longrightarrow> is_open r \<and> er_subject s = er_subject r"
  using step_terminal [of e sits u r s] step_stamp [of e sits u r s]
  by (cases "is_open r") (simp_all add: same_stamp_def is_open_def)

lemma effect_cases_ok:
  assumes ok: "cases_ok d" and eff: "effect e u d d'"
  shows "cases_ok d'"
proof -
  have tbl: "tbl_ok er_id (records d)" using ok by (simp add: cases_ok_def)
  note rows = effect_rows [OF tbl eff]
  have st: "static d' = static d" and ids: "map er_id (records d') = map er_id (records d)"
    using effect_static [OF eff] by simp_all
  note own = static_own [OF st]
  have case_ok: "case_ok d' s" if s: "s \<in> set (records d')" for s
  proof -
    obtain r where r: "r \<in> set (records d)" and step: "s = r \<or> case_step e (may_sit d) u r s"
      using rows [OF s] by blast
    have okr: "case_ok d r" using ok r by (simp add: cases_ok_def)
    from step show ?thesis
    proof
      assume cs: "case_step e (may_sit d) u r s"
      have "\<not> own_evaluator d (er_subject s) (record_seats s)"
        using step_seats [OF cs] okr by (simp add: may_sit_def case_ok_def)
      then show ?thesis
        using okr step_path [OF cs] step_has_result [OF cs] step_chain_ok [OF cs]
        by (simp add: case_ok_def record_chain_ok_def own)
    qed (use okr in \<open>simp add: case_ok_def own\<close>)
  qed
  have "one_open d'"
    unfolding one_open_def
  proof (intro ballI impI)
    fix s t assume s: "s \<in> set (records d')" and t: "t \<in> set (records d')"
      and op: "is_open s" "is_open t" and sub: "er_subject s = er_subject t"
    obtain r where r: "r \<in> set (records d)" "er_id s = er_id r" "is_open r" "er_subject s = er_subject r"
      using rows [OF s] step_open op(1) by blast
    obtain q where q: "q \<in> set (records d)" "er_id t = er_id q" "is_open q" "er_subject t = er_subject q"
      using rows [OF t] step_open op(2) by blast
    show "er_id s = er_id t"
      using ok r q sub unfolding cases_ok_def one_open_def by metis
  qed
  moreover have "accesses d' = accesses d" using st by (simp add: static_def)
  ultimately show ?thesis
    using ok case_ok tbl ids by (simp add: cases_ok_def own tbl_ok_def)
qed

lemma own_evaluator_subset: "set a \<subseteq> set b \<Longrightarrow> own_evaluator d p a \<Longrightarrow> own_evaluator d p b"
  by (auto simp: own_evaluator_def)

text \<open>Opening a case from an accepted chain keeps the invariant, whoever opens it.\<close>

lemma append_case_ok:
  assumes ok: "cases_ok d" and recs: "records d' = records d @ [r]" and st: "static d' = static d"
    and id: "er_id r = tbl_next er_id (records d)" and open_ok: "er_status r = draft"
    and a: "a \<in> set (accesses d)" "er_subject r = ea_personnel a"
    and seats: "er_supervisor r \<in> {None, ea_supervisor a}" "er_deputy r = ea_deputy a" "er_ceo r = ea_ceo a"
    and no: "open_record_of d (ea_personnel a) = None"
  shows "cases_ok d'"
proof -
  note own = static_own [OF st]
  have a_ok: "access_chain_ok a" "\<not> own_evaluator d (ea_personnel a) (access_seats a)"
    using ok a(1) by (auto simp: cases_ok_def)
  have "set (record_seats r) \<subseteq> insert None (set (access_seats a))"
    using seats by (auto simp: record_seats_def access_seats_def)
  then have "\<not> own_evaluator d (er_subject r) (record_seats r)"
    using a_ok(2) a(2) by (auto simp: own_evaluator_def)
  moreover have "record_chain_ok r"
    using a_ok(1) seats by (auto simp: record_chain_ok_def access_chain_ok_def chain_ok_def)
  ultimately have "case_ok d' r"
    by (simp add: case_ok_def own open_ok path_ok_def has_result_def)
  moreover have "one_open d'"
    unfolding one_open_def
  proof (intro ballI impI)
    fix s t assume st: "s \<in> set (records d')" "t \<in> set (records d')"
      and op: "is_open s" "is_open t" "er_subject s = er_subject t"
    have closed: "\<not> is_open x" if "x \<in> set (records d)" "er_subject x = ea_personnel a" for x
      using no that by (auto simp: open_record_of_def find_None_iff)
    have old: "one_open d" using ok by (simp add: cases_ok_def)
    consider "s \<in> set (records d)" "t \<in> set (records d)" | "s = r" "t = r"
      | "s = r" "t \<in> set (records d)" | "s \<in> set (records d)" "t = r"
      using st by (auto simp: recs)
    then show "er_id s = er_id t"
    proof cases
      case 1
      then show ?thesis using old op unfolding one_open_def by blast
    qed (use closed op a(2) in auto)
  qed
  moreover have "tbl_ok er_id (records d')"
    using ok id by (simp add: recs cases_ok_def tbl_ok_insert)
  ultimately show ?thesis
    using ok st by (simp add: cases_ok_def recs own case_ok_def static_def)
qed

lemma create_cases_ok:
  assumes ok: "cases_ok d" and run: "create_evaluation e u pid d = Inr (r, d')"
  shows "cases_ok d'"
proof -
  obtain p a sv f d1 where p: "get_personnel d pid = Some p" and a: "access_of d pid = Some a"
    and sv: "opening_seat u p a = Inr sv" and no: "open_record_of d pid = None"
    and f: "framework_for_new_case p d = (f, d1)"
    and r: "r = new_record e p a sv (fst (next_evaluation_code d1)) (if_id f) (snd (next_evaluation_code d1))"
    and recs: "records d' = records d @ [r]" and st: "static d' = static d"
    by (rule create_Inr [OF run])
  have pid: "p_id p = pid" by (rule personnel_st.row_key [OF p])
  have "records d1 = records d"
    using f by (auto simp: framework_for_new_case_def ensure_framework_def bump_def Let_def
        split: option.splits if_splits)
  then have id: "er_id r = tbl_next er_id (records d)"
    by (simp add: r next_evaluation_code_def Let_def)
  have sv': "sv = None \<or> sv = ea_supervisor a" using opening_seat_Inr [OF sv] by auto
  show ?thesis
    by (rule append_case_ok [OF ok recs st id])
      (use access_of_Some [OF a] sv' no in \<open>auto simp: r pid\<close>)
qed

lemma serve_cases_ok: "cases_ok d \<Longrightarrow> cases_ok (serve e c d)"
proof -
  assume ok: "cases_ok d"
  obtain u q where c: "c = (u, q)" by fastforce
  show ?thesis
  proof (cases "handle e u q d")
    case (Inl x)
    then show ?thesis using ok by (simp add: serve_def c)
  next
    case (Inr d')
    have "cases_ok d'"
    proof (cases "is_create q")
      case True
      then obtain pid where "q = CreateEvaluation pid" by (cases q) simp_all
      then obtain s where "create_evaluation e u pid d = Inr (s, d')"
        using Inr by (auto simp: bindE_Inr_iff)
      then show ?thesis by (rule create_cases_ok [OF ok])
    next
      case False
      then show ?thesis using effect_cases_ok [OF ok] handle_effect [OF Inr] by blast
    qed
    then show ?thesis using Inr by (simp add: serve_def c)
  qed
qed

interpretation case_sys: invariant_system "serve e" cases_ok for e
  by unfold_locales (rule serve_cases_ok)

section \<open>Runs\<close>

text \<open>What a run of requests may do to one case: a sequence of machine steps.\<close>

lemma serve_record:
  assumes "get_record d k = Some r"
  shows "\<exists>r'. get_record (serve e c d) k = Some r' \<and> (r' = r \<or> case_step e (may_sit d) (fst c) r r')"
proof -
  obtain u q where c: "c = (u, q)" by fastforce
  show ?thesis
  proof (cases "handle e u q d")
    case (Inl x)
    then show ?thesis using assms by (simp add: serve_def c)
  next
    case (Inr d')
    have "\<exists>r'. get_record d' k = Some r' \<and> (r' = r \<or> case_step e (may_sit d) u r r')"
    proof (cases "is_create q")
      case True
      then obtain pid where "q = CreateEvaluation pid" by (cases q) simp_all
      then obtain s where "create_evaluation e u pid d = Inr (s, d')"
        using Inr by (auto simp: bindE_Inr_iff)
      then have "records d' = records d @ [s]" by (rule create_Inr)
      then show ?thesis using assms by (simp add: get_record_def tbl_get_append_Some)
    next
      case False
      then obtain j s s' where "get_record d j = Some s" "row_step d d' j s'"
        "s' = s \<or> case_step e (may_sit d) u s s'"
        using handle_effect [OF Inr] by (auto simp: effect_def)
      then show ?thesis using assms by (cases "k = j") (auto simp: row_step_def)
    qed
    then show ?thesis using Inr by (simp add: serve_def c)
  qed
qed

text \<open>A closed case stays closed, and past the scoring stage only a return reopens the result.\<close>

lemma run_terminal:
  assumes "get_record d k = Some r" and "\<not> is_open r"
  shows "\<exists>r'. get_record (fold (serve e) cs d) k = Some r' \<and> er_status r' = er_status r \<and>
    same_result r r' \<and> same_stamp r r'"
  using assms
proof (induction cs arbitrary: d r)
  case Nil
  then show ?case by simp
next
  case (Cons c cs)
  obtain r1 where r1: "get_record (serve e c d) k = Some r1"
    and step: "r1 = r \<or> case_step e (may_sit d) (fst c) r r1"
    using serve_record [OF Cons.prems(1)] by blast
  have nd: "er_status r \<noteq> draft" using Cons.prems(2) by (auto simp: is_open_iff)
  have same: "er_status r1 = er_status r" "same_result r r1" "same_stamp r r1"
    using step step_terminal [OF _ Cons.prems(2)] step_result [OF _ nd] step_stamp by auto
  then have "\<not> is_open r1" using Cons.prems(2) by (simp add: is_open_def)
  then obtain r' where "get_record (fold (serve e) cs (serve e c d)) k = Some r'"
    "er_status r' = er_status r1" "same_result r1 r'" "same_stamp r1 r'"
    using Cons.IH [OF r1] by blast
  then show ?case using same same_trans by (metis fold_Cons comp_apply)
qed

end
