(* ===== verification/ResultIntegrity.thy ===== *)
theory ResultIntegrity
  imports CaseMachine
begin

text \<open>
  The stored result of a case is the result of its stored scores. The invariant relates the
  percentage columns of \<open>evaluation_records\<close> with the rows of \<open>evaluation_scores\<close>, the questions and
  the rules the case is stamped with; every request of the evaluations router keeps it.
\<close>

section \<open>The relation\<close>

definition result_of :: "db \<Rightarrow> evaluation_record \<Rightarrow> py_exc + calc_result" where
  "result_of d r = compute_result (scores_as_dicts d r) (by_id (indicators_for_record d r))
     (rules_for_record d r) (bonus_of r)"

definition scored_fully :: "db \<Rightarrow> evaluation_record \<Rightarrow> bool" where
  "scored_fully d r \<longleftrightarrow>
     es_indicator ` set (scores_of d (er_id r)) = in_id ` set (indicators_for_record d r)"

definition evidence_ok :: "db \<Rightarrow> evaluation_record \<Rightarrow> bool" where
  "evidence_ok d r \<longleftrightarrow>
     validate_evidence (scores_as_dicts d r) (by_id (indicators_for_record d r)) (rules_for_record d r)
       = Inr ()"

definition result_stored :: "env \<Rightarrow> calc_result \<Rightarrow> evaluation_record \<Rightarrow> bool" where
  "result_stored e c r \<longleftrightarrow> er_base_pct r = Some (numeric_col e 2 (cr_base c)) \<and>
     er_general_pct r = Some (numeric_col e 2 (cr_general c)) \<and>
     er_specialized_pct r = Some (numeric_col e 2 (cr_specialized c)) \<and>
     er_final_pct r = Some (numeric_col e 2 (cr_final c)) \<and>
     er_recommendation r = Some (cr_recommendation c)"

definition result_matches :: "env \<Rightarrow> db \<Rightarrow> evaluation_record \<Rightarrow> bool" where
  "result_matches e d r \<longleftrightarrow> (er_status r \<noteq> draft \<and> er_status r \<noteq> cancelled \<longrightarrow>
     scored_fully d r \<and> evidence_ok d r \<and> (\<exists>c. result_of d r = Inr c \<and> result_stored e c r))"

text \<open>The foreign key to the question list.\<close>

definition framework_fk :: "db \<Rightarrow> bool" where
  "framework_fk d \<longleftrightarrow> (\<forall>r\<in>set (records d). \<forall>j. er_framework r = Some j \<longrightarrow> get_framework d j \<noteq> None)"

section \<open>What the relation depends on\<close>

lemma indicator_ids_cong:
  assumes "static d' = static d" and "frameworks d' = frameworks d @ fs"
    and "er_framework r' = er_framework r" and "\<forall>j. er_framework r = Some j \<longrightarrow> get_framework d j \<noteq> None"
  shows "indicator_ids_for_record d' r' = indicator_ids_for_record d r"
proof (cases "er_framework r")
  case None
  then show ?thesis
    using assms by (simp add: indicator_ids_for_record_def active_member_ids_def static_def)
next
  case (Some j)
  then obtain f where f: "get_framework d j = Some f" using assms(4) by auto
  then have "get_framework d' j = Some f" by (rule get_framework_append [OF _ assms(2)])
  then show ?thesis using f Some assms(3) by (simp add: indicator_ids_for_record_def)
qed

lemma result_of_cong:
  assumes st: "static d' = static d" and fs: "frameworks d' = frameworks d @ fs"
    and fk: "\<forall>j. er_framework r = Some j \<longrightarrow> get_framework d j \<noteq> None"
    and sc: "scores_of d' (er_id r) = scores_of d (er_id r)"
    and same: "same_stamp r r'" "er_bonus_points r' = er_bonus_points r"
  shows "scored_fully d' r' = scored_fully d r" "evidence_ok d' r' = evidence_ok d r"
    "result_of d' r' = result_of d r"
proof -
  have "er_framework r' = er_framework r" and id: "er_id r' = er_id r" and ss: "er_scheme r' = er_scheme r"
    using same by (simp_all add: same_stamp_def)
  then have inds: "indicators_for_record d' r' = indicators_for_record d r"
    using indicator_ids_cong [OF st fs _ fk, of r'] st
    by (simp add: indicators_for_record_def static_def)
  have sch: "schemes d' = schemes d" using st by (simp add: static_def)
  then have "get_scheme d' = get_scheme d" by (simp add: get_scheme_def fun_eq_iff)
  then have rules: "rules_for_record d' r' = rules_for_record d r"
    using sch ss by (simp add: rules_for_record_def active_scheme_def split: option.split)
  have rows: "scores_as_dicts d' r' = scores_as_dicts d r"
    using sc id by (simp add: scores_as_dicts_def)
  show "scored_fully d' r' = scored_fully d r" using sc id inds by (simp add: scored_fully_def)
  show "evidence_ok d' r' = evidence_ok d r" using rows inds rules by (simp add: evidence_ok_def)
  show "result_of d' r' = result_of d r"
    using rows inds rules same(2) by (simp add: result_of_def bonus_of_def)
qed

lemma result_matches_cong:
  assumes "static d' = static d" and "frameworks d' = frameworks d @ fs"
    and "\<forall>j. er_framework r = Some j \<longrightarrow> get_framework d j \<noteq> None"
    and "scores_of d' (er_id r) = scores_of d (er_id r)"
    and "same_stamp r r'" and same: "same_result r r'" and "er_status r \<noteq> draft" "er_status r \<noteq> cancelled"
    and "result_matches e d r"
  shows "result_matches e d' r'"
proof -
  have b: "er_bonus_points r' = er_bonus_points r" using same by (simp add: same_result_def)
  have "result_stored e c r' = result_stored e c r" for c
    using same by (simp add: result_stored_def same_result_def)
  then show ?thesis
    using result_of_cong [OF assms(1-5) b] assms(7-9) by (simp add: result_matches_def)
qed

text \<open>It depends on the tables of the cases, the scores, the questions and the rules only.\<close>

lemma result_matches_same:
  assumes eq: "scores d' = scores d" "frameworks d' = frameworks d" "indicators d' = indicators d"
    "schemes d' = schemes d"
  shows "result_matches e d' = result_matches e d"
proof -
  have fw: "get_framework d' = get_framework d" "get_scheme d' = get_scheme d"
    by (simp_all add: get_framework_def get_scheme_def eq fun_eq_iff)
  have inds: "indicators_for_record d' = indicators_for_record d"
    by (simp add: indicators_for_record_def indicator_ids_for_record_def active_member_ids_def fw eq fun_eq_iff
        cong: option.case_cong)
  have rules: "rules_for_record d' = rules_for_record d"
    by (simp add: rules_for_record_def active_scheme_def fw eq fun_eq_iff cong: option.case_cong)
  have sc: "scores_of d' = scores_of d" by (simp add: scores_of_def eq fun_eq_iff)
  show ?thesis
    by (simp add: result_matches_def scored_fully_def evidence_ok_def result_of_def scores_as_dicts_def
        sc inds rules fun_eq_iff)
qed

section \<open>The scores of a case\<close>

lemma hook_scores:
  assumes "apply_transition e r a u hook d = Inr d'"
    and "\<And>d2. hook (claim e (transition_of a) r u d) = Inr d2 \<Longrightarrow>
      scores d2 = scores (claim e (transition_of a) r u d)"
  shows "scores d' = scores d"
  using assms unfolding apply_transition_Inr Let_def by (auto simp: frame_simps split: option.splits)

lemma finalize_hook_scores: "finalize_hook e k d = Inr d2 \<Longrightarrow> scores d2 = scores d"
  by (auto simp: finalize_hook_def on_record_def bindE_Inr_iff Let_def frame_simps split: option.splits)

lemma scoring_hook_scores: "on_record k (\<lambda>r. finalize_scoring e r u) d = Inr d2 \<Longrightarrow> scores d2 = scores d"
  by (auto simp: finalize_scoring_def on_record_def bindE_Inr_iff Let_def frame_simps
      split: option.splits if_splits sum.splits)

lemma scores_frames [frame_simps]:
  "scores (add_comment_row e k b p s t d) = scores d"
  "scores (archive_final_pdf_detached e k d) = scores d"
  "scores (extension_notice e r x d) = scores d"
  by (auto simp: add_comment_row_def archive_final_pdf_detached_def archive_final_pdf_def Let_def
      extension_notice_def frame_simps split: option.split)

lemma upsert_scores_rows:
  assumes "upsert_scores e u k xs d = Inr d'"
  shows "records d' = records d" and "\<exists>r. get_record d k = Some r \<and> er_status r = draft"
    and "j \<noteq> k \<Longrightarrow> scores_of d' j = scores_of d j"
proof -
  obtain r x where r: "get_record d k = Some r" and st: "er_status r = draft" and
    d': "d' = log_event e (cu_id u) ''scores_draft_saved'' (Some k) None x
      (fold (add_score (er_id r)) xs (d\<lparr>scores := filter (\<lambda>s. es_record s \<noteq> er_id r) (scores d)\<rparr>))"
    using assms
    by (auto simp: upsert_scores_def bindE_Inr_iff guard_simps replace_scores_def is_the_scorer_def
        split: if_splits)
  have id: "er_id r = k" by (rule record_st.row_key [OF r])
  have fold_rec: "records (fold (add_score i) xs d0) = records d0" for i d0
    by (induction xs arbitrary: d0) (simp_all add: add_score_def)
  have fold_sc: "scores_of (fold (add_score i) xs d0) j = scores_of d0 j" if "j \<noteq> i" for i d0
    using that by (induction xs arbitrary: d0) (simp_all add: add_score_def scores_of_def)
  show "records d' = records d" by (simp add: d' frame_simps fold_rec)
  show "\<exists>r. get_record d k = Some r \<and> er_status r = draft" using r st by blast
  show "scores_of d' j = scores_of d j" if "j \<noteq> k"
  proof -
    have "scores_of d' j = scores_of (fold (add_score k) xs
        (d\<lparr>scores := filter (\<lambda>s. es_record s \<noteq> k) (scores d)\<rparr>)) j"
      by (simp add: d' id scores_of_def frame_simps)
    also have "\<dots> = scores_of d j"
      using that by (simp add: fold_sc) (auto simp: scores_of_def intro: filter_cong)
    finally show ?thesis .
  qed
qed

lemma add_reply_scores:
  assumes "add_reply e u r j t d = Inr d'"
  shows "scores d' = scores d"
proof (cases "get_comment d j")
  case None
  then show ?thesis using assms by (simp add: add_reply_def bindE_Inr_iff)
next
  case (Some c)
  then show ?thesis
    using assms by (auto simp: add_reply_def bindE_Inr_iff Let_def frame_simps split: if_splits)
qed

lemma handle_scores:
  assumes "handle e u c d = Inr d'" and "\<And>k xs. c \<noteq> UpsertScores k xs"
  shows "scores d' = scores d"
proof (cases c)
  case (CreateEvaluation p)
  then obtain r where "create_evaluation e u p d = Inr (r, d')"
    using assms(1) by (auto simp: bindE_Inr_iff)
  then show ?thesis
    by (auto simp: create_evaluation_def bindE_Inr_iff Let_def framework_for_new_case_def
        next_evaluation_code_def ensure_framework_def bump_def frame_simps
        split: option.splits if_splits prod.splits)
next
  case (SubmitEvaluation k)
  then show ?thesis
    using assms(1) scoring_hook_scores
    by (auto simp: submit_evaluation_def bindE_Inr_iff elim!: hook_scores)
next
  case (ApproveAsHr k)
  then show ?thesis
    using assms(1) finalize_hook_scores
    by (auto simp: approve_as_hr_def bindE_Inr_iff frame_simps no_hook_def elim!: hook_scores
        split: if_splits)
next
  case (ApproveAsDeputy k)
  then show ?thesis
    using assms(1) by (auto simp: approve_as_deputy_def bindE_Inr_iff no_hook_def elim!: hook_scores)
next
  case (FinalizeAsCeo k)
  then show ?thesis
    using assms(1) finalize_hook_scores
    by (auto simp: ceo_finalize_def bindE_Inr_iff frame_simps elim!: hook_scores)
next
  case (ReturnEvaluation k t)
  then show ?thesis
    using assms(1)
    by (auto simp: return_evaluation_def bindE_Inr_iff Let_def split_beta frame_simps elim!: hook_scores
        split: if_splits)
next
  case (CancelEvaluation k t)
  then show ?thesis
    using assms(1)
    by (auto simp: cancel_evaluation_def bindE_Inr_iff frame_simps elim!: hook_scores)
next
  case (ExtendWindow k x t)
  then show ?thesis
    using assms(1)
    by (auto simp: extend_submission_window_def bindE_Inr_iff Let_def frame_simps split: if_splits)
next
  case (HandoverHr k j t)
  then show ?thesis
    using assms(1)
    by (auto simp: hr_handover_def bindE_Inr_iff Let_def frame_simps split: if_splits option.splits)
next
  case (Reassign k s j t)
  then show ?thesis
    using assms(1)
    by (auto simp: reassign_stage_owner_def bindE_Inr_iff Let_def frame_simps split: if_splits option.splits)
next
  case (AddComment k t p)
  then have run: "add_comment e u k t p d = Inr d'" using assms(1) by simp
  show ?thesis
  proof (cases p)
    case None
    then obtain r stage required owner where "get_record d k = Some r"
      "comment_stage_by_role r (cu_role u) = Some (stage, required, owner)"
      using run by (auto simp: add_comment_def bindE_Inr_iff guard_simps split: option.splits)
    then show ?thesis
      using run None
      by (auto simp: add_comment_def bindE_Inr_iff guard_simps frame_simps split: if_splits)
  next
    case (Some j)
    then obtain r where "add_reply e u r j t d = Inr d'"
      using run by (auto simp: add_comment_def bindE_Inr_iff)
    then show ?thesis by (rule add_reply_scores)
  qed
qed (use assms in \<open>auto simp: set_evaluator_comment_def set_special_score_def hr_claim_def
      resolve_objection_def bindE_Inr_iff Let_def frame_simps split: if_splits sum.splits\<close>)

section \<open>The submission computes it\<close>

lemma submit_computes:
  assumes "submit_evaluation e u k d = Inr d'"
  shows "\<exists>r c. get_record d k = Some r \<and> scored_fully d r \<and> evidence_ok d r \<and> result_of d r = Inr c \<and>
    get_record d' k = Some (enter_stage e submitted (store_result e c r)) \<and>
    (\<forall>j. j \<noteq> k \<longrightarrow> get_record d' j = get_record d j)"
proof -
  obtain r where r: "get_record d k = Some r"
    and run: "apply_transition e r (submit_action r) u (on_record k (\<lambda>r. finalize_scoring e r u)) d = Inr d'"
    using assms by (auto simp: submit_evaluation_def bindE_Inr_iff guard_simps)
  have id: "er_id r = k" by (rule record_st.row_key [OF r])
  have noclaim: "claim e (transition_of (submit_action r)) r u d = d"
    by (simp add: claim_def submit_action_def transition_of_def)
  obtain d2 where h: "on_record k (\<lambda>r. finalize_scoring e r u) d = Inr d2"
    using run unfolding apply_transition_Inr noclaim Let_def by blast
  then obtain c x where set_eq: "set (map sr_indicator (scores_as_dicts d r)) =
      set (map in_id (indicators_for_record d r))"
    and ev: "evidence_ok d r" and c: "result_of d r = Inr c"
    and d2: "d2 = log_event e (cu_id u) ''score_submitted'' (Some k) None x
        (upd_record k (store_result e c) d)"
    using r id
    by (auto simp: on_record_def finalize_scoring_def Let_def bindE_Inr_iff evidence_ok_def result_of_def
        split: if_splits sum.splits)
  have "scored_fully d r"
    using set_eq by (simp add: scored_fully_def scores_as_dicts_def image_comp comp_def)
  moreover have "get_record d' (er_id r) =
      Some (enter_stage e (tr_to (transition_of (submit_action r))) (store_result e c r))"
  proof (rule apply_transition_row [OF run])
    fix z assume "on_record k (\<lambda>r. finalize_scoring e r u) (claim e (transition_of (submit_action r)) r u d) = Inr z"
    then have "z = d2" using h noclaim by simp
    then show "get_record z (er_id r) = Some (store_result e c r) \<and> er_id (store_result e c r) = er_id r"
      using r id by (simp add: d2 frame_simps record_st.row_upd store_result_def)
  qed
  moreover have "\<forall>j. j \<noteq> k \<longrightarrow> get_record d' j = get_record d j"
    by (rule apply_transition_step [OF run r scoring_hook_spec]) (simp add: row_step_def)
  ultimately show ?thesis using r ev c id submit_action_facts(2) [of r] by auto
qed

section \<open>The invariant\<close>

definition results_ok :: "env \<Rightarrow> db \<Rightarrow> bool" where
  "results_ok e d \<longleftrightarrow> cases_ok d \<and> framework_fk d \<and> (\<forall>r\<in>set (records d). result_matches e d r)"

lemma results_ok_fk:
  "results_ok e d \<Longrightarrow> r \<in> set (records d) \<Longrightarrow> \<forall>j. er_framework r = Some j \<longrightarrow> get_framework d j \<noteq> None"
  by (simp add: results_ok_def framework_fk_def)

lemma current_framework_in: "current_framework d = Some f \<Longrightarrow> f \<in> set (frameworks d)"
proof -
  have "fold newer_framework fs b = Some f \<Longrightarrow> f \<in> set fs \<or> b = Some f" for fs b
    by (induction fs arbitrary: b) (force simp: newer_framework_def split: option.splits if_splits)+
  then show "current_framework d = Some f \<Longrightarrow> f \<in> set (frameworks d)"
    unfolding current_framework_def by fastforce
qed

lemma framework_present: "f \<in> set (frameworks d) \<Longrightarrow> get_framework d (if_id f) \<noteq> None"
  by (auto simp: get_framework_def tbl_get_def find_None_iff)

lemma ensure_framework_rows:
  assumes "ensure_framework d = (f, d1)"
  shows "\<exists>gs. frameworks d1 = frameworks d @ gs \<and> f \<in> set (frameworks d1)"
  using ensure_framework_cases [of d]
proof
  assume "ensure_framework d = bump None ''seed'' None d"
  then show ?thesis using assms by (auto simp: bump_def Let_def)
next
  assume "\<exists>f. current_framework d = Some f \<and> if_members f = active_member_ids d \<and>
    ensure_framework d = (f, d)"
  then show ?thesis using assms current_framework_in by auto
qed

lemma framework_for_new_case_rows:
  assumes "framework_for_new_case p d = (f, d1)"
  shows "\<exists>gs. frameworks d1 = frameworks d @ gs \<and> f \<in> set (frameworks d1)"
proof (cases "assessment_for_contract d (p_id p) (p_contract_start p)")
  case None
  then have "ensure_framework d = (f, d1)" using assms by (simp only: framework_for_new_case_def option.case)
  then show ?thesis by (rule ensure_framework_rows)
next
  case a: (Some a)
  show ?thesis
  proof (cases "get_framework d (ca_framework a)")
    case None
    with a have "ensure_framework d = (f, d1)"
      using assms by (simp only: framework_for_new_case_def option.case)
    then show ?thesis by (rule ensure_framework_rows)
  next
    case (Some g)
    with a have "g = f" and "d = d1"
      using assms by (simp_all only: framework_for_new_case_def option.case prod.inject)
    moreover have "g \<in> set (frameworks d)"
      using Some unfolding get_framework_def by (rule tbl_get_Some_set [THEN conjunct1])
    ultimately show ?thesis by simp
  qed
qed

text \<open>A new case brings no answers; the versions may grow at the end.\<close>

lemma append_results_ok:
  assumes ok: "results_ok e d" and cases: "cases_ok d'" and recs: "records d' = records d @ [r]"
    and st: "static d' = static d" and sc: "scores d' = scores d" and gs: "frameworks d' = frameworks d @ gs"
    and r: "er_status r = draft" and fk: "\<forall>j. er_framework r = Some j \<longrightarrow> get_framework d' j \<noteq> None"
  shows "results_ok e d'"
proof -
  have old: "result_matches e d' s" if s: "s \<in> set (records d)" for s
  proof (cases "er_status s = draft \<or> er_status s = cancelled")
    case False
    then show ?thesis
      using result_matches_cong [OF st gs results_ok_fk [OF ok s], of s e] sc ok s
      by (simp add: scores_of_def same_stamp_def same_result_def results_ok_def)
  qed (auto simp: result_matches_def)
  have "framework_fk d'"
    unfolding framework_fk_def
  proof (intro ballI allI impI)
    fix s j assume s: "s \<in> set (records d')" and j: "er_framework s = Some j"
    show "get_framework d' j \<noteq> None"
    proof (cases "s \<in> set (records d)")
      case True
      then obtain g where "get_framework d j = Some g"
        using results_ok_fk [OF ok] j by blast
      then have "get_framework d' j = Some g"
        by (rule get_framework_append) (use gs in simp)
      then show ?thesis by simp
    next
      case False
      then show ?thesis using s j fk by (simp add: recs)
    qed
  qed
  moreover have "result_matches e d' r" by (simp add: result_matches_def r)
  ultimately show ?thesis using cases old by (auto simp: results_ok_def recs)
qed

lemma create_results_ok:
  assumes ok: "results_ok e d" and run: "create_evaluation e u pid d = Inr (r, d')"
  shows "results_ok e d'"
proof -
  obtain p a sv f d1 where f: "framework_for_new_case p d = (f, d1)"
    and r: "r = new_record e p a sv (fst (next_evaluation_code d1)) (if_id f) (snd (next_evaluation_code d1))"
    and recs: "records d' = records d @ [r]" and st: "static d' = static d"
    and fs: "frameworks d' = frameworks d1"
    by (rule create_Inr [OF run])
  obtain gs where gs: "frameworks d1 = frameworks d @ gs" "f \<in> set (frameworks d1)"
    using framework_for_new_case_rows [OF f] by blast
  have sc: "scores d' = scores d"
    by (rule handle_scores [of e u "CreateEvaluation pid"]) (use run in simp_all)
  have "cases_ok d'" using ok create_cases_ok [OF _ run] by (simp add: results_ok_def)
  then show ?thesis
    using framework_present [of f d'] fs gs
    by (intro append_results_ok [OF ok _ recs st sc, of gs]) (simp_all add: r new_record_def)
qed

text \<open>What one request does to the rows of the score sheets.\<close>

lemma handle_scores_of:
  assumes run: "handle e u q d = Inr d'" and r: "get_record d j = Some r" and st: "er_status r \<noteq> draft"
  shows "scores_of d' j = scores_of d j"
proof (cases "\<exists>k xs. q = UpsertScores k xs")
  case True
  then obtain k xs where up: "upsert_scores e u k xs d = Inr d'" using run by auto
  note rows = upsert_scores_rows [OF up]
  have "k \<noteq> j" using rows(2) r st by auto
  then show ?thesis by (intro rows(3)) simp
next
  case False
  then show ?thesis using handle_scores [OF run] by (simp add: scores_of_def)
qed

text \<open>A case that leaves the scoring stage leaves it through the submission.\<close>

definition statuses :: "db \<Rightarrow> (int \<times> evaluation_status) list" where
  "statuses d = map (\<lambda>r. (er_id r, er_status r)) (records d)"

lemma status_at: "map_option er_status (get_record d k) = map_of (statuses d) k"
proof -
  have "map_option er_status (find (\<lambda>r. er_id r = k) xs) = map_of (map (\<lambda>r. (er_id r, er_status r)) xs) k" for xs
    by (induction xs) auto
  then show ?thesis by (simp add: get_record_def statuses_def tbl_get_def)
qed

lemma statuses_upd [simp]:
  assumes "\<And>r. er_id (f r) = er_id r" and "\<And>r. er_status (f r) = er_status r"
  shows "statuses (upd_record k f d) = statuses d"
  using assms by (simp add: statuses_def tbl_upd_map upd_record_def)

lemma statuses_cong: "records d' = records d \<Longrightarrow> statuses d' = statuses d"
  by (simp add: statuses_def)

lemma statuses_frames:
  "statuses (log_event e a t r x y d) = statuses d"
  "statuses (extension_notice e q z d) = statuses d"
  "statuses (notify e us t m r l d) = statuses d"
  "statuses (notify_stage_owner_reassigned e q o1 l1 d) = statuses d"
  "statuses (add_comment_row e k b p s1 t1 d) = statuses d"
  by (simp_all add: statuses_def frame_simps add_comment_row_def extension_notice_def
      notify_stage_owner_reassigned_def split: option.split)

text \<open>A transition that is not a submission touches no case of the scoring stage, except to cancel it.\<close>

lemma transition_keeps_drafts:
  assumes run: "apply_transition e r a u hook d = Inr d1" and r: "get_record d k = Some r"
    and hook: "hook_spec hook k Q" and a: "draft \<notin> set (tr_from (transition_of a))"
    and s: "get_record d j = Some s" "er_status s = draft"
  shows "get_record d1 j = Some s"
proof (rule apply_transition_step [OF run r hook])
  fix r2 assume row: "row_step d d1 k (enter_stage e (tr_to (transition_of a)) r2)"
    and allowed: "ensure_transition_allowed r a u = Inr (transition_of a)"
  have "er_status r \<in> set (tr_from (transition_of a))"
    using allowed by (auto simp: transition_allowed_Inr)
  then have "k \<noteq> j" using s r a by auto
  then show "get_record d1 j = Some s" using row s(1) by (simp add: row_step_def)
qed

fun is_submission :: "request \<Rightarrow> bool" where
  "is_submission (SubmitEvaluation k) = True"
| "is_submission _ = False"

fun is_move :: "request \<Rightarrow> bool" where
  "is_move (ApproveAsHr k) = True"
| "is_move (ApproveAsDeputy k) = True"
| "is_move (FinalizeAsCeo k) = True"
| "is_move (ReturnEvaluation k t) = True"
| "is_move (CancelEvaluation k t) = True"
| "is_move _ = False"

lemma statuses_remark:
  assumes "handle e u q d = Inr d'" and "\<not> is_create q" and "\<not> is_submission q" and "\<not> is_move q"
  shows "statuses d' = statuses d"
  using assms
proof (cases q)
  case (UpsertScores k xs)
  then show ?thesis using assms(1) upsert_scores_rows(1) by (auto intro: statuses_cong)
next
  case (AddComment k t p)
  then have "add_comment e u k t p d = Inr d'" using assms(1) by simp
  from comment_quiet [OF this] show ?thesis by (simp add: quiet_step_def statuses_def)
next
  case (SetSpecialScore k b t)
  then have "set_special_score e u k b t d = Inr d'" using assms(1) by simp
  then show ?thesis
    by (auto simp: set_special_score_def bindE_Inr_iff Let_def statuses_frames
        split: if_splits sum.splits)
next
  case (Reassign k s j t)
  then have "reassign_stage_owner e u k s j t d = Inr d'" using assms(1) by simp
  moreover have "statuses (upd_record k (set_seat s j) d) = statuses d"
    by (rule statuses_upd) (simp_all add: set_seat_def split: seat.split)
  ultimately show ?thesis
    by (auto simp: reassign_stage_owner_def bindE_Inr_iff Let_def statuses_frames
        split: if_splits option.splits)
qed (use assms in \<open>auto simp: set_evaluator_comment_def extend_submission_window_def hr_claim_def
    hr_handover_def resolve_objection_def bindE_Inr_iff Let_def
    statuses_frames split: if_splits option.splits\<close>)

lemma archive_detached_records [simp]:
  "get_record (archive_final_pdf_detached e k d) j = get_record d j"
  by (auto simp: archive_final_pdf_detached_def archive_final_pdf_def Let_def frame_simps get_record_def
      split: option.split)

lemma approve_as_hr_drafts:
  assumes run: "approve_as_hr e u k d = Inr d'" and s: "get_record d j = Some s" "er_status s = draft"
  shows "get_record d' j = Some s"
proof -
  obtain r d1 where r: "get_record d k = Some r"
    and tr: "apply_transition e r (hr_approve_action r) u
      (if is_direct_ceo_path r then finalize_hook e k else no_hook) d = Inr d1"
    and d': "d' = (if is_direct_ceo_path r then archive_final_pdf_detached e k d1 else d1)"
    using run by (auto simp: approve_as_hr_def bindE_Inr_iff guard_simps)
  have nodraft: "draft \<notin> set (tr_from (transition_of (hr_approve_action r)))"
    by (simp add: hr_approve_action_def transition_of_def)
  have hook: "hook_spec (if is_direct_ceo_path r then finalize_hook e k else no_hook) k
      (\<lambda>r r2. only_final r r2 \<or> r = r2)"
    using finalize_hook_spec [of e k] no_hook_spec [of k] unfolding hook_spec_def by (cases "is_direct_ceo_path r") fastforce+
  have "get_record d1 j = Some s" by (rule transition_keeps_drafts [OF tr r hook nodraft s])
  then show ?thesis by (simp add: d')
qed

lemma ceo_finalize_drafts:
  assumes run: "ceo_finalize e u k d = Inr d'" and s: "get_record d j = Some s" "er_status s = draft"
  shows "get_record d' j = Some s"
proof -
  obtain r d1 where r: "get_record d k = Some r"
    and tr: "apply_transition e r CeoFinalize u (finalize_hook e k) d = Inr d1"
    and d': "d' = archive_final_pdf_detached e k d1"
    using run by (auto simp: ceo_finalize_def bindE_Inr_iff guard_simps)
  have "get_record d1 j = Some s"
    by (rule transition_keeps_drafts [OF tr r finalize_hook_spec _ s]) (simp add: transition_of_def)
  then show ?thesis by (simp add: d')
qed

lemma approve_as_deputy_drafts:
  assumes run: "approve_as_deputy e u k d = Inr d'" and s: "get_record d j = Some s" "er_status s = draft"
  shows "get_record d' j = Some s"
proof -
  obtain r where r: "get_record d k = Some r"
    and tr: "apply_transition e r DeputyApprove u no_hook d = Inr d'"
    using run by (auto simp: approve_as_deputy_def bindE_Inr_iff guard_simps)
  show ?thesis
    by (rule transition_keeps_drafts [OF tr r no_hook_spec _ s]) (simp add: transition_of_def)
qed

lemma return_drafts:
  assumes run: "return_evaluation e u k t d = Inr d'" and s: "get_record d j = Some s" "er_status s = draft"
  shows "get_record d' j = Some s"
proof (rule return_run [OF run])
  fix r a
  assume r: "get_record d k = Some r"
    and tr: "apply_transition e r a u (\<lambda>d. Inr (log_event e (cu_id u) ''evaluation_returned'' (Some k) None
      (Some (JObj [(''reason'', JText t)]))
      (add_comment_row e k (cu_id u) None (snd (return_action_by_role (cu_role u)))
        (lit ''Case returned, reason: '' @ t) d))) d = Inr d'"
    and a: "a \<in> {HrReturn, DeputyReturn, CeoReturn, CeoReturnManager}"
  have "draft \<notin> set (tr_from (transition_of a))" using a by (auto simp: transition_of_def)
  then show ?thesis by (rule transition_keeps_drafts [OF tr r remark_hook_spec _ s])
qed

lemma cancel_drafts:
  assumes run: "cancel_evaluation e u k t d = Inr d'" and s: "get_record d j = Some s" "er_status s = draft"
    and s': "get_record d' j = Some s'"
  shows "er_status s' \<in> {draft, cancelled}"
proof -
  obtain r x v z w where r: "get_record d k = Some r"
    and tr: "apply_transition e r Cancel u (\<lambda>d. Inr (log_event e (cu_id u) x (Some k) v z
      (add_comment_row e k (cu_id u) None cm_hr_review w d))) d = Inr d'"
    using run unfolding cancel_evaluation_def bindE_Inr_iff guard_simps by blast
  show ?thesis
    by (rule apply_transition_step [OF tr r remark_hook_spec])
      (use s s' in \<open>auto simp: row_step_def transition_of_def split: if_splits\<close>)
qed

lemma draft_moves:
  assumes run: "handle e u q d = Inr d'" and q: "\<not> is_create q" "\<not> is_submission q"
    and s: "get_record d j = Some s" "er_status s = draft" and s': "get_record d' j = Some s'"
  shows "er_status s' \<in> {draft, cancelled}"
proof (cases "is_move q")
  case True
  then show ?thesis
  proof (cases q)
    case (ApproveAsHr k)
    then show ?thesis using run s s' approve_as_hr_drafts by fastforce
  next
    case (ApproveAsDeputy k)
    then show ?thesis using run s s' approve_as_deputy_drafts by fastforce
  next
    case (FinalizeAsCeo k)
    then show ?thesis using run s s' ceo_finalize_drafts by fastforce
  next
    case (ReturnEvaluation k t)
    then show ?thesis using run s s' return_drafts by fastforce
  next
    case (CancelEvaluation k t)
    then show ?thesis using run s s' cancel_drafts by fastforce
  qed simp_all
next
  case False
  have "map_option er_status (get_record d' j) = map_option er_status (get_record d j)"
    using statuses_remark [OF run q False] by (simp add: status_at)
  then show ?thesis using s s' by simp
qed

lemma handle_results_ok:
  assumes ok: "results_ok e d" and run: "handle e u q d = Inr d'" and nc: "\<not> is_create q"
  shows "results_ok e d'"
proof -
  have eff: "effect e u d d'" by (rule handle_effect [OF run nc])
  have cases: "cases_ok d" and cases': "cases_ok d'"
    using ok effect_cases_ok [OF _ eff] by (simp_all add: results_ok_def)
  then have tbl: "tbl_ok er_id (records d)" "tbl_ok er_id (records d')" by (simp_all add: cases_ok_def)
  have st: "static d' = static d" and fs: "frameworks d' = frameworks d @ []"
    using eff by (auto simp: effect_def row_step_def)
  have rows: "\<exists>s\<in>set (records d). er_id s' = er_id s \<and> (s' = s \<or> case_step e (may_sit d) u s s')"
    if "s' \<in> set (records d')" for s'
    by (rule effect_rows [OF tbl(1) eff that])
  have "result_matches e d' s'" if s': "s' \<in> set (records d')" for s'
  proof (cases "er_status s' \<in> {draft, cancelled}")
    case True
    then show ?thesis by (auto simp: result_matches_def)
  next
    case live: False
    obtain s where s: "s \<in> set (records d)" and id: "er_id s' = er_id s"
      and step: "s' = s \<or> case_step e (may_sit d) u s s'"
      using rows [OF s'] by blast
    have get: "get_record d (er_id s) = Some s" and get': "get_record d' (er_id s) = Some s'"
      using s s' tbl id by (simp_all add: get_record_def tbl_get_in [symmetric])
    note fk = results_ok_fk [OF ok s]
    have m: "result_matches e d s" using ok s by (simp add: results_ok_def)
    have stamp: "same_stamp s s'" using step step_stamp by (auto simp: same_stamp_def)
    show ?thesis
    proof (cases "er_status s = draft")
      case False
      have "er_status s \<noteq> cancelled"
        using step step_terminal [of e "may_sit d" u s s'] live by (auto simp: is_open_iff)
      moreover have "same_result s s'" using step step_result [OF _ False] by (auto simp: same_result_def)
      ultimately show ?thesis
        by (intro result_matches_cong [OF st fs fk handle_scores_of [OF run get False] stamp])
          (use False m in simp_all)
    next
      case True
      have "is_submission q" using draft_moves [OF run nc _ get True get'] live by blast
      then obtain k where q: "q = SubmitEvaluation k" by (cases q) simp_all
      then have "submit_evaluation e u k d = Inr d'" using run by simp
      from submit_computes [OF this] obtain r c where r: "get_record d k = Some r"
        and c: "scored_fully d r" "evidence_ok d r" "result_of d r = Inr c"
        and row: "get_record d' k = Some (enter_stage e submitted (store_result e c r))"
        and others: "\<forall>j. j \<noteq> k \<longrightarrow> get_record d' j = get_record d j"
        by blast
      have k: "er_id s = k" using others get get' True live by (cases "er_id s = k") auto
      then have sr: "r = s" and s'': "s' = enter_stage e submitted (store_result e c s)"
        using r row get get' by auto
      have b: "er_bonus_points s' = er_bonus_points s" and stored: "result_stored e c s'"
        by (simp_all add: s'' enter_stage_def store_result_def result_stored_def)
      have "scores d' = scores d" by (rule handle_scores [OF run]) (simp add: q)
      then have "scores_of d' (er_id s) = scores_of d (er_id s)" by (simp add: scores_of_def)
      from result_of_cong [OF st fs fk this stamp b] c sr stored
      show ?thesis by (auto simp: result_matches_def)
    qed
  qed
  moreover have "framework_fk d'"
    unfolding framework_fk_def
  proof (intro ballI allI impI)
    fix s' j assume s': "s' \<in> set (records d')" and j: "er_framework s' = Some j"
    obtain s where "s \<in> set (records d)" "same_stamp s s'"
      using rows [OF s'] step_stamp by (metis same_stamp_def)
    then show "get_framework d' j \<noteq> None"
      using results_ok_fk [OF ok] j fs by (simp add: same_stamp_def get_framework_def)
  qed
  ultimately show ?thesis using cases' by (simp add: results_ok_def)
qed

lemma serve_results_ok: "results_ok e d \<Longrightarrow> results_ok e (serve e c d)"
proof -
  assume ok: "results_ok e d"
  obtain u q where c: "c = (u, q)" by fastforce
  show ?thesis
  proof (cases "handle e u q d")
    case (Inl x)
    then show ?thesis using ok by (simp add: serve_def c)
  next
    case (Inr d')
    have "results_ok e d'"
    proof (cases "is_create q")
      case True
      then obtain pid where "q = CreateEvaluation pid" by (cases q) simp_all
      then obtain s where "create_evaluation e u pid d = Inr (s, d')"
        using Inr by (auto simp: bindE_Inr_iff)
      then show ?thesis by (rule create_results_ok [OF ok])
    next
      case False
      then show ?thesis by (rule handle_results_ok [OF ok Inr])
    qed
    then show ?thesis using Inr by (simp add: serve_def c)
  qed
qed

interpretation result_sys: invariant_system "serve e" "results_ok e" for e
  by unfold_locales (rule serve_results_ok)

end
