(* ===== verification/AuditTrail.thy ===== *)
theory AuditTrail
  imports ResultIntegrity
begin

text \<open>
  The audit log across the evaluations router: every request keeps the chain of digests verifying
  and only appends rows, and the last \<open>status_changed\<close> row of a case names its current status.
\<close>

section \<open>Operations that keep the chain\<close>

text \<open>The rows stand in the order of their times, none of which is in the future.\<close>

definition log_in_order :: "env \<Rightarrow> db \<Rightarrow> bool" where
  "log_in_order e d \<longleftrightarrow> sorted (map al_created_at (audits d)) \<and> (\<forall>l\<in>set (audits d). al_created_at l \<le> now e)"

lemma in_order_log: "log_in_order e d \<Longrightarrow> log_in_order e (log_event e a t r x y d)"
  by (auto simp: log_in_order_def log_event_def Let_def sorted_append)

definition trail :: "env \<Rightarrow> db \<Rightarrow> db \<Rightarrow> bool" where
  "trail e d d' \<longleftrightarrow> audit_prefix d d' \<and> (audit_ok e d \<longrightarrow> audit_ok e d') \<and> (log_in_order e d \<longrightarrow> log_in_order e d')"

lemma trail_refl [simp, intro]: "trail e d d"
  by (simp add: trail_def)

lemma trail_trans [trans]: "trail e a b \<Longrightarrow> trail e b c \<Longrightarrow> trail e a c"
  by (auto simp: trail_def intro: audit_prefix_trans)

lemma trail_log [intro!]: "trail e d d1 \<Longrightarrow> trail e d (log_event e a t r x y d1)"
  by (auto simp: trail_def intro: audit_prefix_trans audit_ok_log in_order_log)

lemma trail_same: "trail e d d1 \<Longrightarrow> audits d2 = audits d1 \<Longrightarrow> trail e d d2"
  using audit_ok_same [of d2 d1 e] by (simp add: trail_def audit_prefix_def log_in_order_def)

lemma trail_frames [intro!]:
  assumes "trail e d d1"
  shows "trail e d (upd_record k f d1)" "trail e d (notify e' us t m r l d1)"
    "trail e d (notify_for_workflow_action e' q a d1)" "trail e d (notify_stage_owner_reassigned e' q o1 s d1)"
    "trail e d (add_comment_row e' k b p st w d1)" "trail e d (extension_notice e' q z d1)"
    "trail e d (archive_final_pdf_detached e' k d1)" "trail e d (d1\<lparr>scores := sc\<rparr>)"
    "trail e d (d1\<lparr>records := rs\<rparr>)" "trail e d (d1\<lparr>code_seq := n\<rparr>)"
    "trail e d (fold (add_score j) xs d1)"
proof -
  have "audits (fold (add_score j) xs d0) = audits d0" for d0
    by (induction xs arbitrary: d0) (simp_all add: add_score_def)
  then show "trail e d (fold (add_score j) xs d1)" by (intro trail_same [OF assms])
qed (rule trail_same [OF assms], simp add: frame_simps add_comment_row_def extension_notice_def
      notify_stage_owner_reassigned_def archive_final_pdf_detached_def split: option.split)+

lemma trail_claim [intro!]: "trail e d d1 \<Longrightarrow> trail e d (claim e t r u d1)"
  by (auto simp: claim_def)

lemma trail_transition:
  assumes run: "apply_transition e r a u hook d = Inr d'"
    and hook: "\<And>d1 d2. hook d1 = Inr d2 \<Longrightarrow> trail e d1 d2"
  shows "trail e d d'"
proof -
  let ?t = "transition_of a"
  obtain d2 where h: "hook (claim e ?t r u d) = Inr d2"
    and d': "d' = (let d4 = log_event e (cu_id u) ''status_changed'' (Some (er_id r))
               (Some (status_json (er_status r))) (Some (status_json (tr_to ?t)))
               (upd_record (er_id r) (enter_stage e (tr_to ?t)) d2)
         in (case get_record d4 (er_id r) of None \<Rightarrow> d4 | Some r' \<Rightarrow> notify_for_workflow_action e r' a d4))"
    using run unfolding apply_transition_Inr Let_def by blast
  have "trail e d (claim e ?t r u d)" by blast
  also have "trail e (claim e ?t r u d) d2" by (rule hook [OF h])
  finally have "trail e d d2" .
  then show ?thesis by (auto simp: d' Let_def split: option.split)
qed

lemma trail_hooks:
  "on_record k (\<lambda>r. finalize_scoring e r u) d1 = Inr d2 \<Longrightarrow> trail e d1 d2"
  "finalize_hook e k d1 = Inr d2 \<Longrightarrow> trail e d1 d2"
  "no_hook d1 = Inr d2 \<Longrightarrow> trail e d1 d2"
  "Inr (log_event e a t r x y (add_comment_row e k b p s w d1)) = Inr d2 \<Longrightarrow> trail e d1 d2"
  by (auto simp: on_record_def finalize_scoring_def finalize_hook_def no_hook_def bindE_Inr_iff Let_def
      split: option.splits if_splits sum.splits)

lemma trail_submit: "submit_evaluation e u k d = Inr d' \<Longrightarrow> trail e d d'"
  unfolding submit_evaluation_def bindE_Inr_iff
  by (elim exE conjE, erule trail_transition) (rule trail_hooks(1))

lemma trail_approve_as_hr:
  assumes "approve_as_hr e u k d = Inr d'"
  shows "trail e d d'"
proof -
  obtain r d1 where tr: "apply_transition e r (hr_approve_action r) u
      (if is_direct_ceo_path r then finalize_hook e k else no_hook) d = Inr d1"
    and d': "d' = (if is_direct_ceo_path r then archive_final_pdf_detached e k d1 else d1)"
    using assms by (auto simp: approve_as_hr_def bindE_Inr_iff guard_simps)
  have "trail e d d1"
    by (rule trail_transition [OF tr]) (auto intro: trail_hooks(2,3) split: if_splits)
  then show ?thesis by (auto simp: d')
qed

lemma trail_deputy: "approve_as_deputy e u k d = Inr d' \<Longrightarrow> trail e d d'"
  unfolding approve_as_deputy_def bindE_Inr_iff
  by (elim exE conjE, erule trail_transition) (rule trail_hooks(3))

lemma trail_ceo: "ceo_finalize e u k d = Inr d' \<Longrightarrow> trail e d d'"
  unfolding ceo_finalize_def bindE_Inr_iff guard_simps
  by (auto intro!: trail_frames elim!: trail_transition intro: trail_hooks(2))

lemma trail_return: "return_evaluation e u k t d = Inr d' \<Longrightarrow> trail e d d'"
  by (erule return_run, erule trail_transition) (rule trail_hooks(4))

lemma trail_cancel: "cancel_evaluation e u k t d = Inr d' \<Longrightarrow> trail e d d'"
  unfolding cancel_evaluation_def bindE_Inr_iff
  by (elim exE conjE, erule trail_transition) (rule trail_hooks(4))

lemma trail_create:
  assumes "create_evaluation e u pid d = Inr (r, d')"
  shows "trail e d d'"
proof -
  have ens: "audits (snd (ensure_framework d)) = audits d"
    by (auto simp: ensure_framework_def bump_def Let_def split: option.split)
  have "trail e d (snd (framework_for_new_case p d))" for p
    by (rule trail_same [OF trail_refl]) (auto simp: framework_for_new_case_def ens split: option.split)
  moreover have "trail e a (snd (next_evaluation_code a))" for a
    by (rule trail_same [OF trail_refl]) (simp add: next_evaluation_code_def Let_def)
  ultimately have "trail e d (snd (next_evaluation_code (snd (framework_for_new_case p d))))" for p
    by (rule trail_trans)
  then show ?thesis
    using assms by (auto simp: create_evaluation_def bindE_Inr_iff Let_def split_beta
        split: option.splits if_splits)
qed

lemma trail_comment:
  assumes run: "add_comment e u k t p d = Inr d'"
  shows "trail e d d'"
proof (cases p)
  case None
  then obtain r stage required owner where "get_record d k = Some r"
    "comment_stage_by_role r (cu_role u) = Some (stage, required, owner)"
    using run by (auto simp: add_comment_def bindE_Inr_iff guard_simps split: option.splits)
  then show ?thesis
    using run None by (auto simp: add_comment_def bindE_Inr_iff guard_simps split: if_splits)
next
  case (Some j)
  then obtain r where reply: "add_reply e u r j t d = Inr d'"
    using run by (auto simp: add_comment_def bindE_Inr_iff)
  show ?thesis
  proof (cases "get_comment d j")
    case None
    then show ?thesis using reply by (simp add: add_reply_def bindE_Inr_iff)
  next
    case (Some c)
    then show ?thesis using reply by (auto simp: add_reply_def bindE_Inr_iff Let_def split: if_splits)
  qed
qed

lemma trail_remarks:
  "upsert_scores e u k xs d = Inr d' \<Longrightarrow> trail e d d'"
  "set_evaluator_comment e u k t d = Inr d' \<Longrightarrow> trail e d d'"
  "extend_submission_window e u k z t d = Inr d' \<Longrightarrow> trail e d d'"
  "hr_claim e u k d = Inr d' \<Longrightarrow> trail e d d'"
  "resolve_objection e u k t d = Inr d' \<Longrightarrow> trail e d d'"
  by (auto simp: upsert_scores_def replace_scores_def set_evaluator_comment_def
      extend_submission_window_def hr_claim_def resolve_objection_def
      bindE_Inr_iff Let_def split: if_splits)

lemma trail_special: "set_special_score e u k q t d = Inr d' \<Longrightarrow> trail e d d'"
  by (auto simp: set_special_score_def bindE_Inr_iff Let_def split: if_splits sum.splits)

lemma trail_owners:
  "hr_handover e u k j t d = Inr d' \<Longrightarrow> trail e d d'"
  "reassign_stage_owner e u k s j t d = Inr d' \<Longrightarrow> trail e d d'"
  by (auto simp: hr_handover_def reassign_stage_owner_def bindE_Inr_iff Let_def
      split: if_splits option.splits)

lemmas trail_handlers = trail_submit trail_approve_as_hr trail_deputy trail_ceo trail_return
  trail_cancel trail_create trail_comment trail_remarks trail_special trail_owners

lemma handle_trail: "handle e u q d = Inr d' \<Longrightarrow> trail e d d'"
  by (cases q) (auto simp: bindE_Inr_iff intro: trail_handlers)

lemma serve_trail: "trail e d (serve e c d)"
  by (cases "handle e (fst c) (snd c) d") (auto simp: serve_def intro: handle_trail)

interpretation trail_sys: invariant_system "serve e" "audit_ok e" for e
  by unfold_locales (use serve_trail in \<open>simp add: trail_def\<close>)

lemma run_prefix: "audit_prefix d (fold (serve e) cs d)"
proof (induction cs arbitrary: d)
  case (Cons c cs)
  have "audit_prefix d (serve e c d)" using serve_trail by (simp add: trail_def)
  then show ?case using Cons.IH audit_prefix_trans by simp
qed auto

section \<open>The log knows the life of every case\<close>

text \<open>What the log can tell of a case: the identifier, the status, and when it was opened and entered its stage.\<close>

definition lives :: "db \<Rightarrow> (int \<times> evaluation_status \<times> moment \<times> moment) list" where
  "lives d = map (\<lambda>r. (er_id r, er_status r, er_created_at r, er_stage_entered_at r)) (records d)"

definition status_rows :: "db \<Rightarrow> int \<Rightarrow> audit_log list" where
  "status_rows d k = filter (\<lambda>l. al_event l = ''status_changed'' \<and> al_record l = Some k) (audits d)"

definition logged_status :: "db \<Rightarrow> int \<Rightarrow> json option" where
  "logged_status d k = (case rev (status_rows d k) of [] \<Rightarrow> None | l # _ \<Rightarrow> al_new l)"

definition statuses_logged :: "db \<Rightarrow> bool" where
  "statuses_logged d \<longleftrightarrow> (\<forall>(k, s)\<in>set (statuses d). logged_status d k = Some (status_json s))"

definition unlogged :: "db \<Rightarrow> db \<Rightarrow> bool" where
  "unlogged d d' \<longleftrightarrow> lives d' = lives d \<and> status_rows d' = status_rows d"

lemma statuses_lives: "statuses d = map (\<lambda>x. (fst x, fst (snd x))) (lives d)"
  by (simp add: statuses_def lives_def)

lemma status_rows_log:
  obtains l where "status_rows (log_event e a t r x y d) =
      (\<lambda>k. status_rows d k @ (if t = ''status_changed'' \<and> r = Some k then [l] else []))"
    and "al_old l = x" and "al_new l = y" and "al_created_at l = now e"
proof -
  define l where "l = last (audits (log_event e a t r x y d))"
  show thesis by (rule that [of l]) (auto simp: l_def status_rows_def log_event_def Let_def fun_eq_iff)
qed

lemma logged_status_log:
  "logged_status (log_event e a t r x y d) k =
     (if t = ''status_changed'' \<and> r = Some k then y else logged_status d k)"
  by (rule status_rows_log [of e a t r x y d]) (simp add: logged_status_def)

lemma status_rows_same: "audits d' = audits d \<Longrightarrow> status_rows d' = status_rows d"
  by (simp add: status_rows_def fun_eq_iff)

lemma lives_same: "records d' = records d \<Longrightarrow> lives d' = lives d"
  by (simp add: lives_def)

lemma unlogged_refl [simp, intro]: "unlogged d d"
  by (simp add: unlogged_def)

lemma unlogged_trans: "unlogged a b \<Longrightarrow> unlogged b c \<Longrightarrow> unlogged a c"
  by (simp add: unlogged_def)

lemma unlogged_log [intro!]:
  "unlogged d d1 \<Longrightarrow> t \<noteq> ''status_changed'' \<Longrightarrow> unlogged d (log_event e a t r x y d1)"
  by (rule status_rows_log [of e a t r x y d1])
    (simp add: unlogged_def lives_same [of "log_event e a t r x y d1" d1] frame_simps)

lemma lives_upd:
  "(\<And>r. er_id (f r) = er_id r) \<Longrightarrow> (\<And>r. er_status (f r) = er_status r) \<Longrightarrow>
     (\<And>r. er_created_at (f r) = er_created_at r) \<Longrightarrow> (\<And>r. er_stage_entered_at (f r) = er_stage_entered_at r) \<Longrightarrow>
     lives (upd_record k f d) = lives d"
  by (simp add: lives_def upd_record_def tbl_upd_def)

lemma unlogged_upd [intro!]:
  "unlogged d d1 \<Longrightarrow> (\<And>r. er_id (f r) = er_id r) \<Longrightarrow> (\<And>r. er_status (f r) = er_status r) \<Longrightarrow>
     (\<And>r. er_created_at (f r) = er_created_at r) \<Longrightarrow> (\<And>r. er_stage_entered_at (f r) = er_stage_entered_at r) \<Longrightarrow>
     unlogged d (upd_record k f d1)"
  by (simp add: unlogged_def status_rows_same [of "upd_record k f d1" d1] frame_simps lives_upd)

lemma unlogged_same:
  "unlogged d d1 \<Longrightarrow> audits d2 = audits d1 \<Longrightarrow> records d2 = records d1 \<Longrightarrow> unlogged d d2"
  by (simp add: unlogged_def status_rows_same [of d2 d1] lives_same [of d2 d1])

lemma unlogged_frames [intro!]:
  assumes "unlogged d d1"
  shows "unlogged d (notify e' us t m r l d1)"
    "unlogged d (notify_for_workflow_action e' q a d1)"
    "unlogged d (notify_stage_owner_reassigned e' q o1 s d1)"
    "unlogged d (add_comment_row e' k b p st w d1)" "unlogged d (extension_notice e' q z d1)"
    "unlogged d (archive_final_pdf_detached e' k d1)" "unlogged d (d1\<lparr>scores := sc\<rparr>)"
    "unlogged d (fold (add_score j) xs d1)"
proof -
  have "audits (fold (add_score j) xs d0) = audits d0" "records (fold (add_score j) xs d0) = records d0"
    for d0 by (induction xs arbitrary: d0) (simp_all add: add_score_def)
  then show "unlogged d (fold (add_score j) xs d1)" by (intro unlogged_same [OF assms])
qed (rule unlogged_same [OF assms]; simp add: frame_simps add_comment_row_def extension_notice_def
      notify_stage_owner_reassigned_def archive_final_pdf_detached_def split: option.split)+

lemma unlogged_claim [intro!]: "unlogged d d1 \<Longrightarrow> unlogged d (claim e t r u d1)"
  by (auto simp: claim_def)

text \<open>What a request does to the lives and to the rows that tell them.\<close>

inductive log_step :: "env \<Rightarrow> db \<Rightarrow> db \<Rightarrow> bool" for e :: env and d d' :: db where
  quiet: "unlogged d d' \<Longrightarrow> log_step e d d'"
| moved: "get_record d (er_id r) = Some r \<Longrightarrow>
    lives d' = map (\<lambda>x. if fst x = er_id r then (er_id r, s, fst (snd (snd x)), now e) else x) (lives d) \<Longrightarrow>
    status_rows d' = (\<lambda>k. status_rows d k @ (if er_id r = k then [l] else [])) \<Longrightarrow>
    al_old l = Some (status_json (er_status r)) \<Longrightarrow> al_new l = Some (status_json s) \<Longrightarrow> al_created_at l = now e \<Longrightarrow>
    log_step e d d'"
| born: "j \<notin> fst ` set (lives d) \<Longrightarrow> lives d' = lives d @ [(j, draft, now e, now e)] \<Longrightarrow>
    status_rows d' = (\<lambda>k. status_rows d k @ (if j = k then [l] else [])) \<Longrightarrow>
    al_old l = None \<Longrightarrow> al_new l = Some (status_json draft) \<Longrightarrow> log_step e d d'"

lemma log_step_unlogged:
  assumes "log_step e d d1" and "unlogged d1 d'"
  shows "log_step e d d'"
  using assms by (cases rule: log_step.cases) (auto simp: unlogged_def intro: log_step.intros)

lemma lives_move:
  "lives (upd_record k (enter_stage e s) d) =
     map (\<lambda>x. if fst x = k then (k, s, fst (snd (snd x)), now e) else x) (lives d)"
  by (simp add: lives_def upd_record_def tbl_upd_def enter_stage_def)

lemma transition_logged:
  assumes run: "apply_transition e r a u hook d = Inr d'" and r: "get_record d (er_id r) = Some r"
    and hook: "\<And>d1 d2. hook d1 = Inr d2 \<Longrightarrow> unlogged d1 d2"
  shows "log_step e d d'"
proof -
  let ?t = "transition_of a"
  obtain d2 where h: "hook (claim e ?t r u d) = Inr d2"
    and d': "d' = (let d4 = log_event e (cu_id u) ''status_changed'' (Some (er_id r))
               (Some (status_json (er_status r))) (Some (status_json (tr_to ?t)))
               (upd_record (er_id r) (enter_stage e (tr_to ?t)) d2)
         in (case get_record d4 (er_id r) of None \<Rightarrow> d4 | Some r' \<Rightarrow> notify_for_workflow_action e r' a d4))"
    using run unfolding apply_transition_Inr Let_def by blast
  let ?d3 = "upd_record (er_id r) (enter_stage e (tr_to ?t)) d2"
  let ?d4 = "log_event e (cu_id u) ''status_changed'' (Some (er_id r))
    (Some (status_json (er_status r))) (Some (status_json (tr_to ?t))) ?d3"
  have "unlogged d (claim e ?t r u d)" by blast
  then have q: "unlogged d d2" using hook [OF h] by (rule unlogged_trans)
  obtain l where l: "status_rows ?d4 = (\<lambda>k. status_rows ?d3 k @ (if er_id r = k then [l] else []))"
    "al_old l = Some (status_json (er_status r))" "al_new l = Some (status_json (tr_to ?t))" "al_created_at l = now e"
    by (rule status_rows_log [of e "cu_id u" "''status_changed''" "Some (er_id r)"
          "Some (status_json (er_status r))" "Some (status_json (tr_to ?t))" ?d3]) auto
  have "log_step e d ?d4"
  proof (rule log_step.moved [OF r _ _ l(2-4)])
    show "lives ?d4 = map (\<lambda>x. if fst x = er_id r then (er_id r, tr_to ?t, fst (snd (snd x)), now e) else x) (lives d)"
      using q by (simp add: lives_same [of ?d4 ?d3] frame_simps lives_move unlogged_def)
    show "status_rows ?d4 = (\<lambda>k. status_rows d k @ (if er_id r = k then [l] else []))"
      using q l(1) by (simp add: status_rows_same [of ?d3 d2] frame_simps unlogged_def)
  qed
  moreover have "unlogged x (case get_record x j of None \<Rightarrow> x | Some r' \<Rightarrow> notify_for_workflow_action e r' a x)"
    for x j by (auto split: option.split)
  then have "unlogged ?d4 d'" by (simp add: d' Let_def)
  ultimately show ?thesis by (rule log_step_unlogged)
qed

lemma unlogged_hooks:
  "on_record k (\<lambda>r. finalize_scoring e r u) d1 = Inr d2 \<Longrightarrow> unlogged d1 d2"
  "finalize_hook e k d1 = Inr d2 \<Longrightarrow> unlogged d1 d2"
  "no_hook d1 = Inr d2 \<Longrightarrow> unlogged d1 d2"
  "t \<noteq> ''status_changed'' \<Longrightarrow>
     Inr (log_event e a t r x y (add_comment_row e k b p s w d1)) = Inr d2 \<Longrightarrow> unlogged d1 d2"
  by (auto simp: on_record_def finalize_scoring_def finalize_hook_def no_hook_def bindE_Inr_iff Let_def
      store_result_def split: option.splits if_splits sum.splits)

lemma logged_approve_as_hr:
  assumes "approve_as_hr e u k d = Inr d'"
  shows "log_step e d d'"
proof -
  obtain r d1 where r: "get_record d k = Some r" and tr: "apply_transition e r (hr_approve_action r) u
      (if is_direct_ceo_path r then finalize_hook e k else no_hook) d = Inr d1"
    and d': "d' = (if is_direct_ceo_path r then archive_final_pdf_detached e k d1 else d1)"
    using assms by (auto simp: approve_as_hr_def bindE_Inr_iff guard_simps)
  have "log_step e d d1"
    by (rule transition_logged [OF tr]) (use r record_st.row_key [OF r] in \<open>auto intro: unlogged_hooks(2,3) split: if_splits\<close>)
  moreover have "unlogged d1 d'" by (auto simp: d')
  ultimately show ?thesis by (rule log_step_unlogged)
qed

lemma logged_ceo_finalize:
  assumes "ceo_finalize e u k d = Inr d'"
  shows "log_step e d d'"
proof -
  obtain r d1 where r: "get_record d k = Some r" and tr: "apply_transition e r CeoFinalize u (finalize_hook e k) d = Inr d1"
    and d': "d' = archive_final_pdf_detached e k d1"
    using assms by (auto simp: ceo_finalize_def bindE_Inr_iff guard_simps)
  have "log_step e d d1"
    by (rule transition_logged [OF tr]) (use r record_st.row_key [OF r] unlogged_hooks(2) in auto)
  moreover have "unlogged d1 d'" by (auto simp: d')
  ultimately show ?thesis by (rule log_step_unlogged)
qed

lemma create_id:
  assumes run: "create_evaluation e u pid d = Inr (r, d')" and s: "s \<in> set (records d)"
  shows "er_id s \<noteq> er_id r"
proof -
  obtain p a sv f d1 where f: "framework_for_new_case p d = (f, d1)"
    and r: "r = new_record e p a sv (fst (next_evaluation_code d1)) (if_id f) (snd (next_evaluation_code d1))"
    by (rule create_Inr [OF run])
  have "records d1 = records d"
    using f by (auto simp: framework_for_new_case_def ensure_framework_def bump_def Let_def
        split: option.splits if_splits)
  then have "er_id r = tbl_next er_id (records d)"
    by (simp add: r next_evaluation_code_def Let_def)
  then show ?thesis using s tbl_next_gt [of s "records d" er_id] by auto
qed

lemma logged_create:
  assumes run: "create_evaluation e u pid d = Inr (r, d')"
  shows "log_step e d d'"
proof -
  have recs: "records d' = records d @ [r]" by (rule create_Inr [OF run], simp)
  have life: "er_status r = draft \<and> er_created_at r = now e \<and> er_stage_entered_at r = now e"
    by (rule create_Inr [OF run], simp add: new_record_def)
  have fresh: "er_id r \<notin> fst ` set (lives d)"
    using create_id [OF run] by (fastforce simp: lives_def)
  have ens: "audits (snd (ensure_framework d)) = audits d"
    by (auto simp: ensure_framework_def bump_def Let_def split: option.split)
  then have fw: "audits (snd (framework_for_new_case p d)) = audits d" for p
    by (auto simp: framework_for_new_case_def split: option.split)
  obtain p f d1 where f: "framework_for_new_case p d = (f, d1)"
    and d': "d' = log_event e (cu_id u) ''status_changed'' (Some (er_id r)) None (Some (status_json draft))
      ((snd (next_evaluation_code d1))\<lparr>records := records d @ [r]\<rparr>)"
    by (rule create_Inr [OF run])
  let ?d2 = "(snd (next_evaluation_code d1))\<lparr>records := records d @ [r]\<rparr>"
  have "audits ?d2 = audits d"
    using fw [of p] f by (simp add: next_evaluation_code_def Let_def)
  then have rows: "status_rows ?d2 = status_rows d" by (rule status_rows_same)
  obtain l where l: "status_rows d' = (\<lambda>k. status_rows ?d2 k @ (if er_id r = k then [l] else []))"
    "al_old l = None" "al_new l = Some (status_json draft)"
    by (rule status_rows_log [of e "cu_id u" "''status_changed''" "Some (er_id r)" None "Some (status_json draft)" ?d2])
      (auto simp: d')
  show ?thesis
    by (rule log_step.born [OF fresh _ _ l(2,3)]) (use life rows l(1) in \<open>simp_all add: lives_def recs\<close>)
qed

lemma unlogged_comment:
  assumes run: "add_comment e u k t p d = Inr d'"
  shows "unlogged d d'"
proof (cases p)
  case None
  then obtain r stage required owner where "get_record d k = Some r"
    "comment_stage_by_role r (cu_role u) = Some (stage, required, owner)"
    using run by (auto simp: add_comment_def bindE_Inr_iff guard_simps split: option.splits)
  then show ?thesis
    using run None by (auto simp: add_comment_def bindE_Inr_iff guard_simps split: if_splits)
next
  case (Some j)
  then obtain r where reply: "add_reply e u r j t d = Inr d'"
    using run by (auto simp: add_comment_def bindE_Inr_iff)
  show ?thesis
  proof (cases "get_comment d j")
    case None
    then show ?thesis using reply by (simp add: add_reply_def bindE_Inr_iff)
  next
    case (Some c)
    then show ?thesis using reply by (auto simp: add_reply_def bindE_Inr_iff Let_def split: if_splits)
  qed
qed

lemma logged_remark:
  assumes run: "handle e u q d = Inr d'" and q: "\<not> is_create q" "\<not> is_submission q" "\<not> is_move q"
  shows "unlogged d d'"
proof (cases q)
  case (UpsertScores k xs)
  then have "upsert_scores e u k xs d = Inr d'" using run by simp
  then show ?thesis
    by (auto simp: upsert_scores_def replace_scores_def bindE_Inr_iff split: if_splits)
next
  case (SetSpecialScore k b t)
  then have "set_special_score e u k b t d = Inr d'" using run by simp
  then show ?thesis
    by (auto simp: set_special_score_def bindE_Inr_iff Let_def split: if_splits sum.splits)
next
  case (Reassign k s j t)
  then have "reassign_stage_owner e u k s j t d = Inr d'" using run by simp
  moreover have "er_id (set_seat s j r) = er_id r" "er_status (set_seat s j r) = er_status r"
    "er_created_at (set_seat s j r) = er_created_at r" "er_stage_entered_at (set_seat s j r) = er_stage_entered_at r" for r
    by (simp_all add: set_seat_def split: seat.split)
  ultimately show ?thesis
    by (auto simp: reassign_stage_owner_def bindE_Inr_iff Let_def split: if_splits option.splits)
next
  case (AddComment k t p)
  then have "add_comment e u k t p d = Inr d'" using run by simp
  then show ?thesis by (rule unlogged_comment)
next
  case (HandoverHr k j t)
  then have "hr_handover e u k j t d = Inr d'" using run by simp
  then show ?thesis
    by (auto simp: hr_handover_def bindE_Inr_iff Let_def split: if_splits option.splits)
qed (use assms in \<open>auto simp: set_evaluator_comment_def extend_submission_window_def hr_claim_def
    resolve_objection_def bindE_Inr_iff Let_def split: if_splits\<close>)

lemma handle_logged:
  assumes run: "handle e u q d = Inr d'"
  shows "log_step e d d'"
proof (cases q)
  case (CreateEvaluation p)
  then show ?thesis using run logged_create by (auto simp: bindE_Inr_iff)
next
  case (SubmitEvaluation k)
  then obtain r where "get_record d k = Some r"
    "apply_transition e r (submit_action r) u (on_record k (\<lambda>r. finalize_scoring e r u)) d = Inr d'"
    using run by (auto simp: submit_evaluation_def bindE_Inr_iff guard_simps)
  then show ?thesis using record_st.row_key [of d k r] transition_logged unlogged_hooks(1) by metis
next
  case (ApproveAsHr k)
  then show ?thesis using run logged_approve_as_hr by simp
next
  case (ApproveAsDeputy k)
  then obtain r where "get_record d k = Some r" "apply_transition e r DeputyApprove u no_hook d = Inr d'"
    using run by (auto simp: approve_as_deputy_def bindE_Inr_iff guard_simps)
  then show ?thesis using record_st.row_key [of d k r] transition_logged unlogged_hooks(3) by metis
next
  case (FinalizeAsCeo k)
  then show ?thesis using run logged_ceo_finalize by simp
next
  case (ReturnEvaluation k t)
  then have "return_evaluation e u k t d = Inr d'" using run by simp
  then show ?thesis
    by (rule return_run, elim transition_logged)
      (use record_st.row_key in fastforce, rule unlogged_hooks(4) [rotated], assumption, simp)
next
  case (CancelEvaluation k t)
  then have "cancel_evaluation e u k t d = Inr d'" using run by simp
  then show ?thesis
    unfolding cancel_evaluation_def bindE_Inr_iff guard_simps
    by (elim exE conjE, elim transition_logged)
      (use record_st.row_key in fastforce, rule unlogged_hooks(4) [rotated], assumption, simp)
qed (use log_step.quiet [OF logged_remark [OF run]] in simp_all)

lemma serve_log_step: "log_step e d (serve e c d)"
  by (cases "handle e (fst c) (snd c) d") (auto simp: serve_def intro: handle_logged log_step.quiet)

section \<open>The last row names the status\<close>

lemma unlogged_logged: "unlogged d d' \<Longrightarrow> statuses_logged d \<Longrightarrow> statuses_logged d'"
  by (simp add: unlogged_def statuses_logged_def statuses_lives logged_status_def)

lemma step_statuses_logged:
  assumes "log_step e d d'" and "statuses_logged d"
  shows "statuses_logged d'"
  using assms
proof (cases rule: log_step.cases)
  case quiet
  then show ?thesis using assms(2) by (rule unlogged_logged)
qed (use assms(2) in \<open>auto simp: statuses_logged_def statuses_lives logged_status_def\<close>)

lemma serve_logged: "statuses_logged d \<Longrightarrow> statuses_logged (serve e c d)"
  by (rule step_statuses_logged [OF serve_log_step])

interpretation status_log_sys: invariant_system "serve e" statuses_logged for e
  by unfold_locales (rule serve_logged)

section \<open>The rows replay to the case\<close>

definition status_named :: "json option \<Rightarrow> evaluation_status option" where
  "status_named v = find (\<lambda>s. v = Some (status_json s))
     [draft, submitted, hr_approved, deputy_approved, finalized, cancelled]"

text \<open>
  Reading the rows of a case in order, from the stage \<open>draft\<close> entered when the case was opened. The row of
  the opening itself has no old status; a case opened by a batch has no such row.
\<close>

fun replay :: "evaluation_status \<times> moment \<Rightarrow> audit_log list \<Rightarrow> (evaluation_status \<times> moment) option" where
  "replay p [] = Some p"
| "replay p (l # ls) =
     (if al_old l = None then (if al_new l = Some (status_json draft) \<and> fst p = draft then replay p ls else None)
      else if al_old l \<noteq> Some (status_json (fst p)) then None
      else (case status_named (al_new l) of None \<Rightarrow> None | Some s \<Rightarrow> replay (s, al_created_at l) ls))"

definition replayed :: "db \<Rightarrow> bool" where
  "replayed d \<longleftrightarrow> (\<forall>(k, s, created, entered)\<in>set (lives d). replay (draft, created) (status_rows d k) = Some (s, entered)) \<and>
     (\<forall>k. k \<notin> fst ` set (lives d) \<longrightarrow> status_rows d k = [])"

lemma status_json_inj [simp]: "status_json s = status_json s' \<longleftrightarrow> s = s'"
  by (cases s; cases s') (simp_all add: status_json_def)

lemma status_named_json [simp]: "status_named (Some (status_json s)) = Some s"
  by (cases s) (simp_all add: status_named_def)

lemma replay_append: "replay p (ls @ ms) = (case replay p ls of None \<Rightarrow> None | Some q \<Rightarrow> replay q ms)"
  by (induction p ls rule: replay.induct) (auto split: option.split)

lemma replay_status: "replay (s, t) ls = Some (s1, t1) \<Longrightarrow> \<exists>t2. replay (s, t') ls = Some (s1, t2)"
proof (induction ls)
  case (Cons l ls)
  then show ?case by (cases "al_old l = None") (auto split: if_splits option.splits)
qed simp

lemma replay_step:
  assumes step: "log_step e d d'" and ok: "replayed d"
  shows "replayed d'"
  using step
proof (cases rule: log_step.cases)
  case quiet
  then show ?thesis using ok by (simp add: replayed_def unlogged_def)
next
  case (moved r s l)
  have here: "(er_id r, er_status r, er_created_at r, er_stage_entered_at r) \<in> set (lives d)"
    using tbl_get_Some_set [OF moved(1) [unfolded get_record_def]] by (auto simp: lives_def)
  have "replay (draft, created) (status_rows d (er_id r) @ [l]) = Some (s, now e)"
    if "(er_id r, s0, created, entered) \<in> set (lives d)" for s0 created entered
  proof -
    have "replay (draft, er_created_at r) (status_rows d (er_id r)) = Some (er_status r, er_stage_entered_at r)"
      using ok here by (auto simp: replayed_def)
    then obtain t2 where "replay (draft, created) (status_rows d (er_id r)) = Some (er_status r, t2)"
      using replay_status by blast
    then show ?thesis using moved(4-6) by (simp add: replay_append)
  qed
  note moved_case = this
  have other: "replay (draft, c) (status_rows d k) = Some (s0, t)" if "(k, s0, c, t) \<in> set (lives d)" for k s0 c t
    using ok that by (auto simp: replayed_def)
  have "replay (draft, c) (status_rows d' k) = Some (s0, t)" if m: "(k, s0, c, t) \<in> set (lives d')" for k s0 c t
  proof (cases "k = er_id r")
    case True
    then obtain s1 t1 where "(er_id r, s1, c, t1) \<in> set (lives d)" and new: "s0 = s" "t = now e"
      using m unfolding moved(2) by (auto split: if_splits)
    then show ?thesis using moved_case [of s1 c t1] by (simp add: moved(3) True new)
  next
    case False
    then have "(k, s0, c, t) \<in> set (lives d)" using m unfolding moved(2) by (auto split: if_splits)
    then show ?thesis using other False by (simp add: moved(3))
  qed
  moreover have "fst ` set (lives d') = fst ` set (lives d)"
    unfolding moved(2) set_map image_image by (intro image_cong) auto
  moreover have "er_id r \<in> fst ` set (lives d)" using here by force
  ultimately show ?thesis using ok by (auto simp: replayed_def moved(3))
next
  case (born j l)
  have other: "replay (draft, c) (status_rows d k) = Some (s, t) \<and> k \<noteq> j" if "(k, s, c, t) \<in> set (lives d)" for k s c t
    using ok that born(1) by (force simp: replayed_def)
  have "status_rows d j = []" using ok born(1) by (simp add: replayed_def)
  then have new: "replay (draft, c) (status_rows d' k) = Some (s, t)" if "(k, s, c, t) \<in> set (lives d')" for k s c t
    using that other [of k s c t] born(4,5) by (auto simp: born(2,3))
  have "status_rows d' k = []" if "k \<notin> fst ` set (lives d')" for k
    using ok that by (auto simp: replayed_def born(2,3))
  then show ?thesis using new by (auto simp: replayed_def)
qed

lemma serve_replayed: "replayed d \<Longrightarrow> replayed (serve e c d)"
  by (rule replay_step [OF serve_log_step])

interpretation replay_sys: invariant_system "serve e" replayed for e
  by unfold_locales (rule serve_replayed)

interpretation order_sys: invariant_system "serve e" "log_in_order e" for e
  by unfold_locales (use serve_trail in \<open>auto simp: trail_def\<close>)

end
