(* ===== verification/Progress.thy ===== *)
theory Progress
  imports AuditTrail
begin

text \<open>
  No case gets stuck past the scoring stage: whoever the case waits for can move it on, and nobody
  else can.
\<close>

text \<open>The identity a case waits for, and the request that moves it on.\<close>

definition waits_for :: "evaluation_record \<Rightarrow> current_user \<Rightarrow> bool" where
  "waits_for r u = (case er_status r of
     submitted \<Rightarrow> cu_role u = hr \<and> (er_hr r = None \<or> er_hr r = Some (cu_id u)) \<and>
       cu_personnel_id u \<noteq> Some (er_subject r)
   | hr_approved \<Rightarrow> (if er_deputy r = None then may_act_at (cu_role u) ceo \<and> er_ceo r = cu_id u
       else may_act_at (cu_role u) deputy \<and> er_deputy r = Some (cu_id u))
   | deputy_approved \<Rightarrow> may_act_at (cu_role u) ceo \<and> er_ceo r = cu_id u
   | _ \<Rightarrow> False)"

definition approval :: "evaluation_record \<Rightarrow> request" where
  "approval r = (case er_status r of
     submitted \<Rightarrow> ApproveAsHr (er_id r)
   | hr_approved \<Rightarrow> (if er_deputy r = None then FinalizeAsCeo (er_id r) else ApproveAsDeputy (er_id r))
   | _ \<Rightarrow> FinalizeAsCeo (er_id r))"

lemma finalize_hook_total:
  assumes "get_record d k = Some r" and "get_personnel d (er_subject r) \<noteq> None"
  shows "\<exists>d2. finalize_hook e k d = Inr d2"
  using assms
  by (auto simp: finalize_hook_def on_record_def Let_def record_st.row_upd frame_simps
      build_final_snapshot_def bindE_Inr_iff split: option.splits)

lemma transition_runs:
  assumes r: "get_record d k = Some r"
    and fin: "tr_to (transition_of a) = finalized \<longrightarrow> er_final_pct r \<noteq> None \<and> scores_of d k \<noteq> []"
    and hook: "\<exists>d2. hook (claim e (transition_of a) r u d) = Inr d2"
  shows "(\<exists>d'. apply_transition e r a u hook d = Inr d') \<longleftrightarrow>
    ensure_transition_allowed r a u = Inr (transition_of a)"
proof
  assume "\<exists>d'. apply_transition e r a u hook d = Inr d'"
  then show "ensure_transition_allowed r a u = Inr (transition_of a)"
    unfolding apply_transition_Inr by blast
next
  assume "ensure_transition_allowed r a u = Inr (transition_of a)"
  then show "\<exists>d'. apply_transition e r a u hook d = Inr d'"
    using fin hook record_st.row_key [OF r] unfolding apply_transition_Inr Let_def by blast
qed

text \<open>The handlers run the transition of their stage behind their guards.\<close>

lemma approve_as_hr_runs:
  assumes "get_record d k = Some r"
  shows "(\<exists>d'. approve_as_hr e u k d = Inr d') \<longleftrightarrow>
    cu_role u = hr \<and> cu_personnel_id u \<noteq> Some (er_subject r) \<and>
    (\<exists>d1. apply_transition e r (hr_approve_action r) u
       (if is_direct_ceo_path r then finalize_hook e k else no_hook) d = Inr d1)"
  using assms by (simp add: approve_as_hr_def bindE_Inr_iff guard_simps)

lemma approve_as_deputy_runs:
  assumes "get_record d k = Some r"
  shows "(\<exists>d'. approve_as_deputy e u k d = Inr d') \<longleftrightarrow>
    may_act_at (cu_role u) deputy \<and> (\<exists>d1. apply_transition e r DeputyApprove u no_hook d = Inr d1)"
  using assms by (simp add: approve_as_deputy_def bindE_Inr_iff guard_simps)

lemma ceo_finalize_runs:
  assumes "get_record d k = Some r"
  shows "(\<exists>d'. ceo_finalize e u k d = Inr d') \<longleftrightarrow>
    may_act_at (cu_role u) ceo \<and> (\<exists>d1. apply_transition e r CeoFinalize u (finalize_hook e k) d = Inr d1)"
  using assms by (simp add: ceo_finalize_def bindE_Inr_iff guard_simps)

lemma claim_record:
  assumes r: "get_record d k = Some r"
  shows "\<exists>r'. get_record (claim e t r u d) k = Some r' \<and> er_subject r' = er_subject r"
proof -
  have "er_id r = k" by (rule record_st.row_key [OF r])
  then show ?thesis using claim_get [of d r e t u k] r by auto
qed

lemma finalize_after_claim:
  assumes r: "get_record d k = Some r" and p: "get_personnel d (er_subject r) \<noteq> None"
  shows "\<exists>d2. finalize_hook e k (claim e t r u d) = Inr d2"
proof -
  obtain r' where "get_record (claim e t r u d) k = Some r'" "er_subject r' = er_subject r"
    using claim_record [OF r] by blast
  moreover have "get_personnel (claim e t r u d) = get_personnel d"
    by (simp add: get_personnel_def frame_simps fun_eq_iff)
  ultimately show ?thesis using p finalize_hook_total by metis
qed

lemma hr_allowed:
  assumes "er_status r = submitted"
  shows "ensure_transition_allowed r (hr_approve_action r) u = Inr (transition_of (hr_approve_action r)) \<longleftrightarrow>
    cu_role u = hr \<and> (er_hr r = None \<or> er_hr r = Some (cu_id u))"
  using assms
  by (auto simp: transition_allowed_Inr hr_approve_action_def transition_of_def owns_stage_def
      assignee_of_def is_direct_ceo_path_def is_manager_path_def)

lemma deputy_allowed:
  assumes "er_status r = hr_approved"
  shows "ensure_transition_allowed r DeputyApprove u = Inr (transition_of DeputyApprove) \<longleftrightarrow>
    may_act_at (cu_role u) deputy \<and> er_deputy r = Some (cu_id u)"
  using assms by (auto simp: transition_allowed_Inr transition_of_def owns_stage_def assignee_of_def)

lemma ceo_allowed:
  assumes "er_status r = deputy_approved \<or> er_status r = hr_approved \<and> er_deputy r = None"
  shows "ensure_transition_allowed r CeoFinalize u = Inr (transition_of CeoFinalize) \<longleftrightarrow>
    may_act_at (cu_role u) ceo \<and> er_ceo r = cu_id u"
  using assms by (auto simp: transition_allowed_Inr transition_of_def owns_stage_def assignee_of_def)

lemma approval_succeeds_iff:
  assumes ok: "case_ok d r" and r: "get_record d k = Some r" and p: "get_personnel d (er_subject r) \<noteq> None"
    and sc: "scores_of d k \<noteq> []" and st: "er_status r \<in> {submitted, hr_approved, deputy_approved}"
  shows "(\<exists>d'. handle e u (approval r) d = Inr d') \<longleftrightarrow> waits_for r u"
proof -
  have k: "er_id r = k" by (rule record_st.row_key [OF r])
  have pct: "er_final_pct r \<noteq> None" using ok st by (auto simp: case_ok_def has_result_def)
  have st': "er_status r = submitted \<or> er_status r = hr_approved \<or> er_status r = deputy_approved"
    using st by simp
  note final = finalize_after_claim [OF r p]
  consider "er_status r = submitted"
    | "er_status r = hr_approved" "er_deputy r \<noteq> None"
    | "er_status r = deputy_approved \<or> er_status r = hr_approved \<and> er_deputy r = None"
    using st' by metis
  then show ?thesis
  proof cases
    case 1
    let ?hook = "if is_direct_ceo_path r then finalize_hook e k else no_hook"
    have "\<exists>d2. ?hook (claim e (transition_of (hr_approve_action r)) r u d) = Inr d2"
      using final by (simp add: no_hook_def)
    then have "(\<exists>d'. apply_transition e r (hr_approve_action r) u ?hook d = Inr d') \<longleftrightarrow>
        cu_role u = hr \<and> (er_hr r = None \<or> er_hr r = Some (cu_id u))"
      using pct sc 1 transition_runs [OF r, where a = "hr_approve_action r" and hook = ?hook]
      by (simp add: hr_allowed)
    moreover have "handle e u (approval r) d = approve_as_hr e u k d"
      using 1 k by (auto simp: approval_def)
    ultimately show ?thesis using 1 by (auto simp: waits_for_def approve_as_hr_runs [OF r])
  next
    case 2
    have "\<exists>d2. no_hook (claim e (transition_of DeputyApprove) r u d) = Inr d2"
      by (simp add: no_hook_def)
    then have "(\<exists>d'. apply_transition e r DeputyApprove u no_hook d = Inr d') \<longleftrightarrow>
        may_act_at (cu_role u) deputy \<and> er_deputy r = Some (cu_id u)"
      using pct sc 2 transition_runs [OF r, where a = DeputyApprove and hook = no_hook]
      by (simp add: deputy_allowed)
    moreover have "handle e u (approval r) d = approve_as_deputy e u k d"
      using 2 k by (auto simp: approval_def)
    ultimately show ?thesis using 2 by (auto simp: waits_for_def approve_as_deputy_runs [OF r])
  next
    case 3
    have "(\<exists>d'. apply_transition e r CeoFinalize u (finalize_hook e k) d = Inr d') \<longleftrightarrow>
        may_act_at (cu_role u) ceo \<and> er_ceo r = cu_id u"
      using pct sc 3 final transition_runs [OF r, where a = CeoFinalize and hook = "finalize_hook e k"]
      by (simp add: ceo_allowed)
    moreover have "handle e u (approval r) d = ceo_finalize e u k d"
      using 3 k by (auto simp: approval_def)
    ultimately show ?thesis using 3 by (auto simp: waits_for_def ceo_finalize_runs [OF r])
  qed
qed

text \<open>The submission: it succeeds for the scorer, inside the window, on a complete and justified sheet.\<close>

lemma submit_allowed:
  assumes "er_status r = draft"
  shows "ensure_transition_allowed r (submit_action r) u = Inr (transition_of (submit_action r)) \<longleftrightarrow>
    is_the_scorer r u"
  using assms
  by (auto simp: transition_allowed_Inr submit_action_def transition_of_def owns_stage_def is_the_scorer_def
      assignee_of_def is_direct_ceo_path_def is_manager_path_def)

lemma scorer_stage: "is_the_scorer r u \<Longrightarrow> may_act_at (cu_role u) unit_supervisor"
  by (cases "cu_role u") (auto simp: is_the_scorer_def may_act_at_chain split: if_splits)

lemma scored_fully_set:
  "scored_fully d r \<longleftrightarrow>
     set (map sr_indicator (scores_as_dicts d r)) = set (map in_id (indicators_for_record d r))"
  by (simp add: scored_fully_def scores_as_dicts_def image_comp comp_def)

lemma by_id_None: "by_id is k = None \<longleftrightarrow> k \<notin> in_id ` set is"
  by (auto simp: tbl_get_None)

lemma finalize_scoring_runs:
  assumes "r_thresholds (rules_for_record d r) \<noteq> []"
  shows "(\<exists>d'. finalize_scoring e r u d = Inr d') \<longleftrightarrow> scored_fully d r \<and> evidence_ok d r"
proof -
  have "\<exists>c. result_of d r = Inr c" if "scored_fully d r"
    unfolding result_of_def
    by (rule compute_result_total [OF _ assms])
      (use that in \<open>auto simp: scored_fully_set by_id_None\<close>)
  then show ?thesis
    by (auto simp: finalize_scoring_def Let_def bindE_Inr_iff scored_fully_set evidence_ok_def
        result_of_def split: sum.splits)
qed

lemma submit_succeeds_iff:
  assumes r: "get_record d k = Some r" and st: "er_status r = draft"
    and table: "r_thresholds (rules_for_record d r) \<noteq> []"
  shows "(\<exists>d'. submit_evaluation e u k d = Inr d') \<longleftrightarrow>
    is_the_scorer r u \<and> record_accepts_entries e d r \<and> scored_fully d r \<and> evidence_ok d r"
proof -
  let ?a = "submit_action r" and ?hook = "on_record k (\<lambda>r. finalize_scoring e r u)"
  have to: "tr_to (transition_of ?a) \<noteq> finalized" by (simp add: submit_action_facts)
  have noclaim: "claim e (transition_of ?a) r u d = d"
    by (simp add: claim_def submit_action_def transition_of_def)
  have hook: "?hook d = finalize_scoring e r u d" using r by (simp add: on_record_def)
  have "(\<exists>d'. apply_transition e r ?a u ?hook d = Inr d') \<longleftrightarrow>
      ensure_transition_allowed r ?a u = Inr (transition_of ?a) \<and> (\<exists>d2. finalize_scoring e r u d = Inr d2)"
    using to unfolding apply_transition_Inr noclaim hook Let_def by blast
  also have "\<dots> \<longleftrightarrow> is_the_scorer r u \<and> scored_fully d r \<and> evidence_ok d r"
    by (simp add: submit_allowed [OF st] finalize_scoring_runs [OF table])
  finally show ?thesis
    using r scorer_stage by (auto simp: submit_evaluation_def bindE_Inr_iff guard_simps)
qed

end
