(* ===== verification/CaseProperties.thy ===== *)
theory CaseProperties
  imports Progress Samples
begin

text \<open>
  The properties of the evaluation cases: what any sequence of requests of the evaluations router
  keeps, and who can move a case on.
\<close>

section \<open>The sample case satisfies the invariants\<close>

lemma demo_rules: "rules_for_record (demo_at s) (demo_case s) = LEGACY_RULES"
  by (simp add: rules_for_record_def active_scheme_def demo_at_def demo_db_def empty_db_def)

lemma demo_indicators:
  "indicators_for_record (demo_at s) (demo_case s) = [demo_indicator 1 general, demo_indicator 2 specialized]"
  by (simp add: indicators_for_record_def indicator_ids_for_record_def get_framework_def tbl_get_def
      demo_at_def demo_db_def demo_framework_def demo_indicator_def empty_db_def)

lemma demo_rows:
  "scores_as_dicts (demo_at s) (demo_case s) =
     [\<lparr>sr_indicator = 1, sr_score = 4, sr_evidence = None\<rparr>, \<lparr>sr_indicator = 2, sr_score = 3, sr_evidence = None\<rparr>]"
  by (simp add: scores_as_dicts_def scores_of_def demo_at_def demo_score_def)

lemma demo_sums:
  "foldE (add_row (by_id [demo_indicator 1 general, demo_indicator 2 specialized]) LEGACY_RULES)
     [\<lparr>sr_indicator = 1, sr_score = 4, sr_evidence = None\<rparr>, \<lparr>sr_indicator = 2, sr_score = 3, sr_evidence = None\<rparr>]
     zero_sums = Inr \<lparr>general_sum = 4, general_max = 5, specialized_sum = 3, specialized_max = 5\<rparr>"
  by code_simp

lemma demo_numbers: "section_pct 4 5 = 80" "section_pct 3 5 = 60" "base_percentage LEGACY_RULES 80 60 = 72"
  "applied_bonus LEGACY_RULES 0 72 = 0" "final_percentage LEGACY_RULES 0 72 = 72"
  "recommendation_for LEGACY_RULES 72 = Inr (lit ''conditional renewal'')"
  by code_simp+

lemma demo_version: "r_version LEGACY_RULES = None"
  by (simp add: LEGACY_RULES_def)

lemma demo_result:
  "result_of (demo_at s) (demo_case s) = Inr \<lparr>cr_general = 80, cr_specialized = 60, cr_base = 72,
     cr_bonus = 0, cr_final = 72, cr_recommendation = lit ''conditional renewal'', cr_version = None\<rparr>"
proof -
  have bonus: "bonus_of (demo_case s) = 0" by (simp add: bonus_of_def)
  show ?thesis
    unfolding result_of_def demo_rows demo_indicators demo_rules bonus compute_result_Inr demo_sums
    by (simp add: demo_numbers demo_version Let_def)
qed

lemma demo_evidence: "evidence_ok (demo_at s) (demo_case s)"
  unfolding evidence_ok_def demo_rows demo_indicators demo_rules by code_simp

lemma demo_complete: "scored_fully (demo_at s) (demo_case s)"
proof -
  have "scores_of (demo_at s) 1 = [demo_score 1 4, demo_score 2 3]"
    by (simp add: scores_of_def demo_at_def demo_score_def)
  then show ?thesis
    by (simp add: scored_fully_def demo_indicators) (simp add: demo_score_def demo_indicator_def)
qed

lemma demo_stored: "numeric_col demo_env 2 80 = 80" "numeric_col demo_env 2 60 = 60" "numeric_col demo_env 2 72 = 72"
  by code_simp+

lemma demo_matches: "result_matches demo_env (demo_at s) (demo_case s)"
  by (simp add: result_matches_def demo_complete demo_evidence demo_result result_stored_def demo_stored)

lemma demo_not_own: "\<not> own_evaluator (demo_at s) 1 [Some 2, Some 3, Some 4]"
  by (simp add: own_evaluator_def demo_at_def demo_db_def demo_user_def)

lemma demo_seats: "record_seats (demo_case s) = [Some 2, Some 3, Some 4]" "access_seats demo_access = [Some 2, Some 3, Some 4]"
  by (simp_all add: record_seats_def access_seats_def demo_access_def)

lemma demo_cases_ok: "cases_ok (demo_at s)"
proof -
  have "case_ok (demo_at s) (demo_case s)"
    by (simp add: case_ok_def path_ok_def has_result_def is_manager_path_def is_direct_ceo_path_def
        record_chain_ok_def chain_ok_def demo_seats demo_not_own)
  moreover have "accesses (demo_at s) = [demo_access]"
    by (simp add: demo_at_def demo_db_def)
  moreover have "access_chain_ok demo_access" "ea_personnel demo_access = 1"
    by (simp_all add: access_chain_ok_def chain_ok_def demo_access_def)
  ultimately show ?thesis
    by (simp add: cases_ok_def one_open_def tbl_ok_def demo_seats demo_not_own)
qed

lemma demo_results_ok: "results_ok demo_env (demo_at s)"
proof -
  have "framework_fk (demo_at s)"
    by (simp add: framework_fk_def get_framework_def tbl_get_def)
      (simp add: demo_at_def demo_db_def demo_framework_def)
  then show ?thesis by (simp add: results_ok_def demo_cases_ok demo_matches)
qed

lemma demo_statuses_logged: "statuses_logged demo_db" "audit_ok e demo_db"
  by (simp_all add: statuses_logged_def statuses_def audit_ok_empty demo_db_def empty_db_def)

lemma demo_db_cases: "results_ok demo_env demo_db"
proof -
  have "accesses demo_db = [demo_access]" "records demo_db = []"
    by (simp_all add: demo_db_def empty_db_def)
  moreover have "access_chain_ok demo_access" "ea_personnel demo_access = 1"
    by (simp_all add: access_chain_ok_def chain_ok_def demo_access_def)
  moreover have "\<not> own_evaluator demo_db 1 [Some 2, Some 3, Some 4]"
    by (simp add: own_evaluator_def demo_db_def demo_user_def)
  ultimately show ?thesis
    by (simp add: results_ok_def cases_ok_def one_open_def tbl_ok_def framework_fk_def demo_seats)
qed

text \<open>The sample case with the audit row of its last move.\<close>

definition demo_logged :: "evaluation_status \<Rightarrow> db" where
  "demo_logged s = log_event demo_env 1 ''status_changed'' (Some 1) None (Some (status_json s)) (demo_at s)"

lemma demo_logged_ok: "statuses_logged (demo_logged s)"
  by (simp add: statuses_logged_def demo_logged_def statuses_frames logged_status_log statuses_def frame_simps)

section \<open>Runs of requests\<close>

text \<open>C2. The result of a case is always the result of its stored answers. After any sequence of
  requests of the evaluations router, whoever sends them and in any order, each case past the
  scoring stage (and not cancelled) has every question of its own version answered, no missing
  evidence, and its five result columns are what the computation gives for exactly these answers,
  rules and special score.\<close>

theorem results_match_the_answers:
  assumes "results_ok e d" and "r \<in> set (records (fold (serve e) cs d))"
    and "er_status r \<noteq> draft" and "er_status r \<noteq> cancelled"
  shows "scored_fully (fold (serve e) cs d) r \<and> evidence_ok (fold (serve e) cs d) r \<and>
    (\<exists>c. result_of (fold (serve e) cs d) r = Inr c \<and> result_stored e c r)"
proof -
  have "results_ok e (fold (serve e) cs d)" using assms(1) by (rule result_sys.run_inv)
  then show ?thesis using assms(2-4) by (auto simp: results_ok_def result_matches_def)
qed

theorem results_match_the_answers_witness:
  "\<exists>c. result_of (demo_at submitted) (demo_case submitted) = Inr c \<and> result_stored demo_env c (demo_case submitted)"
  using results_match_the_answers [OF demo_results_ok [of submitted], where cs = "[]"] by simp



text \<open>C4. No sequence of requests breaks the structure of the cases: identifiers stay unique, a person
  never has two open cases, nobody sits in the chain of the own case, no two stages of a chain that
  must differ share a user, and a case past the scoring stage has a result.\<close>

theorem cases_stay_well_formed:
  assumes "cases_ok d"
  shows "cases_ok (fold (serve e) cs d) \<and> one_open (fold (serve e) cs d) \<and> segregated (fold (serve e) cs d)"
  using case_sys.run_inv [OF assms, of e cs] cases_ok_segregated by (simp add: cases_ok_def)

theorem cases_stay_well_formed_witness:
  "one_open (fold (serve demo_env) [(demo_supervisor, CreateEvaluation 1)] (demo_at submitted))"
  using cases_stay_well_formed [OF demo_cases_ok] by blast

text \<open>C24. A finalized or cancelled case is final: whatever is requested afterwards, its status, its
  result, its identity and the versions it is stamped with stay as they are.\<close>

theorem closed_cases_are_final:
  assumes "get_record d k = Some r" and "er_status r \<in> {finalized, cancelled}"
  shows "\<exists>r'. get_record (fold (serve e) cs d) k = Some r' \<and> er_status r' = er_status r \<and>
    same_result r r' \<and> same_stamp r r'"
  by (rule run_terminal [OF assms(1)]) (use assms(2) in \<open>auto simp: is_open_iff\<close>)

theorem closed_cases_are_final_witness:
  "\<exists>r'. get_record (fold (serve demo_env) [(demo_hr, CancelEvaluation 1 []), (demo_ceo, ReturnEvaluation 1 [])]
      (demo_at finalized)) 1 = Some r' \<and> er_status r' = finalized"
  using closed_cases_are_final [of "demo_at finalized" 1 "demo_case finalized" demo_env
      "[(demo_hr, CancelEvaluation 1 []), (demo_ceo, ReturnEvaluation 1 [])]"] by auto



text \<open>C25. A submission succeeds exactly for the scorer of the case, inside its submission window, when
  every question of the case's version is answered and every answer that needs a written reason
  has one of admissible length.\<close>

theorem submission_succeeds_iff:
  assumes "get_record d k = Some r" and "er_status r = draft" and "r_thresholds (rules_for_record d r) \<noteq> []"
  shows "(\<exists>d'. handle e u (SubmitEvaluation k) d = Inr d') \<longleftrightarrow>
    is_the_scorer r u \<and> record_accepts_entries e d r \<and> scored_fully d r \<and> evidence_ok d r"
  using submit_succeeds_iff [OF assms] by simp

theorem submission_succeeds_iff_witness:
  "(\<exists>d'. handle demo_env demo_supervisor (SubmitEvaluation 1) (demo_at draft) = Inr d') \<and>
   \<not> (\<exists>d'. handle demo_env demo_deputy (SubmitEvaluation 1) (demo_at draft) = Inr d')"
proof -
  have table: "r_thresholds (rules_for_record (demo_at draft) (demo_case draft)) \<noteq> []"
    by (simp only: demo_rules) code_simp
  have window: "record_accepts_entries demo_env (demo_at draft) (demo_case draft)"
    by (simp add: record_accepts_iff window_for_unlimited)
  show ?thesis
    using submission_succeeds_iff [OF _ _ table] window demo_complete demo_evidence
    by (simp add: is_the_scorer_def is_direct_ceo_path_def is_manager_path_def demo_supervisor_def
        demo_deputy_def may_act_at_chain)
qed

text \<open>C5. The audit chain survives every sequence of requests: if the chain of digests verifies
  before, it verifies afterwards over all the rows, and the rows that were there are still there,
  in front of the new ones.\<close>

theorem audit_chain_survives_runs:
  assumes "audit_ok e d"
  shows "verify_chain e None (fold (serve e) cs d) = ChainOk (length (audits (fold (serve e) cs d))) \<and>
    (\<exists>new. audits (fold (serve e) cs d) = audits d @ new)"
  using audit_ok_verify [OF trail_sys.run_inv [OF assms]] run_prefix [of d e cs]
  by (simp add: audit_prefix_def)

theorem audit_chain_survives_runs_witness:
  "verify_chain demo_env None (fold (serve demo_env) [(demo_supervisor, CreateEvaluation 1)] demo_db) =
     ChainOk (length (audits (fold (serve demo_env) [(demo_supervisor, CreateEvaluation 1)] demo_db)))"
  using audit_chain_survives_runs [OF demo_statuses_logged(2)] by blast

text \<open>The audit log always knows the status of every case: the last \<open>status_changed\<close> row of a case
  carries the status the case has, after any sequence of requests.\<close>

theorem log_names_every_status:
  assumes "statuses_logged d" and "r \<in> set (records (fold (serve e) cs d))"
  shows "logged_status (fold (serve e) cs d) (er_id r) = Some (status_json (er_status r))"
  using status_log_sys.run_inv [OF assms(1), of e cs] assms(2)
  by (auto simp: statuses_logged_def statuses_def)

theorem log_names_every_status_witness:
  "logged_status (fold (serve demo_env) [(demo_employee, ApproveAsHr 1)] (demo_logged submitted)) 1 =
     Some (status_json submitted)"
proof -
  have run: "fold (serve demo_env) [(demo_employee, ApproveAsHr 1)] (demo_logged submitted) = demo_logged submitted"
    by (simp add: serve_def approve_as_hr_def require_roles_def demo_employee_def)
  have "demo_case submitted \<in> set (records (demo_logged submitted))"
    by (simp add: demo_logged_def frame_simps)
  with run have "demo_case submitted \<in> set (records (fold (serve demo_env) [(demo_employee, ApproveAsHr 1)]
      (demo_logged submitted)))"
    by simp
  from log_names_every_status [OF demo_logged_ok this] show ?thesis by simp
qed

end
