(* ===== verification/AccessProperties.thy ===== *)
theory AccessProperties
  imports CaseProperties
begin

text \<open>
  The properties of identities, of the chains that decide about a person, and of the submission
  window.
\<close>

section \<open>Identity\<close>

text \<open>A request is served under an identity exactly when its token names an existing, active user
  at the current token version (so a password change or a deactivation ends every token issued
  before), and while a password change is forced only on the exempted paths; the identity carries
  that user's own role and person.\<close>

theorem identity_is_established_iff:
  "get_current_user path payload d = Inr u \<longleftrightarrow>
    (\<exists>k x. payload = Some (Some k, Some (u_token_version x)) \<and> get_user d k = Some x \<and> u_is_active x \<and>
       (u_must_change_password x \<longrightarrow> path \<in> set FORCED_PASSWORD_CHANGE_EXEMPT_PATHS) \<and>
       u = as_current_user x)"
  by (rule get_current_user_Inr)

theorem identity_is_established_iff_witness:
  "get_current_user ''/me'' (Some (Some 5, Some 0)) demo_db = Inr demo_employee \<and>
   get_current_user ''/me'' (Some (Some 5, Some 1)) demo_db \<noteq> Inr demo_employee"
proof -
  have "get_user demo_db 5 = Some (demo_user 5 employee (Some 1))"
    by (simp add: get_user_def demo_db_def tbl_get_def demo_user_def)
  then show ?thesis
    by (simp add: identity_is_established_iff demo_user_def as_current_user_def demo_employee_def)
qed

section \<open>Chains\<close>

text \<open>A chain is accepted exactly when the person exists, a manager has no supervisor seat, every
  occupied seat holds an active user whose role may act at that stage, no seat holds the person's
  own account, and neighbouring stages are different users.\<close>

theorem chain_is_accepted_iff:
  "check_access d pid p = Inr () \<longleftrightarrow>
     (\<exists>per. get_personnel d pid = Some per \<and> (p_is_manager per \<longrightarrow> ai_supervisor p = None)) \<and>
     seat_filled d unit_supervisor (ai_supervisor p) \<and> seat_filled d deputy (ai_deputy p) \<and>
     seat_filled d ceo (Some (ai_ceo p)) \<and>
     \<not> own_evaluator d pid [ai_supervisor p, ai_deputy p, Some (ai_ceo p)] \<and>
     chain_ok (ai_supervisor p) (ai_deputy p) (Some (ai_ceo p))"
  by (rule check_access_Inr)

theorem chain_is_accepted_iff_witness:
  "check_access demo_db 1 \<lparr>ai_supervisor = Some 2, ai_deputy = Some 3, ai_ceo = 4\<rparr> = Inr () \<and>
   check_access demo_db 1 \<lparr>ai_supervisor = Some 2, ai_deputy = Some 2, ai_ceo = 4\<rparr> \<noteq> Inr ()"
proof -
  have "get_personnel demo_db 1 = Some (demo_person 1)"
    by (simp add: get_personnel_def demo_db_def tbl_get_def demo_person_def)
  then show ?thesis
    by (simp add: chain_is_accepted_iff seat_filled_def own_evaluator_def chain_ok_def demo_person_def)
      (simp add: demo_db_def get_user_def tbl_get_def demo_user_def may_act_at_chain)
qed

text \<open>Writing a chain never lets anybody decide about themselves: an accepted chain keeps the rule
  that no seat of a chain or of a case is held by the account of the person it is about, and keeps
  one chain per person.\<close>

theorem chains_stay_segregated:
  assumes "segregated d" and "accesses_ok d" and "upsert_access e u pid p d = Inr d'"
  shows "segregated d' \<and> accesses_ok d' \<and> check_access d pid p = Inr ()"
  using upsert_access_segregated [OF assms] upsert_access_Inr [OF assms(3)] by blast

definition demo_chain :: access_input where
  "demo_chain = \<lparr>ai_supervisor = Some 2, ai_deputy = Some 3, ai_ceo = 4\<rparr>"

theorem chains_stay_segregated_witness:
  "\<exists>d'. upsert_access demo_env demo_hr 1 demo_chain (demo_at draft) = Inr d' \<and> segregated d'"
proof -
  have seg: "segregated (demo_at draft)" by (rule cases_ok_segregated [OF demo_cases_ok])
  have acc: "accesses_ok (demo_at draft)"
    by (simp add: accesses_ok_def demo_at_def demo_db_def tbl_ok_def)
  have "get_personnel (demo_at draft) 1 = Some (demo_person 1)"
    by (simp add: get_personnel_def demo_at_def demo_db_def tbl_get_def demo_person_def)
  then have "check_access (demo_at draft) 1 demo_chain = Inr ()"
    by (simp add: check_access_Inr seat_filled_def own_evaluator_def chain_ok_def demo_person_def demo_chain_def)
      (simp add: demo_at_def demo_db_def get_user_def tbl_get_def demo_user_def may_act_at_chain)
  then obtain d' where d': "upsert_access demo_env demo_hr 1 demo_chain (demo_at draft) = Inr d'"
    by (simp add: upsert_access_def bindE_Inr_iff guard_simps demo_hr_def)
  with chains_stay_segregated [OF seg acc d'] show ?thesis by blast
qed

section \<open>The submission window\<close>

lemma window_frames:
  "get_record (add_comment_row e k b p s t d) = get_record d"
  "periods (add_comment_row e k b p s t d) = periods d"
  "get_record (extension_notice e r x d) = get_record d"
  "periods (extension_notice e r x d) = periods d"
  by (auto simp: add_comment_row_def extension_notice_def frame_simps get_record_def fun_eq_iff
      split: option.split)

lemma extend_row:
  assumes "extend_submission_window e u k x t d = Inr d'" and "get_record d k = Some r"
  shows "get_record d' k = Some (r\<lparr>er_extended_until := Some x, er_extended_at := Some (now e),
      er_extended_by := Some (cu_id u), er_extension_reason := Some t\<rparr>) \<and> periods d' = periods d"
  using assms
  by (auto simp: extend_submission_window_def bindE_Inr_iff guard_simps Let_def window_frames
      frame_simps record_st.row_upd split: if_splits)

lemma window_for_cong:
  "periods d' = periods d \<Longrightarrow> er_period r' = er_period r \<Longrightarrow> er_extended_until r' = er_extended_until r \<Longrightarrow>
     window_for d' r' = window_for d r"
proof -
  assume eq: "periods d' = periods d" "er_period r' = er_period r" "er_extended_until r' = er_extended_until r"
  have p: "get_period d' = get_period d" by (simp add: get_period_def eq(1) fun_eq_iff)
  show ?thesis unfolding window_for_def eq(2,3) p ..
qed

text \<open>Extending the window of a case with a period never takes days away: afterwards the window
  closes at the later of the period's end and the granted date, so a case that accepted answers
  still does.\<close>

theorem extension_never_shortens:
  assumes "extend_submission_window e u k x t d = Inr d'" and "get_record d k = Some r"
    and "er_period r = Some j" and "get_period d j = Some p"
  shows "\<exists>r'. get_record d' k = Some r' \<and> closes_on (window_for d' r') = Some (max x (ep_ends_on p)) \<and>
    (record_accepts_entries e d r \<and> er_extended_until r = None \<longrightarrow> record_accepts_entries e d' r')"
proof -
  let ?r = "r\<lparr>er_extended_until := Some x, er_extended_at := Some (now e),
      er_extended_by := Some (cu_id u), er_extension_reason := Some t\<rparr>"
  note row = extend_row [OF assms(1,2)]
  have "window_for d' ?r = window_for d (r\<lparr>er_extended_until := Some x\<rparr>)"
    by (rule window_for_cong) (use row in simp_all)
  then have w: "closes_on (window_for d' ?r) = Some (max x (ep_ends_on p))"
    using window_for_extension [OF assms(3,4)] by simp
  have "record_accepts_entries e d' ?r" if "record_accepts_entries e d r" "er_extended_until r = None"
    using that assms(3,4) w by (simp add: record_accepts_iff window_for_def)
  then show ?thesis using row w by (intro exI [of _ ?r] conjI impI) simp_all
qed

definition period_db :: db where
  "period_db = (demo_at draft)\<lparr>records := [demo_case draft\<lparr>er_period := Some 1\<rparr>],
     periods := [\<lparr>ep_id = 1, ep_name = lit ''Autumn'', ep_starts_on = 739200, ep_ends_on = 739250,
        ep_status = period_open, ep_created_by = None, ep_closed_at = None\<rparr>]\<rparr>"

lemma period_db_extends: "\<exists>d'. extend_submission_window demo_env demo_hr 1 739260 t period_db = Inr d'"
  by (simp add: extend_submission_window_def bindE_Inr_iff guard_simps get_record_def period_db_def tbl_get_def
      EXTENDABLE_STATUSES_def demo_hr_def)

theorem extension_never_shortens_witness:
  "\<exists>d' r'. extend_submission_window demo_env demo_hr 1 739260 (lit ''leave'') period_db = Inr d' \<and>
     get_record d' 1 = Some r' \<and> closes_on (window_for d' r') = Some 739260"
proof -
  obtain d' where d': "extend_submission_window demo_env demo_hr 1 739260 (lit ''leave'') period_db = Inr d'"
    using period_db_extends by blast
  have r: "get_record period_db 1 = Some (demo_case draft\<lparr>er_period := Some 1\<rparr>)"
    by (simp add: get_record_def period_db_def tbl_get_def)
  have p: "get_period period_db 1 = Some \<lparr>ep_id = 1, ep_name = lit ''Autumn'', ep_starts_on = 739200,
      ep_ends_on = 739250, ep_status = period_open, ep_created_by = None, ep_closed_at = None\<rparr>"
    by (simp add: get_period_def period_db_def tbl_get_def)
  from extension_never_shortens [OF d' r _ p] d' show ?thesis by fastforce
qed

text \<open>For a case without a period the same request can close the window: such a case has no
  deadline, and an extension to a date in the past, which nothing refuses, gives it one that has
  already run out.\<close>

theorem extension_can_close_an_open_case:
  assumes "get_record d k = Some r" and "er_status r = draft" and "er_period r = None" and "er_extended_until r = None"
    and "cu_role u = hr" and "cu_personnel_id u \<noteq> Some (er_subject r)" and "x < today e"
  shows "record_accepts_entries e d r \<and>
    (\<exists>d' r'. extend_submission_window e u k x t d = Inr d' \<and> get_record d' k = Some r' \<and>
       \<not> record_accepts_entries e d' r')"
proof -
  obtain d' where d': "extend_submission_window e u k x t d = Inr d'"
    using assms by (auto simp: extend_submission_window_def bindE_Inr_iff guard_simps EXTENDABLE_STATUSES_def)
  have "record_accepts_entries e d r" using assms(3,4) by (simp add: record_accepts_iff window_for_def)
  moreover have "\<not> record_accepts_entries e d' (r\<lparr>er_extended_until := Some x, er_extended_at := Some (now e),
      er_extended_by := Some (cu_id u), er_extension_reason := Some t\<rparr>)"
    using assms(3,7) by (simp add: record_accepts_iff window_for_def)
  ultimately show ?thesis using d' extend_row [OF d' assms(1)] by blast
qed

theorem extension_can_close_an_open_case_witness:
  "\<exists>d' r'. extend_submission_window demo_env demo_hr 1 739250 (lit ''leave'') (demo_at draft) = Inr d' \<and>
     get_record d' 1 = Some r' \<and> \<not> record_accepts_entries demo_env d' r'"
proof -
  have "(739250::int) < today demo_env" by (simp add: demo_env_def)
  then show ?thesis
    using extension_can_close_an_open_case [of "demo_at draft" 1 "demo_case draft" demo_hr 739250 demo_env]
    by (simp add: demo_hr_def)
qed

end
