(* ===== verification/CatalogueProperties.thy ===== *)
theory CatalogueProperties
  imports CaseProperties
begin

text \<open>
  The properties of the question catalogue with its published versions, and of the
  self-assessments.
\<close>

section \<open>Versions of the catalogue\<close>


lemma demo_catalogue: "catalogue_ok (demo_at s)"
proof -
  have "current_framework (demo_at s) = Some demo_framework"
    by (simp add: current_framework_def newer_framework_def demo_at_def demo_db_def)
  then show ?thesis
    by (simp add: catalogue_ok_def tbl_ok_def frameworks_ok_def in_sync_def scores_known_def
        active_member_ids_def)
      (simp add: demo_at_def demo_db_def demo_indicator_def demo_framework_def demo_score_def)
qed


text \<open>The questions of a case that somebody has already answered never change: whatever edits of
  the catalogue follow, the case keeps its version and is scored on the same set of questions.\<close>

theorem answered_cases_keep_their_questions:
  assumes "catalogue_ok d" and "get_record d k = Some r" and "\<not> is_untouched d r"
    and "er_framework r = Some j" and "get_framework d j = Some f"
  shows "get_record (fold (indicator_step e) cs d) k = Some r \<and>
    indicator_ids_for_record (fold (indicator_step e) cs d) r = set (if_members f) \<and>
    indicator_ids_for_record d r = set (if_members f)"
proof -
  have fz: "frozen_case d k r f" using assms by (auto simp: frozen_case_def)
  have "frozen_case (fold (indicator_step e) cs d) k r f"
    by (rule run_frozen [OF _ fz]) (use assms(1) in \<open>simp add: catalogue_ok_def\<close>)
  then show ?thesis using frozen_ids fz by (auto simp: frozen_case_def)
qed

lemma demo_at_framework: "get_framework (demo_at s) 1 = Some demo_framework"
  by (simp add: get_framework_def tbl_get_def demo_at_def demo_db_def demo_framework_def)

lemma demo_touched: "\<not> is_untouched (demo_at s) (demo_case s)"
  by (simp add: is_untouched_def) (simp add: demo_at_def demo_score_def)

theorem answered_cases_keep_their_questions_witness:
  "indicator_ids_for_record (fold (indicator_step demo_env) [DeleteIndicator demo_hr 2,
      CreateIndicator demo_hr general [] []] (demo_at draft)) (demo_case draft) = {1, 2}"
proof -
  have "set (if_members demo_framework) = {1, 2}" by (simp add: demo_framework_def)
  moreover have "er_framework (demo_case draft) = Some 1" by simp
  ultimately show ?thesis
    using answered_cases_keep_their_questions [OF demo_catalogue demo_at_record(1) demo_touched _ demo_at_framework]
    by metis
qed

text \<open>Publishing a version moves every open case that nobody has answered yet, and that carries a
  version at all, to the new version; it never touches an answered or closed case.\<close>

theorem publishing_moves_the_untouched:
  assumes "get_record d k = Some r"
  shows "\<exists>r'. get_record (snd (publish a t n d)) k = Some r' \<and>
    r' = (if is_open r \<and> is_untouched d r \<and> er_framework r \<noteq> None
          then r\<lparr>er_framework := Some (tbl_next if_id (frameworks d))\<rparr> else r)"
proof -
  have "get_record (snd (publish a t n d)) k =
     Some (if rebinds d (fst (bump (Some a) t n d)) r
       then r\<lparr>er_framework := Some (tbl_next if_id (frameworks d))\<rparr> else r)"
    using assms by (simp add: publish_get_record bump_fst)
  moreover have "r\<lparr>er_framework := Some (tbl_next if_id (frameworks d))\<rparr> = r"
    if "er_framework r = Some (tbl_next if_id (frameworks d))"
    using that by simp
  ultimately show ?thesis by (auto simp: rebinds_def bump_fst)
qed

theorem publishing_moves_the_untouched_witness:
  "\<exists>r'. get_record (snd (publish 1 ''add'' None ((demo_at draft)\<lparr>scores := []\<rparr>))) 1 = Some r' \<and>
     er_framework r' = Some 2"
proof -
  let ?d = "(demo_at draft)\<lparr>scores := []\<rparr>"
  have r: "get_record ?d 1 = Some (demo_case draft)"
    by (simp add: get_record_def tbl_get_def demo_at_def)
  have "is_untouched ?d (demo_case draft)" "is_open (demo_case draft)"
    by (simp_all add: is_untouched_def is_open_iff) (simp add: demo_at_def demo_db_def empty_db_def demo_case_def)
  moreover have "tbl_next if_id (frameworks ?d) = 2"
    by (simp add: tbl_next_def demo_at_def demo_db_def demo_framework_def)
  ultimately show ?thesis using publishing_moves_the_untouched [OF r, of 1 "''add''" None] by simp
qed

section \<open>Self-assessments\<close>

text \<open>A submitted self-assessment is final: no sequence of invitations, opened forms and submissions
  changes the row or its answers.\<close>

theorem submitted_self_assessment_is_final:
  assumes "assessments_ok d" and "get_assessment d k = Some a" and "ca_submitted_at a \<noteq> None"
  shows "get_assessment (fold (self_step e) cs d) k = Some a \<and>
    self_scores (fold (self_step e) cs d) k = self_scores d k"
  by (rule self_run_final [OF assms])

definition demo_assessment :: "moment option \<Rightarrow> contract_assessment" where
  "demo_assessment t = (new_assessment (demo_person 1) 1 demo_db)\<lparr>ca_submitted_at := t\<rparr>"

definition assessed_db :: "moment option \<Rightarrow> db" where
  "assessed_db t = (demo_at draft)\<lparr>assessments := [demo_assessment t], scores := []\<rparr>"

lemma demo_assessment_id: "ca_id (demo_assessment t) = 1" "ca_submitted_at (demo_assessment t) = t"
  by (simp_all add: demo_assessment_def new_assessment_def tbl_next_def demo_db_def empty_db_def)

lemma assessed_row: "get_assessment (assessed_db t) 1 = Some (demo_assessment t)" "assessments_ok (assessed_db t)"
  by (simp_all add: get_assessment_def tbl_get_def assessed_db_def demo_assessment_id assessments_ok_def tbl_ok_def)

theorem submitted_self_assessment_is_final_witness:
  "get_assessment (fold (self_step demo_env) [InviteRequest (demo_person 1) 1, OpenForm demo_employee,
      SubmitSelf demo_employee [] None] (assessed_db (Some 5))) 1 = Some (demo_assessment (Some 5))"
proof -
  have "ca_submitted_at (demo_assessment (Some 5)) \<noteq> None" by (simp add: demo_assessment_id)
  then show ?thesis using submitted_self_assessment_is_final [OF assessed_row(2,1)] by blast
qed

text \<open>A self-assessment is accepted only when it is complete: the answers name each active question
  of the newest version exactly once and nothing else.\<close>

theorem accepted_self_assessment_is_complete:
  assumes "frameworks_ok d" and "submit_current_self_assessment e u answers note d = Inr d'"
  shows "distinct (map ps_indicator answers) \<and>
    set (map ps_indicator answers) = set (active_member_ids d') \<and>
    (\<exists>f. current_framework d' = Some f \<and> if_members f = active_member_ids d')"
proof -
  obtain pid where "submit_current e u pid answers note None d = Inr d'"
    using assms(2) by (auto simp: submit_current_self_assessment_def bindE_Inr_iff)
  from submit_current_complete [OF assms(1) this] show ?thesis by auto
qed

definition demo_answers :: "self_score list" where
  "demo_answers = [\<lparr>ps_indicator = 2, ps_score = 4, ps_note = None\<rparr>, \<lparr>ps_indicator = 1, ps_score = 5, ps_note = None\<rparr>]"

lemma upd_assessment_catalogue [simp]:
  "current_framework (upd_assessment k f d) = current_framework d"
  "active_member_ids (upd_assessment k f d) = active_member_ids d"
  by (simp_all add: current_framework_def active_member_ids_def upd_assessment_def)

lemma demo_submits: "\<exists>d'. submit_current_self_assessment demo_env demo_employee demo_answers None (assessed_db None) = Inr d'"
proof -
  let ?d = "assessed_db None" and ?p = "demo_person 1"
  have p: "get_personnel ?d 1 = Some ?p"
    by (simp add: get_personnel_def tbl_get_def assessed_db_def demo_at_def demo_db_def demo_person_def)
  have a: "assessment_for_contract ?d 1 739000 = Some (demo_assessment None)"
    by (simp add: assessment_for_contract_def assessed_db_def demo_assessment_def new_assessment_def demo_person_def)
  have cur: "current_framework ?d = Some demo_framework"
    by (simp add: current_framework_def newer_framework_def assessed_db_def demo_at_def demo_db_def)
  have act: "active_member_ids ?d = [1, 2]"
    by (simp add: active_member_ids_def assessed_db_def demo_at_def demo_db_def demo_indicator_def)
  have mem: "if_members demo_framework = [1, 2]" by (simp add: demo_framework_def)
  have person: "p_id ?p = 1" "p_contract_start ?p = 739000" "contract_is_open demo_env ?p"
    by (simp_all add: demo_person_def contract_is_open_def demo_env_def)
  have on: "is_module_enabled ?d ''self_assessment''" by code_simp
  show ?thesis
    using on
    by (simp add: submit_current_self_assessment_def require_own_personnel_def require_module_def require_def
        demo_employee_def bindE_Inr_iff submit_current_def p person a may_self_assess_def EXCLUDED_ROLES_def
        demo_assessment_id submission_target_def ensure_framework_def cur act mem
        indicator_ids_for_assessment_def check_answers_Inr demo_answers_def Let_def)
qed

theorem accepted_self_assessment_is_complete_witness:
  "\<exists>d'. submit_current_self_assessment demo_env demo_employee demo_answers None (assessed_db None) = Inr d' \<and>
     set (map ps_indicator demo_answers) = set (active_member_ids d')"
proof -
  obtain d' where d': "submit_current_self_assessment demo_env demo_employee demo_answers None (assessed_db None) = Inr d'"
    using demo_submits by blast
  have "frameworks_ok (assessed_db None)"
    by (simp add: frameworks_ok_def assessed_db_def demo_at_def demo_db_def)
  from accepted_self_assessment_is_complete [OF this d'] d' show ?thesis by blast
qed

lemma tbl_upd_ex: "(\<And>r. P (f r) = P r) \<Longrightarrow> (\<exists>x\<in>set (tbl_upd key k f t). P x) \<longleftrightarrow> (\<exists>x\<in>set t. P x)"
  by (auto simp: tbl_upd_def)

lemma open_assessment_row:
  assumes "open_assessment p d = (a, d1)"
  shows "records d1 = records d \<and> scores d1 = scores d \<and> assessment_scores d1 = assessment_scores d \<and>
    (\<exists>x\<in>set (assessments d1). ca_personnel x = p_id p \<and> ca_contract_start x = p_contract_start p)"
proof (cases "assessment_for_contract d (p_id p) (p_contract_start p)")
  case None
  obtain f d0 where f: "ensure_framework d = (f, d0)" by fastforce
  then have "records d0 = records d" "scores d0 = scores d" "assessment_scores d0 = assessment_scores d"
    using ensure_framework_assessments [of d] by (simp_all add: f)
  moreover have "a = new_assessment p (if_id f) d0" "d1 = add_assessment a d0"
    using assms None f by (simp_all add: open_assessment_def Let_def) (metis prod.inject)+
  ultimately show ?thesis
    by (simp add: add_assessment_def) (simp add: new_assessment_def)
next
  case (Some x)
  then have x: "x \<in> set (assessments d)" "ca_personnel x = p_id p" "ca_contract_start x = p_contract_start p"
    by (auto simp: assessment_for_contract_def find_Some_iff)
  have d1: "a = x\<lparr>ca_contract_end := p_contract_end p\<rparr>"
    "d1 = upd_assessment (ca_id x) (\<lambda>a. a\<lparr>ca_contract_end := p_contract_end p\<rparr>) d"
    using assms Some by (simp_all add: open_assessment_def)
  have "\<exists>y\<in>set (assessments d1). ca_personnel y = p_id p \<and> ca_contract_start y = p_contract_start p"
    unfolding d1 upd_assessment_def by (simp, subst tbl_upd_ex) (use x in auto)
  then show ?thesis by (simp add: d1 upd_assessment_def)
qed

lemma invite_row:
  assumes "invite e p actor d = Inr d'"
  shows "records d' = records d \<and> scores d' = scores d \<and> assessment_scores d' = assessment_scores d \<and>
    (\<exists>x\<in>set (assessments d'). ca_personnel x = p_id p \<and> ca_contract_start x = p_contract_start p)"
proof -
  obtain a d1 where o: "open_assessment p d = (a, d1)" by fastforce
  define d2 where "d2 = upd_assessment (ca_id a)
    (\<lambda>a. a\<lparr>ca_invited_at := Some (now e), ca_invited_by := Some actor\<rparr>) d1"
  have "\<exists>t z ids ty m l. d' = log_event e actor t None None z (notify e ids ty m None l d2)"
    using assms o unfolding invite_def Let_def
    by (auto simp: d2_def split: option.splits if_splits) blast+
  then have d': "assessments d' = assessments d2" "assessment_scores d' = assessment_scores d2"
    "records d' = records d2" "scores d' = scores d2"
    by (auto simp: frame_simps)
  have "\<exists>y\<in>set (assessments d2). ca_personnel y = p_id p \<and> ca_contract_start y = p_contract_start p"
    unfolding d2_def upd_assessment_def by (simp, subst tbl_upd_ex) (use open_assessment_row [OF o] in auto)
  then show ?thesis using d' open_assessment_row [OF o] by (simp add: d2_def upd_assessment_def)
qed

text \<open>An invitation alone already freezes the case: nobody has answered anything, but the version
  published next no longer reaches the open case of the invited person.\<close>

theorem invitation_freezes_the_case:
  assumes "invite e p actor d = Inr d1" and "get_record d k = Some r" and "is_untouched d r"
    and "er_subject r = p_id p" and "er_contract_start r = Some (p_contract_start p)"
  shows "scores d1 = scores d \<and> assessment_scores d1 = assessment_scores d \<and>
    get_record (snd (publish a t n d1)) k = Some r \<and>
    (is_open r \<and> er_framework r \<noteq> None \<longrightarrow>
       (\<exists>r'. get_record (snd (publish a t n d)) k = Some r' \<and>
          er_framework r' = Some (tbl_next if_id (frameworks d))))"
proof -
  note row = invite_row [OF assms(1)]
  have r1: "get_record d1 k = Some r" using assms(2) row by (simp add: get_record_def)
  have "\<not> is_untouched d1 r" using row assms(4,5) by (auto simp: is_untouched_def)
  then have "get_record (snd (publish a t n d1)) k = Some r"
    using r1 by (simp add: publish_get_record rebinds_def)
  moreover have "is_open r \<and> er_framework r \<noteq> None \<longrightarrow>
       (\<exists>r'. get_record (snd (publish a t n d)) k = Some r' \<and>
          er_framework r' = Some (tbl_next if_id (frameworks d)))"
    using assms(2,3) by (auto simp: publish_get_record rebinds_def bump_fst)
  ultimately show ?thesis using row by blast
qed

definition fresh_db :: db where
  "fresh_db = (demo_at draft)\<lparr>scores := []\<rparr>"

theorem invitation_freezes_the_case_witness:
  "\<exists>d1. invite demo_env (demo_person 1) 1 fresh_db = Inr d1 \<and> scores d1 = [] \<and>
     get_record (snd (publish 1 ''add'' None d1)) 1 = Some (demo_case draft)"
proof -
  have acc: "account_of fresh_db 1 = Some (demo_user 5 employee (Some 1))"
    by (simp add: account_of_def fresh_db_def demo_at_def demo_db_def demo_user_def)
  have "contract_is_open demo_env (demo_person 1)" "p_id (demo_person 1) = 1" "p_contract_start (demo_person 1) = 739000"
    by (simp_all add: contract_is_open_def demo_person_def demo_env_def)
  moreover have "u_role (demo_user 5 employee (Some 1)) = employee" by (simp add: demo_user_def)
  moreover have no: "assessment_for_contract fresh_db 1 739000 = None"
    by (simp add: assessment_for_contract_def fresh_db_def demo_at_def demo_db_def empty_db_def)
  ultimately obtain d1 where inv: "invite demo_env (demo_person 1) 1 fresh_db = Inr d1"
    using acc by (simp add: invite_def may_self_assess_def EXCLUDED_ROLES_def Let_def split_beta)
  have r: "get_record fresh_db 1 = Some (demo_case draft)"
    by (simp add: get_record_def fresh_db_def demo_at_def tbl_get_def)
  have "is_untouched fresh_db (demo_case draft)"
    by (simp add: is_untouched_def fresh_db_def demo_at_def demo_db_def empty_db_def demo_case_def)
  moreover have "er_subject (demo_case draft) = p_id (demo_person 1)"
    "er_contract_start (demo_case draft) = Some (p_contract_start (demo_person 1))"
    by (simp_all add: demo_person_def demo_case_def)
  ultimately show ?thesis
    using invitation_freezes_the_case [OF inv r, of 1 "''add''" None] inv by (auto simp: fresh_db_def)
qed

end
