(* ===== verification/Delivery.thy ===== *)
theory Delivery
  imports Notifications
begin

text \<open>
  The outbound sweep of \<open>services/delivery.py\<close>. Sending a message is I/O: the channel is a parameter
  that returns the outcome of \<open>channel.send\<close>. The lemmas show which rows a sweep may touch, that a
  settled delivery is never sent again, that attempts respect the exponential delay and are bounded
  when the channel only raises delivery errors, and what happens otherwise.
\<close>

section \<open>Outcomes of a channel\<close>

datatype send_outcome =
    SendOk
  | SendFailed string bool
  | SendCrashed string

type_synonym sender = "notification_delivery \<Rightarrow> notification \<Rightarrow> send_outcome"

text \<open>The reply codes the SMTP and the SMS channel treat as final.\<close>

definition smtp_retryable :: "int \<Rightarrow> bool" where
  "smtp_retryable code \<longleftrightarrow> code \<notin> {550, 551, 553, 554}"

definition sms_retryable :: "int \<Rightarrow> bool" where
  "sms_retryable status \<longleftrightarrow> status \<notin> {400, 401, 403, 404, 422}"

definition DELIVERY_ERROR_MAX :: nat where
  "DELIVERY_ERROR_MAX = 500"

section \<open>The sweep\<close>

definition retry_delay :: "env \<Rightarrow> int \<Rightarrow> moment" where
  "retry_delay e attempts =
     minutes (delivery_retry_base_minutes (cfg e) * 2 ^ nat (max 0 (attempts - 1)))"

definition is_due :: "env \<Rightarrow> notification_delivery \<Rightarrow> bool" where
  "is_due e v = (case nd_last_attempt_at v of None \<Rightarrow> True
     | Some t \<Rightarrow> t + retry_delay e (nd_attempts v) \<le> now e)"

definition unsettled :: "notification_delivery \<Rightarrow> bool" where
  "unsettled v \<longleftrightarrow> nd_status v = d_pending \<or> nd_status v = d_failed"

text \<open>\<open>limit or settings.delivery_batch_size\<close>.\<close>

definition batch_size :: "env \<Rightarrow> nat option \<Rightarrow> nat" where
  "batch_size e limit = (case limit of None \<Rightarrow> delivery_batch_size (cfg e)
     | Some n \<Rightarrow> if n = 0 then delivery_batch_size (cfg e) else n)"

definition sweep_batch :: "env \<Rightarrow> nat \<Rightarrow> db \<Rightarrow> notification_delivery list" where
  "sweep_batch e n d =
     (let candidates = take (n * 4) (sort_key nd_created_at (filter unsettled (deliveries d)))
      in take n (filter (is_due e) candidates))"

record sweep_counts =
  sent_count :: nat
  failed_count :: nat
  abandoned_count :: nat

definition no_counts :: sweep_counts where
  "no_counts = \<lparr>sent_count = 0, failed_count = 0, abandoned_count = 0\<rparr>"

text \<open>The row after one attempt.\<close>

definition attempted :: "env \<Rightarrow> notification_delivery \<Rightarrow> notification_delivery" where
  "attempted e v = v\<lparr>nd_attempts := nd_attempts v + 1, nd_last_attempt_at := Some (now e)\<rparr>"

definition after_send :: "env \<Rightarrow> send_outcome \<Rightarrow> notification_delivery \<Rightarrow> notification_delivery" where
  "after_send e outcome v = (case outcome of
     SendFailed err retryable \<Rightarrow>
       v\<lparr>nd_last_error := Some (take DELIVERY_ERROR_MAX err),
         nd_status := (if \<not> retryable \<or> delivery_max_attempts (cfg e) \<le> nd_attempts v
                       then d_abandoned else d_failed)\<rparr>
   | SendCrashed err \<Rightarrow>
       v\<lparr>nd_status := d_failed,
         nd_last_error := Some (take DELIVERY_ERROR_MAX (''unexpected error: '' @ err))\<rparr>
   | SendOk \<Rightarrow> v\<lparr>nd_status := d_sent, nd_sent_at := Some (now e), nd_last_error := None\<rparr>)"

definition count_status :: "delivery_status \<Rightarrow> sweep_counts \<Rightarrow> sweep_counts" where
  "count_status s c = (case s of
     d_sent \<Rightarrow> c\<lparr>sent_count := Suc (sent_count c)\<rparr>
   | d_failed \<Rightarrow> c\<lparr>failed_count := Suc (failed_count c)\<rparr>
   | d_abandoned \<Rightarrow> c\<lparr>abandoned_count := Suc (abandoned_count c)\<rparr>
   | d_pending \<Rightarrow> c)"

definition get_notification :: "db \<Rightarrow> int \<Rightarrow> notification option" where
  "get_notification d = tbl_get nt_id (notifications d)"

text \<open>The row one turn of the loop leaves, or \<open>None\<close> when its channel is not configured.\<close>

definition swept :: "env \<Rightarrow> sender \<Rightarrow> db \<Rightarrow> notification_delivery \<Rightarrow> notification_delivery option" where
  "swept e send d v =
     (if nd_channel v \<notin> set (channels_on e) then None
      else Some (case get_notification d (nd_notification v) of
          None \<Rightarrow> v\<lparr>nd_status := d_abandoned,
                    nd_last_error := Some ''the notification no longer exists''\<rparr>
        | Some n \<Rightarrow>
            if result_hidden d (nt_type n)
            then v\<lparr>nd_status := d_abandoned,
                   nd_last_error := Some ''results are hidden from employees''\<rparr>
            else after_send e (send (attempted e v) n) (attempted e v)))"

definition sweep_one ::
  "env \<Rightarrow> sender \<Rightarrow> notification_delivery \<Rightarrow> sweep_counts \<times> db \<Rightarrow> sweep_counts \<times> db" where
  "sweep_one e send v s = (case swept e send (snd s) v of
     None \<Rightarrow> s
   | Some w \<Rightarrow> (count_status (nd_status w) (fst s),
               upd_delivery (nd_id v) (\<lambda>_. w) (snd s)))"

definition run_delivery_sweep ::
  "env \<Rightarrow> sender \<Rightarrow> nat option \<Rightarrow> db \<Rightarrow> sweep_counts \<times> db" where
  "run_delivery_sweep e send limit d =
     (if channels_on e = [] then (no_counts, d)
      else fold (sweep_one e send) (sweep_batch e (batch_size e limit) d) (no_counts, d))"

section \<open>One turn of the loop\<close>

lemma after_send_id [simp]:
  "nd_id (after_send e out v) = nd_id v"
  "nd_attempts (after_send e out v) = nd_attempts v"
  "nd_last_attempt_at (after_send e out v) = nd_last_attempt_at v"
  "nd_channel (after_send e out v) = nd_channel v"
  "nd_recipient (after_send e out v) = nd_recipient v"
  by (simp_all add: after_send_def split: send_outcome.split)

lemma attempted_sel [simp]:
  "nd_id (attempted e v) = nd_id v"
  "nd_attempts (attempted e v) = nd_attempts v + 1"
  "nd_last_attempt_at (attempted e v) = Some (now e)"
  "nd_channel (attempted e v) = nd_channel v"
  "nd_recipient (attempted e v) = nd_recipient v"
  by (simp_all add: attempted_def)

lemma swept_id: "swept e send d v = Some w \<Longrightarrow> nd_id w = nd_id v"
  by (auto simp: swept_def split: if_splits option.splits)

text \<open>The ways a row can leave the loop.\<close>

lemma swept_cases:
  assumes "swept e send d v = Some w"
  obtains (dropped) "nd_status w = d_abandoned" "nd_attempts w = nd_attempts v"
  | (sent) n where "get_notification d (nd_notification v) = Some n" "\<not> result_hidden d (nt_type n)"
      "w = after_send e (send (attempted e v) n) (attempted e v)"
  using assms by (auto simp: swept_def split: if_splits option.splits)

lemma swept_cong:
  assumes "notifications d' = notifications d" and "modules d' = modules d"
  shows "swept e send d' v = swept e send d v"
proof -
  have "result_hidden d' = result_hidden d"
    using assms by (simp add: result_hidden_def is_module_enabled_def get_module_def fun_eq_iff)
  moreover have "get_notification d' = get_notification d"
    using assms by (simp add: get_notification_def fun_eq_iff)
  ultimately show ?thesis by (simp add: swept_def split: option.split)
qed

lemma tbl_get_replace:
  "key w = k \<Longrightarrow> tbl_get key (tbl_upd key k (\<lambda>_. w) t) j =
     (if j = k then map_option (\<lambda>_. w) (tbl_get key t j) else tbl_get key t j)"
  by (induction t) (auto simp: tbl_get_def tbl_upd_def)

section \<open>A whole sweep\<close>

text \<open>What a sweep may do to a row: nothing, or one turn of the loop on an unsettled row that is due.\<close>

definition sweep_row :: "env \<Rightarrow> sender \<Rightarrow> db \<Rightarrow> notification_delivery \<Rightarrow> notification_delivery \<Rightarrow> bool" where
  "sweep_row e send d v w \<longleftrightarrow> w = v \<or> (unsettled v \<and> is_due e v \<and> swept e send d v = Some w)"

definition swept_db :: "env \<Rightarrow> sender \<Rightarrow> db \<Rightarrow> db \<Rightarrow> bool" where
  "swept_db e send d d' \<longleftrightarrow> d' = d\<lparr>deliveries := deliveries d'\<rparr> \<and>
     map nd_id (deliveries d') = map nd_id (deliveries d) \<and>
     (\<forall>k v. get_delivery d k = Some v \<longrightarrow>
        (\<exists>w. get_delivery d' k = Some w \<and> sweep_row e send d v w))"

lemma swept_db_refl: "swept_db e send d d"
  by (simp add: swept_db_def sweep_row_def)

lemma swept_db_frame:
  assumes "swept_db e send d d'"
  shows "notifications d' = notifications d" and "modules d' = modules d"
    and "get_notification d' = get_notification d"
proof -
  have d': "d' = d\<lparr>deliveries := deliveries d'\<rparr>" using assms by (simp add: swept_db_def)
  show n: "notifications d' = notifications d" by (subst d') simp
  show "modules d' = modules d" by (subst d') simp
  show "get_notification d' = get_notification d"
    by (simp add: get_notification_def n fun_eq_iff)
qed

lemma sweep_one_db:
  assumes s: "swept_db e send d (snd s)" and v: "get_delivery d (nd_id v) = Some v"
    and due: "unsettled v" "is_due e v"
  shows "swept_db e send d (snd (sweep_one e send v s))"
proof (cases "swept e send (snd s) v")
  case None
  then show ?thesis using s by (simp add: sweep_one_def)
next
  case (Some w)
  have w: "swept e send d v = Some w"
    using Some swept_cong [OF swept_db_frame(1,2) [OF s]] by simp
  have id: "nd_id w = nd_id v" by (rule swept_id [OF w])
  define d1 where "d1 = upd_delivery (nd_id v) (\<lambda>_. w) (snd s)"
  have one: "snd (sweep_one e send v s) = d1" using Some by (simp add: sweep_one_def d1_def)
  have get: "get_delivery d1 k =
      (if k = nd_id v then map_option (\<lambda>_. w) (get_delivery (snd s) k) else get_delivery (snd s) k)" for k
    by (simp add: d1_def get_delivery_def upd_delivery_def tbl_get_replace [of nd_id w, OF id])
  have "\<exists>w'. get_delivery d1 k = Some w' \<and> sweep_row e send d x w'"
    if x: "get_delivery d k = Some x" for k x
  proof -
    obtain w0 where "get_delivery (snd s) k = Some w0" "sweep_row e send d x w0"
      using s x unfolding swept_db_def by blast
    then show ?thesis
      using get [of k] x v w due by (auto simp: sweep_row_def)
  qed
  moreover have "d1 = d\<lparr>deliveries := deliveries d1\<rparr>"
  proof -
    have "snd s = d\<lparr>deliveries := deliveries (snd s)\<rparr>" using s by (simp add: swept_db_def)
    then have "d1 = (d\<lparr>deliveries := deliveries (snd s)\<rparr>)
        \<lparr>deliveries := tbl_upd nd_id (nd_id v) (\<lambda>_. w) (deliveries (snd s))\<rparr>"
      unfolding d1_def upd_delivery_def by (rule arg_cong)
    then show ?thesis by simp
  qed
  moreover have "map nd_id (deliveries d1) = map nd_id (deliveries d)"
  proof -
    have "map nd_id (tbl_upd nd_id (nd_id v) (\<lambda>_. w) t) = map nd_id t" for t
      using id by (induction t) (auto simp: tbl_upd_def)
    then show ?thesis using s by (simp add: d1_def upd_delivery_def swept_db_def)
  qed
  ultimately show ?thesis by (simp add: one swept_db_def)
qed

lemma sweep_batch_mem:
  "v \<in> set (sweep_batch e n d) \<Longrightarrow> v \<in> set (deliveries d) \<and> unsettled v \<and> is_due e v"
  by (auto simp: sweep_batch_def Let_def dest!: in_set_takeD)

lemma run_sweep_db:
  assumes "tbl_ok nd_id (deliveries d)"
  shows "swept_db e send d (snd (run_delivery_sweep e send limit d))"
proof -
  have "swept_db e send d (snd (fold (sweep_one e send) (sweep_batch e n d) (no_counts, d)))" for n
  proof (rule fold_invariant_list [where P = "\<lambda>s. swept_db e send d (snd s)"])
    fix v and s :: "sweep_counts \<times> db"
    assume v: "v \<in> set (sweep_batch e n d)" and s: "swept_db e send d (snd s)"
    then have "get_delivery d (nd_id v) = Some v"
      using assms by (simp add: get_delivery_def tbl_get_in sweep_batch_mem)
    then show "swept_db e send d (snd (sweep_one e send v s))"
      using sweep_one_db [OF s] v sweep_batch_mem by blast
  qed (simp add: swept_db_refl)
  then show ?thesis by (simp add: run_delivery_sweep_def swept_db_refl)
qed

lemma run_sweep_row:
  assumes "tbl_ok nd_id (deliveries d)" and "get_delivery d k = Some v"
  shows "\<exists>w. get_delivery (snd (run_delivery_sweep e send limit d)) k = Some w \<and> sweep_row e send d v w"
  using run_sweep_db [OF assms(1), of e send limit] assms(2) by (simp add: swept_db_def)

section \<open>Bounded attempts\<close>

text \<open>
  A channel whose only exceptions are delivery errors. The invariant of the outbox under such
  channels: no row has more than the configured number of attempts, and a row still waiting has
  fewer.
\<close>

definition well_behaved :: "sender \<Rightarrow> bool" where
  "well_behaved send \<longleftrightarrow> (\<forall>v n err. send v n \<noteq> SendCrashed err)"

definition attempts_ok :: "int \<Rightarrow> notification_delivery \<Rightarrow> bool" where
  "attempts_ok m v \<longleftrightarrow> 0 \<le> nd_attempts v \<and> nd_attempts v \<le> m \<and> (unsettled v \<longrightarrow> nd_attempts v < m)"

definition outbox_ok :: "int \<Rightarrow> db \<Rightarrow> bool" where
  "outbox_ok m d \<longleftrightarrow> tbl_ok nd_id (deliveries d) \<and> (\<forall>v\<in>set (deliveries d). attempts_ok m v)"

lemma sweep_row_attempts:
  assumes row: "sweep_row e send d v w" and ok: "attempts_ok (delivery_max_attempts (cfg e)) v"
    and good: "well_behaved send"
  shows "attempts_ok (delivery_max_attempts (cfg e)) w"
proof (cases "w = v")
  case False
  then have un: "unsettled v" and w: "swept e send d v = Some w" using row by (auto simp: sweep_row_def)
  from w show ?thesis
  proof (cases rule: swept_cases)
    case dropped
    then show ?thesis using ok by (simp add: attempts_ok_def unsettled_def)
  next
    case (sent n)
    then show ?thesis
      using ok un good
      by (cases "send (attempted e v) n")
        (auto simp: attempts_ok_def unsettled_def after_send_def well_behaved_def)
  qed
qed (use ok in simp)

lemma run_sweep_ok:
  assumes ok: "outbox_ok (delivery_max_attempts (cfg e)) d" and good: "well_behaved send"
  shows "outbox_ok (delivery_max_attempts (cfg e)) (snd (run_delivery_sweep e send limit d))"
proof -
  let ?d = "snd (run_delivery_sweep e send limit d)"
  have tbl: "tbl_ok nd_id (deliveries d)" using ok by (simp add: outbox_ok_def)
  have ids: "map nd_id (deliveries ?d) = map nd_id (deliveries d)"
    using run_sweep_db [OF tbl] by (simp add: swept_db_def)
  then have tbl': "tbl_ok nd_id (deliveries ?d)" using tbl by (simp add: tbl_ok_def)
  have "attempts_ok (delivery_max_attempts (cfg e)) w" if "w \<in> set (deliveries ?d)" for w
  proof -
    have "nd_id w \<in> set (map nd_id (deliveries d))" using that ids by (metis image_eqI set_map)
    then obtain v where v: "v \<in> set (deliveries d)" "nd_id v = nd_id w" by auto
    then have "get_delivery d (nd_id w) = Some v" using tbl tbl_get_in by (metis get_delivery_def)
    then obtain w' where "get_delivery ?d (nd_id w) = Some w'" "sweep_row e send d v w'"
      using run_sweep_row [OF tbl] by blast
    moreover have "get_delivery ?d (nd_id w) = Some w"
      using tbl' that by (simp add: get_delivery_def tbl_get_in)
    ultimately show ?thesis
      using sweep_row_attempts good ok v by (auto simp: outbox_ok_def)
  qed
  then show ?thesis using tbl' by (simp add: outbox_ok_def)
qed

end
