(* ===== verification/MessageProperties.thy ===== *)
theory MessageProperties
  imports CaseProperties Delivery
begin

text \<open>
  The properties of the audit log as evidence, of the notices inside the application, of the
  outbox, and of the archived documents.
\<close>

section \<open>The log as evidence\<close>






section \<open>Notices\<close>

text \<open>A move of a case notifies each of its recipients exactly once: the new rows are one unread
  notice per recipient, named after the move and pointing to the case, and nobody else gets one.\<close>

theorem each_recipient_gets_one_notice:
  assumes "iterates e" and "action_recipients d r a \<noteq> []"
  shows "\<exists>new. notifications (notify_for_workflow_action e r a d) = notifications d @ new \<and>
    distinct (map nt_user new) \<and> set (map nt_user new) = set (action_recipients d r a) \<and>
    (\<forall>n\<in>set new. nt_type n = ''workflow_'' @ action_name a \<and> nt_record n = Some (er_id r) \<and> nt_read_at n = None)"
proof -
  have order: "distinct (set_order e xs)" "set (set_order e xs) = set xs" for xs
    using assms(1) by (simp_all add: iterates_def)
  obtain new where "notifications (notify_for_workflow_action e r a d) = notifications d @ new"
    and "map nt_user new = set_order e (action_recipients d r a)"
    and "\<forall>n\<in>set new. nt_type n = ''workflow_'' @ action_name a \<and> nt_record n = Some (er_id r) \<and> nt_read_at n = None"
    using workflow_notice_rows [OF assms(2), of e] by blast
  then show ?thesis by (intro exI [of _ new]) (simp only: order simp_thms)
qed

theorem each_recipient_gets_one_notice_witness:
  "\<exists>new. notifications (notify_for_workflow_action demo_env (demo_case submitted) Submit (demo_at submitted)) = new \<and>
     set (map nt_user new) = {1}"
proof -
  have rec: "action_recipients (demo_at submitted) (demo_case submitted) Submit = [1]"
    by code_simp
  have "notifications (demo_at submitted) = []"
    by (simp add: demo_at_def demo_db_def empty_db_def)
  then show ?thesis
    using each_recipient_gets_one_notice [OF demo_env_iterates, of "demo_at submitted" "demo_case submitted" Submit] rec
    by auto
qed

text \<open>A reminder is not repeated within its window: once a reminder with a deduplication key was
  written for a user, a sweep inside the window that follows writes none with this key.\<close>

theorem reminders_are_not_repeated:
  assumes "fst (notify_once e k t m key w r l d)" and "now e' - days w' \<le> now e"
  shows "\<not> fst (notify_once e' k t' m' key w' r' l' (snd (notify_once e k t m key w r l d))) \<and>
    snd (notify_once e' k t' m' key w' r' l' (snd (notify_once e k t m key w r l d))) = snd (notify_once e k t m key w r l d)"
  using notify_once_suppressed [OF assms] notify_once_False by blast

theorem reminders_are_not_repeated_witness:
  "fst (notify_once demo_env 1 ''sla'' [] ''case-1'' 7 None None demo_db) \<and>
   \<not> fst (notify_once demo_env 1 ''sla'' [] ''case-1'' 7 None None (snd (notify_once demo_env 1 ''sla'' [] ''case-1'' 7 None None demo_db)))"
proof -
  have sent: "fst (notify_once demo_env 1 ''sla'' [] ''case-1'' 7 None None demo_db)"
    by (simp add: notify_once_fst) (simp add: demo_db_def empty_db_def)
  have "now demo_env - days 7 \<le> now demo_env" by (simp add: days_def)
  with reminders_are_not_repeated [OF sent this] sent show ?thesis by blast
qed

section \<open>The outbox\<close>

text \<open>Nothing leaves the application that the recipient did not ask for: a notice enters the outbox
  only if its kind is an outbound kind and its user is active, once per configured channel the user
  switched on and left an address for, addressed to that address.\<close>

theorem outbox_is_opt_in:
  "deliveries (enqueue_for e n d) = deliveries d \<or>
   (\<exists>x new. get_user d (nt_user n) = Some x \<and> u_is_active x \<and> nt_type n \<in> set OUTBOUND_TYPES \<and>
      deliveries (enqueue_for e n d) = deliveries d @ new \<and>
      map nd_channel new = filter (\<lambda>c. recipient_for x c \<noteq> None) (channels_on e) \<and>
      (\<forall>v\<in>set new. nd_notification v = nt_id n \<and> recipient_for x (nd_channel v) = Some (nd_recipient v) \<and>
         nd_status v = d_pending \<and> nd_attempts v = 0))"
  using enqueue_for_rows [of e n d] by (auto simp: fresh_delivery_def)

theorem outbox_is_opt_in_witness:
  "deliveries (enqueue_for demo_env \<lparr>nt_id = 1, nt_user = 9, nt_type = ''workflow_submit'', nt_message = [],
     nt_link = None, nt_record = None, nt_dedup = None, nt_created_at = 0, nt_read_at = None\<rparr> demo_db) = []"
proof -
  let ?n = "\<lparr>nt_id = 1, nt_user = 9, nt_type = ''workflow_submit'', nt_message = [],
     nt_link = None, nt_record = None, nt_dedup = None, nt_created_at = 0, nt_read_at = None\<rparr>"
  have "get_user demo_db (nt_user ?n) = None" "deliveries demo_db = []"
    by (simp_all add: get_user_def tbl_get_def demo_db_def demo_user_def empty_db_def)
  then show ?thesis using outbox_is_opt_in [of demo_env ?n demo_db] by auto
qed

text \<open>A sweep of the outbox touches a row only if it is pending or failed and its waiting time is
  over, and then does to it exactly what one delivery attempt prescribes: in particular a row that was
  sent or abandoned is never sent again.\<close>

theorem sweep_sends_only_due_rows:
  assumes "tbl_ok nd_id (deliveries d)" and "get_delivery d k = Some v"
  shows "\<exists>w. get_delivery (snd (run_delivery_sweep e send limit d)) k = Some w \<and>
    (w = v \<or> (nd_status v \<in> {d_pending, d_failed} \<and> is_due e v \<and> swept e send d v = Some w))"
  using run_sweep_row [OF assms] by (auto simp: sweep_row_def unsettled_def)

definition demo_delivery :: "delivery_status \<Rightarrow> int \<Rightarrow> notification_delivery" where
  "demo_delivery s n = \<lparr>nd_id = 1, nd_notification = 1, nd_channel = email, nd_recipient = ''a@b'', nd_status = s,
     nd_attempts = n, nd_last_attempt_at = None, nd_last_error = None, nd_sent_at = None, nd_created_at = 0\<rparr>"

definition outbox_db :: "delivery_status \<Rightarrow> int \<Rightarrow> db" where
  "outbox_db s n = demo_db\<lparr>deliveries := [demo_delivery s n],
     notifications := [\<lparr>nt_id = 1, nt_user = 1, nt_type = ''workflow_submit'', nt_message = [],
       nt_link = None, nt_record = None, nt_dedup = None, nt_created_at = 0, nt_read_at = None\<rparr>]\<rparr>"

lemma outbox_row: "get_delivery (outbox_db s n) 1 = Some (demo_delivery s n)" "tbl_ok nd_id (deliveries (outbox_db s n))"
  by (simp_all add: get_delivery_def tbl_get_def outbox_db_def demo_delivery_def tbl_ok_def)

theorem sweep_sends_only_due_rows_witness:
  "get_delivery (snd (run_delivery_sweep demo_env (\<lambda>_ _. SendOk) None (outbox_db d_sent 1))) 1 =
     Some (demo_delivery d_sent 1)"
proof -
  obtain w where "get_delivery (snd (run_delivery_sweep demo_env (\<lambda>_ _. SendOk) None (outbox_db d_sent 1))) 1 = Some w"
    and "w = demo_delivery d_sent 1 \<or> nd_status (demo_delivery d_sent 1) \<in> {d_pending, d_failed}"
    using sweep_sends_only_due_rows [OF outbox_row(2,1)] by blast
  then show ?thesis by (simp add: demo_delivery_def)
qed



text \<open>The maximum does not hold for a channel that raises anything else: a message whose sending
  crashes stays in the queue as failed after every attempt, beyond the configured maximum.\<close>

theorem crashing_message_is_never_abandoned:
  assumes "swept e send d v = Some w" and "get_notification d (nd_notification v) = Some n"
    and "\<not> result_hidden d (nt_type n)" and "send (attempted e v) n = SendCrashed err"
  shows "unsettled w \<and> nd_attempts w = nd_attempts v + 1"
  using assms by (auto simp: swept_def after_send_def unsettled_def split: if_splits)

theorem crashing_message_is_never_abandoned_witness:
  "\<exists>w. swept demo_env (\<lambda>_ _. SendCrashed ''bug'') (outbox_db d_failed 99) (demo_delivery d_failed 99) = Some w \<and>
     unsettled w \<and> nd_attempts w = 100 \<and> delivery_max_attempts (cfg demo_env) = 5"
proof -
  let ?n = "\<lparr>nt_id = 1, nt_user = 1, nt_type = ''workflow_submit'', nt_message = [],
       nt_link = None, nt_record = None, nt_dedup = None, nt_created_at = 0, nt_read_at = None\<rparr>"
  have n: "get_notification (outbox_db d_failed 99) (nd_notification (demo_delivery d_failed 99)) = Some ?n"
    by (simp add: get_notification_def tbl_get_def outbox_db_def demo_delivery_def)
  obtain w where w: "swept demo_env (\<lambda>_ _. SendCrashed ''bug'') (outbox_db d_failed 99) (demo_delivery d_failed 99) = Some w"
    by (simp add: swept_def n) (simp add: demo_delivery_def demo_env_def)
  have "nd_attempts (demo_delivery d_failed 99) = 99" by (simp add: demo_delivery_def)
  then show ?thesis
    using crashing_message_is_never_abandoned [OF w n] w by (simp add: demo_env_def default_settings_def)
qed

section \<open>Documents\<close>

text \<open>The public verification page answers only for finalized cases, and with the stored code, result
  and recommendation of the case that carries the token.\<close>

theorem verification_shows_only_final_results:
  assumes "verify_document t d = Inr v"
  shows "\<exists>r\<in>set (records d). er_verify_token r = Some t \<and> er_status r = finalized \<and>
    vr_code v = er_code r \<and> vr_final_pct v = map_option fl (er_final_pct r) \<and>
    vr_recommendation v = er_recommendation r \<and>
    (vr_document_ready v \<longleftrightarrow> get_document d (er_id r) \<noteq> None)"
  by (rule verify_document_Inr [OF assms])

definition archived_db :: db where
  "archived_db = (demo_at finalized)\<lparr>records := [demo_case finalized\<lparr>er_verify_token := Some ''token''\<rparr>]\<rparr>"

theorem verification_shows_only_final_results_witness:
  "\<exists>v. verify_document ''token'' archived_db = Inr v \<and> vr_code v = ''1404-0001''"
proof -
  obtain v where v: "verify_document ''token'' archived_db = Inr v"
    by (simp add: verify_document_def archived_db_def Let_def)
  have "er_code (demo_case finalized) = ''1404-0001''" by (simp add: demo_case_def)
  then show ?thesis
    using verification_shows_only_final_results [OF v] v by (auto simp: archived_db_def)
qed

text \<open>The printed document of a case is made once: archiving again, under whatever conditions, returns
  the stored bytes and changes nothing.\<close>

theorem archived_documents_are_kept:
  assumes "archive_final_pdf e r d = (Some x, d1)"
  shows "archive_final_pdf e' r d1 = (Some x, d1) \<and> get_document d1 (er_id r) = Some x"
  using archive_idempotent [OF assms] by blast

definition printing_env :: env where
  "printing_env = demo_env\<lparr>render_pdf := \<lambda>_ _. Some [37, 80, 68, 70]\<rparr>"

theorem archived_documents_are_kept_witness:
  "\<exists>x d1. archive_final_pdf printing_env (demo_case finalized) (demo_at finalized) = (Some x, d1) \<and>
     archive_final_pdf demo_env (demo_case finalized) d1 = (Some x, d1)"
proof -
  have "get_document (demo_at finalized) 1 = None"
    by (simp add: get_document_def demo_at_def demo_db_def empty_db_def)
  then obtain x d1 where run: "archive_final_pdf printing_env (demo_case finalized) (demo_at finalized) = (Some x, d1)"
    by (simp add: archive_final_pdf_def printing_env_def Let_def)
  with archived_documents_are_kept [OF run] show ?thesis by blast
qed

end
