(* ===== verification/CaseFindings.thy ===== *)
theory CaseFindings
  imports CaseProperties
begin

text \<open>
  The transition table as the code has it, and two places where the handlers of a case do not do
  what their comments say.
\<close>

text \<open>A move of a case is allowed exactly from the statuses of its row of the table, to a user whose
  role may act at the row's stage and who holds the row's seat (an unclaimed human-resources seat is
  free to take), on the path the row is for; every denial is a 400 or a 403.\<close>

theorem moves_follow_the_table:
  "(ensure_transition_allowed r a u = Inr t \<longleftrightarrow> t = transition_of a \<and> er_status r \<in> set (tr_from t) \<and>
      may_act_at (cu_role u) (tr_role t) \<and> tr_guard t r \<and>
      (case actor_seat a of None \<Rightarrow> True
       | Some s \<Rightarrow> assignee_of s r = Some (cu_id u) \<or> s = as_hr \<and> er_hr r = None)) \<and>
   (\<forall>x. ensure_transition_allowed r a u = Inl x \<longrightarrow> error_status x \<in> {400, 403}) \<and>
   (\<forall>s\<in>set (tr_from (transition_of a)). s \<noteq> finalized \<and> s \<noteq> cancelled \<and>
      (if is_return a then tr_to (transition_of a) < s else s < tr_to (transition_of a)))"
proof -
  have seat: "owns_stage (transition_of a) r u \<longleftrightarrow> (case actor_seat a of None \<Rightarrow> True
       | Some s \<Rightarrow> assignee_of s r = Some (cu_id u) \<or> s = as_hr \<and> er_hr r = None)"
    by (auto simp: owns_stage_def tr_assignee_seat tr_claimable_iff assignee_of_def split: option.split assignee.split)
  show ?thesis
    using transition_denied from_open action_direction by (auto simp: transition_allowed_Inr seat)
qed

theorem moves_follow_the_table_witness:
  "ensure_transition_allowed (demo_case hr_approved) DeputyApprove demo_deputy = Inr (transition_of DeputyApprove) \<and>
   ensure_transition_allowed (demo_case hr_approved) DeputyApprove demo_ceo \<noteq> Inr (transition_of DeputyApprove)"
  using moves_follow_the_table [of "demo_case hr_approved" DeputyApprove]
  by (simp add: assignee_of_def demo_deputy_def demo_ceo_def may_act_at_chain) (simp add: transition_of_def may_act_at_chain)

text \<open>Human resources may not approve the own case, but may send it back: the handler of returns has
  no check that the user is not the person the case is about.\<close>

theorem own_case_can_be_returned:
  assumes "get_record d k = Some r" and "er_status r = submitted" and "cu_role u = hr"
    and "cu_personnel_id u = Some (er_subject r)" and "er_hr r = None"
  shows "(\<exists>d'. handle e u (ReturnEvaluation k t) d = Inr d') \<and>
    (\<forall>d'. handle e u (ApproveAsHr k) d \<noteq> Inr d')"
proof -
  have id: "er_id r = k" by (rule record_st.row_key [OF assms(1)])
  have "ensure_transition_allowed r HrReturn u = Inr (transition_of HrReturn)"
    using assms by (simp add: transition_allowed_Inr transition_of_def owns_stage_def assignee_of_def)
  then have "\<exists>d'. apply_transition e r HrReturn u (\<lambda>d. Inr (log_event e (cu_id u) ''evaluation_returned'' (Some k) None
      (Some (JObj [(''reason'', JText t)]))
      (add_comment_row e k (cu_id u) None cm_hr_review (lit ''Case returned, reason: '' @ t) d))) d = Inr d'"
    by (subst transition_runs [OF assms(1)]) (simp_all add: transition_of_def)
  then have "\<exists>d'. handle e u (ReturnEvaluation k t) d = Inr d'"
    using assms by (simp add: return_evaluation_def bindE_Inr_iff guard_simps return_action_by_role_def)
  moreover have "handle e u (ApproveAsHr k) d \<noteq> Inr d'" for d'
    using assms by (auto simp: approve_as_hr_def bindE_Inr_iff guard_simps)
  ultimately show ?thesis by blast
qed

definition hr_subject :: current_user where
  "hr_subject = \<lparr>cu_id = 6, cu_username = ''user'', cu_role = hr, cu_personnel_id = Some 1\<rparr>"

theorem own_case_can_be_returned_witness:
  "\<exists>d'. handle demo_env hr_subject (ReturnEvaluation 1 (lit ''again'')) (demo_at submitted) = Inr d'"
  using own_case_can_be_returned [of "demo_at submitted" 1 "demo_case submitted" hr_subject demo_env]
  by (simp add: hr_subject_def)

text \<open>On a chain without a deputy the chief executive decides right after human resources, but can
  only finalize: the return from that status is refused, whatever the reason given.\<close>

theorem no_return_without_a_deputy:
  assumes "get_record d k = Some r" and "er_status r = hr_approved" and "er_deputy r = None"
    and "er_supervisor r \<noteq> None" and "cu_role u = ceo" and "er_ceo r = cu_id u"
    and "er_final_pct r \<noteq> None" and "scores_of d k \<noteq> []" and "get_personnel d (er_subject r) \<noteq> None"
  shows "(\<exists>d'. handle e u (FinalizeAsCeo k) d = Inr d') \<and> (\<forall>d'. handle e u (ReturnEvaluation k t) d \<noteq> Inr d')"
proof -
  have "(\<exists>d1. apply_transition e r CeoFinalize u (finalize_hook e k) d = Inr d1)"
    using transition_runs [OF assms(1), where a = CeoFinalize and hook = "finalize_hook e k"]
      finalize_after_claim [OF assms(1,9)] ceo_allowed [of r u] assms by (simp add: may_act_at_chain)
  then have "\<exists>d'. handle e u (FinalizeAsCeo k) d = Inr d'"
    using ceo_finalize_runs [OF assms(1), of e u] assms(5) by (simp add: may_act_at_chain)
  moreover have "handle e u (ReturnEvaluation k t) d \<noteq> Inr d'" for d'
    using assms by (auto simp: return_evaluation_def bindE_Inr_iff guard_simps return_action_by_role_def
        is_manager_path_def apply_transition_Inr transition_of_def)
  ultimately show ?thesis by blast
qed

theorem no_return_without_a_deputy_witness:
  "\<exists>d. (\<exists>d'. handle demo_env demo_ceo (FinalizeAsCeo 1) d = Inr d') \<and>
       (\<forall>d'. handle demo_env demo_ceo (ReturnEvaluation 1 (lit ''again'')) d \<noteq> Inr d')"
proof -
  let ?r = "demo_case hr_approved\<lparr>er_deputy := None\<rparr>"
  let ?d = "(demo_at hr_approved)\<lparr>records := [?r]\<rparr>"
  have r: "get_record ?d 1 = Some ?r" by (simp add: get_record_def tbl_get_def)
  have sc: "scores_of ?d 1 \<noteq> []" by (simp add: scores_of_def demo_at_def demo_score_def)
  have p: "get_personnel ?d (er_subject ?r) \<noteq> None"
    by (simp add: get_personnel_def tbl_get_def demo_at_def demo_db_def demo_person_def)
  show ?thesis
    using no_return_without_a_deputy [OF r _ _ _ _ _ _ sc p, of demo_ceo demo_env "lit ''again''"]
    by (intro exI [of _ ?d]) (simp add: demo_ceo_def)
qed

end
