(* ===== verification/Sessions.thy ===== *)
theory Sessions
  imports Notifications
begin

text \<open>
  Signing in: the refresh sessions of \<open>services/sessions.py\<close>, the lock after failed attempts of
  \<open>services/login_guard.py\<close>, the one-time passwords of \<open>services/security_tokens.py\<close> and the
  endpoints of \<open>routers/auth.py\<close>. A signed token is represented by its claims: the package that
  signs and verifies it is not part of the program, so the input of an endpoint that reads the
  cookie is the claims of a token that verified, or \<open>None\<close>. An endpoint returns its answer
  and the committed session: a failed login commits too. Rate limits per address, metrics and
  response headers are left out, and so are the lengths of the text columns.
\<close>

section \<open>Refresh sessions\<close>

definition ROTATION_GRACE_SECONDS :: int where
  "ROTATION_GRACE_SECONDS = 60"

text \<open>\<open>a or b\<close> on optional texts: the empty text counts as absent.\<close>

definition or_text :: "string option \<Rightarrow> string option \<Rightarrow> string option" where
  "or_text a b = (if a = None \<or> a = Some [] then b else a)"

definition session_by_jti :: "db \<Rightarrow> string \<Rightarrow> auth_session option" where
  "session_by_jti d jti = find (\<lambda>s. as_jti s = jti) (sessions d)"

text \<open>The column \<open>jti\<close> is unique: a second session with a value that is taken fails on flush.\<close>

definition create_session ::
  "env \<Rightarrow> int \<Rightarrow> string option \<Rightarrow> string option \<Rightarrow> db \<Rightarrow> (string \<times> db) result" where
  "create_session e k ua ip d =
     (let jti = token e;
          s = \<lparr>as_id = tbl_next as_id (sessions d), as_user = k, as_jti = jti,
               as_expires_at = now e + days (refresh_token_expire_days (cfg e)),
               as_rotated_at = None, as_replaced_by = None, as_revoked_at = None,
               as_user_agent = map_option (take 400) (or_text ua None), as_ip = ip,
               as_last_used_at = Some (now e)\<rparr>
      in if session_by_jti d jti \<noteq> None then Inl (Uncaught (IntegrityError ''auth_sessions.jti''))
         else Inr (jti, d\<lparr>sessions := sessions d @ [s]\<rparr>))"

definition is_live :: "env \<Rightarrow> int \<Rightarrow> auth_session \<Rightarrow> bool" where
  "is_live e k s \<longleftrightarrow> as_user s = k \<and> as_revoked_at s = None \<and> as_rotated_at s = None \<and>
     now e < as_expires_at s"

definition active_sessions :: "env \<Rightarrow> int \<Rightarrow> db \<Rightarrow> auth_session list" where
  "active_sessions e k d =
     (let rows = filter (is_live e k) (sessions d) in
      sort_key (\<lambda>s. - the (as_last_used_at s)) (filter (\<lambda>s. as_last_used_at s \<noteq> None) rows)
      @ filter (\<lambda>s. as_last_used_at s = None) rows)"

definition revoke :: "env \<Rightarrow> auth_session \<Rightarrow> auth_session" where
  "revoke e s = (if as_revoked_at s = None then s\<lparr>as_revoked_at := Some (now e)\<rparr> else s)"

definition revoke_session :: "env \<Rightarrow> string \<Rightarrow> db \<Rightarrow> db" where
  "revoke_session e jti d =
     d\<lparr>sessions := map (\<lambda>s. if as_jti s = jti then revoke e s else s) (sessions d)\<rparr>"

definition revoke_all_for_user :: "env \<Rightarrow> int \<Rightarrow> db \<Rightarrow> db" where
  "revoke_all_for_user e k d =
     d\<lparr>sessions := map (\<lambda>s. if as_user s = k then revoke e s else s) (sessions d)\<rparr>"

text \<open>
  The outcome of a rotation: \<open>Reused\<close> stands for the raised \<open>RefreshReuseError\<close> (the caller commits
  what was revoked), \<open>Grace\<close> for a token that was rotated a moment ago.
\<close>

datatype rotation = Reused | Grace | Rotated string

definition mark_rotated :: "env \<Rightarrow> string \<Rightarrow> string \<Rightarrow> db \<Rightarrow> db" where
  "mark_rotated e jti successor d = d\<lparr>sessions := map (\<lambda>s. if as_jti s = jti
     then s\<lparr>as_rotated_at := Some (now e), as_replaced_by := Some successor\<rparr> else s) (sessions d)\<rparr>"

definition rotate_session ::
  "env \<Rightarrow> int \<Rightarrow> string \<Rightarrow> string option \<Rightarrow> string option \<Rightarrow> db \<Rightarrow> (rotation \<times> db) result" where
  "rotate_session e k jti ua ip d =
     (let reused = Inr (Reused, revoke_all_for_user e k d) in
      case session_by_jti d jti of
        None \<Rightarrow> reused
      | Some s \<Rightarrow>
          if as_user s \<noteq> k \<or> as_revoked_at s \<noteq> None \<or> as_expires_at s \<le> now e then reused
          else (case as_rotated_at s of
            Some t \<Rightarrow> if now e - t \<le> ROTATION_GRACE_SECONDS * 1000000 then Inr (Grace, d) else reused
          | None \<Rightarrow> bindE (create_session e k (or_text ua (as_user_agent s)) (or_text ip (as_ip s)) d)
              (\<lambda>(successor, d1). Inr (Rotated successor, mark_rotated e jti successor d1))))"

section \<open>The lock after failed attempts\<close>

definition get_attempt :: "db \<Rightarrow> string \<Rightarrow> login_attempt option" where
  "get_attempt d name = find (\<lambda>a. la_username a = name) (login_attempts d)"

definition put_attempt :: "login_attempt \<Rightarrow> db \<Rightarrow> db" where
  "put_attempt a d = d\<lparr>login_attempts :=
     filter (\<lambda>x. la_username x \<noteq> la_username a) (login_attempts d) @ [a]\<rparr>"

definition locked_until :: "env \<Rightarrow> db \<Rightarrow> string \<Rightarrow> moment option" where
  "locked_until e d name = (case get_attempt d name of
     None \<Rightarrow> None
   | Some a \<Rightarrow> (case la_locked_until a of
       None \<Rightarrow> None
     | Some t \<Rightarrow> if t \<le> now e then None else Some t))"

text \<open>The row of a name whose window is over starts again from zero.\<close>

definition attempt_row :: "env \<Rightarrow> string \<Rightarrow> db \<Rightarrow> login_attempt" where
  "attempt_row e name d =
     (let start = now e - minutes (login_attempt_window_minutes (cfg e)) in
      case get_attempt d name of
        None \<Rightarrow> \<lparr>la_username = name, la_failed_count = 0, la_first_failed_at = now e,
                 la_last_failed_at = now e, la_locked_until = None\<rparr>
      | Some a \<Rightarrow> if la_last_failed_at a < start
          then a\<lparr>la_failed_count := 0, la_first_failed_at := now e, la_locked_until := None\<rparr>
          else a)"

definition counted :: "env \<Rightarrow> login_attempt \<Rightarrow> login_attempt" where
  "counted e a = (let n = la_failed_count a + 1; b = a\<lparr>la_failed_count := n, la_last_failed_at := now e\<rparr>
     in if login_max_failed_attempts (cfg e) \<le> n
        then b\<lparr>la_locked_until := Some (now e + minutes (login_lockout_minutes (cfg e))),
               la_failed_count := 0\<rparr>
        else b)"

definition record_failure :: "env \<Rightarrow> string \<Rightarrow> db \<Rightarrow> moment option \<times> db" where
  "record_failure e name d =
     (let a = attempt_row e name d; b = counted e a in
      (if login_max_failed_attempts (cfg e) \<le> la_failed_count a + 1 then la_locked_until b else None,
       put_attempt b d))"

definition clear_failures :: "string \<Rightarrow> db \<Rightarrow> db" where
  "clear_failures name d =
     d\<lparr>login_attempts := filter (\<lambda>a. la_username a \<noteq> name) (login_attempts d)\<rparr>"

definition is_stale :: "env \<Rightarrow> login_attempt \<Rightarrow> bool" where
  "is_stale e a \<longleftrightarrow>
     la_last_failed_at a < now e - minutes (login_attempt_window_minutes (cfg e)) \<and>
     (case la_locked_until a of None \<Rightarrow> True | Some t \<Rightarrow> t < now e)"

definition purge_stale :: "env \<Rightarrow> db \<Rightarrow> nat \<times> db" where
  "purge_stale e d = (length (filter (is_stale e) (login_attempts d)),
     d\<lparr>login_attempts := filter (\<lambda>a. \<not> is_stale e a) (login_attempts d)\<rparr>)"

definition notify_hr_of_lockout :: "env \<Rightarrow> string \<Rightarrow> moment \<Rightarrow> db \<Rightarrow> db" where
  "notify_hr_of_lockout e name until d = fold (\<lambda>k d.
       snd (notify_once e k ''account_locked'' (lit (''locked after failed logins: '' @ name))
         (''lockout:'' @ name @ '':'' @ iso_moment until) 1 None (Some ''/hr/audit-log'') d))
     (active_user_ids_with_role d hr) d"

section \<open>The endpoints\<close>

text \<open>The claims of the two tokens, without the signature.\<close>

record access_claims =
  ac_sub :: int
  ac_role :: user_role
  ac_tv :: int
  ac_expires_at :: moment

record refresh_claims =
  rc_sub :: int
  rc_tv :: "int option"
  rc_jti :: string

definition create_access_token :: "env \<Rightarrow> user \<Rightarrow> access_claims" where
  "create_access_token e x = \<lparr>ac_sub = u_id x, ac_role = u_role x, ac_tv = u_token_version x,
     ac_expires_at = now e + minutes (access_token_expire_minutes (cfg e))\<rparr>"

definition create_refresh_token :: "user \<Rightarrow> string \<Rightarrow> refresh_claims" where
  "create_refresh_token x jti =
     \<lparr>rc_sub = u_id x, rc_tv = Some (u_token_version x), rc_jti = jti\<rparr>"

record auth_answer =
  aa_access :: access_claims
  aa_cookie :: "refresh_claims option"
  aa_must_change :: bool

type_synonym 'a outcome = "'a result \<times> db"

definition issue_login_response ::
  "env \<Rightarrow> user \<Rightarrow> string option \<Rightarrow> string option \<Rightarrow> db \<Rightarrow> db \<Rightarrow> auth_answer outcome" where
  "issue_login_response e x ua ip old d = (case create_session e (u_id x) ua ip d of
     Inl err \<Rightarrow> (Inl err, old)
   | Inr (jti, d1) \<Rightarrow>
       (Inr \<lparr>aa_access = create_access_token e x, aa_cookie = Some (create_refresh_token x jti),
             aa_must_change = u_must_change_password x\<rparr>, d1))"

definition user_by_name :: "db \<Rightarrow> string \<Rightarrow> user option" where
  "user_by_name d name = find (\<lambda>x. u_username x = name) (users d)"

definition opt_json :: "string option \<Rightarrow> json" where
  "opt_json v = (case v of None \<Rightarrow> JNull | Some s \<Rightarrow> JStr s)"

definition login_failed :: "env \<Rightarrow> string \<Rightarrow> int option \<Rightarrow> string option \<Rightarrow> db \<Rightarrow> db" where
  "login_failed e name uid ip d =
     (let (locked, d1) = record_failure e name d;
          d2 = (case uid of None \<Rightarrow> d1
                | Some k \<Rightarrow> log_event e k ''login_failed'' None None (Some (JObj [(''ip'', opt_json ip)])) d1)
      in case locked of
           None \<Rightarrow> d2
         | Some t \<Rightarrow> notify_hr_of_lockout e name t
             (case uid of None \<Rightarrow> d2
              | Some k \<Rightarrow> log_event e k ''account_locked'' None None
                  (Some (JObj [(''ip'', opt_json ip), (''until'', JStr (iso_moment t))])) d2))"

definition invalid_credentials :: http_error where
  "invalid_credentials = HTTPException 401 ''wrong name or password''"

definition login ::
  "env \<Rightarrow> string \<Rightarrow> string \<Rightarrow> string option \<Rightarrow> string option \<Rightarrow> db \<Rightarrow> auth_answer outcome" where
  "login e name password ua ip d =
     (if locked_until e d name \<noteq> None
      then (Inl (HTTPException 429 ''the account is locked for a while''), d)
      else case user_by_name d name of
        None \<Rightarrow> (Inl invalid_credentials, login_failed e name None ip d)
      | Some x \<Rightarrow>
          if \<not> password_matches e password (u_password_hash x)
          then (Inl invalid_credentials, login_failed e name (Some (u_id x)) ip d)
          else if \<not> u_is_active x then (Inl (HTTPException 403 ''the account is inactive''), d)
          else issue_login_response e x ua ip d
                 (log_event e (u_id x) ''login_succeeded'' None None (Some (JObj [(''ip'', opt_json ip)]))
                   (clear_failures name d)))"

definition session_error :: http_error where
  "session_error = HTTPException 401 ''the session is invalid or expired''"

definition refresh ::
  "env \<Rightarrow> refresh_claims option \<Rightarrow> string option \<Rightarrow> string option \<Rightarrow> db \<Rightarrow> auth_answer outcome" where
  "refresh e cookie ua ip d = (case cookie of
     None \<Rightarrow> (Inl session_error, d)
   | Some c \<Rightarrow>
      if rc_jti c = [] then (Inl session_error, d)
      else case get_user d (rc_sub c) of
        None \<Rightarrow> (Inl session_error, d)
      | Some x \<Rightarrow>
          if \<not> u_is_active x \<or> rc_tv c \<noteq> Some (u_token_version x) then (Inl session_error, d)
          else (case rotate_session e (u_id x) (rc_jti c) ua ip d of
            Inl err \<Rightarrow> (Inl err, d)
          | Inr (Reused, d1) \<Rightarrow> (Inl session_error, d1)
          | Inr (Grace, d1) \<Rightarrow>
              (Inr \<lparr>aa_access = create_access_token e x, aa_cookie = None, aa_must_change = False\<rparr>, d1)
          | Inr (Rotated jti, d1) \<Rightarrow>
              (Inr \<lparr>aa_access = create_access_token e x,
                    aa_cookie = Some (create_refresh_token x jti), aa_must_change = False\<rparr>, d1)))"

definition logout :: "env \<Rightarrow> refresh_claims option \<Rightarrow> db \<Rightarrow> db" where
  "logout e cookie d = (case cookie of
     None \<Rightarrow> d
   | Some c \<Rightarrow> if rc_jti c = [] then d else revoke_session e (rc_jti c) d)"

text \<open>
  \<open>str.lower\<close> on the code points below 256, and \<open>a in b\<close> on texts. Names have no other
  characters; passwords are modelled with these.
\<close>

definition lower_char :: "char \<Rightarrow> char" where
  "lower_char c = (let n = of_char c :: nat in
     if 65 \<le> n \<and> n \<le> 90 \<or> 192 \<le> n \<and> n \<le> 222 \<and> n \<noteq> 215 then char_of (n + 32) else c)"

fun occurs_in :: "string \<Rightarrow> string \<Rightarrow> bool" where
  "occurs_in s [] \<longleftrightarrow> s = []"
| "occurs_in s (c # cs) \<longleftrightarrow> take (length s) (c # cs) = s \<or> occurs_in s cs"

definition with_new_password :: "env \<Rightarrow> string \<Rightarrow> user \<Rightarrow> user" where
  "with_new_password e new x = x\<lparr>u_password_hash := password_digest e new,
     u_token_version := u_token_version x + 1, u_must_change_password := False\<rparr>"

definition change_password ::
  "env \<Rightarrow> current_user \<Rightarrow> string \<Rightarrow> string \<Rightarrow> string option \<Rightarrow> string option \<Rightarrow> db \<Rightarrow>
   auth_answer outcome" where
  "change_password e u current new ua ip d =
     (if length new < 10 then (Inl (HTTPException 422 ''the new password is too short''), d)
      else case get_user d (cu_id u) of
        None \<Rightarrow> (Inl (HTTPException 400 ''the current password is wrong''), d)
      | Some x \<Rightarrow>
          if \<not> password_matches e current (u_password_hash x)
          then (Inl (HTTPException 400 ''the current password is wrong''), d)
          else if new = current
          then (Inl (HTTPException 400 ''the new password equals the current one''), d)
          else if 3 \<le> length (u_username x) \<and>
                  occurs_in (map lower_char (u_username x)) (map lower_char new)
          then (Inl (HTTPException 400 ''the new password contains the name''), d)
          else
            issue_login_response e (with_new_password e new x) ua ip d
              (log_event e (u_id x) ''password_changed_self'' None None None
                (revoke_all_for_user e (u_id x) (upd_user (u_id x) (with_new_password e new) d))))"

definition list_my_sessions ::
  "env \<Rightarrow> current_user \<Rightarrow> refresh_claims option \<Rightarrow> db \<Rightarrow> (auth_session \<times> bool) list" where
  "list_my_sessions e u cookie d =
     map (\<lambda>s. (s, map_option rc_jti cookie = Some (as_jti s))) (active_sessions e (cu_id u) d)"

definition get_session :: "db \<Rightarrow> int \<Rightarrow> auth_session option" where
  "get_session d = tbl_get as_id (sessions d)"

definition revoke_my_session :: "env \<Rightarrow> current_user \<Rightarrow> int \<Rightarrow> db \<Rightarrow> db result" where
  "revoke_my_session e u k d = (case get_session d k of
     None \<Rightarrow> Inl (HTTPException 404 ''session not found'')
   | Some s \<Rightarrow>
      if as_user s \<noteq> cu_id u then Inl (HTTPException 404 ''session not found'')
      else if as_revoked_at s \<noteq> None then Inr d
      else Inr (log_event e (cu_id u) ''session_revoked'' None None
                 (Some (JObj [(''session_id'', JInt (as_id s))]))
                 (d\<lparr>sessions := tbl_upd as_id k (revoke e) (sessions d)\<rparr>)))"

text \<open>The requests of this router, and what each leaves in the database.\<close>

datatype auth_request =
    Login string string "string option" "string option"
  | Refresh "refresh_claims option" "string option" "string option"
  | Logout "refresh_claims option"
  | ChangePassword current_user string string "string option" "string option"
  | CloseSession current_user int

fun auth_step :: "env \<times> auth_request \<Rightarrow> db \<Rightarrow> db" where
  "auth_step (e, Login name pw ua ip) d = snd (login e name pw ua ip d)"
| "auth_step (e, Refresh c ua ip) d = snd (refresh e c ua ip d)"
| "auth_step (e, Logout c) d = logout e c d"
| "auth_step (e, ChangePassword u old new ua ip) d = snd (change_password e u old new ua ip d)"
| "auth_step (e, CloseSession u k) d =
     (case revoke_my_session e u k d of Inl _ \<Rightarrow> d | Inr d' \<Rightarrow> d')"

section \<open>What the requests keep\<close>

text \<open>
  A session row is never removed or handed to another user, and what was revoked stays revoked; new
  rows carry identifiers that nobody had before. A token version never goes back.
\<close>

definition same_session :: "auth_session \<Rightarrow> auth_session \<Rightarrow> bool" where
  "same_session s s' \<longleftrightarrow> as_id s' = as_id s \<and> as_user s' = as_user s \<and> as_jti s' = as_jti s \<and>
     as_expires_at s' = as_expires_at s \<and>
     (as_revoked_at s \<noteq> None \<longrightarrow> as_revoked_at s' = as_revoked_at s)"

definition sessions_grow :: "auth_session list \<Rightarrow> auth_session list \<Rightarrow> bool" where
  "sessions_grow xs ys \<longleftrightarrow> (\<exists>f new. ys = map f xs @ new \<and> (\<forall>s\<in>set xs. same_session s (f s)) \<and>
     distinct (map as_jti new) \<and> set (map as_jti new) \<inter> set (map as_jti xs) = {})"

definition versions_grow :: "db \<Rightarrow> db \<Rightarrow> bool" where
  "versions_grow d d' \<longleftrightarrow> (\<forall>k. case get_user d k of
     None \<Rightarrow> get_user d' k = None
   | Some x \<Rightarrow> (\<exists>y. get_user d' k = Some y \<and> u_token_version x \<le> u_token_version y))"

lemma same_session_refl [simp, intro]: "same_session s s"
  by (simp add: same_session_def)

lemma same_session_trans: "same_session a b \<Longrightarrow> same_session b c \<Longrightarrow> same_session a c"
  by (auto simp: same_session_def)

lemma sessions_grow_refl [simp, intro]: "sessions_grow xs xs"
  unfolding sessions_grow_def by (rule exI [of _ "\<lambda>s. s"]) (auto intro!: exI [of _ "[]"])

lemma sessions_grow_map: "(\<And>s. same_session s (f s)) \<Longrightarrow> sessions_grow xs (map f xs)"
  unfolding sessions_grow_def by (rule exI [of _ f]) (auto intro!: exI [of _ "[]"])

lemma sessions_grow_jtis:
  assumes "sessions_grow xs ys"
  shows "as_jti ` set xs \<subseteq> as_jti ` set ys"
proof -
  obtain f new where f: "ys = map f xs @ new" "\<forall>s\<in>set xs. same_session s (f s)"
    using assms by (auto simp: sessions_grow_def)
  have "as_jti ` set xs = as_jti ` f ` set xs"
    using f(2) unfolding image_image by (intro image_cong) (auto simp: same_session_def)
  then show ?thesis using f(1) by auto
qed

lemma sessions_grow_snoc:
  assumes "sessions_grow xs ys" and "as_jti s \<notin> as_jti ` set ys"
  shows "sessions_grow xs (ys @ [s])"
proof -
  obtain f new where f: "ys = map f xs @ new" "\<forall>s\<in>set xs. same_session s (f s)"
    "distinct (map as_jti new)" "set (map as_jti new) \<inter> set (map as_jti xs) = {}"
    using assms(1) by (auto simp: sessions_grow_def)
  show ?thesis
    unfolding sessions_grow_def
  proof (intro exI conjI)
    show "ys @ [s] = map f xs @ (new @ [s])" using f(1) by simp
    show "distinct (map as_jti (new @ [s]))" using f(1,3) assms(2) by auto
    show "set (map as_jti (new @ [s])) \<inter> set (map as_jti xs) = {}"
      using f(4) assms(2) sessions_grow_jtis [OF assms(1)] by auto
  qed (rule f(2))
qed

lemma disjoint_grow: "A \<subseteq> B \<Longrightarrow> N \<inter> A = {} \<Longrightarrow> M \<inter> B = {} \<Longrightarrow> (N \<union> M) \<inter> A = {}"
  by blast

lemma sessions_grow_trans:
  assumes "sessions_grow xs ys" and "sessions_grow ys zs"
  shows "sessions_grow xs zs"
proof -
  obtain f new where f: "ys = map f xs @ new" "\<forall>s\<in>set xs. same_session s (f s)"
    "distinct (map as_jti new)" "set (map as_jti new) \<inter> set (map as_jti xs) = {}"
    using assms(1) by (auto simp: sessions_grow_def)
  obtain g new' where g: "zs = map g ys @ new'" "\<forall>s\<in>set ys. same_session s (g s)"
    "distinct (map as_jti new')" "set (map as_jti new') \<inter> set (map as_jti ys) = {}"
    using assms(2) by (auto simp: sessions_grow_def)
  have new: "map as_jti (map g new) = map as_jti new"
    using f(1) g(2) by (auto simp: same_session_def)
  show ?thesis
    unfolding sessions_grow_def
  proof (intro exI conjI)
    show "zs = map (g \<circ> f) xs @ (map g new @ new')" using f(1) g(1) by simp
    show "\<forall>s\<in>set xs. same_session s ((g \<circ> f) s)"
      using f(1,2) g(2) by (auto intro: same_session_trans)
    show "distinct (map as_jti (map g new @ new'))"
      using f(1,3) g(3,4) unfolding map_append distinct_append new by auto
    show "set (map as_jti (map g new @ new')) \<inter> set (map as_jti xs) = {}"
      unfolding map_append set_append new
      by (rule disjoint_grow [OF _ f(4) g(4)]) (use sessions_grow_jtis [OF assms(1)] in simp)
  qed
qed

lemma session_by_jti_None: "session_by_jti d jti = None \<longleftrightarrow> jti \<notin> as_jti ` set (sessions d)"
  by (auto simp: session_by_jti_def find_None_iff)

lemma session_by_jti_Some: "session_by_jti d jti = Some s \<Longrightarrow> s \<in> set (sessions d) \<and> as_jti s = jti"
  by (auto simp: session_by_jti_def find_Some_iff)

text \<open>A row found by its identifier is still found after any growth, as the same session.\<close>

lemma sessions_grow_find:
  assumes "sessions_grow (sessions d) (sessions d')" and "session_by_jti d jti = Some s"
  shows "\<exists>s'. session_by_jti d' jti = Some s' \<and> same_session s s'"
proof -
  obtain f new where f: "sessions d' = map f (sessions d) @ new" "\<forall>s\<in>set (sessions d). same_session s (f s)"
    using assms(1) by (auto simp: sessions_grow_def)
  have "find (\<lambda>s. as_jti s = jti) (map f xs @ new) = Some (f s)"
    if "\<forall>s\<in>set xs. same_session s (f s)" and "find (\<lambda>s. as_jti s = jti) xs = Some s" for xs
    using that by (induction xs) (auto simp: same_session_def split: if_splits)
  with f assms(2) show ?thesis
    by (auto simp: session_by_jti_def dest: session_by_jti_Some find_Some_iff [THEN iffD1])
qed

lemma revoke_same [simp, intro]: "same_session s (revoke e s)"
  by (auto simp: same_session_def revoke_def)

lemma revoke_revoked [simp]: "\<exists>t. as_revoked_at (revoke e s) = Some t"
  by (auto simp: revoke_def)

lemma create_session_grow:
  assumes "create_session e k ua ip d = Inr (jti, d')" and "sessions_grow xs (sessions d)"
  shows "sessions_grow xs (sessions d')" and "users d' = users d" and "jti = token e"
    and "jti \<notin> as_jti ` set (sessions d)" and "session_by_jti d jti = None"
  using assms
  by (auto simp: create_session_def Let_def session_by_jti_None sessions_grow_snoc split: if_splits)

text \<open>What one request of the router does to sessions and versions.\<close>

definition auth_frame :: "db \<Rightarrow> db \<Rightarrow> bool" where
  "auth_frame d d' \<longleftrightarrow> sessions_grow (sessions d) (sessions d') \<and> versions_grow d d'"

lemma versions_grow_same [intro]: "users d' = users d \<Longrightarrow> versions_grow d d'"
  by (auto simp: versions_grow_def get_user_def split: option.split)

lemma versions_grow_trans:
  assumes "versions_grow a b" and "versions_grow b c"
  shows "versions_grow a c"
  unfolding versions_grow_def
proof
  fix k
  show "case get_user a k of None \<Rightarrow> get_user c k = None
    | Some x \<Rightarrow> \<exists>z. get_user c k = Some z \<and> u_token_version x \<le> u_token_version z"
    using assms [unfolded versions_grow_def, THEN spec [of _ k]]
    by (fastforce split: option.splits)
qed

lemma auth_frame_same: "sessions d' = sessions d \<Longrightarrow> users d' = users d \<Longrightarrow> auth_frame d d'"
  by (auto simp: auth_frame_def)

lemma auth_frame_trans: "auth_frame a b \<Longrightarrow> auth_frame b c \<Longrightarrow> auth_frame a c"
  unfolding auth_frame_def using sessions_grow_trans versions_grow_trans by metis

lemma login_failed_frame:
  "sessions (login_failed e name k ip d) = sessions d \<and> users (login_failed e name k ip d) = users d"
proof -
  have "notices_only d (notify_hr_of_lockout e name t d)" for t d
    unfolding notify_hr_of_lockout_def by (rule notices_only_fold) (rule notify_once_only)
  note notice = notices_only_tables [OF this]
  show ?thesis
    by (auto simp: login_failed_def record_failure_def put_attempt_def Let_def notice frame_simps
        split: option.splits prod.splits)
qed

lemma issue_login_frame:
  assumes "auth_frame d d1"
  shows "auth_frame d (snd (issue_login_response e x ua ip d d1))"
proof (cases "create_session e (u_id x) ua ip d1")
  case (Inr r)
  then obtain jti d2 where c: "create_session e (u_id x) ua ip d1 = Inr (jti, d2)" by (cases r) auto
  have "sessions_grow (sessions d) (sessions d2)" "users d2 = users d1"
    using create_session_grow [OF c] assms by (auto simp: auth_frame_def)
  then have "auth_frame d d2"
    using assms versions_grow_trans [OF _ versions_grow_same] by (auto simp: auth_frame_def)
  then show ?thesis by (simp add: issue_login_response_def c)
qed (auto simp: issue_login_response_def auth_frame_same)

lemma get_user_revoke_all [frame_simps]: "get_user (revoke_all_for_user e k d) = get_user d"
  by (simp add: get_user_def revoke_all_for_user_def)

lemma revoke_all_frame [simp]: "auth_frame d (revoke_all_for_user e k d)"
  by (auto simp: revoke_all_for_user_def auth_frame_def intro!: sessions_grow_map)

lemma login_frame: "auth_frame d (snd (login e name pw ua ip d))"
  unfolding login_def
  by (auto simp: auth_frame_same login_failed_frame frame_simps clear_failures_def
      intro!: issue_login_frame split: option.split)

lemma rotate_frame:
  assumes "rotate_session e k jti ua ip d = Inr (r, d')"
  shows "auth_frame d d'"
proof (cases r)
  case (Rotated n)
  have "\<exists>v w d1. create_session e k v w d = Inr (n, d1) \<and> d' = mark_rotated e jti n d1"
    using assms Rotated
    by (fastforce simp: rotate_session_def bindE_Inr_iff Let_def split: option.splits if_splits)
  then obtain v w d1 where c: "create_session e k v w d = Inr (n, d1)"
    and d': "d' = mark_rotated e jti n d1" by blast
  have "sessions_grow (sessions d1) (sessions d')"
    unfolding d' mark_rotated_def by (auto simp: same_session_def intro!: sessions_grow_map)
  then show ?thesis
    using create_session_grow(1,2) [OF c sessions_grow_refl] d'
    by (auto simp: auth_frame_def mark_rotated_def intro: sessions_grow_trans)
qed (use assms in \<open>auto simp: rotate_session_def bindE_Inr_iff Let_def auth_frame_same
    split: option.splits if_splits\<close>)

lemma refresh_frame: "auth_frame d (snd (refresh e c ua ip d))"
  unfolding refresh_def
  by (auto simp: auth_frame_same dest: rotate_frame split: option.split sum.split rotation.split)

lemma change_password_frame: "auth_frame d (snd (change_password e u old new ua ip d))"
proof -
  have "auth_frame d (upd_user k (with_new_password e new) d)" for k
    unfolding auth_frame_def versions_grow_def
    by (auto simp: user_st.row_upd with_new_password_def split: option.split) (simp add: upd_user_def)
  then have upd: "auth_frame d (log_event e k t None None None
      (revoke_all_for_user e k' (upd_user k' (with_new_password e new) d)))" for k t k'
    by (rule auth_frame_trans [OF auth_frame_trans [OF _ revoke_all_frame] auth_frame_same])
      (simp_all add: frame_simps)
  show ?thesis
    unfolding change_password_def
    by (auto simp: auth_frame_same upd issue_login_frame split: option.split)
qed

lemma logout_frame: "auth_frame d (logout e c d)"
  by (auto simp: logout_def revoke_session_def auth_frame_same auth_frame_def intro!: sessions_grow_map
      split: option.split)

lemma close_frame: "revoke_my_session e u k d = Inr d' \<Longrightarrow> auth_frame d d'"
  by (auto simp: revoke_my_session_def auth_frame_def frame_simps tbl_upd_def intro!: sessions_grow_map
      split: option.splits if_splits)

lemma auth_step_frame: "auth_frame d (auth_step c d)"
  by (cases c; cases "snd c")
    (auto simp: login_frame refresh_frame logout_frame change_password_frame auth_frame_same
      dest: close_frame split: sum.split)

lemma auth_run_frame: "auth_frame d (fold auth_step cs d)"
  by (induction cs arbitrary: d) (auto simp: auth_frame_same intro: auth_frame_trans auth_step_frame)

text \<open>The identifiers of the sessions stay unique, so a token leads to one row.\<close>

definition jtis_unique :: "db \<Rightarrow> bool" where
  "jtis_unique d \<longleftrightarrow> distinct (map as_jti (sessions d))"

lemma session_by_jti_in:
  assumes "jtis_unique d" and "s \<in> set (sessions d)"
  shows "session_by_jti d (as_jti s) = Some s"
proof -
  have "find (\<lambda>x. as_jti x = as_jti s) xs = Some s" if "distinct (map as_jti xs)" "s \<in> set xs" for xs
    using that by (induction xs) force+
  with assms show ?thesis by (simp add: jtis_unique_def session_by_jti_def)
qed

lemma grow_jtis_unique:
  assumes "sessions_grow (sessions d) (sessions d')" and "jtis_unique d"
  shows "jtis_unique d'"
proof -
  obtain f new where f: "sessions d' = map f (sessions d) @ new" "\<forall>s\<in>set (sessions d). same_session s (f s)"
    "distinct (map as_jti new)" "set (map as_jti new) \<inter> set (map as_jti (sessions d)) = {}"
    using assms(1) by (auto simp: sessions_grow_def)
  have "map as_jti (map f (sessions d)) = map as_jti (sessions d)"
    using f(2) by (auto simp: same_session_def)
  with f assms(2) show ?thesis unfolding jtis_unique_def by (simp only: map_append distinct_append) blast
qed

interpretation auth_sys: invariant_system auth_step jtis_unique
  by unfold_locales (rule grow_jtis_unique [OF conjunct1 [OF auth_step_frame [unfolded auth_frame_def]]])

section \<open>Refused tokens stay refused\<close>

text \<open>A refresh is granted exactly to a live session, or to one that was rotated a moment ago.\<close>

definition refreshable :: "env \<Rightarrow> db \<Rightarrow> int \<Rightarrow> string \<Rightarrow> bool" where
  "refreshable e d k jti \<longleftrightarrow> (case session_by_jti d jti of
     None \<Rightarrow> False
   | Some s \<Rightarrow> as_user s = k \<and> as_revoked_at s = None \<and> now e < as_expires_at s \<and>
       (case as_rotated_at s of
          None \<Rightarrow> session_by_jti d (token e) = None
        | Some t \<Rightarrow> now e - t \<le> ROTATION_GRACE_SECONDS * 1000000))"

lemma refreshable_iff:
  "refreshable e d k jti \<longleftrightarrow> (\<exists>s. session_by_jti d jti = Some s \<and> as_user s = k \<and>
     as_revoked_at s = None \<and> now e < as_expires_at s \<and>
     (as_rotated_at s = None \<and> session_by_jti d (token e) = None \<or>
      (\<exists>t. as_rotated_at s = Some t \<and> now e \<le> t + 60000000)))"
proof (cases "session_by_jti d jti")
  case (Some s)
  then show ?thesis
    by (cases "as_rotated_at s") (auto simp: refreshable_def ROTATION_GRACE_SECONDS_def)
qed (simp add: refreshable_def)

lemma rotate_granted_iff:
  "(\<exists>r d'. rotate_session e k jti ua ip d = Inr (r, d') \<and> r \<noteq> Reused) \<longleftrightarrow> refreshable e d k jti"
  by (auto simp: rotate_session_def refreshable_def bindE_Inr_iff create_session_def Let_def
      split: option.splits)

lemma refresh_granted_iff:
  "(\<exists>a. fst (refresh e (Some c) ua ip d) = Inr a) \<longleftrightarrow> rc_jti c \<noteq> [] \<and>
     (\<exists>x. get_user d (rc_sub c) = Some x \<and> u_is_active x \<and> rc_tv c = Some (u_token_version x) \<and>
        refreshable e d (u_id x) (rc_jti c))"
  unfolding rotate_granted_iff [where ua = ua and ip = ip, symmetric]
  by (auto simp: refresh_def split: option.split sum.split rotation.split)

definition session_dead :: "db \<Rightarrow> string \<Rightarrow> bool" where
  "session_dead d jti \<longleftrightarrow> (\<exists>s. session_by_jti d jti = Some s \<and> as_revoked_at s \<noteq> None)"

lemma session_dead_grow:
  assumes "sessions_grow (sessions d) (sessions d')" and "session_dead d jti"
  shows "session_dead d' jti"
proof -
  obtain s where s: "session_by_jti d jti = Some s" "as_revoked_at s \<noteq> None"
    using assms(2) by (auto simp: session_dead_def)
  obtain s' where "session_by_jti d' jti = Some s'" "same_session s s'"
    using sessions_grow_find [OF assms(1) s(1)] by blast
  with s(2) show ?thesis by (auto simp: session_dead_def same_session_def)
qed

lemma session_dead_run: "session_dead d jti \<Longrightarrow> session_dead (fold auth_step cs d) jti"
  by (rule session_dead_grow [OF conjunct1 [OF auth_run_frame [unfolded auth_frame_def]]])

lemma session_dead_refused:
  "session_dead d (rc_jti c) \<Longrightarrow> fst (refresh e (Some c) ua ip d) = Inl session_error"
  by (auto simp: refresh_def session_dead_def rotate_session_def Let_def split: option.split)

lemma revoke_all_dead:
  assumes "session_by_jti d jti = Some s" and "as_user s = k"
  shows "session_dead (revoke_all_for_user e k d) jti"
proof -
  have "find (\<lambda>s. as_jti s = jti) (map (\<lambda>s. if as_user s = k then revoke e s else s) xs) = Some (revoke e s)"
    if "find (\<lambda>s. as_jti s = jti) xs = Some s" for xs
    using that assms(2) by (induction xs) (auto simp: revoke_def split: if_splits)
  with assms(1) show ?thesis by (auto simp: session_dead_def session_by_jti_def revoke_all_for_user_def)
qed

text \<open>What a replayed token does: every session of its user is revoked.\<close>

lemma refresh_reused:
  assumes "get_user d (rc_sub c) = Some x" and "u_is_active x" and "rc_tv c = Some (u_token_version x)"
    and "rc_jti c \<noteq> []" and "\<not> refreshable e d (u_id x) (rc_jti c)"
    and "session_by_jti d (rc_jti c) \<noteq> None" and "session_by_jti d (token e) = None"
  shows "refresh e (Some c) ua ip d = (Inl session_error, revoke_all_for_user e (u_id x) d)"
  using assms
  by (auto simp: refresh_def rotate_session_def refreshable_def Let_def split: option.splits)

lemma versions_run:
  assumes "get_user d k = Some x" and "versions_grow d d'"
  obtains y where "get_user d' k = Some y" and "u_token_version x \<le> u_token_version y"
  using assms(2) [unfolded versions_grow_def, THEN spec [of _ k]] assms(1) by auto

lemma change_password_Inr:
  assumes "change_password e u old new ua ip d = (Inr a, d')"
  obtains x where "get_user d (cu_id u) = Some x"
    and "auth_frame (log_event e (u_id x) ''password_changed_self'' None None None
           (revoke_all_for_user e (u_id x) (upd_user (u_id x) (with_new_password e new) d))) d'"
proof -
  have "\<exists>x. get_user d (cu_id u) = Some x \<and> (Inr a, d') = issue_login_response e (with_new_password e new x) ua ip d
      (log_event e (u_id x) ''password_changed_self'' None None None
        (revoke_all_for_user e (u_id x) (upd_user (u_id x) (with_new_password e new) d)))"
    using assms by (auto simp: change_password_def split: option.splits if_splits)
  then obtain x where x: "get_user d (cu_id u) = Some x" and r: "(Inr a, d') = issue_login_response e
      (with_new_password e new x) ua ip d (log_event e (u_id x) ''password_changed_self'' None None None
        (revoke_all_for_user e (u_id x) (upd_user (u_id x) (with_new_password e new) d)))" by blast
  from r obtain jti where c: "create_session e (u_id (with_new_password e new x)) ua ip
      (log_event e (u_id x) ''password_changed_self'' None None None
        (revoke_all_for_user e (u_id x) (upd_user (u_id x) (with_new_password e new) d))) = Inr (jti, d')"
    by (auto simp: issue_login_response_def split: sum.splits prod.splits)
  have "auth_frame (log_event e (u_id x) ''password_changed_self'' None None None
      (revoke_all_for_user e (u_id x) (upd_user (u_id x) (with_new_password e new) d))) d'"
    using create_session_grow(1,2) [OF c sessions_grow_refl] by (auto simp: auth_frame_def)
  with x show ?thesis by (rule that)
qed

section \<open>The number of guesses\<close>

text \<open>The logins under one name, one after the other, and how many passwords were compared and wrong.\<close>

fun login_run ::
  "string \<Rightarrow> (env \<times> string) list \<Rightarrow> db \<Rightarrow> auth_answer result list \<times> db" where
  "login_run name [] d = ([], d)"
| "login_run name ((e, pw) # ps) d =
     (let (a, d1) = login e name pw None None d; (as, d2) = login_run name ps d1 in (a # as, d2))"

definition wrong_guesses :: "auth_answer result list \<Rightarrow> nat" where
  "wrong_guesses as = length (filter (\<lambda>a. a = Inl invalid_credentials) as)"

lemma get_attempt_put [simp]: "get_attempt (put_attempt a d) (la_username a) = Some a"
proof -
  have "find (\<lambda>x. la_username x = la_username a) (filter (\<lambda>x. la_username x \<noteq> la_username a) xs @ [a]) = Some a"
    for xs by (induction xs) auto
  then show ?thesis by (simp add: get_attempt_def put_attempt_def)
qed

lemma attempt_row_name [simp]: "la_username (attempt_row e name d) = name"
  by (auto simp: attempt_row_def get_attempt_def Let_def find_Some_iff split: option.split)

lemma counted_name [simp]: "la_username (counted e a) = la_username a"
  by (simp add: counted_def Let_def)

lemma failed_attempt:
  "get_attempt (login_failed e name k ip d) name = Some (counted e (attempt_row e name d))"
proof -
  have "notices_only d (notify_hr_of_lockout e name t d)" for t d
    unfolding notify_hr_of_lockout_def by (rule notices_only_fold) (rule notify_once_only)
  note notice = notices_only_tables [OF this]
  have "login_attempts (login_failed e name k ip d)
      = login_attempts (put_attempt (counted e (attempt_row e name d)) d)"
    by (auto simp: login_failed_def record_failure_def Let_def notice frame_simps
        split: option.splits prod.splits)
  then have "get_attempt (login_failed e name k ip d) name
      = get_attempt (put_attempt (counted e (attempt_row e name d)) d) (la_username (counted e (attempt_row e name d)))"
    by (simp add: get_attempt_def)
  then show ?thesis by (simp only: get_attempt_put)
qed

lemma login_cases:
  obtains (locked) "fst (login e name pw ua ip d) = Inl (HTTPException 429 ''the account is locked for a while'')"
      "snd (login e name pw ua ip d) = d" "locked_until e d name \<noteq> None"
  | (wrong) k where "fst (login e name pw ua ip d) = Inl invalid_credentials"
      "snd (login e name pw ua ip d) = login_failed e name k ip d" "locked_until e d name = None"
  | (inactive) "fst (login e name pw ua ip d) = Inl (HTTPException 403 ''the account is inactive'')"
      "snd (login e name pw ua ip d) = d"
  | (granted) a where "fst (login e name pw ua ip d) = Inr a"
  | (clash) "fst (login e name pw ua ip d) = Inl (Uncaught (IntegrityError ''auth_sessions.jti''))"
      "snd (login e name pw ua ip d) = d"
proof (cases "locked_until e d name")
  case (Some t)
  show thesis by (rule locked) (use Some in \<open>simp_all add: login_def\<close>)
next
  case free: None
  show thesis
  proof (cases "user_by_name d name")
    case None
    show thesis by (rule wrong [of None]) (use free None in \<open>simp_all add: login_def\<close>)
  next
    case (Some x)
    let ?d = "log_event e (u_id x) ''login_succeeded'' None None (Some (JObj [(''ip'', opt_json ip)]))
      (clear_failures name d)"
    have good: "login e name pw ua ip d = issue_login_response e x ua ip d ?d"
      if "password_matches e pw (u_password_hash x)" "u_is_active x"
      using that free Some by (simp add: login_def)
    consider "\<not> password_matches e pw (u_password_hash x)"
      | "password_matches e pw (u_password_hash x)" "\<not> u_is_active x"
      | "login e name pw ua ip d = issue_login_response e x ua ip d ?d"
      using good by blast
    then show thesis
    proof cases
      case 1
      show thesis by (rule wrong [of "Some (u_id x)"]) (use free Some 1 in \<open>simp_all add: login_def\<close>)
    next
      case 2
      show thesis by (rule inactive) (use free Some 2 in \<open>simp_all add: login_def\<close>)
    next
      case 3
      show thesis
      proof (cases "create_session e (u_id x) ua ip ?d")
        case (Inl err)
        then have "err = Uncaught (IntegrityError ''auth_sessions.jti'')"
          by (auto simp: create_session_def Let_def split: if_splits)
        then show thesis by (intro clash) (use Inl 3 in \<open>simp_all add: issue_login_response_def\<close>)
      next
        case (Inr r)
        then have "\<exists>a. fst (login e name pw ua ip d) = Inr a"
          using 3 by (simp add: issue_login_response_def split: prod.split)
        then show thesis using granted by blast
      qed
    qed
  qed
qed

text \<open>
  All attempts lie in a span \<open>from t0\<close> that is no longer than the lock and than the counting window.
  What is left of the quota after the attempts so far.
\<close>

definition quota :: "moment \<Rightarrow> settings \<Rightarrow> string \<Rightarrow> db \<Rightarrow> int" where
  "quota t0 c name d = (case get_attempt d name of
     None \<Rightarrow> login_max_failed_attempts c
   | Some a \<Rightarrow>
      (case la_locked_until a of
         Some t \<Rightarrow> if t0 + minutes (login_lockout_minutes c) \<le> t then 0
                   else if t0 \<le> la_last_failed_at a then login_max_failed_attempts c - la_failed_count a
                   else login_max_failed_attempts c
       | None \<Rightarrow> if t0 \<le> la_last_failed_at a then login_max_failed_attempts c - la_failed_count a
                 else login_max_failed_attempts c))"

definition attempts_sane :: "settings \<Rightarrow> string \<Rightarrow> db \<Rightarrow> bool" where
  "attempts_sane c name d \<longleftrightarrow> (case get_attempt d name of None \<Rightarrow> True
     | Some a \<Rightarrow> 0 \<le> la_failed_count a \<and> la_failed_count a < login_max_failed_attempts c)"

definition in_span :: "moment \<Rightarrow> settings \<Rightarrow> env \<Rightarrow> bool" where
  "in_span t0 c e \<longleftrightarrow> cfg e = c \<and> t0 \<le> now e \<and> now e < t0 + minutes (login_lockout_minutes c)"

lemma failed_quota:
  assumes span: "in_span t0 c e" and win: "login_lockout_minutes c \<le> login_attempt_window_minutes c"
    and sane: "attempts_sane c name d" and pos: "0 < login_max_failed_attempts c"
    and free: "locked_until e d name = None"
  shows "attempts_sane c name (login_failed e name k ip d)"
    and "quota t0 c name (login_failed e name k ip d) < quota t0 c name d"
    and "0 \<le> quota t0 c name (login_failed e name k ip d)"
proof -
  let ?a = "attempt_row e name d"
  have win': "minutes (login_lockout_minutes c) \<le> minutes (login_attempt_window_minutes c)"
    using win by (simp add: minutes_def)
  have a: "0 \<le> la_failed_count ?a" "la_failed_count ?a < login_max_failed_attempts c"
    using sane pos by (auto simp: attempts_sane_def attempt_row_def Let_def split: option.splits)
  have q: "login_max_failed_attempts c - la_failed_count ?a \<le> quota t0 c name d"
    using free span win' sane
    by (auto simp: quota_def attempt_row_def Let_def locked_until_def in_span_def attempts_sane_def
        split: option.splits if_splits)
  have old: "la_locked_until ?a = Some t \<Longrightarrow> t \<le> now e" for t
    using free by (auto simp: attempt_row_def Let_def locked_until_def split: option.splits if_splits)
  show "attempts_sane c name (login_failed e name k ip d)"
    using a pos span by (simp add: attempts_sane_def failed_attempt counted_def Let_def in_span_def)
  have lockq: "la_failed_count ?a + 1 \<ge> login_max_failed_attempts c \<Longrightarrow>
      quota t0 c name (login_failed e name k ip d) = 0"
    using span by (simp add: quota_def failed_attempt counted_def Let_def in_span_def)
  have openq: "la_failed_count ?a + 1 < login_max_failed_attempts c \<Longrightarrow>
      quota t0 c name (login_failed e name k ip d) = login_max_failed_attempts c - (la_failed_count ?a + 1)"
    using span old by (auto simp: quota_def failed_attempt counted_def Let_def in_span_def split: option.split)
  show "quota t0 c name (login_failed e name k ip d) < quota t0 c name d"
    using lockq openq q a by (cases "la_failed_count ?a + 1 < login_max_failed_attempts c") auto
  show "0 \<le> quota t0 c name (login_failed e name k ip d)"
    using lockq openq a by (cases "la_failed_count ?a + 1 < login_max_failed_attempts c") auto
qed

lemma login_run_guesses:
  assumes "\<forall>(e, pw)\<in>set ps. in_span t0 c e"
    and "login_lockout_minutes c \<le> login_attempt_window_minutes c" and "0 < login_max_failed_attempts c"
    and "attempts_sane c name d" and "0 \<le> quota t0 c name d"
    and "\<forall>a\<in>set (fst (login_run name ps d)). \<forall>b. a \<noteq> Inr b"
  shows "int (wrong_guesses (fst (login_run name ps d))) \<le> quota t0 c name d"
  using assms(1,4-6)
proof (induction ps arbitrary: d)
  case Nil
  then show ?case by (simp add: wrong_guesses_def)
next
  case (Cons p ps)
  obtain e pw where p: "p = (e, pw)" by (cases p)
  let ?d1 = "snd (login e name pw None None d)"
  have run: "fst (login_run name (p # ps) d) = fst (login e name pw None None d) # fst (login_run name ps ?d1)"
    by (simp add: p split: prod.split)
  show ?case
  proof (cases rule: login_cases [of e name pw None None d])
    case (wrong k)
    have q: "attempts_sane c name ?d1" "quota t0 c name ?d1 < quota t0 c name d" "0 \<le> quota t0 c name ?d1"
      using failed_quota [of t0 c e name d k None] Cons.prems assms(2,3) wrong by (auto simp: p)
    have "int (wrong_guesses (fst (login_run name ps ?d1))) \<le> quota t0 c name ?d1"
      by (rule Cons.IH) (use Cons.prems q run in auto)
    with q(2) wrong(1) show ?thesis by (simp add: run wrong_guesses_def)
  next
    case (granted a)
    then show ?thesis using Cons.prems(4) run by auto
  qed (use Cons.IH [of d] Cons.prems run in \<open>auto simp: wrong_guesses_def invalid_credentials_def\<close>)
qed

end
