(* ===== verification/SignInProperties.thy ===== *)
theory SignInProperties
  imports Sessions Samples
begin

text \<open>
  The properties of signing in: when a refresh token is accepted, what a replayed one and a new
  password do to the tokens handed out before, and how many passwords can be tried.
\<close>

section \<open>Sample rows\<close>

definition demo_session :: "int \<Rightarrow> string \<Rightarrow> moment option \<Rightarrow> auth_session" where
  "demo_session k jti rotated = \<lparr>as_id = k, as_user = 3, as_jti = jti, as_expires_at = days 20005,
     as_rotated_at = rotated, as_replaced_by = None, as_revoked_at = None, as_user_agent = None,
     as_ip = None, as_last_used_at = None\<rparr>"

definition signed_db :: db where
  "signed_db = demo_db\<lparr>sessions := [demo_session 1 ''phone'' (Some (days 19999)), demo_session 2 ''desk'' None]\<rparr>"

definition demo_claims :: "string \<Rightarrow> refresh_claims" where
  "demo_claims jti = \<lparr>rc_sub = 3, rc_tv = Some 0, rc_jti = jti\<rparr>"

section \<open>Refresh tokens\<close>

text \<open>C38. A refresh token is accepted exactly when it names an active user at the current token
  version and a session of that user that is neither revoked nor expired, and that was either never
  exchanged before (and the new identifier is not taken) or exchanged at most a minute ago.\<close>

theorem refresh_is_granted_iff:
  "(\<exists>a. fst (refresh e (Some c) ua ip d) = Inr a) \<longleftrightarrow> rc_jti c \<noteq> [] \<and>
     (\<exists>x. get_user d (rc_sub c) = Some x \<and> u_is_active x \<and> rc_tv c = Some (u_token_version x) \<and>
        (\<exists>s. session_by_jti d (rc_jti c) = Some s \<and> as_user s = u_id x \<and> as_revoked_at s = None \<and>
           now e < as_expires_at s \<and>
           (as_rotated_at s = None \<and> session_by_jti d (token e) = None \<or>
            (\<exists>t. as_rotated_at s = Some t \<and> now e \<le> t + 60000000))))"
  by (simp only: refresh_granted_iff refreshable_iff)

text \<open>C39. A replayed token ends everything: when a token that was exchanged more than a minute ago is
  presented, it is refused, and every session that its user had at that moment is refused forever,
  whatever requests follow.\<close>

theorem replayed_token_ends_every_session:
  assumes "get_user d (rc_sub c) = Some x" and "u_is_active x" and "rc_tv c = Some (u_token_version x)"
    and "rc_jti c \<noteq> []" and "session_by_jti d (rc_jti c) = Some s"
    and "as_rotated_at s = Some t" and "t + 60000000 < now e"
    and "session_by_jti d (rc_jti c') = Some s'" and "as_user s' = u_id x"
  shows "fst (refresh e (Some c) ua ip d) = Inl session_error \<and>
    fst (refresh e' (Some c') ua' ip' (fold auth_step cs (auth_step (e, Refresh (Some c) ua ip) d)))
      = Inl session_error"
proof
  have r: "refresh e (Some c) ua ip d = (Inl session_error, revoke_all_for_user e (u_id x) d)"
    using assms(1-7)
    by (auto simp: refresh_def rotate_session_def Let_def ROTATION_GRACE_SECONDS_def)
  then show "fst (refresh e (Some c) ua ip d) = Inl session_error" by simp
  have "session_dead (revoke_all_for_user e (u_id x) d) (rc_jti c')" by (rule revoke_all_dead) (rule assms)+
  then show "fst (refresh e' (Some c') ua' ip' (fold auth_step cs (auth_step (e, Refresh (Some c) ua ip) d)))
      = Inl session_error"
    by (intro session_dead_refused session_dead_run) (simp add: r)
qed

text \<open>A new password ends every token handed out before: after a successful change no access token
  of an earlier version is accepted on any path and no session of the user that existed before can
  be refreshed, whatever requests follow.\<close>

theorem password_change_ends_earlier_tokens:
  assumes "change_password e u old new ua ip d = (Inr a, d')" and "get_user d (cu_id u) = Some x"
    and "tv \<le> u_token_version x" and "session_by_jti d (rc_jti c) = Some s" and "as_user s = cu_id u"
  shows "get_current_user path (Some (Some (cu_id u), Some tv)) (fold auth_step cs d')
           = Inl (HTTPException 401 ''invalid or expired token'') \<and>
         fst (refresh e' (Some c) ua' ip' (fold auth_step cs d')) = Inl session_error"
proof
  let ?d = "log_event e (u_id x) ''password_changed_self'' None None None
    (revoke_all_for_user e (u_id x) (upd_user (u_id x) (with_new_password e new) d))"
  have id: "u_id x = cu_id u" using assms(2) user_st.row_key by blast
  have "auth_frame ?d d'" using change_password_Inr [OF assms(1)] assms(2) by auto
  then have run: "auth_frame ?d (fold auth_step cs d')" by (rule auth_frame_trans [OF _ auth_run_frame])
  have "get_user ?d (cu_id u) = Some (with_new_password e new x)"
    using assms(2) id by (simp add: frame_simps user_st.row_upd with_new_password_def)
  then obtain y where y: "get_user (fold auth_step cs d') (cu_id u) = Some y"
      "u_token_version (with_new_password e new x) \<le> u_token_version y"
    using versions_run run by (metis auth_frame_def)
  then show "get_current_user path (Some (Some (cu_id u), Some tv)) (fold auth_step cs d')
      = Inl (HTTPException 401 ''invalid or expired token'')"
    using assms(3) by (auto simp: get_current_user_def with_new_password_def Let_def)
  have "session_dead ?d (rc_jti c)"
    using revoke_all_dead [of "upd_user (u_id x) (with_new_password e new) d" "rc_jti c" s "u_id x" e] assms(4,5) id
    by (simp add: session_dead_def session_by_jti_def frame_simps upd_user_def)
  then show "fst (refresh e' (Some c) ua' ip' (fold auth_step cs d')) = Inl session_error"
    by (intro session_dead_refused) (use run session_dead_grow in \<open>auto simp: auth_frame_def\<close>)
qed

section \<open>Guessing passwords\<close>

text \<open>Guessing is bounded: among the logins under one name within a span of the length of the
  lock, none of them granted, at most the configured number of passwords is compared and found
  wrong; every further one is refused unseen. (The lock must not be longer than the window in which
  failures are counted; both are 15 minutes by default.)\<close>

theorem guesses_are_bounded:
  assumes "\<forall>(e, pw)\<in>set ps. cfg e = c \<and> t0 \<le> now e \<and> now e < t0 + minutes (login_lockout_minutes c)"
    and "login_lockout_minutes c \<le> login_attempt_window_minutes c" and "0 < login_max_failed_attempts c"
    and "\<forall>a\<in>set (login_attempts d). 0 \<le> la_failed_count a \<and> la_failed_count a < login_max_failed_attempts c"
    and "\<forall>a\<in>set (fst (login_run name ps d)). \<forall>b. a \<noteq> Inr b"
  shows "int (wrong_guesses (fst (login_run name ps d))) \<le> login_max_failed_attempts c"
proof -
  have row: "0 \<le> la_failed_count a \<and> la_failed_count a < login_max_failed_attempts c"
    if "get_attempt d name = Some a" for a
    using that assms(4) by (auto simp: get_attempt_def find_Some_iff)
  have sane: "attempts_sane c name d"
    using row by (auto simp: attempts_sane_def split: option.split)
  have quota: "0 \<le> quota t0 c name d" "quota t0 c name d \<le> login_max_failed_attempts c"
    using row assms(3) by (fastforce simp: quota_def split: option.split)+
  have "int (wrong_guesses (fst (login_run name ps d))) \<le> quota t0 c name d"
    by (rule login_run_guesses [OF _ assms(2,3) sane quota(1) assms(5)]) (use assms(1) in \<open>auto simp: in_span_def\<close>)
  with quota(2) show ?thesis by linarith
qed

text \<open>The answers do not tell which names exist: a wrong password for an existing account and any
  password for a name without an account get the same answer and leave the same count of failures,
  so the lock behaves alike.\<close>

theorem answers_hide_accounts:
  assumes "\<forall>x. user_by_name d name = Some x \<longrightarrow> \<not> password_matches e pw (u_password_hash x)"
    and "user_by_name d' name = None" and "get_attempt d' name = get_attempt d name"
  shows "fst (login e name pw ua ip d) = fst (login e name pw ua ip d') \<and>
    get_attempt (snd (login e name pw ua ip d)) name = get_attempt (snd (login e name pw ua ip d')) name"
proof -
  have lock: "locked_until e d' name = locked_until e d name"
    using assms(3) by (simp add: locked_until_def)
  have row: "attempt_row e name d' = attempt_row e name d" using assms(3) by (simp add: attempt_row_def)
  show ?thesis
    using assms by (cases "user_by_name d name") (simp_all add: login_def lock failed_attempt row)
qed

text \<open>Closing one device closes all of them: after a user has closed one of the own sessions, the
  next refresh that the closed device attempts is taken for a theft, and every other session of the
  user is revoked with it.\<close>

theorem closing_one_session_ends_all:
  assumes "jtis_unique d" and "get_session d k = Some s" and "as_user s = cu_id u" and "as_revoked_at s = None"
    and "as_jti s \<noteq> []" and "get_user d (cu_id u) = Some x" and "u_is_active x"
    and "c = \<lparr>rc_sub = cu_id u, rc_tv = Some (u_token_version x), rc_jti = as_jti s\<rparr>"
  shows "\<exists>d1. revoke_my_session e u k d = Inr d1 \<and>
    (\<forall>s'\<in>set (sessions (snd (refresh e' (Some c) ua ip d1))). as_user s' = cu_id u \<longrightarrow> as_revoked_at s' \<noteq> None)"
proof -
  let ?d1 = "log_event e (cu_id u) ''session_revoked'' None None (Some (JObj [(''session_id'', JInt (as_id s))]))
    (d\<lparr>sessions := tbl_upd as_id k (revoke e) (sessions d)\<rparr>)"
  have close: "revoke_my_session e u k d = Inr ?d1" using assms(2-4) by (simp add: revoke_my_session_def)
  have s: "s \<in> set (sessions d)" "as_id s = k"
    using assms(2) tbl_get_Some_set by (fastforce simp: get_session_def)+
  have "session_dead ?d1 (as_jti s)"
  proof -
    have "revoke e s \<in> set (sessions ?d1)" using s by (force simp: frame_simps set_tbl_upd)
    moreover have "jtis_unique ?d1"
      using assms(1) by (simp add: jtis_unique_def frame_simps tbl_upd_map revoke_def)
    ultimately have "session_by_jti ?d1 (as_jti (revoke e s)) = Some (revoke e s)"
      by (rule session_by_jti_in [rotated])
    then show ?thesis using assms(4) by (simp add: session_dead_def revoke_def)
  qed
  then obtain s1 where s1: "session_by_jti ?d1 (as_jti s) = Some s1" "as_revoked_at s1 \<noteq> None"
    by (auto simp: session_dead_def)
  have x: "get_user ?d1 (cu_id u) = Some x" "u_id x = cu_id u"
    using assms(6) user_st.row_key by (auto simp: frame_simps get_user_def)
  have "snd (refresh e' (Some c) ua ip ?d1) = revoke_all_for_user e' (cu_id u) ?d1"
    unfolding refresh_def assms(8) using assms(5,7) x s1 by (simp add: rotate_session_def Let_def)
  then show ?thesis using close by (auto simp: revoke_all_for_user_def)
qed

section \<open>Concrete inputs\<close>

lemma signed_db_rows:
  "get_user signed_db 3 = Some (demo_user 3 deputy None)"
  "session_by_jti signed_db ''phone'' = Some (demo_session 1 ''phone'' (Some (days 19999)))"
  "session_by_jti signed_db ''desk'' = Some (demo_session 2 ''desk'' None)"
  "jtis_unique signed_db" "get_session signed_db 2 = Some (demo_session 2 ''desk'' None)"
  by (simp_all add: signed_db_def demo_db_def get_user_def tbl_get_def demo_user_def session_by_jti_def
      demo_session_def jtis_unique_def get_session_def)

theorem replayed_token_ends_every_session_witness:
  "fst (refresh demo_env (Some (demo_claims ''phone'')) None None signed_db) = Inl session_error \<and>
   fst (refresh demo_env (Some (demo_claims ''desk'')) None None
     (fold auth_step [(demo_env, Login ''user'' ''guess'' None None)]
       (auth_step (demo_env, Refresh (Some (demo_claims ''phone'')) None None) signed_db))) = Inl session_error"
  by (rule replayed_token_ends_every_session [where x = "demo_user 3 deputy None"
        and s = "demo_session 1 ''phone'' (Some (days 19999))" and t = "days 19999"
        and s' = "demo_session 2 ''desk'' None"])
    (simp_all add: demo_claims_def signed_db_rows,
      simp_all add: demo_user_def demo_session_def demo_env_def days_def)

lemma signed_change:
  "\<exists>a. change_password demo_env (as_current_user (demo_user 3 deputy None)) ''secret'' ''a new password'' None None
     signed_db = (Inr a, snd (change_password demo_env (as_current_user (demo_user 3 deputy None)) ''secret''
       ''a new password'' None None signed_db))"
proof -
  have "session_by_jti (log_event demo_env 3 t None None None
      (revoke_all_for_user demo_env 3 (upd_user 3 f signed_db))) ''token'' = None" for t f
    by (simp add: session_by_jti_None frame_simps revoke_all_for_user_def upd_user_def signed_db_def
        demo_session_def revoke_def)
  moreover have "\<not> occurs_in (map lower_char ''user'') (map lower_char ''a new password'')"
    by (simp add: lower_char_def Let_def)
  ultimately show ?thesis
    using signed_db_rows(1)
    by (simp add: change_password_def as_current_user_def demo_user_def demo_env_def with_new_password_def
        issue_login_response_def create_session_def Let_def)
qed

theorem password_change_ends_earlier_tokens_witness:
  "get_current_user ''/api/me'' (Some (Some 3, Some 0)) (fold auth_step [] (snd (change_password demo_env
     (as_current_user (demo_user 3 deputy None)) ''secret'' ''a new password'' None None signed_db)))
     = Inl (HTTPException 401 ''invalid or expired token'')"
proof -
  have u: "cu_id (as_current_user (demo_user 3 deputy None)) = 3" by (simp add: as_current_user_def demo_user_def)
  obtain a where "change_password demo_env (as_current_user (demo_user 3 deputy None)) ''secret'' ''a new password''
      None None signed_db = (Inr a, snd (change_password demo_env (as_current_user (demo_user 3 deputy None)) ''secret''
       ''a new password'' None None signed_db))" using signed_change by blast
  from password_change_ends_earlier_tokens [OF this, where tv = 0 and c = "demo_claims ''desk''" and path = "''/api/me''"
      and cs = "[]" and x = "demo_user 3 deputy None" and s = "demo_session 2 ''desk'' None", THEN conjunct1]
  show ?thesis unfolding u
    using signed_db_rows by (simp add: demo_claims_def) (simp add: demo_user_def demo_session_def)
qed

lemma unknown_never_granted:
  "user_by_name d name = None \<Longrightarrow> \<forall>a\<in>set (fst (login_run name ps d)). \<forall>b. a \<noteq> Inr b"
proof (induction ps arbitrary: d)
  case (Cons p ps)
  obtain e pw where p: "p = (e, pw)" by (cases p)
  have "user_by_name (snd (login e name pw None None d)) name = None"
    using Cons.prems login_failed_frame by (auto simp: login_def user_by_name_def split: option.split)
  with Cons.IH [OF this] Cons.prems show ?case by (auto simp: p login_def split: prod.split)
qed simp

theorem guesses_are_bounded_witness:
  "int (wrong_guesses (fst (login_run ''nobody'' (replicate 9 (demo_env, ''guess'')) demo_db))) \<le> 5"
  using guesses_are_bounded [of "replicate 9 (demo_env, ''guess'')" default_settings "days 20000" demo_db "''nobody''"]
    unknown_never_granted [of demo_db "''nobody''" "replicate 9 (demo_env, ''guess'')"]
  by (simp add: demo_env_def default_settings_def minutes_def demo_db_def empty_db_def user_by_name_def demo_user_def)

theorem answers_hide_accounts_witness:
  "fst (login demo_env ''user'' ''guess'' None None demo_db)
     = fst (login demo_env ''user'' ''guess'' None None (demo_db\<lparr>users := []\<rparr>))"
  by (rule answers_hide_accounts [THEN conjunct1])
    (simp_all add: user_by_name_def demo_db_def demo_user_def demo_env_def get_attempt_def)

theorem closing_one_session_ends_all_witness:
  "\<exists>d1. revoke_my_session demo_env (as_current_user (demo_user 3 deputy None)) 2 signed_db = Inr d1 \<and>
    (\<forall>s'\<in>set (sessions (snd (refresh demo_env (Some (demo_claims ''desk'')) None None d1))).
       as_user s' = cu_id (as_current_user (demo_user 3 deputy None)) \<longrightarrow> as_revoked_at s' \<noteq> None)"
  by (rule closing_one_session_ends_all [where s = "demo_session 2 ''desk'' None" and x = "demo_user 3 deputy None"])
    (use signed_db_rows in \<open>simp_all add: as_current_user_def demo_claims_def\<close>,
      simp_all add: demo_user_def demo_session_def as_current_user_def demo_claims_def)

end
