(* ===== verification/Accounts.thy ===== *)
theory Accounts
  imports Sessions PyText
begin

text \<open>
  Accounts and their administration: \<open>routers/users.py\<close> (creating, editing and deleting an account)
  and the part of \<open>routers/administration.py\<close> about capabilities and modules. The listings of
  accounts and their Excel export, and the integration settings, are left out. The lemmas show which
  requests an account survives, that names stay unique and that nobody comes to sit in a chain about
  themselves through an account.
\<close>

section \<open>Creating and editing accounts\<close>

record user_input =
  ui_username :: string
  ui_password :: string
  ui_role :: user_role
  ui_personnel :: "int option"
  ui_full_name :: "ustr option"

definition name_char :: "char \<Rightarrow> bool" where
  "name_char c = (let n = of_char c :: nat in
     48 \<le> n \<and> n \<le> 57 \<or> 65 \<le> n \<and> n \<le> 90 \<or> 97 \<le> n \<and> n \<le> 122 \<or> n = 95 \<or> n = 46 \<or> n = 45)"

definition username_ok :: "string \<Rightarrow> bool" where
  "username_ok s \<longleftrightarrow> 3 \<le> length s \<and> length s \<le> 64 \<and> list_all name_char s"

definition PASSWORD_MIN_LENGTH :: nat where
  "PASSWORD_MIN_LENGTH = 10"

definition name_length_ok :: "ustr option \<Rightarrow> bool" where
  "name_length_ok v = (case v of None \<Rightarrow> True | Some s \<Rightarrow> length s \<le> 200)"

definition user_input_ok :: "user_input \<Rightarrow> bool" where
  "user_input_ok p \<longleftrightarrow> username_ok (ui_username p) \<and> PASSWORD_MIN_LENGTH \<le> length (ui_password p) \<and>
     name_length_ok (ui_full_name p) \<and> (ui_role p = employee \<longrightarrow> ui_personnel p \<noteq> None)"

definition given_name :: "ustr option \<Rightarrow> ustr option" where
  "given_name v = (case v of None \<Rightarrow> None | Some s \<Rightarrow> if strip s = [] then None else Some (strip s))"

definition new_user :: "env \<Rightarrow> user_input \<Rightarrow> db \<Rightarrow> user" where
  "new_user e p d = \<lparr>u_id = tbl_next u_id (users d), u_personnel_id = ui_personnel p,
     u_username = ui_username p, u_full_name = given_name (ui_full_name p),
     u_password_hash = password_digest e (ui_password p), u_role = ui_role p, u_is_active = True,
     u_must_change_password = False, u_token_version = 0, u_email = None, u_phone = None,
     u_notify_by_email = False, u_notify_by_sms = False\<rparr>"

definition default_capabilities_if :: "bool \<Rightarrow> int \<Rightarrow> db \<Rightarrow> db" where
  "default_capabilities_if b k d = (if b then apply_default_hr_capabilities k d else d)"

definition create_user :: "env \<Rightarrow> current_user \<Rightarrow> user_input \<Rightarrow> db \<Rightarrow> (user \<times> db) result" where
  "create_user e u p d =
     bindE (require_capability [manage_users] u d) (\<lambda>_.
     bindE (require (user_input_ok p) (HTTPException 422 ''invalid account'')) (\<lambda>_.
       if user_by_name d (ui_username p) \<noteq> None then Inl (HTTPException 400 ''the name is taken'')
       else if (case ui_personnel p of None \<Rightarrow> False | Some k \<Rightarrow> get_personnel d k = None)
       then Inl (HTTPException 400 ''personnel not found'')
       else
         let x = new_user e p d;
             d1 = default_capabilities_if (u_role x = hr) (u_id x) (d\<lparr>users := users d @ [x]\<rparr>)
         in Inr (x, log_event e (cu_id u) ''user_created'' None None
              (Some (JObj [(''id'', JInt (u_id x)), (''username'', JStr (u_username x)),
                 (''role'', JStr (role_value (u_role x)))])) d1)))"

text \<open>
  A partial update. \<open>None\<close> is a field the payload does not set and \<open>Some None\<close> an explicit null, which
  the columns of the role and of the activity refuse at the flush.
\<close>

record user_patch =
  up_role :: "user_role option option"
  up_active :: "bool option option"
  up_personnel :: "int option option"
  up_full_name :: "ustr option option"
  up_password :: "string option"

definition user_patch_ok :: "user_patch \<Rightarrow> bool" where
  "user_patch_ok p \<longleftrightarrow>
     (case up_password p of None \<Rightarrow> True | Some s \<Rightarrow> PASSWORD_MIN_LENGTH \<le> length s) \<and>
     (case up_full_name p of None \<Rightarrow> True | Some v \<Rightarrow> name_length_ok v)"

definition patch_user :: "user_patch \<Rightarrow> user \<Rightarrow> user" where
  "patch_user p x = x\<lparr>u_role := patched (up_role p) (u_role x),
     u_is_active := patched (up_active p) (u_is_active x),
     u_personnel_id := (case up_personnel p of None \<Rightarrow> u_personnel_id x | Some v \<Rightarrow> v),
     u_full_name := (case up_full_name p of None \<Rightarrow> u_full_name x | Some v \<Rightarrow> v)\<rparr>"

definition reset_password :: "env \<Rightarrow> string option \<Rightarrow> user \<Rightarrow> user" where
  "reset_password e v x = (case v of None \<Rightarrow> x
   | Some s \<Rightarrow> x\<lparr>u_password_hash := password_digest e s, u_token_version := u_token_version x + 1,
                u_must_change_password := True\<rparr>)"

text \<open>An administrator neither deactivates the own account nor changes its role.\<close>

definition ensure_not_own_account :: "current_user \<Rightarrow> user_patch \<Rightarrow> user \<Rightarrow> unit result" where
  "ensure_not_own_account u p x =
     (if u_id x \<noteq> cu_id u then Inr ()
      else if up_active p = Some (Some False) then Inl (HTTPException 400 ''the own account stays active'')
      else if up_role p \<noteq> None \<and> up_role p \<noteq> Some (Some (u_role x))
      then Inl (HTTPException 400 ''the own role stays'')
      else Inr ())"

definition ensure_link_allowed :: "user_patch \<Rightarrow> int \<Rightarrow> db \<Rightarrow> unit result" where
  "ensure_link_allowed p k d = (case up_personnel p of
     Some (Some pid) \<Rightarrow>
       if get_personnel d pid = None then Inl (HTTPException 400 ''personnel not found'')
       else ensure_user_link_is_not_self_evaluation d k pid
   | _ \<Rightarrow> Inr ())"

definition user_json :: "user \<Rightarrow> json" where
  "user_json x = JObj [(''role'', JStr (role_value (u_role x))), (''is_active'', JBool (u_is_active x)),
     (''personnel_id'', json_opt_int (u_personnel_id x)), (''full_name'', json_opt JText (u_full_name x))]"

definition audited_changes :: "user_patch \<Rightarrow> (string \<times> json) list" where
  "audited_changes p =
     member_if_set ''role'' (\<lambda>r. JStr (role_value r)) (up_role p) @
     member_if_set ''is_active'' JBool (up_active p) @
     member_if_set ''personnel_id'' JInt (up_personnel p) @
     member_if_set ''full_name'' JText (up_full_name p) @
     (if up_password p = None then [] else [(''password_changed'', JBool True)])"

definition update_user :: "env \<Rightarrow> current_user \<Rightarrow> int \<Rightarrow> user_patch \<Rightarrow> db \<Rightarrow> db result" where
  "update_user e u k p d =
     bindE (require_capability [manage_users] u d) (\<lambda>_.
     bindE (require (user_patch_ok p) (HTTPException 422 ''invalid update'')) (\<lambda>_.
     case get_user d k of
       None \<Rightarrow> Inl (HTTPException 404 ''user not found'')
     | Some x \<Rightarrow>
        bindE (ensure_not_own_account u p x) (\<lambda>_.
        bindE (ensure_link_allowed p k d) (\<lambda>_.
          let y = patch_user p x in
          if up_role p = Some (Some employee) \<and> u_personnel_id y = None \<or>
             up_role p = None \<and> u_role x = employee \<and> u_personnel_id y = None
          then Inl (HTTPException 400 ''an employee needs a personnel file'')
          else if up_role p = Some None \<or> up_active p = Some None
          then Inl (Uncaught (IntegrityError ''not null''))
          else
            let d1 = default_capabilities_if (u_role x \<noteq> hr \<and> u_role y = hr) k
                       (upd_user k (\<lambda>x. reset_password e (up_password p) (patch_user p x)) d);
                d2 = (if up_password p = None then d1 else revoke_all_for_user e k d1)
            in Inr (log_event e (cu_id u) ''user_updated'' None (Some (user_json x))
                 (Some (JObj ([(''id'', JInt k), (''username'', JStr (u_username x))] @
                    audited_changes p))) d2)))))"

section \<open>Deleting accounts\<close>

text \<open>The columns that refer to an account and that the endpoint does not clear itself.\<close>

definition user_references :: "db \<Rightarrow> int option list" where
  "user_references d =
     concat (map (\<lambda>r. [er_supervisor r, er_deputy r, Some (er_ceo r), er_hr r, er_acknowledged_by r,
       er_self_invited_by r, er_extended_by r, er_objection_resolved_by r]) (records d)) @
     map (\<lambda>c. Some (ec_commenter c)) (comments d) @
     concat (map (\<lambda>a. [ea_supervisor a, ea_deputy a, Some (ea_ceo a), ea_updated_by a]) (accesses d)) @
     concat (map (\<lambda>a. [ca_submitted_by a, ca_invited_by a]) (assessments d)) @
     map ep_created_by (periods d) @
     concat (map (\<lambda>s. [ss_created_by s, ss_activated_by s]) (schemes d)) @
     map if_created_by (frameworks d) @ map ms_updated_by (modules d) @
     concat (map (\<lambda>p. [ip_owner p, ip_created_by p]) (plans d))"

text \<open>The rows that go with an account; the outbox rows of its notices go with the notices.\<close>

definition erase_user :: "int \<Rightarrow> db \<Rightarrow> db" where
  "erase_user k d =
     d\<lparr>users := filter (\<lambda>x. u_id x \<noteq> k) (users d),
       sessions := filter (\<lambda>s. as_user s \<noteq> k) (sessions d),
       notifications := filter (\<lambda>n. nt_user n \<noteq> k) (notifications d),
       deliveries := filter (\<lambda>v. \<forall>n\<in>set (notifications d). nt_user n = k \<longrightarrow> nd_notification v \<noteq> nt_id n)
         (deliveries d),
       capabilities := filter (\<lambda>c. uc_user c \<noteq> k \<and> uc_granted_by c \<noteq> Some k) (capabilities d)\<rparr>"

definition delete_user :: "env \<Rightarrow> current_user \<Rightarrow> int \<Rightarrow> db \<Rightarrow> db result" where
  "delete_user e u k d =
     bindE (require_capability [manage_users] u d) (\<lambda>_.
     case get_user d k of
       None \<Rightarrow> Inl (HTTPException 404 ''user not found'')
     | Some x \<Rightarrow>
        if k = cu_id u then Inl (HTTPException 400 ''the own account stays'')
        else if \<exists>a\<in>set (audits d). al_actor a = k
        then Inl (HTTPException 409 ''the account left traces in the log'')
        else if Some k \<in> set (user_references d)
        then Inl (HTTPException 409 ''the account is still used'')
        else Inr (log_event e (cu_id u) ''user_deleted'' None
               (Some (JObj [(''id'', JInt k), (''username'', JStr (u_username x)),
                  (''role'', JStr (role_value (u_role x)))])) None
               (erase_user k d)))"

section \<open>Capabilities and modules\<close>

fun capability_value :: "capability \<Rightarrow> string" where
  "capability_value manage_users = ''manage_users''"
| "capability_value manage_capabilities = ''manage_capabilities''"
| "capability_value manage_scoring = ''manage_scoring''"
| "capability_value manage_integrations = ''manage_integrations''"
| "capability_value view_audit_log = ''view_audit_log''"
| "capability_value manage_modules = ''manage_modules''"
| "capability_value view_diagnostics = ''view_diagnostics''"
| "capability_value manage_personnel = ''manage_personnel''"

definition all_capabilities :: "capability list" where
  "all_capabilities = [manage_capabilities, manage_integrations, manage_modules, manage_personnel,
     manage_scoring, manage_users, view_audit_log, view_diagnostics]"

text \<open>\<open>sorted\<close> over the values: \<open>all_capabilities\<close> lists them in this order.\<close>

definition sorted_capabilities :: "capability set \<Rightarrow> capability list" where
  "sorted_capabilities cs = filter (\<lambda>c. c \<in> cs) all_capabilities"

definition my_permissions :: "db \<Rightarrow> current_user \<Rightarrow> capability list \<times> (string \<times> bool) list" where
  "my_permissions d u = (sorted_capabilities (capabilities_of d (cu_id u)), module_states d)"

definition CHAIN_ROLES :: "user_role list" where
  "CHAIN_ROLES = [hr, unit_supervisor, deputy, ceo]"

definition RULE_CHANGING :: "capability list" where
  "RULE_CHANGING = [manage_scoring, manage_capabilities]"

definition overlapping_users :: "db \<Rightarrow> user list" where
  "overlapping_users d = filter (\<lambda>x. u_is_active x \<and> u_role x \<in> set CHAIN_ROLES \<and>
     (\<exists>c\<in>set RULE_CHANGING. c \<in> capabilities_of d (u_id x))) (users d)"

definition dedicated_admins :: "db \<Rightarrow> user list" where
  "dedicated_admins d = filter (\<lambda>x. u_is_active x \<and> u_role x = support \<and>
     capabilities_of d (u_id x) \<noteq> {}) (users d)"

text \<open>The answer: is the separation in place, who breaks it and by what, how many pure administrators.\<close>

definition separation_status ::
  "db \<Rightarrow> current_user \<Rightarrow> (bool \<times> (int \<times> capability list) list \<times> nat) result" where
  "separation_status d u =
     bindE (require_capability [manage_capabilities] u d) (\<lambda>_.
       Inr (overlapping_users d = [],
            map (\<lambda>x. (u_id x, sorted_capabilities (capabilities_of d (u_id x) \<inter> set RULE_CHANGING)))
              (overlapping_users d),
            length (dedicated_admins d)))"

text \<open>The holders that the page lists, without its ordering by role and name.\<close>

definition list_capability_holders :: "db \<Rightarrow> current_user \<Rightarrow> (int \<times> capability list) list result" where
  "list_capability_holders d u =
     bindE (require_capability [manage_capabilities] u d) (\<lambda>_.
       Inr (map (\<lambda>x. (u_id x, sorted_capabilities (capabilities_of d (u_id x))))
              (filter (\<lambda>x. u_role x \<noteq> employee) (users d))))"

text \<open>An active account other than \<open>k\<close> that may grant capabilities.\<close>

definition other_grantor :: "db \<Rightarrow> int \<Rightarrow> bool" where
  "other_grantor d k \<longleftrightarrow> (\<exists>x\<in>set (users d). u_id x \<noteq> k \<and> u_is_active x \<and>
     manage_capabilities \<in> capabilities_of d (u_id x))"

definition revoke_capabilities :: "int \<Rightarrow> capability set \<Rightarrow> db \<Rightarrow> db" where
  "revoke_capabilities k cs d = d\<lparr>capabilities :=
     filter (\<lambda>c. uc_user c \<noteq> k \<or> uc_capability c \<in> cs) (capabilities d)\<rparr>"

definition capabilities_json :: "user \<Rightarrow> capability set \<Rightarrow> json" where
  "capabilities_json x cs = JObj [(''user'', JStr (u_username x)),
     (''capabilities'', JList (map (\<lambda>c. JStr (capability_value c)) (sorted_capabilities cs)))]"

definition set_capabilities ::
  "env \<Rightarrow> current_user \<Rightarrow> int \<Rightarrow> capability list \<Rightarrow> db \<Rightarrow> db result" where
  "set_capabilities e u k desired d =
     bindE (require_capability [manage_capabilities] u d) (\<lambda>_.
     case get_user d k of
       None \<Rightarrow> Inl (HTTPException 404 ''user not found'')
     | Some x \<Rightarrow>
        if u_role x = employee then Inl (HTTPException 400 ''an employee gets no capability'')
        else
          let held = capabilities_of d k in
          if manage_capabilities \<in> held \<and> manage_capabilities \<notin> set desired \<and> \<not> other_grantor d k
          then Inl (HTTPException 400 ''the last account that may grant capabilities'')
          else
            let d1 = revoke_capabilities k (set desired) d;
                d2 = fold (grant k (Some (cu_id u)))
                       (filter (\<lambda>c. c \<notin> held) (sorted_capabilities (set desired))) d1
            in Inr (log_event e (cu_id u) ''capabilities_changed'' None
                 (Some (capabilities_json x held)) (Some (capabilities_json x (set desired))) d2))"

definition toggle_module :: "env \<Rightarrow> current_user \<Rightarrow> string \<Rightarrow> bool \<Rightarrow> db \<Rightarrow> db result" where
  "toggle_module e u key enabled d =
     bindE (require_capability [manage_modules] u d) (\<lambda>_.
     case module_by_key key of
       None \<Rightarrow> Inl (HTTPException 404 ''no such module'')
     | Some m \<Rightarrow>
        if md_locked m \<and> enabled then Inl (HTTPException 403 ''the module is locked'')
        else
          let was = (case get_module d key of None \<Rightarrow> md_default m | Some row \<Rightarrow> ms_enabled row);
              row = \<lparr>ms_key = key, ms_enabled = enabled, ms_updated_by = Some (cu_id u)\<rparr>;
              rows = (if get_module d key = None then modules d @ [row]
                      else map (\<lambda>r. if ms_key r = key then row else r) (modules d))
          in Inr (log_event e (cu_id u) ''module_toggled'' None
               (Some (JObj [(''module'', JStr key), (''enabled'', JBool was)]))
               (Some (JObj [(''module'', JStr key), (''enabled'', JBool enabled)]))
               (d\<lparr>modules := rows\<rparr>)))"

definition list_modules :: "db \<Rightarrow> current_user \<Rightarrow> (string \<times> bool \<times> bool) list result" where
  "list_modules d u =
     bindE (require_capability [manage_modules] u d) (\<lambda>_.
       Inr (map (\<lambda>m. (md_key m, is_module_enabled d (md_key m), md_locked m)) MODULES))"

section \<open>What a request does\<close>

lemma patch_user_id [simp]: "u_id (patch_user p x) = u_id x" "u_username (patch_user p x) = u_username x"
  by (simp_all add: patch_user_def)

lemma reset_password_sel [simp]:
  "u_id (reset_password e v x) = u_id x" "u_username (reset_password e v x) = u_username x"
  "u_role (reset_password e v x) = u_role x" "u_is_active (reset_password e v x) = u_is_active x"
  "u_personnel_id (reset_password e v x) = u_personnel_id x"
  by (cases v; simp add: reset_password_def)+

lemma default_capabilities_if_frame [simp]:
  "users (default_capabilities_if b k d) = users d" "accesses (default_capabilities_if b k d) = accesses d"
  "records (default_capabilities_if b k d) = records d" "personnels (default_capabilities_if b k d) = personnels d"
  "audits (default_capabilities_if b k d) = audits d"
  by (simp_all add: default_capabilities_if_def apply_default_hr_capabilities_def grant_def DEFAULT_HR_CAPABILITIES_def)

lemma create_user_Inr:
  "create_user e u p d = Inr (x, d') \<longleftrightarrow>
     manage_users \<in> capabilities_of d (cu_id u) \<and> user_input_ok p \<and> user_by_name d (ui_username p) = None \<and>
     (\<forall>k. ui_personnel p = Some k \<longrightarrow> get_personnel d k \<noteq> None) \<and> x = new_user e p d \<and>
     d' = log_event e (cu_id u) ''user_created'' None None
       (Some (JObj [(''id'', JInt (u_id x)), (''username'', JStr (u_username x)),
          (''role'', JStr (role_value (u_role x)))]))
       (default_capabilities_if (u_role x = hr) (u_id x) (d\<lparr>users := users d @ [x]\<rparr>))"
  by (auto simp: create_user_def bindE_Inr_iff guard_simps Let_def split: if_splits option.splits)

definition updated_db :: "env \<Rightarrow> user_patch \<Rightarrow> int \<Rightarrow> user \<Rightarrow> db \<Rightarrow> db" where
  "updated_db e p k x d =
     (let d1 = default_capabilities_if (u_role x \<noteq> hr \<and> u_role (patch_user p x) = hr) k
                 (upd_user k (\<lambda>x. reset_password e (up_password p) (patch_user p x)) d)
      in if up_password p = None then d1 else revoke_all_for_user e k d1)"

lemma update_user_Inr:
  assumes "update_user e u k p d = Inr d'"
  obtains x o' n where "manage_users \<in> capabilities_of d (cu_id u)" "user_patch_ok p" "get_user d k = Some x"
    "ensure_not_own_account u p x = Inr ()" "ensure_link_allowed p k d = Inr ()"
    "u_role (patch_user p x) = employee \<longrightarrow> u_personnel_id (patch_user p x) \<noteq> None"
    "up_role p \<noteq> Some None" "up_active p \<noteq> Some None"
    "d' = log_event e (cu_id u) ''user_updated'' None o' n (updated_db e p k x d)"
proof -
  obtain x where x: "manage_users \<in> capabilities_of d (cu_id u)" "user_patch_ok p" "get_user d k = Some x"
      "ensure_not_own_account u p x = Inr ()" "ensure_link_allowed p k d = Inr ()"
    and "\<not> (up_role p = Some (Some employee) \<and> u_personnel_id (patch_user p x) = None)"
      "\<not> (up_role p = None \<and> u_role x = employee \<and> u_personnel_id (patch_user p x) = None)"
      "up_role p \<noteq> Some None" "up_active p \<noteq> Some None"
    and d': "d' = log_event e (cu_id u) ''user_updated'' None (Some (user_json x))
       (Some (JObj ([(''id'', JInt k), (''username'', JStr (u_username x))] @ audited_changes p)))
       (updated_db e p k x d)"
    using assms unfolding update_user_def updated_db_def
    by (auto simp: bindE_Inr_iff guard_simps Let_def split: if_splits option.splits)
  moreover have "u_role (patch_user p x) = employee \<longrightarrow> u_personnel_id (patch_user p x) \<noteq> None"
    using calculation(6-8)
    by (auto simp: patch_user_def patched_def split: option.splits)
  ultimately show ?thesis using that by blast
qed

lemma updated_db_frame [simp]:
  "users (updated_db e p k x d) = tbl_upd u_id k (\<lambda>x. reset_password e (up_password p) (patch_user p x)) (users d)"
  "accesses (updated_db e p k x d) = accesses d" "records (updated_db e p k x d) = records d"
  "personnels (updated_db e p k x d) = personnels d"
  by (simp_all add: updated_db_def Let_def revoke_all_for_user_def upd_user_def)

lemma updated_capabilities:
  "capabilities_of (updated_db e p k x d) j =
     (if j = k \<and> u_role x \<noteq> hr \<and> u_role (patch_user p x) = hr then set DEFAULT_HR_CAPABILITIES
      else capabilities_of d j)"
proof -
  have "capabilities_of (revoke_all_for_user e k d) j = capabilities_of d j"
    "capabilities_of (upd_user k f d) j = capabilities_of d j" for d f j
    by (simp_all add: capabilities_of_def revoke_all_for_user_def upd_user_def)
  then show ?thesis
    by (simp add: updated_db_def Let_def default_capabilities_if_def apply_default_hr_exact)
qed

lemma capabilities_log [frame_simps]: "capabilities_of (log_event e a t r x y d) k = capabilities_of d k"
  by (simp add: capabilities_of_def frame_simps)

lemma set_capabilities_Inr:
  assumes "set_capabilities e u k cs d = Inr d'"
  obtains x o' n where "manage_capabilities \<in> capabilities_of d (cu_id u)" "get_user d k = Some x"
    "u_role x \<noteq> employee"
    "manage_capabilities \<in> capabilities_of d k \<and> manage_capabilities \<notin> set cs \<longrightarrow> other_grantor d k"
    "d' = log_event e (cu_id u) ''capabilities_changed'' None o' n
       (fold (grant k (Some (cu_id u)))
          (filter (\<lambda>c. c \<notin> capabilities_of d k) (sorted_capabilities (set cs)))
          (revoke_capabilities k (set cs) d))"
  using assms unfolding set_capabilities_def
  by (auto simp: bindE_Inr_iff guard_simps Let_def split: if_splits option.splits)

lemma fold_grant_capabilities:
  "capabilities_of (fold (grant k by) cs d) j = (if j = k then set cs \<union> capabilities_of d j else capabilities_of d j)"
  by (induction cs arbitrary: d) (auto simp: grant_capabilities)

lemma fold_grant_frame [simp]:
  "users (fold (grant k by) cs d) = users d" "accesses (fold (grant k by) cs d) = accesses d"
  "records (fold (grant k by) cs d) = records d" "audits (fold (grant k by) cs d) = audits d"
  by (induction cs arbitrary: d) (simp_all add: grant_def)

lemma all_capabilities_complete: "c \<in> set all_capabilities"
  by (cases c) (simp_all add: all_capabilities_def)

lemma set_sorted_capabilities [simp]: "set (sorted_capabilities cs) = cs"
  by (auto simp: sorted_capabilities_def all_capabilities_complete)

lemma revoke_capabilities_of:
  "capabilities_of (revoke_capabilities k cs d) j =
     (if j = k then capabilities_of d j \<inter> cs else capabilities_of d j)"
  by (auto simp: revoke_capabilities_def capabilities_of_def)

text \<open>The endpoint replaces the set: afterwards the account holds exactly what was asked for.\<close>

lemma set_capabilities_exact:
  assumes "set_capabilities e u k cs d = Inr d'"
  shows "capabilities_of d' j = (if j = k then set cs else capabilities_of d j)"
    and "users d' = users d"
  by (rule set_capabilities_Inr [OF assms];
      auto simp: frame_simps fold_grant_capabilities revoke_capabilities_of)
    (rule set_capabilities_Inr [OF assms]; simp add: frame_simps revoke_capabilities_def)

section \<open>The requests, and what they keep\<close>

datatype account_request =
    CreateUser current_user user_input
  | UpdateUser current_user int user_patch
  | DeleteUser current_user int
  | SetCapabilities current_user int "capability list"
  | ToggleModule current_user string bool
  | WriteChain current_user int access_input

fun account_request_result :: "env \<Rightarrow> account_request \<Rightarrow> db \<Rightarrow> db result" where
  "account_request_result e (CreateUser u p) d = bindE (create_user e u p d) (\<lambda>(x, d'). Inr d')"
| "account_request_result e (UpdateUser u k p) d = update_user e u k p d"
| "account_request_result e (DeleteUser u k) d = delete_user e u k d"
| "account_request_result e (SetCapabilities u k cs) d = set_capabilities e u k cs d"
| "account_request_result e (ToggleModule u key b) d = toggle_module e u key b d"
| "account_request_result e (WriteChain u pid p) d = upsert_access e u pid p d"

definition account_step :: "env \<Rightarrow> account_request \<Rightarrow> db \<Rightarrow> db" where
  "account_step e r d = (case account_request_result e r d of Inl _ \<Rightarrow> d | Inr d' \<Rightarrow> d')"

text \<open>
  Names and identifiers are unique, an employee has a personnel file, a capability is granted once.
\<close>

definition caps_ok :: "db \<Rightarrow> bool" where
  "caps_ok d \<longleftrightarrow> distinct (map (\<lambda>c. (uc_user c, uc_capability c)) (capabilities d))"

definition users_ok :: "db \<Rightarrow> bool" where
  "users_ok d \<longleftrightarrow> tbl_ok u_id (users d) \<and> distinct (map u_username (users d)) \<and>
     (\<forall>x\<in>set (users d). u_role x = employee \<longrightarrow> u_personnel_id x \<noteq> None)"

text \<open>The foreign keys of the seats.\<close>

definition seats_known :: "db \<Rightarrow> bool" where
  "seats_known d \<longleftrightarrow>
     (\<forall>a\<in>set (accesses d). \<forall>k. Some k \<in> set (access_seats a) \<longrightarrow> k \<in> u_id ` set (users d)) \<and>
     (\<forall>r\<in>set (records d). \<forall>k. Some k \<in> set (record_seats r) \<longrightarrow> k \<in> u_id ` set (users d))"

text \<open>Whoever granted a capability is named in the audit log, so such an account is never deleted.\<close>

definition grants_logged :: "db \<Rightarrow> bool" where
  "grants_logged d \<longleftrightarrow> (\<forall>c\<in>set (capabilities d). \<forall>g. uc_granted_by c = Some g \<longrightarrow> g \<in> al_actor ` set (audits d))"

definition accounts_ok :: "db \<Rightarrow> bool" where
  "accounts_ok d \<longleftrightarrow> users_ok d \<and> caps_ok d \<and> grants_logged d \<and> seats_known d \<and> segregated d \<and> accesses_ok d"

lemma log_event_actor:
  "al_actor ` set (audits (log_event e a t r x y d)) = insert a (al_actor ` set (audits d))"
  by (subst log_event_last(1)) (simp add: log_event_last(3))

lemma grants_logged_log: "grants_logged d \<Longrightarrow> grants_logged (log_event e a t r x y d)"
  by (auto simp: grants_logged_def frame_simps log_event_actor)

lemma grants_logged_mono:
  "grants_logged d \<Longrightarrow> set (capabilities d') \<subseteq> set (capabilities d) \<Longrightarrow> audits d' = audits d \<Longrightarrow> grants_logged d'"
  by (auto simp: grants_logged_def)

lemma fold_grant_rows:
  "c \<in> set (capabilities (fold (grant k by) cs d)) \<Longrightarrow> c \<in> set (capabilities d) \<or> uc_granted_by c = by"
  by (induction cs arbitrary: d) (fastforce simp: grant_def)+

lemma grants_logged_default: "grants_logged d \<Longrightarrow> grants_logged (default_capabilities_if b k d)"
  unfolding grants_logged_def default_capabilities_if_frame
  by (auto simp: default_capabilities_if_def apply_default_hr_capabilities_def dest!: fold_grant_rows)

lemma grant_caps_ok: "c \<notin> capabilities_of d k \<Longrightarrow> caps_ok d \<Longrightarrow> caps_ok (grant k by c d)"
  by (auto simp: caps_ok_def grant_def capabilities_of_def)

lemma fold_grant_caps_ok:
  "distinct cs \<Longrightarrow> set cs \<inter> capabilities_of d k = {} \<Longrightarrow> caps_ok d \<Longrightarrow> caps_ok (fold (grant k by) cs d)"
  by (induction cs arbitrary: d) (auto simp: grant_caps_ok grant_capabilities)

lemma caps_ok_filter: "caps_ok d \<Longrightarrow> caps_ok (d\<lparr>capabilities := filter P (capabilities d)\<rparr>)"
  by (simp add: caps_ok_def distinct_map_filter)

lemma caps_ok_default: "caps_ok d \<Longrightarrow> caps_ok (default_capabilities_if b k d)"
proof -
  assume ok: "caps_ok d"
  have "caps_ok (fold (grant k None) DEFAULT_HR_CAPABILITIES
      (d\<lparr>capabilities := filter (\<lambda>c. uc_user c \<noteq> k) (capabilities d)\<rparr>))"
    by (rule fold_grant_caps_ok) (simp_all add: DEFAULT_HR_CAPABILITIES_def capabilities_of_def caps_ok_filter ok)
  with ok show ?thesis by (simp add: default_capabilities_if_def apply_default_hr_capabilities_def)
qed

lemma caps_ok_cong: "capabilities d' = capabilities d \<Longrightarrow> caps_ok d' = caps_ok d"
  by (simp add: caps_ok_def)

lemma accounts_ok_cong:
  assumes "users d' = users d" "capabilities d' = capabilities d" "accesses d' = accesses d"
    "records d' = records d" "grants_logged d' = grants_logged d"
  shows "accounts_ok d' = accounts_ok d"
  using assms
  by (simp add: accounts_ok_def users_ok_def caps_ok_def seats_known_def segregated_def accesses_ok_def
      own_evaluator_def)

lemma accounts_ok_log [intro]: "accounts_ok d \<Longrightarrow> accounts_ok (log_event e a t r x y d)"
  using grants_logged_log [of d]
  by (simp add: accounts_ok_def users_ok_def caps_ok_def seats_known_def segregated_def accesses_ok_def
      own_evaluator_def frame_simps)

lemma create_user_ok:
  assumes ok: "accounts_ok d" and run: "create_user e u p d = Inr (x, d')"
  shows "accounts_ok d'"
proof -
  let ?d = "default_capabilities_if (u_role x = hr) (u_id x) (d\<lparr>users := users d @ [x]\<rparr>)"
  have p: "user_input_ok p" "user_by_name d (ui_username p) = None" "x = new_user e p d"
    using run by (auto simp: create_user_Inr)
  have new: "u_id x = tbl_next u_id (users d)" "u_username x = ui_username p"
    "u_role x = employee \<longrightarrow> u_personnel_id x \<noteq> None"
    using p by (auto simp: new_user_def user_input_ok_def)
  have fresh: "u_id x \<notin> u_id ` set (users d)"
    using tbl_next_gt [of _ "users d" u_id] by (auto simp: new(1)) (metis less_irrefl)
  have name: "u_username x \<notin> u_username ` set (users d)"
    using p(2) new(2) by (auto simp: user_by_name_def find_None_iff)
  have "users_ok ?d"
    using ok new fresh name by (auto simp: accounts_ok_def users_ok_def tbl_ok_def)
  moreover have "caps_ok ?d"
    by (rule caps_ok_default) (use ok in \<open>simp add: accounts_ok_def caps_ok_def\<close>)
  moreover have "seats_known ?d" using ok by (auto simp: accounts_ok_def seats_known_def)
  moreover have "segregated ?d"
    using ok fresh by (auto simp: accounts_ok_def segregated_def own_evaluator_def seats_known_def)
  moreover have "accesses_ok ?d" using ok by (simp add: accounts_ok_def accesses_ok_def)
  moreover have "grants_logged ?d"
    by (rule grants_logged_default) (use ok in \<open>simp add: accounts_ok_def grants_logged_def\<close>)
  ultimately have "accounts_ok ?d" by (simp add: accounts_ok_def)
  then show ?thesis using run by (auto simp: create_user_Inr)
qed

lemma segregated_personnel_none:
  assumes "segregated d" and "users d' = tbl_upd u_id k f (users d)" and "accesses d' = accesses d"
    and "records d' = records d" and "\<And>x. u_id (f x) = u_id x"
    and "\<And>x pid. u_personnel_id (f x) = Some pid \<Longrightarrow> u_personnel_id x = Some pid"
  shows "segregated d'"
proof -
  have "own_evaluator d q seats" if own: "own_evaluator d' q seats" for q seats
  proof -
    obtain y where y: "y \<in> set (users d')" "Some (u_id y) \<in> set seats" "u_personnel_id y = Some q"
      using own unfolding own_evaluator_def by blast
    obtain x where x: "x \<in> set (users d)" "y = (if u_id x = k then f x else x)"
      using y(1) unfolding assms(2) set_tbl_upd by auto
    have "Some (u_id x) \<in> set seats \<and> u_personnel_id x = Some q"
    proof (cases "u_id x = k")
      case True
      then show ?thesis using x(2) y(2,3) assms(5) assms(6) [of x q] by simp
    qed (use x(2) y(2,3) in simp)
    with x(1) show ?thesis unfolding own_evaluator_def by blast
  qed
  with assms(1,3,4) show ?thesis unfolding segregated_def by metis
qed

lemma tbl_upd_key_set: "(\<And>r. key (f r) = key r) \<Longrightarrow> key ` set (tbl_upd key k f t) = key ` set t"
  using tbl_upd_keys [of key f k t] by (metis set_map)

lemma update_user_ok:
  assumes ok: "accounts_ok d" and run: "update_user e u k p d = Inr d'"
  shows "accounts_ok d'"
proof -
  let ?f = "\<lambda>x. reset_password e (up_password p) (patch_user p x)"
  obtain x o' n where x: "get_user d k = Some x" "ensure_link_allowed p k d = Inr ()"
      "u_role (patch_user p x) = employee \<longrightarrow> u_personnel_id (patch_user p x) \<noteq> None"
    and d': "d' = log_event e (cu_id u) ''user_updated'' None o' n (updated_db e p k x d)"
    using update_user_Inr [OF run] by metis
  let ?d = "updated_db e p k x d"
  have only: "y = x" if "y \<in> set (users d)" "u_id y = k" for y
    using that x(1) ok tbl_get_in by (fastforce simp: accounts_ok_def users_ok_def get_user_def)
  have "users_ok ?d"
    using ok x(3) only unfolding accounts_ok_def users_ok_def
    by (auto simp: tbl_ok_upd tbl_upd_map set_tbl_upd)
  moreover have "caps_ok ?d"
  proof -
    have "caps_ok (upd_user k f d)" for f using ok by (simp add: accounts_ok_def caps_ok_def upd_user_def)
    then have "caps_ok (default_capabilities_if b k (upd_user k f d))" for b f by (rule caps_ok_default)
    then show ?thesis by (auto simp: updated_db_def Let_def caps_ok_def revoke_all_for_user_def)
  qed
  moreover have "seats_known ?d"
    using ok unfolding accounts_ok_def seats_known_def by (simp add: tbl_upd_key_set)
  moreover have "segregated ?d"
  proof (cases "\<exists>pid. up_personnel p = Some (Some pid)")
    case True
    then obtain pid where pid: "up_personnel p = Some (Some pid)" by blast
    have "segregated (upd_user k ?f d)"
      by (rule link_segregated [where pid = pid])
        (use ok x(2) pid in \<open>auto simp: accounts_ok_def users_ok_def ensure_link_allowed_def patch_user_def
          split: if_splits\<close>)
    then show ?thesis by (simp add: segregated_def own_evaluator_def upd_user_def)
  next
    case False
    show ?thesis
      by (rule segregated_personnel_none [where f = ?f and k = k and d = d])
        (use ok False in \<open>auto simp: accounts_ok_def patch_user_def split: option.splits\<close>)
  qed
  moreover have "accesses_ok ?d" using ok by (simp add: accounts_ok_def accesses_ok_def)
  moreover have "grants_logged ?d"
  proof -
    have "grants_logged (upd_user k f d)" for f using ok by (simp add: accounts_ok_def grants_logged_def upd_user_def)
    then have "grants_logged (default_capabilities_if b k (upd_user k f d))" for b f by (rule grants_logged_default)
    then show ?thesis by (auto simp: updated_db_def Let_def grants_logged_def revoke_all_for_user_def)
  qed
  ultimately have "accounts_ok ?d" by (simp add: accounts_ok_def)
  then show ?thesis unfolding d' by (rule accounts_ok_log)
qed

lemma delete_user_ok:
  assumes ok: "accounts_ok d" and run: "delete_user e u k d = Inr d'"
  shows "accounts_ok d'"
proof -
  obtain o' where d': "d' = log_event e (cu_id u) ''user_deleted'' None o' None (erase_user k d)"
    and free: "Some k \<notin> set (user_references d)"
    using run by (auto simp: delete_user_def bindE_Inr_iff split: option.splits if_splits)
  have seats: "\<forall>a\<in>set (accesses d). Some k \<notin> set (access_seats a)"
    "\<forall>r\<in>set (records d). Some k \<notin> set (record_seats r)"
    using free by (auto simp: user_references_def access_seats_def record_seats_def)
  have "users_ok (erase_user k d)"
    using ok by (simp add: accounts_ok_def users_ok_def erase_user_def tbl_ok_def distinct_map_filter)
  moreover have "caps_ok (erase_user k d)"
    using ok by (simp add: accounts_ok_def erase_user_def caps_ok_def distinct_map_filter)
  moreover have "seats_known (erase_user k d)"
    using ok seats by (fastforce simp: accounts_ok_def seats_known_def erase_user_def)
  moreover have "segregated (erase_user k d)"
    using ok by (auto simp: accounts_ok_def segregated_def own_evaluator_def erase_user_def)
  moreover have "accesses_ok (erase_user k d)" using ok by (simp add: accounts_ok_def accesses_ok_def erase_user_def)
  moreover have "grants_logged (erase_user k d)"
    by (rule grants_logged_mono [of d]) (use ok in \<open>auto simp: accounts_ok_def erase_user_def\<close>)
  ultimately have "accounts_ok (erase_user k d)" by (simp add: accounts_ok_def)
  then show ?thesis unfolding d' by (rule accounts_ok_log)
qed

lemma set_capabilities_ok:
  assumes ok: "accounts_ok d" and run: "set_capabilities e u k cs d = Inr d'"
  shows "accounts_ok d'"
proof (rule set_capabilities_Inr [OF run])
  fix x o' n
  let ?d = "fold (grant k (Some (cu_id u))) (filter (\<lambda>c. c \<notin> capabilities_of d k) (sorted_capabilities (set cs)))
    (revoke_capabilities k (set cs) d)"
  assume d': "d' = log_event e (cu_id u) ''capabilities_changed'' None o' n ?d"
  have "caps_ok (revoke_capabilities k (set cs) d)"
    using ok by (simp add: accounts_ok_def revoke_capabilities_def caps_ok_filter)
  then have "caps_ok ?d"
    by (intro fold_grant_caps_ok) (auto simp: revoke_capabilities_of sorted_capabilities_def all_capabilities_def)
  moreover have "users ?d = users d" "accesses ?d = accesses d" "records ?d = records d"
    by (simp_all add: revoke_capabilities_def)
  moreover have "grants_logged d'"
  proof -
    have "g = cu_id u \<or> g \<in> al_actor ` set (audits d)"
      if "c \<in> set (capabilities ?d)" "uc_granted_by c = Some g" for c g
      using fold_grant_rows [OF that(1)] that(2) ok
      by (auto simp: accounts_ok_def grants_logged_def revoke_capabilities_def)
    moreover have "al_actor ` set (audits d') = insert (cu_id u) (al_actor ` set (audits d))"
      unfolding d' log_event_actor by (simp add: revoke_capabilities_def)
    ultimately show ?thesis by (auto simp: grants_logged_def d' frame_simps)
  qed
  ultimately show ?thesis
    using ok by (simp add: d' frame_simps accounts_ok_def users_ok_def caps_ok_def seats_known_def segregated_def
        own_evaluator_def accesses_ok_def)
qed

lemma upsert_access_ok:
  assumes ok: "accounts_ok d" and run: "upsert_access e u pid p d = Inr d'"
  shows "accounts_ok d'"
proof -
  obtain o' n where d': "d' = log_event e (cu_id u) ''access_updated'' None o' n (write_access u pid p d)"
    and chk: "check_access d pid p = Inr ()"
    using upsert_access_Inr [OF run] by blast
  have same: "users d' = users d" "records d' = records d" "capabilities d' = capabilities d"
    "accesses d' = accesses (write_access u pid p d)"
    by (auto simp: d' frame_simps write_access_def split: option.split)
  have "k \<in> u_id ` set (users d)" if "Some k \<in> set [ai_supervisor p, ai_deputy p, Some (ai_ceo p)]" for k
  proof -
    have "\<exists>r. seat_filled d r (Some k)" using chk that by (auto simp: check_access_Inr)
    then show ?thesis
      unfolding seat_filled_def get_user_def using tbl_get_Some_set by (metis image_eqI)
  qed
  then have "seats_known d'"
    using ok write_access_rows [of d _ u pid p] unfolding accounts_ok_def seats_known_def same by metis
  moreover have "grants_logged d'"
    unfolding d' by (rule grants_logged_log, rule grants_logged_mono [of d])
      (use ok in \<open>auto simp: accounts_ok_def write_access_def split: option.split\<close>)
  ultimately show ?thesis
    using ok upsert_access_segregated [OF _ _ run] same by (simp add: accounts_ok_def users_ok_def caps_ok_def)
qed

lemma account_step_ok: "accounts_ok d \<Longrightarrow> accounts_ok (account_step e r d)"
proof (cases r)
  case (ToggleModule u key b)
  assume "accounts_ok d"
  then have "accounts_ok d'" if "toggle_module e u key b d = Inr d'" for d'
    using that accounts_ok_cong [of "d\<lparr>modules := ms\<rparr>" d for ms]
    by (auto simp: toggle_module_def bindE_Inr_iff Let_def grants_logged_def split: option.splits if_splits)
  then show ?thesis using ToggleModule \<open>accounts_ok d\<close> by (simp add: account_step_def split: sum.split)
qed (auto simp: account_step_def bindE_Inr_iff split: sum.split dest: create_user_ok update_user_ok delete_user_ok
    set_capabilities_ok upsert_access_ok)

interpretation account_sys: invariant_system "account_step e" accounts_ok for e
  by unfold_locales (rule account_step_ok)

lemma user_by_name_in:
  assumes "users_ok d" and "x \<in> set (users d)"
  shows "user_by_name d (u_username x) = Some x"
proof -
  have "find (\<lambda>y. u_username y = u_username x) xs = Some x" if "distinct (map u_username xs)" "x \<in> set xs" for xs
    using that by (induction xs) force+
  with assms show ?thesis by (simp add: users_ok_def user_by_name_def)
qed

lemma updated_user:
  "get_user (updated_db e p k x d) j
     = (if j = k then map_option (\<lambda>x. reset_password e (up_password p) (patch_user p x)) (get_user d j) else get_user d j)"
  by (simp add: get_user_def tbl_get_upd)

lemma updated_login_frame:
  "login_attempts (updated_db e p k x d) = login_attempts d"
  "session_by_jti (updated_db e p k x d) t = None \<longleftrightarrow> session_by_jti d t = None"
proof -
  have *: "login_attempts (default_capabilities_if b k d) = login_attempts d"
    "sessions (default_capabilities_if b k d) = sessions d" for b k d
    by (simp_all add: default_capabilities_if_def apply_default_hr_capabilities_def grant_def DEFAULT_HR_CAPABILITIES_def)
  show "login_attempts (updated_db e p k x d) = login_attempts d"
    by (simp add: updated_db_def Let_def revoke_all_for_user_def * upd_user_def)
  have "map as_jti (sessions (revoke_all_for_user e k d)) = map as_jti (sessions d)" for d
    by (simp add: revoke_all_for_user_def revoke_def)
  then have "map as_jti (sessions (updated_db e p k x d)) = map as_jti (sessions d)"
    by (simp add: updated_db_def Let_def * upd_user_def)
  then have "as_jti ` set (sessions (updated_db e p k x d)) = as_jti ` set (sessions d)"
    by (metis set_map)
  then show "session_by_jti (updated_db e p k x d) t = None \<longleftrightarrow> session_by_jti d t = None"
    by (simp add: session_by_jti_None)
qed

end
