(* ===== verification/AccountProperties.thy ===== *)
theory AccountProperties
  imports Accounts Samples
begin

text \<open>
  The properties of accounts and of the administrative capabilities.
\<close>

section \<open>Accounts\<close>

text \<open>C7. Whatever accounts are created, edited or deleted, capabilities given, modules switched and
  chains written, in any order: names and identifiers stay unique, an employee has a personnel file,
  a capability is held once, every seat names an existing account, each person has one chain, and
  nobody sits in a chain or a case about themselves.\<close>

theorem accounts_stay_well_formed:
  assumes "accounts_ok d"
  shows "accounts_ok (fold (account_step e) rs d)"
  by (rule account_sys.run_inv) (rule assms)

definition named_db :: db where
  "named_db = demo_db\<lparr>users := [(demo_user 1 hr None)\<lparr>u_username := ''hr1''\<rparr>,
     (demo_user 2 unit_supervisor None)\<lparr>u_username := ''sup''\<rparr>,
     (demo_user 3 deputy None)\<lparr>u_username := ''dep''\<rparr>, (demo_user 4 ceo None)\<lparr>u_username := ''ceo''\<rparr>,
     (demo_user 5 employee (Some 1))\<lparr>u_username := ''emp''\<rparr>, (demo_user 6 support None)\<lparr>u_username := ''adm''\<rparr>],
     capabilities := [\<lparr>uc_id = 1, uc_user = 1, uc_capability = manage_users, uc_granted_by = None\<rparr>,
       \<lparr>uc_id = 2, uc_user = 6, uc_capability = manage_capabilities, uc_granted_by = None\<rparr>]\<rparr>"

lemma named_db_ok: "accounts_ok named_db"
  by (auto simp: accounts_ok_def users_ok_def caps_ok_def seats_known_def segregated_def accesses_ok_def
      grants_logged_def named_db_def demo_db_def empty_db_def demo_access_def access_seats_def demo_user_def
      own_evaluator_def tbl_ok_def)

definition demo_new_user :: user_input where
  "demo_new_user = \<lparr>ui_username = ''clerk'', ui_password = ''0123456789'', ui_role = unit_supervisor,
     ui_personnel = Some 1, ui_full_name = None\<rparr>"

theorem accounts_stay_well_formed_witness:
  "accounts_ok (fold (account_step demo_env) [CreateUser demo_hr demo_new_user, DeleteUser demo_hr 7] named_db)"
  by (rule accounts_stay_well_formed) (rule named_db_ok)

text \<open>Nobody administers themselves out of the system: after an account was created, edited or
  deleted by an administrator, the administrator's own account is still there, active, in its role,
  and may still administer accounts.\<close>

theorem administrators_keep_their_account:
  assumes "r \<in> {CreateUser u q, UpdateUser u k p, DeleteUser u k}"
    and "account_request_result e r d = Inr d'" and "grants_logged d"
    and "get_user d (cu_id u) = Some x" and "u_is_active x"
  shows "\<exists>y. get_user d' (cu_id u) = Some y \<and> u_is_active y \<and> u_role y = u_role x \<and>
    manage_users \<in> capabilities_of d' (cu_id u)"
proof -
  have id: "u_id x = cu_id u" using assms(4) user_st.row_key by blast
  from assms(1) consider "r = CreateUser u q" | "r = UpdateUser u k p" | "r = DeleteUser u k" by blast
  then show ?thesis
  proof cases
    case 1
    then obtain y where c: "create_user e u q d = Inr (y, d')"
      using assms(2) by (auto simp: bindE_Inr_iff)
    have new: "u_id y = tbl_next u_id (users d)" using c by (auto simp: create_user_Inr new_user_def)
    then have other: "cu_id u \<noteq> u_id y"
      using assms(4) tbl_next_gt by (metis get_user_def less_irrefl tbl_get_Some_set)
    have users: "users d' = users d @ [y]"
      using c by (auto simp: create_user_Inr frame_simps)
    have "manage_users \<in> capabilities_of d' (cu_id u)"
    proof -
      have "capabilities_of (d\<lparr>users := us\<rparr>) (cu_id u) = capabilities_of d (cu_id u)" for us
        by (simp add: capabilities_of_def)
      then show ?thesis
        using c other
        by (auto simp: create_user_Inr capabilities_log default_capabilities_if_def apply_default_hr_exact)
    qed
    moreover have "get_user d' (cu_id u) = Some x"
      using assms(4) users by (simp add: get_user_def tbl_get_append_Some)
    ultimately show ?thesis using assms(5) by blast
  next
    case 2
    then have run: "update_user e u k p d = Inr d'" using assms(2) by simp
    show ?thesis
    proof (rule update_user_Inr [OF run])
      fix z o' n
      assume z: "manage_users \<in> capabilities_of d (cu_id u)" "get_user d k = Some z"
        "ensure_not_own_account u p z = Inr ()" "up_role p \<noteq> Some None" "up_active p \<noteq> Some None"
        and d': "d' = log_event e (cu_id u) ''user_updated'' None o' n (updated_db e p k z d)"
      let ?f = "\<lambda>x. reset_password e (up_password p) (patch_user p x)"
      have get: "get_user d' j = (if j = k then map_option ?f (get_user d j) else get_user d j)" for j
        unfolding d' by (simp add: frame_simps get_user_def tbl_get_upd)
      have own: "cu_id u = k \<Longrightarrow> z = x \<and> u_is_active (patch_user p x) \<and> u_role (patch_user p x) = u_role x"
        using z assms(4,5) id
        by (auto simp: ensure_not_own_account_def patch_user_def patched_def split: if_splits option.splits)
      have "manage_users \<in> capabilities_of d' (cu_id u)"
        using z(1,2) own assms(4)
        by (cases "cu_id u = k") (auto simp: d' capabilities_log updated_capabilities)
      then show ?thesis
        using own assms(4,5) by (cases "cu_id u = k") (auto simp: get)
    qed
  next
    case 3
    then obtain o' where d': "d' = log_event e (cu_id u) ''user_deleted'' None o' None (erase_user k d)"
      and "k \<noteq> cu_id u" "manage_users \<in> capabilities_of d (cu_id u)" "\<forall>a\<in>set (audits d). al_actor a \<noteq> k"
      using assms(2) by (auto simp: delete_user_def bindE_Inr_iff guard_simps split: option.splits if_splits)
    then have "\<forall>c\<in>set (capabilities d). uc_granted_by c \<noteq> Some k"
      using assms(3) by (fastforce simp: grants_logged_def)
    then have "capabilities_of d' (cu_id u) = capabilities_of d (cu_id u)"
      unfolding d' capabilities_log using \<open>k \<noteq> cu_id u\<close>
      by (simp only: capabilities_of_def erase_user_def) auto
    moreover have "get_user d' (cu_id u) = Some x"
      using assms(4) \<open>k \<noteq> cu_id u\<close>
      by (simp add: d' frame_simps get_user_def erase_user_def tbl_get_filter)
    ultimately show ?thesis using assms(5) \<open>manage_users \<in> capabilities_of d (cu_id u)\<close> by auto
  qed
qed

lemma named_db_rows:
  "get_user named_db 1 = Some ((demo_user 1 hr None)\<lparr>u_username := ''hr1''\<rparr>)"
  "get_user named_db 5 = Some ((demo_user 5 employee (Some 1))\<lparr>u_username := ''emp''\<rparr>)"
  "get_user named_db 6 = Some ((demo_user 6 support None)\<lparr>u_username := ''adm''\<rparr>)"
  "get_personnel named_db 1 = Some (demo_person 1)"
  "capabilities_of named_db k = (if k = 1 then {manage_users} else if k = 6 then {manage_capabilities} else {})"
  unfolding capabilities_of_list
  by (simp_all add: named_db_def demo_db_def demo_user_def get_user_def get_personnel_def tbl_get_def demo_person_def)

definition patch_active :: "bool \<Rightarrow> user_patch" where
  "patch_active b = \<lparr>up_role = None, up_active = Some (Some b), up_personnel = None, up_full_name = None,
     up_password = None\<rparr>"

lemma named_deactivation:
  "\<exists>d'. update_user demo_env demo_hr 6 (patch_active False) named_db = Inr d'"
  using named_db_rows
  by (simp add: update_user_def bindE_Inr_iff guard_simps demo_hr_def patch_active_def user_patch_ok_def
      ensure_not_own_account_def ensure_link_allowed_def patch_user_def patched_def)
    (simp add: demo_user_def)

theorem administrators_keep_their_account_witness:
  "\<exists>d' y. update_user demo_env demo_hr 6 (patch_active False) named_db = Inr d' \<and>
     get_user d' 1 = Some y \<and> u_is_active y \<and> manage_users \<in> capabilities_of d' 1"
proof -
  obtain d' where d': "update_user demo_env demo_hr 6 (patch_active False) named_db = Inr d'"
    using named_deactivation by blast
  have "grants_logged named_db" using named_db_ok by (simp add: accounts_ok_def)
  moreover have "cu_id demo_hr = 1" by (simp add: demo_hr_def)
  ultimately have "\<exists>y. get_user d' 1 = Some y \<and> u_is_active y \<and> u_role y = hr \<and> manage_users \<in> capabilities_of d' 1"
    using administrators_keep_their_account [of "UpdateUser demo_hr 6 (patch_active False)" demo_hr undefined 6
        "patch_active False" demo_env named_db d'] d' named_db_rows
    by (simp add: demo_user_def)
  with d' show ?thesis by blast
qed

section \<open>Capabilities\<close>

text \<open>A change of capabilities is exact and never leaves the system without somebody who may grant
  them: afterwards the account holds exactly the requested set, every other account what it held, and
  if some active account could grant capabilities before, one still can.\<close>

theorem capability_changes_are_exact:
  assumes "set_capabilities e u k cs d = Inr d'"
  shows "capabilities_of d' = (capabilities_of d)(k := set cs) \<and>
    ((\<exists>x\<in>set (users d). u_is_active x \<and> manage_capabilities \<in> capabilities_of d (u_id x)) \<longrightarrow>
     (\<exists>x\<in>set (users d'). u_is_active x \<and> manage_capabilities \<in> capabilities_of d' (u_id x)))"
proof
  have caps: "capabilities_of d' j = (if j = k then set cs else capabilities_of d j)" for j
    by (rule set_capabilities_exact(1) [OF assms])
  have us: "users d' = users d" by (rule set_capabilities_exact(2) [OF assms])
  show "capabilities_of d' = (capabilities_of d)(k := set cs)" by (auto simp: caps fun_eq_iff)
  have "manage_capabilities \<in> capabilities_of d k \<and> manage_capabilities \<notin> set cs \<longrightarrow> other_grantor d k"
    using set_capabilities_Inr [OF assms] by metis
  then show "(\<exists>x\<in>set (users d). u_is_active x \<and> manage_capabilities \<in> capabilities_of d (u_id x)) \<longrightarrow>
     (\<exists>x\<in>set (users d'). u_is_active x \<and> manage_capabilities \<in> capabilities_of d' (u_id x))"
    unfolding caps us other_grantor_def by (metis (full_types))
qed

definition demo_adm :: current_user where
  "demo_adm = \<lparr>cu_id = 6, cu_username = ''adm'', cu_role = support, cu_personnel_id = None\<rparr>"

theorem capability_changes_are_exact_witness:
  "\<exists>d'. set_capabilities demo_env demo_adm 1 [view_audit_log] named_db = Inr d' \<and>
     capabilities_of d' 1 = {view_audit_log} \<and> capabilities_of d' 6 = {manage_capabilities}"
proof -
  obtain d' where d': "set_capabilities demo_env demo_adm 1 [view_audit_log] named_db = Inr d'"
    using named_db_rows
    by (simp add: set_capabilities_def bindE_Inr_iff guard_simps demo_adm_def) (simp add: demo_user_def)
  with capability_changes_are_exact [OF d'] named_db_rows(5) show ?thesis by simp
qed

text \<open>The guard of the capabilities page does not cover the accounts page: whoever administers
  accounts, with no say over capabilities, may deactivate the last account that can grant them.
  Afterwards no active account can give anybody a capability again.\<close>

theorem last_grantor_can_be_deactivated:
  assumes "manage_users \<in> capabilities_of d (cu_id u)" and "k \<noteq> cu_id u" and "get_user d k = Some x"
    and "u_role x \<noteq> employee" and "\<not> other_grantor d k" and "users_ok d"
  shows "\<exists>d'. update_user e u k (patch_active False) d = Inr d' \<and>
    (\<forall>y\<in>set (users d'). u_is_active y \<longrightarrow>
       (\<forall>e' j cs. set_capabilities e' (as_current_user y) j cs d' = Inl (HTTPException 403 ''a capability is missing'')))"
proof -
  have id: "u_id x = k" using assms(3) user_st.row_key by blast
  have "\<exists>d'. update_user e u k (patch_active False) d = Inr d'"
    using assms(1-4) id
    by (simp add: update_user_def bindE_Inr_iff guard_simps patch_active_def user_patch_ok_def
        ensure_not_own_account_def ensure_link_allowed_def patch_user_def patched_def Let_def)
  then obtain d' where d': "update_user e u k (patch_active False) d = Inr d'" by blast
  obtain o' n where run: "update_user e u k (patch_active False) d
      = Inr (log_event e (cu_id u) ''user_updated'' None o' n (updated_db e (patch_active False) k x d))"
    by (rule update_user_Inr [OF d']) (use d' assms(3) in auto)
  let ?d = "log_event e (cu_id u) ''user_updated'' None o' n (updated_db e (patch_active False) k x d)"
  have caps: "capabilities_of ?d j = capabilities_of d j" for j
    by (simp add: capabilities_log updated_capabilities patch_active_def patch_user_def patched_def)
  have "manage_capabilities \<notin> capabilities_of ?d (u_id y)" if "y \<in> set (users ?d)" "u_is_active y" for y
  proof -
    have "y \<in> set (users d) \<and> u_id y \<noteq> k"
      using that by (auto simp: frame_simps set_tbl_upd patch_active_def patch_user_def patched_def split: if_splits)
    then show ?thesis using assms(5) that(2) unfolding caps other_grantor_def by blast
  qed
  then have "set_capabilities e' (as_current_user y) j cs ?d = Inl (HTTPException 403 ''a capability is missing'')"
    if "y \<in> set (users ?d)" "u_is_active y" for y e' j cs
    using that by (simp add: set_capabilities_def require_capability_def as_current_user_def)
  with run show ?thesis by blast
qed

theorem last_grantor_can_be_deactivated_witness:
  "\<exists>d'. update_user demo_env demo_hr 6 (patch_active False) named_db = Inr d' \<and>
    (\<forall>y\<in>set (users d'). u_is_active y \<longrightarrow>
       (\<forall>e' j cs. set_capabilities e' (as_current_user y) j cs d' = Inl (HTTPException 403 ''a capability is missing'')))"
proof (rule last_grantor_can_be_deactivated)
  show "users_ok named_db" using named_db_ok by (simp add: accounts_ok_def)
  show "\<not> other_grantor named_db 6" by (auto simp: other_grantor_def named_db_rows)
qed (simp_all add: named_db_rows demo_hr_def, simp add: demo_user_def)

text \<open>C55. Making somebody an employee does not take the capabilities away, and nobody can any more: the
  account keeps what it held, disappears from the list of holders, and the page that could revoke
  it refuses employees.\<close>

definition patch_to_employee :: user_patch where
  "patch_to_employee = \<lparr>up_role = Some (Some employee), up_active = None, up_personnel = None, up_full_name = None,
     up_password = None\<rparr>"

theorem demoted_account_keeps_capabilities:
  assumes "manage_users \<in> capabilities_of d (cu_id u)" and "k \<noteq> cu_id u" and "get_user d k = Some x"
    and "u_personnel_id x \<noteq> None" and "users_ok d"
  shows "\<exists>d'. update_user e u k patch_to_employee d = Inr d' \<and> capabilities_of d' k = capabilities_of d k \<and>
    (\<forall>e' v cs. \<nexists>d''. set_capabilities e' v k cs d' = Inr d'') \<and>
    (\<forall>v hs. list_capability_holders d' v = Inr hs \<longrightarrow> k \<notin> fst ` set hs)"
proof -
  have id: "u_id x = k" using assms(3) user_st.row_key by blast
  have "\<exists>d'. update_user e u k patch_to_employee d = Inr d'"
    using assms(1-4) id
    by (simp add: update_user_def bindE_Inr_iff guard_simps patch_to_employee_def user_patch_ok_def
        ensure_not_own_account_def ensure_link_allowed_def patch_user_def patched_def Let_def)
  then obtain d' where run: "update_user e u k patch_to_employee d = Inr d'" by blast
  obtain o' n where d': "d' = log_event e (cu_id u) ''user_updated'' None o' n (updated_db e patch_to_employee k x d)"
    by (rule update_user_Inr [OF run]) (use assms(3) in auto)
  have role: "u_role (patch_user patch_to_employee y) = employee" for y
    by (simp add: patch_user_def patched_def patch_to_employee_def)
  have "capabilities_of d' k = capabilities_of d k"
    by (simp add: d' capabilities_log updated_capabilities role)
  moreover have row: "get_user d' k = Some (reset_password e None (patch_user patch_to_employee x))"
    by (simp add: d' frame_simps updated_user assms(3)) (simp add: patch_to_employee_def)
  then have "\<nexists>d''. set_capabilities e' v k cs d' = Inr d''" for e' v cs
    by (auto elim!: set_capabilities_Inr simp: role)
  moreover have "u_role y = employee" if "y \<in> set (users d')" "u_id y = k" for y
  proof -
    have "y \<in> set (tbl_upd u_id k (\<lambda>x. reset_password e None (patch_user patch_to_employee x)) (users d))"
      using that(1) by (simp add: d' frame_simps patch_to_employee_def)
    then obtain z where "z \<in> set (users d)"
      "y = (if u_id z = k then reset_password e None (patch_user patch_to_employee z) else z)"
      unfolding set_tbl_upd by blast
    then show ?thesis using that(2) role by (cases "u_id z = k") simp_all
  qed
  then have "k \<notin> u_id ` set (filter (\<lambda>x. u_role x \<noteq> employee) (users d'))" by auto
  then have "list_capability_holders d' v = Inr hs \<longrightarrow> k \<notin> fst ` set hs" for v hs
    by (cases "require_capability [manage_capabilities] v d'")
      (auto simp: list_capability_holders_def image_image)
  ultimately show ?thesis using run by blast
qed

definition linked_db :: db where
  "linked_db = named_db\<lparr>users := map (\<lambda>x. if u_id x = 6 then x\<lparr>u_personnel_id := Some 1\<rparr> else x) (users named_db)\<rparr>"

theorem demoted_account_keeps_capabilities_witness:
  "\<exists>d'. update_user demo_env demo_hr 6 patch_to_employee linked_db = Inr d' \<and>
    capabilities_of d' 6 = capabilities_of linked_db 6 \<and>
    (\<forall>e' v cs. \<nexists>d''. set_capabilities e' v 6 cs d' = Inr d'') \<and>
    (\<forall>v hs. list_capability_holders d' v = Inr hs \<longrightarrow> 6 \<notin> fst ` set hs)"
proof (rule demoted_account_keeps_capabilities)
  show "users_ok linked_db"
    by (simp add: users_ok_def linked_db_def named_db_def demo_db_def demo_user_def tbl_ok_def)
  show "get_user linked_db 6 = Some ((demo_user 6 support None)\<lparr>u_username := ''adm'', u_personnel_id := Some 1\<rparr>)"
    by (simp add: linked_db_def named_db_def demo_db_def demo_user_def get_user_def tbl_get_def)
  show "manage_users \<in> capabilities_of linked_db (cu_id demo_hr)"
    using named_db_rows(5) [of 1] by (simp add: capabilities_of_def linked_db_def demo_hr_def)
qed (simp_all add: demo_hr_def)

definition patch_password :: "string \<Rightarrow> user_patch" where
  "patch_password pw = \<lparr>up_role = None, up_active = None, up_personnel = None, up_full_name = None,
     up_password = Some pw\<rparr>"

text \<open>The separation of managing accounts and granting capabilities can be stepped around: whoever
  administers accounts may set the password of any other account, and the next login with it is
  granted and acts as that account, with every capability it holds.\<close>

theorem separation_can_be_sidestepped:
  assumes "manage_users \<in> capabilities_of d (cu_id u)" and "k \<noteq> cu_id u" and "get_user d k = Some x"
    and "u_is_active x" and "accounts_ok d" and "PASSWORD_MIN_LENGTH \<le> length pw"
    and "password_matches e' pw (password_digest e pw)" and "locked_until e' d (u_username x) = None"
    and "session_by_jti d (token e') = None"
  shows "\<exists>d' a. update_user e u k (patch_password pw) d = Inr d' \<and>
    fst (login e' (u_username x) pw None None d') = Inr a \<and> ac_sub (aa_access a) = k \<and>
    capabilities_of d' k = capabilities_of d k"
proof -
  have id: "u_id x = k" using assms(3) user_st.row_key by blast
  have x: "x \<in> set (users d)" using assms(3) tbl_get_Some_set by (metis get_user_def)
  have "\<exists>d'. update_user e u k (patch_password pw) d = Inr d'"
    using assms(1-6) id x
    by (simp add: update_user_def bindE_Inr_iff guard_simps patch_password_def user_patch_ok_def
        ensure_not_own_account_def ensure_link_allowed_def patch_user_def patched_def Let_def
        accounts_ok_def users_ok_def)
  then obtain d' where run: "update_user e u k (patch_password pw) d = Inr d'" by blast
  obtain o' n where d': "d' = log_event e (cu_id u) ''user_updated'' None o' n (updated_db e (patch_password pw) k x d)"
    by (rule update_user_Inr [OF run]) (use assms(3) in auto)
  let ?y = "reset_password e (Some pw) (patch_user (patch_password pw) x)"
  have y: "u_password_hash ?y = password_digest e pw" "u_is_active ?y" "u_id ?y = k" "u_username ?y = u_username x"
    using assms(4) id by (simp_all add: reset_password_def patch_user_def patched_def patch_password_def)
  have "get_user d' k = Some ?y"
    by (simp add: d' frame_simps updated_user assms(3)) (simp add: patch_password_def)
  then have mem: "?y \<in> set (users d')" using tbl_get_Some_set by (metis get_user_def)
  have "users_ok d'" using update_user_ok [OF assms(5) run] by (simp add: accounts_ok_def)
  from user_by_name_in [OF this mem] have name: "user_by_name d' (u_username x) = Some ?y" by (simp only: y)
  have "locked_until e' d' (u_username x) = None"
    using assms(8) by (simp add: locked_until_def get_attempt_def d' frame_simps updated_login_frame)
  moreover have "session_by_jti d' (token e') = None"
    using assms(9) updated_login_frame(2) [of e "patch_password pw" k x d "token e'"]
    by (simp add: session_by_jti_def d' frame_simps)
  ultimately have "\<exists>a. fst (login e' (u_username x) pw None None d') = Inr a \<and> ac_sub (aa_access a) = k"
    using name y assms(7)
    by (simp add: login_def issue_login_response_def create_session_def Let_def create_access_token_def
        session_by_jti_def frame_simps clear_failures_def)
  moreover have "capabilities_of d' k = capabilities_of d k"
    by (simp add: d' capabilities_log updated_capabilities patch_user_def patched_def patch_password_def)
  ultimately show ?thesis using run by blast
qed

theorem separation_can_be_sidestepped_witness:
  "\<exists>d' a. update_user demo_env demo_hr 6 (patch_password ''0123456789'') named_db = Inr d' \<and>
    fst (login demo_env ''adm'' ''0123456789'' None None d') = Inr a \<and> ac_sub (aa_access a) = 6 \<and>
    capabilities_of d' 6 = {manage_capabilities}"
proof -
  let ?x = "(demo_user 6 support None)\<lparr>u_username := ''adm''\<rparr>"
  have name: "u_username ?x = ''adm''" by simp
  have "locked_until demo_env named_db (u_username ?x) = None" "session_by_jti named_db (token demo_env) = None"
    by (simp_all add: locked_until_def get_attempt_def session_by_jti_def named_db_def demo_db_def empty_db_def)
  then show ?thesis
    using separation_can_be_sidestepped [of named_db demo_hr 6 ?x "''0123456789''" demo_env demo_env]
      named_db_rows named_db_ok
    unfolding name by (simp add: demo_hr_def PASSWORD_MIN_LENGTH_def) (simp add: demo_user_def demo_env_def)
qed

end
