(* ===== verification/Periods.thy ===== *)
theory Periods
  imports ResultIntegrity
begin

text \<open>
  The evaluation periods of \<open>routers/periods.py\<close> and the opening of cases for a whole cohort of
  \<open>services/bulk_evaluation.py\<close>. The order in which the database returns people sorted by name is
  the parameter \<open>name_order\<close>. The lemmas show what the requests keep of the periods, that the
  preview of a batch is what the batch does, and that a batch opens cases as the evaluators would.
\<close>

section \<open>Periods\<close>

record period_input =
  pi_name :: ustr
  pi_starts :: date
  pi_ends :: date

definition period_name_ok :: "ustr \<Rightarrow> bool" where
  "period_name_ok s \<longleftrightarrow> strip s \<noteq> [] \<and> length (strip s) \<le> 200"

definition period_input_ok :: "period_input \<Rightarrow> bool" where
  "period_input_ok p \<longleftrightarrow> period_name_ok (pi_name p) \<and> pi_starts p < pi_ends p"

definition get_period_or_404 :: "db \<Rightarrow> int \<Rightarrow> evaluation_period result" where
  "get_period_or_404 d k = (case get_period d k of
     None \<Rightarrow> Inl (HTTPException 404 ''period not found'') | Some p \<Rightarrow> Inr p)"

definition period_evaluators :: "db \<Rightarrow> int list" where
  "period_evaluators d = map u_id (filter (\<lambda>x. u_role x \<in> {unit_supervisor, deputy} \<and> u_is_active x) (users d))"

definition create_period :: "env \<Rightarrow> current_user \<Rightarrow> period_input \<Rightarrow> db \<Rightarrow> (evaluation_period \<times> db) result" where
  "create_period e u q d =
     bindE (require_roles [hr] u) (\<lambda>_.
     bindE (require (period_input_ok q) (HTTPException 422 ''invalid period'')) (\<lambda>_.
       if open_period d \<noteq> None then Inl (HTTPException 400 ''a period is still open'')
       else
         let p = \<lparr>ep_id = tbl_next ep_id (periods d), ep_name = strip (pi_name q), ep_starts_on = pi_starts q,
               ep_ends_on = pi_ends q, ep_status = period_open, ep_created_by = Some (cu_id u),
               ep_closed_at = None\<rparr>;
             d1 = log_event e (cu_id u) ''period_created'' None None
               (Some (JObj [(''id'', JInt (ep_id p)), (''name'', JText (ep_name p))]))
               (d\<lparr>periods := periods d @ [p]\<rparr>)
         in Inr (p, notify e (period_evaluators d1) ''period_opened''
              (lit ''The evaluation period has begun: '' @ ep_name p) None (Some ''/'') d1)))"

text \<open>A partial update; \<open>Some None\<close> is an explicit null.\<close>

record period_patch =
  pp_name :: "ustr option option"
  pp_starts :: "date option option"
  pp_ends :: "date option option"

definition period_patch_ok :: "period_patch \<Rightarrow> bool" where
  "period_patch_ok q \<longleftrightarrow> (case pp_name q of Some (Some s) \<Rightarrow> period_name_ok s | _ \<Rightarrow> True)"

definition patch_period :: "period_patch \<Rightarrow> evaluation_period \<Rightarrow> evaluation_period" where
  "patch_period q p = p\<lparr>ep_name := (case pp_name q of Some (Some s) \<Rightarrow> strip s | _ \<Rightarrow> ep_name p),
     ep_starts_on := patched (pp_starts q) (ep_starts_on p),
     ep_ends_on := patched (pp_ends q) (ep_ends_on p)\<rparr>"

definition period_json :: "evaluation_period \<Rightarrow> (string \<times> json) list" where
  "period_json p = [(''name'', JText (ep_name p)), (''starts_on'', JStr (iso_date (ep_starts_on p))),
     (''ends_on'', JStr (iso_date (ep_ends_on p)))]"

definition update_period :: "env \<Rightarrow> current_user \<Rightarrow> int \<Rightarrow> period_patch \<Rightarrow> db \<Rightarrow> db result" where
  "update_period e u k q d =
     bindE (require_roles [hr] u) (\<lambda>_.
     bindE (require (period_patch_ok q) (HTTPException 422 ''invalid update'')) (\<lambda>_.
     bindE (get_period_or_404 d k) (\<lambda>p.
       if pp_starts q = Some None \<or> pp_ends q = Some None then Inl (Uncaught TypeError)
       else if ep_ends_on (patch_period q p) \<le> ep_starts_on (patch_period q p)
       then Inl (HTTPException 400 ''a period ends after it starts'')
       else if pp_name q = Some None then Inl (HTTPException 400 ''the name is taken'')
       else Inr (log_event e (cu_id u) ''period_updated'' None (Some (JObj (period_json p)))
              (Some (JObj ((''id'', JInt k) #
                 member_if_set ''name'' (\<lambda>s. JText (strip s)) (pp_name q) @
                 member_if_set ''starts_on'' (\<lambda>t. JStr (iso_date t)) (pp_starts q) @
                 member_if_set ''ends_on'' (\<lambda>t. JStr (iso_date t)) (pp_ends q))))
              (upd_period k (patch_period q) d)))))"

definition period_records :: "db \<Rightarrow> int \<Rightarrow> evaluation_record list" where
  "period_records d k = filter (\<lambda>r. er_period r = Some k) (records d)"

fun period_status_value :: "period_status \<Rightarrow> string" where
  "period_status_value period_open = ''open''"
| "period_status_value period_closed = ''closed''"

definition delete_period :: "env \<Rightarrow> current_user \<Rightarrow> int \<Rightarrow> db \<Rightarrow> db result" where
  "delete_period e u k d =
     bindE (require_roles [hr] u) (\<lambda>_.
     bindE (get_period_or_404 d k) (\<lambda>p.
       if period_records d k \<noteq> [] then Inl (HTTPException 409 ''the period has cases'')
       else Inr (log_event e (cu_id u) ''period_deleted'' None
              (Some (JObj ([(''id'', JInt k), (''status'', JStr (period_status_value (ep_status p)))] @ period_json p)))
              None (d\<lparr>periods := filter (\<lambda>p. ep_id p \<noteq> k) (periods d)\<rparr>))))"

definition close_period :: "env \<Rightarrow> current_user \<Rightarrow> int \<Rightarrow> bool \<Rightarrow> db \<Rightarrow> db result" where
  "close_period e u k force d =
     bindE (require_roles [hr] u) (\<lambda>_.
     bindE (get_period_or_404 d k) (\<lambda>p.
       let open_cases = length (filter is_open (period_records d k)) in
       if ep_status p \<noteq> period_open then Inl (HTTPException 400 ''the period is closed already'')
       else if open_cases \<noteq> 0 \<and> \<not> force
       then Inl (HTTPConflict 409 ''the period has open cases'' (Some (int open_cases)))
       else Inr (log_event e (cu_id u) ''period_closed'' None None
              (Some (JObj [(''id'', JInt k), (''name'', JText (ep_name p)),
                 (''open_cases'', JInt (int open_cases))]))
              (upd_period k (\<lambda>p. p\<lparr>ep_status := period_closed, ep_closed_at := Some (now e)\<rparr>) d))))"

text \<open>What a period shows about itself today.\<close>

definition window_state :: "env \<Rightarrow> evaluation_period \<Rightarrow> string" where
  "window_state e p =
     (if ep_status p = period_closed then ''closed''
      else if today e < ep_starts_on p then ''upcoming''
      else if ep_ends_on p < today e then ''expired'' else ''active'')"

definition accepting_entries :: "env \<Rightarrow> evaluation_period \<Rightarrow> bool" where
  "accepting_entries e p \<longleftrightarrow> window_state e p = ''active''"

definition NOT_STARTED_LIMIT :: nat where
  "NOT_STARTED_LIMIT = 200"

record progress =
  pg_eligible :: nat
  pg_started :: nat
  pg_finalized :: nat
  pg_in_progress :: nat
  pg_not_started_total :: nat
  pg_not_started :: "int list"
  pg_without_chain_total :: nat
  pg_without_chain :: "int list"

definition active_people :: "db \<Rightarrow> personnel list" where
  "active_people d = filter (\<lambda>p. p_status p = p_active) (personnels d)"

definition without_chain :: "db \<Rightarrow> personnel list" where
  "without_chain d = filter (\<lambda>p. access_of d (p_id p) = None) (active_people d)"

definition not_started :: "db \<Rightarrow> int \<Rightarrow> personnel list" where
  "not_started d k =
     filter (\<lambda>p. \<forall>r\<in>set (period_records d k). er_subject r \<noteq> p_id p) (active_people d)"

definition period_progress :: "env \<Rightarrow> db \<Rightarrow> current_user \<Rightarrow> int \<Rightarrow> progress result" where
  "period_progress e d u k =
     bindE (require_roles [hr] u) (\<lambda>_.
     bindE (get_period_or_404 d k) (\<lambda>p.
       Inr \<lparr>pg_eligible = length (active_people d), pg_started = length (period_records d k),
            pg_finalized = length (filter (\<lambda>r. er_status r = finalized) (period_records d k)),
            pg_in_progress = length (filter is_open (period_records d k)),
            pg_not_started_total = length (not_started d k),
            pg_not_started = map p_id (take NOT_STARTED_LIMIT (name_order e (not_started d k))),
            pg_without_chain_total = length (without_chain d),
            pg_without_chain = map p_id (take NOT_STARTED_LIMIT (name_order e (without_chain d)))\<rparr>))"

section \<open>Opening the cases of a cohort\<close>

datatype bulk_outcome =
    BulkCreated | SkippedAlreadyOpen | BlockedInactive | BlockedNoAccessRow | BlockedNoSupervisor
  | BlockedInactiveSeat | BlockedConflict

fun outcome_value :: "bulk_outcome \<Rightarrow> string" where
  "outcome_value BulkCreated = ''created''"
| "outcome_value SkippedAlreadyOpen = ''skipped_already_open''"
| "outcome_value BlockedInactive = ''blocked_inactive''"
| "outcome_value BlockedNoAccessRow = ''blocked_no_access_row''"
| "outcome_value BlockedNoSupervisor = ''blocked_no_supervisor''"
| "outcome_value BlockedInactiveSeat = ''blocked_inactive_seat''"
| "outcome_value BlockedConflict = ''blocked_conflict''"

record cohort =
  co_org_unit :: "ustr option"
  co_only_managers :: "bool option"
  co_ends_before :: "date option"

definition in_cohort :: "cohort \<Rightarrow> personnel \<Rightarrow> bool" where
  "in_cohort c p \<longleftrightarrow>
     (case co_org_unit c of None \<Rightarrow> True | Some s \<Rightarrow> s = [] \<or> p_org_unit p = s) \<and>
     (case co_only_managers c of None \<Rightarrow> True | Some b \<Rightarrow> p_is_manager p = b) \<and>
     (case co_ends_before c of None \<Rightarrow> True | Some t \<Rightarrow> p_contract_end p \<le> t)"

definition load_cohort :: "env \<Rightarrow> db \<Rightarrow> cohort \<Rightarrow> personnel list" where
  "load_cohort e d c = name_order e (filter (in_cohort c) (personnels d))"

record person_plan =
  bp_personnel :: int
  bp_outcome :: bulk_outcome
  bp_evaluation :: "int option"
  bp_code :: "string option"
  bp_assignee :: "int option"
  bp_manager_path :: bool

definition plan_one ::
  "db \<Rightarrow> personnel \<Rightarrow> evaluation_access option \<Rightarrow> evaluation_record option \<Rightarrow> person_plan" where
  "plan_one d p access existing =
     (let base = \<lparr>bp_personnel = p_id p, bp_outcome = BulkCreated, bp_evaluation = None, bp_code = None,
            bp_assignee = None, bp_manager_path = False\<rparr>
      in case existing of
        Some r \<Rightarrow> base\<lparr>bp_outcome := SkippedAlreadyOpen, bp_evaluation := Some (er_id r), bp_code := Some (er_code r)\<rparr>
      | None \<Rightarrow>
          if p_status p \<noteq> p_active then base\<lparr>bp_outcome := BlockedInactive\<rparr>
          else case access of
            None \<Rightarrow> base\<lparr>bp_outcome := BlockedNoAccessRow\<rparr>
          | Some a \<Rightarrow>
              let direct = ea_supervisor a = None \<and> ea_deputy a = None in
              if \<not> p_is_manager p \<and> ea_supervisor a = None \<and> \<not> direct
              then base\<lparr>bp_outcome := BlockedNoSupervisor\<rparr>
              else if inactive_seat_labels d a \<noteq> [] then base\<lparr>bp_outcome := BlockedInactiveSeat\<rparr>
              else base\<lparr>bp_assignee := (if direct then Some (ea_ceo a)
                          else if p_is_manager p then ea_deputy a else ea_supervisor a),
                        bp_manager_path := p_is_manager p \<or> direct\<rparr>)"

definition plan :: "env \<Rightarrow> db \<Rightarrow> cohort \<Rightarrow> person_plan list" where
  "plan e d c = map (\<lambda>p. plan_one d p (access_of d (p_id p)) (open_record_of d (p_id p))) (load_cohort e d c)"

text \<open>
  One record, in its own savepoint: when the partial unique index refuses it, only this row is
  undone (the number drawn from the code sequence is not). Stamps and version are read once per batch.
\<close>

definition bulk_framework :: "db \<Rightarrow> int \<Rightarrow> personnel \<Rightarrow> int" where
  "bulk_framework d fid p = (case assessment_for_contract d (p_id p) (p_contract_start p) of
     None \<Rightarrow> fid | Some a \<Rightarrow> ca_framework a)"

definition execute_one :: "env \<Rightarrow> int \<Rightarrow> person_plan \<Rightarrow> db \<Rightarrow> person_plan \<times> db" where
  "execute_one e fid q d =
     (if bp_outcome q \<noteq> BulkCreated then (q, d)
      else case (get_personnel d (bp_personnel q), access_of d (bp_personnel q)) of
        (Some p, Some a) \<Rightarrow>
          let (code, d1) = next_evaluation_code d;
              r = new_record e p a (if bp_manager_path q then None else ea_supervisor a) code
                    (bulk_framework d fid p) d1
          in if open_record_of d (bp_personnel q) \<noteq> None then (q\<lparr>bp_outcome := BlockedConflict\<rparr>, d1)
             else (q\<lparr>bp_evaluation := Some (er_id r), bp_code := Some code\<rparr>, d1\<lparr>records := records d1 @ [r]\<rparr>)
      | _ \<Rightarrow> (q, d))"

fun execute_all :: "env \<Rightarrow> int \<Rightarrow> person_plan list \<Rightarrow> db \<Rightarrow> person_plan list \<times> db" where
  "execute_all e fid [] d = ([], d)"
| "execute_all e fid (q # qs) d =
     (let (q', d1) = execute_one e fid q d; (qs', d2) = execute_all e fid qs d1 in (q' # qs', d2))"

definition execute :: "env \<Rightarrow> cohort \<Rightarrow> db \<Rightarrow> person_plan list \<times> db" where
  "execute e c d = (let qs = plan e d c; (f, d1) = ensure_framework d in execute_all e (if_id f) qs d1)"

definition summarise :: "person_plan list \<Rightarrow> (string \<times> nat) list" where
  "summarise qs = map (\<lambda>v. (v, length (filter (\<lambda>q. outcome_value (bp_outcome q) = v) qs)))
     (remdups (map (\<lambda>q. outcome_value (bp_outcome q)) qs))"

definition preview_bulk_create :: "env \<Rightarrow> db \<Rightarrow> current_user \<Rightarrow> cohort \<Rightarrow> person_plan list result" where
  "preview_bulk_create e d u c = bindE (require_roles [hr] u) (\<lambda>_. Inr (plan e d c))"

definition cohort_json :: "cohort \<Rightarrow> json" where
  "cohort_json c = JObj (
     (case co_org_unit c of None \<Rightarrow> [] | Some s \<Rightarrow> [(''org_unit'', JText s)]) @
     (case co_only_managers c of None \<Rightarrow> [] | Some b \<Rightarrow> [(''only_managers'', JBool b)]) @
     (case co_ends_before c of None \<Rightarrow> [] | Some t \<Rightarrow> [(''contract_ends_before'', JStr (iso_date t))]))"

text \<open>Who got how many cases: one notice per assignee, not one per case.\<close>

definition assignee_counts :: "person_plan list \<Rightarrow> (int \<times> nat) list" where
  "assignee_counts qs =
     (let ks = concat (map (\<lambda>q. if bp_outcome q = BulkCreated \<and> bp_assignee q \<noteq> Some 0
                              then opt_list (bp_assignee q) else []) qs)
      in map (\<lambda>k. (k, length (filter (\<lambda>j. j = k) ks))) (rev (remdups (rev ks))))"

definition run_bulk_create :: "env \<Rightarrow> current_user \<Rightarrow> cohort \<Rightarrow> db \<Rightarrow> (person_plan list \<times> db) result" where
  "run_bulk_create e u c d =
     bindE (require_roles [hr] u) (\<lambda>_.
       let (qs, d1) = execute e c d;
           d2 = log_event e (cu_id u) ''evaluations_bulk_created'' None None
             (Some (JObj [(''cohort'', cohort_json c),
                (''counts'', JObj (map (\<lambda>(v, n). (v, JInt (int n))) (summarise qs)))])) d1;
           d3 = fold (\<lambda>(k, n) d. notify e [k] ''bulk_evaluations_assigned''
                  (int_text (int n) @ lit '' new evaluations are waiting for your scores'') None (Some ''/'') d)
                (assignee_counts qs) d2
       in Inr (qs, d3))"

section \<open>Opening one case\<close>

lemma code_fields [simp]:
  "records (snd (next_evaluation_code d)) = records d" "static (snd (next_evaluation_code d)) = static d"
  "frameworks (snd (next_evaluation_code d)) = frameworks d" "scores (snd (next_evaluation_code d)) = scores d"
  by (simp_all add: next_evaluation_code_def Let_def static_def)

lemma static_fields:
  assumes "static d' = static d"
  shows "users d' = users d" "personnels d' = personnels d" "accesses d' = accesses d" "periods d' = periods d"
    "schemes d' = schemes d" "indicators d' = indicators d" "assessments d' = assessments d"
  using assms by (simp_all add: static_def)

lemma static_reads:
  assumes "static d' = static d"
  shows "get_personnel d' = get_personnel d" "access_of d' = access_of d" "open_period d' = open_period d"
    "active_scheme d' = active_scheme d" "assessment_for_contract d' = assessment_for_contract d"
    "inactive_seat_labels d' = inactive_seat_labels d" "get_period d' = get_period d"
  using static_fields [OF assms]
  by (simp_all add: get_personnel_def access_of_def open_period_def active_scheme_def
      assessment_for_contract_def inactive_seat_labels_def get_user_def get_period_def fun_eq_iff
      cong: option.case_cong)

definition opening_row :: "env \<Rightarrow> int \<Rightarrow> person_plan \<Rightarrow> personnel \<Rightarrow> evaluation_access \<Rightarrow> db \<Rightarrow> evaluation_record" where
  "opening_row e fid q p a d =
     new_record e p a (if bp_manager_path q then None else ea_supervisor a) (fst (next_evaluation_code d))
       (bulk_framework d fid p) (snd (next_evaluation_code d))"

lemma execute_one_cases:
  obtains (kept) "execute_one e fid q d = (q, d)"
      "bp_outcome q \<noteq> BulkCreated \<or> get_personnel d (bp_personnel q) = None \<or> access_of d (bp_personnel q) = None"
  | (refused) r where "bp_outcome q = BulkCreated" "open_record_of d (bp_personnel q) = Some r"
      "execute_one e fid q d = (q\<lparr>bp_outcome := BlockedConflict\<rparr>, snd (next_evaluation_code d))"
  | (opened) p a r where "bp_outcome q = BulkCreated" "get_personnel d (bp_personnel q) = Some p"
      "access_of d (bp_personnel q) = Some a" "open_record_of d (bp_personnel q) = None"
      "r = opening_row e fid q p a d"
      "execute_one e fid q d = (q\<lparr>bp_evaluation := Some (er_id r), bp_code := Some (er_code r)\<rparr>,
         (snd (next_evaluation_code d))\<lparr>records := records d @ [r]\<rparr>)"
proof (cases "bp_outcome q = BulkCreated \<and> get_personnel d (bp_personnel q) \<noteq> None \<and>
    access_of d (bp_personnel q) \<noteq> None")
  case False
  then show ?thesis
    by (intro kept) (auto simp: execute_one_def split: option.split)
next
  case True
  then obtain p a where pa: "bp_outcome q = BulkCreated" "get_personnel d (bp_personnel q) = Some p"
    "access_of d (bp_personnel q) = Some a" by auto
  show ?thesis
  proof (cases "open_record_of d (bp_personnel q)")
    case None
    let ?r = "opening_row e fid q p a d"
    have fw: "bulk_framework (snd (next_evaluation_code d)) fid p = bulk_framework d fid p"
      by (simp add: bulk_framework_def static_reads [of "snd (next_evaluation_code d)" d])
    have "open_record_of (snd (next_evaluation_code d)) (bp_personnel q) = None"
      using None by (simp add: open_record_of_def)
    then show ?thesis
      using opened [OF pa None refl] pa None fw
      by (simp add: execute_one_def split_beta opening_row_def new_record_def Let_def)
  next
    case (Some r)
    then show ?thesis
      using refused pa by (simp add: execute_one_def split_beta Let_def open_record_of_def)
  qed
qed

lemma opening_row_fields [simp]:
  "er_subject (opening_row e fid q p a d) = p_id p" "er_status (opening_row e fid q p a d) = draft"
  "er_id (opening_row e fid q p a d) = tbl_next er_id (records d)"
  "er_deputy (opening_row e fid q p a d) = ea_deputy a" "er_ceo (opening_row e fid q p a d) = ea_ceo a"
  "er_supervisor (opening_row e fid q p a d) = (if bp_manager_path q then None else ea_supervisor a)"
  "er_framework (opening_row e fid q p a d) = Some (bulk_framework d fid p)"
  by (simp_all add: opening_row_def new_record_def)

lemma opening_row_period: "er_period (opening_row e fid q p a d) = map_option ep_id (open_period d)"
  using static_reads(3) [of "snd (next_evaluation_code d)" d] by (simp add: opening_row_def new_record_def)

section \<open>A batch keeps its preview\<close>

text \<open>\<open>opens\<close>: the case \<open>r\<close> is the one the plan \<open>q\<close> announces, whatever identifier and code it drew.\<close>

definition opens :: "env \<Rightarrow> int \<Rightarrow> db \<Rightarrow> person_plan \<Rightarrow> evaluation_record \<Rightarrow> bool" where
  "opens e fid d q r \<longleftrightarrow> (\<exists>p a. get_personnel d (bp_personnel q) = Some p \<and> access_of d (bp_personnel q) = Some a \<and>
     r = (opening_row e fid q p a d)\<lparr>er_id := er_id r, er_code := er_code r\<rparr>)"

definition planned :: "db \<Rightarrow> person_plan \<Rightarrow> bool" where
  "planned d q \<longleftrightarrow> (\<exists>p. get_personnel d (bp_personnel q) = Some p \<and>
     q = plan_one d p (access_of d (bp_personnel q)) (open_record_of d (bp_personnel q)))"

lemma plan_one_person [simp]: "bp_personnel (plan_one d p a x) = p_id p"
  by (auto simp: plan_one_def Let_def split: option.split)

lemma plan_one_created:
  "bp_outcome (plan_one d p acc x) = BulkCreated \<longleftrightarrow> x = None \<and> p_status p = p_active \<and>
     (\<exists>a. acc = Some a \<and> inactive_seat_labels d a = [] \<and>
       (p_is_manager p \<or> ea_supervisor a \<noteq> None \<or> ea_deputy a = None))"
  by (auto simp: plan_one_def Let_def split: option.split)

lemma planned_created:
  assumes "planned d q" and "bp_outcome q = BulkCreated"
  obtains p a where "get_personnel d (bp_personnel q) = Some p" and "access_of d (bp_personnel q) = Some a"
    and "open_record_of d (bp_personnel q) = None"
  using assms unfolding planned_def by (metis plan_one_created)

lemma opens_cong:
  assumes st: "static d1 = static d"
  shows "opens e fid d1 q r \<longleftrightarrow> opens e fid d q r"
proof -
  have st2: "static (snd (next_evaluation_code d1)) = static (snd (next_evaluation_code d))" using st by simp
  have "bulk_framework d1 fid p = bulk_framework d fid p" for p
    using static_reads(5) [OF st] by (simp add: bulk_framework_def)
  then have "(opening_row e fid q p a d1)\<lparr>er_id := i, er_code := c\<rparr> =
      (opening_row e fid q p a d)\<lparr>er_id := i, er_code := c\<rparr>" for p a i c
    using static_reads(3,4) [OF st2] by (simp add: opening_row_def new_record_def)
  then show ?thesis using static_reads(1,2) [OF st] by (simp add: opens_def)
qed

lemma plan_one_cong: "static d1 = static d \<Longrightarrow> plan_one d1 p x y = plan_one d p x y"
  unfolding plan_one_def by (drule static_reads(6)) (erule ssubst, rule refl)

lemma planned_cong:
  assumes "static d1 = static d" and "open_record_of d1 (bp_personnel q) = open_record_of d (bp_personnel q)"
  shows "planned d1 q \<longleftrightarrow> planned d q"
  using static_reads(1,2) [OF assms(1)] plan_one_cong [OF assms(1)] assms(2) by (simp add: planned_def)

text \<open>What the execution reports about one plan, seen from the session it leaves.\<close>

definition carried_out :: "env \<Rightarrow> int \<Rightarrow> db \<Rightarrow> db \<Rightarrow> person_plan \<Rightarrow> person_plan \<Rightarrow> bool" where
  "carried_out e fid d d' q q' \<longleftrightarrow>
     (if bp_outcome q = BulkCreated
      then \<exists>r. open_record_of d (bp_personnel q) = None \<and> open_record_of d' (bp_personnel q) = Some r \<and>
        opens e fid d q r \<and> q' = q\<lparr>bp_evaluation := Some (er_id r), bp_code := Some (er_code r)\<rparr>
      else q' = q \<and> open_record_of d' (bp_personnel q) = open_record_of d (bp_personnel q))"

definition created_ids :: "person_plan list \<Rightarrow> int list" where
  "created_ids qs = map bp_personnel (filter (\<lambda>q. bp_outcome q = BulkCreated) qs)"

lemma open_record_append:
  assumes "records d' = records d @ [r]" and "is_open r"
  shows "open_record_of d' k = (case open_record_of d k of Some x \<Rightarrow> Some x
     | None \<Rightarrow> if er_subject r = k then Some r else None)"
proof -
  have "find P (xs @ [y]) = (case find P xs of Some x \<Rightarrow> Some x | None \<Rightarrow> if P y then Some y else None)"
    for P and xs :: "evaluation_record list" and y
    by (induction xs) auto
  then show ?thesis using assms by (simp add: open_record_of_def split: option.split)
qed

lemma open_record_code [simp]: "open_record_of (snd (next_evaluation_code d)) k = open_record_of d k"
  by (simp add: open_record_of_def)

lemma execute_planned_one:
  assumes q: "planned d q" and run: "execute_one e fid q d = (q', d')"
  shows "static d' = static d" and "carried_out e fid d d' q q'"
    and "\<And>k. k \<noteq> bp_personnel q \<or> bp_outcome q \<noteq> BulkCreated \<Longrightarrow> open_record_of d' k = open_record_of d k"
proof -
  have "static d' = static d \<and> carried_out e fid d d' q q' \<and>
    (\<forall>k. k \<noteq> bp_personnel q \<or> bp_outcome q \<noteq> BulkCreated \<longrightarrow> open_record_of d' k = open_record_of d k)"
  proof (cases rule: execute_one_cases [of e fid q d])
    case kept
    then have "bp_outcome q \<noteq> BulkCreated" by (metis q planned_created option.distinct(1))
    then show ?thesis using kept run by (simp add: carried_out_def)
  next
    case (refused r)
    then show ?thesis by (metis q planned_created option.distinct(1))
  next
    case (opened p a r)
    have p: "p_id p = bp_personnel q" by (rule personnel_st.row_key [OF opened(2)])
    have d': "d' = (snd (next_evaluation_code d))\<lparr>records := records d @ [r]\<rparr>"
      "q' = q\<lparr>bp_evaluation := Some (er_id r), bp_code := Some (er_code r)\<rparr>"
      using opened(6) run by simp_all
    have rec: "open_record_of d' k = (case open_record_of d k of Some x \<Rightarrow> Some x
        | None \<Rightarrow> if er_subject r = k then Some r else None)" for k
      by (rule open_record_append) (simp_all add: d' opened(5) is_open_iff)
    have "static d' = static d" by (simp add: d' static_def next_evaluation_code_def Let_def)
    moreover have "opens e fid d q r"
      unfolding opens_def
      by (rule exI [of _ p], rule exI [of _ a]) (simp add: opened)
    ultimately show ?thesis
      using rec opened(1,4) p d'(2)
      by (auto simp: carried_out_def opened(5) split: option.split)
  qed
  then show "static d' = static d" and "carried_out e fid d d' q q'"
    and "\<And>k. k \<noteq> bp_personnel q \<or> bp_outcome q \<noteq> BulkCreated \<Longrightarrow> open_record_of d' k = open_record_of d k"
    by auto
qed

lemma execute_planned:
  assumes "\<forall>q\<in>set qs. planned d q" and "distinct (map bp_personnel qs)" and "execute_all e fid qs d = (qs', d')"
  shows "static d' = static d \<and> list_all2 (carried_out e fid d d') qs qs' \<and>
    (\<forall>k. k \<notin> set (created_ids qs) \<longrightarrow> open_record_of d' k = open_record_of d k)"
  using assms
proof (induction qs arbitrary: d qs')
  case Nil
  then show ?case by (simp add: created_ids_def)
next
  case (Cons q qs)
  obtain q1 d1 where one: "execute_one e fid q d = (q1, d1)" by fastforce
  obtain qs1 where rest: "execute_all e fid qs d1 = (qs1, d')" and qs': "qs' = q1 # qs1"
    using Cons.prems(3) one by (auto split: prod.splits)
  have q: "planned d q" using Cons.prems(1) by simp
  note s1 = execute_planned_one [OF q one]
  have other: "open_record_of d1 (bp_personnel x) = open_record_of d (bp_personnel x)" if "x \<in> set qs" for x
    using that Cons.prems(2) by (intro s1(3)) (metis image_eqI list.simps(9) distinct.simps(2) set_map)
  then have "\<forall>x\<in>set qs. planned d1 x"
    using Cons.prems(1) planned_cong [OF s1(1)] by simp
  with Cons.IH [OF _ _ rest] Cons.prems(2)
  have s2: "static d' = static d1" "list_all2 (carried_out e fid d1 d') qs qs1"
    "\<And>k. k \<notin> set (created_ids qs) \<Longrightarrow> open_record_of d' k = open_record_of d1 k" by auto
  have "list_all2 (carried_out e fid d d') qs qs1"
    by (rule list.rel_mono_strong [OF s2(2)])
      (use other in \<open>auto simp: carried_out_def opens_cong [OF s1(1)]\<close>)
  moreover have "bp_personnel q \<notin> set (created_ids qs)"
    using Cons.prems(2) by (auto simp: created_ids_def)
  then have "carried_out e fid d d' q q1"
    using s1(2) s2(3) [of "bp_personnel q"] by (auto simp: carried_out_def split: if_splits)
  moreover have "open_record_of d' k = open_record_of d k" if "k \<notin> set (created_ids (q # qs))" for k
    using that s2(3) [of k] s1(3) [of k] by (auto simp: created_ids_def split: if_splits)
  ultimately show ?case using s1(1) s2(1) qs' by simp
qed

text \<open>The execution is the plan, with the identifiers of the new cases filled in.\<close>

definition people_ok :: "db \<Rightarrow> bool" where
  "people_ok d \<longleftrightarrow> tbl_ok p_id (personnels d)"

lemma load_cohort_people:
  assumes "arranges e" and "people_ok d"
  shows "distinct (map p_id (load_cohort e d c))"
    and "p \<in> set (load_cohort e d c) \<Longrightarrow> get_personnel d (p_id p) = Some p"
proof -
  have all: "distinct (map p_id (personnels d))" using assms(2) by (simp add: people_ok_def tbl_ok_def)
  then have inj: "inj_on p_id (set (personnels d))" and dist: "distinct (personnels d)"
    by (simp_all add: distinct_map)
  have sub: "set (load_cohort e d c) \<subseteq> set (personnels d)"
    using assms(1) by (auto simp: load_cohort_def arranges_def)
  have "distinct (load_cohort e d c)" using assms(1) dist by (simp add: load_cohort_def arranges_def)
  then show "distinct (map p_id (load_cohort e d c))"
    using inj_on_subset [OF inj sub] by (simp add: distinct_map)
  show "p \<in> set (load_cohort e d c) \<Longrightarrow> get_personnel d (p_id p) = Some p"
    using sub assms(2) unfolding get_personnel_def people_ok_def by (intro tbl_get_in) auto
qed

lemma plan_planned:
  assumes "arranges e" and "people_ok d"
  shows "\<forall>q\<in>set (plan e d c). planned d q" and "distinct (map bp_personnel (plan e d c))"
  using load_cohort_people [OF assms] by (auto simp: plan_def planned_def comp_def)

lemma ensure_framework_effect:
  assumes "ensure_framework d = (f, d1)"
  shows "static d1 = static d" and "records d1 = records d" and "scores d1 = scores d"
  using assms by (auto simp: ensure_framework_def bump_def Let_def static_def split: option.splits if_splits)

lemma execute_Inr:
  assumes e: "arranges e" and ok: "people_ok d" and run: "execute e c d = (qs, d')"
  shows "static d' = static d"
    and "list_all2 (carried_out e (if_id (fst (ensure_framework d))) d d') (plan e d c) qs"
    and "k \<notin> set (created_ids (plan e d c)) \<Longrightarrow> open_record_of d' k = open_record_of d k"
proof -
  obtain f d1 where f: "ensure_framework d = (f, d1)" by fastforce
  note eff = ensure_framework_effect [OF f]
  have rec: "open_record_of d1 = open_record_of d" using eff(2) by (simp add: open_record_of_def fun_eq_iff)
  then have "\<forall>q\<in>set (plan e d c). planned d1 q"
    using plan_planned [OF e ok] planned_cong [OF eff(1)] by simp
  from execute_planned [OF this plan_planned(2) [OF e ok]] run f
  have *: "static d' = static d1" "list_all2 (carried_out e (if_id f) d1 d') (plan e d c) qs"
    "\<forall>k. k \<notin> set (created_ids (plan e d c)) \<longrightarrow> open_record_of d' k = open_record_of d1 k"
    by (auto simp: execute_def split_beta)
  have "carried_out e (if_id f) d1 d' = carried_out e (if_id f) d d'"
    by (simp add: carried_out_def fun_eq_iff rec opens_cong [OF eff(1)])
  then show "static d' = static d"
    and "list_all2 (carried_out e (if_id (fst (ensure_framework d))) d d') (plan e d c) qs"
    and "k \<notin> set (created_ids (plan e d c)) \<Longrightarrow> open_record_of d' k = open_record_of d k"
    using * eff(1) rec f by simp_all
qed

text \<open>The report and the notices of the request touch neither cases nor people.\<close>

lemma bulk_Inr:
  assumes run: "run_bulk_create e u c d = Inr (qs, d')"
  shows "cu_role u = hr" and "\<exists>d1. execute e c d = (qs, d1) \<and> records d' = records d1 \<and> static d' = static d1"
proof -
  show "cu_role u = hr" using run by (auto simp: run_bulk_create_def bindE_Inr_iff guard_simps)
  obtain qs1 d1 where "execute e c d = (qs1, d1)" by fastforce
  then have ex: "execute e c d = (qs, d1)"
    using run by (auto simp: run_bulk_create_def bindE_Inr_iff Let_def)
  let ?d2 = "log_event e (cu_id u) ''evaluations_bulk_created'' None None
    (Some (JObj [(''cohort'', cohort_json c),
       (''counts'', JObj (map (\<lambda>(v, n). (v, JInt (int n))) (summarise qs)))])) d1"
  have d': "d' = fold (\<lambda>(k, n) d. notify e [k] ''bulk_evaluations_assigned''
        (int_text (int n) @ lit '' new evaluations are waiting for your scores'') None (Some ''/'') d)
      (assignee_counts qs) ?d2"
    using run by (auto simp: run_bulk_create_def ex bindE_Inr_iff Let_def)
  have "records d' = records d1 \<and> static d' = static d1"
    unfolding d'
    by (rule fold_invariant_list [where P = "\<lambda>z. records z = records d1 \<and> static z = static d1"])
      (simp_all add: split_beta frame_simps static_def)
  then show "\<exists>d1. execute e c d = (qs, d1) \<and> records d' = records d1 \<and> static d' = static d1"
    using ex by blast
qed

text \<open>Planning the same cohort again finds every created case as one that is already open.\<close>

definition settled :: "person_plan \<Rightarrow> person_plan" where
  "settled q = (if bp_outcome q = BulkCreated
     then q\<lparr>bp_outcome := SkippedAlreadyOpen, bp_assignee := None, bp_manager_path := False\<rparr> else q)"

lemma plan_again:
  assumes "arranges e" and "people_ok d" and run: "run_bulk_create e u c d = Inr (qs, d')"
  shows "plan e d' c = map settled qs"
proof -
  obtain d1 where ex: "execute e c d = (qs, d1)" and recs: "records d' = records d1" "static d' = static d1"
    using bulk_Inr(2) [OF run] by blast
  note eff = execute_Inr [OF assms(1,2) ex]
  have st: "static d' = static d" using eff(1) recs by simp
  have same: "load_cohort e d' c = load_cohort e d c"
    using static_fields(2) [OF st] by (simp add: load_cohort_def)
  have open_eq: "open_record_of d' = open_record_of d1" by (simp add: open_record_of_def recs fun_eq_iff)
  have one: "plan_one d' p (access_of d' (p_id p)) (open_record_of d' (p_id p)) = settled q'"
    if out: "carried_out e fid d d1 (plan_one d p (access_of d (p_id p)) (open_record_of d (p_id p))) q'"
    for p q' fid
  proof (cases "bp_outcome (plan_one d p (access_of d (p_id p)) (open_record_of d (p_id p))) = BulkCreated")
    case True
    then obtain r where "open_record_of d1 (p_id p) = Some r"
      and q': "q' = (plan_one d p (access_of d (p_id p)) (open_record_of d (p_id p)))
        \<lparr>bp_evaluation := Some (er_id r), bp_code := Some (er_code r)\<rparr>"
      using out unfolding carried_out_def plan_one_person by auto
    then have "plan_one d' p (access_of d' (p_id p)) (open_record_of d' (p_id p)) =
        \<lparr>bp_personnel = p_id p, bp_outcome = SkippedAlreadyOpen, bp_evaluation = Some (er_id r),
         bp_code = Some (er_code r), bp_assignee = None, bp_manager_path = False\<rparr>"
      by (simp add: plan_one_def open_eq)
    then show ?thesis
      using True by (intro person_plan.equality) (simp_all add: settled_def q')
  next
    case False
    then show ?thesis
      using out static_reads(2) [OF st] plan_one_cong [OF st] by (simp add: carried_out_def settled_def open_eq)
  qed
  have "list_all2 (\<lambda>p q'. plan_one d' p (access_of d' (p_id p)) (open_record_of d' (p_id p)) = settled q')
      (load_cohort e d c) qs"
    using eff(2) unfolding plan_def list_all2_map1 by (rule list_all2_mono) (rule one)
  then show ?thesis
    by (simp add: plan_def same list_all2_conv_all_nth list_eq_iff_nth_eq)
qed

section \<open>The planning requests\<close>

datatype period_request =
    CreatePeriod period_input
  | UpdatePeriod int period_patch
  | DeletePeriod int
  | ClosePeriod int bool
  | BulkCreate cohort

fun handle_period :: "env \<Rightarrow> current_user \<Rightarrow> period_request \<Rightarrow> db \<Rightarrow> db result" where
  "handle_period e u (CreatePeriod q) d = bindE (create_period e u q d) (\<lambda>s. Inr (snd s))"
| "handle_period e u (UpdatePeriod k q) d = update_period e u k q d"
| "handle_period e u (DeletePeriod k) d = delete_period e u k d"
| "handle_period e u (ClosePeriod k force) d = close_period e u k force d"
| "handle_period e u (BulkCreate c) d = bindE (run_bulk_create e u c d) (\<lambda>s. Inr (snd s))"

text \<open>The requests of both routers, in any order.\<close>

definition serve_planning :: "env \<Rightarrow> current_user \<times> (period_request + request) \<Rightarrow> db \<Rightarrow> db" where
  "serve_planning e c d = (case snd c of
     Inl q \<Rightarrow> committed d (handle_period e (fst c) q d) | Inr q \<Rightarrow> serve e (fst c, q) d)"

section \<open>Well-formed periods\<close>

definition open_periods :: "db \<Rightarrow> evaluation_period list" where
  "open_periods d = filter (\<lambda>p. ep_status p = period_open) (periods d)"

definition periods_ok :: "db \<Rightarrow> bool" where
  "periods_ok d \<longleftrightarrow> tbl_ok ep_id (periods d) \<and> length (open_periods d) \<le> 1 \<and>
     (\<forall>p\<in>set (periods d). ep_starts_on p < ep_ends_on p) \<and>
     (\<forall>r\<in>set (records d). \<forall>k. er_period r = Some k \<longrightarrow> get_period d k \<noteq> None)"

text \<open>The foreign key of the self-assessments to the question lists.\<close>

definition assessment_fk :: "db \<Rightarrow> bool" where
  "assessment_fk d \<longleftrightarrow> (\<forall>a\<in>set (assessments d). get_framework d (ca_framework a) \<noteq> None)"

definition planning_ok :: "env \<Rightarrow> db \<Rightarrow> bool" where
  "planning_ok e d \<longleftrightarrow> results_ok e d \<and> assessment_fk d \<and> periods_ok d"

text \<open>What the requests on periods leave alone.\<close>

definition cases_view where
  "cases_view d = (records d, scores d, users d, accesses d, frameworks d, indicators d, schemes d, assessments d)"

lemma results_ok_cong:
  assumes "cases_view d' = cases_view d"
  shows "results_ok e d' = results_ok e d" "assessment_fk d' = assessment_fk d"
proof -
  have eq: "records d' = records d" "scores d' = scores d" "users d' = users d" "accesses d' = accesses d"
    "frameworks d' = frameworks d" "indicators d' = indicators d" "schemes d' = schemes d"
    "assessments d' = assessments d"
    using assms by (simp_all add: cases_view_def)
  have "own_evaluator d' = own_evaluator d" by (simp add: own_evaluator_def eq fun_eq_iff)
  then have cases: "cases_ok d' = cases_ok d"
    by (simp add: cases_ok_def one_open_def case_ok_def eq)
  have fw: "get_framework d' = get_framework d" by (simp add: get_framework_def eq fun_eq_iff)
  have "result_matches e d' = result_matches e d" by (rule result_matches_same) (simp_all add: eq)
  then show "results_ok e d' = results_ok e d" by (simp add: results_ok_def cases framework_fk_def fw eq)
  show "assessment_fk d' = assessment_fk d" by (simp add: assessment_fk_def fw eq)
qed

lemma cases_view_frames [frame_simps]:
  "cases_view (log_event e u t k x y d) = cases_view d" "cases_view (notify e us ty m k l d) = cases_view d"
  "cases_view (upd_period i f d) = cases_view d" "cases_view (d\<lparr>periods := ps\<rparr>) = cases_view d"
  by (simp_all add: cases_view_def upd_period_def frame_simps)

lemma period_frames [frame_simps]:
  "periods (upd_period k f d) = tbl_upd ep_id k f (periods d)" "records (upd_period k f d) = records d"
  by (simp_all add: upd_period_def)

lemma periods_ok_frames [frame_simps]:
  "periods_ok (log_event e u t k x y d) = periods_ok d" "periods_ok (notify e us ty m k l d) = periods_ok d"
  by (simp_all add: periods_ok_def open_periods_def get_period_def frame_simps)

lemma open_period_None: "open_period d = None \<longleftrightarrow> open_periods d = []"
  by (auto simp: open_period_def open_periods_def find_None_iff filter_empty_conv)

lemma create_period_ok:
  assumes ok: "periods_ok d" and q: "period_input_ok q" and no: "open_period d = None"
    and p: "ep_id p = tbl_next ep_id (periods d)" "ep_starts_on p = pi_starts q" "ep_ends_on p = pi_ends q"
  shows "periods_ok (d\<lparr>periods := periods d @ [p]\<rparr>)"
  using ok q no p tbl_ok_insert [of ep_id "periods d" p]
  by (auto simp: periods_ok_def open_periods_def period_input_ok_def open_period_None get_period_def
      tbl_get_append split: option.splits)

lemma upd_period_ok:
  assumes ok: "periods_ok d" and p: "get_period d k = Some p"
    and f: "\<And>x. ep_id (f x) = ep_id x" "ep_starts_on (f p) < ep_ends_on (f p)"
      "\<And>x. ep_status (f x) = period_open \<Longrightarrow> ep_status x = period_open"
  shows "periods_ok (upd_period k f d)"
proof -
  have only: "x = p" if "x \<in> set (periods d)" "ep_id x = k" for x
    using that p ok tbl_get_in [of ep_id "periods d" x] by (simp add: periods_ok_def get_period_def)
  have len: "length (filter (\<lambda>p. ep_status p = period_open) (map g ps)) \<le>
      length (filter (\<lambda>p. ep_status p = period_open) ps)"
    if "\<And>x. ep_status (g x) = period_open \<Longrightarrow> ep_status x = period_open" for g ps
    using that by (induction ps) (auto simp: le_SucI)
  have "length (open_periods (upd_period k f d)) \<le> length (open_periods d)"
  proof -
    have "ep_status x = period_open"
      if "ep_status (if ep_id x = k then f x else x) = period_open" for x
      using that f(3) [of x] by (cases "ep_id x = k") simp_all
    then have "length (filter (\<lambda>p. ep_status p = period_open)
        (map (\<lambda>r. if ep_id r = k then f r else r) (periods d)))
      \<le> length (filter (\<lambda>p. ep_status p = period_open) (periods d))" by (rule len)
    then show ?thesis by (simp add: open_periods_def upd_period_def tbl_upd_def)
  qed
  moreover have "get_period (upd_period k f d) j \<noteq> None" if "get_period d j \<noteq> None" for j
    using that f(1) by (auto simp: get_period_def upd_period_def tbl_get_upd)
  ultimately show ?thesis
    using ok f(1,2) only
    by (auto simp: periods_ok_def frame_simps tbl_ok_upd set_tbl_upd)
qed

lemma length_filter_conj: "length (filter (\<lambda>x. P x \<and> Q x) xs) \<le> length (filter Q xs)"
  by (induction xs) auto

lemma drop_period_ok:
  assumes ok: "periods_ok d" and no: "period_records d k = []"
  shows "periods_ok (d\<lparr>periods := filter (\<lambda>p. ep_id p \<noteq> k) (periods d)\<rparr>)"
proof -
  have "tbl_ok ep_id (filter (\<lambda>p. ep_id p \<noteq> k) (periods d))"
    using ok by (auto simp: periods_ok_def tbl_ok_def distinct_map_filter)
  moreover have "length (filter (\<lambda>p. ep_status p = period_open) (filter (\<lambda>p. ep_id p \<noteq> k) (periods d)))
      \<le> length (open_periods d)"
    unfolding open_periods_def filter_filter by (rule length_filter_conj)
  moreover have "er_period r \<noteq> Some k" if "r \<in> set (records d)" for r
    using no that by (auto simp: period_records_def filter_empty_conv)
  moreover have "tbl_get ep_id (filter (\<lambda>p. ep_id p \<noteq> k) (periods d)) j = tbl_get ep_id (periods d) j"
    if "j \<noteq> k" for j
    using that by (rule tbl_get_filter)
  ultimately show ?thesis
    using ok by (fastforce simp: periods_ok_def open_periods_def get_period_def)
qed

section \<open>Every planning request keeps the invariant\<close>

lemma period_requests_keep:
  assumes ok: "planning_ok e d" and run: "handle_period e u q d = Inr d'" and q: "\<And>c. q \<noteq> BulkCreate c"
  shows "planning_ok e d'"
proof -
  have "cases_view d' = cases_view d \<and> periods_ok d'"
  proof (cases q)
    case (CreatePeriod x)
    then show ?thesis
      using run ok by (auto simp: create_period_def bindE_Inr_iff Let_def frame_simps planning_ok_def
          intro!: create_period_ok split: if_splits)
  next
    case (UpdatePeriod k x)
    then obtain p y z where p: "get_period d k = Some p" and
      ends: "ep_starts_on (patch_period x p) < ep_ends_on (patch_period x p)"
      and d': "d' = log_event e (cu_id u) ''period_updated'' None y z (upd_period k (patch_period x) d)"
      using run by (auto simp: update_period_def get_period_or_404_def bindE_Inr_iff split: option.splits if_splits)
    have "periods_ok (upd_period k (patch_period x) d)"
      using ok ends by (intro upd_period_ok [OF _ p]) (simp_all add: planning_ok_def patch_period_def)
    then show ?thesis by (simp add: d' frame_simps)
  next
    case (DeletePeriod k)
    then show ?thesis
      using run ok drop_period_ok
      by (auto simp: delete_period_def get_period_or_404_def bindE_Inr_iff frame_simps planning_ok_def
          split: option.splits if_splits)
  next
    case (ClosePeriod k force)
    then obtain p z where p: "get_period d k = Some p"
      and d': "d' = log_event e (cu_id u) ''period_closed'' None None z
        (upd_period k (\<lambda>p. p\<lparr>ep_status := period_closed, ep_closed_at := Some (now e)\<rparr>) d)"
      using run by (auto simp: close_period_def get_period_or_404_def bindE_Inr_iff Let_def
          split: option.splits if_splits)
    have "p \<in> set (periods d)" using p tbl_get_Some_set by (fastforce simp: get_period_def)
    then have "ep_starts_on p < ep_ends_on p" using ok by (simp add: planning_ok_def periods_ok_def)
    then have "periods_ok (upd_period k (\<lambda>p. p\<lparr>ep_status := period_closed, ep_closed_at := Some (now e)\<rparr>) d)"
      using ok by (intro upd_period_ok [OF _ p]) (simp_all add: planning_ok_def)
    then show ?thesis by (simp add: d' frame_simps)
  next
    case (BulkCreate c)
    then show ?thesis using q by blast
  qed
  then show ?thesis
    using ok results_ok_cong [of d' d] by (simp add: planning_ok_def)
qed

text \<open>A case appended with the identifier of the open period and a question list that exists.\<close>

lemma append_planning_ok:
  assumes ok: "planning_ok e d" and cases: "cases_ok d'" and recs: "records d' = records d @ [r]"
    and st: "static d' = static d" and sc: "scores d' = scores d" and gs: "frameworks d' = frameworks d @ gs"
    and r: "er_status r = draft" and fk: "\<forall>j. er_framework r = Some j \<longrightarrow> get_framework d' j \<noteq> None"
    and p: "er_period r = map_option ep_id (open_period d)"
  shows "planning_ok e d'"
proof -
  have "results_ok e d'"
    by (rule append_results_ok [OF _ cases recs st sc gs r fk]) (use ok in \<open>simp add: planning_ok_def\<close>)
  moreover have "assessment_fk d'"
    using ok get_framework_append [OF _ gs] static_fields(7) [OF st]
    by (fastforce simp: planning_ok_def assessment_fk_def)
  moreover have "periods_ok d'"
    unfolding periods_ok_def
  proof (intro conjI ballI allI impI)
    fix s k assume s: "s \<in> set (records d')" and k: "er_period s = Some k"
    show "get_period d' k \<noteq> None"
    proof (cases "s = r")
      case True
      then obtain x where "find (\<lambda>p. ep_status p = period_open) (periods d) = Some x" "ep_id x = k"
        using k p by (auto simp: open_period_def)
      then have "x \<in> set (periods d)" "ep_id x = k" by (auto simp: find_Some_iff)
      then show ?thesis using static_fields(4) [OF st] by (auto simp: get_period_def tbl_get_None)
    qed (use s k ok static_reads(7) [OF st] in \<open>auto simp: recs planning_ok_def periods_ok_def\<close>)
  qed (use ok static_fields(4) [OF st] in \<open>auto simp: planning_ok_def periods_ok_def open_periods_def\<close>)
  ultimately show ?thesis by (simp add: planning_ok_def)
qed

lemma execute_one_ok:
  assumes ok: "planning_ok e d" and fid: "get_framework d fid \<noteq> None" and run: "execute_one e fid q d = (q', d')"
  shows "planning_ok e d' \<and> get_framework d' fid \<noteq> None"
proof (cases rule: execute_one_cases [of e fid q d])
  case kept
  then show ?thesis using ok fid run by simp
next
  case (refused r)
  let ?d = "snd (next_evaluation_code d)"
  have "cases_view ?d = cases_view d" "periods_ok ?d = periods_ok d" "get_framework ?d fid = get_framework d fid"
    using static_fields [of ?d d]
    by (simp_all add: cases_view_def periods_ok_def open_periods_def get_period_def get_framework_def)
  then show ?thesis
    using ok fid run refused(3) results_ok_cong [of ?d d] by (simp add: planning_ok_def)
next
  case (opened p a r)
  have d': "d' = (snd (next_evaluation_code d))\<lparr>records := records d @ [r]\<rparr>" using opened(6) run by simp
  have st: "static d' = static d" and fs: "frameworks d' = frameworks d" and sc: "scores d' = scores d"
    by (simp_all add: d' static_def next_evaluation_code_def Let_def)
  have p: "p_id p = bp_personnel q" by (rule personnel_st.row_key [OF opened(2)])
  have "get_framework d (bulk_framework d fid p) \<noteq> None"
    using ok fid
    by (auto simp: bulk_framework_def planning_ok_def assessment_fk_def assessment_for_contract_def
        find_Some_iff split: option.splits)
  then have fw: "get_framework d' (bulk_framework d fid p) \<noteq> None" by (simp add: get_framework_def fs)
  have "cases_ok d'"
  proof (rule append_case_ok)
    show "cases_ok d" using ok by (simp add: planning_ok_def results_ok_def)
    show "records d' = records d @ [r]" by (simp add: d')
    show "a \<in> set (accesses d)" "er_subject r = ea_personnel a"
      using access_of_Some [OF opened(3)] p by (simp_all add: opened(5))
    then show "open_record_of d (ea_personnel a) = None" using opened(4,5) p by simp
  qed (simp_all add: st opened(5))
  moreover have "er_status r = draft" "\<forall>j. er_framework r = Some j \<longrightarrow> get_framework d' j \<noteq> None"
    "er_period r = map_option ep_id (open_period d)"
    using fw by (simp_all add: opened(5) opening_row_period)
  moreover have "records d' = records d @ [r]" "frameworks d' = frameworks d @ []" by (simp_all add: d')
  ultimately have "planning_ok e d'"
    using append_planning_ok [OF ok _ _ st sc] by blast
  then show ?thesis using fid fs by (simp add: get_framework_def)
qed

lemma execute_all_ok:
  assumes "planning_ok e d" and "get_framework d fid \<noteq> None" and "execute_all e fid qs d = (qs', d')"
  shows "planning_ok e d'"
  using assms
proof (induction qs arbitrary: d qs')
  case (Cons q qs)
  obtain q1 d1 where one: "execute_one e fid q d = (q1, d1)" by fastforce
  then obtain qs1 where "execute_all e fid qs d1 = (qs1, d')"
    using Cons.prems(3) by (auto split: prod.splits)
  then show ?case using Cons.IH execute_one_ok [OF Cons.prems(1,2) one] by blast
qed simp

lemma ensure_framework_ok:
  assumes ok: "planning_ok e d" and f: "ensure_framework d = (f, d1)"
  shows "planning_ok e d1" and "get_framework d1 (if_id f) \<noteq> None"
proof -
  obtain gs where gs: "frameworks d1 = frameworks d @ gs" "f \<in> set (frameworks d1)"
    using ensure_framework_rows [OF f] by blast
  note eff = ensure_framework_effect [OF f]
  show "get_framework d1 (if_id f) \<noteq> None" by (rule framework_present [OF gs(2)])
  have "cases_ok d" using ok by (simp add: planning_ok_def results_ok_def)
  then have "cases_ok d1"
    unfolding cases_ok_def one_open_def case_ok_def static_own [OF eff(1)] static_fields(3) [OF eff(1)] eff(2) .
  moreover have "framework_fk d1 \<and> assessment_fk d1"
    using ok get_framework_append [OF _ gs(1)] eff(2) static_fields(7) [OF eff(1)]
    by (fastforce simp: planning_ok_def results_ok_def framework_fk_def assessment_fk_def)
  moreover have "result_matches e d1 s" if s: "s \<in> set (records d)" for s
  proof (cases "er_status s = draft \<or> er_status s = cancelled")
    case False
    have okr: "results_ok e d" using ok by (simp add: planning_ok_def)
    then have "result_matches e d s" using s by (simp add: results_ok_def)
    then show ?thesis
      using result_matches_cong [OF eff(1) gs(1) results_ok_fk [OF okr s], of s e] False eff(3)
      by (simp add: scores_of_def same_stamp_def same_result_def)
  qed (auto simp: result_matches_def)
  moreover have "periods_ok d1"
    using ok eff static_fields [OF eff(1)] by (simp add: planning_ok_def periods_ok_def open_periods_def get_period_def)
  ultimately show "planning_ok e d1"
    unfolding planning_ok_def results_ok_def eff(2) by blast
qed

lemma batch_keeps:
  assumes ok: "planning_ok e d" and run: "run_bulk_create e u c d = Inr (qs, d')"
  shows "planning_ok e d'"
proof -
  obtain f d1 where f: "ensure_framework d = (f, d1)" by fastforce
  obtain qs2 d2 where ex: "execute_all e (if_id f) (plan e d c) d1 = (qs2, d2)" by fastforce
  have d2: "planning_ok e d2"
    by (rule execute_all_ok [OF ensure_framework_ok [OF ok f] ex])
  have keep: "planning_ok e (notify e us ty m k l z) = planning_ok e z"
    "planning_ok e (log_event e i t j x y z) = planning_ok e z" for us ty m k l z i t j x y
    using results_ok_cong [of "notify e us ty m k l z" z] results_ok_cong [of "log_event e i t j x y z" z]
    by (simp_all add: planning_ok_def frame_simps)
  have ex2: "execute e c d = (qs2, d2)" using f ex by (simp add: execute_def)
  have "d' = fold (\<lambda>(k, n) d. notify e [k] ''bulk_evaluations_assigned''
        (int_text (int n) @ lit '' new evaluations are waiting for your scores'') None (Some ''/'') d)
      (assignee_counts qs2) (log_event e (cu_id u) ''evaluations_bulk_created'' None None
        (Some (JObj [(''cohort'', cohort_json c),
          (''counts'', JObj (map (\<lambda>(v, n). (v, JInt (int n))) (summarise qs2)))])) d2)"
    using run by (auto simp: run_bulk_create_def ex2 bindE_Inr_iff Let_def)
  then show ?thesis
    by (elim ssubst, intro fold_invariant_list [where P = "planning_ok e"]) (simp_all add: split_beta keep d2)
qed

section \<open>Interpretation\<close>

text \<open>The requests of the evaluations router keep it too: they write no period, and a new case takes the
  identifier of the open one.\<close>

lemma effect_planning_ok:
  assumes ok: "planning_ok e d" and res: "results_ok e d'" and eff: "effect e u d d'"
  shows "planning_ok e d'"
proof -
  obtain k r r' where r: "get_record d k = Some r" and row: "row_step d d' k r'"
    and step: "r' = r \<or> case_step e (may_sit d) u r r'"
    using eff by (auto simp: effect_def)
  have st: "static d' = static d" and fs: "frameworks d' = frameworks d" using row by (simp_all add: row_step_def)
  have stamp: "er_period r' = er_period r" using step step_stamp by (auto simp: same_stamp_def)
  have keys: "tbl_ok er_id (records d')" using res by (simp add: results_ok_def cases_ok_def)
  have "\<exists>x. er_period x = er_period s \<and> x \<in> set (records d)" if s: "s \<in> set (records d')" for s
  proof -
    have "get_record d' (er_id s) = Some s" using tbl_get_in [OF keys s] by (simp add: get_record_def)
    then have "s = r' \<or> get_record d (er_id s) = Some s" using row by (auto simp: row_step_def split: if_splits)
    moreover have in_d: "x \<in> set (records d)" if "get_record d j = Some x" for x j
      using that tbl_get_Some_set by (fastforce simp: get_record_def)
    ultimately show ?thesis using stamp in_d [OF r] by metis
  qed
  then have "\<forall>s\<in>set (records d'). \<forall>k. er_period s = Some k \<longrightarrow> get_period d k \<noteq> None"
    using ok unfolding planning_ok_def periods_ok_def by metis
  then have "periods_ok d'"
    using ok static_fields(4) [OF st] static_reads(7) [OF st]
    by (simp add: planning_ok_def periods_ok_def open_periods_def)
  moreover have "assessment_fk d'"
    using ok fs static_fields(7) [OF st] by (simp add: planning_ok_def assessment_fk_def get_framework_def)
  ultimately show ?thesis using res by (simp add: planning_ok_def)
qed

lemma create_planning_ok:
  assumes ok: "planning_ok e d" and run: "create_evaluation e u pid d = Inr (r, d')"
  shows "planning_ok e d'"
proof -
  obtain p a sv f d1 where f: "framework_for_new_case p d = (f, d1)"
    and r: "r = new_record e p a sv (fst (next_evaluation_code d1)) (if_id f) (snd (next_evaluation_code d1))"
    and recs: "records d' = records d @ [r]" and st: "static d' = static d"
    and fs: "frameworks d' = frameworks d1"
    by (rule create_Inr [OF run])
  obtain gs where gs: "frameworks d1 = frameworks d @ gs" "f \<in> set (frameworks d1)"
    using framework_for_new_case_rows [OF f] by blast
  have "static (snd (ensure_framework d)) = static d"
    using ensure_framework_effect(1) [of d] by (metis prod.collapse)
  then have st1: "static (snd (next_evaluation_code d1)) = static d"
    using f by (auto simp: framework_for_new_case_def prod_eq_iff split: option.splits)
  show ?thesis
  proof (rule append_planning_ok [OF ok _ recs st])
    show "cases_ok d'" using ok create_cases_ok [OF _ run] by (simp add: planning_ok_def results_ok_def)
    show "scores d' = scores d"
      by (rule handle_scores [of e u "CreateEvaluation pid"]) (use run in simp_all)
    show "frameworks d' = frameworks d @ gs" using fs gs(1) by simp
    show "er_status r = draft" by (simp add: r new_record_def)
    show "\<forall>j. er_framework r = Some j \<longrightarrow> get_framework d' j \<noteq> None"
      using framework_present [of f d'] gs(2) fs by (simp add: r new_record_def)
    show "er_period r = map_option ep_id (open_period d)"
      using static_reads(3) [OF st1] by (simp add: r new_record_def)
  qed
qed

lemma serve_planning_keeps: "planning_ok e d \<Longrightarrow> planning_ok e (serve_planning e c d)"
proof -
  assume ok: "planning_ok e d"
  obtain u q where c: "c = (u, q)" by fastforce
  show ?thesis
  proof (cases q)
    case (Inl x)
    show ?thesis
    proof (cases "handle_period e u x d")
      case (Inl y)
      then show ?thesis using ok \<open>q = Inl x\<close> by (simp add: serve_planning_def c)
    next
      case (Inr d')
      have "planning_ok e d'"
      proof (cases x)
        case (BulkCreate k)
        then obtain qs where "run_bulk_create e u k d = Inr (qs, d')"
          using Inr by (auto simp: bindE_Inr_iff)
        then show ?thesis by (rule batch_keeps [OF ok])
      qed (use period_requests_keep [OF ok Inr] in simp_all)
      then show ?thesis using Inr \<open>q = Inl x\<close> by (simp add: serve_planning_def c)
    qed
  next
    case (Inr x)
    have res: "results_ok e (serve e (u, x) d)" using ok serve_results_ok by (simp add: planning_ok_def)
    show ?thesis
    proof (cases "handle e u x d")
      case (Inl y)
      then show ?thesis using ok Inr by (simp add: serve_planning_def serve_def c)
    next
      case d': (Inr d')
      have "planning_ok e d'"
      proof (cases "is_create x")
        case True
        then obtain pid where "x = CreateEvaluation pid" by (cases x) simp_all
        then obtain r where "create_evaluation e u pid d = Inr (r, d')"
          using d' by (auto simp: bindE_Inr_iff)
        then show ?thesis by (rule create_planning_ok [OF ok])
      next
        case False
        then show ?thesis
          using effect_planning_ok [OF ok _ handle_effect [OF d']] res d' by (simp add: serve_def)
      qed
      then show ?thesis using d' Inr by (simp add: serve_planning_def serve_def c)
    qed
  qed
qed

interpretation planning_sys: invariant_system "serve_planning e" "planning_ok e" for e
  by unfold_locales (rule serve_planning_keeps)

end
