(* ===== verification/PeriodProperties.thy ===== *)
theory PeriodProperties
  imports Periods CaseProperties
begin

text \<open>The properties of the evaluation periods and of the opening of cases for a cohort.\<close>

definition demo_everyone :: cohort where
  "demo_everyone = \<lparr>co_org_unit = None, co_only_managers = None, co_ends_before = None\<rparr>"

lemma demo_people: "people_ok demo_db"
  by (simp add: people_ok_def tbl_ok_def demo_db_def demo_person_def)

lemma demo_cohort: "load_cohort demo_env demo_db demo_everyone = [demo_person 1]"
  by (simp add: load_cohort_def in_cohort_def demo_env_def demo_everyone_def demo_db_def empty_db_def)

lemma demo_planning: "planning_ok demo_env demo_db"
  using demo_db_cases
  by (simp add: planning_ok_def assessment_fk_def periods_ok_def open_periods_def tbl_ok_def demo_db_def empty_db_def)

section \<open>Properties\<close>

text \<open>C6. Whatever sequence of requests on periods, batches and cases is served, the periods stay well
  formed (unique, at most one open, each ending after it starts), every case refers to a period that
  exists, nobody has two open cases or a seat in the own chain, and every stored result is the result
  of the stored answers.\<close>

theorem planning_stays_well_formed:
  assumes "planning_ok e d"
  shows "planning_ok e (fold (serve_planning e) cs d)"
  by (rule planning_sys.run_inv [OF assms])

theorem planning_stays_well_formed_witness:
  "planning_ok demo_env (fold (serve_planning demo_env)
     [(demo_hr, Inl (BulkCreate demo_everyone)), (demo_supervisor, Inr (SubmitEvaluation 1)),
      (demo_hr, Inl (DeletePeriod 1))] demo_db)"
  by (rule planning_stays_well_formed [OF demo_planning])


lemma hr_requests: "cu_role demo_hr = hr"
  by (simp add: demo_hr_def)

lemma bulk_runs: "cu_role u = hr \<Longrightarrow> \<exists>qs d'. run_bulk_create e u c d = Inr (qs, d')"
  by (simp add: run_bulk_create_def require_roles_def Let_def split_beta)


lemma demo_seats_live: "inactive_seat_labels demo_db demo_access = []"
  by code_simp

lemma demo_access_of: "access_of demo_db 1 = Some demo_access" "open_record_of demo_db k = None"
  by (simp_all add: access_of_def open_record_of_def demo_db_def demo_access_def empty_db_def)

lemma demo_plan: "plan demo_env demo_db demo_everyone = [\<lparr>bp_personnel = 1, bp_outcome = BulkCreated,
    bp_evaluation = None, bp_code = None, bp_assignee = Some 2, bp_manager_path = False\<rparr>]"
proof -
  have "p_id (demo_person 1) = 1" "p_status (demo_person 1) = p_active" "\<not> p_is_manager (demo_person 1)"
    by (simp_all add: demo_person_def)
  moreover have "ea_supervisor demo_access = Some 2" by (simp add: demo_access_def)
  ultimately show ?thesis
    by (simp add: plan_def demo_cohort plan_one_def demo_access_of demo_seats_live)
qed


text \<open>A batch is idempotent: planning the same cohort again reports every case just created as
  already open, and running it again opens nothing.\<close>

theorem second_batch_opens_nothing:
  assumes "arranges e" and "people_ok d" and "run_bulk_create e u c d = Inr (qs, d')"
    and "cu_role v = hr"
  shows "preview_bulk_create e d' v c = Inr (map settled qs) \<and>
    (\<exists>d2. run_bulk_create e v c d' = Inr (map settled qs, d2) \<and> records d2 = records d')"
proof -
  have again: "plan e d' c = map settled qs" by (rule plan_again [OF assms(1-3)])
  have none: "bp_outcome (settled q) \<noteq> BulkCreated" for q by (simp add: settled_def)
  have idle: "execute_all e fid (map settled qs) z = (map settled qs, z)" for fid z
    by (induction qs) (simp_all add: execute_one_def none)
  obtain f d1 where f: "ensure_framework d' = (f, d1)" by fastforce
  then have ex: "execute e c d' = (map settled qs, d1)" by (simp add: execute_def again idle)
  obtain qs2 d2 where run: "run_bulk_create e v c d' = Inr (qs2, d2)"
    using assms(4) by (simp add: run_bulk_create_def require_roles_def Let_def split_beta)
  obtain d3 where "execute e c d' = (qs2, d3)" "records d2 = records d3" using bulk_Inr(2) [OF run] by blast
  then have "qs2 = map settled qs" "records d2 = records d'"
    using ex ensure_framework_effect(2) [OF f] by simp_all
  then show ?thesis
    using run assms(4) by (simp add: preview_bulk_create_def require_roles_def again)
qed

theorem second_batch_opens_nothing_witness:
  "\<exists>q d' d2. run_bulk_create demo_env demo_hr demo_everyone demo_db = Inr ([q], d') \<and>
     run_bulk_create demo_env demo_hr demo_everyone d' = Inr ([settled q], d2) \<and> records d2 = records d'"
proof -
  obtain qs d' where run: "run_bulk_create demo_env demo_hr demo_everyone demo_db = Inr (qs, d')"
    using bulk_runs [OF hr_requests] by blast
  obtain d1 where "execute demo_env demo_everyone demo_db = (qs, d1)" using bulk_Inr(2) [OF run] by blast
  from execute_Inr(2) [OF demo_env_arranges demo_people this] obtain q where "qs = [q]"
    by (auto simp: demo_plan list_all2_Cons1)
  with second_batch_opens_nothing [OF demo_env_arranges demo_people run hr_requests] run
  show ?thesis by auto
qed

text \<open>The case a batch opens for a person is the case the evaluator in charge would open: the
  assignee of the plan (with a role that may act at that stage) can open it directly, and the two
  records differ at most in identifier and code.\<close>

theorem batch_opens_the_evaluators_case:
  assumes "arranges e" and "people_ok d" and "assessment_fk d"
    and "run_bulk_create e u c d = Inr (qs, d')" and "q \<in> set qs" and "bp_outcome q = BulkCreated"
    and "get_personnel d (bp_personnel q) = Some p" and "access_of d (bp_personnel q) = Some a"
    and "bp_assignee q = Some (cu_id v)"
    and "may_act_at (cu_role v) (if ea_supervisor a = None \<and> ea_deputy a = None then ceo
           else if p_is_manager p then deputy else unit_supervisor)"
  shows "\<exists>r s d2. open_record_of d' (bp_personnel q) = Some r \<and> create_evaluation e v (bp_personnel q) d = Inr (s, d2) \<and>
    r = s\<lparr>er_id := er_id r, er_code := er_code r\<rparr>"
proof -
  let ?f = "fst (ensure_framework d)"
  let ?k = "bp_personnel q"
  obtain d1 where ex: "execute e c d = (qs, d1)" and recs: "records d' = records d1"
    using bulk_Inr(2) [OF assms(4)] by blast
  obtain i where "i < length qs" "q = qs ! i" using assms(5) by (auto simp: in_set_conv_nth)
  then have "plan e d c ! i \<in> set (plan e d c)" "carried_out e (if_id ?f) d d1 (plan e d c ! i) q"
    using execute_Inr(2) [OF assms(1,2) ex] by (simp_all add: list_all2_conv_all_nth)
  then obtain x where x: "x \<in> set (plan e d c)" "carried_out e (if_id ?f) d d1 x q" by blast
  then have created: "bp_outcome x = BulkCreated" using assms(6) by (auto simp: carried_out_def split: if_splits)
  then obtain r where r0: "open_record_of d (bp_personnel x) = None" "open_record_of d1 (bp_personnel x) = Some r"
      "opens e (if_id ?f) d x r" and q: "q = x\<lparr>bp_evaluation := Some (er_id r), bp_code := Some (er_code r)\<rparr>"
    using x(2) unfolding carried_out_def if_P [OF created] by blast
  have k: "bp_personnel x = ?k" "bp_assignee q = bp_assignee x" by (simp_all add: q)
  have r: "open_record_of d ?k = None" "open_record_of d1 ?k = Some r" "opens e (if_id ?f) d x r"
    using r0 by (simp_all add: q)
  have pl: "planned d x" using plan_planned(1) [OF assms(1,2)] x(1) by blast
  have p: "p_id p = ?k" by (rule personnel_st.row_key [OF assms(7)])
  have x_eq: "x = plan_one d p (Some a) None"
    using pl assms(7,8) r(1) k(1) by (auto simp: planned_def)
  then have ok: "p_status p = p_active" "inactive_seat_labels d a = []"
      "p_is_manager p \<or> ea_supervisor a \<noteq> None \<or> ea_deputy a = None"
    using created by (simp_all add: plan_one_created)
  have seat: "opening_seat v p a = Inr (if bp_manager_path x then None else ea_supervisor a)"
    and rank: "may_act_at (cu_role v) unit_supervisor"
  proof -
    have who: "bp_assignee x = (if ea_supervisor a = None \<and> ea_deputy a = None then Some (ea_ceo a)
        else if p_is_manager p then ea_deputy a else ea_supervisor a)"
      "bp_manager_path x = (p_is_manager p \<or> ea_supervisor a = None \<and> ea_deputy a = None)"
      using ok by (auto simp: x_eq plan_one_def Let_def)
    then show "opening_seat v p a = Inr (if bp_manager_path x then None else ea_supervisor a)"
      using assms(9,10) k(2) ok(3) by (auto simp: opening_seat_def split: option.split if_splits)
    show "may_act_at (cu_role v) unit_supervisor"
      using assms(10) by (cases "cu_role v") (auto simp: may_act_at_def split: if_splits)
  qed
  obtain g d0 where g: "framework_for_new_case p d = (g, d0)" by fastforce
  have fw: "if_id g = bulk_framework d (if_id ?f) p" "static d0 = static d"
  proof -
    have "static (snd (ensure_framework d)) = static d"
      using ensure_framework_effect(1) [of d] by (metis prod.collapse)
    moreover have "get_framework d (ca_framework y) \<noteq> None"
      if "assessment_for_contract d (p_id p) (p_contract_start p) = Some y" for y
      using that assms(3) by (auto simp: assessment_fk_def assessment_for_contract_def find_Some_iff)
    moreover have "if_id h = j" if "get_framework d j = Some h" for h j
      using that tbl_get_Some_set by (fastforce simp: get_framework_def)
    ultimately show "if_id g = bulk_framework d (if_id ?f) p" "static d0 = static d"
      using g by (auto simp: framework_for_new_case_def bulk_framework_def prod_eq_iff split: option.splits)
  qed
  let ?s = "new_record e p a (if bp_manager_path x then None else ea_supervisor a)
    (fst (next_evaluation_code d0)) (if_id g) (snd (next_evaluation_code d0))"
  have "\<exists>d2. create_evaluation e v ?k d = Inr (?s, d2)"
    using ok seat rank r(1) assms(7,8) g
    by (auto simp: create_evaluation_def bindE_Inr_iff guard_simps Let_def split_beta)
  moreover have "r = ?s\<lparr>er_id := er_id r, er_code := er_code r\<rparr>"
  proof -
    have "r = (opening_row e (if_id ?f) x p a d)\<lparr>er_id := er_id r, er_code := er_code r\<rparr>"
      using r(3) assms(7,8) k(1) by (auto simp: opens_def)
    also have "\<dots> = ?s\<lparr>er_id := er_id r, er_code := er_code r\<rparr>"
      using static_reads(3,4) [of "snd (next_evaluation_code d)" d]
        static_reads(3,4) [of "snd (next_evaluation_code d0)" d] fw
      by (simp add: opening_row_def new_record_def)
    finally show ?thesis .
  qed
  moreover have "open_record_of d' ?k = Some r" using r(2) recs by (simp add: open_record_of_def)
  ultimately show ?thesis by blast
qed

theorem batch_opens_the_evaluators_case_witness:
  "\<exists>q r s d' d2. run_bulk_create demo_env demo_hr demo_everyone demo_db = Inr ([q], d') \<and>
     open_record_of d' 1 = Some r \<and> create_evaluation demo_env demo_supervisor 1 demo_db = Inr (s, d2) \<and>
     er_supervisor r = er_supervisor s"
proof -
  obtain qs d' where run: "run_bulk_create demo_env demo_hr demo_everyone demo_db = Inr (qs, d')"
    using bulk_runs [OF hr_requests] by blast
  obtain d1 where "execute demo_env demo_everyone demo_db = (qs, d1)" using bulk_Inr(2) [OF run] by blast
  from execute_Inr(2) [OF demo_env_arranges demo_people this] obtain q where qs: "qs = [q]"
    and q: "bp_personnel q = 1" "bp_outcome q = BulkCreated" "bp_assignee q = Some (cu_id demo_supervisor)"
    by (auto simp: demo_plan list_all2_Cons1 carried_out_def demo_supervisor_def)
  have fk: "assessment_fk demo_db" using demo_planning by (simp add: planning_ok_def)
  have person: "get_personnel demo_db 1 = Some (demo_person 1)"
    by (simp add: get_personnel_def tbl_get_def demo_db_def demo_person_def)
  have "may_act_at (cu_role demo_supervisor) unit_supervisor" "ea_supervisor demo_access = Some 2"
    "\<not> p_is_manager (demo_person 1)"
    by (simp_all add: demo_supervisor_def may_act_at_def demo_access_def demo_person_def)
  then obtain r s d2 where "open_record_of d' 1 = Some r" "create_evaluation demo_env demo_supervisor 1 demo_db = Inr (s, d2)"
    and eq: "r = s\<lparr>er_id := er_id r, er_code := er_code r\<rparr>"
    using batch_opens_the_evaluators_case [OF demo_env_arranges demo_people fk run, of q "demo_person 1" demo_access demo_supervisor]
      person demo_access_of(1) q qs by auto
  moreover have "er_supervisor r = er_supervisor s" by (subst eq) simp
  ultimately show ?thesis using run qs by blast
qed

text \<open>A period can be deleted exactly by human resources while no case refers to it, and closed
  exactly while it is open and either no case of it is open or the request is forced.\<close>

theorem periods_end_deliberately:
  "((\<exists>d'. delete_period e u k d = Inr d') \<longleftrightarrow>
      cu_role u = hr \<and> get_period d k \<noteq> None \<and> period_records d k = []) \<and>
   ((\<exists>d'. close_period e u k force d = Inr d') \<longleftrightarrow>
      cu_role u = hr \<and> (\<exists>p. get_period d k = Some p \<and> ep_status p = period_open) \<and>
      (force \<or> filter is_open (period_records d k) = []))"
proof (cases "get_period d k")
  case None
  then show ?thesis by (simp add: delete_period_def close_period_def get_period_or_404_def bindE_Inr_iff)
next
  case (Some p)
  then show ?thesis
    by (cases "cu_role u = hr")
      (simp_all add: delete_period_def close_period_def get_period_or_404_def require_roles_def Let_def)
qed

text \<open>The progress of a period accounts for every active person: whoever has no case in it is counted
  as not started, chain or not, so an incomplete chain never improves the coverage; and its cases are
  the finished ones, the open ones and the cancelled ones.\<close>

theorem progress_counts_everyone:
  assumes "period_progress e d u k = Inr g"
  shows "pg_eligible g = pg_not_started_total g +
      length (filter (\<lambda>p. \<exists>r\<in>set (period_records d k). er_subject r = p_id p) (active_people d)) \<and>
    pg_started g = pg_finalized g + pg_in_progress g +
      length (filter (\<lambda>r. er_status r = cancelled) (period_records d k))"
proof -
  have split: "length xs = length (filter (\<lambda>x. \<not> P x) xs) + length (filter P xs)" for P and xs :: "personnel list"
    using sum_length_filter_compl [of P xs] by simp
  have cases: "length rs = length (filter (\<lambda>r. er_status r = finalized) rs) + length (filter is_open rs) +
      length (filter (\<lambda>r. er_status r = cancelled) rs)" for rs
    by (induction rs) (auto simp: is_open_iff)
  show ?thesis
    using assms cases [of "period_records d k"] split [of "active_people d" "\<lambda>p. \<exists>r\<in>set (period_records d k). er_subject r = p_id p"]
    by (auto simp: period_progress_def bindE_Inr_iff not_started_def)
qed

theorem progress_counts_everyone_witness:
  "\<exists>g. period_progress demo_env (demo_db\<lparr>periods := [\<lparr>ep_id = 1, ep_name = [], ep_starts_on = 0, ep_ends_on = 1,
      ep_status = period_open, ep_created_by = None, ep_closed_at = None\<rparr>]\<rparr>) demo_hr 1 = Inr g \<and>
    pg_eligible g = 1 \<and> pg_not_started_total g = 1"
  (is "\<exists>g. period_progress _ ?d _ _ = Inr g \<and> _")
proof -
  have none: "period_records ?d 1 = []" by (simp add: period_records_def demo_db_def empty_db_def)
  obtain g where g: "period_progress demo_env ?d demo_hr 1 = Inr g" and one: "pg_eligible g = length (active_people ?d)"
    by (simp add: period_progress_def require_roles_def demo_hr_def get_period_or_404_def get_period_def tbl_get_def)
  moreover have "length (active_people ?d) = 1" by (simp add: active_people_def demo_db_def demo_person_def)
  ultimately show ?thesis using progress_counts_everyone [OF g] none by simp
qed

end
