(* ===== verification/OrgUnits.thy ===== *)
theory OrgUnits
  imports Notifications PyText "HOL-Library.List_Lexorder"
begin

text \<open>
  The two-part names of organisation units (\<open>services/org_unit.py\<close>: a site and a unit in one string)
  and the catalogue of units (\<open>routers/org_units.py\<close>). A person carries the name as text; the lemmas
  show how the two parts are recovered from it and that renaming a unit takes its people along.
\<close>

section \<open>Site and unit in one string\<close>

text \<open>The separators \<open>/\<close>, the em dash and a dash between blanks; the first that splits wins.\<close>

definition SEPARATORS :: "ustr list" where
  "SEPARATORS = [[47], [8212], [32, 45, 32]]"

definition CANONICAL_SEPARATOR :: ustr where
  "CANONICAL_SEPARATOR = [32, 47, 32]"

text \<open>Head office, factory, Medrap: the names in code points.\<close>

definition KNOWN_SITES :: "ustr list" where
  "KNOWN_SITES = [[1583, 1601, 1578, 1585, 32, 1605, 1585, 1705, 1586, 1740],
     [1705, 1575, 1585, 1582, 1575, 1606, 1607], [1605, 1583, 1585, 1662, 8204, 1607, 1575]]"

text \<open>\<open>str.partition\<close>: what stands before and after the first occurrence, \<open>None\<close> when there is none.\<close>

definition starts_with :: "ustr \<Rightarrow> ustr \<Rightarrow> bool" where
  "starts_with p s \<longleftrightarrow> take (length p) s = p"

fun partition_at :: "ustr \<Rightarrow> ustr \<Rightarrow> (ustr \<times> ustr) option" where
  "partition_at sep [] = (if sep = [] then Some ([], []) else None)"
| "partition_at sep (c # cs) =
     (if starts_with sep (c # cs) then Some ([], drop (length sep) (c # cs))
      else map_option (apfst ((#) c)) (partition_at sep cs))"

fun split_by :: "ustr list \<Rightarrow> ustr \<Rightarrow> ustr option \<times> ustr" where
  "split_by [] s = (None, strip s)"
| "split_by (sep # seps) s = (case partition_at sep s of
     None \<Rightarrow> split_by seps s
   | Some (a, b) \<Rightarrow> if strip a \<noteq> [] \<and> strip b \<noteq> [] then (Some (strip a), strip b) else split_by seps s)"

definition split_site :: "ustr \<Rightarrow> ustr option \<times> ustr" where
  "split_site s = split_by SEPARATORS s"

definition site_of :: "ustr \<Rightarrow> ustr option" where
  "site_of s = fst (split_site s)"

definition or_empty :: "ustr option \<Rightarrow> ustr" where
  "or_empty v = (case v of None \<Rightarrow> [] | Some s \<Rightarrow> s)"

definition join_site :: "ustr option \<Rightarrow> ustr \<Rightarrow> ustr" where
  "join_site site unit =
     (if strip (or_empty site) \<noteq> [] \<and> strip unit \<noteq> []
      then strip (or_empty site) @ CANONICAL_SEPARATOR @ strip unit else strip unit)"

definition known_sites :: "ustr list \<Rightarrow> ustr list" where
  "known_sites us = KNOWN_SITES @
     sort (remdups (filter (\<lambda>s. s \<notin> set KNOWN_SITES) (concat (map (\<lambda>u. opt_list (site_of u)) us))))"

definition units_in_site :: "ustr list \<Rightarrow> ustr \<Rightarrow> ustr list" where
  "units_in_site us site = filter (\<lambda>u. site_of u = Some (strip site)) us"

section \<open>The catalogue\<close>

definition get_unit :: "db \<Rightarrow> int \<Rightarrow> org_unit option" where
  "get_unit d = tbl_get ou_id (org_units d)"

definition upd_unit :: "int \<Rightarrow> (org_unit \<Rightarrow> org_unit) \<Rightarrow> db \<Rightarrow> db" where
  "upd_unit k f d = d\<lparr>org_units := tbl_upd ou_id k f (org_units d)\<rparr>"

interpretation unit_st: row_store get_unit upd_unit ou_id
  by unfold_locales (auto simp: get_unit_def upd_unit_def tbl_get_upd dest: tbl_get_Some_set)

definition full_name :: "org_unit \<Rightarrow> ustr" where
  "full_name x = join_site (ou_site x) (ou_name x)"

definition people_in :: "db \<Rightarrow> ustr \<Rightarrow> personnel list" where
  "people_in d s = filter (\<lambda>p. p_org_unit p = s) (personnels d)"

text \<open>A unit as the pages show it: with its full name and the number of its people.\<close>

definition unit_view :: "db \<Rightarrow> org_unit \<Rightarrow> org_unit \<times> ustr \<times> nat" where
  "unit_view d x = (x, full_name x, length (people_in d (full_name x)))"

definition units_guard :: "current_user \<Rightarrow> db \<Rightarrow> unit result" where
  "units_guard u d = require_role_or_capability hr manage_personnel u d"

text \<open>The listing, without its ordering by position and name.\<close>

definition list_org_units :: "db \<Rightarrow> current_user \<Rightarrow> (org_unit \<times> ustr \<times> nat) list result" where
  "list_org_units d u = bindE (units_guard u d) (\<lambda>_. Inr (map (unit_view d) (org_units d)))"

definition site_ok :: "ustr option \<Rightarrow> bool" where
  "site_ok v \<longleftrightarrow> length (strip (or_empty v)) \<le> 100"

definition unit_name_ok :: "ustr \<Rightarrow> bool" where
  "unit_name_ok s \<longleftrightarrow> strip s \<noteq> [] \<and> length (strip s) \<le> 150"

definition given_site :: "ustr option \<Rightarrow> ustr option" where
  "given_site v = (if strip (or_empty v) = [] then None else Some (strip (or_empty v)))"

text \<open>The unique constraint on site and name: a missing site is equal to nothing.\<close>

definition unit_taken :: "db \<Rightarrow> org_unit \<Rightarrow> bool" where
  "unit_taken d x \<longleftrightarrow> ou_site x \<noteq> None \<and>
     (\<exists>y\<in>set (org_units d). ou_id y \<noteq> ou_id x \<and> ou_site y = ou_site x \<and> ou_name y = ou_name x)"

definition create_org_unit :: "env \<Rightarrow> current_user \<Rightarrow> ustr option \<Rightarrow> ustr \<Rightarrow> db \<Rightarrow> (org_unit \<times> db) result" where
  "create_org_unit e u site name d =
     bindE (units_guard u d) (\<lambda>_.
     bindE (require (site_ok site \<and> unit_name_ok name) (HTTPException 422 ''invalid unit'')) (\<lambda>_.
       let x = \<lparr>ou_id = tbl_next ou_id (org_units d), ou_site = given_site site, ou_name = strip name,
             ou_active = True,
             ou_order = (if org_units d = [] then 0 else Max (ou_order ` set (org_units d))) + 1\<rparr>
       in if unit_taken d x then Inl (HTTPException 400 ''the unit is defined already'')
          else Inr (x, log_event e (cu_id u) ''org_unit_created'' None None
                 (Some (JObj [(''id'', JInt (ou_id x)), (''full_name'', JText (full_name x))]))
                 (d\<lparr>org_units := org_units d @ [x]\<rparr>))))"

record unit_patch =
  uq_site :: "ustr option option"
  uq_name :: "ustr option option"
  uq_active :: "bool option option"

definition unit_patch_ok :: "unit_patch \<Rightarrow> bool" where
  "unit_patch_ok q \<longleftrightarrow> (case uq_site q of Some v \<Rightarrow> site_ok v | None \<Rightarrow> True) \<and>
     (case uq_name q of Some (Some s) \<Rightarrow> unit_name_ok s | _ \<Rightarrow> True)"

definition patch_unit :: "unit_patch \<Rightarrow> org_unit \<Rightarrow> org_unit" where
  "patch_unit q x = x\<lparr>ou_site := (case uq_site q of Some v \<Rightarrow> given_site v | None \<Rightarrow> ou_site x),
     ou_name := (case uq_name q of Some (Some s) \<Rightarrow> strip s | _ \<Rightarrow> ou_name x),
     ou_active := patched (uq_active q) (ou_active x)\<rparr>"

text \<open>The bulk update: everybody who carries the old name gets the new one.\<close>

definition move_people :: "ustr \<Rightarrow> ustr \<Rightarrow> db \<Rightarrow> db" where
  "move_people old new d =
     d\<lparr>personnels := map (\<lambda>p. if p_org_unit p = old then p\<lparr>p_org_unit := new\<rparr> else p) (personnels d)\<rparr>"

text \<open>A text longer than the column \<open>personnel.org_unit\<close> is refused by the database.\<close>

definition update_org_unit :: "env \<Rightarrow> current_user \<Rightarrow> int \<Rightarrow> unit_patch \<Rightarrow> db \<Rightarrow> db result" where
  "update_org_unit e u k q d =
     bindE (units_guard u d) (\<lambda>_.
     bindE (require (unit_patch_ok q) (HTTPException 422 ''invalid update'')) (\<lambda>_.
     case get_unit d k of
       None \<Rightarrow> Inl (HTTPException 404 ''unit not found'')
     | Some x \<Rightarrow>
        if uq_name q = Some None then Inl (Uncaught AttributeError)
        else
          let y = patch_unit q x; moved = people_in d (full_name x) in
          if uq_active q = Some None \<or> unit_taken d y
          then Inl (HTTPException 400 ''the unit is defined already'')
          else if full_name y \<noteq> full_name x \<and> moved \<noteq> [] \<and> 150 < length (full_name y)
          then Inl (Uncaught (DataError ''org_unit''))
          else
            let renamed = full_name y \<noteq> full_name x;
                d1 = upd_unit k (patch_unit q) d;
                d2 = (if renamed then move_people (full_name x) (full_name y) d1 else d1)
            in Inr (log_event e (cu_id u) ''org_unit_updated'' None
                 (Some (JObj [(''full_name'', JText (full_name x))]))
                 (Some (JObj [(''id'', JInt k), (''full_name'', JText (full_name y)),
                    (''personnel_moved'', JInt (if renamed then int (length moved) else 0))])) d2)))"

definition delete_org_unit :: "env \<Rightarrow> current_user \<Rightarrow> int \<Rightarrow> db \<Rightarrow> db result" where
  "delete_org_unit e u k d =
     bindE (units_guard u d) (\<lambda>_.
     case get_unit d k of
       None \<Rightarrow> Inl (HTTPException 404 ''unit not found'')
     | Some x \<Rightarrow>
        if people_in d (full_name x) \<noteq> [] then Inl (HTTPException 409 ''people are registered in the unit'')
        else Inr (log_event e (cu_id u) ''org_unit_deleted'' None
               (Some (JObj [(''id'', JInt k), (''full_name'', JText (full_name x))])) None
               (d\<lparr>org_units := filter (\<lambda>x. ou_id x \<noteq> k) (org_units d)\<rparr>)))"

section \<open>Splitting undoes joining\<close>

lemma strip_idem [simp]: "strip (strip s) = strip s"
proof (cases "strip s = []")
  case False
  have one: "dropWhile is_space t = t" if "t \<noteq> []" "\<not> is_space (hd t)" for t
    using that by (cases t) simp_all
  have "dropWhile is_space (strip s) = strip s" using one [OF False strip_ends(1) [OF False]] .
  moreover have "dropWhile is_space (rev (strip s)) = rev (strip s)"
    by (rule one) (use False strip_ends(2) [OF False] in \<open>simp_all add: hd_rev\<close>)
  ultimately show ?thesis by (simp add: strip_def [of "strip s"])
next
  case True
  moreover have "strip [] = []" by (simp add: strip_def)
  ultimately show ?thesis by simp
qed

lemma partition_at_first:
  "(\<forall>c\<in>set a. c \<noteq> s) \<Longrightarrow> partition_at [s] (a @ s # b) = Some (a, b)"
  by (induction a) (simp_all add: starts_with_def)

lemma strip_pad: "strip (s @ [32]) = strip s" "strip (32 # s) = strip s"
proof -
  have sp: "is_space 32" by (simp add: is_space_def)
  then show "strip (32 # s) = strip s" by (simp add: strip_def)
  show "strip (s @ [32]) = strip s"
  proof (cases "\<forall>c\<in>set s. is_space c")
    case True
    then have "\<forall>c\<in>set (s @ [32]). is_space c" using sp by auto
    then show ?thesis using True by (metis strip_empty_iff)
  next
    case False
    then obtain c where c: "c \<in> set s" "\<not> is_space c" by blast
    then have "dropWhile is_space (s @ [32]) = dropWhile is_space s @ [32]"
      by (rule dropWhile_append1)
    then show ?thesis using sp by (simp add: strip_def)
  qed
qed

lemma split_join:
  assumes "strip site \<noteq> []" and "strip unit \<noteq> []" and "47 \<notin> set (strip site)"
  shows "split_site (join_site (Some site) unit) = (Some (strip site), strip unit)"
proof -
  have "join_site (Some site) unit = (strip site @ [32]) @ 47 # (32 # strip unit)"
    using assms(1,2) by (simp add: join_site_def or_empty_def CANONICAL_SEPARATOR_def)
  moreover have "partition_at [47] ((strip site @ [32]) @ 47 # (32 # strip unit)) = Some (strip site @ [32], 32 # strip unit)"
    by (rule partition_at_first) (use assms(3) in auto)
  ultimately show ?thesis
    using assms(1,2) by (simp add: split_site_def SEPARATORS_def strip_pad)
qed

section \<open>What the requests on units do to people\<close>

datatype unit_request =
    CreateUnit "ustr option" ustr
  | UpdateUnit int unit_patch
  | DeleteUnit int

fun handle_unit :: "env \<Rightarrow> current_user \<Rightarrow> unit_request \<Rightarrow> db \<Rightarrow> db result" where
  "handle_unit e u (CreateUnit site name) d = bindE (create_org_unit e u site name d) (\<lambda>s. Inr (snd s))"
| "handle_unit e u (UpdateUnit k q) d = update_org_unit e u k q d"
| "handle_unit e u (DeleteUnit k) d = delete_org_unit e u k d"

definition unit_step :: "env \<Rightarrow> current_user \<times> unit_request \<Rightarrow> db \<Rightarrow> db" where
  "unit_step e c d = (case handle_unit e (fst c) (snd c) d of Inl _ \<Rightarrow> d | Inr d' \<Rightarrow> d')"

text \<open>The person is filed under a unit of the catalogue.\<close>

definition filed :: "db \<Rightarrow> int \<Rightarrow> bool" where
  "filed d k \<longleftrightarrow> (\<exists>p\<in>set (personnels d). p_id p = k \<and> p_org_unit p \<in> full_name ` set (org_units d))"

lemma filed_frames [frame_simps]: "filed (log_event e u t r x y d) = filed d"
  by (simp add: filed_def frame_simps fun_eq_iff)

lemma create_org_unit_Inr:
  assumes "create_org_unit e u site name d = Inr (x, d')"
  obtains z where "ou_id x = tbl_next ou_id (org_units d)" and "ou_site x = given_site site" and "ou_name x = strip name"
    and "d' = log_event e (cu_id u) ''org_unit_created'' None None z (d\<lparr>org_units := org_units d @ [x]\<rparr>)"
  using assms by (auto simp: create_org_unit_def bindE_Inr_iff Let_def split: if_splits)

lemma update_org_unit_Inr:
  assumes "update_org_unit e u k q d = Inr d'"
  obtains x y z where "get_unit d k = Some x" and "\<not> unit_taken d (patch_unit q x)"
    and "d' = log_event e (cu_id u) ''org_unit_updated'' None y z
      (if full_name (patch_unit q x) \<noteq> full_name x
       then move_people (full_name x) (full_name (patch_unit q x)) (upd_unit k (patch_unit q) d)
       else upd_unit k (patch_unit q) d)"
  using assms by (auto simp: update_org_unit_def bindE_Inr_iff Let_def split: option.splits if_splits)

lemma patch_unit_id [simp]: "ou_id (patch_unit q x) = ou_id x"
  by (simp add: patch_unit_def)

lemma update_org_unit_people:
  assumes ok: "tbl_ok ou_id (org_units d)" and run: "update_org_unit e u k q d = Inr d'"
    and x: "get_unit d k = Some x"
  shows "personnels d' = map (\<lambda>p. if p_org_unit p = full_name x then p\<lparr>p_org_unit := full_name (patch_unit q x)\<rparr> else p)
      (personnels d)"
    and "full_name ` set (org_units d) - {full_name x} \<subseteq> full_name ` set (org_units d')"
    and "full_name (patch_unit q x) \<in> full_name ` set (org_units d')"
proof -
  let ?y = "patch_unit q x"
  obtain x0 o' n where "get_unit d k = Some x0"
    and d0: "d' = log_event e (cu_id u) ''org_unit_updated'' None o' n
      (if full_name (patch_unit q x0) \<noteq> full_name x0
       then move_people (full_name x0) (full_name (patch_unit q x0)) (upd_unit k (patch_unit q) d)
       else upd_unit k (patch_unit q) d)"
    by (rule update_org_unit_Inr [OF run])
  with x have d': "d' = log_event e (cu_id u) ''org_unit_updated'' None o' n
      (if full_name ?y \<noteq> full_name x then move_people (full_name x) (full_name ?y) (upd_unit k (patch_unit q) d)
       else upd_unit k (patch_unit q) d)" by simp
  show "personnels d' = map (\<lambda>p. if p_org_unit p = full_name x then p\<lparr>p_org_unit := full_name ?y\<rparr> else p) (personnels d)"
    by (auto simp: d' frame_simps move_people_def upd_unit_def intro!: map_idI [symmetric])
  have units: "org_units d' = tbl_upd ou_id k (patch_unit q) (org_units d)"
    by (simp add: d' frame_simps move_people_def upd_unit_def)
  have xk: "ou_id x = k" "x \<in> set (org_units d)"
    using tbl_get_Some_set [of ou_id "org_units d" k x] x by (simp_all add: get_unit_def)
  have only: "z = x" if "z \<in> set (org_units d)" "ou_id z = k" for z
    using tbl_get_in [OF ok that(1)] x that(2) by (simp add: get_unit_def)
  show "full_name ` set (org_units d) - {full_name x} \<subseteq> full_name ` set (org_units d')"
    using only by (force simp: units set_tbl_upd image_iff)
  show "full_name ?y \<in> full_name ` set (org_units d')"
    using xk by (force simp: units set_tbl_upd image_iff)
qed

lemma unit_step_filed:
  assumes ok: "tbl_ok ou_id (org_units d)" and f: "filed d j"
  shows "filed (unit_step e c d) j"
proof -
  obtain u q where c: "c = (u, q)" by fastforce
  obtain p where p: "p \<in> set (personnels d)" "p_id p = j" "p_org_unit p \<in> full_name ` set (org_units d)"
    using f by (auto simp: filed_def)
  show ?thesis
  proof (cases "handle_unit e u q d")
    case (Inl z)
    then show ?thesis using f by (simp add: unit_step_def c)
  next
    case (Inr d')
    have "filed d' j"
    proof (cases q)
      case (CreateUnit site name)
      then obtain x where "create_org_unit e u site name d = Inr (x, d')" using Inr by (auto simp: bindE_Inr_iff)
      then show ?thesis
        using f by (elim create_org_unit_Inr) (auto simp: frame_simps filed_def)
    next
      case (UpdateUnit k r)
      then have run: "update_org_unit e u k r d = Inr d'" using Inr by simp
      then obtain x where x: "get_unit d k = Some x" by (rule update_org_unit_Inr)
      note eff = update_org_unit_people [OF ok run x]
      show ?thesis
      proof (cases "p_org_unit p = full_name x")
        case True
        then have "p\<lparr>p_org_unit := full_name (patch_unit r x)\<rparr> \<in> set (personnels d')"
          using p(1) by (force simp: eff(1))
        moreover have "p_id (p\<lparr>p_org_unit := full_name (patch_unit r x)\<rparr>) = j" using p(2) by simp
        moreover have "p_org_unit (p\<lparr>p_org_unit := full_name (patch_unit r x)\<rparr>) \<in> full_name ` set (org_units d')"
          using eff(3) by simp
        ultimately show ?thesis unfolding filed_def by blast
      next
        case False
        then have "p \<in> set (personnels d')" using p(1) by (force simp: eff(1))
        moreover have "p_org_unit p \<in> full_name ` set (org_units d')" using eff(2) False p(3) by blast
        ultimately show ?thesis using p(2) unfolding filed_def by blast
      qed
    next
      case (DeleteUnit k)
      then obtain x o' where x: "get_unit d k = Some x" "people_in d (full_name x) = []"
        and d': "d' = log_event e (cu_id u) ''org_unit_deleted'' None o' None
          (d\<lparr>org_units := filter (\<lambda>x. ou_id x \<noteq> k) (org_units d)\<rparr>)"
        using Inr by (auto simp: delete_org_unit_def bindE_Inr_iff split: option.splits if_splits)
      obtain z where z: "z \<in> set (org_units d)" "p_org_unit p = full_name z" using p(3) by auto
      have "p_org_unit p \<noteq> full_name x" using x(2) p(1) by (auto simp: people_in_def filter_empty_conv)
      then have "z \<noteq> x" using z(2) by auto
      then have "ou_id z \<noteq> k" using tbl_get_in [OF ok z(1)] x(1) by (auto simp: get_unit_def)
      then show ?thesis using p z by (force simp: filed_def d' frame_simps)
    qed
    then show ?thesis using Inr by (simp add: unit_step_def c)
  qed
qed

lemma unit_step_keys: "tbl_ok ou_id (org_units d) \<Longrightarrow> tbl_ok ou_id (org_units (unit_step e c d))"
proof -
  assume ok: "tbl_ok ou_id (org_units d)"
  obtain u q where c: "c = (u, q)" by fastforce
  have "tbl_ok ou_id (org_units d')" if run: "handle_unit e u q d = Inr d'" for d'
  proof (cases q)
    case (CreateUnit site name)
    then obtain x where "create_org_unit e u site name d = Inr (x, d')" using run by (auto simp: bindE_Inr_iff)
    then show ?thesis
      using ok by (elim create_org_unit_Inr) (simp add: frame_simps tbl_ok_insert)
  next
    case (UpdateUnit k r)
    then have "update_org_unit e u k r d = Inr d'" using run by simp
    then show ?thesis
      using ok by (elim update_org_unit_Inr) (simp add: frame_simps move_people_def upd_unit_def tbl_ok_upd)
  next
    case (DeleteUnit k)
    then show ?thesis
      using run ok by (auto simp: delete_org_unit_def bindE_Inr_iff frame_simps tbl_ok_def distinct_map_filter
          split: option.splits if_splits)
  qed
  then show ?thesis using ok by (auto simp: unit_step_def c split: sum.split)
qed

interpretation unit_sys: invariant_system "unit_step e" "\<lambda>d. tbl_ok ou_id (org_units d) \<and> filed d k" for e k
  by unfold_locales (simp add: unit_step_keys unit_step_filed)

end
