(* ===== verification/People.thy ===== *)
theory People
  imports ResultIntegrity Accounts OrgUnits
begin

text \<open>
  The personnel pages of \<open>routers/personnel.py\<close>: registering a person (with an account), changing the
  file, leaving the organisation, and the views. Texts of a payload are the ones left after the
  stripping of the schema; the comparison of a search text (\<open>ILIKE\<close>) and the ordering of a listing
  are arguments. The import from a workbook is the theory Import.
\<close>

section \<open>Registering a person\<close>

record personnel_input =
  ni_code :: ustr
  ni_full_name :: ustr
  ni_job_title :: ustr
  ni_is_manager :: bool
  ni_org_unit :: ustr
  ni_start :: date
  ni_end :: date
  ni_account :: "(string \<times> string) option"

definition text_within :: "nat \<Rightarrow> 'a list \<Rightarrow> bool" where
  "text_within n s \<longleftrightarrow> 1 \<le> length s \<and> length s \<le> n"

definition personnel_input_ok :: "personnel_input \<Rightarrow> bool" where
  "personnel_input_ok q \<longleftrightarrow> text_within 50 (ni_code q) \<and> text_within 200 (ni_full_name q) \<and>
     text_within 150 (ni_job_title q) \<and> text_within 150 (ni_org_unit q) \<and> ni_start q < ni_end q \<and>
     (case ni_account q of None \<Rightarrow> True
      | Some (name, pw) \<Rightarrow> username_ok name \<and> PASSWORD_MIN_LENGTH \<le> length pw)"

definition personnel_by_code :: "db \<Rightarrow> ustr \<Rightarrow> personnel option" where
  "personnel_by_code d c = find (\<lambda>p. p_code p = c) (personnels d)"

definition new_personnel :: "personnel_input \<Rightarrow> db \<Rightarrow> personnel" where
  "new_personnel q d = \<lparr>p_id = tbl_next p_id (personnels d), p_code = ni_code q,
     p_full_name = ni_full_name q, p_job_title = ni_job_title q, p_is_manager = ni_is_manager q,
     p_org_unit = ni_org_unit q, p_contract_start = ni_start q, p_contract_end = ni_end q,
     p_status = p_active, p_separation_date = None, p_separation_reason = None\<rparr>"

definition add_personnel :: "personnel \<Rightarrow> db \<Rightarrow> db" where
  "add_personnel p d = d\<lparr>personnels := personnels d @ [p]\<rparr>"

text \<open>The account of a new person: role employee, and the password is to be changed at the first login.\<close>

definition employee_account :: "env \<Rightarrow> string \<Rightarrow> string \<Rightarrow> int \<Rightarrow> db \<Rightarrow> user" where
  "employee_account e name pw pid d = \<lparr>u_id = tbl_next u_id (users d), u_personnel_id = Some pid,
     u_username = name, u_full_name = None, u_password_hash = password_digest e pw, u_role = employee,
     u_is_active = True, u_must_change_password = True, u_token_version = 0, u_email = None,
     u_phone = None, u_notify_by_email = False, u_notify_by_sms = False\<rparr>"

definition add_employee_account :: "env \<Rightarrow> int \<Rightarrow> string \<times> string \<Rightarrow> int \<Rightarrow> db \<Rightarrow> db" where
  "add_employee_account e actor acc pid d =
     (let x = employee_account e (fst acc) (snd acc) pid d in
      log_event e actor ''user_created'' None None
        (Some (JObj [(''id'', JInt (u_id x)), (''username'', JStr (u_username x)),
           (''role'', JStr (role_value (u_role x))), (''personnel_id'', JInt pid),
           (''created_with_personnel'', JBool True)]))
        (d\<lparr>users := users d @ [x]\<rparr>))"

definition personnel_guard :: "current_user \<Rightarrow> db \<Rightarrow> unit result" where
  "personnel_guard u d = require_role_or_capability hr manage_personnel u d"

definition create_personnel :: "env \<Rightarrow> current_user \<Rightarrow> personnel_input \<Rightarrow> db \<Rightarrow> (personnel \<times> db) result" where
  "create_personnel e u q d =
     bindE (personnel_guard u d) (\<lambda>_.
     bindE (require (personnel_input_ok q) (HTTPException 422 ''invalid person'')) (\<lambda>_.
       if personnel_by_code d (ni_code q) \<noteq> None then Inl (HTTPException 400 ''the code is taken'')
       else if (case ni_account q of None \<Rightarrow> False | Some acc \<Rightarrow> user_by_name d (fst acc) \<noteq> None)
       then Inl (HTTPException 400 ''the name is taken'')
       else
         let p = new_personnel q d;
             d1 = log_event e (cu_id u) ''personnel_created'' None None
               (Some (JObj [(''id'', JInt (p_id p)), (''personnel_code'', JText (p_code p)),
                  (''full_name'', JText (p_full_name p))])) (add_personnel p d)
         in Inr (p, case ni_account q of None \<Rightarrow> d1 | Some acc \<Rightarrow> add_employee_account e (cu_id u) acc (p_id p) d1)))"

section \<open>Leaving\<close>

fun separation_value :: "separation_reason \<Rightarrow> string" where
  "separation_value resignation = ''resignation''"
| "separation_value dismissal = ''dismissal''"
| "separation_value contract_end = ''contract_end''"
| "separation_value retirement = ''retirement''"
| "separation_value other_reason = ''other''"

definition reason_text :: "personnel \<Rightarrow> ustr" where
  "reason_text p = (case p_separation_reason p of None \<Rightarrow> [8212] | Some s \<Rightarrow> lit (separation_value s))"

text \<open>The open case of the person is cancelled in the name of the acting user.\<close>

definition cancel_open_case :: "env \<Rightarrow> current_user \<Rightarrow> personnel \<Rightarrow> db \<Rightarrow> db result" where
  "cancel_open_case e u p d = (case open_record_of d (p_id p) of
     None \<Rightarrow> Inr d
   | Some r \<Rightarrow> apply_transition e r Cancel u (\<lambda>d. Inr d)
       (log_event e (cu_id u) ''evaluation_cancelled_on_separation'' (Some (er_id r))
          (Some (status_json (er_status r)))
          (Some (JObj [(''separation_reason'', JText (reason_text p))]))
          (add_comment_row e (er_id r) (cu_id u) None cm_hr_review
             (lit ''Cancelled, the person left: '' @ reason_text p) d)))"

definition linked_account :: "db \<Rightarrow> int \<Rightarrow> user option" where
  "linked_account d pid = find (\<lambda>x. u_personnel_id x = Some pid) (users d)"

definition activity_json :: "user \<Rightarrow> bool \<Rightarrow> json" where
  "activity_json x b = JObj [(''username'', JStr (u_username x)), (''is_active'', JBool b)]"

definition deactivate_account :: "env \<Rightarrow> current_user \<Rightarrow> personnel \<Rightarrow> db \<Rightarrow> db" where
  "deactivate_account e u p d = (case linked_account d (p_id p) of
     None \<Rightarrow> d
   | Some x \<Rightarrow>
      if \<not> u_is_active x then d
      else log_event e (cu_id u) ''user_deactivated_on_separation'' None
             (Some (activity_json x True)) (Some (activity_json x False))
             (revoke_all_for_user e (u_id x)
                (upd_user (u_id x) (\<lambda>x. x\<lparr>u_is_active := False, u_token_version := u_token_version x + 1\<rparr>) d)))"

definition close_out_departure :: "env \<Rightarrow> current_user \<Rightarrow> personnel \<Rightarrow> db \<Rightarrow> db result" where
  "close_out_departure e u p d =
     bindE (cancel_open_case e u p d) (\<lambda>d1. Inr (deactivate_account e u p d1))"

section \<open>Changing a file\<close>

text \<open>\<open>None\<close> is a field the payload does not set, \<open>Some None\<close> an explicit null.\<close>

record personnel_patch =
  nq_code :: "ustr option option"
  nq_full_name :: "ustr option option"
  nq_job_title :: "ustr option option"
  nq_is_manager :: "bool option option"
  nq_org_unit :: "ustr option option"
  nq_start :: "date option option"
  nq_end :: "date option option"
  nq_status :: "personnel_status option option"
  nq_reason :: "separation_reason option option"
  nq_separation :: "date option option"

definition given :: "('a \<Rightarrow> bool) \<Rightarrow> 'a option option \<Rightarrow> bool" where
  "given P v \<longleftrightarrow> (case v of Some (Some x) \<Rightarrow> P x | _ \<Rightarrow> True)"

definition personnel_patch_ok :: "personnel_patch \<Rightarrow> bool" where
  "personnel_patch_ok q \<longleftrightarrow> given (text_within 50) (nq_code q) \<and> given (text_within 200) (nq_full_name q) \<and>
     given (text_within 150) (nq_job_title q) \<and> given (text_within 150) (nq_org_unit q)"

definition is_leaving :: "personnel_patch \<Rightarrow> personnel \<Rightarrow> bool" where
  "is_leaving q p \<longleftrightarrow> nq_status q = Some (Some p_inactive) \<and> p_status p \<noteq> p_inactive"

definition set_option :: "'a option option \<Rightarrow> 'a option \<Rightarrow> 'a option" where
  "set_option v old = (case v of None \<Rightarrow> old | Some x \<Rightarrow> x)"

text \<open>The date of leaving is today unless it is given; coming back clears date and reason.\<close>

definition effective_patch :: "env \<Rightarrow> personnel_patch \<Rightarrow> personnel \<Rightarrow> personnel_patch" where
  "effective_patch e q p =
     (let q1 = (if is_leaving q p \<and> set_option (nq_separation q) None = None
                then q\<lparr>nq_separation := Some (Some (today e))\<rparr> else q)
      in if nq_status q = Some (Some p_active) then q1\<lparr>nq_separation := Some None, nq_reason := Some None\<rparr> else q1)"

definition patch_personnel :: "personnel_patch \<Rightarrow> personnel \<Rightarrow> personnel" where
  "patch_personnel q p = p\<lparr>p_code := patched (nq_code q) (p_code p),
     p_full_name := patched (nq_full_name q) (p_full_name p),
     p_job_title := patched (nq_job_title q) (p_job_title p),
     p_is_manager := patched (nq_is_manager q) (p_is_manager p),
     p_org_unit := patched (nq_org_unit q) (p_org_unit p),
     p_contract_start := patched (nq_start q) (p_contract_start p),
     p_contract_end := patched (nq_end q) (p_contract_end p),
     p_status := patched (nq_status q) (p_status p),
     p_separation_reason := set_option (nq_reason q) (p_separation_reason p),
     p_separation_date := set_option (nq_separation q) (p_separation_date p)\<rparr>"

text \<open>A null in a column that must have a value is refused when the row is written.\<close>

definition null_in_required :: "personnel_patch \<Rightarrow> bool" where
  "null_in_required q \<longleftrightarrow> nq_code q = Some None \<or> nq_full_name q = Some None \<or> nq_job_title q = Some None \<or>
     nq_is_manager q = Some None \<or> nq_org_unit q = Some None \<or> nq_status q = Some None"

fun status_text :: "personnel_status \<Rightarrow> string" where
  "status_text p_active = ''active''"
| "status_text p_inactive = ''inactive''"

definition old_member :: "string \<Rightarrow> json \<Rightarrow> 'a option option \<Rightarrow> (string \<times> json) list" where
  "old_member name v q = (if q = None then [] else [(name, v)])"

definition opt_text :: "('a \<Rightarrow> string) \<Rightarrow> 'a option \<Rightarrow> json" where
  "opt_text f v = JStr (case v of None \<Rightarrow> ''None'' | Some x \<Rightarrow> f x)"

definition bool_text :: "bool \<Rightarrow> string" where
  "bool_text b = (if b then ''True'' else ''False'')"

definition old_personnel_json :: "personnel_patch \<Rightarrow> personnel \<Rightarrow> json" where
  "old_personnel_json q p = JObj (
     old_member ''personnel_code'' (JText (p_code p)) (nq_code q) @
     old_member ''full_name'' (JText (p_full_name p)) (nq_full_name q) @
     old_member ''job_title'' (JText (p_job_title p)) (nq_job_title q) @
     old_member ''is_manager'' (JStr (bool_text (p_is_manager p))) (nq_is_manager q) @
     old_member ''org_unit'' (JText (p_org_unit p)) (nq_org_unit q) @
     old_member ''contract_start_date'' (JStr (iso_date (p_contract_start p))) (nq_start q) @
     old_member ''contract_end_date'' (JStr (iso_date (p_contract_end p))) (nq_end q) @
     old_member ''status'' (JStr (status_text (p_status p))) (nq_status q) @
     old_member ''separation_reason'' (opt_text separation_value (p_separation_reason p)) (nq_reason q) @
     old_member ''separation_date'' (opt_text iso_date (p_separation_date p)) (nq_separation q))"

definition new_personnel_json :: "int \<Rightarrow> personnel_patch \<Rightarrow> json" where
  "new_personnel_json k q = JObj ((''id'', JInt k) #
     member_if_set ''personnel_code'' JText (nq_code q) @
     member_if_set ''full_name'' JText (nq_full_name q) @
     member_if_set ''job_title'' JText (nq_job_title q) @
     member_if_set ''is_manager'' JBool (nq_is_manager q) @
     member_if_set ''org_unit'' JText (nq_org_unit q) @
     member_if_set ''contract_start_date'' (\<lambda>t. JStr (iso_date t)) (nq_start q) @
     member_if_set ''contract_end_date'' (\<lambda>t. JStr (iso_date t)) (nq_end q) @
     member_if_set ''status'' (\<lambda>s. JStr (status_text s)) (nq_status q) @
     member_if_set ''separation_reason'' (\<lambda>s. JStr (separation_value s)) (nq_reason q) @
     member_if_set ''separation_date'' (\<lambda>t. JStr (iso_date t)) (nq_separation q))"

text \<open>A manager has no unit supervisor: the seat of the chain is emptied.\<close>

definition clear_supervisor :: "env \<Rightarrow> current_user \<Rightarrow> int \<Rightarrow> db \<Rightarrow> db" where
  "clear_supervisor e u pid d = (case access_of d pid of
     None \<Rightarrow> d
   | Some a \<Rightarrow> (case ea_supervisor a of
       None \<Rightarrow> d
     | Some s \<Rightarrow> log_event e (cu_id u) ''access_supervisor_cleared_on_manager_title'' None
          (Some (JObj [(''unit_supervisor_user_id'', JInt s)]))
          (Some (JObj [(''unit_supervisor_user_id'', JNull), (''personnel_id'', JInt pid)]))
          (d\<lparr>accesses := tbl_upd ea_id (ea_id a)
               (\<lambda>a. a\<lparr>ea_supervisor := None, ea_updated_by := Some (cu_id u)\<rparr>) (accesses d)\<rparr>)))"

definition clear_supervisor_if :: "bool \<Rightarrow> env \<Rightarrow> current_user \<Rightarrow> int \<Rightarrow> db \<Rightarrow> db" where
  "clear_supervisor_if b e u pid d = (if b then clear_supervisor e u pid d else d)"

text \<open>The checks before anything is written, in the order of the handler.\<close>

definition check_personnel_patch :: "env \<Rightarrow> personnel_patch \<Rightarrow> personnel \<Rightarrow> db \<Rightarrow> unit result" where
  "check_personnel_patch e q p d =
     (let r = effective_patch e q p; p' = patch_personnel r p in
      if nq_code q \<noteq> None \<and> nq_code q \<noteq> Some (Some (p_code p)) \<and>
         (case nq_code q of Some (Some c) \<Rightarrow> personnel_by_code d c \<noteq> None | _ \<Rightarrow> False)
      then Inl (HTTPException 400 ''the code is taken'')
      else if nq_is_manager q \<noteq> None \<and> nq_is_manager q \<noteq> Some (Some (p_is_manager p)) \<and>
         open_record_of d (p_id p) \<noteq> None
      then Inl (HTTPException 400 ''the person has an open case'')
      else if is_leaving q p \<and> set_option (nq_reason q) None = None
      then Inl (HTTPException 400 ''the reason for leaving is missing'')
      else if nq_start q = Some None \<or> nq_end q = Some None then Inl (Uncaught TypeError)
      else if p_contract_end p' \<le> p_contract_start p'
      then Inl (HTTPException 400 ''a contract ends after it starts'')
      else if null_in_required q then Inl (Uncaught (IntegrityError ''not null''))
      else Inr ())"

text \<open>The change of the row and its line in the log.\<close>

definition filed_change :: "env \<Rightarrow> current_user \<Rightarrow> int \<Rightarrow> personnel_patch \<Rightarrow> personnel \<Rightarrow> db \<Rightarrow> db" where
  "filed_change e u k q p d =
     (let r = effective_patch e q p in
      log_event e (cu_id u) ''personnel_updated'' None (Some (old_personnel_json r p))
        (Some (new_personnel_json k q)) (upd_personnel k (patch_personnel r) d))"

definition update_personnel :: "env \<Rightarrow> current_user \<Rightarrow> int \<Rightarrow> personnel_patch \<Rightarrow> db \<Rightarrow> db result" where
  "update_personnel e u k q d =
     bindE (personnel_guard u d) (\<lambda>_.
     bindE (require (personnel_patch_ok q) (HTTPException 422 ''invalid update'')) (\<lambda>_.
     case get_personnel d k of
       None \<Rightarrow> Inl (HTTPException 404 ''personnel not found'')
     | Some p \<Rightarrow>
        let p' = patch_personnel (effective_patch e q p) p in
        bindE (check_personnel_patch e q p d) (\<lambda>_.
        bindE (if is_leaving q p then close_out_departure e u p' (filed_change e u k q p d)
               else Inr (filed_change e u k q p d)) (\<lambda>d2.
          Inr (clear_supervisor_if (p_is_manager p') e u k d2)))))"

section \<open>Views\<close>

definition can_view_personnel :: "db \<Rightarrow> int \<Rightarrow> current_user \<Rightarrow> bool" where
  "can_view_personnel d k u \<longleftrightarrow> cu_role u = hr \<or>
     (\<exists>a. access_of d k = Some a \<and> Some (cu_id u) \<in> set (access_seats a)) \<or>
     (\<exists>r\<in>set (records d). er_subject r = k \<and> Some (cu_id u) \<in> set (record_seats r))"

text \<open>The account of a listed person: with several active ones the last row read counts.\<close>

definition listed_account :: "db \<Rightarrow> int \<Rightarrow> user option" where
  "listed_account d k = find (\<lambda>x. u_personnel_id x = Some k \<and> u_is_active x) (rev (users d))"

definition listed_case :: "db \<Rightarrow> int \<Rightarrow> evaluation_record option" where
  "listed_case d k = find (\<lambda>r. er_subject r = k \<and> is_open r) (rev (sort_key er_created_at (records d)))"

record personnel_view =
  pv_person :: personnel
  pv_username :: "string option"
  pv_open_case :: "int option"
  pv_state :: assessment_state

definition with_account :: "env \<Rightarrow> db \<Rightarrow> personnel \<Rightarrow> personnel_view" where
  "with_account e d p = \<lparr>pv_person = p, pv_username = map_option u_username (listed_account d (p_id p)),
     pv_open_case = map_option er_id (listed_case d (p_id p)),
     pv_state = state_of e d p (map_option u_role (listed_account d (p_id p)))\<rparr>"

text \<open>The single view does not go through \<open>_with_accounts\<close>: account, state and case have their defaults.\<close>

definition read_personnel :: "db \<Rightarrow> current_user \<Rightarrow> int \<Rightarrow> personnel result" where
  "read_personnel d u k = (case get_personnel d k of
     None \<Rightarrow> Inl (HTTPException 404 ''personnel not found'')
   | Some p \<Rightarrow> if can_view_personnel d k u then Inr p else Inl (HTTPException 403 ''no access to this person''))"

record personnel_filter =
  pf_q :: "ustr option"
  pf_status :: "personnel_status option"
  pf_org_unit :: "ustr option"
  pf_site :: "ustr option"
  pf_is_manager :: "bool option"

text \<open>\<open>like pattern text\<close> is the comparison \<open>ILIKE\<close> of the database.\<close>

definition passes_filter :: "(ustr \<Rightarrow> ustr \<Rightarrow> bool) \<Rightarrow> db \<Rightarrow> personnel_filter \<Rightarrow> personnel \<Rightarrow> bool" where
  "passes_filter like d f p \<longleftrightarrow>
     (case pf_q f of None \<Rightarrow> True
      | Some s \<Rightarrow> s = [] \<or> (let pattern = [37] @ strip s @ [37] in
          like pattern (p_full_name p) \<or> like pattern (p_code p) \<or>
          like pattern (p_job_title p) \<or> like pattern (p_org_unit p))) \<and>
     (case pf_site f of None \<Rightarrow> True
      | Some s \<Rightarrow> s = [] \<or> p_org_unit p \<in> set (units_in_site (remdups (map p_org_unit (personnels d))) s)) \<and>
     (case pf_status f of None \<Rightarrow> True | Some s \<Rightarrow> p_status p = s) \<and>
     (case pf_org_unit f of None \<Rightarrow> True | Some s \<Rightarrow> s = [] \<or> p_org_unit p = s) \<and>
     (case pf_is_manager f of None \<Rightarrow> True | Some b \<Rightarrow> p_is_manager p = b)"

text \<open>The seat of the chain that lets a role see a person in the list.\<close>

definition listed_by_chain :: "db \<Rightarrow> current_user \<Rightarrow> personnel \<Rightarrow> bool" where
  "listed_by_chain d u p \<longleftrightarrow> (\<exists>a\<in>set (accesses d). ea_personnel a = p_id p \<and>
     (case cu_role u of
        unit_supervisor \<Rightarrow> ea_supervisor a = Some (cu_id u)
      | deputy \<Rightarrow> ea_deputy a = Some (cu_id u)
      | ceo \<Rightarrow> ea_ceo a = cu_id u
      | _ \<Rightarrow> False))"

definition reports_directly :: "db \<Rightarrow> current_user \<Rightarrow> personnel \<Rightarrow> bool" where
  "reports_directly d u p \<longleftrightarrow> (\<exists>a\<in>set (accesses d). ea_personnel a = p_id p \<and> ea_ceo a = cu_id u \<and>
     ea_supervisor a = None \<and> ea_deputy a = None)"

definition may_manage_personnel :: "db \<Rightarrow> current_user \<Rightarrow> bool" where
  "may_manage_personnel d u \<longleftrightarrow> cu_role u = hr \<or> manage_personnel \<in> capabilities_of d (cu_id u)"

text \<open>The page of the list: the number of all matching people and the rows of the page.\<close>

definition list_personnel ::
  "env \<Rightarrow> (ustr \<Rightarrow> ustr \<Rightarrow> bool) \<Rightarrow> (personnel list \<Rightarrow> personnel list) \<Rightarrow> db \<Rightarrow> current_user \<Rightarrow>
     bool \<Rightarrow> bool \<Rightarrow> personnel_filter \<Rightarrow> nat \<Rightarrow> nat \<Rightarrow> (nat \<times> personnel_view list) result" where
  "list_personnel e like order d u accessible direct f limit offset =
     (if direct \<and> cu_role u \<noteq> ceo then Inl (HTTPException 403 ''for the chief executive only'')
      else
        let narrow = \<not> may_manage_personnel d u \<or> accessible;
            rows = filter (\<lambda>p. (direct \<longrightarrow> reports_directly d u p) \<and> (narrow \<longrightarrow> listed_by_chain d u p) \<and>
              passes_filter like d f p) (personnels d)
        in Inr (length rows, map (with_account e d) (take limit (drop offset (order rows)))))"

definition personnel_org_units :: "(ustr list \<Rightarrow> ustr list) \<Rightarrow> db \<Rightarrow> current_user \<Rightarrow> ustr list result" where
  "personnel_org_units arrange d u =
     bindE (personnel_guard u d) (\<lambda>_. Inr (arrange (remdups (map p_org_unit (personnels d)))))"

definition list_sites :: "db \<Rightarrow> current_user \<Rightarrow> ustr list result" where
  "list_sites d u = bindE (personnel_guard u d) (\<lambda>_. Inr (known_sites (remdups (map p_org_unit (personnels d)))))"

text \<open>The rows that the workbook renders; the download is logged.\<close>

definition export_personnel ::
  "env \<Rightarrow> (ustr \<Rightarrow> ustr \<Rightarrow> bool) \<Rightarrow> (personnel list \<Rightarrow> personnel list) \<Rightarrow> current_user \<Rightarrow>
     personnel_filter \<Rightarrow> db \<Rightarrow> (personnel list \<times> db) result" where
  "export_personnel e like order u f d =
     bindE (personnel_guard u d) (\<lambda>_.
       Inr (order (filter (passes_filter like d f) (personnels d)),
            log_event e (cu_id u) ''personnel_excel_exported'' None None None d))"

definition invite_person :: "env \<Rightarrow> current_user \<Rightarrow> int \<Rightarrow> db \<Rightarrow> db result" where
  "invite_person e u k d =
     bindE (require_module ''self_assessment'' d) (\<lambda>_.
     bindE (personnel_guard u d) (\<lambda>_.
     case get_personnel d k of
       None \<Rightarrow> Inl (HTTPException 404 ''personnel not found'')
     | Some p \<Rightarrow> invite e p (cu_id u) d))"

record assessment_view =
  av_assessment :: "contract_assessment option"
  av_state :: assessment_state
  av_eligible :: bool
  av_open :: bool
  av_indicators :: "int list"

definition view_self_assessment :: "env \<Rightarrow> db \<Rightarrow> current_user \<Rightarrow> int \<Rightarrow> assessment_view result" where
  "view_self_assessment e d u k =
     bindE (require_module ''self_assessment'' d) (\<lambda>_.
     bindE (require_roles [hr] u) (\<lambda>_.
     case get_personnel d k of
       None \<Rightarrow> Inl (HTTPException 404 ''personnel not found'')
     | Some p \<Rightarrow>
        let role = map_option u_role (account_of d (p_id p));
            a = assessment_for_contract d (p_id p) (p_contract_start p);
            eligible = (case role of None \<Rightarrow> False | Some r \<Rightarrow> may_self_assess r)
        in Inr \<lparr>av_assessment = a, av_state = state_of e d p role, av_eligible = eligible,
             av_open = (eligible \<and> contract_is_open e p \<and>
               (case a of None \<Rightarrow> True | Some x \<Rightarrow> ca_submitted_at x = None)),
             av_indicators = (case a of None \<Rightarrow> []
               | Some x \<Rightarrow> sorted_list_of_set (indicator_ids_for_assessment d x))\<rparr>))"

section \<open>What cancelling on departure does\<close>

lemma quiet_hook_spec: "hook_spec (\<lambda>d. Inr d) k (=)"
  using no_hook_spec [of k] unfolding no_hook_def .

lemma cancel_allowed:
  "ensure_transition_allowed r Cancel u = Inr t \<longleftrightarrow> t = transition_of Cancel \<and> is_open r \<and> cu_role u = hr"
  by (auto simp: transition_allowed_Inr transition_of_def may_act_at_def is_open_def owns_stage_def)

lemma cancel_run:
  assumes run: "apply_transition e r Cancel u (\<lambda>d. Inr d) d = Inr d'" and r: "get_record d k = Some r"
  shows "effect e u d d'" and "\<exists>r'. row_step d d' k r' \<and> er_status r' = cancelled \<and> same_stamp r r' \<and> same_chain r r'"
    and "scores d' = scores d" and "sessions d' = sessions d" and "capabilities d' = capabilities d"
    and "audit_prefix d d'"
proof -
  have path: "on_path r Cancel" by (simp add: on_path_def is_submit_def)
  show "effect e u d d'"
    by (rule transition_effect [OF run r path quiet_hook_spec]) (auto simp: is_submit_def transition_of_def)
  show "\<exists>r'. row_step d d' k r' \<and> er_status r' = cancelled \<and> same_stamp r r' \<and> same_chain r r'"
  proof (rule apply_transition_step [OF run r quiet_hook_spec])
    fix r2 assume row: "row_step d d' k (enter_stage e (tr_to (transition_of Cancel)) r2)"
      and r2: "claimed u Cancel r = r2"
    have to: "tr_to (transition_of Cancel) = cancelled" by (simp add: transition_of_def)
    have "same_stamp r r2" "same_chain r r2" unfolding r2 [symmetric] by simp_all
    then have "same_stamp r (enter_stage e cancelled r2)" "same_chain r (enter_stage e cancelled r2)"
      using same_trans(1,2) enter_stage_same(1,2) by metis+
    moreover have "er_status (enter_stage e cancelled r2) = cancelled" by (simp add: enter_stage_def)
    ultimately show ?thesis using row unfolding to by blast
  qed
  show "scores d' = scores d" by (rule hook_scores [OF run]) simp
  have to: "tr_to (transition_of Cancel) = cancelled" and noclaim: "claim e (transition_of Cancel) r u d = d"
    by (simp_all add: claim_def transition_of_def)
  have d': "d' = (let d4 = log_event e (cu_id u) ''status_changed'' (Some (er_id r))
               (Some (status_json (er_status r))) (Some (status_json cancelled))
               (upd_record (er_id r) (enter_stage e cancelled) d)
         in (case get_record d4 (er_id r) of None \<Rightarrow> d4 | Some r' \<Rightarrow> notify_for_workflow_action e r' Cancel d4))"
    using run unfolding apply_transition_Inr to noclaim Let_def by auto
  show "sessions d' = sessions d" "capabilities d' = capabilities d"
    unfolding d' Let_def by (auto simp: frame_simps upd_record_def split: option.split)
  have "audits d' = audits (log_event e (cu_id u) ''status_changed'' (Some (er_id r))
      (Some (status_json (er_status r))) (Some (status_json cancelled)) (upd_record (er_id r) (enter_stage e cancelled) d))"
    unfolding d' Let_def by (auto simp: frame_simps split: option.split)
  then show "audit_prefix d d'"
    using log_event_prefix by (simp add: audit_prefix_def upd_record_def) (simp add: log_event_def Let_def)
qed

lemma update_personnel_Inr:
  assumes "update_personnel e u k q d = Inr d'"
  obtains p d2 where "cu_role u = hr \<or> manage_personnel \<in> capabilities_of d (cu_id u)"
    and "get_personnel d k = Some p" and "check_personnel_patch e q p d = Inr ()"
    and "(if is_leaving q p then close_out_departure e u (patch_personnel (effective_patch e q p) p) (filed_change e u k q p d)
          else Inr (filed_change e u k q p d)) = Inr d2"
    and "d' = clear_supervisor_if (p_is_manager (patch_personnel (effective_patch e q p) p)) e u k d2"
  using assms
  by (auto simp: update_personnel_def personnel_guard_def require_role_or_capability_def bindE_Inr_iff Let_def
      split: option.splits)

lemma patch_personnel_id [simp]: "p_id (patch_personnel q p) = p_id p"
  by (simp add: patch_personnel_def)

lemma filed_change_frame [frame_simps]:
  "users (filed_change e u k q p d) = users d" "records (filed_change e u k q p d) = records d"
  "accesses (filed_change e u k q p d) = accesses d" "sessions (filed_change e u k q p d) = sessions d"
  "capabilities (filed_change e u k q p d) = capabilities d" "scores (filed_change e u k q p d) = scores d"
  "personnels (filed_change e u k q p d) = tbl_upd p_id k (patch_personnel (effective_patch e q p)) (personnels d)"
  by (simp_all add: filed_change_def Let_def frame_simps upd_personnel_def)

lemma clear_supervisor_if_frame [frame_simps]:
  "users (clear_supervisor_if b e u k d) = users d" "records (clear_supervisor_if b e u k d) = records d"
  "personnels (clear_supervisor_if b e u k d) = personnels d" "sessions (clear_supervisor_if b e u k d) = sessions d"
  "capabilities (clear_supervisor_if b e u k d) = capabilities d" "scores (clear_supervisor_if b e u k d) = scores d"
  by (auto simp: clear_supervisor_if_def clear_supervisor_def frame_simps split: option.split)

lemma deactivate_account_frame [frame_simps]:
  "records (deactivate_account e u p d) = records d" "personnels (deactivate_account e u p d) = personnels d"
  "accesses (deactivate_account e u p d) = accesses d" "capabilities (deactivate_account e u p d) = capabilities d"
  "scores (deactivate_account e u p d) = scores d"
  by (auto simp: deactivate_account_def revoke_all_for_user_def upd_user_def frame_simps split: option.split)

text \<open>The row that the departure leaves in the place of the linked account.\<close>

definition retired_user :: "user \<Rightarrow> user" where
  "retired_user x = x\<lparr>u_is_active := False, u_token_version := u_token_version x + 1\<rparr>"

lemma deactivate_account_rows:
  "users (deactivate_account e u p d) = (case linked_account d (p_id p) of
     None \<Rightarrow> users d
   | Some x \<Rightarrow> if u_is_active x then tbl_upd u_id (u_id x) retired_user (users d) else users d)"
  "sessions (deactivate_account e u p d) = (case linked_account d (p_id p) of
     None \<Rightarrow> sessions d
   | Some x \<Rightarrow> if u_is_active x then map (\<lambda>s. if as_user s = u_id x then revoke e s else s) (sessions d) else sessions d)"
proof -
  have ext: "(\<lambda>x. x\<lparr>u_is_active := False, u_token_version := u_token_version x + 1\<rparr>) = retired_user"
    by (simp add: fun_eq_iff retired_user_def)
  show "users (deactivate_account e u p d) = (case linked_account d (p_id p) of
     None \<Rightarrow> users d
   | Some x \<Rightarrow> if u_is_active x then tbl_upd u_id (u_id x) retired_user (users d) else users d)"
    "sessions (deactivate_account e u p d) = (case linked_account d (p_id p) of
     None \<Rightarrow> sessions d
   | Some x \<Rightarrow> if u_is_active x then map (\<lambda>s. if as_user s = u_id x then revoke e s else s) (sessions d) else sessions d)"
    unfolding deactivate_account_def ext
    by (auto simp: revoke_all_for_user_def upd_user_def frame_simps split: option.split)
qed

lemma cancel_open_case_run:
  assumes tbl: "tbl_ok er_id (records d)" and run: "cancel_open_case e u p d = Inr d'"
  shows "(open_record_of d (p_id p) = None \<and> d' = d) \<or>
    (\<exists>r d0. open_record_of d (p_id p) = Some r \<and> quiet_step d d0 \<and> scores d0 = scores d \<and>
      sessions d0 = sessions d \<and> capabilities d0 = capabilities d \<and>
      apply_transition e r Cancel u (\<lambda>d. Inr d) d0 = Inr d' \<and> get_record d0 (er_id r) = Some r)"
proof (cases "open_record_of d (p_id p)")
  case None
  then show ?thesis using run by (simp add: cancel_open_case_def)
next
  case (Some r)
  then have "r \<in> set (records d)" by (auto simp: open_record_of_def find_Some_iff)
  then have get: "get_record d (er_id r) = Some r" using tbl tbl_get_in by (simp add: get_record_def)
  let ?d = "log_event e (cu_id u) ''evaluation_cancelled_on_separation'' (Some (er_id r))
          (Some (status_json (er_status r))) (Some (JObj [(''separation_reason'', JText (reason_text p))]))
          (add_comment_row e (er_id r) (cu_id u) None cm_hr_review
             (lit ''Cancelled, the person left: '' @ reason_text p) d)"
  have "quiet_step d ?d" by auto
  moreover have "scores ?d = scores d" "sessions ?d = sessions d" "capabilities ?d = capabilities d"
    by (simp_all add: frame_simps add_comment_row_def)
  moreover have "get_record ?d (er_id r) = Some r"
    using get by (simp add: frame_simps add_comment_row_def get_record_def)
  ultimately show ?thesis using run Some unfolding cancel_open_case_def by auto
qed

section \<open>What the requests on people keep\<close>

datatype person_request =
    CreatePerson personnel_input
  | UpdatePerson int personnel_patch

fun handle_person :: "env \<Rightarrow> current_user \<Rightarrow> person_request \<Rightarrow> db \<Rightarrow> db result" where
  "handle_person e u (CreatePerson q) d = bindE (create_personnel e u q d) (\<lambda>s. Inr (snd s))"
| "handle_person e u (UpdatePerson k q) d = update_personnel e u k q d"

text \<open>
  Identifiers and codes are unique, a contract ends after it starts, every chain and every account
  belongs to a person on file, and a manager has no supervisor in the chain.
\<close>

definition staff_ok :: "db \<Rightarrow> bool" where
  "staff_ok d \<longleftrightarrow> tbl_ok p_id (personnels d) \<and> distinct (map p_code (personnels d)) \<and>
     (\<forall>p\<in>set (personnels d). p_contract_start p < p_contract_end p) \<and>
     (\<forall>a\<in>set (accesses d). \<exists>p. get_personnel d (ea_personnel a) = Some p \<and>
        (p_is_manager p \<longrightarrow> ea_supervisor a = None)) \<and>
     (\<forall>x\<in>set (users d). \<forall>k. u_personnel_id x = Some k \<longrightarrow> get_personnel d k \<noteq> None)"

definition chains_ok :: "db \<Rightarrow> bool" where
  "chains_ok d \<longleftrightarrow> (\<forall>a\<in>set (accesses d). access_chain_ok a)"

definition people_inv :: "env \<Rightarrow> db \<Rightarrow> bool" where
  "people_inv e d \<longleftrightarrow> results_ok e d \<and> accounts_ok d \<and> staff_ok d"

text \<open>The results stay when only accounts and chains change, as long as nobody comes to judge themselves.\<close>

lemma results_ok_reseat:
  assumes ok: "results_ok e d" and seg: "segregated d'" and ch: "chains_ok d'"
    and eq: "records d' = records d" "scores d' = scores d" "frameworks d' = frameworks d"
      "indicators d' = indicators d" "schemes d' = schemes d"
  shows "results_ok e d'"
proof -
  have cases: "cases_ok d" and fk: "framework_fk d" and all: "\<And>r. r \<in> set (records d) \<Longrightarrow> result_matches e d r"
    using ok unfolding results_ok_def by blast+
  have rows: "case_ok d' r" if r: "r \<in> set (records d)" for r
  proof -
    have "case_ok d r" using cases r unfolding cases_ok_def by blast
    moreover have "\<not> own_evaluator d' (er_subject r) (record_seats r)"
      using seg r unfolding segregated_def eq(1) by blast
    ultimately show ?thesis unfolding case_ok_def by blast
  qed
  have chains: "\<forall>a\<in>set (accesses d'). access_chain_ok a \<and> \<not> own_evaluator d' (ea_personnel a) (access_seats a)"
    using seg ch unfolding segregated_def chains_ok_def by blast
  have "cases_ok d'"
    using cases rows chains unfolding cases_ok_def one_open_def eq(1) by blast
  moreover have "result_matches e d' = result_matches e d" by (rule result_matches_same) (use eq in simp_all)
  moreover have "framework_fk d'" using fk unfolding framework_fk_def get_framework_def eq(1,3) .
  ultimately show ?thesis using all unfolding results_ok_def eq(1) by simp
qed

lemma results_chains: "results_ok e d \<Longrightarrow> chains_ok d"
  by (simp add: results_ok_def cases_ok_def chains_ok_def)

definition result_tables where
  "result_tables d = (records d, scores d, frameworks d, indicators d, schemes d)"

lemma result_tables_frames [frame_simps]:
  "result_tables (log_event e a t r x y d) = result_tables d"
  "result_tables (d\<lparr>users := us\<rparr>) = result_tables d" "result_tables (d\<lparr>personnels := ps\<rparr>) = result_tables d"
  "result_tables (d\<lparr>accesses := as\<rparr>) = result_tables d" "result_tables (d\<lparr>sessions := ss\<rparr>) = result_tables d"
  by (simp_all add: result_tables_def frame_simps)

lemma inv_reseat:
  assumes "results_ok e d" and "result_tables d' = result_tables d" and "accounts_ok d'" and "chains_ok d'"
  shows "results_ok e d'"
  by (rule results_ok_reseat [OF assms(1) _ assms(4)])
    (use assms(2,3) in \<open>simp_all add: result_tables_def accounts_ok_def\<close>)

lemma create_personnel_Inr:
  assumes "create_personnel e u q d = Inr (p, d')"
  obtains x where "personnel_by_code d (ni_code q) = None" and "ni_start q < ni_end q" and "p = new_personnel q d"
    and "\<And>acc. ni_account q = Some acc \<Longrightarrow> user_by_name d (fst acc) = None"
    and "d' = (case ni_account q of None \<Rightarrow> log_event e (cu_id u) ''personnel_created'' None None x (add_personnel p d)
      | Some acc \<Rightarrow> add_employee_account e (cu_id u) acc (p_id p)
          (log_event e (cu_id u) ''personnel_created'' None None x (add_personnel p d)))"
  using assms
  by (auto simp: create_personnel_def personnel_guard_def bindE_Inr_iff Let_def personnel_input_ok_def
      split: if_splits option.splits)

lemma employee_account_sel [simp]:
  "u_id (employee_account e n pw pid d) = tbl_next u_id (users d)" "u_username (employee_account e n pw pid d) = n"
  "u_role (employee_account e n pw pid d) = employee" "u_personnel_id (employee_account e n pw pid d) = Some pid"
  by (simp_all add: employee_account_def)

lemma add_account_ok:
  assumes ok: "accounts_ok d" and name: "user_by_name d n = None"
  shows "accounts_ok (d\<lparr>users := users d @ [employee_account e n pw pid d]\<rparr>)"
proof -
  let ?x = "employee_account e n pw pid d"
  let ?d = "d\<lparr>users := users d @ [?x]\<rparr>"
  have fresh: "tbl_next u_id (users d) \<notin> u_id ` set (users d)"
    using tbl_next_gt [of _ "users d" u_id] by auto (metis less_irrefl)
  have "n \<notin> u_username ` set (users d)" using name by (auto simp: user_by_name_def find_None_iff)
  then have "users_ok ?d" using ok fresh by (auto simp: accounts_ok_def users_ok_def tbl_ok_def)
  moreover have "seats_known ?d" using ok by (auto simp: accounts_ok_def seats_known_def)
  moreover have "segregated ?d"
    using ok fresh by (auto simp: accounts_ok_def segregated_def own_evaluator_def seats_known_def)
  ultimately show ?thesis
    using ok by (simp add: accounts_ok_def caps_ok_def grants_logged_def accesses_ok_def)
qed

lemma accounts_ok_personnels: "accounts_ok (d\<lparr>personnels := ps\<rparr>) = accounts_ok d"
  by (rule accounts_ok_cong) (simp_all add: grants_logged_def)

lemma get_personnel_append:
  "get_personnel d k = Some x \<Longrightarrow> get_personnel (add_personnel p d) k = Some x"
  by (simp add: get_personnel_def add_personnel_def tbl_get_append_Some)

lemma people_inv_reseat:
  assumes "people_inv e d" and "result_tables d' = result_tables d" and "accounts_ok d'" and "chains_ok d'" and "staff_ok d'"
  shows "people_inv e d'"
  using inv_reseat [of e d d'] assms by (simp add: people_inv_def)

lemma people_chains: "people_inv e d \<Longrightarrow> chains_ok d"
  using results_chains [of e d] by (simp add: people_inv_def)

lemma people_inv_log:
  assumes ok: "people_inv e d"
  shows "people_inv e (log_event e' a t r x y d)"
proof (rule people_inv_reseat [OF ok])
  show "chains_ok (log_event e' a t r x y d)" using people_chains [OF ok] by (simp add: chains_ok_def frame_simps)
  show "staff_ok (log_event e' a t r x y d)"
    using ok by (simp add: people_inv_def staff_ok_def frame_simps get_personnel_def)
qed (use ok in \<open>auto simp: frame_simps people_inv_def\<close>)

text \<open>A new person, a new chain and a new account of a person on file.\<close>

lemma people_inv_add_personnel:
  assumes ok: "people_inv e d" and p: "p_id p = tbl_next p_id (personnels d)" "p_contract_start p < p_contract_end p"
    and code: "p_code p \<notin> p_code ` set (personnels d)"
  shows "people_inv e (add_personnel p d)"
proof (rule people_inv_reseat [OF ok])
  show "accounts_ok (add_personnel p d)"
    using ok by (simp add: add_personnel_def accounts_ok_personnels people_inv_def)
  show "chains_ok (add_personnel p d)" using people_chains [OF ok] by (simp add: chains_ok_def add_personnel_def)
  have staff: "staff_ok d" using ok by (simp add: people_inv_def)
  then have "tbl_ok p_id (personnels d @ [p])"
    by (intro tbl_ok_insert) (simp_all add: staff_ok_def p(1))
  moreover have "\<exists>x. get_personnel (add_personnel p d) (ea_personnel a) = Some x \<and>
      (p_is_manager x \<longrightarrow> ea_supervisor a = None)" if "a \<in> set (accesses d)" for a
    using staff that unfolding staff_ok_def by (meson get_personnel_append)
  moreover have "get_personnel (add_personnel p d) k \<noteq> None" if "x \<in> set (users d)" "u_personnel_id x = Some k" for x k
    using staff that get_personnel_append unfolding staff_ok_def by fastforce
  moreover have "distinct (map p_code (personnels d))" "\<forall>x\<in>set (personnels d). p_contract_start x < p_contract_end x"
    using staff by (simp_all add: staff_ok_def)
  ultimately show "staff_ok (add_personnel p d)"
    using p(2) code unfolding staff_ok_def by (simp add: add_personnel_def)
qed (simp add: result_tables_def add_personnel_def)

lemma people_inv_add_account:
  assumes ok: "people_inv e d" and name: "user_by_name d n = None" and pid: "get_personnel d pid \<noteq> None"
  shows "people_inv e (d\<lparr>users := users d @ [employee_account e' n pw pid d]\<rparr>)"
proof (rule people_inv_reseat [OF ok])
  let ?d = "d\<lparr>users := users d @ [employee_account e' n pw pid d]\<rparr>"
  show "accounts_ok ?d" using add_account_ok [OF _ name] ok by (simp add: people_inv_def)
  show "chains_ok ?d" using people_chains [OF ok] by (simp add: chains_ok_def)
  have "get_personnel ?d = get_personnel d" by (simp add: get_personnel_def fun_eq_iff)
  then show "staff_ok ?d"
    using ok pid unfolding people_inv_def staff_ok_def by auto
qed (simp add: result_tables_def)

lemma people_inv_add_chain:
  assumes ok: "people_inv e d" and a: "ea_id a = tbl_next ea_id (accesses d)" "access_chain_ok a"
    and new: "ea_personnel a \<notin> ea_personnel ` set (accesses d)"
    and p: "get_personnel d (ea_personnel a) = Some p" "p_is_manager p \<longrightarrow> ea_supervisor a = None"
    and seats: "\<forall>k. Some k \<in> set (access_seats a) \<longrightarrow> k \<in> u_id ` set (users d)"
    and own: "\<not> own_evaluator d (ea_personnel a) (access_seats a)"
  shows "people_inv e (d\<lparr>accesses := accesses d @ [a]\<rparr>)"
proof (rule people_inv_reseat [OF ok])
  let ?d = "d\<lparr>accesses := accesses d @ [a]\<rparr>"
  have acc: "accounts_ok d" using ok by (simp add: people_inv_def)
  have "accesses_ok ?d"
    using acc new a(1) tbl_ok_insert [of ea_id "accesses d" a] by (simp add: accounts_ok_def accesses_ok_def)
  moreover have "seats_known ?d" using acc seats by (simp add: accounts_ok_def seats_known_def)
  moreover have "segregated ?d" using acc own by (simp add: accounts_ok_def segregated_def own_evaluator_def)
  moreover have "grants_logged ?d" using acc by (simp add: accounts_ok_def grants_logged_def)
  ultimately show "accounts_ok ?d" using acc by (simp add: accounts_ok_def users_ok_def caps_ok_def)
  show "chains_ok ?d" using people_chains [OF ok] a(2) by (simp add: chains_ok_def)
  have "get_personnel ?d = get_personnel d" by (simp add: get_personnel_def fun_eq_iff)
  then show "staff_ok ?d" using ok p unfolding people_inv_def staff_ok_def by auto
qed (simp add: result_tables_def)

lemma get_personnel_added: "get_personnel (add_personnel p d) (p_id p) \<noteq> None"
  by (auto simp: get_personnel_def tbl_get_def find_None_iff add_personnel_def)

lemma create_personnel_ok:
  assumes ok: "people_inv e d" and run: "create_personnel e u q d = Inr (p, d')"
  shows "people_inv e d'"
proof -
  obtain x where q: "personnel_by_code d (ni_code q) = None" "ni_start q < ni_end q" "p = new_personnel q d"
    and name: "\<And>acc. ni_account q = Some acc \<Longrightarrow> user_by_name d (fst acc) = None"
    and d': "d' = (case ni_account q of None \<Rightarrow> log_event e (cu_id u) ''personnel_created'' None None x (add_personnel p d)
      | Some acc \<Rightarrow> add_employee_account e (cu_id u) acc (p_id p)
          (log_event e (cu_id u) ''personnel_created'' None None x (add_personnel p d)))"
    by (rule create_personnel_Inr [OF run]) blast
  let ?d1 = "log_event e (cu_id u) ''personnel_created'' None None x (add_personnel p d)"
  have "people_inv e (add_personnel p d)"
    by (rule people_inv_add_personnel [OF ok])
      (use q in \<open>auto simp: new_personnel_def personnel_by_code_def find_None_iff\<close>)
  then have inv1: "people_inv e ?d1" by (rule people_inv_log)
  show ?thesis
  proof (cases "ni_account q")
    case None
    then show ?thesis using inv1 d' by simp
  next
    case (Some acc)
    have "user_by_name ?d1 (fst acc) = None"
      using name [OF Some] by (simp add: user_by_name_def frame_simps add_personnel_def)
    moreover have "get_personnel ?d1 (p_id p) \<noteq> None"
      using get_personnel_added [of p d] by (simp add: get_personnel_def frame_simps)
    ultimately show ?thesis
      unfolding d' Some option.case add_employee_account_def Let_def
      by (intro people_inv_log people_inv_add_account inv1)
  qed
qed

text \<open>A case that was cancelled keeps what the cases and the accounts promise.\<close>

lemma record_in: "get_record d k = Some r \<Longrightarrow> r \<in> set (records d)"
  using tbl_get_Some_set [of er_id "records d" k r] by (simp add: get_record_def)

lemma cancelled_results_ok:
  assumes ok: "results_ok e d" and eff: "effect e u d d'" and row: "row_step d d' k r'"
    and r: "get_record d k = Some r" and r': "er_status r' = cancelled" "same_stamp r r'"
    and sc: "scores d' = scores d"
  shows "results_ok e d'"
proof -
  have cases: "cases_ok d'"
    by (rule effect_cases_ok [OF _ eff]) (use ok in \<open>simp add: results_ok_def\<close>)
  have st: "static d' = static d" and fw: "frameworks d' = frameworks d"
    using row by (simp_all add: row_step_def)
  have "result_matches e d' = result_matches e d"
    by (rule result_matches_same) (use st fw sc in \<open>simp_all add: static_def\<close>)
  moreover have get: "get_record d' (er_id s) = Some s" if "s \<in> set (records d')" for s
    using cases that tbl_get_in unfolding cases_ok_def get_record_def by metis
  have rows: "s = r' \<or> s \<in> set (records d)" if s: "s \<in> set (records d')" for s
  proof (cases "er_id s = k")
    case True
    then show ?thesis using get [OF s] row by (simp add: row_step_def)
  next
    case False
    then have "get_record d (er_id s) = Some s" using get [OF s] row by (simp add: row_step_def)
    then show ?thesis by (blast dest: record_in)
  qed
  have rd: "r \<in> set (records d)"
    using r by (rule record_in)
  have fk: "framework_fk d'"
    unfolding framework_fk_def
  proof
    fix s assume "s \<in> set (records d')"
    then obtain t where t: "t \<in> set (records d)" "er_framework s = er_framework t"
      using rows rd r'(2) unfolding same_stamp_def by metis
    have "get_framework d' = get_framework d" by (simp add: get_framework_def fw fun_eq_iff)
    then show "\<forall>j. er_framework s = Some j \<longrightarrow> get_framework d' j \<noteq> None"
      using results_ok_fk [OF ok t(1)] t(2) by simp
  qed
  have "result_matches e d s" if "s \<in> set (records d')" for s
    using rows [OF that] ok r'(1) unfolding results_ok_def by (auto simp: result_matches_def)
  ultimately show ?thesis using cases fk unfolding results_ok_def by simp
qed

lemma record_seats_same: "same_chain r r' \<Longrightarrow> record_seats r' = record_seats r"
  by (simp add: same_chain_def record_seats_def)

lemma grants_logged_prefix:
  "grants_logged d \<Longrightarrow> capabilities d' = capabilities d \<Longrightarrow> audit_prefix d d' \<Longrightarrow> grants_logged d'"
  unfolding grants_logged_def audit_prefix_def by fastforce

lemma cancelled_accounts_ok:
  assumes ok: "accounts_ok d" and cases: "cases_ok d'" and row: "row_step d d' k r'"
    and r: "get_record d k = Some r" and r': "same_chain r r'" and caps: "capabilities d' = capabilities d"
    and log: "audit_prefix d d'"
  shows "accounts_ok d'"
proof -
  have st: "users d' = users d" "accesses d' = accesses d"
    using row by (simp_all add: row_step_def static_def)
  have rd: "r \<in> set (records d)"
    using r by (rule record_in)
  have "\<exists>t\<in>set (records d). record_seats s = record_seats t" if s: "s \<in> set (records d')" for s
  proof -
    have get: "get_record d' (er_id s) = Some s"
      using cases s tbl_get_in unfolding cases_ok_def get_record_def by metis
    show ?thesis
    proof (cases "er_id s = k")
      case True
      then show ?thesis using get row rd record_seats_same [OF r'] by (auto simp: row_step_def)
    next
      case False
      then have "get_record d (er_id s) = Some s" using get row by (simp add: row_step_def)
      then show ?thesis by (blast dest: record_in)
    qed
  qed
  then have "seats_known d'"
    using ok unfolding accounts_ok_def seats_known_def st by metis
  moreover have "grants_logged d'"
    by (rule grants_logged_prefix [OF _ caps log]) (use ok in \<open>simp add: accounts_ok_def\<close>)
  ultimately show ?thesis
    using ok cases_ok_segregated [OF cases] caps st
    by (simp add: accounts_ok_def users_ok_def caps_ok_def accesses_ok_def)
qed

definition cases_and_accounts :: "env \<Rightarrow> db \<Rightarrow> bool" where
  "cases_and_accounts e d \<longleftrightarrow> results_ok e d \<and> accounts_ok d"

lemma quiet_result_tables: "quiet_step d d' \<Longrightarrow> scores d' = scores d \<Longrightarrow> result_tables d' = result_tables d"
  by (simp add: result_tables_def quiet_step_def static_def)

lemma kept_by_reseat:
  assumes "cases_and_accounts e d" and "result_tables d' = result_tables d" and "accounts_ok d'"
    and "accesses d' = accesses d"
  shows "cases_and_accounts e d'"
proof -
  have "chains_ok d'"
    using results_chains [of e d] assms(1,4) by (simp add: cases_and_accounts_def chains_ok_def)
  then show ?thesis
    using inv_reseat [of e d d'] assms(1-3) by (simp add: cases_and_accounts_def)
qed

lemma cancelled_none_open:
  assumes "cases_ok d" and cases: "cases_ok d'" and eq: "records d = records d0"
    and r: "r \<in> set (records d0)" "is_open r" "er_subject r = k"
    and row: "row_step d d' (er_id r) r'" and r': "er_status r' = cancelled"
  shows "open_record_of d' k = None"
proof -
  have "\<not> is_open s" if s: "s \<in> set (records d')" "er_subject s = k" for s
  proof (cases "er_id s = er_id r")
    case True
    have "get_record d' (er_id s) = Some s"
      using cases s tbl_get_in unfolding cases_ok_def get_record_def by metis
    then show ?thesis using row True r' by (simp add: row_step_def is_open_iff)
  next
    case False
    have "get_record d' (er_id s) = Some s"
      using cases s tbl_get_in unfolding cases_ok_def get_record_def by metis
    then have "s \<in> set (records d)" using row False by (auto simp: row_step_def dest: record_in)
    then show ?thesis
      using assms(1) r s(2) False unfolding cases_ok_def one_open_def eq by metis
  qed
  then show ?thesis by (auto simp: open_record_of_def find_None_iff)
qed

lemma cancel_open_case_ok:
  assumes ok: "cases_and_accounts e d" and run: "cancel_open_case e u p d = Inr d'"
  shows "cases_and_accounts e d' \<and> static d' = static d \<and> sessions d' = sessions d \<and>
    open_record_of d' (p_id p) = None"
proof (cases "open_record_of d (p_id p)")
  case None
  then show ?thesis using run ok by (simp add: cancel_open_case_def)
next
  case (Some r)
  let ?d = "log_event e (cu_id u) ''evaluation_cancelled_on_separation'' (Some (er_id r))
          (Some (status_json (er_status r))) (Some (JObj [(''separation_reason'', JText (reason_text p))]))
          (add_comment_row e (er_id r) (cu_id u) None cm_hr_review
             (lit ''Cancelled, the person left: '' @ reason_text p) d)"
  have r: "r \<in> set (records d)" "is_open r" "er_subject r = p_id p"
    using Some by (auto simp: open_record_of_def find_Some_iff)
  then have get: "get_record ?d (er_id r) = Some r"
    using ok tbl_get_in [of er_id "records d" r]
    by (simp add: cases_and_accounts_def results_ok_def cases_ok_def frame_simps add_comment_row_def get_record_def)
  have quiet: "quiet_step d ?d" by auto
  have "accounts_ok ?d"
    by (rule accounts_ok_log)
      (use ok in \<open>simp add: cases_and_accounts_def accounts_ok_def users_ok_def caps_ok_def grants_logged_def
        seats_known_def segregated_def own_evaluator_def accesses_ok_def add_comment_row_def\<close>)
  then have ok1: "cases_and_accounts e ?d"
    by (intro kept_by_reseat [OF ok]) (simp_all add: frame_simps add_comment_row_def result_tables_def)
  have run1: "apply_transition e r Cancel u (\<lambda>d. Inr d) ?d = Inr d'"
    using run Some by (simp add: cancel_open_case_def)
  note can = cancel_run [OF run1 get]
  obtain r' where r': "row_step ?d d' (er_id r) r'" "er_status r' = cancelled" "same_stamp r r'" "same_chain r r'"
    using can(2) by blast
  have res: "results_ok e d'"
    using cancelled_results_ok [OF _ can(1) r'(1) get r'(2,3) can(3)] ok1 by (simp add: cases_and_accounts_def)
  then have "accounts_ok d'"
    using cancelled_accounts_ok [OF _ _ r'(1) get r'(4) can(5,6)] ok1
    by (simp add: cases_and_accounts_def results_ok_def)
  moreover have "static d' = static d"
    using r'(1) quiet by (simp add: row_step_def quiet_step_def)
  moreover have "open_record_of d' (p_id p) = None"
    by (rule cancelled_none_open [OF _ _ _ r r'(1,2)])
      (use res ok1 in \<open>simp_all add: results_ok_def cases_and_accounts_def frame_simps add_comment_row_def\<close>)
  ultimately show ?thesis
    using res can(4) by (simp add: cases_and_accounts_def frame_simps add_comment_row_def)
qed

lemma deactivate_account_ok:
  assumes ok: "accounts_ok d"
  shows "accounts_ok (deactivate_account e u p d)"
proof -
  have upd: "accounts_ok (revoke_all_for_user e k (upd_user k retired_user d))" for k
  proof -
    let ?d = "revoke_all_for_user e k (upd_user k retired_user d)"
    have us: "users ?d = tbl_upd u_id k retired_user (users d)"
      and same: "accesses ?d = accesses d" "records ?d = records d" "capabilities ?d = capabilities d"
        "audits ?d = audits d"
      by (simp_all add: revoke_all_for_user_def upd_user_def)
    have keep: "u_id (retired_user x) = u_id x" "u_username (retired_user x) = u_username x"
      "u_role (retired_user x) = u_role x" "u_personnel_id (retired_user x) = u_personnel_id x" for x
      by (simp_all add: retired_user_def)
    have "users_ok ?d"
      using ok unfolding accounts_ok_def users_ok_def us
      by (auto simp: tbl_ok_upd tbl_upd_map set_tbl_upd keep)
    moreover have "seats_known ?d"
      using ok unfolding accounts_ok_def seats_known_def us same by (simp add: tbl_upd_key_set keep)
    moreover have "segregated ?d"
      by (rule segregated_personnel_none [OF _ us same(1,2)]) (use ok in \<open>simp_all add: accounts_ok_def keep\<close>)
    ultimately show ?thesis
      using ok same by (simp add: accounts_ok_def caps_ok_def grants_logged_def accesses_ok_def)
  qed
  have ext: "(\<lambda>x. x\<lparr>u_is_active := False, u_token_version := u_token_version x + 1\<rparr>) = retired_user"
    by (simp add: fun_eq_iff retired_user_def)
  show ?thesis
    unfolding deactivate_account_def ext using ok by (auto intro!: accounts_ok_log upd split: option.split)
qed

text \<open>Emptying the seat of the supervisor.\<close>

definition unsupervised :: "int \<Rightarrow> evaluation_access \<Rightarrow> evaluation_access" where
  "unsupervised k a = a\<lparr>ea_supervisor := None, ea_updated_by := Some k\<rparr>"

lemma unsupervised_sel [simp]:
  "ea_id (unsupervised k a) = ea_id a" "ea_personnel (unsupervised k a) = ea_personnel a"
  "ea_supervisor (unsupervised k a) = None" "Some j \<in> set (access_seats (unsupervised k a)) \<Longrightarrow> Some j \<in> set (access_seats a)"
  "access_chain_ok a \<Longrightarrow> access_chain_ok (unsupervised k a)"
  by (auto simp: unsupervised_def access_seats_def access_chain_ok_def chain_ok_def)

lemma clear_supervisor_rows:
  "accesses (clear_supervisor e u pid d) = accesses d \<or>
    (\<exists>a. access_of d pid = Some a \<and>
      accesses (clear_supervisor e u pid d) = tbl_upd ea_id (ea_id a) (unsupervised (cu_id u)) (accesses d))"
proof -
  have ext: "(\<lambda>a. a\<lparr>ea_supervisor := None, ea_updated_by := Some (cu_id u)\<rparr>) = unsupervised (cu_id u)"
    by (simp add: fun_eq_iff unsupervised_def)
  show ?thesis unfolding clear_supervisor_def ext by (auto simp: frame_simps split: option.split)
qed

lemma clear_supervisor_in:
  assumes "a' \<in> set (accesses (clear_supervisor e u pid d))"
  shows "\<exists>a\<in>set (accesses d). a' = a \<or> a' = unsupervised (cu_id u) a"
  using clear_supervisor_rows [of e u pid d]
proof
  assume "accesses (clear_supervisor e u pid d) = accesses d"
  then show ?thesis using assms by auto
next
  assume "\<exists>a. access_of d pid = Some a \<and>
    accesses (clear_supervisor e u pid d) = tbl_upd ea_id (ea_id a) (unsupervised (cu_id u)) (accesses d)"
  then show ?thesis using assms by (auto simp: set_tbl_upd split: if_splits)
qed

text \<open>Afterwards the person has no supervisor in the chain.\<close>

lemma clear_supervisor_cleared:
  assumes acc: "accesses_ok d" and a': "a' \<in> set (accesses (clear_supervisor e u pid d))" "ea_personnel a' = pid"
  shows "ea_supervisor a' = None"
proof (cases "access_of d pid")
  case None
  then have "accesses (clear_supervisor e u pid d) = accesses d" by (simp add: clear_supervisor_def)
  then show ?thesis using None a' by (auto simp: access_of_None)
next
  case (Some a)
  have a: "a \<in> set (accesses d)" "ea_personnel a = pid" using access_of_Some [OF Some] by simp_all
  have only: "b = a" if "b \<in> set (accesses d)" "ea_personnel b = pid" for b
    using acc a that unfolding accesses_ok_def by (metis distinct_map inj_on_def)
  show ?thesis
  proof (cases "ea_supervisor a")
    case None
    then have "accesses (clear_supervisor e u pid d) = accesses d" using Some by (simp add: clear_supervisor_def)
    then show ?thesis using only [of a'] a' None by simp
  next
    case (Some s)
    have "(\<lambda>a. a\<lparr>ea_supervisor := None, ea_updated_by := Some (cu_id u)\<rparr>) = unsupervised (cu_id u)"
      by (simp add: fun_eq_iff unsupervised_def)
    then have "accesses (clear_supervisor e u pid d) = tbl_upd ea_id (ea_id a) (unsupervised (cu_id u)) (accesses d)"
      using \<open>access_of d pid = Some a\<close> Some by (simp add: clear_supervisor_def frame_simps)
    then obtain b where b: "b \<in> set (accesses d)" "a' = (if ea_id b = ea_id a then unsupervised (cu_id u) b else b)"
      using a'(1) by (auto simp: set_tbl_upd)
    moreover have "ea_personnel b = pid" using b(2) a'(2) by (simp split: if_splits)
    ultimately show ?thesis using only [of b] by simp
  qed
qed

lemma clear_supervisor_tables:
  "users (clear_supervisor e u k d) = users d" "records (clear_supervisor e u k d) = records d"
  "personnels (clear_supervisor e u k d) = personnels d" "capabilities (clear_supervisor e u k d) = capabilities d"
  "result_tables (clear_supervisor e u k d) = result_tables d" "sessions (clear_supervisor e u k d) = sessions d"
  by (auto simp: clear_supervisor_def frame_simps split: option.split)

lemma clear_supervisor_ok:
  assumes ok: "accounts_ok d"
  shows "accounts_ok (clear_supervisor e u pid d)"
proof -
  let ?d = "clear_supervisor e u pid d"
  have sub: "\<exists>a\<in>set (accesses d). ea_personnel a' = ea_personnel a \<and>
      (\<forall>j. Some j \<in> set (access_seats a') \<longrightarrow> Some j \<in> set (access_seats a))" if "a' \<in> set (accesses ?d)" for a'
    using clear_supervisor_in [OF that] unsupervised_sel(2,4) by metis
  have "accesses_ok ?d"
    using clear_supervisor_rows [of e u pid d] ok
    by (auto simp: accounts_ok_def accesses_ok_def tbl_ok_upd tbl_upd_map)
  moreover have "seats_known ?d"
    using ok sub unfolding accounts_ok_def seats_known_def clear_supervisor_tables by metis
  moreover have "segregated ?d"
    using ok sub unfolding accounts_ok_def segregated_def own_evaluator_def clear_supervisor_tables by metis
  moreover have "grants_logged ?d"
    using ok unfolding accounts_ok_def
    by (auto simp: clear_supervisor_def intro!: grants_logged_log split: option.split) (simp_all add: grants_logged_def)
  ultimately show ?thesis
    using ok by (simp add: accounts_ok_def users_ok_def caps_ok_def clear_supervisor_tables)
qed

section \<open>A changed file\<close>

text \<open>What the checks before the write leave of the patched row.\<close>

lemma check_personnel_patch_Inr:
  assumes "check_personnel_patch e q p d = Inr ()"
  shows "p_contract_start (patch_personnel (effective_patch e q p) p) < p_contract_end (patch_personnel (effective_patch e q p) p)"
    and "p_code (patch_personnel (effective_patch e q p) p) = p_code p \<or>
      personnel_by_code d (p_code (patch_personnel (effective_patch e q p) p)) = None"
    and "is_leaving q p \<Longrightarrow> p_separation_reason (patch_personnel (effective_patch e q p) p) \<noteq> None"
proof -
  have eff: "nq_code (effective_patch e q p) = nq_code q"
    "nq_status q \<noteq> Some (Some p_active) \<Longrightarrow> nq_reason (effective_patch e q p) = nq_reason q"
    by (simp_all add: effective_patch_def Let_def)
  show "p_contract_start (patch_personnel (effective_patch e q p) p) < p_contract_end (patch_personnel (effective_patch e q p) p)"
    using assms by (auto simp: check_personnel_patch_def Let_def split: if_splits)
  show "p_code (patch_personnel (effective_patch e q p) p) = p_code p \<or>
      personnel_by_code d (p_code (patch_personnel (effective_patch e q p) p)) = None"
    using assms unfolding check_personnel_patch_def Let_def
    by (auto simp: patch_personnel_def patched_def eff split: if_splits option.splits)
  assume left: "is_leaving q p"
  then have "nq_reason (effective_patch e q p) = nq_reason q" by (intro eff) (simp add: is_leaving_def)
  moreover have "set_option (nq_reason q) None \<noteq> None"
    using assms left by (auto simp: check_personnel_patch_def Let_def split: if_splits)
  ultimately show "p_separation_reason (patch_personnel (effective_patch e q p) p) \<noteq> None"
    by (simp add: patch_personnel_def set_option_def split: option.splits)
qed

text \<open>The rows of the people after a change, and of their chains.\<close>

lemma filed_people:
  assumes staff: "staff_ok d" and p: "get_personnel d k = Some p" and chk: "check_personnel_patch e q p d = Inr ()"
    and ps: "ps = tbl_upd p_id k (patch_personnel (effective_patch e q p)) (personnels d)"
  shows "tbl_ok p_id ps" and "distinct (map p_code ps)" and "\<forall>x\<in>set ps. p_contract_start x < p_contract_end x"
proof -
  let ?f = "patch_personnel (effective_patch e q p)"
  have tbl: "tbl_ok p_id (personnels d)" and dist: "distinct (map p_code (personnels d))"
    and dates: "\<forall>x\<in>set (personnels d). p_contract_start x < p_contract_end x"
    using staff by (simp_all add: staff_ok_def)
  have pk: "p \<in> set (personnels d)" "p_id p = k"
    using p tbl_get_Some_set [of p_id "personnels d" k p] by (simp_all add: get_personnel_def)
  have only: "x = p" if "x \<in> set (personnels d)" "p_id x = k" for x
    using tbl that p tbl_get_in [of p_id "personnels d" x] by (simp add: get_personnel_def)
  show "tbl_ok p_id ps" using tbl by (simp add: ps tbl_ok_upd)
  show "\<forall>x\<in>set ps. p_contract_start x < p_contract_end x"
    using dates only check_personnel_patch_Inr(1) [OF chk] by (auto simp: ps set_tbl_upd)
  have free: "p_code (?f p) \<noteq> p_code x" if "x \<in> set (personnels d)" "x \<noteq> p" for x
    using check_personnel_patch_Inr(2) [OF chk]
  proof
    assume "p_code (?f p) = p_code p"
    then show ?thesis using dist that pk(1) by (metis distinct_map inj_on_def)
  next
    assume "personnel_by_code d (p_code (?f p)) = None"
    then show ?thesis using that(1) by (auto simp: personnel_by_code_def find_None_iff)
  qed
  have rows: "ps = map (\<lambda>x. if x = p then ?f p else x) (personnels d)"
    unfolding ps tbl_upd_def
  proof (rule map_cong [OF refl])
    fix x assume x: "x \<in> set (personnels d)"
    have "p_id x = k \<longleftrightarrow> x = p" using only [OF x] pk(2) by blast
    then show "(if p_id x = k then ?f x else x) = (if x = p then ?f p else x)" by simp
  qed
  have "inj_on (\<lambda>x. p_code (if x = p then ?f p else x)) (set (personnels d))"
  proof (rule inj_onI)
    fix x y assume xy: "x \<in> set (personnels d)" "y \<in> set (personnels d)"
      "p_code (if x = p then ?f p else x) = p_code (if y = p then ?f p else y)"
    have "x = y" if "x \<noteq> p" "y \<noteq> p"
      using dist xy that by (simp add: distinct_map inj_on_def)
    then show "x = y" using xy free [of x] free [of y] by (metis (full_types))
  qed
  then show "distinct (map p_code ps)"
    using dist unfolding rows by (simp add: distinct_map comp_def)
qed

lemma tbl_upd_personnel_ids: "u_personnel_id ` set (tbl_upd u_id k retired_user t) = u_personnel_id ` set t"
proof -
  have "map u_personnel_id (tbl_upd u_id k retired_user t) = map u_personnel_id t"
    by (simp add: tbl_upd_def retired_user_def)
  then show ?thesis by (metis set_map)
qed

lemma filed_change_ok:
  assumes ok: "cases_and_accounts e d"
  shows "cases_and_accounts e (filed_change e u k q p d)"
proof (rule kept_by_reseat [OF ok])
  show "accounts_ok (filed_change e u k q p d)"
    using ok unfolding filed_change_def Let_def upd_personnel_def
    by (intro accounts_ok_log) (simp add: accounts_ok_personnels cases_and_accounts_def)
qed (simp_all add: filed_change_def Let_def frame_simps upd_personnel_def)

lemma update_personnel_ok:
  assumes ok: "people_inv e d" and run: "update_personnel e u k q d = Inr d'"
  shows "people_inv e d'"
proof -
  obtain p d2 where p: "get_personnel d k = Some p" and chk: "check_personnel_patch e q p d = Inr ()"
    and mid: "(if is_leaving q p then close_out_departure e u (patch_personnel (effective_patch e q p) p) (filed_change e u k q p d)
          else Inr (filed_change e u k q p d)) = Inr d2"
    and d': "d' = clear_supervisor_if (p_is_manager (patch_personnel (effective_patch e q p) p)) e u k d2"
    by (rule update_personnel_Inr [OF run]) blast
  let ?p = "patch_personnel (effective_patch e q p) p" and ?d1 = "filed_change e u k q p d"
  have staff: "staff_ok d" and ca: "cases_and_accounts e d"
    using ok by (simp_all add: people_inv_def cases_and_accounts_def)
  note people = filed_people [OF staff p chk filed_change_frame(7)]
  note ca1 = filed_change_ok [OF ca, of u k q p]
  have d2: "cases_and_accounts e d2 \<and> personnels d2 = personnels ?d1 \<and> accesses d2 = accesses d \<and>
      u_personnel_id ` set (users d2) = u_personnel_id ` set (users d)"
  proof (cases "is_leaving q p")
    case True
    then obtain d3 where c: "cancel_open_case e u ?p ?d1 = Inr d3" and d2: "d2 = deactivate_account e u ?p d3"
      using mid by (auto simp: close_out_departure_def bindE_Inr_iff)
    have k3: "cases_and_accounts e d3" "static d3 = static ?d1"
      using cancel_open_case_ok [OF ca1 c] by blast+
    have "cases_and_accounts e d2"
      unfolding d2 by (rule kept_by_reseat [OF k3(1)])
        (use k3(1) in \<open>simp_all add: deactivate_account_ok cases_and_accounts_def frame_simps,
         simp add: deactivate_account_def revoke_all_for_user_def upd_user_def frame_simps split: option.split\<close>)
    moreover have "u_personnel_id ` set (users d2) = u_personnel_id ` set (users d3)"
      by (simp add: d2 deactivate_account_rows tbl_upd_personnel_ids split: option.split)
    ultimately show ?thesis using k3(2) by (simp add: d2 frame_simps static_def)
  qed (use mid ca1 in \<open>auto simp: frame_simps\<close>)
  have "u_personnel_id ` set (users d') = u_personnel_id ` set (users d)"
    using d2 by (simp add: d' clear_supervisor_if_frame)
  then have links: "\<forall>x\<in>set (users d'). \<exists>y\<in>set (users d). u_personnel_id x = u_personnel_id y"
    by (metis imageE imageI)
  have acc2: "accounts_ok d2" and res2: "results_ok e d2" using d2 by (simp_all add: cases_and_accounts_def)
  have "accounts_ok d'" unfolding d' clear_supervisor_if_def using acc2 by (simp add: clear_supervisor_ok)
  moreover have sub: "\<exists>a\<in>set (accesses d). a' = a \<or> a' = unsupervised (cu_id u) a" if "a' \<in> set (accesses d')" for a'
    using that clear_supervisor_in [of a' e u k d2] d2 unfolding d' clear_supervisor_if_def by (auto split: if_splits)
  have "chains_ok d"
    using ca results_chains [of e d] by (simp add: cases_and_accounts_def)
  then have "chains_ok d'"
    using sub unsupervised_sel(5) unfolding chains_ok_def by metis
  moreover have "result_tables d' = result_tables d2"
    by (simp add: d' clear_supervisor_if_def clear_supervisor_tables)
  ultimately have ca': "results_ok e d'" "accounts_ok d'"
    using inv_reseat [OF res2] by blast+
  have ps: "personnels d' = tbl_upd p_id k (patch_personnel (effective_patch e q p)) (personnels d)"
    using d2 by (simp add: d' clear_supervisor_if_frame filed_change_frame)
  have "\<exists>x. get_personnel d' (ea_personnel a') = Some x \<and> (p_is_manager x \<longrightarrow> ea_supervisor a' = None)"
    if a': "a' \<in> set (accesses d')" for a'
  proof -
    obtain a where a: "a \<in> set (accesses d)" "a' = a \<or> a' = unsupervised (cu_id u) a" using sub [OF a'] by blast
    then have pid: "ea_personnel a' = ea_personnel a" by auto
    obtain x where x: "get_personnel d (ea_personnel a) = Some x" "p_is_manager x \<longrightarrow> ea_supervisor a = None"
      using staff a(1) unfolding staff_ok_def by blast
    show ?thesis
    proof (cases "ea_personnel a = k")
      case True
      have "get_personnel d' k = Some ?p" using p by (simp add: ps get_personnel_def tbl_get_upd)
      moreover have "ea_supervisor a' = None" if "p_is_manager ?p"
        using clear_supervisor_cleared [of d2 a' e u k] acc2 a' that True pid
        by (simp add: d' clear_supervisor_if_def accounts_ok_def)
      ultimately show ?thesis using True pid by auto
    next
      case False
      then have "get_personnel d' (ea_personnel a) = Some x" using x(1) by (simp add: ps get_personnel_def tbl_get_upd)
      then show ?thesis using x(2) a(2) pid by auto
    qed
  qed
  moreover have "get_personnel d' j \<noteq> None" if x: "x \<in> set (users d')" and j: "u_personnel_id x = Some j" for x j
  proof -
    obtain y where "y \<in> set (users d)" "u_personnel_id y = Some j"
      using links [rule_format, OF x] j by auto
    then have "get_personnel d j \<noteq> None" using staff unfolding staff_ok_def by blast
    then show ?thesis by (auto simp: ps get_personnel_def tbl_get_upd)
  qed
  ultimately have "staff_ok d'" using people by (simp add: staff_ok_def ps filed_change_frame)
  with ca' show ?thesis by (simp add: people_inv_def)
qed

definition person_step :: "env \<Rightarrow> current_user \<times> person_request \<Rightarrow> db \<Rightarrow> db" where
  "person_step e c d = (case handle_person e (fst c) (snd c) d of Inl _ \<Rightarrow> d | Inr d' \<Rightarrow> d')"

interpretation people_sys: invariant_system "person_step e" "people_inv e" for e
proof
  fix d c assume ok: "people_inv e d"
  show "people_inv e (person_step e c d)"
    using create_personnel_ok [OF ok] update_personnel_ok [OF ok] ok
    by (cases "snd c") (auto simp: person_step_def bindE_Inr_iff bindE_def split: sum.split)
qed

end
