(* ===== verification/PeopleProperties.thy ===== *)
theory PeopleProperties
  imports People PeriodProperties AccountProperties
begin

text \<open>The properties of the personnel files, of the units they are filed under and of the departure of a person.\<close>

section \<open>A staffed sample\<close>

text \<open>The sample person with a chain, an own account and a case in the scoring stage.\<close>

definition staffed_db :: db where
  "staffed_db = (demo_at draft)\<lparr>users := users named_db, capabilities := capabilities named_db\<rparr>"

lemma staffed_rows:
  "get_personnel staffed_db 1 = Some (demo_person 1)" "open_record_of staffed_db 1 = Some (demo_case draft)"
  "get_record staffed_db 1 = Some (demo_case draft)" "records staffed_db = [demo_case draft]"
  "accesses staffed_db = [demo_access]" "personnels staffed_db = [demo_person 1]" "audits staffed_db = []"
  by (simp_all add: staffed_db_def demo_at_def demo_db_def get_personnel_def get_record_def tbl_get_def
      open_record_of_def is_open_iff demo_person_def empty_db_def)

lemma staffed_accounts: "accounts_ok staffed_db"
proof -
  have "users staffed_db = users named_db" "capabilities staffed_db = capabilities named_db"
    by (simp_all add: staffed_db_def)
  moreover have "seats_known staffed_db"
    by (auto simp: seats_known_def staffed_rows demo_seats) (auto simp: staffed_db_def named_db_def demo_user_def)
  moreover have "segregated staffed_db"
    by (simp add: segregated_def staffed_rows demo_seats)
      (simp add: own_evaluator_def staffed_db_def named_db_def demo_user_def demo_access_def)
  moreover have "accesses_ok staffed_db"
    by (simp add: accesses_ok_def staffed_rows tbl_ok_def)
  ultimately show ?thesis
    using named_db_ok
    by (simp add: accounts_ok_def users_ok_def caps_ok_def grants_logged_def) (simp add: named_db_def)
qed

lemma staffed_accounts_linked:
  "x \<in> set (users staffed_db) \<Longrightarrow> u_personnel_id x = Some k \<Longrightarrow> \<exists>y. get_personnel staffed_db k = Some y"
proof -
  have "users staffed_db = users named_db" by (simp add: staffed_db_def)
  then show "x \<in> set (users staffed_db) \<Longrightarrow> u_personnel_id x = Some k \<Longrightarrow> \<exists>y. get_personnel staffed_db k = Some y"
    using staffed_rows(1) by (auto simp: named_db_def demo_db_def demo_user_def)
qed

lemma staffed_people: "people_inv demo_env staffed_db"
proof -
  have "results_ok demo_env staffed_db"
    by (rule inv_reseat [OF demo_results_ok [of draft] _ staffed_accounts])
      (simp_all add: result_tables_def staffed_db_def chains_ok_def demo_at_def demo_db_def
        access_chain_ok_def chain_ok_def demo_access_def)
  moreover have "staff_ok staffed_db"
    by (simp add: staff_ok_def staffed_rows tbl_ok_def demo_access_def)
      (simp add: demo_person_def staffed_accounts_linked)
  ultimately show ?thesis using staffed_accounts by (simp add: people_inv_def)
qed

section \<open>Properties\<close>

text \<open>C8. Whatever people are registered, changed and retired, with or without an account, in any order:
  codes and identifiers stay unique, contracts end after they start, every chain belongs to a person
  on file and a manager has no supervisor in the chain; and the invariants of the accounts and of
  the cases are kept.\<close>

theorem people_stay_well_formed:
  assumes "people_inv e d"
  shows "people_inv e (fold (person_step e) cs d)"
  by (rule people_sys.run_inv [OF assms])

definition leave_patch :: personnel_patch where
  "leave_patch = \<lparr>nq_code = None, nq_full_name = None, nq_job_title = None, nq_is_manager = None,
     nq_org_unit = None, nq_start = None, nq_end = None, nq_status = Some (Some p_inactive),
     nq_reason = Some (Some resignation), nq_separation = None\<rparr>"

theorem people_stay_well_formed_witness:
  "people_inv demo_env (fold (person_step demo_env) [(demo_hr, UpdatePerson 1 leave_patch)] staffed_db)"
  by (rule people_stay_well_formed [OF staffed_people])


lemma cancel_departing:
  "(\<exists>d'. cancel_open_case e u p d = Inr d') \<longleftrightarrow> open_record_of d (p_id p) = None \<or> cu_role u = hr"
proof (cases "open_record_of d (p_id p)")
  case (Some r)
  then have "is_open r" by (auto simp: open_record_of_def find_Some_iff)
  then show ?thesis using Some
    by (simp add: cancel_open_case_def apply_transition_Inr cancel_allowed Let_def)
      (simp add: transition_of_def)
qed (simp add: cancel_open_case_def)

lemma departing:
  assumes "get_personnel d k = Some p" and "is_leaving q p" and "personnel_patch_ok q"
    and "check_personnel_patch e q p d = Inr ()" and "cu_role u = hr \<or> manage_personnel \<in> capabilities_of d (cu_id u)"
  shows "(\<exists>d'. update_personnel e u k q d = Inr d') \<longleftrightarrow> open_record_of d k = None \<or> cu_role u = hr"
proof -
  let ?p = "patch_personnel (effective_patch e q p) p"
  have pk: "p_id p = k" by (rule personnel_st.row_key [OF assms(1)])
  have "open_record_of (filed_change e u k q p d) k = open_record_of d k"
    by (simp add: open_record_of_def filed_change_frame)
  then have "(\<exists>d'. close_out_departure e u ?p (filed_change e u k q p d) = Inr d') \<longleftrightarrow>
      open_record_of d k = None \<or> cu_role u = hr"
    using cancel_departing [of e u ?p "filed_change e u k q p d"] pk
    by (simp add: close_out_departure_def bindE_Inr_iff)
  then show ?thesis
    using assms by (auto simp: update_personnel_def personnel_guard_def require_role_or_capability_def bindE_Inr_iff Let_def)
qed

lemma leave_checked: "check_personnel_patch demo_env leave_patch (demo_person 1) d = Inr ()"
  "is_leaving leave_patch (demo_person 1)" "personnel_patch_ok leave_patch"
  by (simp_all add: check_personnel_patch_def leave_patch_def is_leaving_def effective_patch_def set_option_def
      patch_personnel_def patched_def demo_person_def null_in_required_def personnel_patch_ok_def given_def Let_def)


text \<open>Whoever only manages personnel can retire a person exactly while the person has no open case:
  the cancellation of the case that a departure brings is a move of the workflow, and that move is
  open to human resources alone, so the whole request is refused.\<close>

theorem departure_needs_human_resources:
  assumes "get_personnel d k = Some p" and "is_leaving q p" and "personnel_patch_ok q"
    and "check_personnel_patch e q p d = Inr ()"
    and "cu_role u \<noteq> hr" and "manage_personnel \<in> capabilities_of d (cu_id u)"
  shows "(\<exists>d'. update_personnel e u k q d = Inr d') \<longleftrightarrow> open_record_of d k = None"
  using departing [OF assms(1-4), of u] assms(5,6) by simp

definition personnel_clerk :: current_user where
  "personnel_clerk = \<lparr>cu_id = 6, cu_username = ''adm'', cu_role = support, cu_personnel_id = None\<rparr>"

definition clerk_db :: db where
  "clerk_db = staffed_db\<lparr>capabilities := [\<lparr>uc_id = 1, uc_user = 6, uc_capability = manage_personnel, uc_granted_by = None\<rparr>]\<rparr>"

theorem departure_needs_human_resources_witness:
  "\<not> (\<exists>d'. update_personnel demo_env personnel_clerk 1 leave_patch clerk_db = Inr d')"
proof -
  have "get_personnel clerk_db 1 = Some (demo_person 1)" "open_record_of clerk_db 1 = Some (demo_case draft)"
    using staffed_rows(1,2) by (simp_all add: clerk_db_def get_personnel_def open_record_of_def)
  moreover have "manage_personnel \<in> capabilities_of clerk_db (cu_id personnel_clerk)" "cu_role personnel_clerk \<noteq> hr"
    unfolding capabilities_of_list by (simp_all add: clerk_db_def personnel_clerk_def)
  ultimately show ?thesis
    using departure_needs_human_resources [OF _ leave_checked(2,3,1), of clerk_db 1 personnel_clerk] by simp
qed

lemma seat_of_chain: "Some j \<in> set (access_seats a) \<Longrightarrow> \<exists>s\<in>set CHAIN_SEATS. seat_user a s = Some j"
  by (auto simp: access_seats_def CHAIN_SEATS_def seat_user_def)

text \<open>Every case that a batch opens is put in front of somebody: the assignee of the announcement
  sits in the chain of the person and is an account in use. Managers rely on their chain naming
  no supervisor, which the files and the chains keep between them.\<close>

theorem batch_cases_have_an_assignee:
  assumes "arranges e" and "staff_ok d" and "run_bulk_create e u c d = Inr (qs, d')"
    and "q \<in> set qs" and "bp_outcome q = BulkCreated"
  shows "\<exists>a j x. access_of d (bp_personnel q) = Some a \<and> bp_assignee q = Some j \<and> Some j \<in> set (access_seats a) \<and>
    get_user d j = Some x \<and> u_is_active x"
proof -
  have ok: "people_ok d" using assms(2) by (simp add: people_ok_def staff_ok_def)
  obtain d1 where ex: "execute e c d = (qs, d1)" using bulk_Inr(2) [OF assms(3)] by blast
  obtain i where "i < length qs" "q = qs ! i" using assms(4) by (auto simp: in_set_conv_nth)
  then obtain x where x: "x \<in> set (plan e d c)" "carried_out e (if_id (fst (ensure_framework d))) d d1 x q"
    using execute_Inr(2) [OF assms(1) ok ex] by (force simp: list_all2_conv_all_nth in_set_conv_nth)
  then have created: "bp_outcome x = BulkCreated" and same: "bp_personnel q = bp_personnel x" "bp_assignee q = bp_assignee x"
    using assms(5) by (auto simp: carried_out_def split: if_splits)
  have "planned d x" using plan_planned(1) [OF assms(1) ok] x(1) by blast
  then obtain p where p: "get_personnel d (bp_personnel x) = Some p"
    and x_eq: "x = plan_one d p (access_of d (bp_personnel x)) (open_record_of d (bp_personnel x))"
    by (auto simp: planned_def)
  then obtain a where a: "access_of d (bp_personnel x) = Some a" and live: "inactive_seat_labels d a = []"
    and seat: "p_is_manager p \<or> ea_supervisor a \<noteq> None \<or> ea_deputy a = None" and none: "open_record_of d (bp_personnel x) = None"
    and active: "p_status p = p_active"
    using created plan_one_created by metis
  have man: "p_is_manager p \<longrightarrow> ea_supervisor a = None"
    using assms(2) access_of_Some [OF a] p unfolding staff_ok_def by fastforce
  have "bp_assignee x = (if ea_supervisor a = None \<and> ea_deputy a = None then Some (ea_ceo a)
      else if p_is_manager p then ea_deputy a else ea_supervisor a)"
    using a none active live seat by (subst x_eq) (auto simp: plan_one_def Let_def)
  then obtain j where j: "bp_assignee x = Some j" "Some j \<in> set (access_seats a)"
    using man seat by (cases "ea_supervisor a"; cases "ea_deputy a") (auto simp: access_seats_def split: if_splits)
  then obtain s where "seat_user a s = Some j" "s \<in> set CHAIN_SEATS"
    using seat_of_chain by blast
  then have "\<exists>y. get_user d j = Some y \<and> u_is_active y"
    using live unfolding inactive_seat_labels_def filter_empty_conv by (fastforce split: option.splits)
  then show ?thesis using a j same by auto
qed

theorem batch_cases_have_an_assignee_witness:
  "\<exists>q d' j x. run_bulk_create demo_env demo_hr demo_everyone demo_db = Inr ([q], d') \<and>
     bp_assignee q = Some j \<and> get_user demo_db j = Some x \<and> u_is_active x"
proof -
  have staff: "staff_ok demo_db"
    by (simp add: staff_ok_def demo_db_def tbl_ok_def get_personnel_def tbl_get_def demo_access_def demo_person_def)
      (simp add: demo_user_def)
  obtain qs d' where run: "run_bulk_create demo_env demo_hr demo_everyone demo_db = Inr (qs, d')"
    using bulk_runs [OF hr_requests] by blast
  obtain d1 where "execute demo_env demo_everyone demo_db = (qs, d1)" using bulk_Inr(2) [OF run] by blast
  from execute_Inr(2) [OF demo_env_arranges demo_people this] obtain q where qs: "qs = [q]"
    and q: "bp_outcome q = BulkCreated"
    by (auto simp: demo_plan list_all2_Cons1 carried_out_def)
  then show ?thesis
    using batch_cases_have_an_assignee [OF demo_env_arranges staff run, of q] run by auto
qed

text \<open>The name a unit is filed under gives site and unit back: joining the two and splitting the
  result returns both, up to surrounding blanks, unless the site itself contains a slash.\<close>

theorem split_undoes_join:
  assumes "strip site \<noteq> []" and "strip unit \<noteq> []" and "47 \<notin> set (strip site)"
  shows "split_site (join_site (Some site) unit) = (Some (strip site), strip unit)"
  by (rule split_join [OF assms])

theorem split_undoes_join_witness:
  "split_site (join_site (Some (lit '' plant'')) (lit ''sales '')) = (Some (lit ''plant''), lit ''sales'')"
proof -
  have "strip (lit '' plant'') = lit ''plant''" "strip (lit ''sales '') = lit ''sales''" "47 \<notin> set (lit ''plant'')"
    "lit ''plant'' \<noteq> []" "lit ''sales'' \<noteq> []"
    by (simp_all add: strip_def lit_def is_space_def)
  then show ?thesis using split_undoes_join [of "lit '' plant''" "lit ''sales ''"] by simp
qed

text \<open>Whatever units are defined, renamed and deleted, in any order: whoever is filed under a unit of
  the catalogue stays filed under a unit of the catalogue.\<close>

theorem people_stay_in_defined_units:
  assumes "tbl_ok ou_id (org_units d)" and "filed d k"
  shows "filed (fold (unit_step e) cs d) k"
  using unit_sys.run_inv [of d k e cs] assms by simp

definition unit_db :: db where
  "unit_db = demo_db\<lparr>org_units := [\<lparr>ou_id = 1, ou_site = None, ou_name = lit ''Unit'', ou_active = True, ou_order = 1\<rparr>]\<rparr>"

theorem people_stay_in_defined_units_witness:
  "filed (fold (unit_step demo_env) [(demo_hr, DeleteUnit 1),
     (demo_hr, UpdateUnit 1 \<lparr>uq_site = None, uq_name = Some (Some (lit ''Other'')), uq_active = None\<rparr>)] unit_db) 1"
proof -
  have "full_name \<lparr>ou_id = 1, ou_site = None, ou_name = lit ''Unit'', ou_active = True, ou_order = 1\<rparr> = lit ''Unit''"
    by code_simp
  then have "tbl_ok ou_id (org_units unit_db)" "filed unit_db 1"
    by (simp_all add: unit_db_def tbl_ok_def filed_def) (simp add: demo_db_def demo_person_def)
  then show ?thesis by (rule people_stay_in_defined_units)
qed

end
