(* ===== verification/Import.thy ===== *)
theory Import
  imports People
begin

text \<open>
  The import of people from a workbook (\<open>services/personnel_import.py\<close> and the import pages of
  \<open>routers/personnel.py\<close>): reading a cell as text, number, flag or date, checking every row, finding
  the evaluators by name, and writing the valid rows. What \<open>openpyxl\<close> makes of the file is the
  input, a list of rows of cells; \<open>jdatetime\<close> is the argument \<open>jalali\<close>, the Gregorian day of a Jalali
  date or \<open>None\<close> for its \<open>ValueError\<close>.
\<close>

section \<open>Cells\<close>

text \<open>A date cell comes as a \<open>datetime\<close> (day and microsecond); any other object as its \<open>str\<close>.\<close>

datatype cell = Blank | Text ustr | Value ustr | Day date | Stamp date nat

definition time_text :: "nat \<Rightarrow> ustr" where
  "time_text us = (let sec = us div 1000000; frac = us mod 1000000 in
     pad_to 2 (int (sec div 3600)) @ [58] @ pad_to 2 (int (sec div 60 mod 60)) @ [58] @ pad_to 2 (int (sec mod 60)) @
     (if frac = 0 then [] else [46] @ pad_to 6 (int frac)))"

text \<open>Non-breaking blanks become blanks (the replacement of the zero-width non-joiner is by itself).\<close>

fun cell_text :: "cell \<Rightarrow> ustr" where
  "cell_text Blank = []"
| "cell_text (Text s) = strip (map (\<lambda>c. if c = 160 then 32 else c) s)"
| "cell_text (Value s) = strip s"
| "cell_text (Day n) = lit (iso_date n)"
| "cell_text (Stamp n us) = lit (iso_date n) @ [32] @ time_text us"

text \<open>Persian and Arabic digits become ASCII digits.\<close>

definition ascii_digit :: "nat \<Rightarrow> nat" where
  "ascii_digit c = (if 1776 \<le> c \<and> c \<le> 1785 then c - 1728 else if 1632 \<le> c \<and> c \<le> 1641 then c - 1584 else c)"

definition normalise_digits :: "ustr \<Rightarrow> ustr" where
  "normalise_digits = map ascii_digit"

text \<open>\<open>str.lower\<close> as far as a comparison with the fixed words below needs it.\<close>

definition lower :: "ustr \<Rightarrow> ustr" where
  "lower = map (\<lambda>c. if 65 \<le> c \<and> c \<le> 90 then c + 32 else c)"

definition TRUE_WORDS :: "ustr list" where
  "TRUE_WORDS = [[1576, 1604, 1607], [1576, 1604, 1740], [1570, 1585, 1740], lit ''true'', lit ''yes'', lit ''1'', lit ''y'']"

definition FALSE_WORDS :: "ustr list" where
  "FALSE_WORDS = [[1582, 1740, 1585], [1606, 1607], lit ''false'', lit ''no'', lit ''0'', lit ''n'', []]"

definition ACTIVE_WORDS :: "ustr list" where
  "ACTIVE_WORDS = [[1601, 1593, 1575, 1604], lit ''active'', lit ''1'', []]"

definition INACTIVE_WORDS :: "ustr list" where
  "INACTIVE_WORDS = [[1594, 1740, 1585, 1601, 1593, 1575, 1604], [1594, 1740, 1585, 32, 1601, 1593, 1575, 1604],
     lit ''inactive'', lit ''0'']"

text \<open>A dash, or the words for ``has none'' and ``unknown''.\<close>

definition ABSENT_WORDS :: "ustr list" where
  "ABSENT_WORDS = [[], [45], [8212], [1606, 1583, 1575, 1585, 1583], [1606, 1575, 1605, 1588, 1582, 1589]]"

definition parse_bool :: "cell \<Rightarrow> bool option" where
  "parse_bool raw = (let v = lower (normalise_digits (cell_text raw)) in
     if v \<in> set TRUE_WORDS then Some True else if v \<in> set FALSE_WORDS then Some False else None)"

definition parse_status :: "cell \<Rightarrow> personnel_status option" where
  "parse_status raw = (let v = lower (normalise_digits (cell_text raw)) in
     if v \<in> set ACTIVE_WORDS then Some p_active else if v \<in> set INACTIVE_WORDS then Some p_inactive else None)"

section \<open>Numbers\<close>

text \<open>The code points of the digit zero in Unicode's decimal scripts; nine more digits follow each.\<close>

definition DIGIT_ZEROS :: "nat list" where
  "DIGIT_ZEROS = [48, 1632, 1776, 1984, 2406, 2534, 2662, 2790, 2918, 3046, 3174, 3302, 3430, 3558, 3664, 3792,
     3872, 4160, 4240, 6112, 6160, 6470, 6608, 6784, 6800, 6992, 7088, 7232, 7248, 42528, 43216, 43264, 43472,
     43504, 43600, 44016, 65296, 66720, 68912, 69734, 69872, 69942, 70096, 70384, 70736, 70864, 71248, 71360,
     71472, 71904, 72016, 72784, 73040, 73120, 92768, 92864, 93008, 120782, 120792, 120802, 120812, 120822,
     123200, 123632, 125264, 130032]"

definition digit_value :: "nat \<Rightarrow> nat option" where
  "digit_value c = map_option (\<lambda>z. c - z) (find (\<lambda>z. z \<le> c \<and> c \<le> z + 9) DIGIT_ZEROS)"

text \<open>\<open>int(s)\<close>: a sign, digits with single underscores between them, at most 4300 digits.\<close>

fun int_digits :: "int \<Rightarrow> bool \<Rightarrow> ustr \<Rightarrow> int option" where
  "int_digits acc prev [] = (if prev then Some acc else None)"
| "int_digits acc prev (c # cs) =
     (if c = 95 then (if prev then int_digits acc False cs else None)
      else case digit_value c of None \<Rightarrow> None | Some v \<Rightarrow> int_digits (acc * 10 + int v) True cs)"

definition unsigned_int :: "ustr \<Rightarrow> int option" where
  "unsigned_int s = (if 4300 < length (filter (\<lambda>c. c \<noteq> 95) s) then None else int_digits 0 False s)"

definition py_int :: "ustr \<Rightarrow> int option" where
  "py_int s = (case strip s of
     c # cs \<Rightarrow> if c = 45 then map_option uminus (unsigned_int cs) else if c = 43 then unsigned_int cs else unsigned_int (c # cs)
   | [] \<Rightarrow> None)"

section \<open>Dates\<close>

definition is_leap :: "int \<Rightarrow> bool" where
  "is_leap y \<longleftrightarrow> y mod 4 = 0 \<and> (y mod 100 \<noteq> 0 \<or> y mod 400 = 0)"

definition days_before_month :: "int \<Rightarrow> int \<Rightarrow> int" where
  "days_before_month y m =
     [0, 31, 59, 90, 120, 151, 181, 212, 243, 273, 304, 334] ! nat (m - 1) + (if 2 < m \<and> is_leap y then 1 else 0)"

definition days_in_month :: "int \<Rightarrow> int \<Rightarrow> int" where
  "days_in_month y m =
     (if m = 2 then (if is_leap y then 29 else 28) else if m \<in> {4, 6, 9, 11} then 30 else 31)"

definition ordinal_of :: "int \<Rightarrow> int \<Rightarrow> int \<Rightarrow> date" where
  "ordinal_of y m d = (y - 1) * 365 + (y - 1) div 4 - (y - 1) div 100 + (y - 1) div 400 + days_before_month y m + d"

definition c_int :: "int \<Rightarrow> bool" where
  "c_int i \<longleftrightarrow> - (2 ^ 31) \<le> i \<and> i < 2 ^ 31"

text \<open>\<open>date(y, m, d)\<close>: \<open>OverflowError\<close> outside the C integers, \<open>None\<close> for the \<open>ValueError\<close>.\<close>

definition py_date :: "int \<Rightarrow> int \<Rightarrow> int \<Rightarrow> py_exc + date option" where
  "py_date y m d =
     (if \<not> (c_int y \<and> c_int m \<and> c_int d) then Inl OverflowError
      else Inr (if 1 \<le> y \<and> y \<le> 9999 \<and> 1 \<le> m \<and> m \<le> 12 \<and> 1 \<le> d \<and> d \<le> days_in_month y m
                then Some (ordinal_of y m d) else None))"

fun split_on :: "nat \<Rightarrow> ustr \<Rightarrow> ustr list" where
  "split_on sep [] = [[]]"
| "split_on sep (c # cs) = (if c = sep then [] # split_on sep cs
     else case split_on sep cs of [] \<Rightarrow> [[c]] | t # ts \<Rightarrow> (c # t) # ts)"

text \<open>A \<open>datetime\<close> is a \<open>date\<close> to \<open>isinstance\<close>, so it is returned as it is.\<close>

datatype read_date = PlainDate date | DateTime date nat

definition JALALI_MAX_YEAR :: int where
  "JALALI_MAX_YEAR = 1500"

definition date_parts :: "ustr \<Rightarrow> ustr list" where
  "date_parts s = filter (\<lambda>p. p \<noteq> []) (split_on 47 (map (\<lambda>c. if c = 45 \<or> c = 46 then 47 else c) (normalise_digits s)))"

definition parse_flexible_date ::
  "(int \<Rightarrow> int \<Rightarrow> int \<Rightarrow> date option) \<Rightarrow> cell \<Rightarrow> py_exc + read_date option" where
  "parse_flexible_date jalali raw =
     (if cell_text raw = [] then Inr None
      else case raw of
        Day n \<Rightarrow> Inr (Some (PlainDate n))
      | Stamp n us \<Rightarrow> Inr (Some (DateTime n us))
      | _ \<Rightarrow> (case map py_int (date_parts (cell_text raw)) of
          [Some y, Some m, Some d] \<Rightarrow>
            if y \<le> JALALI_MAX_YEAR then Inr (map_option PlainDate (jalali y m d))
            else bindE (py_date y m d) (\<lambda>r. Inr (map_option PlainDate r))
        | _ \<Rightarrow> Inr None))"

text \<open>\<open>a <= b\<close>: a \<open>datetime\<close> cannot be compared with a \<open>date\<close>.\<close>

fun date_le :: "read_date \<Rightarrow> read_date \<Rightarrow> py_exc + bool" where
  "date_le (PlainDate a) (PlainDate b) = Inr (a \<le> b)"
| "date_le (DateTime a s) (DateTime b t) = Inr (a < b \<or> a = b \<and> s \<le> t)"
| "date_le _ _ = Inl TypeError"

text \<open>What a date column keeps of either.\<close>

fun day_of :: "read_date \<Rightarrow> date" where
  "day_of (PlainDate a) = a"
| "day_of (DateTime a s) = a"

section \<open>Columns\<close>

datatype column =
    CCode | CName | CTitle | CSite | CUnit | CManager | CStatus | CStart | CEnd | CUsername | CPassword | CSeat seat

fun column_title :: "column \<Rightarrow> ustr" where
  "column_title CCode = [1705, 1583, 32, 1662, 1585, 1587, 1606, 1604, 1740]"
| "column_title CName = [1606, 1575, 1605, 32, 1608, 32, 1606, 1575, 1605, 32, 1582, 1575, 1606, 1608, 1575, 1583, 1711, 1740]"
| "column_title CTitle = [1593, 1606, 1608, 1575, 1606, 32, 1588, 1594, 1604, 1740]"
| "column_title CSite = [1605, 1581, 1604]"
| "column_title CUnit = [1608, 1575, 1581, 1583, 32, 1587, 1575, 1586, 1605, 1575, 1606, 1740]"
| "column_title CManager = [1605, 1583, 1740, 1585]"
| "column_title CStatus = [1608, 1590, 1593, 1740, 1578]"
| "column_title CStart = [1588, 1585, 1608, 1593, 32, 1602, 1585, 1575, 1585, 1583, 1575, 1583]"
| "column_title CEnd = [1662, 1575, 1740, 1575, 1606, 32, 1602, 1585, 1575, 1585, 1583, 1575, 1583]"
| "column_title CUsername = [1606, 1575, 1605, 32, 1705, 1575, 1585, 1576, 1585, 1740]"
| "column_title CPassword = [1585, 1605, 1586, 32, 1575, 1608, 1604, 1740, 1607]"
| "column_title (CSeat seat_supervisor) = [1605, 1587, 1574, 1608, 1604, 32, 1605, 1587, 1578, 1602, 1740, 1605]"
| "column_title (CSeat seat_deputy) = [1605, 1593, 1575, 1608, 1606, 1578, 32, 1605, 1585, 1576, 1608, 1591, 1607]"
| "column_title (CSeat seat_ceo) = [1605, 1583, 1740, 1585, 1593, 1575, 1605, 1604]"

definition REQUIRED_COLUMNS :: "column list" where
  "REQUIRED_COLUMNS = [CCode, CName, CTitle, CUnit, CStart, CEnd]"

text \<open>The dictionary of the header: of two equal titles the later position counts.\<close>

fun index_from :: "nat \<Rightarrow> ustr list \<Rightarrow> ustr \<Rightarrow> nat option" where
  "index_from i [] t = None"
| "index_from i (h # hs) t = (case index_from (i + 1) hs t of
     None \<Rightarrow> if h = t then Some i else None | Some j \<Rightarrow> Some j)"

definition column_index :: "ustr list \<Rightarrow> ustr \<Rightarrow> nat option" where
  "column_index header t = index_from 0 header t"

definition cell_at :: "ustr list \<Rightarrow> cell list \<Rightarrow> column \<Rightarrow> cell" where
  "cell_at header row c = (case column_index header (column_title c) of
     None \<Rightarrow> Blank | Some i \<Rightarrow> if i < length row then row ! i else Blank)"

section \<open>Rows\<close>

datatype import_error =
    EmptyField column | CodeTaken | CodeRepeated nat | NoFlag | NoStatus | NoDate column | EndBeforeStart
  | BadUsername | UsernameTaken | UsernameRepeated nat | PasswordAlone | PasswordShort
  | OwnEvaluator seat | UnknownEvaluator seat ustr | AmbiguousEvaluator seat ustr | WrongSeat seat ustr
  | SupervisorIsDeputy | DeputyIsCeo

record import_row =
  ir_number :: nat
  ir_code :: ustr
  ir_full_name :: ustr
  ir_job_title :: ustr
  ir_org_unit :: ustr
  ir_is_manager :: bool
  ir_status :: personnel_status
  ir_start :: "read_date option"
  ir_end :: "read_date option"
  ir_username :: "ustr option"
  ir_password :: "ustr option"
  ir_supervisor :: "int option"
  ir_deputy :: "int option"
  ir_ceo :: "int option"
  ir_errors :: "import_error list"

definition has_chain :: "import_row \<Rightarrow> bool" where
  "has_chain r \<longleftrightarrow> ir_ceo r \<noteq> None"

definition row_ok :: "import_row \<Rightarrow> bool" where
  "row_ok r \<longleftrightarrow> ir_errors r = []"

section \<open>The evaluators of a row\<close>

definition active_users :: "db \<Rightarrow> user list" where
  "active_users d = filter u_is_active (users d)"

definition users_named :: "db \<Rightarrow> ustr \<Rightarrow> user list" where
  "users_named d s = filter (\<lambda>x. case u_full_name x of None \<Rightarrow> False | Some n \<Rightarrow> n \<noteq> [] \<and> strip n = s) (active_users d)"

definition user_called :: "db \<Rightarrow> ustr \<Rightarrow> user list" where
  "user_called d s = filter (\<lambda>x. lit (u_username x) = s) (active_users d)"

text \<open>The chief executives among the users with a display name.\<close>

definition sole_ceo :: "db \<Rightarrow> int option" where
  "sole_ceo d = (case filter (\<lambda>x. u_role x = ceo \<and> u_full_name x \<noteq> None \<and> u_full_name x \<noteq> Some []) (active_users d) of
     [x] \<Rightarrow> Some (u_id x) | _ \<Rightarrow> None)"

fun stage_role :: "seat \<Rightarrow> user_role" where
  "stage_role seat_supervisor = unit_supervisor"
| "stage_role seat_deputy = deputy"
| "stage_role seat_ceo = ceo"

text \<open>One column of the chain: left out, found, or an error of the row.\<close>

definition find_evaluator :: "db \<Rightarrow> ustr \<Rightarrow> ustr \<Rightarrow> seat \<Rightarrow> import_error + int option" where
  "find_evaluator d own written s =
     (if written \<in> set ABSENT_WORDS then Inr None
      else if written = own then Inl (OwnEvaluator s)
      else case (if users_named d written \<noteq> [] then users_named d written else user_called d written) of
        [] \<Rightarrow> Inl (UnknownEvaluator s written)
      | [x] \<Rightarrow> if may_act_at (u_role x) (stage_role s) then Inr (Some (u_id x)) else Inl (WrongSeat s written)
      | _ \<Rightarrow> Inl (AmbiguousEvaluator s written))"

definition found :: "import_error + int option \<Rightarrow> int option" where
  "found v = (case v of Inl x \<Rightarrow> None | Inr k \<Rightarrow> k)"

definition failure :: "import_error + int option \<Rightarrow> import_error list" where
  "failure v = (case v of Inl x \<Rightarrow> [x] | Inr k \<Rightarrow> [])"

definition or_else :: "'a option \<Rightarrow> 'a option \<Rightarrow> 'a option" where
  "or_else a b = (case a of None \<Rightarrow> b | Some x \<Rightarrow> Some x)"

definition resolve_chain :: "db \<Rightarrow> (seat \<Rightarrow> ustr) \<Rightarrow> import_row \<Rightarrow> import_row" where
  "resolve_chain d written r =
     (let look = (\<lambda>s. find_evaluator d (ir_full_name r) (written s) s);
          sv = (if ir_is_manager r then None else found (look seat_supervisor));
          dep = found (look seat_deputy);
          chief = or_else (found (look seat_ceo)) (sole_ceo d)
      in r\<lparr>ir_supervisor := sv, ir_deputy := dep, ir_ceo := chief,
           ir_errors := ir_errors r @ concat (map (\<lambda>s. failure (look s)) CHAIN_SEATS) @
             (if sv \<noteq> None \<and> sv = dep then [SupervisorIsDeputy]
              else if dep \<noteq> None \<and> dep = chief then [DeputyIsCeo] else [])\<rparr>)"

section \<open>Checking the rows\<close>

definition username_char :: "nat \<Rightarrow> bool" where
  "username_char c \<longleftrightarrow> 97 \<le> c \<and> c \<le> 122 \<or> 65 \<le> c \<and> c \<le> 90 \<or> 48 \<le> c \<and> c \<le> 57 \<or> c = 46 \<or> c = 95 \<or> c = 45"

definition import_username_ok :: "ustr \<Rightarrow> bool" where
  "import_username_ok s \<longleftrightarrow> 3 \<le> length s \<and> length s \<le> 50 \<and> list_all username_char s"

text \<open>The codes and the names met so far, with the number of their row.\<close>

type_synonym met = "(ustr \<times> nat) list"

definition check_code :: "db \<Rightarrow> met \<Rightarrow> nat \<Rightarrow> ustr \<Rightarrow> import_error list \<times> met" where
  "check_code d codes n code =
     (if code = [] then ([], codes)
      else if code \<in> set (map p_code (personnels d)) then ([CodeTaken], codes)
      else case map_of codes code of
        Some m \<Rightarrow> ([CodeRepeated m], codes)
      | None \<Rightarrow> ([], (code, n) # codes))"

definition check_username :: "db \<Rightarrow> met \<Rightarrow> nat \<Rightarrow> ustr \<Rightarrow> import_error list \<times> ustr option \<times> met" where
  "check_username d names n name =
     (if name = [] then ([], None, names)
      else if \<not> import_username_ok name then ([BadUsername], None, names)
      else if name \<in> set (map (\<lambda>x. lit (u_username x)) (users d)) then ([UsernameTaken], None, names)
      else case map_of names name of
        Some m \<Rightarrow> ([UsernameRepeated m], None, names)
      | None \<Rightarrow> ([], Some name, (name, n) # names))"

definition check_password :: "ustr \<Rightarrow> ustr \<Rightarrow> import_error list \<times> ustr option" where
  "check_password name pw =
     (if pw = [] then ([], None)
      else if name = [] then ([PasswordAlone], None)
      else if length pw < PASSWORD_MIN_LENGTH then ([PasswordShort], None)
      else ([], Some pw))"

definition check_dates :: "read_date option \<Rightarrow> read_date option \<Rightarrow> py_exc + import_error list" where
  "check_dates a b =
     bindE (case (a, b) of (Some s, Some t) \<Rightarrow> date_le t s | _ \<Rightarrow> Inr False) (\<lambda>bad.
       Inr ((if a = None then [NoDate CStart] else []) @ (if b = None then [NoDate CEnd] else []) @
         (if bad then [EndBeforeStart] else [])))"

definition empty_fields :: "(column \<times> ustr) list \<Rightarrow> import_error list" where
  "empty_fields xs = map (\<lambda>x. EmptyField (fst x)) (filter (\<lambda>x. snd x = []) xs)"

definition cell_code :: "(column \<Rightarrow> cell) \<Rightarrow> ustr" where
  "cell_code cell = normalise_digits (cell_text (cell CCode))"

definition cell_unit :: "(column \<Rightarrow> cell) \<Rightarrow> ustr" where
  "cell_unit cell = join_site (Some (cell_text (cell CSite))) (cell_text (cell CUnit))"

definition row_errors :: "(column \<Rightarrow> cell) \<Rightarrow> import_error list \<Rightarrow> import_error list \<Rightarrow> import_error list \<Rightarrow> import_error list \<Rightarrow> import_error list" where
  "row_errors cell e1 dates e2 e3 =
     empty_fields [(CCode, cell_code cell), (CName, cell_text (cell CName)), (CTitle, cell_text (cell CTitle)),
       (CUnit, cell_unit cell)] @ e1 @
     (if parse_bool (cell CManager) = None then [NoFlag] else []) @
     (if parse_status (cell CStatus) = None then [NoStatus] else []) @ dates @ e2 @ e3"

definition row_as_read ::
  "(column \<Rightarrow> cell) \<Rightarrow> nat \<Rightarrow> read_date option \<Rightarrow> read_date option \<Rightarrow> ustr option \<Rightarrow> ustr option \<Rightarrow> import_error list \<Rightarrow> import_row" where
  "row_as_read cell n a b user pw errors =
     \<lparr>ir_number = n, ir_code = cell_code cell, ir_full_name = cell_text (cell CName),
      ir_job_title = cell_text (cell CTitle), ir_org_unit = cell_unit cell,
      ir_is_manager = (parse_bool (cell CManager) = Some True),
      ir_status = (case parse_status (cell CStatus) of None \<Rightarrow> p_active | Some s \<Rightarrow> s), ir_start = a, ir_end = b,
      ir_username = user, ir_password = pw, ir_supervisor = None, ir_deputy = None, ir_ceo = None,
      ir_errors = errors\<rparr>"

definition parse_row ::
  "(int \<Rightarrow> int \<Rightarrow> int \<Rightarrow> date option) \<Rightarrow> db \<Rightarrow> (column \<Rightarrow> cell) \<Rightarrow> met \<Rightarrow> met \<Rightarrow> nat \<Rightarrow> py_exc + import_row \<times> met \<times> met" where
  "parse_row jalali d cell codes names n =
     bindE (parse_flexible_date jalali (cell CStart)) (\<lambda>a.
     bindE (parse_flexible_date jalali (cell CEnd)) (\<lambda>b.
     bindE (check_dates a b) (\<lambda>dates.
       case check_code d codes n (cell_code cell) of (e1, codes') \<Rightarrow>
       case check_username d names n (cell_text (cell CUsername)) of (e2, user, names') \<Rightarrow>
       case check_password (cell_text (cell CUsername)) (cell_text (cell CPassword)) of (e3, pw) \<Rightarrow>
         Inr (resolve_chain d (\<lambda>s. cell_text (cell (CSeat s)))
           (row_as_read cell n a b user pw (row_errors cell e1 dates e2 e3)), codes', names'))))"

fun parse_rows ::
  "(int \<Rightarrow> int \<Rightarrow> int \<Rightarrow> date option) \<Rightarrow> db \<Rightarrow> ustr list \<Rightarrow> met \<Rightarrow> met \<Rightarrow> nat \<Rightarrow> cell list list \<Rightarrow> py_exc + import_row list" where
  "parse_rows jalali d header codes names n [] = Inr []"
| "parse_rows jalali d header codes names n (raw # rest) =
     (if \<forall>c\<in>set raw. cell_text c = [] then parse_rows jalali d header codes names (n + 1) rest
      else bindE (parse_row jalali d (cell_at header raw) codes names n) (\<lambda>s. case s of (r, codes', names') \<Rightarrow>
        bindE (parse_rows jalali d header codes' names' (n + 1) rest) (\<lambda>rs. Inr (r # rs))))"

section \<open>The file\<close>

datatype file_error = Unreadable | EmptyFile | MissingColumns "column list" | NoRows

record import_preview =
  iv_rows :: "import_row list"
  iv_error :: "file_error option"

definition file_problem :: "file_error \<Rightarrow> import_preview" where
  "file_problem x = \<lparr>iv_rows = [], iv_error = Some x\<rparr>"

definition valid_rows :: "import_preview \<Rightarrow> import_row list" where
  "valid_rows v = filter row_ok (iv_rows v)"

definition invalid_rows :: "import_preview \<Rightarrow> import_row list" where
  "invalid_rows v = filter (\<lambda>r. \<not> row_ok r) (iv_rows v)"

text \<open>An upload: its name, its size and what the library reads from it (\<open>None\<close>: it raises).\<close>

record upload =
  up_name :: ustr
  up_size :: nat
  up_rows :: "cell list list option"

definition parse_workbook ::
  "(int \<Rightarrow> int \<Rightarrow> int \<Rightarrow> date option) \<Rightarrow> cell list list option \<Rightarrow> db \<Rightarrow> py_exc + import_preview" where
  "parse_workbook jalali content d = (case content of
     None \<Rightarrow> Inr (file_problem Unreadable)
   | Some [] \<Rightarrow> Inr (file_problem EmptyFile)
   | Some (first # body) \<Rightarrow>
       let header = map cell_text first;
           missing = filter (\<lambda>c. column_index header (column_title c) = None) REQUIRED_COLUMNS
       in if header = [] then Inr (file_problem EmptyFile)
          else if missing \<noteq> [] then Inr (file_problem (MissingColumns missing))
          else bindE (parse_rows jalali d header [] [] 2 body) (\<lambda>rs.
            Inr (if rs = [] then file_problem NoRows else \<lparr>iv_rows = rs, iv_error = None\<rparr>)))"

section \<open>Writing the valid rows\<close>

text \<open>\<open>str.encode()\<close>: the bytes a password is hashed from.\<close>

definition utf8_char :: "nat \<Rightarrow> nat list" where
  "utf8_char c =
     (if c < 128 then [c]
      else if c < 2048 then [192 + c div 64, 128 + c mod 64]
      else if c < 65536 then [224 + c div 4096, 128 + c div 64 mod 64, 128 + c mod 64]
      else [240 + c div 262144, 128 + c div 4096 mod 64, 128 + c div 64 mod 64, 128 + c mod 64])"

definition utf8 :: "ustr \<Rightarrow> string" where
  "utf8 s = map char_of (concat (map utf8_char s))"

definition stored_day :: "read_date option \<Rightarrow> date" where
  "stored_day v = (case v of None \<Rightarrow> 0 | Some x \<Rightarrow> day_of x)"

definition imported_person :: "import_row \<Rightarrow> db \<Rightarrow> personnel" where
  "imported_person r d = \<lparr>p_id = tbl_next p_id (personnels d), p_code = ir_code r, p_full_name = ir_full_name r,
     p_job_title = ir_job_title r, p_is_manager = ir_is_manager r, p_org_unit = ir_org_unit r,
     p_contract_start = stored_day (ir_start r), p_contract_end = stored_day (ir_end r),
     p_status = ir_status r, p_separation_date = None, p_separation_reason = None\<rparr>"

text \<open>The columns of the table bound the length of a text; the reader of the file does not.\<close>

definition fits_columns :: "import_row \<Rightarrow> bool" where
  "fits_columns r \<longleftrightarrow> length (ir_code r) \<le> 50 \<and> length (ir_full_name r) \<le> 200 \<and>
     length (ir_job_title r) \<le> 150 \<and> length (ir_org_unit r) \<le> 150"

definition optional_id :: "int option \<Rightarrow> json" where
  "optional_id v = (case v of None \<Rightarrow> JNull | Some k \<Rightarrow> JInt k)"

definition imported_access :: "int \<Rightarrow> int \<Rightarrow> import_row \<Rightarrow> int \<Rightarrow> db \<Rightarrow> evaluation_access" where
  "imported_access actor pid r chief d = \<lparr>ea_id = tbl_next ea_id (accesses d), ea_personnel = pid,
     ea_supervisor = ir_supervisor r, ea_deputy = ir_deputy r, ea_ceo = chief, ea_updated_by = Some actor\<rparr>"

definition import_chain :: "env \<Rightarrow> int \<Rightarrow> int \<Rightarrow> import_row \<Rightarrow> db \<Rightarrow> db" where
  "import_chain e actor pid r d = (case ir_ceo r of
     None \<Rightarrow> d
   | Some chief \<Rightarrow> log_event e actor ''evaluation_access_set'' None None
       (Some (JObj [(''personnel_id'', JInt pid), (''unit_supervisor_user_id'', optional_id (ir_supervisor r)),
          (''deputy_user_id'', optional_id (ir_deputy r)), (''ceo_user_id'', JInt chief), (''imported'', JBool True)]))
       (d\<lparr>accesses := accesses d @ [imported_access actor pid r chief d]\<rparr>))"

text \<open>\<open>draw n\<close> is the temporary password drawn for row \<open>n\<close>.\<close>

definition import_account :: "env \<Rightarrow> (nat \<Rightarrow> string) \<Rightarrow> int \<Rightarrow> int \<Rightarrow> import_row \<Rightarrow> db \<Rightarrow> db" where
  "import_account e draw actor pid r d = (case ir_username r of
     None \<Rightarrow> d
   | Some name \<Rightarrow>
      let pw = (case ir_password r of None \<Rightarrow> draw (ir_number r) | Some w \<Rightarrow> utf8 w);
          x = employee_account e (map char_of name) pw pid d
      in log_event e actor ''user_created'' None None
           (Some (JObj [(''id'', JInt (u_id x)), (''username'', JStr (u_username x)),
              (''role'', JStr (role_value (u_role x))), (''created_with_personnel'', JInt pid), (''imported'', JBool True)]))
           (d\<lparr>users := users d @ [x]\<rparr>))"

definition import_row_into :: "env \<Rightarrow> (nat \<Rightarrow> string) \<Rightarrow> int \<Rightarrow> import_row \<Rightarrow> db \<Rightarrow> db result" where
  "import_row_into e draw actor r d =
     (if \<not> fits_columns r then Inl (Uncaught (DataError ''personnel''))
      else
        let p = imported_person r d;
            d1 = log_event e actor ''personnel_created'' None None
              (Some (JObj [(''id'', JInt (p_id p)), (''personnel_code'', JText (p_code p)),
                 (''full_name'', JText (p_full_name p)), (''imported'', JBool True)])) (add_personnel p d)
        in Inr (import_account e draw actor (p_id p) r (import_chain e actor (p_id p) r d1)))"

record import_result =
  il_personnel :: nat
  il_chains :: nat
  il_skipped :: nat
  il_accounts :: "ustr list"

definition commit_import :: "env \<Rightarrow> (nat \<Rightarrow> string) \<Rightarrow> import_preview \<Rightarrow> int \<Rightarrow> db \<Rightarrow> (import_result \<times> db) result" where
  "commit_import e draw v actor d =
     bindE (foldE (import_row_into e draw actor) (valid_rows v) d) (\<lambda>d1.
       let n = length (valid_rows v);
           accounts = concat (map (\<lambda>r. opt_list (ir_username r)) (valid_rows v));
           skipped = length (invalid_rows v)
       in Inr (\<lparr>il_personnel = n, il_chains = length (filter has_chain (valid_rows v)),
                 il_skipped = skipped, il_accounts = accounts\<rparr>,
            log_event e actor ''personnel_imported'' None None
              (Some (JObj [(''created_personnel'', JInt (int n)), (''created_accounts'', JInt (int (length accounts))),
                 (''skipped_rows'', JInt (int skipped))])) d1))"

section \<open>The requests\<close>

definition MAX_IMPORT_BYTES :: nat where
  "MAX_IMPORT_BYTES = 5 * 1024 * 1024"

definition ends_with :: "ustr \<Rightarrow> ustr \<Rightarrow> bool" where
  "ends_with t s \<longleftrightarrow> length t \<le> length s \<and> drop (length s - length t) s = t"

definition read_upload :: "upload \<Rightarrow> cell list list option result" where
  "read_upload f =
     (if \<not> (ends_with (lit ''.xlsx'') (lower (up_name f)) \<or> ends_with (lit ''.xlsm'') (lower (up_name f)))
      then Inl (HTTPException 400 ''only xlsx'')
      else if MAX_IMPORT_BYTES < up_size f then Inl (HTTPException 413 ''the file is too large'')
      else Inr (up_rows f))"

record preview_view =
  vw_total :: nat
  vw_valid :: nat
  vw_invalid :: nat
  vw_accounts :: nat
  vw_rows :: "(nat \<times> ustr \<times> ustr \<times> ustr option \<times> import_error list) list"
  vw_error :: "file_error option"

definition to_preview :: "import_preview \<Rightarrow> preview_view" where
  "to_preview v = \<lparr>vw_total = length (iv_rows v), vw_valid = length (valid_rows v),
     vw_invalid = length (invalid_rows v),
     vw_accounts = length (filter (\<lambda>r. ir_username r \<noteq> None) (valid_rows v)),
     vw_rows = map (\<lambda>r. (ir_number r, ir_code r, ir_full_name r, ir_username r, ir_errors r)) (iv_rows v),
     vw_error = iv_error v\<rparr>"

definition preview_import :: "(int \<Rightarrow> int \<Rightarrow> int \<Rightarrow> date option) \<Rightarrow> db \<Rightarrow> current_user \<Rightarrow> upload \<Rightarrow> preview_view result" where
  "preview_import jalali d u f =
     bindE (personnel_guard u d) (\<lambda>_.
     bindE (read_upload f) (\<lambda>content.
     bindE (uncaught (parse_workbook jalali content d)) (\<lambda>v. Inr (to_preview v))))"

definition import_people ::
  "env \<Rightarrow> (int \<Rightarrow> int \<Rightarrow> int \<Rightarrow> date option) \<Rightarrow> (nat \<Rightarrow> string) \<Rightarrow> current_user \<Rightarrow> upload \<Rightarrow> db \<Rightarrow> (import_result \<times> db) result" where
  "import_people e jalali draw u f d =
     bindE (personnel_guard u d) (\<lambda>_.
     bindE (read_upload f) (\<lambda>content.
     bindE (uncaught (parse_workbook jalali content d)) (\<lambda>v.
       if iv_error v \<noteq> None then Inl (HTTPException 400 ''the file cannot be imported'')
       else commit_import e draw v (cu_id u) d)))"

section \<open>What a valid row has\<close>

text \<open>A seat of a valid row is an active user, and the chain merges no stages.\<close>

definition seats_found :: "db \<Rightarrow> import_row \<Rightarrow> bool" where
  "seats_found d r \<longleftrightarrow> (\<forall>k. Some k \<in> set [ir_supervisor r, ir_deputy r, ir_ceo r] \<longrightarrow>
     (\<exists>x\<in>set (users d). u_id x = k \<and> u_is_active x)) \<and>
     (ir_is_manager r \<longrightarrow> ir_supervisor r = None)"

definition dates_ordered :: "import_row \<Rightarrow> bool" where
  "dates_ordered r \<longleftrightarrow> (\<exists>s t. ir_start r = Some s \<and> ir_end r = Some t \<and> date_le t s = Inr False)"

definition name_free :: "db \<Rightarrow> ustr \<Rightarrow> bool" where
  "name_free d n \<longleftrightarrow> import_username_ok n \<and> n \<notin> (\<lambda>x. lit (u_username x)) ` set (users d)"

definition row_checked :: "db \<Rightarrow> import_row \<Rightarrow> bool" where
  "row_checked d r \<longleftrightarrow> ir_code r \<noteq> [] \<and> ir_full_name r \<noteq> [] \<and> ir_job_title r \<noteq> [] \<and> ir_org_unit r \<noteq> [] \<and>
     ir_code r \<notin> p_code ` set (personnels d) \<and> (\<forall>n. ir_username r = Some n \<longrightarrow> name_free d n) \<and>
     dates_ordered r \<and> seats_found d r \<and> chain_ok (ir_supervisor r) (ir_deputy r) (ir_ceo r)"

lemma find_evaluator_found: "found (find_evaluator d own w s) = Some k \<Longrightarrow> \<exists>x\<in>set (users d). u_id x = k \<and> u_is_active x"
proof -
  assume a: "found (find_evaluator d own w s) = Some k"
  let ?xs = "if users_named d w \<noteq> [] then users_named d w else user_called d w"
  have "set ?xs \<subseteq> {x \<in> set (users d). u_is_active x}"
    by (auto simp: users_named_def user_called_def active_users_def)
  moreover obtain x where "?xs = [x]" "u_id x = k"
    using a by (auto simp: find_evaluator_def found_def split: if_splits list.splits)
  ultimately show ?thesis by auto
qed

lemma sole_ceo_active: "sole_ceo d = Some k \<Longrightarrow> \<exists>x\<in>set (users d). u_id x = k \<and> u_is_active x"
proof -
  let ?xs = "filter (\<lambda>x. u_role x = ceo \<and> u_full_name x \<noteq> None \<and> u_full_name x \<noteq> Some []) (active_users d)"
  assume "sole_ceo d = Some k"
  then obtain x where "?xs = [x]" "u_id x = k" by (auto simp: sole_ceo_def split: list.splits)
  moreover have "set ?xs \<subseteq> {x \<in> set (users d). u_is_active x}" by (auto simp: active_users_def)
  ultimately show ?thesis by auto
qed

lemma resolve_chain_row [simp]:
  "ir_number (resolve_chain d w r) = ir_number r" "ir_code (resolve_chain d w r) = ir_code r"
  "ir_full_name (resolve_chain d w r) = ir_full_name r" "ir_job_title (resolve_chain d w r) = ir_job_title r"
  "ir_org_unit (resolve_chain d w r) = ir_org_unit r" "ir_is_manager (resolve_chain d w r) = ir_is_manager r"
  "ir_status (resolve_chain d w r) = ir_status r" "ir_start (resolve_chain d w r) = ir_start r"
  "ir_end (resolve_chain d w r) = ir_end r" "ir_username (resolve_chain d w r) = ir_username r"
  "ir_password (resolve_chain d w r) = ir_password r"
  by (simp_all add: resolve_chain_def Let_def)

lemma resolve_chain_seats: "seats_found d (resolve_chain d w r)"
proof -
  have "\<exists>x\<in>set (users d). u_id x = k \<and> u_is_active x"
    if "Some k = or_else (found (find_evaluator d own v s)) (sole_ceo d)" for k own v s
    using that find_evaluator_found [of d own v s k] sole_ceo_active [of d k]
    by (simp add: or_else_def split: option.splits)
  moreover have "\<exists>x\<in>set (users d). u_id x = k \<and> u_is_active x"
    if "Some k = found (find_evaluator d own v s)" for k own v s
    using that find_evaluator_found by metis
  ultimately show ?thesis unfolding seats_found_def resolve_chain_def Let_def by (auto split: if_splits)
qed

lemma resolve_chain_ok:
  assumes "row_ok (resolve_chain d w r)"
  shows "row_ok r" and "chain_ok (ir_supervisor (resolve_chain d w r)) (ir_deputy (resolve_chain d w r)) (ir_ceo (resolve_chain d w r))"
  using assms unfolding row_ok_def chain_ok_def resolve_chain_def Let_def by (auto split: if_splits)

lemma check_code_ok:
  "check_code d codes n code = ([], codes') \<Longrightarrow> code \<noteq> [] \<Longrightarrow>
    code \<notin> p_code ` set (personnels d) \<and> code \<notin> fst ` set codes \<and> codes' = (code, n) # codes"
  by (auto simp: check_code_def map_of_eq_None_iff split: if_splits option.splits)

lemma check_code_grows: "check_code d codes n code = (es, codes') \<Longrightarrow> fst ` set codes \<subseteq> fst ` set codes'"
  by (auto simp: check_code_def split: if_splits option.splits)

lemma check_username_ok:
  "check_username d names n name = (es, user, names') \<Longrightarrow>
    fst ` set names \<subseteq> fst ` set names' \<and> (\<forall>m. user = Some m \<longrightarrow> m \<notin> fst ` set names \<and> m \<in> fst ` set names' \<and> name_free d m)"
  by (auto simp: check_username_def name_free_def map_of_eq_None_iff split: if_splits option.splits)

lemma check_dates_ok: "check_dates a b = Inr [] \<Longrightarrow> \<exists>s t. a = Some s \<and> b = Some t \<and> date_le t s = Inr False"
  by (cases a; cases b) (auto simp: check_dates_def bindE_Inr_iff split: if_splits)

lemma row_as_read_sel [simp]:
  "ir_code (row_as_read cell n a b user pw es) = cell_code cell" "ir_start (row_as_read cell n a b user pw es) = a"
  "ir_end (row_as_read cell n a b user pw es) = b" "ir_username (row_as_read cell n a b user pw es) = user"
  "ir_errors (row_as_read cell n a b user pw es) = es" "ir_full_name (row_as_read cell n a b user pw es) = cell_text (cell CName)"
  "ir_job_title (row_as_read cell n a b user pw es) = cell_text (cell CTitle)"
  "ir_org_unit (row_as_read cell n a b user pw es) = cell_unit cell"
  "ir_is_manager (row_as_read cell n a b user pw es) = (parse_bool (cell CManager) = Some True)"
  by (simp_all add: row_as_read_def)

lemma parse_row_Inr:
  assumes "parse_row jalali d cell codes names n = Inr (r, codes', names')"
  obtains a b dates e1 e2 user e3 pw where "parse_flexible_date jalali (cell CStart) = Inr a"
    and "parse_flexible_date jalali (cell CEnd) = Inr b" and "check_dates a b = Inr dates"
    and "check_code d codes n (cell_code cell) = (e1, codes')"
    and "check_username d names n (cell_text (cell CUsername)) = (e2, user, names')"
    and "r = resolve_chain d (\<lambda>s. cell_text (cell (CSeat s))) (row_as_read cell n a b user pw (row_errors cell e1 dates e2 e3))"
  using assms unfolding parse_row_def bindE_Inr_iff by (fastforce split: prod.splits)

lemma parse_row_checked:
  assumes run: "parse_row jalali d cell codes names n = Inr (r, codes', names')" and ok: "row_ok r"
  shows "row_checked d r \<and> ir_code r \<notin> fst ` set codes \<and> ir_code r \<in> fst ` set codes'"
proof (rule parse_row_Inr [OF run])
  fix a b dates e1 e2 user e3 pw
  let ?r = "row_as_read cell n a b user pw (row_errors cell e1 dates e2 e3)"
  assume d: "check_dates a b = Inr dates" "check_code d codes n (cell_code cell) = (e1, codes')"
      "check_username d names n (cell_text (cell CUsername)) = (e2, user, names')"
    and r: "r = resolve_chain d (\<lambda>s. cell_text (cell (CSeat s))) ?r"
  have "row_ok ?r" by (rule resolve_chain_ok(1)) (use ok r in simp)
  then have none: "e1 = []" "dates = []" "cell_code cell \<noteq> []" "cell_text (cell CName) \<noteq> []"
      "cell_text (cell CTitle) \<noteq> []" "cell_unit cell \<noteq> []"
    by (auto simp: row_ok_def row_errors_def empty_fields_def split: if_splits)
  have code: "cell_code cell \<notin> p_code ` set (personnels d)" "cell_code cell \<notin> fst ` set codes"
      "codes' = (cell_code cell, n) # codes"
    using check_code_ok [of d codes n "cell_code cell" codes'] d(2) none(1,3) by simp_all
  have "dates_ordered r" using check_dates_ok [of a b] d(1) none(2) by (simp add: dates_ordered_def r)
  moreover have "\<forall>n. ir_username r = Some n \<longrightarrow> name_free d n" using check_username_ok [OF d(3)] by (simp add: r)
  moreover have "seats_found d r" unfolding r by (rule resolve_chain_seats)
  moreover have "chain_ok (ir_supervisor r) (ir_deputy r) (ir_ceo r)"
    unfolding r by (rule resolve_chain_ok(2)) (use ok r in simp)
  ultimately show ?thesis
    using none code unfolding row_checked_def by (simp add: r)
qed

lemma parse_row_met:
  assumes run: "parse_row jalali d cell codes names n = Inr (r, codes', names')"
  shows "fst ` set codes \<subseteq> fst ` set codes' \<and> fst ` set names \<subseteq> fst ` set names' \<and>
    (\<forall>m. ir_username r = Some m \<longrightarrow> m \<notin> fst ` set names \<and> m \<in> fst ` set names')"
proof (rule parse_row_Inr [OF run])
  fix a b dates e1 e2 user e3 pw
  assume "check_code d codes n (cell_code cell) = (e1, codes')"
    and "check_username d names n (cell_text (cell CUsername)) = (e2, user, names')"
    and r: "r = resolve_chain d (\<lambda>s. cell_text (cell (CSeat s))) (row_as_read cell n a b user pw (row_errors cell e1 dates e2 e3))"
  note check_code_grows [OF this(1)] check_username_ok [OF this(2)]
  then show ?thesis by (simp add: r)
qed

text \<open>All rows of a file: the codes of the valid ones differ, and so do the names.\<close>

definition row_names :: "import_row list \<Rightarrow> ustr list" where
  "row_names rs = concat (map (\<lambda>r. opt_list (ir_username r)) rs)"

lemma disjoint_step:
  "A \<subseteq> B \<Longrightarrow> B \<inter> S = {} \<Longrightarrow> X = (if b then {c} else {}) \<union> S \<Longrightarrow> (b \<Longrightarrow> c \<notin> A) \<Longrightarrow> A \<inter> X = {}"
  by auto

lemma parse_rows_checked:
  "parse_rows jalali d header codes names n raws = Inr rs \<Longrightarrow>
    (\<forall>r\<in>set (filter row_ok rs). row_checked d r) \<and>
    distinct (map ir_code (filter row_ok rs)) \<and> fst ` set codes \<inter> ir_code ` set (filter row_ok rs) = {} \<and>
    distinct (row_names rs) \<and> fst ` set names \<inter> set (row_names rs) = {}"
proof (induction raws arbitrary: codes names n rs)
  case Nil
  then show ?case by (simp add: row_names_def)
next
  case (Cons raw raws)
  show ?case
  proof (cases "\<forall>c\<in>set raw. cell_text c = []")
    case True
    then show ?thesis using Cons.IH [of codes names "n + 1" rs] Cons.prems by simp
  next
    case False
    then obtain r codes' names' ts where
        r: "parse_row jalali d (cell_at header raw) codes names n = Inr (r, codes', names')"
      and ts: "parse_rows jalali d header codes' names' (n + 1) raws = Inr ts" and rs: "rs = r # ts"
      using Cons.prems unfolding parse_rows.simps if_not_P [OF False] by (auto simp: bindE_Inr_iff)
    note ih = Cons.IH [OF ts] and met = parse_row_met [OF r]
    have "row_names rs = opt_list (ir_username r) @ row_names ts" by (simp add: rs row_names_def)
    then have "distinct (row_names rs) \<and> fst ` set names \<inter> set (row_names rs) = {}"
      using ih met by (cases "ir_username r") (simp_all add: opt_list_def, blast+)
    moreover have "fst ` set codes \<inter> ir_code ` set (filter row_ok rs) = {}"
    proof -
      have "fst ` set codes \<subseteq> fst ` set codes'" by (rule met [THEN conjunct1])
      moreover have "fst ` set codes' \<inter> ir_code ` set (filter row_ok ts) = {}"
        by (rule ih [THEN conjunct2, THEN conjunct2, THEN conjunct1])
      moreover have "ir_code ` set (filter row_ok rs) =
          (if row_ok r then {ir_code r} else {}) \<union> ir_code ` set (filter row_ok ts)"
        by (simp add: rs)
      moreover have "row_ok r \<Longrightarrow> ir_code r \<notin> fst ` set codes" using parse_row_checked [OF r] by blast
      ultimately show ?thesis by (rule disjoint_step)
    qed
    moreover have "distinct (map ir_code (filter row_ok rs))"
      using ih parse_row_checked [OF r] by (auto simp: rs)
    moreover have "\<forall>r\<in>set (filter row_ok rs). row_checked d r"
      using ih parse_row_checked [OF r] by (auto simp: rs)
    ultimately show ?thesis by blast
  qed
qed

section \<open>What an import keeps\<close>

text \<open>Date cells without a time of day, as a workbook has them.\<close>

definition whole_days :: "cell list list \<Rightarrow> bool" where
  "whole_days rows \<longleftrightarrow> (\<forall>row\<in>set rows. \<forall>n us. Stamp n us \<in> set row \<longrightarrow> us = 0)"

fun whole_date :: "read_date option \<Rightarrow> bool" where
  "whole_date (Some (DateTime n us)) = (us = 0)"
| "whole_date _ = True"

definition whole_row :: "import_row \<Rightarrow> bool" where
  "whole_row r \<longleftrightarrow> whole_date (ir_start r) \<and> whole_date (ir_end r)"

lemma dates_ordered_stored: "dates_ordered r \<Longrightarrow> whole_row r \<Longrightarrow> stored_day (ir_start r) < stored_day (ir_end r)"
  unfolding dates_ordered_def whole_row_def
  by (elim exE conjE) (rename_tac s t, case_tac s; case_tac t; force simp: stored_day_def)

lemma username_chars: "import_username_ok n \<Longrightarrow> lit (map char_of n) = n"
proof -
  assume "import_username_ok n"
  then have "\<forall>c\<in>set n. c < 256" by (auto simp: import_username_ok_def list_all_iff username_char_def)
  then show ?thesis by (induction n) (simp_all add: lit_def of_char_of)
qed

text \<open>A checked row that can still be written, also after other rows have been.\<close>

definition writable :: "db \<Rightarrow> import_row \<Rightarrow> bool" where
  "writable d r \<longleftrightarrow> ir_code r \<notin> p_code ` set (personnels d) \<and> (\<forall>n. ir_username r = Some n \<longrightarrow> name_free d n) \<and>
     stored_day (ir_start r) < stored_day (ir_end r) \<and> (ir_is_manager r \<longrightarrow> ir_supervisor r = None) \<and>
     (\<forall>k. Some k \<in> set [ir_supervisor r, ir_deputy r, ir_ceo r] \<longrightarrow> k \<in> u_id ` set (users d)) \<and>
     chain_ok (ir_supervisor r) (ir_deputy r) (ir_ceo r)"

lemma checked_writable: "row_checked d r \<Longrightarrow> whole_row r \<Longrightarrow> writable d r"
  using dates_ordered_stored [of r] unfolding row_checked_def writable_def seats_found_def by blast

lemma import_row_into_Inr:
  assumes "import_row_into e draw actor r d = Inr d'"
  obtains p x d1 where "p = imported_person r d"
    and "d1 = log_event e actor ''personnel_created'' None None x (add_personnel p d)"
    and "d' = import_account e draw actor (p_id p) r (import_chain e actor (p_id p) r d1)"
    and "fits_columns r"
  using assms by (auto simp: import_row_into_def Let_def split: if_splits)

lemma import_chain_frame [frame_simps]:
  "users (import_chain e actor pid r d) = users d" "personnels (import_chain e actor pid r d) = personnels d"
  by (simp_all add: import_chain_def frame_simps split: option.split)

lemma import_chain_ok:
  assumes ok: "people_inv e d" and p: "get_personnel d pid = Some p" "p_is_manager p = ir_is_manager r"
    and new: "pid \<notin> ea_personnel ` set (accesses d)" and none: "\<forall>x\<in>set (users d). u_personnel_id x \<noteq> Some pid"
    and w: "ir_is_manager r \<longrightarrow> ir_supervisor r = None" "chain_ok (ir_supervisor r) (ir_deputy r) (ir_ceo r)"
      "\<forall>k. Some k \<in> set [ir_supervisor r, ir_deputy r, ir_ceo r] \<longrightarrow> k \<in> u_id ` set (users d)"
  shows "people_inv e (import_chain e' actor pid r d)"
proof (cases "ir_ceo r")
  case None
  then show ?thesis using ok by (simp add: import_chain_def)
next
  case (Some k)
  let ?a = "imported_access actor pid r k d"
  have seats: "access_seats ?a = [ir_supervisor r, ir_deputy r, ir_ceo r]"
    by (simp add: access_seats_def imported_access_def Some)
  have "people_inv e (d\<lparr>accesses := accesses d @ [?a]\<rparr>)"
  proof (rule people_inv_add_chain [OF ok])
    show "access_chain_ok ?a" using w(2) by (simp add: access_chain_ok_def imported_access_def Some)
    show "\<not> own_evaluator d (ea_personnel ?a) (access_seats ?a)"
      using none by (auto simp: own_evaluator_def imported_access_def)
    show "\<forall>k. Some k \<in> set (access_seats ?a) \<longrightarrow> k \<in> u_id ` set (users d)" using w(3) unfolding seats .
  qed (use p new w(1) in \<open>auto simp: imported_access_def\<close>)
  then show ?thesis unfolding import_chain_def Some option.case by (rule people_inv_log)
qed

lemma import_account_ok:
  assumes ok: "people_inv e d" and "get_personnel d pid \<noteq> None" and name: "\<And>n. ir_username r = Some n \<Longrightarrow> name_free d n"
  shows "people_inv e (import_account e' draw actor pid r d)"
proof (cases "ir_username r")
  case None
  then show ?thesis using ok by (simp add: import_account_def)
next
  case (Some n)
  have "lit (map char_of n) = n" using name [OF Some] username_chars by (simp add: name_free_def)
  then have "user_by_name d (map char_of n) = None"
    using name [OF Some] by (auto simp: user_by_name_def find_None_iff name_free_def image_iff)
  then show ?thesis
    unfolding import_account_def Some option.case Let_def
    by (intro people_inv_log people_inv_add_account ok assms(2))
qed

lemma import_account_rows:
  "personnels (import_account e draw actor pid r d) = personnels d"
  "(\<lambda>x. lit (u_username x)) ` set (users (import_account e draw actor pid r d)) =
     (\<lambda>x. lit (u_username x)) ` set (users d) \<union> (\<lambda>n. lit (map char_of n)) ` set (opt_list (ir_username r))"
  "u_id ` set (users d) \<subseteq> u_id ` set (users (import_account e draw actor pid r d))"
  by (auto simp: import_account_def Let_def frame_simps opt_list_def split: option.splits)

lemma import_row_into_ok:
  assumes ok: "people_inv e d" and w: "writable d r" and run: "import_row_into e' draw actor r d = Inr d'"
  shows "people_inv e d'" and "personnels d' = personnels d @ [imported_person r d]"
    and "(\<lambda>x. lit (u_username x)) ` set (users d') =
      (\<lambda>x. lit (u_username x)) ` set (users d) \<union> (\<lambda>n. lit (map char_of n)) ` set (opt_list (ir_username r))"
    and "u_id ` set (users d) \<subseteq> u_id ` set (users d')"
proof -
  obtain p x d1 where p: "p = imported_person r d"
    and d1: "d1 = log_event e' actor ''personnel_created'' None None x (add_personnel p d)"
    and d': "d' = import_account e' draw actor (p_id p) r (import_chain e' actor (p_id p) r d1)"
    by (rule import_row_into_Inr [OF run]) blast
  let ?d2 = "import_chain e' actor (p_id p) r d1"
  have tables: "users d1 = users d" "accesses d1 = accesses d" "personnels d1 = personnels d @ [p]"
    by (simp_all add: d1 frame_simps add_personnel_def)
  have pid: "p_id p = tbl_next p_id (personnels d)" by (simp add: p imported_person_def)
  have inv1: "people_inv e d1"
    unfolding d1
    by (rule people_inv_log, rule people_inv_add_personnel [OF ok])
      (use w in \<open>simp_all add: p imported_person_def writable_def\<close>)
  have gone: "get_personnel d (p_id p) = None"
    using tbl_next_gt [of _ "personnels d" p_id]
    by (auto simp: pid get_personnel_def tbl_get_def find_None_iff) (metis less_irrefl)
  have staff: "staff_ok d" using ok by (simp add: people_inv_def)
  have new: "p_id p \<notin> ea_personnel ` set (accesses d1)" "\<forall>x\<in>set (users d1). u_personnel_id x \<noteq> Some (p_id p)"
    using staff gone unfolding staff_ok_def tables by fastforce+
  have get: "get_personnel d1 (p_id p) = Some p"
    using inv1 tbl_get_in [of p_id "personnels d1" p] by (simp add: people_inv_def staff_ok_def get_personnel_def tables)
  have inv2: "people_inv e ?d2"
    by (rule import_chain_ok [OF inv1 get _ new])
      (use w in \<open>simp_all only: writable_def tables, simp_all add: p imported_person_def\<close>)
  have names: "users ?d2 = users d" by (simp add: frame_simps tables)
  show "people_inv e d'"
    unfolding d'
  proof (rule import_account_ok [OF inv2])
    show "get_personnel ?d2 (p_id p) \<noteq> None" using get by (simp add: get_personnel_def frame_simps)
    show "name_free ?d2 n" if "ir_username r = Some n" for n
      using w that names by (simp add: writable_def name_free_def)
  qed
  show "personnels d' = personnels d @ [imported_person r d]"
    by (simp add: d' import_account_rows frame_simps tables p)
  show "(\<lambda>x. lit (u_username x)) ` set (users d') =
      (\<lambda>x. lit (u_username x)) ` set (users d) \<union> (\<lambda>n. lit (map char_of n)) ` set (opt_list (ir_username r))"
    unfolding d' import_account_rows names ..
  show "u_id ` set (users d) \<subseteq> u_id ` set (users d')"
    unfolding d' using import_account_rows(3) [of ?d2] names by simp
qed

lemma writable_later:
  assumes run: "people_inv e d" "writable d q" "import_row_into e' draw actor q d = Inr d'" and w: "writable d r"
    and other: "ir_code r \<noteq> ir_code q" "set (opt_list (ir_username r)) \<inter> set (opt_list (ir_username q)) = {}"
  shows "writable d' r"
proof -
  note eff = import_row_into_ok [OF run]
  have "name_free d' n" if n: "ir_username r = Some n" for n
  proof -
    have free: "name_free d n" using w n by (simp add: writable_def)
    have "lit (map char_of m) = m" if "m \<in> set (opt_list (ir_username q))" for m
      using run(2) that username_chars by (auto simp: writable_def name_free_def opt_list_def split: option.splits)
    then have "n \<notin> (\<lambda>n. lit (map char_of n)) ` set (opt_list (ir_username q))"
      using other(2) n by (auto simp: opt_list_def)
    then show ?thesis using free unfolding name_free_def eff(3) by blast
  qed
  moreover have "ir_code r \<notin> p_code ` set (personnels d')"
    using w other(1) by (simp add: eff(2) writable_def imported_person_def)
  ultimately show ?thesis using w eff(4) unfolding writable_def by blast
qed

lemma import_rows_ok:
  assumes "people_inv e d" and "\<forall>r\<in>set rs. writable d r" and "distinct (map ir_code rs)" and "distinct (row_names rs)"
    and "foldE (import_row_into e' draw actor) rs d = Inr d'"
  shows "people_inv e d' \<and> map p_code (personnels d') = map p_code (personnels d) @ map ir_code rs"
  using assms
proof (induction rs arbitrary: d)
  case (Cons r rs)
  obtain d1 where d1: "import_row_into e' draw actor r d = Inr d1" "foldE (import_row_into e' draw actor) rs d1 = Inr d'"
    using Cons.prems(5) by (auto simp: bindE_Inr_iff)
  have w: "writable d r" using Cons.prems(2) by simp
  note eff = import_row_into_ok [OF Cons.prems(1) w d1(1)]
  have names: "distinct (row_names rs)" "set (opt_list (ir_username r)) \<inter> set (row_names rs) = {}"
    using Cons.prems(4) by (simp_all add: row_names_def)
  have "writable d1 q" if q: "q \<in> set rs" for q
  proof (rule writable_later [OF Cons.prems(1) w d1(1)])
    show "writable d q" using Cons.prems(2) q by simp
    have "ir_code r \<notin> ir_code ` set rs" using Cons.prems(3) by simp
    then show "ir_code q \<noteq> ir_code r" using q by (metis imageI)
    have "set (opt_list (ir_username q)) \<subseteq> set (row_names rs)" using q by (auto simp: row_names_def)
    then show "set (opt_list (ir_username q)) \<inter> set (opt_list (ir_username r)) = {}" using names(2) by blast
  qed
  then have "people_inv e d' \<and> map p_code (personnels d') = map p_code (personnels d1) @ map ir_code rs"
    using Cons.prems(3) by (intro Cons.IH [OF eff(1) _ _ names(1) d1(2)]) simp_all
  then show ?case by (simp add: eff(2) imported_person_def)
qed simp

text \<open>Rows of a workbook without times of day are without them.\<close>

definition whole_cell :: "cell \<Rightarrow> bool" where
  "whole_cell c \<longleftrightarrow> (case c of Stamp n us \<Rightarrow> us = 0 | _ \<Rightarrow> True)"

lemma whole_date_plain [simp]: "whole_date (map_option PlainDate x)"
  by (cases x) simp_all

lemma parse_flexible_date_whole: "whole_cell c \<Longrightarrow> parse_flexible_date jalali c = Inr v \<Longrightarrow> whole_date v"
  by (cases c) (auto simp: parse_flexible_date_def whole_cell_def bindE_Inr_iff split: if_splits list.splits option.splits)

lemma parse_row_whole:
  assumes run: "parse_row jalali d cell codes names n = Inr (r, codes', names')"
    and whole: "whole_cell (cell CStart)" "whole_cell (cell CEnd)"
  shows "whole_row r"
proof (rule parse_row_Inr [OF run])
  fix a b dates e1 e2 user e3 pw
  assume "parse_flexible_date jalali (cell CStart) = Inr a" "parse_flexible_date jalali (cell CEnd) = Inr b"
    and r: "r = resolve_chain d (\<lambda>s. cell_text (cell (CSeat s))) (row_as_read cell n a b user pw (row_errors cell e1 dates e2 e3))"
  then show ?thesis using whole parse_flexible_date_whole by (simp add: whole_row_def)
qed

lemma cell_at_in: "cell_at header row c = Blank \<or> cell_at header row c \<in> set row"
  by (auto simp: cell_at_def split: option.split)

lemma whole_cell_at: "whole_days rows \<Longrightarrow> row \<in> set rows \<Longrightarrow> whole_cell (cell_at header row c)"
  using cell_at_in [of header row c] unfolding whole_days_def whole_cell_def
  by (auto split: cell.splits)

lemma parse_rows_whole:
  "whole_days raws \<Longrightarrow> parse_rows jalali d header codes names n raws = Inr rs \<Longrightarrow> r \<in> set rs \<Longrightarrow> whole_row r"
proof (induction raws arbitrary: codes names n rs)
  case (Cons raw raws)
  have whole: "whole_days raws" using Cons.prems(1) by (simp add: whole_days_def)
  show ?case
  proof (cases "\<forall>c\<in>set raw. cell_text c = []")
    case True
    then show ?thesis using Cons.IH [OF whole, of codes names "n + 1" rs] Cons.prems by simp
  next
    case False
    then obtain q codes' names' ts where
        q: "parse_row jalali d (cell_at header raw) codes names n = Inr (q, codes', names')"
      and ts: "parse_rows jalali d header codes' names' (n + 1) raws = Inr ts" and rs: "rs = q # ts"
      using Cons.prems(2) unfolding parse_rows.simps if_not_P [OF False] by (auto simp: bindE_Inr_iff)
    have "whole_row q"
      by (rule parse_row_whole [OF q]) (use whole_cell_at [OF Cons.prems(1)] in simp_all)
    then show ?thesis using Cons.IH [OF whole ts] Cons.prems(3) rs by auto
  qed
qed simp

lemma parse_workbook_rows:
  assumes "parse_workbook jalali content d = Inr v" and "iv_error v = None"
  obtains first body where "content = Some (first # body)"
    and "parse_rows jalali d (map cell_text first) [] [] 2 body = Inr (iv_rows v)"
  using assms
  by (auto simp: parse_workbook_def file_problem_def Let_def bindE_Inr_iff split: option.splits list.splits if_splits)

lemma import_people_Inr:
  assumes "import_people e jalali draw u f d = Inr (s, d')"
  obtains v d1 x where "parse_workbook jalali (up_rows f) d = Inr v" and "iv_error v = None"
    and "foldE (import_row_into e draw (cu_id u)) (valid_rows v) d = Inr d1"
    and "d' = log_event e (cu_id u) ''personnel_imported'' None None x d1"
    and "s = \<lparr>il_personnel = length (valid_rows v), il_chains = length (filter has_chain (valid_rows v)),
      il_skipped = length (invalid_rows v), il_accounts = row_names (valid_rows v)\<rparr>"
  using assms
  by (auto simp: import_people_def commit_import_def Let_def bindE_Inr_iff read_upload_def uncaught_def row_names_def
      split: if_splits sum.splits)

lemma import_people_ok:
  assumes ok: "people_inv e d" and run: "import_people e' jalali draw u f d = Inr (s, d')"
    and whole: "\<forall>rows. up_rows f = Some rows \<longrightarrow> whole_days rows"
  shows "people_inv e d' \<and> length (personnels d') = length (personnels d) + il_personnel s"
proof -
  obtain v d1 x where v: "parse_workbook jalali (up_rows f) d = Inr v" "iv_error v = None"
    and d1: "foldE (import_row_into e' draw (cu_id u)) (valid_rows v) d = Inr d1"
    and d': "d' = log_event e' (cu_id u) ''personnel_imported'' None None x d1"
    and s: "il_personnel s = length (valid_rows v)"
    by (rule import_people_Inr [OF run]) simp
  obtain first body where rows: "up_rows f = Some (first # body)"
    and parsed: "parse_rows jalali d (map cell_text first) [] [] 2 body = Inr (iv_rows v)"
    by (rule parse_workbook_rows [OF v]) blast
  note checked = parse_rows_checked [OF parsed]
  have "whole_days body" using whole rows by (simp add: whole_days_def)
  then have "\<forall>r\<in>set (valid_rows v). writable d r"
    using checked parse_rows_whole [OF _ parsed] checked_writable unfolding valid_rows_def by auto
  moreover have "distinct (row_names (valid_rows v))"
  proof -
    have "distinct (row_names (filter P rs))" if "distinct (row_names rs)" for P and rs :: "import_row list"
      using that by (induction rs) (auto simp: row_names_def)
    then show ?thesis using checked by (simp add: valid_rows_def)
  qed
  ultimately have fin: "people_inv e d1 \<and> map p_code (personnels d1) = map p_code (personnels d) @ map ir_code (valid_rows v)"
    using checked by (intro import_rows_ok [OF ok _ _ _ d1]) (simp_all add: valid_rows_def)
  then have "length (personnels d1) = length (personnels d) + length (valid_rows v)"
    by (metis length_append length_map)
  then show ?thesis using fin people_inv_log by (simp add: d' s frame_simps)
qed

end
