(* ===== verification/Workbooks.thy ===== *)
theory Workbooks
  imports Import
begin

text \<open>
  The personnel workbook of \<open>services/excel.py\<close> as rows of cells, and the way back through the import:
  what is exported can be read again. \<open>jdatetime\<close> is the argument \<open>jalali_of\<close> (the Jalali year, month
  and day of a Gregorian day) beside the argument \<open>jalali\<close> of the import.
\<close>

section \<open>The sheet of the people\<close>

definition FORMULA_TRIGGERS :: "nat list" where
  "FORMULA_TRIGGERS = [61, 43, 45, 64, 9, 13, 10]"

definition neutralise :: "cell \<Rightarrow> cell" where
  "neutralise c = (case c of
     Text s \<Rightarrow> if s \<noteq> [] \<and> hd s \<in> set FORMULA_TRIGGERS then Text (39 # s) else c
   | _ \<Rightarrow> c)"

definition persian_digits :: "ustr \<Rightarrow> ustr" where
  "persian_digits = map (\<lambda>c. if 48 \<le> c \<and> c \<le> 57 then c + 1728 else c)"

definition jalali_text :: "(date \<Rightarrow> int \<times> int \<times> int) \<Rightarrow> date option \<Rightarrow> ustr" where
  "jalali_text jalali_of v = (case v of None \<Rightarrow> []
   | Some n \<Rightarrow> (case jalali_of n of (y, m, d) \<Rightarrow> persian_digits (pad_to 4 y @ 47 # pad_to 2 m @ 47 # pad_to 2 d)))"

text \<open>The two further columns, the date and the reason of leaving, are not read by the import.\<close>

definition PERSONNEL_HEADERS :: "ustr list" where
  "PERSONNEL_HEADERS = map column_title [CCode, CName, CTitle, CSite, CUnit, CManager, CStatus, CStart, CEnd] @
     [[1578, 1575, 1585, 1740, 1582, 32, 1582, 1585, 1608, 1580], [1593, 1604, 1578, 32, 1582, 1585, 1608, 1580]]"

fun separation_label :: "separation_reason \<Rightarrow> ustr" where
  "separation_label resignation = [1575, 1587, 1578, 1593, 1601, 1575]"
| "separation_label dismissal = [1575, 1582, 1585, 1575, 1580]"
| "separation_label contract_end = [1662, 1575, 1740, 1575, 1606, 32, 1602, 1585, 1575, 1585, 1583, 1575, 1583]"
| "separation_label retirement = [1576, 1575, 1586, 1606, 1588, 1587, 1578, 1711, 1740]"
| "separation_label other_reason = [1587, 1575, 1740, 1585]"

definition optional_text :: "ustr option \<Rightarrow> cell" where
  "optional_text v = (case v of None \<Rightarrow> Blank | Some s \<Rightarrow> Text s)"

definition personnel_cells :: "(date \<Rightarrow> int \<times> int \<times> int) \<Rightarrow> personnel \<Rightarrow> cell list" where
  "personnel_cells jalali_of p = map neutralise
     [Text (p_code p), Text (p_full_name p), Text (p_job_title p),
      optional_text (fst (split_site (p_org_unit p))), Text (snd (split_site (p_org_unit p))),
      Text (if p_is_manager p then [1576, 1604, 1607] else [1582, 1740, 1585]),
      Text (if p_status p = p_active then [1601, 1593, 1575, 1604] else [1594, 1740, 1585, 1601, 1593, 1575, 1604]),
      Text (jalali_text jalali_of (Some (p_contract_start p))),
      Text (jalali_text jalali_of (Some (p_contract_end p))),
      Text (jalali_text jalali_of (p_separation_date p)),
      Text (case p_separation_reason p of None \<Rightarrow> [] | Some s \<Rightarrow> separation_label s)]"

definition personnel_sheet :: "(date \<Rightarrow> int \<times> int \<times> int) \<Rightarrow> personnel list \<Rightarrow> cell list list" where
  "personnel_sheet jalali_of ps = map Text PERSONNEL_HEADERS # map (personnel_cells jalali_of) ps"

section \<open>Numbers and dates are read back\<close>

definition is_digit :: "nat \<Rightarrow> bool" where
  "is_digit c \<longleftrightarrow> 48 \<le> c \<and> c \<le> 57"

definition digits_value :: "int \<Rightarrow> ustr \<Rightarrow> int" where
  "digits_value a ds = foldl (\<lambda>a c. a * 10 + int (c - 48)) a ds"

lemma digit_value_ascii: "is_digit c \<Longrightarrow> digit_value c = Some (c - 48)"
  by (simp add: digit_value_def DIGIT_ZEROS_def is_digit_def)

lemma int_digits_ascii: "\<forall>c\<in>set ds. is_digit c \<Longrightarrow> ds \<noteq> [] \<or> p \<Longrightarrow> int_digits a p ds = Some (digits_value a ds)"
proof (induction ds arbitrary: a p)
  case (Cons c ds)
  then have "c \<noteq> 95" "is_digit c" by (auto simp: is_digit_def)
  then show ?case using Cons digit_value_ascii [of c] by (simp add: digits_value_def)
qed (simp add: digits_value_def)

lemma digits_of_digits: "\<forall>c\<in>set (digits_of n). is_digit c" "digits_of n \<noteq> []"
proof -
  have "(\<forall>c\<in>set (digits_of n). is_digit c) \<and> digits_of n \<noteq> []"
  proof (induction n rule: digits_of.induct)
    case (1 n)
    show ?case
    proof (cases "n < 10")
      case False
      have "is_digit (48 + n mod 10)" by (simp add: is_digit_def)
      then show ?thesis using 1 [OF False] False by (subst digits_of.simps, subst (2) digits_of.simps) simp
    qed (simp add: digits_of.simps is_digit_def)
  qed
  then show "\<forall>c\<in>set (digits_of n). is_digit c" "digits_of n \<noteq> []" by simp_all
qed

lemma digits_value_of: "digits_value 0 (digits_of n) = int n"
proof (induction n rule: digits_of.induct)
  case (1 n)
  show ?case
  proof (cases "n < 10")
    case True
    then show ?thesis by (simp add: digits_of.simps digits_value_def)
  next
    case False
    have "digits_value 0 (digits_of n) = digits_value 0 (digits_of (n div 10)) * 10 + int (n mod 10)"
      by (subst digits_of.simps) (simp add: False digits_value_def)
    moreover have "int n = int (n div 10 * 10 + n mod 10)" by simp
    ultimately show ?thesis using 1 [OF False] by (simp only: of_nat_add of_nat_mult of_nat_numeral)
  qed
qed

lemma digits_of_short: "length (digits_of n) \<le> n + 1"
proof (induction n rule: digits_of.induct)
  case (1 n)
  show ?case
  proof (cases "n < 10")
    case False
    then have "length (digits_of n) = length (digits_of (n div 10)) + 1" by (subst digits_of.simps) simp
    then show ?thesis using 1 [OF False] False by linarith
  qed (simp add: digits_of.simps)
qed

lemma pad_to_digits:
  assumes "0 \<le> i"
  shows "\<forall>c\<in>set (pad_to n i). is_digit c" and "pad_to n i \<noteq> []" and "digits_value 0 (pad_to n i) = i"
proof -
  have t: "pad_to n i = replicate (n - length (digits_of (nat i))) 48 @ digits_of (nat i)"
    using assms by (simp add: pad_to_def int_text_def Let_def)
  have "digits_value 0 (replicate k 48 @ ds) = digits_value 0 ds" for k ds
    by (induction k) (simp_all add: digits_value_def)
  then show "digits_value 0 (pad_to n i) = i" using assms by (simp add: t digits_value_of)
  show "pad_to n i \<noteq> []" using digits_of_digits(2) by (simp add: t)
  show "\<forall>c\<in>set (pad_to n i). is_digit c" using digits_of_digits(1) by (auto simp: t is_digit_def)
qed

lemma digit_not_space: "is_digit c \<Longrightarrow> \<not> is_space c"
  by (auto simp: is_digit_def is_space_def)

lemma py_int_digits:
  assumes "\<forall>c\<in>set ds. is_digit c" and "ds \<noteq> []" and "length ds \<le> 4300"
  shows "py_int ds = Some (digits_value 0 ds)"
proof -
  have strip: "strip ds = ds" using assms(1) digit_not_space by (intro strip_no_space) blast
  obtain c cs where ds: "ds = c # cs" using assms(2) by (cases ds) auto
  have "c \<noteq> 45" "c \<noteq> 43" using assms(1) by (auto simp: ds is_digit_def)
  moreover have "filter (\<lambda>c. c \<noteq> 95) ds = ds" using assms(1) by (intro filter_True) (auto simp: is_digit_def)
  ultimately show ?thesis
    using assms int_digits_ascii [OF assms(1), of False 0] strip by (simp add: py_int_def ds unsigned_int_def)
qed

lemma split_on_append: "sep \<notin> set a \<Longrightarrow> split_on sep (a @ sep # b) = a # split_on sep b"
  by (induction a) simp_all

lemma split_on_none: "sep \<notin> set a \<Longrightarrow> split_on sep a = [a]"
  by (induction a) simp_all

lemma normalise_persian: "\<forall>c\<in>set s. is_digit c \<or> c = 47 \<Longrightarrow> normalise_digits (persian_digits s) = s"
proof -
  have "ascii_digit (if 48 \<le> c \<and> c \<le> 57 then c + 1728 else c) = c" if "is_digit c \<or> c = 47" for c
    using that by (auto simp: ascii_digit_def is_digit_def)
  then show "\<forall>c\<in>set s. is_digit c \<or> c = 47 \<Longrightarrow> normalise_digits (persian_digits s) = s"
    by (simp add: normalise_digits_def persian_digits_def map_idI)
qed

lemma persian_shape:
  assumes "\<forall>c\<in>set s. is_digit c \<or> c = 47"
  shows "\<forall>c\<in>set (persian_digits s). c = 47 \<or> 1776 \<le> c \<and> c \<le> 1785"
proof
  fix c assume "c \<in> set (persian_digits s)"
  then obtain k where "k \<in> set s" "c = (if 48 \<le> k \<and> k \<le> 57 then k + 1728 else k)" by (auto simp: persian_digits_def)
  then show "c = 47 \<or> 1776 \<le> c \<and> c \<le> 1785" using assms by (auto simp: is_digit_def)
qed

lemma persian_not_space: "c = 47 \<or> 1776 \<le> c \<and> c \<le> 1785 \<Longrightarrow> \<not> is_space c"
  unfolding is_space_def by linarith

lemma date_parts_digits:
  assumes "\<forall>c\<in>set a \<union> set b \<union> set c. is_digit c" and "a \<noteq> []" "b \<noteq> []" "c \<noteq> []"
    and "normalise_digits s = a @ 47 # b @ 47 # c"
  shows "date_parts s = [a, b, c]"
proof -
  have none: "k \<notin> set a \<union> set b \<union> set c" if k: "k \<in> {45, 46, 47}" for k
  proof
    assume "k \<in> set a \<union> set b \<union> set c"
    then have "is_digit k" using assms(1) by blast
    then show False using k by (auto simp: is_digit_def)
  qed
  have no: "47 \<notin> set a" "47 \<notin> set b" "47 \<notin> set c" using none [of 47] by simp_all
  have "map (\<lambda>c. if c = 45 \<or> c = 46 then 47 else c) (a @ 47 # b @ 47 # c) = a @ 47 # b @ 47 # c"
  proof (rule map_idI)
    fix k assume "k \<in> set (a @ 47 # b @ 47 # c)"
    then have "k = 47 \<or> k \<in> set a \<union> set b \<union> set c" by auto
    then have "k \<noteq> 45 \<and> k \<noteq> 46" using none [of 45] none [of 46] by (elim disjE) auto
    then show "(if k = 45 \<or> k = 46 then 47 else k) = k" by simp
  qed
  then show ?thesis
    using no assms(2-4) by (simp add: date_parts_def assms(5) split_on_append split_on_none)
qed

lemma jalali_text_read:
  assumes "jalali_of n = (y, m, d)" and "0 \<le> y" "y \<le> 1500" "0 \<le> m" "m < 100" "0 \<le> d" "d < 100"
    and "jalali y m d = Some n"
  shows "parse_flexible_date jalali (Text (jalali_text jalali_of (Some n))) = Inr (Some (PlainDate n))"
proof -
  let ?a = "pad_to 4 y" and ?b = "pad_to 2 m" and ?c = "pad_to 2 d"
  let ?s = "persian_digits (?a @ 47 # ?b @ 47 # ?c)"
  note a = pad_to_digits [OF assms(2), of 4] and b = pad_to_digits [OF assms(4), of 2] and c = pad_to_digits [OF assms(6), of 2]
  have norm: "normalise_digits ?s = ?a @ 47 # ?b @ 47 # ?c"
    by (rule normalise_persian) (use a(1) b(1) c(1) in auto)
  have shape: "\<forall>c\<in>set ?s. c = 47 \<or> 1776 \<le> c \<and> c \<le> 1785"
    by (rule persian_shape) (use a(1) b(1) c(1) in auto)
  then have "\<forall>c\<in>set ?s. c \<noteq> 160" by fastforce
  then have "map (\<lambda>c. if c = 160 then 32 else c) ?s = ?s" by (intro map_idI) simp
  moreover have "\<forall>c\<in>set ?s. \<not> is_space c" using shape persian_not_space by blast
  ultimately have clean: "map (\<lambda>c. if c = 160 then 32 else c) ?s = ?s" "\<forall>c\<in>set ?s. \<not> is_space c" by blast+
  then have seen: "cell_text (Text ?s) = ?s" by (simp only: cell_text.simps clean strip_no_space)
  have parts: "date_parts ?s = [?a, ?b, ?c]"
    by (rule date_parts_digits [OF _ a(2) b(2) c(2) norm]) (use a(1) b(1) c(1) in auto)
  have short: "length (pad_to k i) \<le> 4300" if "0 \<le> i" "i \<le> 1500" "k \<le> 4" for i k
    using that digits_of_short [of "nat i"] by (simp add: pad_to_def int_text_def Let_def)
  have ints: "py_int ?a = Some y" "py_int ?b = Some m" "py_int ?c = Some d"
    using py_int_digits [OF a(1,2)] py_int_digits [OF b(1,2)] py_int_digits [OF c(1,2)] a(3) b(3) c(3) short assms by simp_all
  have "?s \<noteq> []" using a(2) by (simp add: persian_digits_def)
  then show ?thesis
    using seen parts ints assms(1,3,8)
    by (simp add: parse_flexible_date_def jalali_text_def JALALI_MAX_YEAR_def del: cell_text.simps)
qed

section \<open>The way back\<close>

text \<open>Texts that survive the export: stripped, without non-breaking blanks and formula prefixes.\<close>

definition plain :: "ustr \<Rightarrow> bool" where
  "plain s \<longleftrightarrow> s \<noteq> [] \<and> strip s = s \<and> 160 \<notin> set s \<and> hd s \<notin> set FORMULA_TRIGGERS"

definition portable :: "personnel \<Rightarrow> bool" where
  "portable p \<longleftrightarrow> plain (p_code p) \<and> normalise_digits (p_code p) = p_code p \<and> plain (p_full_name p) \<and>
     plain (p_job_title p) \<and> plain (snd (split_site (p_org_unit p))) \<and>
     (\<forall>s. fst (split_site (p_org_unit p)) = Some s \<longrightarrow> plain s) \<and>
     join_site (fst (split_site (p_org_unit p))) (snd (split_site (p_org_unit p))) = p_org_unit p \<and>
     p_org_unit p \<noteq> [] \<and> p_contract_start p < p_contract_end p"

definition portable_date :: "(date \<Rightarrow> int \<times> int \<times> int) \<Rightarrow> (int \<Rightarrow> int \<Rightarrow> int \<Rightarrow> date option) \<Rightarrow> date \<Rightarrow> bool" where
  "portable_date jalali_of jalali n \<longleftrightarrow> (case jalali_of n of (y, m, d) \<Rightarrow>
     0 \<le> y \<and> y \<le> 1500 \<and> 0 \<le> m \<and> m < 100 \<and> 0 \<le> d \<and> d < 100 \<and> jalali y m d = Some n)"

lemma plain_cell: "plain s \<Longrightarrow> neutralise (Text s) = Text s \<and> cell_text (Text s) = s"
proof -
  assume p: "plain s"
  then have "map (\<lambda>c. if c = 160 then 32 else c) s = s" by (intro map_idI) (auto simp: plain_def)
  then show ?thesis using p by (simp add: neutralise_def plain_def)
qed

lemma headers_read: "map cell_text (map Text PERSONNEL_HEADERS) = PERSONNEL_HEADERS"
  by (simp add: PERSONNEL_HEADERS_def strip_def is_space_def)

lemma headers_index:
  "column_index PERSONNEL_HEADERS (column_title CCode) = Some 0"
  "column_index PERSONNEL_HEADERS (column_title CName) = Some 1"
  "column_index PERSONNEL_HEADERS (column_title CTitle) = Some 2"
  "column_index PERSONNEL_HEADERS (column_title CSite) = Some 3"
  "column_index PERSONNEL_HEADERS (column_title CUnit) = Some 4"
  "column_index PERSONNEL_HEADERS (column_title CManager) = Some 5"
  "column_index PERSONNEL_HEADERS (column_title CStatus) = Some 6"
  "column_index PERSONNEL_HEADERS (column_title CStart) = Some 7"
  "column_index PERSONNEL_HEADERS (column_title CEnd) = Some 8"
  "column_index PERSONNEL_HEADERS (column_title CUsername) = None"
  "column_index PERSONNEL_HEADERS (column_title CPassword) = None"
  "column_index PERSONNEL_HEADERS (column_title (CSeat s)) = None"
  by (simp_all add: column_index_def PERSONNEL_HEADERS_def) (cases s; simp)

lemma flag_words:
  "neutralise (Text [1576, 1604, 1607]) = Text [1576, 1604, 1607]" "parse_bool (Text [1576, 1604, 1607]) = Some True"
  "neutralise (Text [1582, 1740, 1585]) = Text [1582, 1740, 1585]" "parse_bool (Text [1582, 1740, 1585]) = Some False"
  "neutralise (Text [1601, 1593, 1575, 1604]) = Text [1601, 1593, 1575, 1604]"
  "parse_status (Text [1601, 1593, 1575, 1604]) = Some p_active"
  "neutralise (Text [1594, 1740, 1585, 1601, 1593, 1575, 1604]) = Text [1594, 1740, 1585, 1601, 1593, 1575, 1604]"
  "parse_status (Text [1594, 1740, 1585, 1601, 1593, 1575, 1604]) = Some p_inactive"
  by (simp_all add: neutralise_def FORMULA_TRIGGERS_def parse_bool_def parse_status_def strip_def is_space_def
      normalise_digits_def ascii_digit_def lower_def TRUE_WORDS_def FALSE_WORDS_def ACTIVE_WORDS_def INACTIVE_WORDS_def
      lit_def)

lemma portable_date_read:
  "portable_date jalali_of jalali n \<Longrightarrow>
    parse_flexible_date jalali (Text (jalali_text jalali_of (Some n))) = Inr (Some (PlainDate n))"
  unfolding portable_date_def by (cases "jalali_of n") (auto intro: jalali_text_read)

lemma jalali_cell:
  assumes "portable_date jalali_of jalali n"
  shows "neutralise (Text (jalali_text jalali_of (Some n))) = Text (jalali_text jalali_of (Some n))"
proof -
  obtain y m d where ymd: "jalali_of n = (y, m, d)" by (cases "jalali_of n")
  then have "0 \<le> y" using assms by (simp add: portable_date_def)
  note a = pad_to_digits [OF this, of 4]
  let ?s = "pad_to 4 y @ 47 # pad_to 2 m @ 47 # pad_to 2 d"
  have "hd (persian_digits ?s) = hd (persian_digits (pad_to 4 y))" using a(2) by (simp add: persian_digits_def hd_append)
  moreover have "is_digit (hd (pad_to 4 y))" using a(1,2) by (meson hd_in_set)
  ultimately have "1776 \<le> hd (persian_digits ?s)" using a(2) by (simp add: persian_digits_def hd_map is_digit_def)
  then show ?thesis by (auto simp: neutralise_def jalali_text_def ymd FORMULA_TRIGGERS_def)
qed

definition sheet_cell :: "(date \<Rightarrow> int \<times> int \<times> int) \<Rightarrow> personnel \<Rightarrow> column \<Rightarrow> cell" where
  "sheet_cell jalali_of p = cell_at PERSONNEL_HEADERS (personnel_cells jalali_of p)"

lemma sheet_cells:
  assumes "portable p" and dates: "portable_date jalali_of jalali (p_contract_start p)" "portable_date jalali_of jalali (p_contract_end p)"
  shows "sheet_cell jalali_of p CCode = Text (p_code p)" "sheet_cell jalali_of p CName = Text (p_full_name p)"
    "sheet_cell jalali_of p CTitle = Text (p_job_title p)"
    "sheet_cell jalali_of p CSite = optional_text (fst (split_site (p_org_unit p)))"
    "sheet_cell jalali_of p CUnit = Text (snd (split_site (p_org_unit p)))"
    "parse_bool (sheet_cell jalali_of p CManager) = Some (p_is_manager p)"
    "parse_status (sheet_cell jalali_of p CStatus) = Some (p_status p)"
    "sheet_cell jalali_of p CStart = Text (jalali_text jalali_of (Some (p_contract_start p)))"
    "sheet_cell jalali_of p CEnd = Text (jalali_text jalali_of (Some (p_contract_end p)))"
    "sheet_cell jalali_of p CUsername = Blank" "sheet_cell jalali_of p CPassword = Blank"
    "sheet_cell jalali_of p (CSeat s) = Blank"
proof -
  have site: "neutralise (optional_text (fst (split_site (p_org_unit p)))) = optional_text (fst (split_site (p_org_unit p)))"
    using assms(1) plain_cell by (cases "fst (split_site (p_org_unit p))")
      (simp_all add: portable_def optional_text_def neutralise_def [of Blank])
  show "sheet_cell jalali_of p CCode = Text (p_code p)" "sheet_cell jalali_of p CName = Text (p_full_name p)"
    "sheet_cell jalali_of p CTitle = Text (p_job_title p)"
    "sheet_cell jalali_of p CSite = optional_text (fst (split_site (p_org_unit p)))"
    "sheet_cell jalali_of p CUnit = Text (snd (split_site (p_org_unit p)))"
    using assms(1) site plain_cell
    by (simp_all add: sheet_cell_def cell_at_def headers_index personnel_cells_def portable_def del: column_title.simps)
  show "parse_bool (sheet_cell jalali_of p CManager) = Some (p_is_manager p)"
    "parse_status (sheet_cell jalali_of p CStatus) = Some (p_status p)"
    by (simp_all add: sheet_cell_def cell_at_def headers_index personnel_cells_def flag_words del: column_title.simps)
      (cases "p_status p"; simp)
  show "sheet_cell jalali_of p CStart = Text (jalali_text jalali_of (Some (p_contract_start p)))"
    "sheet_cell jalali_of p CEnd = Text (jalali_text jalali_of (Some (p_contract_end p)))"
    using jalali_cell [OF dates(1)] jalali_cell [OF dates(2)]
    by (simp_all add: sheet_cell_def cell_at_def headers_index personnel_cells_def del: column_title.simps)
  show "sheet_cell jalali_of p CUsername = Blank" "sheet_cell jalali_of p CPassword = Blank"
    "sheet_cell jalali_of p (CSeat s) = Blank"
    by (simp_all add: sheet_cell_def cell_at_def headers_index del: column_title.simps)
qed

definition same_person :: "import_row \<Rightarrow> personnel \<Rightarrow> bool" where
  "same_person r p \<longleftrightarrow> ir_code r = p_code p \<and> ir_full_name r = p_full_name p \<and> ir_job_title r = p_job_title p \<and>
     ir_org_unit r = p_org_unit p \<and> ir_is_manager r = p_is_manager p \<and> ir_status r = p_status p \<and>
     ir_start r = Some (PlainDate (p_contract_start p)) \<and> ir_end r = Some (PlainDate (p_contract_end p)) \<and>
     ir_username r = None \<and> row_ok r"

lemma resolve_chain_absent:
  "resolve_chain d (\<lambda>s. []) r = r\<lparr>ir_supervisor := None, ir_deputy := None, ir_ceo := sole_ceo d\<rparr>"
proof -
  have "find_evaluator d own [] s = Inr None" for own s by (simp add: find_evaluator_def ABSENT_WORDS_def)
  then show ?thesis
    by (simp add: resolve_chain_def Let_def found_def failure_def or_else_def CHAIN_SEATS_def)
qed

lemma sheet_row_read:
  assumes p: "portable p" and dates: "portable_date jalali_of jalali (p_contract_start p)" "portable_date jalali_of jalali (p_contract_end p)"
    and new: "p_code p \<notin> p_code ` set (personnels d)" "p_code p \<notin> fst ` set codes"
  shows "\<exists>r. parse_row jalali d (sheet_cell jalali_of p) codes names n = Inr (r, (p_code p, n) # codes, names) \<and> same_person r p"
proof -
  let ?c = "sheet_cell jalali_of p"
  note cells = sheet_cells [OF p dates]
  have texts: "cell_text (Text (p_code p)) = p_code p" "cell_text (Text (p_full_name p)) = p_full_name p"
      "cell_text (Text (p_job_title p)) = p_job_title p"
      "cell_text (Text (snd (split_site (p_org_unit p)))) = snd (split_site (p_org_unit p))"
    using p plain_cell by (simp_all add: portable_def)
  have site: "cell_text (optional_text (fst (split_site (p_org_unit p)))) = or_empty (fst (split_site (p_org_unit p)))"
    using p plain_cell by (cases "fst (split_site (p_org_unit p))") (simp_all add: portable_def optional_text_def or_empty_def)
  have code: "cell_code ?c = p_code p" using p by (simp add: cell_code_def cells texts portable_def del: cell_text.simps)
  have unit: "cell_unit ?c = p_org_unit p"
  proof -
    have "join_site (Some (or_empty v)) u = join_site v u" for v u by (simp add: join_site_def or_empty_def split: option.split)
    then show ?thesis using p by (simp add: cell_unit_def cells texts site portable_def del: cell_text.simps)
  qed
  have nonempty: "p_code p \<noteq> []" "p_full_name p \<noteq> []" "p_job_title p \<noteq> []" "p_org_unit p \<noteq> []"
    using p by (simp_all add: portable_def plain_def)
  have "map_of codes (p_code p) = None" using new(2) by (simp add: map_of_eq_None_iff)
  then have check: "check_code d codes n (p_code p) = ([], (p_code p, n) # codes)"
    using new(1) nonempty(1) by (simp add: check_code_def)
  have ordered: "check_dates (Some (PlainDate (p_contract_start p))) (Some (PlainDate (p_contract_end p))) = Inr []"
    using p by (simp add: check_dates_def portable_def)
  have errors: "row_errors ?c [] [] [] [] = []"
    by (simp add: row_errors_def code unit cells texts nonempty empty_fields_def del: cell_text.simps)
  let ?r = "resolve_chain d (\<lambda>s. []) (row_as_read ?c n (Some (PlainDate (p_contract_start p))) (Some (PlainDate (p_contract_end p))) None None [])"
  have "parse_row jalali d ?c codes names n = Inr (?r, (p_code p, n) # codes, names)"
    using portable_date_read [OF dates(1)] portable_date_read [OF dates(2)] ordered check errors
    by (simp add: parse_row_def cells code check_username_def check_password_def)
  moreover have "same_person ?r p"
    by (simp add: same_person_def resolve_chain_absent row_ok_def row_as_read_def code unit cells texts del: cell_text.simps)
  ultimately show ?thesis by blast
qed

lemma sheet_rows_read:
  assumes "\<forall>p\<in>set ps. portable p \<and> portable_date jalali_of jalali (p_contract_start p) \<and> portable_date jalali_of jalali (p_contract_end p)"
    and "distinct (map p_code ps)" and "p_code ` set ps \<inter> p_code ` set (personnels d) = {}"
    and "p_code ` set ps \<inter> fst ` set codes = {}"
  shows "\<exists>rs. parse_rows jalali d PERSONNEL_HEADERS codes names n (map (personnel_cells jalali_of) ps) = Inr rs \<and>
    list_all2 same_person rs ps"
  using assms
proof (induction ps arbitrary: codes n)
  case (Cons p ps)
  let ?raw = "personnel_cells jalali_of p"
  have p: "portable p" "portable_date jalali_of jalali (p_contract_start p)" "portable_date jalali_of jalali (p_contract_end p)"
    using Cons.prems(1) by simp_all
  have new: "p_code p \<notin> p_code ` set (personnels d)" "p_code p \<notin> fst ` set codes" using Cons.prems(3,4) by auto
  obtain r where r: "parse_row jalali d (cell_at PERSONNEL_HEADERS ?raw) codes names n = Inr (r, (p_code p, n) # codes, names)"
      "same_person r p"
    using sheet_row_read [OF p new, of names n] unfolding sheet_cell_def by blast
  have "Text (p_code p) \<in> set ?raw"
    using p(1) plain_cell [of "p_code p"] by (simp add: personnel_cells_def portable_def)
  moreover have "cell_text (Text (p_code p)) \<noteq> []"
    using p(1) plain_cell [of "p_code p"] by (simp add: portable_def plain_def)
  ultimately have filled: "\<not> (\<forall>c\<in>set ?raw. cell_text c = [])" by blast
  have "p_code ` set ps \<inter> fst ` set ((p_code p, n) # codes) = {}"
    using Cons.prems(2,4) by auto
  then obtain rs where rs: "parse_rows jalali d PERSONNEL_HEADERS ((p_code p, n) # codes) names (n + 1) (map (personnel_cells jalali_of) ps) = Inr rs"
      "list_all2 same_person rs ps"
    using Cons.IH [of "(p_code p, n) # codes" "n + 1"] Cons.prems(1-3) by auto
  have "parse_rows jalali d PERSONNEL_HEADERS codes names n (map (personnel_cells jalali_of) (p # ps)) = Inr (r # rs)"
    unfolding list.map parse_rows.simps if_not_P [OF filled] r(1) by (simp add: rs(1) [unfolded Suc_eq_plus1 [symmetric]])
  then show ?case using r(2) rs(2) by blast
qed simp

text \<open>A row with one date cell and one written date ends the reading with an exception.\<close>

lemma mixed_dates_row:
  assumes "cell CStart = Stamp n us" and "parse_flexible_date jalali (cell CEnd) = Inr (Some (PlainDate m))"
  shows "parse_row jalali d cell codes names k = Inl TypeError"
  using assms by (simp add: parse_row_def parse_flexible_date_def check_dates_def)

lemma mixed_dates_rows:
  assumes "raw \<in> set raws" and "cell_at header raw CStart = Stamp n us"
    and "parse_flexible_date jalali (cell_at header raw CEnd) = Inr (Some (PlainDate m))"
  shows "\<exists>x. parse_rows jalali d header codes names k raws = Inl x"
  using assms(1)
proof (induction raws arbitrary: codes names k)
  case (Cons r raws)
  show ?case
  proof (cases "\<forall>c\<in>set r. cell_text c = []")
    case True
    have "raw \<noteq> r"
    proof
      assume "raw = r"
      moreover have "cell_text (Stamp n us) \<noteq> []" by simp
      ultimately show False using cell_at_in [of header raw CStart] assms(2) True by auto
    qed
    then show ?thesis using Cons True by simp
  next
    case False
    show ?thesis
    proof (cases "parse_row jalali d (cell_at header r) codes names k")
      case (Inl x)
      then show ?thesis unfolding parse_rows.simps if_not_P [OF False] by simp
    next
      case (Inr v)
      obtain q codes' names' where v: "v = (q, codes', names')" by (cases v)
      have "raw \<noteq> r" using Inr mixed_dates_row [OF assms(2,3)] by auto
      then have "raw \<in> set raws" using Cons.prems by simp
      then obtain x where "parse_rows jalali d header codes' names' (k + 1) raws = Inl x"
        using Cons.IH [of codes' names' "k + 1"] by blast
      then show ?thesis unfolding parse_rows.simps if_not_P [OF False] Inr v by simp
    qed
  qed
qed simp

section \<open>The whole way back\<close>

text \<open>What of a person the workbook carries over: everything but the identifier and the leaving.\<close>

definition carried :: "personnel \<Rightarrow> personnel" where
  "carried p = p\<lparr>p_id := 0, p_separation_date := None, p_separation_reason := None\<rparr>"

lemma import_row_into_people:
  "import_row_into e draw actor r d = Inr d' \<Longrightarrow> personnels d' = personnels d @ [imported_person r d]"
  by (erule import_row_into_Inr) (simp add: import_account_rows frame_simps add_personnel_def)

lemma import_row_into_fits: "fits_columns r \<Longrightarrow> \<exists>d'. import_row_into e draw actor r d = Inr d'"
  by (simp add: import_row_into_def Let_def)

lemma carried_imported: "same_person r p \<Longrightarrow> carried (imported_person r d) = carried p"
  by (simp add: same_person_def carried_def imported_person_def stored_day_def)

lemma import_carried:
  assumes "list_all2 same_person rs ps" and "\<forall>r\<in>set rs. fits_columns r"
  shows "\<exists>d'. foldE (import_row_into e draw actor) rs d = Inr d' \<and>
    map carried (personnels d') = map carried (personnels d) @ map carried ps"
  using assms
proof (induction arbitrary: d rule: list_all2_induct)
  case (Cons r rs p ps)
  obtain d1 where d1: "import_row_into e draw actor r d = Inr d1" using import_row_into_fits Cons.prems by fastforce
  obtain d' where "foldE (import_row_into e draw actor) rs d1 = Inr d'"
      "map carried (personnels d') = map carried (personnels d1) @ map carried ps"
    using Cons.IH [of d1] Cons.prems by auto
  then show ?case using d1 import_row_into_people [OF d1] carried_imported [OF Cons.hyps(1)] by simp
qed simp

definition fits :: "personnel \<Rightarrow> bool" where
  "fits p \<longleftrightarrow> length (p_code p) \<le> 50 \<and> length (p_full_name p) \<le> 200 \<and> length (p_job_title p) \<le> 150 \<and>
     length (p_org_unit p) \<le> 150"

lemma headers_complete: "filter (\<lambda>c. column_index PERSONNEL_HEADERS (column_title c) = None) REQUIRED_COLUMNS = []"
  by (simp add: REQUIRED_COLUMNS_def headers_index del: column_title.simps)

lemma exported_sheet_read:
  assumes "ps \<noteq> []"
    and "\<forall>p\<in>set ps. portable p \<and> portable_date jalali_of jalali (p_contract_start p) \<and> portable_date jalali_of jalali (p_contract_end p)"
    and "distinct (map p_code ps)" and "p_code ` set ps \<inter> p_code ` set (personnels d) = {}"
  shows "\<exists>rs. parse_workbook jalali (Some (personnel_sheet jalali_of ps)) d = Inr \<lparr>iv_rows = rs, iv_error = None\<rparr> \<and>
    list_all2 same_person rs ps"
proof -
  obtain rs where rs: "parse_rows jalali d PERSONNEL_HEADERS [] [] 2 (map (personnel_cells jalali_of) ps) = Inr rs"
      "list_all2 same_person rs ps"
    using sheet_rows_read [OF assms(2-4), of "[]" "[]" 2] by auto
  have "rs \<noteq> []" using rs(2) assms(1) by auto
  moreover have "PERSONNEL_HEADERS \<noteq> []" by (simp add: PERSONNEL_HEADERS_def)
  ultimately show ?thesis
    using rs by (simp only: parse_workbook_def personnel_sheet_def option.case list.case headers_read headers_complete Let_def)
      simp
qed

lemma exported_people_imported:
  assumes ps: "ps \<noteq> []"
      "\<forall>p\<in>set ps. portable p \<and> portable_date jalali_of jalali (p_contract_start p) \<and> portable_date jalali_of jalali (p_contract_end p)"
      "distinct (map p_code ps)" "p_code ` set ps \<inter> p_code ` set (personnels d) = {}"
    and fits: "\<forall>p\<in>set ps. fits p" and u: "cu_role u = hr"
    and f: "read_upload f = Inr (Some (personnel_sheet jalali_of ps))"
  shows "\<exists>s d'. import_people e jalali draw u f d = Inr (s, d') \<and> il_skipped s = 0 \<and>
    map carried (personnels d') = map carried (personnels d) @ map carried ps"
proof -
  obtain rs where rs: "parse_workbook jalali (Some (personnel_sheet jalali_of ps)) d = Inr \<lparr>iv_rows = rs, iv_error = None\<rparr>"
      "list_all2 same_person rs ps"
    using exported_sheet_read [OF ps] by blast
  have all: "row_ok r \<and> fits_columns r" if r: "r \<in> set rs" for r
  proof -
    obtain p where "p \<in> set ps" "same_person r p" using rs(2) r by (metis in_set_conv_nth list_all2_conv_all_nth nth_mem)
    then show ?thesis using fits by (simp add: same_person_def fits_def fits_columns_def)
  qed
  then have valid: "filter row_ok rs = rs" "filter (\<lambda>r. \<not> row_ok r) rs = []" by (simp_all add: filter_empty_conv)
  obtain d1 where d1: "foldE (import_row_into e draw (cu_id u)) rs d = Inr d1"
      "map carried (personnels d1) = map carried (personnels d) @ map carried ps"
    using import_carried [OF rs(2)] all by blast
  then show ?thesis
    using rs(1) u f valid
    by (simp add: import_people_def personnel_guard_def require_role_or_capability_def commit_import_def valid_rows_def
        invalid_rows_def Let_def frame_simps)
qed

end
