(* ===== verification/ImportProperties.thy ===== *)
theory ImportProperties
  imports Workbooks PeopleProperties
begin

text \<open>
  The properties of the import of people from a workbook: what the export writes can be imported again,
  the import writes exactly what its preview has announced, and it keeps the files well formed.
\<close>

section \<open>A sample workbook\<close>

text \<open>A stand-in for the Jalali calendar: any calendar with its inverse would do.\<close>

definition demo_jalali_of :: "date \<Rightarrow> int \<times> int \<times> int" where
  "demo_jalali_of n = (n div 1000, n mod 1000 div 100, n mod 100)"

definition demo_jalali :: "int \<Rightarrow> int \<Rightarrow> int \<Rightarrow> date option" where
  "demo_jalali y m k = Some (y * 1000 + m * 100 + k)"

definition newcomer :: personnel where
  "newcomer = (demo_person 7)\<lparr>p_code := lit ''P7'', p_status := p_inactive, p_separation_reason := Some retirement\<rparr>"

definition demo_upload :: "cell list list \<Rightarrow> upload" where
  "demo_upload rows = \<lparr>up_name = lit ''people.xlsx'', up_size = 9000, up_rows = Some rows\<rparr>"

lemma demo_upload_read: "read_upload (demo_upload rows) = Inr (Some rows)"
  by (simp add: read_upload_def demo_upload_def ends_with_def lower_def lit_def MAX_IMPORT_BYTES_def)

lemma newcomer_portable: "portable newcomer"
proof -
  have "strip (lit s) = lit s" if "\<forall>c\<in>set (lit s). \<not> is_space c" for s by (rule strip_no_space [OF that])
  moreover have "\<forall>c\<in>set (lit ''P7''). \<not> is_space c" "\<forall>c\<in>set (lit ''Person''). \<not> is_space c"
    "\<forall>c\<in>set (lit ''Clerk''). \<not> is_space c" "\<forall>c\<in>set (lit ''Unit''). \<not> is_space c"
    by (simp_all add: lit_def is_space_def)
  ultimately have "strip (lit ''P7'') = lit ''P7''" "strip (lit ''Person'') = lit ''Person''"
    "strip (lit ''Clerk'') = lit ''Clerk''" "strip (lit ''Unit'') = lit ''Unit''" by blast+
  moreover have "split_site (lit ''Unit'') = (None, lit ''Unit'')" by code_simp
  moreover have "normalise_digits (lit ''P7'') = lit ''P7''" by code_simp
  moreover have "strip [] = []" by (simp add: strip_def)
  ultimately show ?thesis
    by (simp add: portable_def plain_def newcomer_def demo_person_def join_site_def or_empty_def)
      (simp add: lit_def FORMULA_TRIGGERS_def)
qed

lemma newcomer_row:
  "p_code newcomer = lit ''P7''" "p_full_name newcomer = lit ''Person''" "p_job_title newcomer = lit ''Clerk''"
  "p_org_unit newcomer = lit ''Unit''" "p_contract_start newcomer = 739000" "p_contract_end newcomer = 739365"
  by (simp_all add: newcomer_def demo_person_def)


lemma newcomer_dates:
  "portable_date demo_jalali_of demo_jalali (p_contract_start newcomer)"
  "portable_date demo_jalali_of demo_jalali (p_contract_end newcomer)"
  by (simp_all add: newcomer_row portable_date_def demo_jalali_of_def demo_jalali_def)




section \<open>Properties\<close>





text \<open>A workbook in which one row has its start in a date cell and its end written as text cannot even be
  previewed: comparing the two raises an exception that nothing catches, whatever the other rows are,
  and the answer is status 500 instead of a message for that row.\<close>

theorem mixed_dates_end_the_preview:
  assumes "cu_role u = hr" and "read_upload f = Inr (Some (first # raws))"
    and "\<forall>c\<in>set REQUIRED_COLUMNS. column_index (map cell_text first) (column_title c) \<noteq> None"
    and "raw \<in> set raws" and "cell_at (map cell_text first) raw CStart = Stamp n us"
    and "parse_flexible_date jalali (cell_at (map cell_text first) raw CEnd) = Inr (Some (PlainDate m))"
  shows "\<exists>x. preview_import jalali d u f = Inl (Uncaught x) \<and> import_people e jalali draw u f d = Inl (Uncaught x)"
proof -
  obtain x where x: "parse_rows jalali d (map cell_text first) [] [] 2 raws = Inl x"
    using mixed_dates_rows [OF assms(4-6), of d "[]" "[]" 2] by blast
  have "first \<noteq> []" using assms(3) by (auto simp: REQUIRED_COLUMNS_def column_index_def)
  moreover have "filter (\<lambda>c. column_index (map cell_text first) (column_title c) = None) REQUIRED_COLUMNS = []"
    using assms(3) by (simp add: filter_empty_conv)
  ultimately have "parse_workbook jalali (Some (first # raws)) d = Inl x"
    using x by (simp add: parse_workbook_def Let_def)
  then show ?thesis
    using assms(1,2) by (simp add: preview_import_def import_people_def personnel_guard_def require_role_or_capability_def)
qed

definition mixed_row :: "cell list" where
  "mixed_row = (personnel_cells demo_jalali_of newcomer)[7 := Stamp 739000 0]"

theorem mixed_dates_end_the_preview_witness:
  "\<exists>x. preview_import demo_jalali demo_db demo_hr (demo_upload [map Text PERSONNEL_HEADERS, mixed_row]) = Inl (Uncaught x)"
proof -
  have "\<forall>c\<in>set REQUIRED_COLUMNS. column_index (map cell_text (map Text PERSONNEL_HEADERS)) (column_title c) \<noteq> None"
    unfolding headers_read by (simp add: REQUIRED_COLUMNS_def headers_index del: column_title.simps)
  moreover have "cell_at (map cell_text (map Text PERSONNEL_HEADERS)) mixed_row CStart = Stamp 739000 0"
    unfolding headers_read
    by (simp add: cell_at_def headers_index mixed_row_def personnel_cells_def del: column_title.simps)
  moreover have "cell_at (map cell_text (map Text PERSONNEL_HEADERS)) mixed_row CEnd = sheet_cell demo_jalali_of newcomer CEnd"
    unfolding headers_read
    by (simp add: cell_at_def headers_index mixed_row_def personnel_cells_def sheet_cell_def del: column_title.simps)
  then have "parse_flexible_date demo_jalali (cell_at (map cell_text (map Text PERSONNEL_HEADERS)) mixed_row CEnd)
      = Inr (Some (PlainDate (p_contract_end newcomer)))"
    using sheet_cells(9) [OF newcomer_portable newcomer_dates] portable_date_read [OF newcomer_dates(2)] by simp
  ultimately show ?thesis
    using mixed_dates_end_the_preview [of demo_hr "demo_upload [map Text PERSONNEL_HEADERS, mixed_row]" "map Text PERSONNEL_HEADERS"
        "[mixed_row]" mixed_row 739000 0 demo_jalali "p_contract_end newcomer" demo_db]
    unfolding demo_upload_read by (simp add: demo_hr_def) blast
qed



text \<open>A leaver that comes in with a user name gets an account that is open at once, and the file has neither
  reason nor date of leaving, which the page for a single person insists on.\<close>

theorem imported_leaver_can_sign_in:
  assumes "import_row_into e draw actor r d = Inr d'" and "ir_status r = p_inactive" and "ir_username r = Some n"
  shows "\<exists>p\<in>set (personnels d'). p_code p = ir_code r \<and> p_status p = p_inactive \<and> p_separation_reason p = None \<and>
    (\<exists>x\<in>set (users d'). u_personnel_id x = Some (p_id p) \<and> u_is_active x)"
proof -
  let ?p = "imported_person r d"
  have p: "p_code ?p = ir_code r" "p_status ?p = p_inactive" "p_separation_reason ?p = None"
    using assms(2) by (simp_all add: imported_person_def)
  have "?p \<in> set (personnels d')" using import_row_into_people [OF assms(1)] by simp
  moreover have "\<exists>x\<in>set (users d'). u_personnel_id x = Some (p_id ?p) \<and> u_is_active x"
    using assms(1,3) by (auto simp: import_row_into_def Let_def import_account_def frame_simps employee_account_def split: if_splits)
  ultimately show ?thesis using p by blast
qed

end
