(* ===== verification/Plans.thy ===== *)
theory Plans
  imports People
begin

text \<open>
  The improvement plans of \<open>routers/improvement_plans.py\<close>: a plan is written for a finalized case whose
  result lies below the limit of its rules, is given to a user to follow up, collects goals that are
  ticked off, and is completed or cancelled. The lemmas show what of a plan is fixed by its case,
  who may change what, and that the goals of a closed plan are frozen.
\<close>

section \<open>Plans and goals\<close>

definition get_goal :: "db \<Rightarrow> int \<Rightarrow> plan_goal option" where
  "get_goal d = tbl_get pg_id (goals d)"

definition upd_goal :: "int \<Rightarrow> (plan_goal \<Rightarrow> plan_goal) \<Rightarrow> db \<Rightarrow> db" where
  "upd_goal k f d = d\<lparr>goals := tbl_upd pg_id k f (goals d)\<rparr>"

interpretation goal_st: row_store get_goal upd_goal pg_id
  by unfold_locales (auto simp: get_goal_def upd_goal_def tbl_get_upd dest: tbl_get_Some_set)

definition goals_of :: "db \<Rightarrow> int \<Rightarrow> plan_goal list" where
  "goals_of d k = filter (\<lambda>g. pg_plan g = k) (goals d)"

definition PLAN_TITLE_MAX :: nat where "PLAN_TITLE_MAX = 200"
definition PLAN_SUMMARY_MAX :: nat where "PLAN_SUMMARY_MAX = 4000"
definition PLAN_GOAL_MAX :: nat where "PLAN_GOAL_MAX = 1000"

definition get_plan_or_404 :: "db \<Rightarrow> int \<Rightarrow> improvement_plan result" where
  "get_plan_or_404 d k = (case get_plan d k of
     None \<Rightarrow> Inl (HTTPException 404 ''plan not found'') | Some p \<Rightarrow> Inr p)"

definition ensure_plan_open :: "improvement_plan \<Rightarrow> unit result" where
  "ensure_plan_open p = require (ip_status p = plan_open) (HTTPException 409 ''the plan is not open any more'')"

definition PLAN_ROLES :: "user_role list" where
  "PLAN_ROLES = [hr, unit_supervisor, deputy, ceo]"

definition is_plan_owner :: "improvement_plan \<Rightarrow> current_user \<Rightarrow> bool" where
  "is_plan_owner p u \<longleftrightarrow> ip_owner p = Some (cu_id u)"

definition ensure_can_view_plan :: "improvement_plan \<Rightarrow> current_user \<Rightarrow> unit result" where
  "ensure_can_view_plan p u = require (cu_role u = hr \<or> is_plan_owner p u)
     (HTTPException 403 ''the plan was not given to you'')"

definition ensure_owner_is_valid :: "db \<Rightarrow> int option \<Rightarrow> unit result" where
  "ensure_owner_is_valid d v = (case v of None \<Rightarrow> Inr ()
   | Some k \<Rightarrow> (case get_user d k of
       Some x \<Rightarrow> require (u_is_active x) (HTTPException 400 ''the owner is not an active user'')
     | None \<Rightarrow> Inl (HTTPException 400 ''the owner is not an active user'')))"

definition plan_link :: "improvement_plan \<Rightarrow> string" where
  "plan_link p = ''/improvement-plans/'' @ map char_of (int_text (ip_id p))"

definition assigned_notice :: "env \<Rightarrow> improvement_plan \<Rightarrow> int \<Rightarrow> ustr \<Rightarrow> db \<Rightarrow> db" where
  "assigned_notice e p owner name d = notify e [owner] ''improvement_plan_assigned''
     (lit ''plan '' @ ip_title p @ lit '' for '' @ name @ lit '' was given to you'')
     (Some (ip_record p)) (Some (plan_link p)) d"

section \<open>Who needs a plan\<close>

text \<open>
  The listing compares the stored column with the limit of the stamped version, or with the constant
  when there is none, in decimal arithmetic; the creation of a plan compares floats.
\<close>

definition plan_limit :: "db \<Rightarrow> evaluation_record \<Rightarrow> rat" where
  "plan_limit d r = (case er_scheme r of None \<Rightarrow> IMPROVEMENT_PLAN_MAX_PCT
   | Some k \<Rightarrow> (case get_scheme d k of None \<Rightarrow> IMPROVEMENT_PLAN_MAX_PCT | Some s \<Rightarrow> ss_plan_max_pct s))"

definition has_plan :: "db \<Rightarrow> evaluation_record \<Rightarrow> bool" where
  "has_plan d r \<longleftrightarrow> (\<exists>p\<in>set (plans d). ip_record p = er_id r)"

definition needs_plan :: "db \<Rightarrow> evaluation_record \<Rightarrow> bool" where
  "needs_plan d r \<longleftrightarrow> er_status r = finalized \<and>
     (case er_final_pct r of None \<Rightarrow> False | Some x \<Rightarrow> x < plan_limit d r) \<and> \<not> has_plan d r"

definition list_eligible_evaluations :: "db \<Rightarrow> current_user \<Rightarrow> evaluation_record list result" where
  "list_eligible_evaluations d u =
     bindE (require_roles [hr] u) (\<lambda>_.
       Inr (rev (sort_key (\<lambda>r. case er_finalized_at r of None \<Rightarrow> 0 | Some t \<Rightarrow> t)
         (filter (needs_plan d) (records d)))))"

definition below_limit :: "db \<Rightarrow> evaluation_record \<Rightarrow> bool" where
  "below_limit d r \<longleftrightarrow> (case er_final_pct r of None \<Rightarrow> False
   | Some x \<Rightarrow> fl x < r_plan_max_pct (rules_for_record d r))"

section \<open>Writing a plan\<close>

record plan_input =
  li_record :: int
  li_title :: ustr
  li_review_date :: date
  li_owner :: "int option"
  li_summary :: "ustr option"
  li_goals :: "ustr list"

definition plan_input_ok :: "plan_input \<Rightarrow> bool" where
  "plan_input_ok q \<longleftrightarrow> text_within PLAN_TITLE_MAX (strip (li_title q)) \<and>
     (case li_summary q of None \<Rightarrow> True | Some s \<Rightarrow> length (strip s) \<le> PLAN_SUMMARY_MAX)"

text \<open>Blank goals are left out and keep their number.\<close>

fun numbered_goals :: "int \<Rightarrow> ustr list \<Rightarrow> (int \<times> ustr) list" where
  "numbered_goals i [] = []"
| "numbered_goals i (t # ts) = (if strip t = [] then [] else [(i, strip t)]) @ numbered_goals (i + 1) ts"

definition new_plan :: "current_user \<Rightarrow> plan_input \<Rightarrow> evaluation_record \<Rightarrow> db \<Rightarrow> improvement_plan" where
  "new_plan u q r d = \<lparr>ip_id = tbl_next ip_id (plans d), ip_record = er_id r, ip_personnel = er_subject r,
     ip_title = strip (li_title q), ip_owner = li_owner q, ip_status = plan_open,
     ip_review_date = li_review_date q, ip_summary = map_option strip (li_summary q), ip_follow_up = None,
     ip_created_by = Some (cu_id u), ip_completed_at = None\<rparr>"

definition add_goal_row :: "int \<Rightarrow> int \<times> ustr \<Rightarrow> db \<Rightarrow> db" where
  "add_goal_row k g d = d\<lparr>goals := goals d @ [\<lparr>pg_id = tbl_next pg_id (goals d), pg_plan = k,
     pg_description = snd g, pg_done = False, pg_order = fst g\<rparr>]\<rparr>"

definition add_plan :: "improvement_plan \<Rightarrow> (int \<times> ustr) list \<Rightarrow> db \<Rightarrow> db" where
  "add_plan p gs d = fold (add_goal_row (ip_id p)) gs (d\<lparr>plans := plans d @ [p]\<rparr>)"

definition create_plan :: "env \<Rightarrow> current_user \<Rightarrow> plan_input \<Rightarrow> db \<Rightarrow> (improvement_plan \<times> db) result" where
  "create_plan e u q d =
     bindE (require_roles [hr] u) (\<lambda>_.
     bindE (require (plan_input_ok q) (HTTPException 422 ''invalid plan'')) (\<lambda>_.
     case get_record d (li_record q) of
       None \<Rightarrow> Inl (HTTPException 404 ''evaluation not found'')
     | Some r \<Rightarrow>
        if er_status r \<noteq> finalized then Inl (HTTPException 400 ''only for a finalized evaluation'')
        else if \<not> below_limit d r then Inl (HTTPException 400 ''the result is not below the limit'')
        else bindE (ensure_owner_is_valid d (li_owner q)) (\<lambda>_.
          let p = new_plan u q r d;
              gs = numbered_goals 0 (li_goals q)
          in if has_plan d r then Inl (HTTPException 409 ''the evaluation has a plan already'')
             else if \<exists>g\<in>set gs. PLAN_GOAL_MAX < length (snd g)
             then Inl (Uncaught (DataError ''improvement_plan_goals''))
             else
               let d1 = log_event e (cu_id u) ''improvement_plan_created'' (Some (er_id r)) None
                     (Some (JObj [(''plan_id'', JInt (ip_id p)), (''title'', JText (ip_title p))]))
                     (add_plan p gs d)
               in Inr (p, case ip_owner p of None \<Rightarrow> d1
                  | Some k \<Rightarrow> assigned_notice e p k (subject_name d1 r) d1))))"

section \<open>Changing a plan\<close>

record plan_patch =
  lq_title :: "ustr option option"
  lq_review_date :: "date option option"
  lq_owner :: "int option option"
  lq_summary :: "ustr option option"
  lq_follow_up :: "int option option"

definition plan_patch_ok :: "plan_patch \<Rightarrow> bool" where
  "plan_patch_ok q \<longleftrightarrow> given (\<lambda>s. text_within PLAN_TITLE_MAX (strip s)) (lq_title q) \<and>
     given (\<lambda>s. length (strip s) \<le> PLAN_SUMMARY_MAX) (lq_summary q)"

definition patch_plan :: "plan_patch \<Rightarrow> improvement_plan \<Rightarrow> improvement_plan" where
  "patch_plan q p = p\<lparr>ip_title := patched (map_option (map_option strip) (lq_title q)) (ip_title p),
     ip_review_date := patched (lq_review_date q) (ip_review_date p),
     ip_owner := set_option (lq_owner q) (ip_owner p),
     ip_summary := set_option (map_option (map_option strip) (lq_summary q)) (ip_summary p),
     ip_follow_up := set_option (lq_follow_up q) (ip_follow_up p)\<rparr>"

text \<open>The names of the given fields, sorted.\<close>

definition patch_fields :: "plan_patch \<Rightarrow> string list" where
  "patch_fields q =
     (if lq_follow_up q \<noteq> None then [''follow_up_evaluation_id''] else []) @
     (if lq_owner q \<noteq> None then [''owner_user_id''] else []) @
     (if lq_review_date q \<noteq> None then [''review_date''] else []) @
     (if lq_summary q \<noteq> None then [''summary''] else []) @
     (if lq_title q \<noteq> None then [''title''] else [])"

definition ensure_follow_up :: "db \<Rightarrow> improvement_plan \<Rightarrow> int option option \<Rightarrow> unit result" where
  "ensure_follow_up d p v = (case v of
     Some (Some k) \<Rightarrow> require (\<exists>r. get_record d k = Some r \<and> er_subject r = ip_personnel p)
       (HTTPException 400 ''the follow-up must be about the same person'')
   | _ \<Rightarrow> Inr ())"

definition personnel_name :: "db \<Rightarrow> int \<Rightarrow> ustr" where
  "personnel_name d k = (case get_personnel d k of None \<Rightarrow> [] | Some p \<Rightarrow> p_full_name p)"

text \<open>A new owner is told.\<close>

definition notify_new_owner :: "env \<Rightarrow> improvement_plan \<Rightarrow> improvement_plan \<Rightarrow> ustr \<Rightarrow> db \<Rightarrow> db" where
  "notify_new_owner e p p' name d = (case ip_owner p' of None \<Rightarrow> d
   | Some j \<Rightarrow> if ip_owner p' \<noteq> ip_owner p then assigned_notice e p' j name d else d)"

definition update_plan :: "env \<Rightarrow> current_user \<Rightarrow> int \<Rightarrow> plan_patch \<Rightarrow> db \<Rightarrow> db result" where
  "update_plan e u k q d =
     bindE (require_roles [hr] u) (\<lambda>_.
     bindE (require (plan_patch_ok q) (HTTPException 422 ''invalid update'')) (\<lambda>_.
     bindE (get_plan_or_404 d k) (\<lambda>p.
     bindE (case lq_owner q of None \<Rightarrow> Inr () | Some v \<Rightarrow> ensure_owner_is_valid d v) (\<lambda>_.
     bindE (ensure_follow_up d p (lq_follow_up q)) (\<lambda>_.
       let d2 = notify_new_owner e p (patch_plan q p) (personnel_name d (ip_personnel p)) (upd_plan k (patch_plan q) d)
       in if lq_title q = Some None \<or> lq_review_date q = Some None
          then Inl (Uncaught (IntegrityError ''not null''))
          else Inr (log_event e (cu_id u) ''improvement_plan_updated'' (Some (ip_record p)) None
            (Some (JObj [(''plan_id'', JInt k), (''fields'', JList (map JStr (patch_fields q)))])) d2))))))"

definition close_plan :: "env \<Rightarrow> plan_status \<Rightarrow> string \<Rightarrow> current_user \<Rightarrow> int \<Rightarrow> db \<Rightarrow> db result" where
  "close_plan e s event u k d =
     bindE (require_roles [hr] u) (\<lambda>_.
     bindE (get_plan_or_404 d k) (\<lambda>p.
       if ip_status p \<noteq> plan_open then Inl (HTTPException 400 ''the plan is not open any more'')
       else Inr (log_event e (cu_id u) event (Some (ip_record p)) None (Some (JObj [(''plan_id'', JInt k)]))
         (upd_plan k (\<lambda>p. p\<lparr>ip_status := s, ip_completed_at := Some (now e)\<rparr>) d))))"

definition complete_plan :: "env \<Rightarrow> current_user \<Rightarrow> int \<Rightarrow> db \<Rightarrow> db result" where
  "complete_plan e u k d = close_plan e plan_completed ''improvement_plan_completed'' u k d"

definition cancel_plan :: "env \<Rightarrow> current_user \<Rightarrow> int \<Rightarrow> db \<Rightarrow> db result" where
  "cancel_plan e u k d = close_plan e plan_cancelled ''improvement_plan_cancelled'' u k d"

section \<open>Goals\<close>

definition next_goal_order :: "db \<Rightarrow> int \<Rightarrow> int" where
  "next_goal_order d k = (if goals_of d k = [] then -1 else Max (pg_order ` set (goals_of d k))) + 1"

definition add_goal :: "env \<Rightarrow> current_user \<Rightarrow> int \<Rightarrow> ustr \<Rightarrow> db \<Rightarrow> db result" where
  "add_goal e u k t d =
     bindE (require_roles [hr] u) (\<lambda>_.
     bindE (require (text_within PLAN_GOAL_MAX (strip t)) (HTTPException 422 ''invalid goal'')) (\<lambda>_.
     bindE (get_plan_or_404 d k) (\<lambda>p.
     bindE (ensure_plan_open p) (\<lambda>_.
       Inr (log_event e (cu_id u) ''improvement_goal_added'' (Some (ip_record p)) None
         (Some (JObj [(''plan_id'', JInt k), (''goal_id'', JInt (tbl_next pg_id (goals d))),
            (''description'', JText (strip t))]))
         (add_goal_row k (next_goal_order d k, strip t) d))))))"

record goal_patch =
  gq_description :: "ustr option option"
  gq_done :: "bool option option"

definition goal_patch_ok :: "goal_patch \<Rightarrow> bool" where
  "goal_patch_ok q \<longleftrightarrow> given (\<lambda>s. text_within PLAN_GOAL_MAX (strip s)) (gq_description q)"

definition patch_goal :: "goal_patch \<Rightarrow> plan_goal \<Rightarrow> plan_goal" where
  "patch_goal q g = g\<lparr>pg_description := patched (map_option (map_option strip) (gq_description q)) (pg_description g),
     pg_done := patched (gq_done q) (pg_done g)\<rparr>"

definition goal_or_404 :: "db \<Rightarrow> int \<Rightarrow> int \<Rightarrow> plan_goal result" where
  "goal_or_404 d k j = (case get_goal d j of
     Some g \<Rightarrow> if pg_plan g = k then Inr g else Inl (HTTPException 404 ''goal not found'')
   | None \<Rightarrow> Inl (HTTPException 404 ''goal not found''))"

definition goal_json :: "plan_goal \<Rightarrow> (string \<times> json) list" where
  "goal_json g = [(''description'', JText (pg_description g)), (''is_done'', JBool (pg_done g))]"

definition goal_patch_json :: "goal_patch \<Rightarrow> (string \<times> json) list" where
  "goal_patch_json q =
     (case gq_description q of Some (Some s) \<Rightarrow> [(''description'', JText (strip s))] | _ \<Rightarrow> []) @
     (case gq_done q of Some (Some b) \<Rightarrow> [(''is_done'', JBool b)] | _ \<Rightarrow> [])"

definition update_goal :: "env \<Rightarrow> current_user \<Rightarrow> int \<Rightarrow> int \<Rightarrow> goal_patch \<Rightarrow> db \<Rightarrow> db result" where
  "update_goal e u k j q d =
     bindE (require_roles PLAN_ROLES u) (\<lambda>_.
     bindE (require (goal_patch_ok q) (HTTPException 422 ''invalid goal'')) (\<lambda>_.
     bindE (goal_or_404 d k j) (\<lambda>g.
     bindE (get_plan_or_404 d k) (\<lambda>p.
     bindE (ensure_can_view_plan p u) (\<lambda>_.
     bindE (ensure_plan_open p) (\<lambda>_.
       if cu_role u \<noteq> hr \<and> gq_description q \<noteq> None
       then Inl (HTTPException 403 ''the owner may only tick a goal'')
       else if gq_description q = Some None \<or> gq_done q = Some None
       then Inl (Uncaught (IntegrityError ''not null''))
       else Inr (log_event e (cu_id u) ''improvement_goal_updated'' (Some (ip_record p)) (Some (JObj (goal_json g)))
         (Some (JObj ([(''plan_id'', JInt k), (''goal_id'', JInt j)] @ goal_patch_json q)))
         (upd_goal j (patch_goal q) d))))))))"

definition delete_goal :: "env \<Rightarrow> current_user \<Rightarrow> int \<Rightarrow> int \<Rightarrow> db \<Rightarrow> db result" where
  "delete_goal e u k j d =
     bindE (require_roles [hr] u) (\<lambda>_.
     bindE (goal_or_404 d k j) (\<lambda>g.
     bindE (get_plan_or_404 d k) (\<lambda>p.
     bindE (ensure_plan_open p) (\<lambda>_.
       let d1 = log_event e (cu_id u) ''improvement_goal_deleted'' (Some (ip_record p))
             (Some (JObj ([(''plan_id'', JInt k), (''goal_id'', JInt j)] @ goal_json g))) None d
       in Inr (d1\<lparr>goals := filter (\<lambda>g. pg_id g \<noteq> j) (goals d1)\<rparr>)))))"

section \<open>Views\<close>

definition read_plan :: "db \<Rightarrow> current_user \<Rightarrow> int \<Rightarrow> (improvement_plan \<times> plan_goal list) result" where
  "read_plan d u k =
     bindE (require_roles PLAN_ROLES u) (\<lambda>_.
     bindE (get_plan_or_404 d k) (\<lambda>p.
     bindE (ensure_can_view_plan p u) (\<lambda>_. Inr (p, sort_key pg_order (goals_of d k)))))"

definition plan_matches :: "(ustr \<Rightarrow> ustr \<Rightarrow> bool) \<Rightarrow> db \<Rightarrow> plan_status option \<Rightarrow> ustr option \<Rightarrow> improvement_plan \<Rightarrow> bool" where
  "plan_matches like d status q p \<longleftrightarrow> (case status of None \<Rightarrow> True | Some s \<Rightarrow> ip_status p = s) \<and>
     (case q of None \<Rightarrow> True | Some s \<Rightarrow> s = [] \<or>
        (let pattern = [37] @ strip s @ [37] in
         like pattern (personnel_name d (ip_personnel p)) \<or> like pattern (ip_title p)))"

definition list_plans :: "(ustr \<Rightarrow> ustr \<Rightarrow> bool) \<Rightarrow> db \<Rightarrow> current_user \<Rightarrow> plan_status option \<Rightarrow> ustr option \<Rightarrow> nat \<Rightarrow> nat \<Rightarrow>
    (nat \<times> improvement_plan list) result" where
  "list_plans like d u status q limit offset =
     bindE (require_roles PLAN_ROLES u) (\<lambda>_.
     bindE (require (1 \<le> limit \<and> limit \<le> 200) (HTTPException 422 ''invalid page'')) (\<lambda>_.
       let rows = filter (\<lambda>p. (cu_role u \<noteq> hr \<longrightarrow> is_plan_owner p u) \<and> plan_matches like d status q p) (plans d)
       in Inr (length rows, take limit (drop offset (sort_key ip_review_date rows)))))"

text \<open>The rows of the workbook: each plan with its goals, the code of its case and the name of its owner.\<close>

record plan_row =
  lr_plan :: improvement_plan
  lr_goals :: "plan_goal list"
  lr_code :: "string option"
  lr_owner :: "ustr option"

definition plan_row_of :: "db \<Rightarrow> improvement_plan \<Rightarrow> plan_row" where
  "plan_row_of d p = \<lparr>lr_plan = p, lr_goals = sort_key pg_order (goals_of d (ip_id p)),
     lr_code = map_option er_code (get_record d (ip_record p)),
     lr_owner = (case ip_owner p of None \<Rightarrow> None | Some k \<Rightarrow> map_option (display_name d) (get_user d k))\<rparr>"

definition export_plans :: "env \<Rightarrow> (ustr \<Rightarrow> ustr \<Rightarrow> bool) \<Rightarrow> current_user \<Rightarrow> plan_status option \<Rightarrow> ustr option \<Rightarrow> db \<Rightarrow>
    (plan_row list \<times> db) result" where
  "export_plans e like u status q d =
     bindE (require_roles [hr] u) (\<lambda>_.
       Inr (map (plan_row_of d) (sort_key ip_review_date (filter (plan_matches like d status q) (plans d))),
            log_event e (cu_id u) ''improvement_plans_excel_exported'' None None None d))"

section \<open>The requests of the router\<close>

datatype plan_request =
    CreatePlan plan_input
  | UpdatePlan int plan_patch
  | CompletePlan int
  | CancelPlan int
  | AddGoal int ustr
  | UpdateGoal int int goal_patch
  | DeleteGoal int int

fun handle_plan :: "env \<Rightarrow> current_user \<Rightarrow> plan_request \<Rightarrow> db \<Rightarrow> db result" where
  "handle_plan e u (CreatePlan q) d = bindE (create_plan e u q d) (\<lambda>s. Inr (snd s))"
| "handle_plan e u (UpdatePlan k q) d = update_plan e u k q d"
| "handle_plan e u (CompletePlan k) d = complete_plan e u k d"
| "handle_plan e u (CancelPlan k) d = cancel_plan e u k d"
| "handle_plan e u (AddGoal k t) d = add_goal e u k t d"
| "handle_plan e u (UpdateGoal k j q) d = update_goal e u k j q d"
| "handle_plan e u (DeleteGoal k j) d = delete_goal e u k j d"

definition plan_step :: "env \<Rightarrow> current_user \<times> plan_request \<Rightarrow> db \<Rightarrow> db" where
  "plan_step e c d = (case handle_plan e (fst c) (snd c) d of Inl _ \<Rightarrow> d | Inr d' \<Rightarrow> d')"

section \<open>What is kept\<close>

text \<open>
  A plan belongs to a finalized case and carries the person of that case, as does its follow-up; it
  has a time of completion exactly when it is closed. A goal belongs to a plan, and the goals of one
  plan have different positions.
\<close>

definition plan_ok :: "db \<Rightarrow> improvement_plan \<Rightarrow> bool" where
  "plan_ok d p \<longleftrightarrow> text_within PLAN_TITLE_MAX (ip_title p) \<and> (ip_completed_at p = None \<longleftrightarrow> ip_status p = plan_open) \<and>
     (\<exists>r. get_record d (ip_record p) = Some r \<and> er_status r = finalized \<and> er_subject r = ip_personnel p) \<and>
     (\<forall>k. ip_follow_up p = Some k \<longrightarrow> (\<exists>r. get_record d k = Some r \<and> er_subject r = ip_personnel p))"

definition goal_ok :: "db \<Rightarrow> plan_goal \<Rightarrow> bool" where
  "goal_ok d g \<longleftrightarrow> text_within PLAN_GOAL_MAX (pg_description g) \<and> pg_plan g \<in> ip_id ` set (plans d)"

definition goal_place :: "plan_goal \<Rightarrow> int \<times> int" where
  "goal_place g = (pg_plan g, pg_order g)"

definition plans_ok :: "db \<Rightarrow> bool" where
  "plans_ok d \<longleftrightarrow> tbl_ok ip_id (plans d) \<and> distinct (map ip_record (plans d)) \<and> (\<forall>p\<in>set (plans d). plan_ok d p) \<and>
     tbl_ok pg_id (goals d) \<and> distinct (map goal_place (goals d)) \<and> (\<forall>g\<in>set (goals d). goal_ok d g)"

lemma plan_ok_cong: "get_record d' = get_record d \<Longrightarrow> plan_ok d' p = plan_ok d p"
  by (simp add: plan_ok_def)

lemma plans_ok_cong:
  "plans d' = plans d \<Longrightarrow> goals d' = goals d \<Longrightarrow> records d' = records d \<Longrightarrow> plans_ok d' = plans_ok d"
  by (simp add: plans_ok_def plan_ok_def goal_ok_def get_record_def)

lemma get_plan_in: "plans_ok d \<Longrightarrow> get_plan d k = Some p \<Longrightarrow> p \<in> set (plans d) \<and> ip_id p = k \<and> plan_ok d p"
  by (auto simp: plans_ok_def get_plan_def dest: tbl_get_Some_set)

lemma plans_ok_upd_plan:
  assumes "plans_ok d" and "\<And>p. ip_id (f p) = ip_id p" and "\<And>p. ip_record (f p) = ip_record p"
    and "\<And>p. get_plan d k = Some p \<Longrightarrow> plan_ok d p \<Longrightarrow> plan_ok d (f p)"
  shows "plans_ok (upd_plan k f d)"
proof -
  have ids: "ip_id ` set (tbl_upd ip_id k f (plans d)) = ip_id ` set (plans d)"
    by (simp flip: set_map add: tbl_upd_keys assms(2))
  have "plan_ok d (f p)" if "p \<in> set (plans d)" "ip_id p = k" for p
    using that assms(1,4) tbl_get_in unfolding plans_ok_def get_plan_def by metis
  then show ?thesis
    using assms(1,2) ids
    by (auto simp: plans_ok_def upd_plan_def tbl_ok_upd tbl_upd_map assms(3) goal_ok_def set_tbl_upd
        plan_ok_cong [of "d\<lparr>plans := _\<rparr>" d] get_record_def)
qed

lemma plans_ok_upd_goal:
  assumes "plans_ok d" and "\<And>g. pg_id (f g) = pg_id g" and "\<And>g. goal_place (f g) = goal_place g"
    and "\<And>g. text_within PLAN_GOAL_MAX (pg_description g) \<Longrightarrow> text_within PLAN_GOAL_MAX (pg_description (f g))"
  shows "plans_ok (upd_goal k f d)"
proof -
  have "pg_plan (f g) = pg_plan g" for g using assms(3) [of g] by (simp add: goal_place_def)
  then show ?thesis
    using assms(1,2,4)
    by (auto simp: plans_ok_def upd_goal_def tbl_ok_upd tbl_upd_map assms(3) goal_ok_def set_tbl_upd
        plan_ok_cong [of "d\<lparr>goals := _\<rparr>" d] get_record_def)
qed

lemma plans_ok_add_goal:
  assumes "plans_ok d" and "text_within PLAN_GOAL_MAX t" and "k \<in> ip_id ` set (plans d)"
    and "(k, i) \<notin> goal_place ` set (goals d)"
  shows "plans_ok (add_goal_row k (i, t) d)"
  using assms
  by (auto simp: plans_ok_def add_goal_row_def tbl_ok_insert goal_ok_def goal_place_def
      plan_ok_cong [of "d\<lparr>goals := _\<rparr>" d] get_record_def)

lemma numbered_goals_from: "(i', t) \<in> set (numbered_goals i ts) \<Longrightarrow> i \<le> i' \<and> 1 \<le> length t"
proof (induction ts arbitrary: i)
  case (Cons a ts)
  then consider "i' = i" "t = strip a" "strip a \<noteq> []" | "(i', t) \<in> set (numbered_goals (i + 1) ts)"
    by (auto split: if_splits)
  then show ?case
  proof cases
    case 1
    then show ?thesis by (cases "strip a") simp_all
  next
    case 2
    then show ?thesis using Cons.IH [of "i + 1"] by simp
  qed
qed simp

lemma numbered_goals_distinct: "distinct (map fst (numbered_goals i ts))"
proof (induction ts arbitrary: i)
  case (Cons t ts)
  have "i \<notin> fst ` set (numbered_goals (i + 1) ts)" using numbered_goals_from by fastforce
  then show ?case using Cons by simp
qed simp

lemma add_goal_rows_ok:
  assumes "plans_ok d" and "k \<in> ip_id ` set (plans d)" and "distinct (map fst gs)"
    and "\<forall>g\<in>set gs. text_within PLAN_GOAL_MAX (snd g) \<and> (k, fst g) \<notin> goal_place ` set (goals d)"
  shows "plans_ok (fold (add_goal_row k) gs d)"
  using assms
proof (induction gs arbitrary: d)
  case (Cons g gs)
  obtain i t where g: "g = (i, t)" by (cases g)
  let ?d = "add_goal_row k g d"
  have "plans_ok ?d" using plans_ok_add_goal [OF Cons.prems(1) _ Cons.prems(2), of t i] Cons.prems(4) g by simp
  moreover have "goal_place ` set (goals ?d) = insert (k, i) (goal_place ` set (goals d))"
    by (simp add: add_goal_row_def g goal_place_def)
  moreover have "plans ?d = plans d" by (simp add: add_goal_row_def)
  ultimately show ?case using Cons.IH [of ?d] Cons.prems g by auto
qed simp

text \<open>Everything but the plans, their goals, the log and the notices is left alone.\<close>

definition plan_frame :: "db \<Rightarrow> db \<Rightarrow> bool" where
  "plan_frame d d' \<longleftrightarrow> d' = d\<lparr>plans := plans d', goals := goals d', audits := audits d',
     notifications := notifications d', deliveries := deliveries d'\<rparr>"

lemma plan_frame_trans: "plan_frame a b \<Longrightarrow> plan_frame b c \<Longrightarrow> plan_frame a c"
  by (cases a; cases b; cases c) (simp add: plan_frame_def)

lemma plan_frame_basic [intro]:
  "plan_frame d d" "plan_frame d (upd_plan k f d)" "plan_frame d (upd_goal j h d)" "plan_frame d (add_goal_row k g d)"
  "plan_frame d (d\<lparr>plans := x\<rparr>)" "plan_frame d (d\<lparr>goals := y\<rparr>)"
  by (simp_all add: plan_frame_def upd_plan_def upd_goal_def add_goal_row_def)

lemma plan_frame_log: "plan_frame d (log_event e a t r x y d)"
  by (simp add: plan_frame_def log_event_def Let_def)

lemma plan_frame_notices: "notices_only d d' \<Longrightarrow> plan_frame d d'"
  by (cases d; cases d') (simp add: notices_only_def plan_frame_def)

lemma plan_frame_fold: "plan_frame d (fold (add_goal_row k) gs d)"
proof (induction gs arbitrary: d)
  case (Cons g gs)
  then show ?case using plan_frame_trans [OF plan_frame_basic(4) [of d k g]] by simp
qed auto

lemma plan_frame_tables:
  assumes "plan_frame d d'"
  shows "records d' = records d" "users d' = users d" "personnels d' = personnels d" "accesses d' = accesses d"
    "schemes d' = schemes d" "scores d' = scores d" "periods d' = periods d" "frameworks d' = frameworks d"
    "indicators d' = indicators d" "assessments d' = assessments d" "capabilities d' = capabilities d"
    "sessions d' = sessions d"
  by (subst assms [unfolded plan_frame_def], simp)+

lemma assigned_notice_only: "notices_only d (assigned_notice e p j n d)"
  by (simp add: assigned_notice_def notify_only)

section \<open>What a successful request does\<close>

lemma create_plan_Inr:
  assumes "create_plan e u q d = Inr (p, d')"
  obtains r x y where "cu_role u = hr" and "get_record d (li_record q) = Some r" and "er_status r = finalized" and "below_limit d r"
    and "ensure_owner_is_valid d (li_owner q) = Inr ()" and "\<not> has_plan d r" and "plan_input_ok q"
    and "\<forall>g\<in>set (numbered_goals 0 (li_goals q)). length (snd g) \<le> PLAN_GOAL_MAX"
    and "p = new_plan u q r d"
    and "d' = (let d1 = log_event e (cu_id u) x (Some (er_id r)) None y (add_plan p (numbered_goals 0 (li_goals q)) d)
      in case ip_owner p of None \<Rightarrow> d1 | Some k \<Rightarrow> assigned_notice e p k (subject_name d1 r) d1)"
  using assms
  by (auto simp: create_plan_def bindE_Inr_iff Let_def guard_simps not_less split: option.splits if_splits)

lemma update_plan_Inr:
  assumes "update_plan e u k q d = Inr d'"
  obtains p y where "cu_role u = hr" and "get_plan d k = Some p" and "plan_patch_ok q"
    and "\<forall>v. lq_owner q = Some v \<longrightarrow> ensure_owner_is_valid d v = Inr ()"
    and "ensure_follow_up d p (lq_follow_up q) = Inr ()"
    and "d' = log_event e (cu_id u) ''improvement_plan_updated'' (Some (ip_record p)) None y
      (notify_new_owner e p (patch_plan q p) (personnel_name d (ip_personnel p)) (upd_plan k (patch_plan q) d))"
  using assms
  by (auto simp: update_plan_def get_plan_or_404_def bindE_Inr_iff Let_def guard_simps split: option.splits if_splits)

lemma new_owner_only: "notices_only d (notify_new_owner e p p' n d)"
  by (auto simp: notify_new_owner_def assigned_notice_only split: option.split)

lemma close_plan_Inr:
  assumes "close_plan e s t u k d = Inr d'"
  obtains p y where "cu_role u = hr" and "get_plan d k = Some p" and "ip_status p = plan_open"
    and "d' = log_event e (cu_id u) t (Some (ip_record p)) None y
      (upd_plan k (\<lambda>p. p\<lparr>ip_status := s, ip_completed_at := Some (now e)\<rparr>) d)"
  using assms
  by (auto simp: close_plan_def get_plan_or_404_def bindE_Inr_iff guard_simps split: option.splits if_splits)

lemma add_goal_Inr:
  assumes "add_goal e u k t d = Inr d'"
  obtains p y where "cu_role u = hr" and "get_plan d k = Some p" and "ip_status p = plan_open"
    and "text_within PLAN_GOAL_MAX (strip t)"
    and "d' = log_event e (cu_id u) ''improvement_goal_added'' (Some (ip_record p)) None y
      (add_goal_row k (next_goal_order d k, strip t) d)"
  using assms
  by (auto simp: add_goal_def get_plan_or_404_def ensure_plan_open_def bindE_Inr_iff guard_simps split: option.splits)

lemma update_goal_Inr:
  assumes "update_goal e u k j q d = Inr d'"
  obtains p g x y where "get_plan d k = Some p" and "ip_status p = plan_open" and "get_goal d j = Some g" and "pg_plan g = k"
    and "cu_role u = hr \<or> cu_role u \<in> set PLAN_ROLES \<and> is_plan_owner p u \<and> gq_description q = None"
    and "goal_patch_ok q"
    and "d' = log_event e (cu_id u) ''improvement_goal_updated'' (Some (ip_record p)) x y (upd_goal j (patch_goal q) d)"
  using assms
  by (auto simp: update_goal_def get_plan_or_404_def goal_or_404_def ensure_plan_open_def ensure_can_view_plan_def
      bindE_Inr_iff guard_simps split: option.splits if_splits)

lemma delete_goal_Inr:
  assumes "delete_goal e u k j d = Inr d'"
  obtains p g x y where "cu_role u = hr" and "get_plan d k = Some p" and "ip_status p = plan_open"
    and "get_goal d j = Some g" and "pg_plan g = k"
    and "d' = (log_event e (cu_id u) ''improvement_goal_deleted'' (Some (ip_record p)) x y d)
      \<lparr>goals := filter (\<lambda>g. pg_id g \<noteq> j) (goals d)\<rparr>"
  using assms
  by (auto simp: delete_goal_def get_plan_or_404_def goal_or_404_def ensure_plan_open_def bindE_Inr_iff guard_simps
      Let_def frame_simps split: option.splits if_splits)

section \<open>Each request keeps the plans well formed\<close>

lemmas assigned_tables [frame_simps] =
  notices_only_tables [OF assigned_notice_only]
  notices_only_tables [OF new_owner_only]

lemma upd_plan_tables [frame_simps]:
  "plans (upd_plan k f d) = tbl_upd ip_id k f (plans d)" "goals (upd_plan k f d) = goals d"
  "records (upd_plan k f d) = records d"
  by (simp_all add: upd_plan_def)

lemma upd_goal_tables [frame_simps]:
  "goals (upd_goal k f d) = tbl_upd pg_id k f (goals d)" "plans (upd_goal k f d) = plans d"
  "records (upd_goal k f d) = records d"
  by (simp_all add: upd_goal_def)

lemma patch_plan_key [simp]: "ip_id (patch_plan q p) = ip_id p" "ip_record (patch_plan q p) = ip_record p"
  "ip_personnel (patch_plan q p) = ip_personnel p" "ip_status (patch_plan q p) = ip_status p"
  "ip_completed_at (patch_plan q p) = ip_completed_at p"
  by (simp_all add: patch_plan_def)

lemma patch_goal_key [simp]: "pg_id (patch_goal q g) = pg_id g" "pg_plan (patch_goal q g) = pg_plan g"
  "pg_order (patch_goal q g) = pg_order g"
  by (simp_all add: patch_goal_def)

lemma patched_given: "given P v \<Longrightarrow> P x \<Longrightarrow> P (patched v x)"
  by (auto simp: given_def patched_def split: option.splits)

lemma patched_strip:
  "given (\<lambda>s. P (strip s)) v \<Longrightarrow> P x \<Longrightarrow> P (patched (map_option (map_option strip) v) x)"
  by (auto simp: given_def patched_def split: option.splits)

lemma plan_ok_patch:
  assumes "plan_ok d p" and "plan_patch_ok q" and "ensure_follow_up d p (lq_follow_up q) = Inr ()"
  shows "plan_ok d (patch_plan q p)"
proof -
  have "text_within PLAN_TITLE_MAX (ip_title (patch_plan q p))"
    using assms(1,2) patched_strip [of "text_within PLAN_TITLE_MAX"] by (simp add: plan_ok_def plan_patch_ok_def patch_plan_def)
  moreover have "\<forall>k. ip_follow_up (patch_plan q p) = Some k \<longrightarrow>
      (\<exists>r. get_record d k = Some r \<and> er_subject r = ip_personnel p)"
    using assms(1,3)
    by (cases "lq_follow_up q") (auto simp: patch_plan_def set_option_def plan_ok_def ensure_follow_up_def split: option.splits)
  ultimately show ?thesis using assms(1) by (simp add: plan_ok_def)
qed

lemma create_plan_ok:
  assumes ok: "plans_ok d" and run: "create_plan e u q d = Inr (p, d')"
  shows "plans_ok d'"
proof (rule create_plan_Inr [OF run])
  fix r x y
  assume r: "get_record d (li_record q) = Some r" "er_status r = finalized" and free: "\<not> has_plan d r"
    and q: "plan_input_ok q" "\<forall>g\<in>set (numbered_goals 0 (li_goals q)). length (snd g) \<le> PLAN_GOAL_MAX"
    and p: "p = new_plan u q r d"
    and d': "d' = (let d1 = log_event e (cu_id u) x (Some (er_id r)) None y (add_plan p (numbered_goals 0 (li_goals q)) d)
      in case ip_owner p of None \<Rightarrow> d1 | Some k \<Rightarrow> assigned_notice e p k (subject_name d1 r) d1)"
  let ?d = "d\<lparr>plans := plans d @ [p]\<rparr>"
  have rk: "er_id r = li_record q" by (rule record_st.row_key [OF r(1)])
  have id: "ip_id p = tbl_next ip_id (plans d)" by (simp add: p new_plan_def)
  have rec: "ip_record p = er_id r" by (simp add: p new_plan_def)
  have same: "plan_ok ?d s = plan_ok d s" for s by (rule plan_ok_cong) (simp add: get_record_def fun_eq_iff)
  have "plan_ok d p"
    using r q(1) by (simp add: plan_ok_def p new_plan_def plan_input_ok_def rk)
  then have base: "plans_ok ?d"
    using ok free id
    by (auto simp: plans_ok_def tbl_ok_insert goal_ok_def same has_plan_def rec)
  have new: "(ip_id p, i) \<notin> goal_place ` set (goals ?d)" for i
  proof
    assume "(ip_id p, i) \<in> goal_place ` set (goals ?d)"
    then obtain s where "s \<in> set (plans d)" "ip_id s = ip_id p"
      using ok by (auto simp: goal_place_def plans_ok_def goal_ok_def)
    then show False using tbl_next_gt [of s "plans d" ip_id] id by simp
  qed
  have "plans_ok (add_plan p (numbered_goals 0 (li_goals q)) d)"
    unfolding add_plan_def
  proof (rule add_goal_rows_ok [OF base _ numbered_goals_distinct], simp)
    show "\<forall>g\<in>set (numbered_goals 0 (li_goals q)). text_within PLAN_GOAL_MAX (snd g) \<and>
        (ip_id p, fst g) \<notin> goal_place ` set (goals ?d)"
      using q(2) new numbered_goals_from by (auto simp: text_within_def)
  qed
  then show "plans_ok d'"
    by (subst plans_ok_cong [of d' "add_plan p (numbered_goals 0 (li_goals q)) d"])
      (simp_all add: d' Let_def frame_simps split: option.split)
qed

lemma update_plan_ok:
  assumes ok: "plans_ok d" and run: "update_plan e u k q d = Inr d'"
  shows "plans_ok d'"
proof (rule update_plan_Inr [OF run])
  fix p y
  assume p: "get_plan d k = Some p" "plan_patch_ok q" "ensure_follow_up d p (lq_follow_up q) = Inr ()"
    and d': "d' = log_event e (cu_id u) ''improvement_plan_updated'' (Some (ip_record p)) None y
      (notify_new_owner e p (patch_plan q p) (personnel_name d (ip_personnel p)) (upd_plan k (patch_plan q) d))"
  have "plans_ok (upd_plan k (patch_plan q) d)"
    by (rule plans_ok_upd_plan [OF ok]) (use p plan_ok_patch in auto)
  then show "plans_ok d'"
    by (subst plans_ok_cong [of d' "upd_plan k (patch_plan q) d"]) (simp_all add: d' frame_simps)
qed

lemma close_plan_ok:
  assumes ok: "plans_ok d" and run: "close_plan e s t u k d = Inr d'" and "s \<noteq> plan_open"
  shows "plans_ok d'"
proof (rule close_plan_Inr [OF run])
  fix p y
  let ?f = "\<lambda>p. p\<lparr>ip_status := s, ip_completed_at := Some (now e)\<rparr>"
  assume d': "d' = log_event e (cu_id u) t (Some (ip_record p)) None y (upd_plan k ?f d)"
  have "plans_ok (upd_plan k ?f d)"
    by (rule plans_ok_upd_plan [OF ok]) (use assms(3) in \<open>simp_all add: plan_ok_def\<close>)
  then show "plans_ok d'" by (subst plans_ok_cong [of d' "upd_plan k ?f d"]) (simp_all add: d' frame_simps)
qed

lemma next_goal_order_new: "(k, next_goal_order d k) \<notin> goal_place ` set (goals d)"
proof
  assume "(k, next_goal_order d k) \<in> goal_place ` set (goals d)"
  then obtain g where g: "g \<in> set (goals_of d k)" "pg_order g = next_goal_order d k"
    by (auto simp: goal_place_def goals_of_def)
  have "pg_order g \<le> Max (pg_order ` set (goals_of d k))" by (rule Max_ge) (use g(1) in simp_all)
  moreover have "goals_of d k \<noteq> []" using g(1) by auto
  ultimately show False using g(2) by (simp add: next_goal_order_def)
qed

lemma add_goal_ok:
  assumes ok: "plans_ok d" and run: "add_goal e u k t d = Inr d'"
  shows "plans_ok d'"
proof (rule add_goal_Inr [OF run])
  fix p y
  let ?d = "add_goal_row k (next_goal_order d k, strip t) d"
  assume p: "get_plan d k = Some p" "text_within PLAN_GOAL_MAX (strip t)"
    and d': "d' = log_event e (cu_id u) ''improvement_goal_added'' (Some (ip_record p)) None y ?d"
  have "plans_ok ?d"
    by (rule plans_ok_add_goal [OF ok p(2) _ next_goal_order_new]) (use get_plan_in [OF ok p(1)] in auto)
  then show "plans_ok d'" by (subst plans_ok_cong [of d' ?d]) (simp_all add: d' frame_simps)
qed

lemma update_goal_ok:
  assumes ok: "plans_ok d" and run: "update_goal e u k j q d = Inr d'"
  shows "plans_ok d'"
proof (rule update_goal_Inr [OF run])
  fix p g x y
  assume q: "goal_patch_ok q"
    and d': "d' = log_event e (cu_id u) ''improvement_goal_updated'' (Some (ip_record p)) x y (upd_goal j (patch_goal q) d)"
  have "plans_ok (upd_goal j (patch_goal q) d)"
    by (rule plans_ok_upd_goal [OF ok])
      (use q patched_strip [of "text_within PLAN_GOAL_MAX"] in \<open>simp_all add: goal_place_def goal_patch_ok_def patch_goal_def\<close>)
  then show "plans_ok d'" by (subst plans_ok_cong [of d' "upd_goal j (patch_goal q) d"]) (simp_all add: d' frame_simps)
qed

lemma delete_goal_ok:
  assumes ok: "plans_ok d" and run: "delete_goal e u k j d = Inr d'"
  shows "plans_ok d'"
proof (rule delete_goal_Inr [OF run])
  fix p g x y
  assume d': "d' = (log_event e (cu_id u) ''improvement_goal_deleted'' (Some (ip_record p)) x y d)
      \<lparr>goals := filter (\<lambda>g. pg_id g \<noteq> j) (goals d)\<rparr>"
  then have "plans d' = plans d" "records d' = records d" "goals d' = filter (\<lambda>g. pg_id g \<noteq> j) (goals d)"
    by (simp_all add: frame_simps)
  then show "plans_ok d'"
    using ok by (auto simp: plans_ok_def tbl_ok_def distinct_map_filter goal_ok_def plan_ok_def get_record_def)
qed

lemma handle_plan_ok: "plans_ok d \<Longrightarrow> handle_plan e u c d = Inr d' \<Longrightarrow> plans_ok d'"
  by (cases c)
    (auto simp: bindE_Inr_iff complete_plan_def cancel_plan_def intro: create_plan_ok update_plan_ok close_plan_ok
      add_goal_ok update_goal_ok delete_goal_ok)

interpretation plan_sys: invariant_system "plan_step e" plans_ok for e
  by unfold_locales (auto simp: plan_step_def handle_plan_ok split: sum.split)

end
