(* ===== verification/PlanProperties.thy ===== *)
theory PlanProperties
  imports Plans Samples
begin

text \<open>The properties of the improvement plans: who gets one, who may change it and when it is frozen.\<close>

section \<open>Frozen goals\<close>

lemma tbl_upd_filter:
  assumes "tbl_get key t j = Some r" and "tbl_ok key t" and "\<not> P r" and "\<not> P (f r)"
  shows "filter P (tbl_upd key j f t) = filter P t"
proof -
  have "x = r" if "x \<in> set t" "key x = j" for x
    using that assms(1,2) tbl_get_in by fastforce
  then have "filter P (map (\<lambda>x. if key x = j then f x else x) t) = filter P t"
    using assms(3,4) by (induction t) auto
  then show ?thesis by (simp add: tbl_upd_def)
qed

lemma goals_added_elsewhere: "k \<noteq> j \<Longrightarrow> goals_of (fold (add_goal_row k) gs d) j = goals_of d j"
  by (induction gs arbitrary: d) (simp_all add: goals_of_def add_goal_row_def)

lemma goals_of_cong: "goals d' = goals d \<Longrightarrow> goals_of d' k = goals_of d k"
  by (simp add: goals_of_def)

definition closed_as :: "improvement_plan \<Rightarrow> db \<Rightarrow> bool" where
  "closed_as p d \<longleftrightarrow> (\<exists>p'. get_plan d (ip_id p) = Some p' \<and> ip_status p' = ip_status p \<and>
     ip_completed_at p' = ip_completed_at p \<and> ip_record p' = ip_record p \<and> ip_personnel p' = ip_personnel p)"

lemma fold_goal_rows_plans: "plans (fold (add_goal_row k) gs d) = plans d"
  by (induction gs arbitrary: d) (simp_all add: add_goal_row_def)

definition untouched :: "improvement_plan \<Rightarrow> db \<Rightarrow> db \<Rightarrow> bool" where
  "untouched p d d' \<longleftrightarrow> closed_as p d' \<and> goals_of d' (ip_id p) = goals_of d (ip_id p)"

lemma untouched_same:
  "closed_as p d \<Longrightarrow> plans d' = plans d \<Longrightarrow> goals_of d' (ip_id p) = goals_of d (ip_id p) \<Longrightarrow> untouched p d d'"
  by (simp add: untouched_def closed_as_def get_plan_def)

lemma closed_other:
  "closed_as p d \<Longrightarrow> ip_status p \<noteq> plan_open \<Longrightarrow> get_plan d k = Some q \<Longrightarrow> ip_status q = plan_open \<Longrightarrow> k \<noteq> ip_id p"
  by (auto simp: closed_as_def)

lemma create_plan_untouched:
  assumes closed: "closed_as p d" and run: "create_plan e u q d = Inr (s, d')"
  shows "untouched p d d'"
proof (rule create_plan_Inr [OF run])
  fix r x y
  let ?gs = "numbered_goals 0 (li_goals q)"
  assume s: "s = new_plan u q r d"
    and d': "d' = (let d1 = log_event e (cu_id u) x (Some (er_id r)) None y (add_plan s ?gs d)
      in case ip_owner s of None \<Rightarrow> d1 | Some k \<Rightarrow> assigned_notice e s k (subject_name d1 r) d1)"
  have tabs: "plans d' = plans d @ [s]" "goals d' = goals (add_plan s ?gs d)"
    by (simp_all add: d' Let_def frame_simps add_plan_def fold_goal_rows_plans split: option.split)
  have "get_plan d (ip_id p) \<noteq> None" using closed by (auto simp: closed_as_def)
  then have "ip_id s \<noteq> ip_id p"
    using tbl_next_fresh [of ip_id "plans d"] by (auto simp: s new_plan_def get_plan_def)
  then have "goals_of (add_plan s ?gs d) (ip_id p) = goals_of d (ip_id p)"
    by (simp add: add_plan_def goals_added_elsewhere) (simp add: goals_of_def)
  then have "goals_of d' (ip_id p) = goals_of d (ip_id p)" using goals_of_cong [OF tabs(2)] by simp
  moreover have "closed_as p d'"
    using closed by (auto simp: closed_as_def get_plan_def tabs(1) tbl_get_append)
  ultimately show ?thesis by (simp add: untouched_def)
qed

lemma update_plan_untouched:
  assumes closed: "closed_as p d" and run: "update_plan e u k q d = Inr d'"
  shows "untouched p d d'"
proof (rule update_plan_Inr [OF run])
  fix p2 y
  assume d': "d' = log_event e (cu_id u) ''improvement_plan_updated'' (Some (ip_record p2)) None y
    (notify_new_owner e p2 (patch_plan q p2) (personnel_name d (ip_personnel p2)) (upd_plan k (patch_plan q) d))"
  have tabs: "plans d' = tbl_upd ip_id k (patch_plan q) (plans d)" "goals d' = goals d" by (simp_all add: d' frame_simps)
  show ?thesis
    using closed goals_of_cong [OF tabs(2)]
    by (cases "ip_id p = k") (auto simp: untouched_def closed_as_def get_plan_def tabs(1) tbl_get_upd)
qed

lemma close_plan_untouched:
  assumes "closed_as p d" and "ip_status p \<noteq> plan_open" and run: "close_plan e s t u k d = Inr d'"
  shows "untouched p d d'"
  by (rule close_plan_Inr [OF run])
    (use assms closed_other [OF assms(1,2), of k] in
      \<open>auto simp: untouched_def closed_as_def get_plan_def tbl_get_upd frame_simps goals_of_def\<close>)

lemma add_goal_untouched:
  assumes "closed_as p d" and "ip_status p \<noteq> plan_open" and run: "add_goal e u k t d = Inr d'"
  shows "untouched p d d'"
  by (rule add_goal_Inr [OF run])
    (rule untouched_same [OF assms(1)], use closed_other [OF assms(1,2), of k] in
      \<open>auto simp: frame_simps goals_of_def add_goal_row_def\<close>)

lemma update_goal_untouched:
  assumes ok: "tbl_ok pg_id (goals d)" and closed: "closed_as p d" "ip_status p \<noteq> plan_open"
    and run: "update_goal e u k j q d = Inr d'"
  shows "untouched p d d'"
proof (rule update_goal_Inr [OF run])
  fix p2 g x y
  assume p2: "get_plan d k = Some p2" "ip_status p2 = plan_open" "get_goal d j = Some g" "pg_plan g = k"
    and d': "d' = log_event e (cu_id u) ''improvement_goal_updated'' (Some (ip_record p2)) x y (upd_goal j (patch_goal q) d)"
  have "goals_of d' (ip_id p) = goals_of d (ip_id p)"
    unfolding goals_of_def d' frame_simps
    by (rule tbl_upd_filter [OF p2(3) [unfolded get_goal_def] ok]) (use p2 closed_other [OF closed] in auto)
  then show ?thesis by (intro untouched_same [OF closed(1)]) (simp_all add: d' frame_simps)
qed

lemma delete_goal_untouched:
  assumes ok: "tbl_ok pg_id (goals d)" and closed: "closed_as p d" "ip_status p \<noteq> plan_open"
    and run: "delete_goal e u k j d = Inr d'"
  shows "untouched p d d'"
proof (rule delete_goal_Inr [OF run])
  fix p2 g x y
  assume p2: "get_plan d k = Some p2" "ip_status p2 = plan_open" "get_goal d j = Some g" "pg_plan g = k"
    and d': "d' = (log_event e (cu_id u) ''improvement_goal_deleted'' (Some (ip_record p2)) x y d)
      \<lparr>goals := filter (\<lambda>g. pg_id g \<noteq> j) (goals d)\<rparr>"
  have "h = g" if "h \<in> set (goals d)" "pg_id h = j" for h
    using that p2(3) ok tbl_get_in unfolding get_goal_def by fastforce
  then have "goals_of (d\<lparr>goals := filter (\<lambda>g. pg_id g \<noteq> j) (goals d)\<rparr>) (ip_id p) = goals_of d (ip_id p)"
    using p2(4) closed_other [OF closed p2(1,2)] unfolding goals_of_def
    by (simp add: filter_filter) (rule filter_cong; auto)
  then show ?thesis by (intro untouched_same [OF closed(1)]) (simp_all add: d' frame_simps goals_of_def)
qed

lemma closed_plan_step:
  assumes ok: "plans_ok d" and closed: "closed_as p d" "ip_status p \<noteq> plan_open" and run: "handle_plan e u c d = Inr d'"
  shows "untouched p d d'"
proof -
  have ids: "tbl_ok pg_id (goals d)" using ok by (simp add: plans_ok_def)
  show ?thesis
    using run create_plan_untouched [OF closed(1)] update_plan_untouched [OF closed(1)] close_plan_untouched [OF closed]
      add_goal_untouched [OF closed] update_goal_untouched [OF ids closed] delete_goal_untouched [OF ids closed]
    by (cases c) (auto simp: bindE_Inr_iff complete_plan_def cancel_plan_def)
qed

text \<open>Being closed as the plan was, with the goals it had, is an invariant of the router.\<close>

interpretation closed_sys: invariant_system "plan_step e"
  "\<lambda>d. plans_ok d \<and> ip_status p \<noteq> plan_open \<and> closed_as p d \<and> goals_of d (ip_id p) = gs" for e p gs
proof
  fix d c
  assume a: "plans_ok d \<and> ip_status p \<noteq> plan_open \<and> closed_as p d \<and> goals_of d (ip_id p) = gs"
  show "plans_ok (plan_step e c d) \<and> ip_status p \<noteq> plan_open \<and> closed_as p (plan_step e c d) \<and>
      goals_of (plan_step e c d) (ip_id p) = gs"
    using a plan_sys.step_inv [of d e c] closed_plan_step [of d p e "fst c" "snd c"]
    by (cases "handle_plan e (fst c) (snd c) d") (auto simp: plan_step_def untouched_def)
qed

section \<open>Limits in hundredths\<close>

text \<open>The percentages are columns with two decimals; on those the two comparisons agree.\<close>

definition two_decimals :: "rat \<Rightarrow> bool" where
  "two_decimals x \<longleftrightarrow> \<bar>x\<bar> \<le> 1000 \<and> (\<exists>n. x = of_int n / 100)"

lemma fl_less_two_decimals:
  assumes "two_decimals x" and "two_decimals y"
  shows "fl x < fl y \<longleftrightarrow> x < y"
proof
  assume "fl x < fl y"
  then show "x < y" using fl_mono [of y x] by (meson leD leI)
next
  assume less: "x < y"
  obtain m n where mn: "x = of_int m / 100" "y = of_int n / 100" using assms by (auto simp: two_decimals_def)
  have "m < n" using less by (simp add: mn)
  then have "m + 1 \<le> n" by simp
  then have "of_int (m + 1) \<le> (of_int n :: rat)" by (simp only: of_int_le_iff)
  then have "x + 1 / 100 \<le> y" by (simp add: mn)
  moreover have "\<bar>fl x - x\<bar> \<le> 1 / 2 ^ 30" "\<bar>fl y - y\<bar> \<le> 1 / 2 ^ 30"
    using assms by (intro fl_error_small; simp add: two_decimals_def)+
  moreover have "(1::rat) / 2 ^ 30 < 1 / 200" by simp
  ultimately show "fl x < fl y" by linarith
qed

lemma below_limit_stamped:
  assumes "er_scheme r = Some k" and "get_scheme d k = Some s" and "two_decimals (ss_plan_max_pct s)"
    and "er_final_pct r = Some x" and "two_decimals x"
  shows "below_limit d r \<longleftrightarrow> x < plan_limit d r"
  using assms fl_less_two_decimals
  by (simp add: below_limit_def plan_limit_def rules_for_record_def rules_from_def)

section \<open>A sample plan\<close>

definition demo_plan :: "plan_status \<Rightarrow> improvement_plan" where
  "demo_plan s = \<lparr>ip_id = 1, ip_record = 1, ip_personnel = 1, ip_title = lit ''Plan'', ip_owner = Some 2,
     ip_status = s, ip_review_date = 739300, ip_summary = None, ip_follow_up = None, ip_created_by = Some 1,
     ip_completed_at = (if s = plan_open then None else Some (days 20000))\<rparr>"

definition demo_goal :: plan_goal where
  "demo_goal = \<lparr>pg_id = 1, pg_plan = 1, pg_description = lit ''Goal'', pg_done = False, pg_order = 0\<rparr>"

definition planned_db :: "plan_status \<Rightarrow> db" where
  "planned_db s = (demo_at finalized)\<lparr>plans := [demo_plan s], goals := [demo_goal]\<rparr>"

lemma planned_rows: "plans (planned_db s) = [demo_plan s]" "goals (planned_db s) = [demo_goal]"
  "records (planned_db s) = [demo_case finalized]" "get_plan (planned_db s) 1 = Some (demo_plan s)"
  "get_goal (planned_db s) 1 = Some demo_goal"
  by (simp_all add: planned_db_def get_plan_def get_goal_def tbl_get_def demo_plan_def demo_goal_def)

lemma planned_ok: "plans_ok (planned_db s)"
proof -
  have "get_record (planned_db s) 1 = Some (demo_case finalized)"
    by (simp add: get_record_def planned_rows tbl_get_def)
  then have "plan_ok (planned_db s) (demo_plan s)"
    by (simp add: plan_ok_def demo_plan_def text_within_def PLAN_TITLE_MAX_def lit_def)
  moreover have "goal_ok (planned_db s) demo_goal"
    by (simp add: goal_ok_def planned_rows demo_goal_def demo_plan_def text_within_def PLAN_GOAL_MAX_def lit_def)
  ultimately show ?thesis by (simp add: plans_ok_def planned_rows tbl_ok_def)
qed

section \<open>Properties\<close>

text \<open>C9. Whatever is done to the improvement plans, in any order: a finalized case has at most one plan, the plan
  carries the person of its case, as does its follow-up, it has a time of completion exactly when it
  is closed, and its goals keep different positions.\<close>

theorem plans_stay_well_formed:
  assumes "plans_ok d"
  shows "plans_ok (fold (plan_step e) cs d)"
  by (rule plan_sys.run_inv [OF assms])

theorem plans_stay_well_formed_witness:
  "plans_ok (fold (plan_step demo_env) [(demo_supervisor, UpdateGoal 1 1 \<lparr>gq_description = None, gq_done = Some (Some True)\<rparr>),
     (demo_hr, AddGoal 1 (lit ''Next'')), (demo_hr, CompletePlan 1)] (planned_db plan_open))"
  by (rule plans_stay_well_formed [OF planned_ok])

text \<open>The goals of a closed plan are frozen: whatever requests follow, by whomever, the plan stays closed the
  way and at the time it was closed, it stays with its case and person, and its goals are the same
  rows as before.\<close>

theorem closed_plan_keeps_its_goals:
  assumes "plans_ok d" and "get_plan d k = Some p" and "ip_status p \<noteq> plan_open"
  shows "goals_of (fold (plan_step e) cs d) k = goals_of d k \<and>
    (\<exists>p'. get_plan (fold (plan_step e) cs d) k = Some p' \<and> ip_status p' = ip_status p \<and>
      ip_completed_at p' = ip_completed_at p \<and> ip_record p' = ip_record p \<and> ip_personnel p' = ip_personnel p)"
proof -
  have k: "ip_id p = k" by (rule plan_st.row_key [OF assms(2)])
  then have "closed_as p d" using assms(2) by (simp add: closed_as_def)
  then show ?thesis
    using closed_sys.run_inv [of d p "goals_of d k" e cs] assms k by (simp add: closed_as_def)
qed

theorem closed_plan_keeps_its_goals_witness:
  "goals_of (fold (plan_step demo_env) [(demo_hr, DeleteGoal 1 1), (demo_hr, AddGoal 1 (lit ''Next''))]
     (planned_db plan_completed)) 1 = [demo_goal]"
proof -
  have "goals_of (planned_db plan_completed) 1 = [demo_goal]" by (simp add: goals_of_def planned_rows demo_goal_def)
  moreover have "ip_status (demo_plan plan_completed) \<noteq> plan_open" by (simp add: demo_plan_def)
  ultimately show ?thesis
    by (intro trans [OF closed_plan_keeps_its_goals [OF planned_ok planned_rows(4), THEN conjunct1]])
qed

text \<open>Whoever is not of human resources can change nothing but ticks: a request of such a user that succeeds
  marks one goal of an open plan that was given to that user, and leaves every text, every plan and
  every other goal as it was.\<close>

theorem owner_can_only_tick:
  assumes "cu_role u \<noteq> hr" and "handle_plan e u c d = Inr d'"
  shows "\<exists>k j v p g. c = UpdateGoal k j \<lparr>gq_description = None, gq_done = v\<rparr> \<and> get_plan d k = Some p \<and>
    ip_owner p = Some (cu_id u) \<and> ip_status p = plan_open \<and> get_goal d j = Some g \<and> pg_plan g = k \<and>
    plans d' = plans d \<and> goals d' = tbl_upd pg_id j (\<lambda>g. g\<lparr>pg_done := patched v (pg_done g)\<rparr>) (goals d)"
proof -
  obtain k j q where c: "c = UpdateGoal k j q" and run: "update_goal e u k j q d = Inr d'"
    using assms by (cases c) (auto simp: create_plan_def update_plan_def complete_plan_def cancel_plan_def close_plan_def
      add_goal_def delete_goal_def bindE_Inr_iff guard_simps)
  show ?thesis
  proof (rule update_goal_Inr [OF run])
    fix p g x y
    assume p: "get_plan d k = Some p" "ip_status p = plan_open" "get_goal d j = Some g" "pg_plan g = k"
      and u: "cu_role u = hr \<or> cu_role u \<in> set PLAN_ROLES \<and> is_plan_owner p u \<and> gq_description q = None"
      and d': "d' = log_event e (cu_id u) ''improvement_goal_updated'' (Some (ip_record p)) x y (upd_goal j (patch_goal q) d)"
    have own: "ip_owner p = Some (cu_id u)" "gq_description q = None" using u assms(1) by (auto simp: is_plan_owner_def)
    then have "patch_goal q = (\<lambda>g. g\<lparr>pg_done := patched (gq_done q) (pg_done g)\<rparr>)"
      by (simp add: patch_goal_def patched_def fun_eq_iff)
    moreover have "q = \<lparr>gq_description = None, gq_done = gq_done q\<rparr>" using own by simp
    ultimately show ?thesis using c p own(1) by (intro exI [of _ k] exI [of _ j] exI [of _ "gq_done q"]) (auto simp: d' frame_simps)
  qed
qed

theorem owner_can_only_tick_witness:
  "\<exists>d'. handle_plan demo_env demo_supervisor (UpdateGoal 1 1 \<lparr>gq_description = None, gq_done = Some (Some True)\<rparr>)
      (planned_db plan_open) = Inr d' \<and> plans d' = [demo_plan plan_open]"
proof -
  let ?q = "\<lparr>gq_description = None, gq_done = Some (Some True)\<rparr>"
  have "goal_patch_ok ?q" by (simp add: goal_patch_ok_def given_def)
  then obtain d' where "update_goal demo_env demo_supervisor 1 1 ?q (planned_db plan_open) = Inr d'"
    by (simp add: update_goal_def guard_simps PLAN_ROLES_def demo_supervisor_def goal_or_404_def get_plan_or_404_def
        planned_rows ensure_can_view_plan_def is_plan_owner_def ensure_plan_open_def demo_plan_def demo_goal_def
        require_roles_def)
  then have run: "handle_plan demo_env demo_supervisor (UpdateGoal 1 1 ?q) (planned_db plan_open) = Inr d'" by simp
  have "cu_role demo_supervisor \<noteq> hr" by (simp add: demo_supervisor_def)
  then show ?thesis using owner_can_only_tick [OF _ run] run by (auto simp: planned_rows)
qed

text \<open>C37. The page that lists who needs a plan and the page that writes one agree: for a case stamped with a
  version of the rules, a valid plan can be written exactly when the case is listed. The one compares
  decimals in the database and the other floats.\<close>

theorem plan_is_accepted_iff_listed:
  assumes "cu_role u = hr" and "plan_input_ok q" and "ensure_owner_is_valid d (li_owner q) = Inr ()"
    and "\<forall>g\<in>set (numbered_goals 0 (li_goals q)). length (snd g) \<le> PLAN_GOAL_MAX"
    and "get_record d (li_record q) = Some r" and "er_scheme r = Some k" and "get_scheme d k = Some s"
    and "two_decimals (ss_plan_max_pct s)" and "\<forall>x. er_final_pct r = Some x \<longrightarrow> two_decimals x"
  shows "(\<exists>p d'. create_plan e u q d = Inr (p, d')) \<longleftrightarrow> (\<exists>rs. list_eligible_evaluations d u = Inr rs \<and> r \<in> set rs)"
proof -
  have r: "r \<in> set (records d)" using assms(5) by (auto simp: get_record_def dest: tbl_get_Some_set)
  have limit: "below_limit d r \<longleftrightarrow> (case er_final_pct r of None \<Rightarrow> False | Some x \<Rightarrow> x < plan_limit d r)"
    using below_limit_stamped [OF assms(6,7,8)] assms(9) by (cases "er_final_pct r") (simp_all add: below_limit_def)
  have "(\<exists>p d'. create_plan e u q d = Inr (p, d')) \<longleftrightarrow> er_status r = finalized \<and> below_limit d r \<and> \<not> has_plan d r"
    using assms(1-5) by (auto simp: create_plan_def require_roles_def Let_def not_less)
  then show ?thesis using r assms(1) limit by (simp add: list_eligible_evaluations_def require_roles_def needs_plan_def)
qed

definition plan_rules :: scoring_scheme where
  "plan_rules = \<lparr>ss_id = 1, ss_version = 1, ss_name = [], ss_status = scheme_active, ss_general_weight = 6/10,
     ss_specialized_weight = 4/10, ss_evidence_scores = [1, 5], ss_evidence_min = 3, ss_evidence_max = 40,
     ss_bonus_max = 5, ss_plan_max_pct = 75, ss_thresholds = FINAL_RESULT_THRESHOLDS, ss_weights = [],
     ss_created_by = None, ss_activated_by = None, ss_activated_at = None, ss_retired_at = None\<rparr>"

definition stamped_db :: db where
  "stamped_db = (demo_at finalized)\<lparr>records := [(demo_case finalized)\<lparr>er_scheme := Some 1\<rparr>], schemes := [plan_rules]\<rparr>"

definition plan_draft :: plan_input where
  "plan_draft = \<lparr>li_record = 1, li_title = lit ''Plan'', li_review_date = 739300, li_owner = None, li_summary = None,
     li_goals = []\<rparr>"

theorem plan_is_accepted_iff_listed_witness:
  "\<exists>p d'. create_plan demo_env demo_hr plan_draft stamped_db = Inr (p, d')"
proof -
  let ?r = "(demo_case finalized)\<lparr>er_scheme := Some 1\<rparr>"
  have draft: "plan_input_ok plan_draft"
  proof -
    have "strip (lit ''Plan'') = lit ''Plan''" by (rule strip_no_space) (simp add: lit_def is_space_def)
    then show ?thesis by (simp add: plan_input_ok_def plan_draft_def text_within_def PLAN_TITLE_MAX_def) (simp add: lit_def)
  qed
  have rows: "get_record stamped_db 1 = Some ?r" "get_scheme stamped_db 1 = Some plan_rules"
    by (simp_all add: stamped_db_def get_record_def get_scheme_def tbl_get_def plan_rules_def)
  have hundred: "two_decimals 75" "two_decimals 72"
    by (auto simp: two_decimals_def intro: exI [of _ 7500] exI [of _ 7200])
  have "list_eligible_evaluations stamped_db demo_hr = Inr [?r]"
    using rows(2) by (simp add: list_eligible_evaluations_def require_roles_def demo_hr_def needs_plan_def plan_limit_def
        has_plan_def stamped_db_def) (simp add: plan_rules_def demo_at_def demo_db_def empty_db_def)
  then show ?thesis
    using plan_is_accepted_iff_listed [OF _ draft, of demo_hr stamped_db ?r 1 plan_rules demo_env] rows hundred
    by (simp add: demo_hr_def plan_draft_def plan_rules_def ensure_owner_is_valid_def)
qed

text \<open>A closed plan can still be rewritten: title, date, owner, summary and follow-up of a completed or
  cancelled plan are accepted like those of an open one; only its goals are protected.\<close>

theorem closed_plan_can_be_rewritten:
  assumes "cu_role u = hr" and "get_plan d k = Some p" and "ip_status p \<noteq> plan_open" and "text_within 200 (strip t)"
  shows "\<exists>d' p'. update_plan e u k \<lparr>lq_title = Some (Some t), lq_review_date = None, lq_owner = None,
      lq_summary = None, lq_follow_up = None\<rparr> d = Inr d' \<and> get_plan d' k = Some p' \<and>
    ip_title p' = strip t \<and> ip_status p' = ip_status p"
  using assms
  by (simp add: update_plan_def require_roles_def plan_patch_ok_def given_def PLAN_TITLE_MAX_def get_plan_or_404_def
      ensure_follow_up_def notify_new_owner_def patch_plan_def set_option_def patched_def frame_simps upd_plan_def
      get_plan_def tbl_get_upd split: option.split)

end
