(* ===== verification/Scheduled.thy ===== *)
theory Scheduled
  imports Plans Sessions Documents Delivery
begin

text \<open>
  The periodic jobs: the reminders of \<open>services/scheduled.py\<close>, the lock and the history of
  \<open>services/scheduler_lock.py\<close>, and the pages of \<open>routers/admin.py\<close> that start and show them. A job reads
  the cases, the contracts and the plans and writes notices. The lemmas show what a run may touch, that
  what had to be said is said, that a second run says nothing new, and how a run fails.
\<close>

section \<open>Reminders\<close>

text \<open>
  The state of a run: the number of notices of the current job, the number of outbox rows that have
  reached the database, and the session. The session does not flush before a query; a notice is flushed
  when it is made, its outbox rows only with the next flush.
\<close>

record sweep =
  sw_made :: nat
  sw_written :: nat
  sw_db :: db

text \<open>A notice for nobody violates the column \<open>user_id\<close>.\<close>

definition remind ::
  "env \<Rightarrow> string \<Rightarrow> ustr \<Rightarrow> string \<Rightarrow> int \<Rightarrow> int option \<Rightarrow> string option \<Rightarrow> int option \<Rightarrow> sweep \<Rightarrow> py_exc + sweep" where
  "remind e type message key dedup_days rid link v s = (case v of
     None \<Rightarrow> Inl (IntegrityError ''notifications.user_id'')
   | Some k \<Rightarrow>
      let r = notify_once e k type message key dedup_days rid link (sw_db s)
      in Inr (if fst r then \<lparr>sw_made = sw_made s + 1, sw_written = length (deliveries (sw_db s)), sw_db = snd r\<rparr> else s))"

definition active_hr :: "db \<Rightarrow> int list" where
  "active_hr d = active_user_ids_with_role d hr"

definition num :: "int \<Rightarrow> string" where
  "num n = map char_of (int_text n)"

definition days_away :: "env \<Rightarrow> date \<Rightarrow> ustr" where
  "days_away e n = int_text \<bar>n - today e\<bar> @ lit (if today e \<le> n then '' days from now'' else '' days ago'')"

text \<open>Active people whose contract ends within the horizon and who have no open case.\<close>

definition expiring :: "env \<Rightarrow> db \<Rightarrow> personnel list" where
  "expiring e d = sort_key p_contract_end (filter (\<lambda>p. p_status p = p_active \<and>
     p_contract_end p \<le> today e + contract_expiry_alert_days (cfg e) \<and>
     \<not> (\<exists>r\<in>set (records d). er_subject r = p_id p \<and> is_open r)) (personnels d))"

definition run_contract_expiry_sweep :: "env \<Rightarrow> sweep \<Rightarrow> py_exc + sweep" where
  "run_contract_expiry_sweep e s =
     foldE (\<lambda>p. foldE (\<lambda>k. remind e ''contract_expiry''
         (lit ''the contract of '' @ p_full_name p @ lit '' ends '' @ days_away e (p_contract_end p) @ lit '' without an evaluation'')
         (''contract_expiry:'' @ num (p_id p)) (notification_dedup_days (cfg e)) None (Some ''/hr/dashboard'') (Some k))
       (active_hr (sw_db s)))
     (expiring e (sw_db s)) s"

text \<open>Who has to act on a case; the deputy of an approved case is taken as it is stored.\<close>

definition current_owner_ids :: "db \<Rightarrow> evaluation_record \<Rightarrow> int option list" where
  "current_owner_ids d r = (case er_status r of
     draft \<Rightarrow>
       let owner = (if er_deputy r = None \<and> is_manager_path r then Some (er_ceo r)
             else if is_manager_path r then er_deputy r else er_supervisor r)
       in if owner = None then [] else [owner]
   | submitted \<Rightarrow> map Some (active_hr d)
   | hr_approved \<Rightarrow> [er_deputy r]
   | deputy_approved \<Rightarrow> [Some (er_ceo r)]
   | _ \<Rightarrow> [])"

definition stalled :: "env \<Rightarrow> evaluation_record \<Rightarrow> bool" where
  "stalled e r \<longleftrightarrow> is_open r \<and> er_stage_entered_at r \<le> now e - days (sla_reminder_days (cfg e))"

definition run_sla_sweep :: "env \<Rightarrow> sweep \<Rightarrow> py_exc + sweep" where
  "run_sla_sweep e s =
     foldE (\<lambda>r. foldE (remind e ''sla_reminder''
         (lit ''case '' @ lit (er_code r) @ lit '' ('' @ subject_name (sw_db s) r @ lit '') has been waiting for you'')
         (''sla:'' @ num (er_id r) @ '':'' @ status_value (er_status r)) (sla_reminder_days (cfg e))
         (Some (er_id r)) (Some (evaluation_link (er_id r))))
       (current_owner_ids (sw_db s) r))
     (filter (stalled e) (records (sw_db s))) s"

definition is_active_id :: "db \<Rightarrow> int option \<Rightarrow> bool" where
  "is_active_id d v \<longleftrightarrow> (\<exists>x\<in>set (users d). Some (u_id x) = v \<and> u_is_active x)"

definition orphaned :: "db \<Rightarrow> evaluation_record \<Rightarrow> bool" where
  "orphaned d r \<longleftrightarrow> is_open r \<and> current_owner_ids d r \<noteq> [] \<and> er_status r \<noteq> submitted \<and>
     \<not> (\<exists>v\<in>set (current_owner_ids d r). is_active_id d v)"

definition run_orphaned_case_sweep :: "env \<Rightarrow> sweep \<Rightarrow> py_exc + sweep" where
  "run_orphaned_case_sweep e s =
     foldE (\<lambda>r. foldE (\<lambda>k. remind e ''orphaned_case''
         (lit ''case '' @ lit (er_code r) @ lit '' ('' @ subject_name (sw_db s) r @ lit '') is stuck: its owner is not active'')
         (''orphaned:'' @ num (er_id r) @ '':'' @ status_value (er_status r)) (notification_dedup_days (cfg e))
         (Some (er_id r)) (Some (evaluation_link (er_id r))) (Some k))
       (active_hr (sw_db s)))
     (filter (orphaned (sw_db s)) (records (sw_db s))) s"

definition due_plans :: "env \<Rightarrow> db \<Rightarrow> improvement_plan list" where
  "due_plans e d = filter (\<lambda>p. ip_status p = plan_open \<and>
     ip_review_date p \<le> today e + improvement_review_alert_days (cfg e)) (plans d)"

definition run_improvement_review_sweep :: "env \<Rightarrow> sweep \<Rightarrow> py_exc + sweep" where
  "run_improvement_review_sweep e s =
     foldE (\<lambda>p. foldE (\<lambda>k. remind e ''improvement_review_due''
         (lit ''the review of plan '' @ ip_title p @ lit '' ('' @ personnel_name (sw_db s) (ip_personnel p) @ lit '') is '' @
          days_away e (ip_review_date p))
         (''improvement_review:'' @ num (ip_id p) @ '':'' @ iso_date (ip_review_date p)) (notification_dedup_days (cfg e))
         None (Some (plan_link p)) (Some k))
       (set_order e (active_hr (sw_db s) @ opt_list (ip_owner p))))
     (due_plans e (sw_db s)) s"

section \<open>The other jobs\<close>

definition DOCUMENT_BACKFILL_BATCH :: nat where
  "DOCUMENT_BACKFILL_BATCH = 20"

definition without_document :: "db \<Rightarrow> evaluation_record list" where
  "without_document d = take DOCUMENT_BACKFILL_BATCH
     (sort_key (\<lambda>r. case er_finalized_at r of None \<Rightarrow> 0 | Some t \<Rightarrow> t)
       (filter (\<lambda>r. er_status r = finalized \<and> er_final_snapshot r \<noteq> None \<and> get_document d (er_id r) = None) (records d)))"

text \<open>A stored document is written inside a savepoint, which flushes the session.\<close>

definition backfill_one :: "env \<Rightarrow> evaluation_record \<Rightarrow> sweep \<Rightarrow> sweep" where
  "backfill_one e r s = (case archive_final_pdf e r (sw_db s) of
     (None, _) \<Rightarrow> s
   | (Some x, d) \<Rightarrow> \<lparr>sw_made = sw_made s + 1, sw_written = length (deliveries d), sw_db = d\<rparr>)"

text \<open>\<open>renders\<close>: the libraries of the renderer are installed.\<close>

definition run_document_backfill_sweep :: "env \<Rightarrow> bool \<Rightarrow> sweep \<Rightarrow> sweep" where
  "run_document_backfill_sweep e renders s =
     (if renders then fold (backfill_one e) (without_document (sw_db s)) s else s)"

text \<open>The outbox job sees the rows that have reached the database.\<close>

definition sweep_outbox :: "env \<Rightarrow> sender \<Rightarrow> nat \<Rightarrow> db \<Rightarrow> sweep_counts \<times> db" where
  "sweep_outbox e send n d =
     (let r = run_delivery_sweep e send None (d\<lparr>deliveries := take n (deliveries d)\<rparr>)
      in (fst r, (snd r)\<lparr>deliveries := deliveries (snd r) @ drop n (deliveries d)\<rparr>))"

section \<open>A run\<close>

definition restart :: "sweep \<Rightarrow> sweep" where
  "restart s = s\<lparr>sw_made := 0\<rparr>"

definition run_all_sweeps :: "env \<Rightarrow> bool \<Rightarrow> sender \<Rightarrow> db \<Rightarrow> py_exc + ((string \<times> int) list \<times> db)" where
  "run_all_sweeps e renders send d =
     bindE (run_contract_expiry_sweep e \<lparr>sw_made = 0, sw_written = length (deliveries d), sw_db = d\<rparr>) (\<lambda>s1.
     bindE (run_sla_sweep e (restart s1)) (\<lambda>s2.
     bindE (run_orphaned_case_sweep e (restart s2)) (\<lambda>s3.
     bindE (run_improvement_review_sweep e (restart s3)) (\<lambda>s4.
       let s5 = run_document_backfill_sweep e renders (restart s4);
           purged = purge_stale e (sw_db s5);
           out = sweep_outbox e send (sw_written s5) (snd purged)
       in Inr ([(''contract_expiry'', int (sw_made s1)), (''sla_reminder'', int (sw_made s2)),
           (''orphaned_case'', int (sw_made s3)), (''improvement_review'', int (sw_made s4)),
           (''documents_archived'', int (sw_made s5)), (''stale_login_attempts_purged'', int (fst purged)),
           (''delivery_sent'', int (sent_count (fst out))), (''delivery_failed'', int (failed_count (fst out))),
           (''delivery_abandoned'', int (abandoned_count (fst out)))], snd out)))))"

text \<open>
  \<open>run_sweeps_once\<close>: \<open>elsewhere\<close> says that another instance holds the advisory lock; \<open>describe\<close> is the
  text of an exception. A run that raises is rolled back and leaves its row in the history.
\<close>

definition history_row :: "env \<Rightarrow> string \<Rightarrow> string \<Rightarrow> (string \<times> int) list option \<Rightarrow> string option \<Rightarrow> db \<Rightarrow> scheduler_run" where
  "history_row e st trigger summary err d = \<lparr>sr_id = tbl_next sr_id (scheduler_runs d), sr_started_at = now e,
     sr_finished_at = Some (now e), sr_status = st, sr_trigger = trigger, sr_summary = summary, sr_error = err\<rparr>"

definition add_run :: "scheduler_run \<Rightarrow> db \<Rightarrow> db" where
  "add_run r d = d\<lparr>scheduler_runs := scheduler_runs d @ [r]\<rparr>"

definition run_sweeps_once ::
  "env \<Rightarrow> bool \<Rightarrow> (py_exc \<Rightarrow> string) \<Rightarrow> (db \<Rightarrow> py_exc + ((string \<times> int) list \<times> db)) \<Rightarrow> string \<Rightarrow> db \<Rightarrow>
     (py_exc + scheduler_run) \<times> db" where
  "run_sweeps_once e elsewhere describe runner trigger d =
     (if elsewhere then
        let r = history_row e ''skipped_locked'' trigger None None d in (Inr r, add_run r d)
      else case runner d of
        Inl x \<Rightarrow> (Inl x, add_run (history_row e ''failed'' trigger None (Some (take 2000 (describe x))) d) d)
      | Inr (summary, d1) \<Rightarrow>
          let r = history_row e ''succeeded'' trigger (Some summary) None d1 in (Inr r, add_run r d1))"

definition run_scheduled_jobs ::
  "env \<Rightarrow> bool \<Rightarrow> (py_exc \<Rightarrow> string) \<Rightarrow> bool \<Rightarrow> sender \<Rightarrow> current_user \<Rightarrow> db \<Rightarrow> (string \<times> int) list result \<times> db" where
  "run_scheduled_jobs e elsewhere describe renders send u d = (case require_capability [view_diagnostics] u d of
     Inl x \<Rightarrow> (Inl x, d)
   | Inr _ \<Rightarrow> (case run_sweeps_once e elsewhere describe (run_all_sweeps e renders send) ''manual'' d of
       (Inl x, d1) \<Rightarrow> (Inl (Uncaught x), d1)
     | (Inr r, d1) \<Rightarrow>
         if sr_status r = ''skipped_locked'' then (Inl (HTTPException 409 ''the jobs are running already''), d1)
         else
           let summary = (case sr_summary r of None \<Rightarrow> [] | Some xs \<Rightarrow> xs)
           in (Inr summary, log_event e (cu_id u) ''scheduled_jobs_run'' None None
                (Some (JObj (map (\<lambda>(n, k). (n, JInt k)) summary))) d1)))"

section \<open>The pages of the administrator\<close>

definition recent_runs :: "db \<Rightarrow> nat \<Rightarrow> scheduler_run list" where
  "recent_runs d limit = take limit (rev (sort_key sr_started_at (scheduler_runs d)))"

definition list_scheduler_runs :: "db \<Rightarrow> current_user \<Rightarrow> nat \<Rightarrow> scheduler_run list result" where
  "list_scheduler_runs d u limit =
     bindE (require_capability [view_diagnostics] u d) (\<lambda>_.
     bindE (require (1 \<le> limit \<and> limit \<le> 100) (HTTPException 422 ''invalid limit'')) (\<lambda>_.
       Inr (recent_runs d limit)))"

record queue_summary =
  qs_channels :: "delivery_channel list"
  qs_counts :: "(delivery_status \<times> nat) list"
  qs_problems :: "notification_delivery list"

definition delivery_queue :: "env \<Rightarrow> db \<Rightarrow> current_user \<Rightarrow> queue_summary result" where
  "delivery_queue e d u =
     bindE (require_capability [view_diagnostics] u d) (\<lambda>_.
       Inr \<lparr>qs_channels = channels_on e,
         qs_counts = map (\<lambda>s. (s, length (filter (\<lambda>v. nd_status v = s) (deliveries d))))
           [d_pending, d_sent, d_failed, d_abandoned],
         qs_problems = take 50 (rev (sort_key (\<lambda>v. case nd_last_attempt_at v of None \<Rightarrow> 0 | Some t \<Rightarrow> t)
           (filter (\<lambda>v. nd_status v = d_failed \<or> nd_status v = d_abandoned) (deliveries d))))\<rparr>)"

section \<open>A job as a list of demands\<close>

record demand =
  dm_type :: string
  dm_text :: ustr
  dm_key :: string
  dm_days :: int
  dm_record :: "int option"
  dm_link :: "string option"
  dm_user :: "int option"

definition serve_demand :: "env \<Rightarrow> demand \<Rightarrow> sweep \<Rightarrow> py_exc + sweep" where
  "serve_demand e m = remind e (dm_type m) (dm_text m) (dm_key m) (dm_days m) (dm_record m) (dm_link m) (dm_user m)"

lemma serve_demand_eq [simp]:
  "serve_demand e \<lparr>dm_type = t, dm_text = x, dm_key = key, dm_days = n, dm_record = r, dm_link = l, dm_user = v\<rparr>
     = remind e t x key n r l v"
  by (simp add: serve_demand_def)

lemma foldE_append: "foldE f (xs @ ys) s = bindE (foldE f xs s) (foldE f ys)"
  by (induction xs arbitrary: s) (simp_all add: bindE_def split: sum.split)

lemma foldE_map: "foldE f (map g xs) s = foldE (\<lambda>x. f (g x)) xs s"
  by (induction xs arbitrary: s) (simp_all add: bindE_def split: sum.split)

lemma foldE_fails:
  assumes "x \<in> set xs" and "\<And>s. \<exists>err. f x s = Inl err"
  shows "\<exists>err. foldE f xs s = Inl err"
  using assms(1)
proof (induction xs arbitrary: s)
  case (Cons y ys)
  show ?case
  proof (cases "f y s")
    case (Inr s')
    then have "x \<noteq> y" using assms(2) [of s] by auto
    then show ?thesis using Cons Inr by simp
  qed simp
qed simp

definition contract_demand :: "env \<Rightarrow> personnel \<Rightarrow> int \<Rightarrow> demand" where
  "contract_demand e p k = \<lparr>dm_type = ''contract_expiry'',
     dm_text = lit ''the contract of '' @ p_full_name p @ lit '' ends '' @ days_away e (p_contract_end p) @ lit '' without an evaluation'',
     dm_key = ''contract_expiry:'' @ num (p_id p), dm_days = notification_dedup_days (cfg e), dm_record = None,
     dm_link = Some ''/hr/dashboard'', dm_user = Some k\<rparr>"

definition sla_demand :: "env \<Rightarrow> db \<Rightarrow> evaluation_record \<Rightarrow> int option \<Rightarrow> demand" where
  "sla_demand e d r v = \<lparr>dm_type = ''sla_reminder'',
     dm_text = lit ''case '' @ lit (er_code r) @ lit '' ('' @ subject_name d r @ lit '') has been waiting for you'',
     dm_key = ''sla:'' @ num (er_id r) @ '':'' @ status_value (er_status r), dm_days = sla_reminder_days (cfg e),
     dm_record = Some (er_id r), dm_link = Some (evaluation_link (er_id r)), dm_user = v\<rparr>"

definition orphan_demand :: "env \<Rightarrow> db \<Rightarrow> evaluation_record \<Rightarrow> int \<Rightarrow> demand" where
  "orphan_demand e d r k = \<lparr>dm_type = ''orphaned_case'',
     dm_text = lit ''case '' @ lit (er_code r) @ lit '' ('' @ subject_name d r @ lit '') is stuck: its owner is not active'',
     dm_key = ''orphaned:'' @ num (er_id r) @ '':'' @ status_value (er_status r), dm_days = notification_dedup_days (cfg e),
     dm_record = Some (er_id r), dm_link = Some (evaluation_link (er_id r)), dm_user = Some k\<rparr>"

definition review_demand :: "env \<Rightarrow> db \<Rightarrow> improvement_plan \<Rightarrow> int \<Rightarrow> demand" where
  "review_demand e d p k = \<lparr>dm_type = ''improvement_review_due'',
     dm_text = lit ''the review of plan '' @ ip_title p @ lit '' ('' @ personnel_name d (ip_personnel p) @ lit '') is '' @
       days_away e (ip_review_date p),
     dm_key = ''improvement_review:'' @ num (ip_id p) @ '':'' @ iso_date (ip_review_date p),
     dm_days = notification_dedup_days (cfg e), dm_record = None, dm_link = Some (plan_link p), dm_user = Some k\<rparr>"

text \<open>What the four jobs have to say, in their order.\<close>

definition contract_demands :: "env \<Rightarrow> db \<Rightarrow> demand list" where
  "contract_demands e d = concat (map (\<lambda>p. map (contract_demand e p) (active_hr d)) (expiring e d))"

definition sla_demands :: "env \<Rightarrow> db \<Rightarrow> demand list" where
  "sla_demands e d = concat (map (\<lambda>r. map (sla_demand e d r) (current_owner_ids d r)) (filter (stalled e) (records d)))"

definition orphan_demands :: "env \<Rightarrow> db \<Rightarrow> demand list" where
  "orphan_demands e d = concat (map (\<lambda>r. map (orphan_demand e d r) (active_hr d)) (filter (orphaned d) (records d)))"

definition review_demands :: "env \<Rightarrow> db \<Rightarrow> demand list" where
  "review_demands e d = concat (map (\<lambda>p. map (review_demand e d p) (set_order e (active_hr d @ opt_list (ip_owner p)))) (due_plans e d))"

lemma foldE_demands:
  "foldE (serve_demand e) (concat (map (\<lambda>x. map (g x) (ys x)) xs)) s = foldE (\<lambda>x. foldE (\<lambda>y. serve_demand e (g x y)) (ys x)) xs s"
  by (induction xs arbitrary: s) (simp_all add: foldE_append foldE_map bindE_def split: sum.split)

lemma sweeps_serve:
  "run_contract_expiry_sweep e s = foldE (serve_demand e) (contract_demands e (sw_db s)) s"
  "run_sla_sweep e s = foldE (serve_demand e) (sla_demands e (sw_db s)) s"
  "run_orphaned_case_sweep e s = foldE (serve_demand e) (orphan_demands e (sw_db s)) s"
  "run_improvement_review_sweep e s = foldE (serve_demand e) (review_demands e (sw_db s)) s"
  by (simp_all add: run_contract_expiry_sweep_def contract_demands_def run_sla_sweep_def sla_demands_def
      run_orphaned_case_sweep_def orphan_demands_def run_improvement_review_sweep_def review_demands_def
      foldE_demands contract_demand_def sla_demand_def orphan_demand_def review_demand_def)

text \<open>A demand is met when its user has a recent notice with its key.\<close>

definition said :: "env \<Rightarrow> db \<Rightarrow> demand \<Rightarrow> bool" where
  "said e d m \<longleftrightarrow> (\<exists>n\<in>set (notifications d). Some (nt_user n) = dm_user m \<and> nt_dedup n = Some (dm_key m) \<and>
     now e - days (dm_days m) \<le> nt_created_at n)"

definition grown :: "db \<Rightarrow> db \<Rightarrow> bool" where
  "grown d d' \<longleftrightarrow> notices_only d d' \<and> (\<exists>new. notifications d' = notifications d @ new)"

lemma grown_refl [intro, simp]: "grown d d"
  by (simp add: grown_def)

lemma grown_trans: "grown a b \<Longrightarrow> grown b c \<Longrightarrow> grown a c"
  unfolding grown_def by (metis append.assoc notices_only_trans)

lemma said_grown: "said e d m \<Longrightarrow> grown d d' \<Longrightarrow> said e d' m"
  by (auto simp: said_def grown_def)

lemma notify_once_grown: "grown d (snd (notify_once e k t m x w r l d))"
proof (cases "fst (notify_once e k t m x w r l d)")
  case True
  then show ?thesis using notify_once_row [OF True] by (auto simp: grown_def)
qed (simp add: notify_once_False)

lemma serve_demand_Inr:
  assumes run: "serve_demand e m s = Inr s'" and "0 \<le> dm_days m" and "dm_type m \<noteq> ''evaluation_finalized_self''"
  shows "said e (sw_db s') m \<and> grown (sw_db s) (sw_db s') \<and> (said e (sw_db s) m \<longrightarrow> s' = s)"
proof -
  obtain k where k: "dm_user m = Some k" using run by (cases "dm_user m") (simp_all add: serve_demand_def remind_def)
  let ?r = "notify_once e k (dm_type m) (dm_text m) (dm_key m) (dm_days m) (dm_record m) (dm_link m) (sw_db s)"
  have s': "s' = (if fst ?r then \<lparr>sw_made = sw_made s + 1, sw_written = length (deliveries (sw_db s)), sw_db = snd ?r\<rparr> else s)"
    using run by (simp add: serve_demand_def remind_def k Let_def)
  have new: "fst ?r \<longleftrightarrow> \<not> said e (sw_db s) m"
    using not_hidden [OF assms(3)] by (force simp: notify_once_fst said_def k not_less)
  have "days (dm_days m) \<ge> 0" using assms(2) by (simp add: days_def)
  then have "fst ?r \<Longrightarrow> said e (snd ?r) m" using notify_once_row [of e k] by (fastforce simp: said_def k)
  then show ?thesis using s' new notify_once_grown by auto
qed

definition sayable :: "demand \<Rightarrow> bool" where
  "sayable m \<longleftrightarrow> 0 \<le> dm_days m \<and> dm_type m \<noteq> ''evaluation_finalized_self''"

lemma serve_all:
  assumes "foldE (serve_demand e) ms s = Inr s'" and "\<forall>m\<in>set ms. sayable m"
  shows "grown (sw_db s) (sw_db s') \<and> (\<forall>m\<in>set ms. said e (sw_db s') m)"
  using assms
proof (induction ms arbitrary: s)
  case (Cons m ms)
  then obtain t where t: "serve_demand e m s = Inr t" "foldE (serve_demand e) ms t = Inr s'"
    by (auto simp: bindE_Inr_iff)
  have m: "sayable m" and ms: "\<forall>m\<in>set ms. sayable m" using Cons.prems(2) by simp_all
  have first: "said e (sw_db t) m" "grown (sw_db s) (sw_db t)"
    using serve_demand_Inr [OF t(1)] m unfolding sayable_def by blast+
  have rest: "grown (sw_db t) (sw_db s')" "\<forall>m\<in>set ms. said e (sw_db s') m" using Cons.IH [OF t(2) ms] by blast+
  show ?case using rest(2) said_grown [OF first(1) rest(1)] grown_trans [OF first(2) rest(1)] by simp
qed simp

lemma serve_said:
  assumes "\<forall>m\<in>set ms. sayable m \<and> said e (sw_db s) m"
  shows "foldE (serve_demand e) ms s = Inr s"
  using assms
proof (induction ms)
  case (Cons m ms)
  obtain k where "dm_user m = Some k" using Cons.prems by (cases "dm_user m") (auto simp: said_def)
  then obtain t where t: "serve_demand e m s = Inr t" by (simp add: serve_demand_def remind_def Let_def)
  then have "t = s" using serve_demand_Inr [OF t] Cons.prems by (auto simp: sayable_def)
  then show ?case using Cons t by simp
qed simp

lemma demands_sayable:
  assumes "0 \<le> notification_dedup_days (cfg e)" and "0 \<le> sla_reminder_days (cfg e)"
  shows "\<forall>m\<in>set (contract_demands e d) \<union> set (sla_demands e d) \<union> set (orphan_demands e d) \<union> set (review_demands e d). sayable m"
  using assms
  by (auto simp: contract_demands_def sla_demands_def orphan_demands_def review_demands_def contract_demand_def
      sla_demand_def orphan_demand_def review_demand_def sayable_def)

section \<open>What a run touches\<close>

definition jobs_frame :: "db \<Rightarrow> db \<Rightarrow> bool" where
  "jobs_frame d d' \<longleftrightarrow> d' = d\<lparr>notifications := notifications d', deliveries := deliveries d', documents := documents d',
     login_attempts := login_attempts d'\<rparr>"

lemma jobs_frame_refl [simp, intro]: "jobs_frame d d"
  by (simp add: jobs_frame_def)

lemma jobs_frame_trans: "jobs_frame a b \<Longrightarrow> jobs_frame b c \<Longrightarrow> jobs_frame a c"
  by (cases a; cases b; cases c) (simp add: jobs_frame_def)

lemma jobs_frame_grown: "grown d d' \<Longrightarrow> jobs_frame d d'"
  by (cases d; cases d') (simp add: jobs_frame_def grown_def notices_only_def)

lemma jobs_frame_tables:
  assumes "jobs_frame d d'"
  shows "records d' = records d" "users d' = users d" "personnels d' = personnels d" "plans d' = plans d"
    "goals d' = goals d" "accesses d' = accesses d" "scores d' = scores d" "audits d' = audits d"
    "schemes d' = schemes d" "periods d' = periods d" "frameworks d' = frameworks d" "indicators d' = indicators d"
    "assessments d' = assessments d" "capabilities d' = capabilities d" "sessions d' = sessions d"
    "scheduler_runs d' = scheduler_runs d"
  by (subst assms [unfolded jobs_frame_def], simp)+

lemma backfill_frame:
  "jobs_frame (sw_db s) (sw_db (backfill_one e r s)) \<and> notifications (sw_db (backfill_one e r s)) = notifications (sw_db s)"
  by (auto simp: backfill_one_def archive_final_pdf_def Let_def jobs_frame_def split: option.splits prod.splits)

lemma backfills_frame:
  "jobs_frame (sw_db s) (sw_db (fold (backfill_one e) rs s)) \<and>
   notifications (sw_db (fold (backfill_one e) rs s)) = notifications (sw_db s)"
proof (induction rs arbitrary: s)
  case (Cons r rs)
  then show ?case
    using backfill_frame [of s e r] jobs_frame_trans [of "sw_db s" "sw_db (backfill_one e r s)"] by auto
qed simp

lemma document_sweep_frame:
  "jobs_frame (sw_db s) (sw_db (run_document_backfill_sweep e b s)) \<and>
   notifications (sw_db (run_document_backfill_sweep e b s)) = notifications (sw_db s)"
  by (simp add: run_document_backfill_sweep_def backfills_frame)

lemma purge_frame: "jobs_frame d (snd (purge_stale e d)) \<and> notifications (snd (purge_stale e d)) = notifications d"
  by (simp add: purge_stale_def jobs_frame_def)

lemma sweep_one_frame:
  "jobs_frame (snd s) (snd (sweep_one e send v s)) \<and> notifications (snd (sweep_one e send v s)) = notifications (snd s)"
  by (auto simp: sweep_one_def upd_delivery_def jobs_frame_def split: option.split)

lemma sweep_fold_frame:
  "jobs_frame (snd s) (snd (fold (sweep_one e send) vs s)) \<and>
   notifications (snd (fold (sweep_one e send) vs s)) = notifications (snd s)"
proof (induction vs arbitrary: s)
  case (Cons v vs)
  then show ?case
    using sweep_one_frame [of s e send v] jobs_frame_trans [of "snd s" "snd (sweep_one e send v s)"] by auto
qed simp

lemma outbox_frame:
  "jobs_frame d (snd (sweep_outbox e send n d)) \<and> notifications (snd (sweep_outbox e send n d)) = notifications d"
proof -
  let ?d = "d\<lparr>deliveries := take n (deliveries d)\<rparr>"
  let ?r = "snd (run_delivery_sweep e send None ?d)"
  have r: "jobs_frame ?d ?r" "notifications ?r = notifications d"
    using sweep_fold_frame [of "(no_counts, ?d)" e send] by (simp_all add: run_delivery_sweep_def)
  let ?x = "deliveries ?r @ drop n (deliveries d)"
  have "jobs_frame d ?d" "jobs_frame ?r (?r\<lparr>deliveries := ?x\<rparr>)" by (simp_all add: jobs_frame_def)
  from jobs_frame_trans [OF jobs_frame_trans [OF this(1) r(1)] this(2)] show ?thesis
    using r(2) by (simp add: sweep_outbox_def Let_def)
qed

text \<open>The demands depend on the people, the accounts, the cases and the plans alone.\<close>

lemma demands_cong:
  assumes "jobs_frame d d'"
  shows "contract_demands e d' = contract_demands e d" "sla_demands e d' = sla_demands e d"
    "orphan_demands e d' = orphan_demands e d" "review_demands e d' = review_demands e d"
proof -
  note t = jobs_frame_tables [OF assms]
  have hr: "active_hr d' = active_hr d" by (simp add: active_hr_def active_user_ids_with_role_def t)
  have owners: "current_owner_ids d' = current_owner_ids d" by (simp only: current_owner_ids_def [abs_def] hr)
  have names: "subject_name d' = subject_name d" "personnel_name d' = personnel_name d"
    by (simp_all add: subject_name_def personnel_name_def get_personnel_def t fun_eq_iff)
  have orph: "orphaned d' = orphaned d" by (simp add: orphaned_def is_active_id_def owners t fun_eq_iff)
  show "contract_demands e d' = contract_demands e d" "sla_demands e d' = sla_demands e d"
    "orphan_demands e d' = orphan_demands e d" "review_demands e d' = review_demands e d"
    by (simp_all add: contract_demands_def expiring_def sla_demands_def orphan_demands_def review_demands_def due_plans_def
        sla_demand_def [abs_def] orphan_demand_def [abs_def] review_demand_def [abs_def] hr owners names orph t)
qed

definition all_demands :: "env \<Rightarrow> db \<Rightarrow> demand set" where
  "all_demands e d = set (contract_demands e d) \<union> set (sla_demands e d) \<union> set (orphan_demands e d) \<union> set (review_demands e d)"

definition patient :: "env \<Rightarrow> bool" where
  "patient e \<longleftrightarrow> 0 \<le> notification_dedup_days (cfg e) \<and> 0 \<le> sla_reminder_days (cfg e)"

lemma sayables:
  assumes "patient e"
  shows "\<forall>m\<in>set (contract_demands e d). sayable m" "\<forall>m\<in>set (sla_demands e d). sayable m"
    "\<forall>m\<in>set (orphan_demands e d). sayable m" "\<forall>m\<in>set (review_demands e d). sayable m"
  using demands_sayable [of e d] assms by (simp_all add: patient_def)

lemma run_all_Inr:
  assumes run: "run_all_sweeps e b send d = Inr (summary, d')" and "patient e"
  shows "jobs_frame d d' \<and> (\<exists>new. notifications d' = notifications d @ new) \<and> (\<forall>m\<in>all_demands e d. said e d' m)"
proof -
  let ?s0 = "\<lparr>sw_made = 0, sw_written = length (deliveries d), sw_db = d\<rparr>"
  obtain s1 s2 s3 s4 where s: "run_contract_expiry_sweep e ?s0 = Inr s1" "run_sla_sweep e (restart s1) = Inr s2"
      "run_orphaned_case_sweep e (restart s2) = Inr s3" "run_improvement_review_sweep e (restart s3) = Inr s4"
    and d': "d' = snd (sweep_outbox e send (sw_written (run_document_backfill_sweep e b (restart s4)))
      (snd (purge_stale e (sw_db (run_document_backfill_sweep e b (restart s4))))))"
    using run by (auto simp: run_all_sweeps_def bindE_Inr_iff Let_def)
  have db: "sw_db (restart s) = sw_db s" for s by (simp add: restart_def)
  have g1: "grown d (sw_db s1)" "\<forall>m\<in>set (contract_demands e d). said e (sw_db s1) m"
    using serve_all [OF s(1) [unfolded sweeps_serve]] sayables [OF assms(2)] by simp_all
  note c1 = demands_cong [OF jobs_frame_grown [OF g1(1)]]
  have g2: "grown (sw_db s1) (sw_db s2)" "\<forall>m\<in>set (sla_demands e d). said e (sw_db s2) m"
    using serve_all [OF s(2) [unfolded sweeps_serve]] sayables [OF assms(2)] c1 by (simp_all add: db)
  note c2 = demands_cong [OF jobs_frame_grown [OF grown_trans [OF g1(1) g2(1)]]]
  have g3: "grown (sw_db s2) (sw_db s3)" "\<forall>m\<in>set (orphan_demands e d). said e (sw_db s3) m"
    using serve_all [OF s(3) [unfolded sweeps_serve]] sayables [OF assms(2)] c2 by (simp_all add: db)
  note c3 = demands_cong [OF jobs_frame_grown [OF grown_trans [OF grown_trans [OF g1(1) g2(1)] g3(1)]]]
  have g4: "grown (sw_db s3) (sw_db s4)" "\<forall>m\<in>set (review_demands e d). said e (sw_db s4) m"
    using serve_all [OF s(4) [unfolded sweeps_serve]] sayables [OF assms(2)] c3 by (simp_all add: db)
  note h2 = grown_trans [OF g3(1) g4(1)]
  note h1 = grown_trans [OF g2(1) h2]
  note h = grown_trans [OF g1(1) h1]
  have "said e (sw_db s4) m" if "m \<in> set (contract_demands e d)" for m
    by (rule said_grown [OF bspec [OF g1(2) that] h1])
  moreover have "said e (sw_db s4) m" if "m \<in> set (sla_demands e d)" for m
    by (rule said_grown [OF bspec [OF g2(2) that] h2])
  moreover have "said e (sw_db s4) m" if "m \<in> set (orphan_demands e d)" for m
    by (rule said_grown [OF bspec [OF g3(2) that] g4(1)])
  ultimately have all: "\<forall>m\<in>all_demands e d. said e (sw_db s4) m" using g4(2) unfolding all_demands_def by blast
  let ?s5 = "run_document_backfill_sweep e b (restart s4)"
  note f5 = document_sweep_frame [of "restart s4" e b, unfolded db] and f6 = purge_frame [of "sw_db ?s5" e]
  have f7: "jobs_frame (snd (purge_stale e (sw_db ?s5))) d'" "notifications d' = notifications (snd (purge_stale e (sw_db ?s5)))"
    unfolding d' by (rule outbox_frame [THEN conjunct1], rule outbox_frame [THEN conjunct2])
  have "jobs_frame (sw_db s4) d'"
    by (rule jobs_frame_trans [OF jobs_frame_trans [OF f5 [THEN conjunct1] f6 [THEN conjunct1]] f7(1)])
  moreover have "notifications d' = notifications (sw_db s4)" using f5 f6 f7(2) by simp
  ultimately show ?thesis
    using jobs_frame_trans [OF jobs_frame_grown [OF h]] h all by (auto simp: said_def grown_def)
qed

lemma all_demands_parts:
  "set (contract_demands e d) \<subseteq> all_demands e d" "set (sla_demands e d) \<subseteq> all_demands e d"
  "set (orphan_demands e d) \<subseteq> all_demands e d" "set (review_demands e d) \<subseteq> all_demands e d"
  by (auto simp: all_demands_def)

text \<open>A run fails only for a demand without a user.\<close>

lemma serve_total:
  "\<forall>m\<in>set ms. dm_user m \<noteq> None \<Longrightarrow> \<exists>s'. foldE (serve_demand e) ms s = Inr s'"
proof (induction ms arbitrary: s)
  case (Cons m ms)
  then obtain t where "serve_demand e m s = Inr t" by (auto simp: serve_demand_def remind_def Let_def)
  then show ?case using Cons by simp
qed simp

lemma run_all_total:
  assumes p: "patient e" and users: "\<forall>m\<in>all_demands e d. dm_user m \<noteq> None"
  shows "\<exists>summary d'. run_all_sweeps e b send d = Inr (summary, d')"
proof -
  have db: "sw_db (restart s) = sw_db s" for s by (simp add: restart_def)
  have serve: "\<exists>s'. foldE (serve_demand e) ms s = Inr s'" if "set ms \<subseteq> all_demands e d" for ms s
    by (rule serve_total) (use users that in blast)
  obtain s1 where s1: "run_contract_expiry_sweep e \<lparr>sw_made = 0, sw_written = length (deliveries d), sw_db = d\<rparr> = Inr s1"
    using serve [OF all_demands_parts(1)] by (auto simp: sweeps_serve)
  have g1: "grown d (sw_db s1)" using serve_all [OF s1 [unfolded sweeps_serve]] sayables [OF p] by simp
  note c1 = demands_cong [OF jobs_frame_grown [OF g1]]
  obtain s2 where s2: "run_sla_sweep e (restart s1) = Inr s2"
    using serve [OF all_demands_parts(2)] by (auto simp: sweeps_serve db c1)
  have g2: "grown d (sw_db s2)"
    using serve_all [OF s2 [unfolded sweeps_serve]] sayables [OF p] grown_trans [OF g1] by (simp add: db)
  note c2 = demands_cong [OF jobs_frame_grown [OF g2]]
  obtain s3 where s3: "run_orphaned_case_sweep e (restart s2) = Inr s3"
    using serve [OF all_demands_parts(3)] by (auto simp: sweeps_serve db c2)
  have g3: "grown d (sw_db s3)"
    using serve_all [OF s3 [unfolded sweeps_serve]] sayables [OF p] grown_trans [OF g2] by (simp add: db)
  note c3 = demands_cong [OF jobs_frame_grown [OF g3]]
  obtain s4 where s4: "run_improvement_review_sweep e (restart s3) = Inr s4"
    using serve [OF all_demands_parts(4)] by (auto simp: sweeps_serve db c3)
  show ?thesis by (simp add: run_all_sweeps_def s1 s2 s3 s4 Let_def)
qed

text \<open>A run in which everything has been said makes no notice.\<close>

lemma run_all_said:
  assumes "patient e" and said: "\<forall>m\<in>all_demands e d. said e d m"
  shows "\<exists>summary d'. run_all_sweeps e b send d = Inr (summary, d') \<and> notifications d' = notifications d \<and>
    map snd (take 4 summary) = [0, 0, 0, 0]"
proof -
  have ok: "\<forall>m\<in>all_demands e d. sayable m"
    using sayables [OF assms(1)] unfolding all_demands_def by blast
  let ?s = "\<lparr>sw_made = 0, sw_written = length (deliveries d), sw_db = d\<rparr>"
  have serve: "foldE (serve_demand e) ms ?s = Inr ?s" if "set ms \<subseteq> all_demands e d" for ms
    by (rule serve_said) (use that said ok in auto)
  have again: "restart ?s = ?s" by (simp add: restart_def)
  have s: "run_contract_expiry_sweep e ?s = Inr ?s" "run_sla_sweep e ?s = Inr ?s"
      "run_orphaned_case_sweep e ?s = Inr ?s" "run_improvement_review_sweep e ?s = Inr ?s"
    by (simp_all add: sweeps_serve serve [OF all_demands_parts(1)] serve [OF all_demands_parts(2)]
        serve [OF all_demands_parts(3)] serve [OF all_demands_parts(4)])
  let ?s5 = "run_document_backfill_sweep e b ?s"
  have "notifications (snd (sweep_outbox e send (sw_written ?s5) (snd (purge_stale e (sw_db ?s5))))) = notifications d"
    using document_sweep_frame [of ?s e b] purge_frame [of "sw_db ?s5" e] outbox_frame by simp
  then show ?thesis by (simp add: run_all_sweeps_def s again Let_def)
qed

lemma sla_demand_in:
  "r \<in> set (records d) \<Longrightarrow> stalled e r \<Longrightarrow> v \<in> set (current_owner_ids d r) \<Longrightarrow> sla_demand e d r v \<in> all_demands e d"
  by (auto simp: all_demands_def sla_demands_def)

lemma ownerless_run_fails:
  assumes "patient e" and "r \<in> set (records d)" and "stalled e r" and "None \<in> set (current_owner_ids d r)"
  shows "\<exists>x. run_all_sweeps e b send d = Inl x"
proof (cases "run_contract_expiry_sweep e \<lparr>sw_made = 0, sw_written = length (deliveries d), sw_db = d\<rparr>")
  case (Inr s1)
  have "grown d (sw_db s1)" using serve_all [OF Inr [unfolded sweeps_serve]] sayables [OF assms(1)] by simp
  then have "sla_demands e (sw_db s1) = sla_demands e d" using demands_cong jobs_frame_grown by blast
  moreover have "sla_demand e d r None \<in> set (sla_demands e d)"
    using assms(2-4) by (auto simp: sla_demands_def)
  moreover have "\<exists>x. serve_demand e (sla_demand e d r None) s = Inl x" for s
    by (simp add: sla_demand_def remind_def)
  ultimately obtain x where "run_sla_sweep e (restart s1) = Inl x"
    using foldE_fails [of "sla_demand e d r None" "sla_demands e d" "serve_demand e" "restart s1"]
    by (auto simp: sweeps_serve restart_def)
  then show ?thesis using Inr by (simp add: run_all_sweeps_def)
qed (simp add: run_all_sweeps_def)

end
