(* ===== verification/JobProperties.thy ===== *)
theory JobProperties
  imports Scheduled Samples
begin

text \<open>The properties of the periodic jobs: what a run says, what it leaves alone and how it fails.\<close>

lemma demo_env_patient: "patient demo_env"
  by (simp add: patient_def demo_env_def default_settings_def)

text \<open>A sample: the case waits in the stage of human resources for five days.\<close>

lemma demo_stalled: "is_open (demo_case s) \<Longrightarrow> stalled demo_env (demo_case s)"
  by (simp add: stalled_def demo_case_def demo_env_def default_settings_def days_def)

lemma demo_expiring: "expiring demo_env (demo_at s) = []"
  by (simp add: expiring_def demo_at_def demo_db_def demo_person_def demo_env_def default_settings_def)

lemma demo_hr_ids: "active_hr (demo_at s) = [1]"
  by (simp add: active_hr_def active_user_ids_with_role_def demo_at_def demo_db_def demo_user_def)

lemma demo_submitted_demands:
  "all_demands demo_env (demo_at submitted) = {sla_demand demo_env (demo_at submitted) (demo_case submitted) (Some 1)}"
proof -
  have "stalled demo_env (demo_case submitted)" by (rule demo_stalled) (simp add: is_open_iff)
  moreover have "plans (demo_at submitted) = []" by (simp add: demo_at_def demo_db_def empty_db_def)
  ultimately show ?thesis
    by (simp add: all_demands_def contract_demands_def demo_expiring sla_demands_def current_owner_ids_def demo_hr_ids
        orphan_demands_def orphaned_def review_demands_def due_plans_def)
qed

text \<open>A second run says nothing new: a run of the periodic jobs that follows another one at once makes no
  reminder of any of the four kinds, and succeeds.\<close>

theorem second_run_reminds_nobody:
  assumes "patient e" and "run_all_sweeps e renders send d = Inr (summary, d')"
  shows "\<exists>summary2 d2. run_all_sweeps e renders send d' = Inr (summary2, d2) \<and> notifications d2 = notifications d' \<and>
    map snd (take 4 summary2) = [0, 0, 0, 0]"
proof -
  note run = run_all_Inr [OF assms(2,1)]
  have "all_demands e d' = all_demands e d"
    using demands_cong [OF conjunct1 [OF run]] by (simp add: all_demands_def)
  then show ?thesis using run_all_said [OF assms(1)] run by simp
qed

theorem second_run_reminds_nobody_witness:
  "\<exists>summary d' summary2 d2. run_all_sweeps demo_env False (\<lambda>_ _. SendOk) (demo_at submitted) = Inr (summary, d') \<and>
     run_all_sweeps demo_env False (\<lambda>_ _. SendOk) d' = Inr (summary2, d2) \<and> notifications d2 = notifications d'"
proof -
  have "\<forall>m\<in>all_demands demo_env (demo_at submitted). dm_user m \<noteq> None"
    by (simp add: demo_submitted_demands sla_demand_def)
  then obtain summary d' where run: "run_all_sweeps demo_env False (\<lambda>_ _. SendOk) (demo_at submitted) = Inr (summary, d')"
    using run_all_total [OF demo_env_patient] by blast
  then show ?thesis using second_run_reminds_nobody [OF demo_env_patient run] by blast
qed

text \<open>C28. Nobody is forgotten: after a run, everybody who has to act on a case that has been waiting too long has
  a notice about this stage of this case that is no older than the waiting time.\<close>

theorem stalled_owners_are_reminded:
  assumes "patient e" and "run_all_sweeps e renders send d = Inr (summary, d')"
    and "r \<in> set (records d)" and "stalled e r" and "Some k \<in> set (current_owner_ids d r)"
  shows "\<exists>n\<in>set (notifications d'). nt_user n = k \<and>
    nt_dedup n = Some (''sla:'' @ num (er_id r) @ '':'' @ status_value (er_status r)) \<and>
    now e - days (sla_reminder_days (cfg e)) \<le> nt_created_at n"
proof -
  have "said e d' (sla_demand e d r (Some k))"
    using run_all_Inr [OF assms(2,1)] sla_demand_in [OF assms(3-5)] by blast
  then show ?thesis by (auto simp: said_def sla_demand_def)
qed

theorem stalled_owners_are_reminded_witness:
  "\<exists>summary d'. run_all_sweeps demo_env False (\<lambda>_ _. SendOk) (demo_at submitted) = Inr (summary, d') \<and>
     (\<exists>n\<in>set (notifications d'). nt_user n = 1)"
proof -
  have "\<forall>m\<in>all_demands demo_env (demo_at submitted). dm_user m \<noteq> None"
    by (simp add: demo_submitted_demands sla_demand_def)
  then obtain summary d' where run: "run_all_sweeps demo_env False (\<lambda>_ _. SendOk) (demo_at submitted) = Inr (summary, d')"
    using run_all_total [OF demo_env_patient] by blast
  have "stalled demo_env (demo_case submitted)" by (rule demo_stalled) (simp add: is_open_iff)
  then show ?thesis
    using stalled_owners_are_reminded [OF demo_env_patient run, of "demo_case submitted" 1] run
    by (auto simp: current_owner_ids_def demo_hr_ids)
qed

text \<open>C27. One case is enough to stop all jobs: if a case whose chain has no deputy waits too long for the chief
  executive after the approval of human resources, the run takes the missing deputy for its owner and
  fails; nothing is reminded, archived or sent, for anybody, and the only trace is the failed run. The
  next run fails again.\<close>

theorem missing_deputy_stops_all_jobs:
  assumes "patient e" and "r \<in> set (records d)" and "stalled e r" and "er_status r = hr_approved" and "er_deputy r = None"
  shows "\<exists>x h. run_sweeps_once e False describe (run_all_sweeps e renders send) trigger d = (Inl x, add_run h d) \<and>
    sr_status h = ''failed'' \<and> (\<exists>y. run_all_sweeps e renders send (add_run h d) = Inl y)"
proof -
  have none: "None \<in> set (current_owner_ids d r)" for d using assms(4,5) by (simp add: current_owner_ids_def)
  obtain x where x: "run_all_sweeps e renders send d = Inl x" using ownerless_run_fails [OF assms(1-3) none] by blast
  have "r \<in> set (records (add_run h d))" for h using assms(2) by (simp add: add_run_def)
  then have "\<exists>y. run_all_sweeps e renders send (add_run h d) = Inl y" for h
    by (rule ownerless_run_fails [OF assms(1) _ assms(3) none])
  moreover have "run_sweeps_once e False describe (run_all_sweeps e renders send) trigger d =
      (Inl x, add_run (history_row e ''failed'' trigger None (Some (take 2000 (describe x))) d) d)"
    by (simp add: run_sweeps_once_def x)
  moreover have "sr_status (history_row e ''failed'' trigger None (Some (take 2000 (describe x))) d) = ''failed''"
    by (simp add: history_row_def)
  ultimately show ?thesis by blast
qed

definition no_deputy_db :: db where
  "no_deputy_db = (demo_at hr_approved)\<lparr>records := [(demo_case hr_approved)\<lparr>er_deputy := None\<rparr>]\<rparr>"

theorem missing_deputy_stops_all_jobs_witness:
  "\<exists>x h. run_sweeps_once demo_env False (\<lambda>_. ''error'') (run_all_sweeps demo_env True (\<lambda>_ _. SendOk)) ''scheduler'' no_deputy_db
     = (Inl x, add_run h no_deputy_db)"
proof -
  let ?r = "(demo_case hr_approved)\<lparr>er_deputy := None\<rparr>"
  have "stalled demo_env (demo_case hr_approved)" by (rule demo_stalled) (simp add: is_open_iff)
  then have "stalled demo_env ?r" by (simp add: stalled_def is_open_def)
  moreover have "?r \<in> set (records no_deputy_db)" by (simp add: no_deputy_db_def)
  ultimately show ?thesis
    using missing_deputy_stops_all_jobs [OF demo_env_patient, of ?r no_deputy_db] by fastforce
qed

text \<open>A run is all or nothing: whatever happens, the history grows by one row; a run that fails or finds the
  lock taken changes nothing else, and one that succeeds leaves every case, score, account, chain, file,
  plan and audit row as it was and takes no notice away.\<close>

theorem run_is_all_or_nothing:
  assumes "patient e" and "run_sweeps_once e elsewhere describe (run_all_sweeps e renders send) trigger d = (out, d')"
  shows "(\<exists>h. scheduler_runs d' = scheduler_runs d @ [h] \<and> sr_trigger h = trigger \<and>
      (sr_status h \<noteq> ''succeeded'' \<longrightarrow> d' = add_run h d)) \<and>
    records d' = records d \<and> scores d' = scores d \<and> users d' = users d \<and> accesses d' = accesses d \<and>
    personnels d' = personnels d \<and> plans d' = plans d \<and> audits d' = audits d \<and>
    (\<exists>new. notifications d' = notifications d @ new)"
proof (cases "\<not> elsewhere \<and> (\<exists>s. run_all_sweeps e renders send d = Inr s)")
  case True
  then obtain summary d1 where run: "run_all_sweeps e renders send d = Inr (summary, d1)" by auto
  let ?h = "history_row e ''succeeded'' trigger (Some summary) None d1"
  have d': "d' = add_run ?h d1" using assms(2) True run by (simp add: run_sweeps_once_def Let_def)
  note f = run_all_Inr [OF run assms(1)]
  note t = jobs_frame_tables [OF conjunct1 [OF f]]
  have "sr_trigger ?h = trigger" "sr_status ?h = ''succeeded''" by (simp_all add: history_row_def)
  then show ?thesis using f t by (simp add: d' add_run_def)
next
  case False
  then obtain h where "d' = add_run h d" "sr_trigger h = trigger"
    using assms(2) by (auto simp: run_sweeps_once_def Let_def history_row_def split: if_splits sum.splits)
  then show ?thesis by (simp add: add_run_def)
qed

theorem run_is_all_or_nothing_witness:
  "records (snd (run_sweeps_once demo_env False (\<lambda>_. ''error'') (run_all_sweeps demo_env True (\<lambda>_ _. SendOk)) ''manual'' no_deputy_db))
     = records no_deputy_db"
proof -
  obtain out d' where run: "run_sweeps_once demo_env False (\<lambda>_. ''error'') (run_all_sweeps demo_env True (\<lambda>_ _. SendOk)) ''manual'' no_deputy_db
     = (out, d')" by fastforce
  show ?thesis using run_is_all_or_nothing [OF demo_env_patient run] run by simp
qed

end
