(* ===== verification/Inbox.thy ===== *)
theory Inbox
  imports Documents Frameworks
begin

text \<open>
  What a user does with the own notices (\<open>routers/notifications.py\<close>) and what the audit log shows to whom
  (\<open>routers/audit_log.py\<close>). The lemmas show that a user reads and marks only own notices, and that the view
  of the log for technical support does not depend on any case.
\<close>

section \<open>Own notices\<close>

definition own_notices :: "db \<Rightarrow> current_user \<Rightarrow> notification list" where
  "own_notices d u = filter (\<lambda>n. nt_user n = cu_id u) (notifications d)"

record notice_page =
  np_total :: nat
  np_unread :: nat
  np_items :: "notification list"

definition list_notifications :: "db \<Rightarrow> current_user \<Rightarrow> bool \<Rightarrow> nat \<Rightarrow> nat \<Rightarrow> notice_page result" where
  "list_notifications d u unread_only limit offset =
     bindE (require (1 \<le> limit \<and> limit \<le> 100) (HTTPException 422 ''invalid page'')) (\<lambda>_.
       let base = filter (\<lambda>n. unread_only \<longrightarrow> nt_read_at n = None) (own_notices d u)
       in Inr \<lparr>np_total = length base, np_unread = length (filter (\<lambda>n. nt_read_at n = None) (own_notices d u)),
            np_items = take limit (drop offset (rev (sort_key nt_created_at base)))\<rparr>)"

definition get_notice :: "db \<Rightarrow> int \<Rightarrow> notification option" where
  "get_notice d = tbl_get nt_id (notifications d)"

definition upd_notice :: "int \<Rightarrow> (notification \<Rightarrow> notification) \<Rightarrow> db \<Rightarrow> db" where
  "upd_notice k f d = d\<lparr>notifications := tbl_upd nt_id k f (notifications d)\<rparr>"

interpretation notice_st: row_store get_notice upd_notice nt_id
  by unfold_locales (auto simp: get_notice_def upd_notice_def tbl_get_upd dest: tbl_get_Some_set)

definition mark_read :: "env \<Rightarrow> current_user \<Rightarrow> int \<Rightarrow> db \<Rightarrow> db result" where
  "mark_read e u k d = (case get_notice d k of
     None \<Rightarrow> Inl (HTTPException 404 ''notice not found'')
   | Some n \<Rightarrow>
      if nt_user n \<noteq> cu_id u then Inl (HTTPException 404 ''notice not found'')
      else Inr (if nt_read_at n = None then upd_notice k (\<lambda>n. n\<lparr>nt_read_at := Some (now e)\<rparr>) d else d))"

definition mark_all_read :: "env \<Rightarrow> current_user \<Rightarrow> db \<Rightarrow> db" where
  "mark_all_read e u d = d\<lparr>notifications := map (\<lambda>n. if nt_user n = cu_id u \<and> nt_read_at n = None
     then n\<lparr>nt_read_at := Some (now e)\<rparr> else n) (notifications d)\<rparr>"

section \<open>Preferences\<close>

record preferences =
  pr_email :: "string option"
  pr_phone :: "string option"
  pr_by_email :: bool
  pr_by_sms :: bool

definition get_preferences :: "env \<Rightarrow> db \<Rightarrow> current_user \<Rightarrow> (preferences \<times> bool \<times> bool) result" where
  "get_preferences e d u = (case get_user d (cu_id u) of
     None \<Rightarrow> Inl (Uncaught AttributeError)
   | Some x \<Rightarrow> Inr (\<lparr>pr_email = u_email x, pr_phone = u_phone x, pr_by_email = u_notify_by_email x,
       pr_by_sms = u_notify_by_sms x\<rparr>, email \<in> set (channels_on e), sms \<in> set (channels_on e)))"

text \<open>\<open>str_strip_whitespace\<close>, and an empty text is none.\<close>

definition given_contact :: "string option \<Rightarrow> string option" where
  "given_contact v = (case v of None \<Rightarrow> None
   | Some s \<Rightarrow> if strip (lit s) = [] then None else Some (map char_of (strip (lit s))))"

definition preferences_ok :: "preferences \<Rightarrow> bool" where
  "preferences_ok q \<longleftrightarrow> (case pr_email q of None \<Rightarrow> True | Some s \<Rightarrow> length (strip (lit s)) \<le> 320) \<and>
     (case pr_phone q of None \<Rightarrow> True | Some s \<Rightarrow> length (strip (lit s)) \<le> 32)"

definition update_preferences :: "current_user \<Rightarrow> preferences \<Rightarrow> db \<Rightarrow> db result" where
  "update_preferences u q d =
     bindE (require (preferences_ok q) (HTTPException 422 ''invalid preferences'')) (\<lambda>_.
     case get_user d (cu_id u) of
       None \<Rightarrow> Inl (Uncaught AttributeError)
     | Some x \<Rightarrow>
        if pr_by_email q \<and> given_contact (pr_email q) = None then Inl (HTTPException 400 ''an address first'')
        else if pr_by_sms q \<and> given_contact (pr_phone q) = None then Inl (HTTPException 400 ''a number first'')
        else Inr (upd_user (cu_id u) (\<lambda>x. x\<lparr>u_email := given_contact (pr_email q), u_phone := given_contact (pr_phone q),
            u_notify_by_email := pr_by_email q, u_notify_by_sms := pr_by_sms q\<rparr>) d))"

section \<open>The audit log on the screen\<close>

definition SYSTEM_EVENT_TYPES :: "string list" where
  "SYSTEM_EVENT_TYPES =
    [''login_succeeded'', ''login_failed'', ''account_locked'', ''password_changed_self'', ''password_reset_by_hr'',
     ''session_revoked'', ''sessions_revoked_all'', ''user_created'', ''user_updated'', ''capabilities_changed'',
     ''module_toggled'', ''scheduled_jobs_run'', ''scoring_scheme_drafted'', ''scoring_scheme_activated'',
     ''scoring_scheme_draft_deleted'', ''indicator_created'', ''indicator_updated'', ''indicator_deleted'',
     ''indicators_reordered'']"

record audit_filter =
  xf_event :: "string option"
  xf_record :: "int option"
  xf_from :: "date option"
  xf_to :: "date option"
  xf_actor :: "int option"
  xf_personnel :: "int option"
  xf_org_unit :: "ustr option"
  xf_end_from :: "date option"
  xf_end_to :: "date option"

definition opt_holds :: "('a \<Rightarrow> bool) \<Rightarrow> 'a option \<Rightarrow> bool" where
  "opt_holds P v \<longleftrightarrow> (case v of None \<Rightarrow> True | Some x \<Rightarrow> P x)"

text \<open>The subquery over the cases, and the one joined with their people.\<close>

definition about_case :: "db \<Rightarrow> (evaluation_record \<Rightarrow> bool) \<Rightarrow> audit_log \<Rightarrow> bool" where
  "about_case d P x \<longleftrightarrow> (\<exists>r\<in>set (records d). al_record x = Some (er_id r) \<and> P r)"

definition about_person :: "db \<Rightarrow> (personnel \<Rightarrow> bool) \<Rightarrow> audit_log \<Rightarrow> bool" where
  "about_person d P = about_case d (\<lambda>r. \<exists>p\<in>set (personnels d). p_id p = er_subject r \<and> P p)"

text \<open>\<open>midnight n\<close> is the moment at which the database lets day \<open>n\<close> begin.\<close>

definition passes_audit :: "(date \<Rightarrow> moment) \<Rightarrow> db \<Rightarrow> audit_filter \<Rightarrow> audit_log \<Rightarrow> bool" where
  "passes_audit midnight d f x \<longleftrightarrow>
     opt_holds (\<lambda>t. al_event x = t) (xf_event f) \<and>
     opt_holds (\<lambda>k. al_record x = Some k) (xf_record f) \<and>
     opt_holds (\<lambda>n. midnight n \<le> al_created_at x) (xf_from f) \<and>
     opt_holds (\<lambda>n. al_created_at x < midnight (n + 1)) (xf_to f) \<and>
     opt_holds (\<lambda>k. al_actor x = k) (xf_actor f) \<and>
     opt_holds (\<lambda>k. about_case d (\<lambda>r. er_subject r = k) x) (xf_personnel f) \<and>
     opt_holds (\<lambda>s. s = [] \<or> about_person d (\<lambda>p. p_org_unit p = s) x) (xf_org_unit f) \<and>
     (xf_end_from f = None \<and> xf_end_to f = None \<or>
      about_person d (\<lambda>p. opt_holds (\<lambda>n. n \<le> p_contract_end p) (xf_end_from f) \<and>
        opt_holds (\<lambda>n. p_contract_end p \<le> n) (xf_end_to f)) x)"

record audit_view =
  vl_row :: audit_log
  vl_username :: "string option"
  vl_name :: "ustr option"
  vl_code :: "string option"

definition actor_name :: "db \<Rightarrow> user \<Rightarrow> ustr" where
  "actor_name d x =
     (let name = (case map_option p_full_name (Option.bind (u_personnel_id x) (get_personnel d)) of
            Some s \<Rightarrow> Some s | None \<Rightarrow> u_full_name x)
      in case name of Some (c # cs) \<Rightarrow> c # cs | _ \<Rightarrow> lit (u_username x))"

definition audit_view_of :: "db \<Rightarrow> audit_log \<Rightarrow> audit_view" where
  "audit_view_of d x = \<lparr>vl_row = x, vl_username = map_option u_username (get_user d (al_actor x)),
     vl_name = map_option (actor_name d) (get_user d (al_actor x)),
     vl_code = (case al_record x of None \<Rightarrow> None | Some k \<Rightarrow> map_option er_code (get_record d k))\<rparr>"

definition query_rows :: "db \<Rightarrow> (audit_log \<Rightarrow> bool) \<Rightarrow> nat \<Rightarrow> nat \<Rightarrow> audit_view list" where
  "query_rows d P limit offset =
     map (audit_view_of d) (take limit (drop offset (rev (sort_key al_created_at (filter P (audits d))))))"

definition system_row :: "audit_log \<Rightarrow> bool" where
  "system_row x \<longleftrightarrow> al_event x \<in> set SYSTEM_EVENT_TYPES \<and> al_record x = None"

definition list_audit_log ::
  "(date \<Rightarrow> moment) \<Rightarrow> db \<Rightarrow> current_user \<Rightarrow> audit_filter \<Rightarrow> nat \<Rightarrow> nat \<Rightarrow> (nat \<times> audit_view list) result" where
  "list_audit_log midnight d u f limit offset =
     bindE (audit_log_reader u d) (\<lambda>_.
     bindE (require (1 \<le> limit \<and> limit \<le> 200) (HTTPException 422 ''invalid page'')) (\<lambda>_.
       let P = (\<lambda>x. passes_audit midnight d f x \<and> (view_audit_log \<notin> capabilities_of d (cu_id u) \<longrightarrow> system_row x))
       in Inr (length (filter P (audits d)), query_rows d P limit offset)))"

definition audit_integrity :: "env \<Rightarrow> db \<Rightarrow> current_user \<Rightarrow> chain_report result" where
  "audit_integrity e d u = bindE (require_capability [view_audit_log] u d) (\<lambda>_. Inr (verify_chain e None d))"

text \<open>The rows of the workbook; the download writes nothing.\<close>

definition export_audit_log :: "(date \<Rightarrow> moment) \<Rightarrow> db \<Rightarrow> current_user \<Rightarrow> audit_filter \<Rightarrow> audit_view list result" where
  "export_audit_log midnight d u f =
     bindE (require_capability [view_audit_log] u d) (\<lambda>_. Inr (query_rows d (passes_audit midnight d f) 5000 0))"

section \<open>The inbox is private\<close>

datatype inbox_request = MarkRead int | MarkAllRead | SetPreferences preferences

fun inbox_step :: "env \<times> current_user \<times> inbox_request \<Rightarrow> db \<Rightarrow> db" where
  "inbox_step (e, u, MarkRead k) d = (case mark_read e u k d of Inl _ \<Rightarrow> d | Inr d' \<Rightarrow> d')"
| "inbox_step (e, u, MarkAllRead) d = mark_all_read e u d"
| "inbox_step (e, u, SetPreferences q) d = (case update_preferences u q d of Inl _ \<Rightarrow> d | Inr d' \<Rightarrow> d')"

text \<open>What may happen to a notice: it is read once, and the time of the first reading stays.\<close>

definition read_more :: "notification \<Rightarrow> notification \<Rightarrow> bool" where
  "read_more n m \<longleftrightarrow> m = n \<or> nt_read_at n = None \<and> nt_read_at m \<noteq> None \<and> m\<lparr>nt_read_at := None\<rparr> = n"

lemma read_more_trans: "read_more a b \<Longrightarrow> read_more b c \<Longrightarrow> read_more a c"
  by (auto simp: read_more_def)

definition without_contact :: "user \<Rightarrow> user" where
  "without_contact x = x\<lparr>u_email := None, u_phone := None, u_notify_by_email := False, u_notify_by_sms := False\<rparr>"

text \<open>The notices and the accounts of the others stay as they are; of the own ones only the marks and the contact change.\<close>

definition private_change :: "int set \<Rightarrow> db \<Rightarrow> db \<Rightarrow> bool" where
  "private_change ks d d' \<longleftrightarrow> d' = d\<lparr>notifications := notifications d', users := users d'\<rparr> \<and>
     list_all2 (\<lambda>n m. read_more n m \<and> (nt_user n \<notin> ks \<longrightarrow> m = n)) (notifications d) (notifications d') \<and>
     list_all2 (\<lambda>x y. without_contact y = without_contact x \<and> (u_id x \<notin> ks \<longrightarrow> y = x)) (users d) (users d')"

lemma private_change_refl: "private_change ks d d"
  by (simp add: private_change_def list_all2_refl read_more_def)

lemma private_change_trans:
  assumes ab: "private_change ks a b" and bc: "private_change ks b c"
  shows "private_change ks a c"
proof -
  have "c = a\<lparr>notifications := notifications c, users := users c\<rparr>"
    using assms by (cases a; cases b; cases c) (simp add: private_change_def)
  moreover have "list_all2 (\<lambda>n m. read_more n m \<and> (nt_user n \<notin> ks \<longrightarrow> m = n)) (notifications a) (notifications c)"
    by (rule list_all2_trans [OF _ conjunct1 [OF conjunct2 [OF ab [unfolded private_change_def]]]
          conjunct1 [OF conjunct2 [OF bc [unfolded private_change_def]]]])
      (auto intro: read_more_trans)
  moreover have "list_all2 (\<lambda>x y. without_contact y = without_contact x \<and> (u_id x \<notin> ks \<longrightarrow> y = x)) (users a) (users c)"
    by (rule list_all2_trans [OF _ conjunct2 [OF conjunct2 [OF ab [unfolded private_change_def]]]
          conjunct2 [OF conjunct2 [OF bc [unfolded private_change_def]]]]) auto
  ultimately show ?thesis by (simp add: private_change_def)
qed

lemma list_all2_map_self: "list_all2 P xs (map f xs) \<longleftrightarrow> (\<forall>x\<in>set xs. P x (f x))"
  by (induction xs) auto

lemma mark_read_private:
  assumes "cu_id u \<in> ks" and "tbl_ok nt_id (notifications d)" and "mark_read e u k d = Inr d'"
  shows "private_change ks d d'"
proof -
  obtain n where n: "get_notice d k = Some n" "nt_user n = cu_id u"
    and d': "d' = (if nt_read_at n = None then upd_notice k (\<lambda>n. n\<lparr>nt_read_at := Some (now e)\<rparr>) d else d)"
    using assms(3) by (auto simp: mark_read_def split: option.splits if_splits)
  have one: "m = n" if "m \<in> set (notifications d)" "nt_id m = k" for m
    using that n(1) assms(2) tbl_get_in [of nt_id "notifications d" m] by (simp add: get_notice_def)
  show ?thesis
  proof (cases "nt_read_at n")
    case None
    then have "d' = upd_notice k (\<lambda>n. n\<lparr>nt_read_at := Some (now e)\<rparr>) d" by (simp add: d')
    moreover have "read_more n (n\<lparr>nt_read_at := Some (now e)\<rparr>)" using None by (simp add: read_more_def)
    ultimately show ?thesis
      using one n(2) assms(1)
      by (auto simp: private_change_def upd_notice_def tbl_upd_def list_all2_map_self list_all2_refl read_more_def)
  qed (simp add: d' private_change_refl)
qed

lemma mark_all_read_private: "cu_id u \<in> ks \<Longrightarrow> private_change ks d (mark_all_read e u d)"
  by (auto simp: private_change_def mark_all_read_def list_all2_map_self list_all2_refl read_more_def)

lemma update_preferences_private:
  assumes "cu_id u \<in> ks" and "update_preferences u q d = Inr d'"
  shows "private_change ks d d'"
  using assms
  by (auto simp: private_change_def update_preferences_def bindE_Inr_iff upd_user_def tbl_upd_def list_all2_map_self
      list_all2_refl read_more_def without_contact_def split: option.splits if_splits)

lemma inbox_step_private:
  assumes "cu_id (fst (snd c)) \<in> ks" and "tbl_ok nt_id (notifications d)"
  shows "private_change ks d (inbox_step c d)"
proof -
  obtain e u q where c: "c = (e, u, q)" by (cases c)
  then show ?thesis
    using assms mark_read_private [OF _ assms(2), of u ks e] mark_all_read_private [of u ks d e]
      update_preferences_private [of u ks _ d] private_change_refl
    by (cases q) (auto split: sum.split)
qed

lemma private_change_ids: "private_change ks d d' \<Longrightarrow> map nt_id (notifications d') = map nt_id (notifications d)"
proof -
  have same: "read_more n m \<Longrightarrow> nt_id m = nt_id n" for n m by (cases n; cases m) (auto simp: read_more_def)
  have ids: "map nt_id ys = map nt_id xs" if "list_all2 (\<lambda>n m. read_more n m \<and> P n m) xs ys" for P xs ys
    using that by (induction rule: list_all2_induct) (auto dest: same)
  assume "private_change ks d d'"
  then have "list_all2 (\<lambda>n m. read_more n m \<and> (nt_user n \<notin> ks \<longrightarrow> m = n)) (notifications d) (notifications d')"
    by (simp add: private_change_def)
  then show "map nt_id (notifications d') = map nt_id (notifications d)" by (rule ids)
qed

lemma inbox_run_private:
  "(\<forall>c\<in>set cs. cu_id (fst (snd c)) \<in> ks) \<Longrightarrow> tbl_ok nt_id (notifications d) \<Longrightarrow> private_change ks d (fold inbox_step cs d)"
proof (induction cs arbitrary: d)
  case (Cons c cs)
  have first: "private_change ks d (inbox_step c d)" by (rule inbox_step_private) (use Cons.prems in simp_all)
  have "tbl_ok nt_id (notifications (inbox_step c d))"
    using private_change_ids [OF first] Cons.prems(2) by (simp add: tbl_ok_def)
  then show ?case using Cons.IH [of "inbox_step c d"] private_change_trans [OF first] Cons.prems(1) by simp
qed (simp add: private_change_refl)

section \<open>Support sees no case\<close>

text \<open>The filters on cases never match a row without a case, so that the rows of the system are the same with and
  without cases.\<close>

definition without_cases :: "db \<Rightarrow> db" where
  "without_cases d = d\<lparr>records := [], scores := [], comments := [], assessments := [], assessment_scores := [],
     documents := [], plans := [], goals := [], audits := filter system_row (audits d)\<rparr>"

lemma about_case_system: "system_row x \<Longrightarrow> \<not> about_case d P x"
  by (simp add: about_case_def system_row_def)

lemma passes_audit_system:
  "system_row x \<Longrightarrow> passes_audit midnight (without_cases d) f x = passes_audit midnight d f x"
  by (simp add: passes_audit_def about_person_def about_case_system)

lemma audit_view_system: "system_row x \<Longrightarrow> audit_view_of (without_cases d) x = audit_view_of d x"
proof -
  assume x: "system_row x"
  have "actor_name (without_cases d) y = actor_name d y" for y
    by (simp add: actor_name_def get_personnel_def [abs_def] without_cases_def)
  then show ?thesis
    using x by (simp add: audit_view_of_def system_row_def get_user_def without_cases_def cong: option.map_cong)
qed

end
