(* ===== verification/InboxProperties.thy ===== *)
theory InboxProperties
  imports Inbox Samples
begin

text \<open>The properties of the inbox and of the audit log on the screen.\<close>

text \<open>The inbox is private: whatever a group of users does with notices and preferences, in any order, the
  notices and the accounts of everybody else stay as they are; of the own notices only the mark of
  the first reading is set and never changed again, of the own account only the contact, and nothing
  else in the database changes.\<close>

theorem inbox_is_private:
  assumes "tbl_ok nt_id (notifications d)" and "\<forall>c\<in>set cs. cu_id (fst (snd c)) \<in> ks"
  shows "private_change ks d (fold inbox_step cs d)"
  by (rule inbox_run_private [OF assms(2,1)])

definition noticed_db :: db where
  "noticed_db = demo_db\<lparr>notifications := [\<lparr>nt_id = 1, nt_user = 2, nt_type = ''sla_reminder'', nt_message = [], nt_link = None,
     nt_record = None, nt_dedup = None, nt_created_at = 0, nt_read_at = None\<rparr>]\<rparr>"

theorem inbox_is_private_witness:
  "private_change {1, 2} noticed_db (fold inbox_step [(demo_env, demo_hr, MarkRead 1), (demo_env, demo_supervisor, MarkRead 1),
     (demo_env, demo_supervisor, MarkAllRead)] noticed_db)"
proof -
  have "tbl_ok nt_id (notifications noticed_db)" by (simp add: tbl_ok_def noticed_db_def)
  then show ?thesis by (rule inbox_is_private) (simp add: demo_hr_def demo_supervisor_def)
qed

text \<open>C36. Technical support sees nothing of any case: for a reader who does not hold the capability for the whole
  log, every page, its total and its names are exactly those of a database in which there are no
  cases, scores, comments, plans or documents and the log has only the events of the system, whatever
  filters are set, those on cases and people included.\<close>

theorem support_sees_no_case:
  assumes "view_audit_log \<notin> capabilities_of d (cu_id u)"
  shows "list_audit_log midnight d u f limit offset = list_audit_log midnight (without_cases d) u f limit offset"
proof -
  let ?P = "\<lambda>d x. passes_audit midnight d f x \<and> system_row x"
  have caps: "capabilities_of (without_cases d) = capabilities_of d"
    by (simp add: capabilities_of_def [abs_def] without_cases_def)
  have "filter (?P (without_cases d)) (audits (without_cases d)) = filter (\<lambda>x. ?P (without_cases d) x) (filter system_row (audits d))"
    by (simp add: without_cases_def)
  also have "\<dots> = filter (?P d) (audits d)"
    unfolding filter_filter by (rule filter_cong) (auto simp: passes_audit_system)
  finally have rows: "filter (?P (without_cases d)) (audits (without_cases d)) = filter (?P d) (audits d)" .
  have "query_rows (without_cases d) (?P (without_cases d)) limit offset = query_rows d (?P d) limit offset"
    unfolding query_rows_def rows
    by (rule map_cong) (auto dest!: in_set_takeD in_set_dropD intro: audit_view_system)
  then show ?thesis
    using assms rows by (simp add: list_audit_log_def audit_log_reader_def caps Let_def)
qed

definition support_db :: db where
  "support_db = (demo_at finalized)\<lparr>capabilities := [\<lparr>uc_id = 1, uc_user = 1, uc_capability = view_diagnostics, uc_granted_by = None\<rparr>]\<rparr>"

definition case_filter :: audit_filter where
  "case_filter = \<lparr>xf_event = None, xf_record = Some 1, xf_from = None, xf_to = None, xf_actor = None,
     xf_personnel = Some 1, xf_org_unit = None, xf_end_from = None, xf_end_to = None\<rparr>"

theorem support_sees_no_case_witness:
  "list_audit_log (\<lambda>n. n) support_db demo_hr case_filter 50 0 =
     list_audit_log (\<lambda>n. n) (without_cases support_db) demo_hr case_filter 50 0"
proof (rule support_sees_no_case)
  show "view_audit_log \<notin> capabilities_of support_db (cu_id demo_hr)"
    unfolding capabilities_of_list by (simp add: support_db_def demo_hr_def)
qed

end
