(* ===== verification/Aggregates.thy ===== *)
theory Aggregates
  imports Access
begin

text \<open>
  What the pages with figures share: \<open>services/privacy.py\<close> is in Access; here are the grouping of the rows of a
  query, the averages, the shares and the order of a query that sorts its rows. The database's \<open>avg\<close> over a
  column is an argument \<open>avg\<close> of the definitions that use it (a function of the list of the values, which are
  rationals with few decimals; the result has at least sixteen digits and is not always the exact quotient).
\<close>

section \<open>Groups\<close>

text \<open>\<open>GROUP BY\<close>: the groups in the order in which they are met; the order of the database is not specified.\<close>

definition first_seen :: "'a list \<Rightarrow> 'a list" where
  "first_seen xs = rev (remdups (rev xs))"

definition group_by :: "('b \<Rightarrow> 'a) \<Rightarrow> 'b list \<Rightarrow> ('a \<times> 'b list) list" where
  "group_by key xs = map (\<lambda>k. (k, filter (\<lambda>x. key x = k) xs)) (first_seen (map key xs))"

lemma first_seen_set [simp]: "set (first_seen xs) = set xs" and first_seen_distinct [simp]: "distinct (first_seen xs)"
  by (simp_all add: first_seen_def)

lemma group_by_Nil [simp]: "group_by key [] = []"
  by (simp add: group_by_def first_seen_def)

lemma group_by_mem:
  "(k, ys) \<in> set (group_by key xs) \<longleftrightarrow> k \<in> key ` set xs \<and> ys = filter (\<lambda>x. key x = k) xs"
  by (auto simp: group_by_def)

text \<open>Every row is in exactly one group.\<close>

lemma group_by_count: "sum_list (map (\<lambda>g. length (snd g)) (group_by key xs)) = length xs"
proof -
  have "sum_list (map (\<lambda>k. length (filter (\<lambda>x. key x = k) xs)) ks) = length (filter (\<lambda>x. key x \<in> set ks) xs)"
    if "distinct ks" for ks
    using that
  proof (induction ks)
    case (Cons k ks)
    have "length (filter (\<lambda>x. key x = k) xs) + length (filter (\<lambda>x. key x \<in> set ks) xs) =
        length (filter (\<lambda>x. key x \<in> set (k # ks)) xs)"
      using Cons.prems by (induction xs) auto
    then show ?case using Cons by simp
  qed simp
  from this [OF first_seen_distinct, of "map key xs"] show ?thesis
    by (simp add: group_by_def comp_def filter_True)
qed

section \<open>Averages and shares\<close>

definition values_of :: "'a option list \<Rightarrow> 'a list" where
  "values_of vs = map the (filter (\<lambda>v. v \<noteq> None) vs)"

lemma values_of_set [simp]: "x \<in> set (values_of vs) \<longleftrightarrow> Some x \<in> set vs"
  by (force simp: values_of_def)

text \<open>\<open>avg\<close> leaves out the nulls and is null when nothing is left.\<close>

definition sql_avg :: "(rat list \<Rightarrow> rat) \<Rightarrow> rat option list \<Rightarrow> rat option" where
  "sql_avg avg vs = (if values_of vs = [] then None else Some (avg (values_of vs)))"

text \<open>\<open>round(float(x), n)\<close>\<close>

definition rounded :: "nat \<Rightarrow> rat option \<Rightarrow> rat option" where
  "rounded n v = map_option (\<lambda>x. py_round n (fl x)) v"

text \<open>\<open>round(n * 100 / m, 1)\<close>\<close>

definition percent_of :: "nat \<Rightarrow> nat \<Rightarrow> rat" where
  "percent_of n m = py_round 1 (fl (of_nat (n * 100) / of_nat m))"

text \<open>What is documented of \<open>avg\<close>: it lies between the least and the greatest value.\<close>

definition averages :: "(rat list \<Rightarrow> rat) \<Rightarrow> bool" where
  "averages avg \<longleftrightarrow> (\<forall>xs lo hi. xs \<noteq> [] \<longrightarrow> (\<forall>x\<in>set xs. lo \<le> x \<and> x \<le> hi) \<longrightarrow> lo \<le> avg xs \<and> avg xs \<le> hi)"

definition mean :: "rat list \<Rightarrow> rat" where
  "mean xs = sum_list xs / of_nat (length xs)"

lemma mean_averages: "averages mean"
proof -
  have "of_nat (length xs) * lo \<le> sum_list xs \<and> sum_list xs \<le> of_nat (length xs) * hi"
    if "\<forall>x\<in>set xs. lo \<le> x \<and> x \<le> hi" for xs and lo hi :: rat
    using that by (induction xs) (auto simp: algebra_simps intro: add_mono)
  then show ?thesis by (auto simp: averages_def mean_def field_simps)
qed

lemma percent_bounds: "n \<le> m \<Longrightarrow> 0 \<le> percent_of n m \<and> percent_of n m \<le> 100"
proof -
  assume "n \<le> m"
  then have "(of_nat (n * 100) :: rat) / of_nat m \<le> 100" by (cases "m = 0") (simp_all add: field_simps)
  then have "fl (of_nat (n * 100) / of_nat m) \<le> fl 100" by (rule fl_mono)
  moreover have "0 \<le> fl (of_nat (n * 100) / of_nat m :: rat)" by (intro fl_nonneg) simp
  ultimately show ?thesis
    using py_round_mono [of "fl (of_nat (n * 100) / of_nat m)" 100 1] py_round_mono [of 0 "fl (of_nat (n * 100) / of_nat m)" 1]
      py_round_int [of 100 1] py_round_0 [of 1] by (simp add: fl_numeral percent_of_def)
qed

lemma rounded_bounds:
  assumes "rounded n v = Some y" and "\<And>x. v = Some x \<Longrightarrow> 0 \<le> x \<and> x \<le> 100"
  shows "0 \<le> y \<and> y \<le> 100"
proof -
  obtain x where x: "v = Some x" "y = py_round n (fl x)" using assms(1) by (auto simp: rounded_def)
  then have "0 \<le> x" "x \<le> 100" using assms(2) by auto
  then have "0 \<le> fl x" "fl x \<le> 100" using fl_nonneg fl_mono [of x 100] by (simp_all add: fl_numeral)
  then show ?thesis using py_round_mono [of 0 "fl x" n] py_round_mono [of "fl x" 100 n] py_round_int [of 100 n] by (simp add: x)
qed

lemma sql_avg_bounds:
  assumes "averages avg" and "sql_avg avg vs = Some y" and "\<And>x. Some x \<in> set vs \<Longrightarrow> lo \<le> x \<and> x \<le> hi"
  shows "lo \<le> y \<and> y \<le> hi"
proof -
  have ne: "values_of vs \<noteq> []" and y: "y = avg (values_of vs)" using assms(2) by (auto simp: sql_avg_def split: if_splits)
  have "\<forall>x\<in>set (values_of vs). lo \<le> x \<and> x \<le> hi" using assms(3) by simp
  then show ?thesis using assms(1) ne unfolding averages_def y by blast
qed

lemma suppressed_Some: "suppressed_avg e v n = Some x \<longleftrightarrow> v = Some x \<and> \<not> is_below_cohort e n"
  by (auto simp: suppressed_avg_def)

section \<open>Orders\<close>

text \<open>\<open>ORDER BY ... DESC\<close> and \<open>NULLS LAST\<close>: stable sorts.\<close>

definition sort_desc :: "('a \<Rightarrow> rat) \<Rightarrow> 'a list \<Rightarrow> 'a list" where
  "sort_desc f = sort_key (\<lambda>x. - f x)"

definition nulls_last :: "('a \<Rightarrow> 'b option) \<Rightarrow> ('a list \<Rightarrow> 'a list) \<Rightarrow> 'a list \<Rightarrow> 'a list" where
  "nulls_last f srt xs = srt (filter (\<lambda>x. f x \<noteq> None) xs) @ filter (\<lambda>x. f x = None) xs"

lemma set_sort_desc [simp]: "set (sort_desc f xs) = set xs"
  by (simp add: sort_desc_def)

text \<open>Display name as the tables of the pages show it: the name in the personnel file, else the one of the account.\<close>

definition account_name :: "db \<Rightarrow> user \<Rightarrow> ustr option" where
  "account_name d x = (case Option.bind (u_personnel_id x) (get_personnel d) of
     Some p \<Rightarrow> Some (p_full_name p) | None \<Rightarrow> u_full_name x)"

text \<open>The cases with their people, as a join.\<close>

definition with_person :: "db \<Rightarrow> evaluation_record list \<Rightarrow> (personnel \<times> evaluation_record) list" where
  "with_person d rs = concat (map (\<lambda>r. case get_personnel d (er_subject r) of None \<Rightarrow> [] | Some p \<Rightarrow> [(p, r)]) rs)"

lemma with_person_mem: "(p, r) \<in> set (with_person d rs) \<longleftrightarrow> r \<in> set rs \<and> get_personnel d (er_subject r) = Some p"
  by (auto simp: with_person_def split: option.splits)

lemma with_person_length:
  "(\<forall>r\<in>set rs. get_personnel d (er_subject r) \<noteq> None) \<Longrightarrow> length (with_person d rs) = length rs"
  by (induction rs) (auto simp: with_person_def)

definition finalized_cases :: "db \<Rightarrow> evaluation_record list" where
  "finalized_cases d = filter (\<lambda>r. er_status r = finalized) (records d)"

end
