(* ===== verification/Stats.thy ===== *)
theory Stats
  imports AuditTrail Aggregates
begin

text \<open>
  Where the cases are and how long they stay: \<open>services/stage_stats.py\<close>. The visits of a case to the
  stages come from the rows \<open>status_changed\<close> of the log, the visit that is still going on from the case
  itself. Durations are floats. The lemmas say what the counters of a bucket count, and that the visits of
  a case whose log can be replayed are its life cut into pieces.
\<close>

section \<open>Visits\<close>

definition STAGE_ORDER :: "evaluation_status list" where
  "STAGE_ORDER = [draft, submitted, hr_approved, deputy_approved, finalized]"

text \<open>\<open>timedelta.total_seconds\<close>: a division of integers, rounded once.\<close>

definition total_seconds :: "moment \<Rightarrow> rat" where
  "total_seconds n = fl (of_int n / 1000000)"

record visit =
  vi_status :: json
  vi_seconds :: rat
  vi_current :: bool

text \<open>The statuses of a row are JSON values; the empty text and \<open>null\<close> count as none.\<close>

definition truthy :: "json \<Rightarrow> bool" where
  "truthy j \<longleftrightarrow> j \<notin> {JNull, JBool False, JInt 0, JNum 0, JStr [], JText [], JList [], JObj []}"

definition row_status :: "json option \<Rightarrow> json" where
  "row_status v = (case v of
     Some (JObj kvs) \<Rightarrow> (case map_of kvs ''status'' of Some j \<Rightarrow> j | None \<Rightarrow> JStr [])
   | _ \<Rightarrow> JStr [])"

fun walk_visits :: "json \<Rightarrow> moment \<Rightarrow> (moment \<times> json \<times> json) list \<Rightarrow> visit list" where
  "walk_visits walking entered [] = []"
| "walk_visits walking entered ((t, old, new) # ts) =
     \<lparr>vi_status = (if truthy old then old else walking), vi_seconds = total_seconds (t - entered), vi_current = False\<rparr>
       # walk_visits new t ts"

definition stage_visits :: "moment \<Rightarrow> json \<Rightarrow> moment \<Rightarrow> (moment \<times> json \<times> json) list \<Rightarrow> moment \<Rightarrow> visit list" where
  "stage_visits created current stage_entered ts t =
     walk_visits (JStr (status_value draft)) created ts @
     [\<lparr>vi_status = current, vi_seconds = total_seconds (t - stage_entered), vi_current = True\<rparr>]"

text \<open>The rows of the log that are moves; the row of a new case has no old status.\<close>

definition log_transitions :: "db \<Rightarrow> int \<Rightarrow> (moment \<times> json \<times> json) list" where
  "log_transitions d k =
     map (\<lambda>l. (al_created_at l, row_status (al_old l), row_status (al_new l)))
       (filter (\<lambda>l. al_record l = Some k \<and> truthy (row_status (al_old l)) \<and> truthy (row_status (al_new l)))
         (sort_key al_created_at (filter (\<lambda>l. al_event l = ''status_changed'' \<and> al_record l \<noteq> None) (audits d))))"

definition visits_of :: "env \<Rightarrow> db \<Rightarrow> evaluation_record \<Rightarrow> visit list" where
  "visits_of e d r = stage_visits (er_created_at r) (JStr (status_value (er_status r))) (er_stage_entered_at r)
     (log_transitions d (er_id r)) (now e)"

section \<open>Buckets\<close>

record bucket =
  bk_passes :: nat
  bk_active :: nat
  bk_closed :: nat
  bk_records :: "int list"
  bk_finished :: "rat list"
  bk_longest :: rat

definition empty_bucket :: bucket where
  "empty_bucket = \<lparr>bk_passes = 0, bk_active = 0, bk_closed = 0, bk_records = [], bk_finished = [], bk_longest = 0\<rparr>"

definition add_visit :: "int \<times> visit \<Rightarrow> bucket \<Rightarrow> bucket" where
  "add_visit p b = (case p of (k, v) \<Rightarrow>
     let b = b\<lparr>bk_passes := bk_passes b + 1, bk_records := List.insert k (bk_records b)\<rparr>
     in if vi_current v then b\<lparr>bk_active := bk_active b + 1, bk_longest := max (bk_longest b) (vi_seconds v)\<rparr>
        else b\<lparr>bk_closed := bk_closed b + 1, bk_finished := bk_finished b @ [vi_seconds v]\<rparr>)"

text \<open>All visits, case by case; the status \<open>cancelled\<close> has no bucket.\<close>

definition all_visits :: "env \<Rightarrow> db \<Rightarrow> (int \<times> visit) list" where
  "all_visits e d = concat (map (\<lambda>r. map (Pair (er_id r)) (visits_of e d r)) (records d))"

definition stage_bucket :: "env \<Rightarrow> db \<Rightarrow> evaluation_status \<Rightarrow> bucket" where
  "stage_bucket e d s = fold add_visit (filter (\<lambda>p. vi_status (snd p) = JStr (status_value s)) (all_visits e d)) empty_bucket"

fun stage_owner :: "evaluation_status \<Rightarrow> evaluation_record \<Rightarrow> int option" where
  "stage_owner draft r = er_supervisor r"
| "stage_owner submitted r = er_hr r"
| "stage_owner hr_approved r = er_deputy r"
| "stage_owner deputy_approved r = Some (er_ceo r)"
| "stage_owner _ r = None"

text \<open>The visits to a stage that were on one owner's table; the owners in the order they are met first.\<close>

definition owned_visits :: "env \<Rightarrow> db \<Rightarrow> evaluation_status \<Rightarrow> (int \<times> int \<times> visit) list" where
  "owned_visits e d s = concat (map (\<lambda>r. case stage_owner s r of None \<Rightarrow> []
     | Some o' \<Rightarrow> map (\<lambda>v. (o', er_id r, v)) (filter (\<lambda>v. vi_status v = JStr (status_value s)) (visits_of e d r))) (records d))"

definition stage_owners :: "env \<Rightarrow> db \<Rightarrow> evaluation_status \<Rightarrow> int list" where
  "stage_owners e d s = first_seen (map fst (owned_visits e d s))"

definition owner_bucket :: "env \<Rightarrow> db \<Rightarrow> evaluation_status \<Rightarrow> int \<Rightarrow> bucket" where
  "owner_bucket e d s o' = fold add_visit (map snd (filter (\<lambda>p. fst p = o') (owned_visits e d s))) empty_bucket"

section \<open>The figures\<close>

text \<open>\<open>sum\<close> adds from the left, each addition rounded.\<close>

definition float_sum :: "rat list \<Rightarrow> rat" where
  "float_sum xs = foldl (\<lambda>a x. fl (a + x)) 0 xs"

definition avg_days :: "rat list \<Rightarrow> rat option" where
  "avg_days xs = (if xs = [] then None
     else Some (py_round 1 (fl (max 0 (fl (float_sum xs / of_nat (length xs))) / 86400))))"

definition longest_days :: "bucket \<Rightarrow> rat option" where
  "longest_days b = (if bk_active b = 0 then None else Some (py_round 1 (fl (bk_longest b / 86400))))"

record owner_stat =
  ow_name :: ustr
  ow_total :: nat
  ow_active :: nat
  ow_closed :: nat
  ow_avg_days :: "rat option"
  ow_longest_days :: "rat option"

definition finish_owner :: "ustr \<Rightarrow> bucket \<Rightarrow> owner_stat" where
  "finish_owner name b = \<lparr>ow_name = name, ow_total = length (bk_records b), ow_active = bk_active b,
     ow_closed = bk_closed b, ow_avg_days = avg_days (bk_finished b), ow_longest_days = longest_days b\<rparr>"

definition owner_name :: "db \<Rightarrow> int \<Rightarrow> ustr" where
  "owner_name d k = (case get_user d k of None \<Rightarrow> [8212]
   | Some x \<Rightarrow> (case u_full_name x of Some n \<Rightarrow> if n = [] then lit (u_username x) else n | None \<Rightarrow> lit (u_username x)))"

record stage_stat =
  st_status :: evaluation_status
  st_holder :: string
  st_total :: nat
  st_active :: nat
  st_closed :: nat
  st_passes :: nat
  st_share_pct :: rat
  st_avg_days :: "rat option"
  st_longest_days :: "rat option"
  st_by_owner :: "owner_stat list"

fun stage_holder :: "evaluation_status \<Rightarrow> string" where
  "stage_holder draft = ''unit supervisor''"
| "stage_holder submitted = ''human resources''"
| "stage_holder hr_approved = ''deputy''"
| "stage_holder deputy_approved = ''chief executive''"
| "stage_holder _ = ''-''"

text \<open>The busiest owner first: two stable sorts are the sort by both keys.\<close>

definition owners_of_stage :: "env \<Rightarrow> db \<Rightarrow> evaluation_status \<Rightarrow> owner_stat list" where
  "owners_of_stage e d s = sort_key (\<lambda>o'. - int (ow_active o')) (sort_key (\<lambda>o'. - int (ow_total o'))
     (map (\<lambda>k. finish_owner (owner_name d k) (owner_bucket e d s k)) (stage_owners e d s)))"

definition stage_stat_of :: "env \<Rightarrow> db \<Rightarrow> evaluation_status \<Rightarrow> stage_stat" where
  "stage_stat_of e d s =
     (let b = stage_bucket e d s; terminal = (s = finalized) in
      \<lparr>st_status = s, st_holder = stage_holder s, st_total = length (bk_records b), st_active = bk_active b,
       st_closed = bk_closed b, st_passes = bk_passes b,
       st_share_pct = percent_of (length (bk_records b)) (length (records d)),
       st_avg_days = (if terminal then None else avg_days (bk_finished b)),
       st_longest_days = (if terminal then None else longest_days b),
       st_by_owner = owners_of_stage e d s\<rparr>)"

definition no_stat :: "evaluation_status \<Rightarrow> stage_stat" where
  "no_stat s = \<lparr>st_status = s, st_holder = stage_holder s, st_total = 0, st_active = 0, st_closed = 0, st_passes = 0,
     st_share_pct = 0, st_avg_days = None, st_longest_days = None, st_by_owner = []\<rparr>"

definition stage_stats :: "env \<Rightarrow> db \<Rightarrow> stage_stat list" where
  "stage_stats e d = map (if records d = [] then no_stat else stage_stat_of e d) STAGE_ORDER"


section \<open>What the counters count\<close>

lemma add_visit_step:
  "add_visit p b = (if vi_current (snd p)
     then \<lparr>bk_passes = bk_passes b + 1, bk_active = bk_active b + 1, bk_closed = bk_closed b,
       bk_records = List.insert (fst p) (bk_records b), bk_finished = bk_finished b,
       bk_longest = max (bk_longest b) (vi_seconds (snd p))\<rparr>
     else \<lparr>bk_passes = bk_passes b + 1, bk_active = bk_active b, bk_closed = bk_closed b + 1,
       bk_records = List.insert (fst p) (bk_records b), bk_finished = bk_finished b @ [vi_seconds (snd p)],
       bk_longest = bk_longest b\<rparr>)"
  by (cases p) (simp add: add_visit_def Let_def)

lemma fold_add_visit:
  "fold add_visit ps b = \<lparr>bk_passes = bk_passes b + length ps,
     bk_active = bk_active b + length (filter (\<lambda>p. vi_current (snd p)) ps),
     bk_closed = bk_closed b + length (filter (\<lambda>p. \<not> vi_current (snd p)) ps),
     bk_records = fold List.insert (map fst ps) (bk_records b),
     bk_finished = bk_finished b @ map (\<lambda>p. vi_seconds (snd p)) (filter (\<lambda>p. \<not> vi_current (snd p)) ps),
     bk_longest = fold max (map (\<lambda>p. vi_seconds (snd p)) (filter (\<lambda>p. vi_current (snd p)) ps)) (bk_longest b)\<rparr>"
proof (induction ps arbitrary: b)
  case (Cons p ps)
  show ?case by (simp only: fold_simps Cons.IH) (simp add: add_visit_step max.commute)
qed simp

lemma fold_insert_set: "set (fold List.insert xs ys) = set xs \<union> set ys \<and> (distinct ys \<longrightarrow> distinct (fold List.insert xs ys))"
proof (induction xs arbitrary: ys)
  case (Cons x xs)
  then show ?case using Cons.IH [of "List.insert x ys"] by auto
qed simp

lemma walk_visits_closed: "v \<in> set (walk_visits j t ts) \<Longrightarrow> \<not> vi_current v"
  by (induction j t ts rule: walk_visits.induct) auto

lemma current_visit:
  "filter vi_current (visits_of e d r) =
     [\<lparr>vi_status = JStr (status_value (er_status r)), vi_seconds = total_seconds (now e - er_stage_entered_at r), vi_current = True\<rparr>]"
  using walk_visits_closed by (auto simp: visits_of_def stage_visits_def filter_empty_conv)

lemma status_value_inj [simp]: "status_value s = status_value s' \<longleftrightarrow> s = s'"
  by (cases s; cases s') simp_all

text \<open>The visits of the cases to one stage.\<close>

definition visits_to :: "env \<Rightarrow> db \<Rightarrow> evaluation_status \<Rightarrow> evaluation_record \<Rightarrow> visit list" where
  "visits_to e d s r = filter (\<lambda>v. vi_status v = JStr (status_value s)) (visits_of e d r)"

lemma bucket_visits:
  "filter (\<lambda>p. vi_status (snd p) = JStr (status_value s)) (all_visits e d) =
     concat (map (\<lambda>r. map (Pair (er_id r)) (visits_to e d s r)) (records d))"
  by (simp add: all_visits_def visits_to_def filter_concat filter_map comp_def)

lemma current_visits_to:
  "length (filter vi_current (visits_to e d s r)) = (if er_status r = s then 1 else 0)"
proof -
  have "filter vi_current (visits_to e d s r) = filter (\<lambda>v. vi_status v = JStr (status_value s)) (filter vi_current (visits_of e d r))"
    by (simp add: visits_to_def conj_commute)
  then show ?thesis by (simp add: current_visit)
qed

lemma stage_bucket_active: "bk_active (stage_bucket e d s) = length (filter (\<lambda>r. er_status r = s) (records d))"
proof -
  have "length (filter (\<lambda>p. vi_current (snd p)) (concat (map (\<lambda>r. map (Pair (er_id r)) (visits_to e d s r)) rs))) =
      length (filter (\<lambda>r. er_status r = s) rs)" for rs
    by (induction rs) (simp_all add: filter_map comp_def current_visits_to)
  then show ?thesis by (simp add: stage_bucket_def fold_add_visit bucket_visits empty_bucket_def)
qed

lemma fold_bucket_counts:
  "bk_passes (fold add_visit ps empty_bucket) = bk_active (fold add_visit ps empty_bucket) + bk_closed (fold add_visit ps empty_bucket)"
  "length (bk_finished (fold add_visit ps empty_bucket)) = bk_closed (fold add_visit ps empty_bucket)"
  by (simp_all add: fold_add_visit empty_bucket_def sum_length_filter_compl)

lemma stage_bucket_passes: "bk_passes (stage_bucket e d s) = bk_active (stage_bucket e d s) + bk_closed (stage_bucket e d s)"
  unfolding stage_bucket_def by (rule fold_bucket_counts)

lemma stage_bucket_finished: "length (bk_finished (stage_bucket e d s)) = bk_closed (stage_bucket e d s)"
  unfolding stage_bucket_def by (rule fold_bucket_counts)

lemma stage_bucket_records:
  assumes "tbl_ok er_id (records d)"
  shows "length (bk_records (stage_bucket e d s)) = length (filter (\<lambda>r. visits_to e d s r \<noteq> []) (records d))"
proof -
  let ?b = "bk_records (stage_bucket e d s)" and ?rs = "filter (\<lambda>r. visits_to e d s r \<noteq> []) (records d)"
  let ?xs = "map fst (concat (map (\<lambda>r. map (Pair (er_id r)) (visits_to e d s r)) (records d)))"
  have b: "?b = fold List.insert ?xs []" by (simp add: stage_bucket_def fold_add_visit bucket_visits empty_bucket_def)
  have "set ?xs = er_id ` set ?rs" by (auto simp: image_iff simp flip: set_empty)
  then have "distinct ?b" and "set ?b = er_id ` set ?rs"
    using fold_insert_set [of ?xs "[]"] unfolding b by simp_all
  moreover have "distinct (map er_id ?rs)" using assms by (auto simp: tbl_ok_def intro: distinct_map_filter)
  ultimately show ?thesis by (metis distinct_card length_map set_map)
qed

lemma stage_bucket_total: "length (bk_records (stage_bucket e d s)) \<le> bk_passes (stage_bucket e d s)"
proof -
  have "length (fold List.insert xs ys) \<le> length xs + length ys" for xs ys :: "int list"
  proof (induction xs arbitrary: ys)
    case (Cons x xs)
    show ?case using Cons.IH [of "List.insert x ys"] by (simp add: List.insert_def split: if_splits)
  qed simp
  from this [of "map fst (filter (\<lambda>p. vi_status (snd p) = JStr (status_value s)) (all_visits e d))" "[]"]
  show ?thesis by (simp add: stage_bucket_def fold_add_visit empty_bucket_def)
qed

section \<open>The visits are the life of the case\<close>

text \<open>The stages a case has entered and when, as its log tells them.\<close>

definition entered_stages :: "audit_log list \<Rightarrow> (evaluation_status \<times> moment) list" where
  "entered_stages ls = concat (map (\<lambda>l. if al_old l = None then []
     else (case status_named (al_new l) of None \<Rightarrow> [] | Some s \<Rightarrow> [(s, al_created_at l)])) ls)"

definition entries :: "db \<Rightarrow> evaluation_record \<Rightarrow> (evaluation_status \<times> moment) list" where
  "entries d r = (draft, er_created_at r) # entered_stages (status_rows d (er_id r))"

text \<open>The time from each entry to the next, and from the last one to now.\<close>

fun stays :: "moment list \<Rightarrow> moment \<Rightarrow> moment list" where
  "stays [] n = []"
| "stays [a] n = [n - a]"
| "stays (a # b # ts) n = (b - a) # stays (b # ts) n"

lemma stays_add_up: "ts \<noteq> [] \<Longrightarrow> sum_list (stays ts n) = n - hd ts"
  by (induction ts n rule: stays.induct) auto

lemma stays_append: "stays (ts @ [a, n']) n = stays (ts @ [a]) n' @ [n - n']"
proof (induction ts arbitrary: a)
  case (Cons t ts)
  then show ?case by (cases ts) auto
qed simp

lemma row_status_json [simp]: "row_status (Some (status_json s)) = JStr (status_value s)" "truthy (JStr (status_value s))"
  "row_status None = JStr []" "\<not> truthy (JStr [])"
  by (cases s; simp add: row_status_def status_json_def truthy_def)+

definition transitions :: "audit_log list \<Rightarrow> (moment \<times> json \<times> json) list" where
  "transitions ls = map (\<lambda>l. (al_created_at l, row_status (al_old l), row_status (al_new l)))
     (filter (\<lambda>l. truthy (row_status (al_old l)) \<and> truthy (row_status (al_new l))) ls)"

lemma entered_stages_simps [simp]:
  "entered_stages [] = []"
  "al_old l = None \<Longrightarrow> entered_stages (l # ls) = entered_stages ls"
  "al_old l = Some v \<Longrightarrow> al_new l = Some (status_json s) \<Longrightarrow>
     entered_stages (l # ls) = (s, al_created_at l) # entered_stages ls"
  by (simp_all add: entered_stages_def)

lemma transitions_simps [simp]:
  "transitions [] = []"
  "al_old l = None \<Longrightarrow> transitions (l # ls) = transitions ls"
  "al_old l = Some (status_json s) \<Longrightarrow> al_new l = Some (status_json s') \<Longrightarrow>
     transitions (l # ls) = (al_created_at l, JStr (status_value s), JStr (status_value s')) # transitions ls"
  by (simp_all add: transitions_def)

lemma log_transitions_rows:
  assumes "sorted (map al_created_at (audits d))"
  shows "log_transitions d k = transitions (status_rows d k)"
proof -
  have "sorted (map al_created_at (filter P (audits d)))" for P using assms by (rule sorted_filter)
  then show ?thesis
    by (auto simp: log_transitions_def transitions_def status_rows_def sort_key_id_if_sorted intro!: arg_cong [of _ _ "map _"] filter_cong)
qed

lemma status_named_SomeD: "status_named v = Some s \<Longrightarrow> v = Some (status_json s)"
  by (auto simp: status_named_def split: if_splits)

lemma replay_visits:
  assumes "replay (s, t) ls = Some (s1, t1)"
  shows "let vs = walk_visits (JStr (status_value s)) t (transitions ls) @
        [\<lparr>vi_status = JStr (status_value s1), vi_seconds = total_seconds (n - t1), vi_current = True\<rparr>];
      es = (s, t) # entered_stages ls
    in map vi_status vs = map (\<lambda>x. JStr (status_value (fst x))) es \<and>
      map vi_seconds vs = map total_seconds (stays (map snd es) n) \<and> last es = (s1, t1)"
  using assms
proof (induction ls arbitrary: s t)
  case (Cons l ls)
  show ?case
  proof (cases "al_old l")
    case None
    then have "replay (s, t) ls = Some (s1, t1)" using Cons.prems by (simp split: if_splits)
    from Cons.IH [OF this] show ?thesis by (simp add: None Let_def)
  next
    case (Some v)
    then obtain s' where s': "status_named (al_new l) = Some s'" and v: "v = status_json s"
      and rest: "replay (s', al_created_at l) ls = Some (s1, t1)"
      using Cons.prems by (auto split: if_splits option.splits)
    have new: "al_new l = Some (status_json s')" by (rule status_named_SomeD [OF s'])
    note old = Some [unfolded v]
    show ?thesis using Cons.IH [OF rest]
      by (simp add: Let_def transitions_simps(3) [OF old new] entered_stages_simps(3) [OF old new])
  qed
qed simp

lemma visits_current: "map vi_current (visits_of e d r) = replicate (length (visits_of e d r) - 1) False @ [True]"
proof -
  have "map vi_current (walk_visits j t ts) = replicate (length (walk_visits j t ts)) False" for j t ts
    by (induction j t ts rule: walk_visits.induct) auto
  then show ?thesis by (simp add: visits_of_def stage_visits_def)
qed

lemma visits_tile:
  assumes "replayed d" and "sorted (map al_created_at (audits d))" and "r \<in> set (records d)"
  shows "map vi_status (visits_of e d r) = map (\<lambda>x. JStr (status_value (fst x))) (entries d r) \<and>
    map vi_seconds (visits_of e d r) = map total_seconds (stays (map snd (entries d r)) (now e)) \<and>
    last (entries d r) = (er_status r, er_stage_entered_at r)"
proof -
  have "(er_id r, er_status r, er_created_at r, er_stage_entered_at r) \<in> set (lives d)"
    using assms(3) by (auto simp: lives_def)
  then have "replay (draft, er_created_at r) (status_rows d (er_id r)) = Some (er_status r, er_stage_entered_at r)"
    using assms(1) by (auto simp: replayed_def)
  from replay_visits [OF this, of "now e"] show ?thesis
    by (simp add: Let_def visits_of_def stage_visits_def entries_def log_transitions_rows [OF assms(2)])
qed

end
