(* ===== verification/StatsProperties.thy ===== *)
theory StatsProperties
  imports Stats CaseProperties
begin

text \<open>The properties of the log as a record of every case's life, and of the figures made from it.\<close>

section \<open>A case with a past\<close>

definition past_row :: "int \<Rightarrow> json option \<Rightarrow> evaluation_status \<Rightarrow> moment \<Rightarrow> audit_log" where
  "past_row k old s t = \<lparr>al_id = k, al_record = Some 1, al_actor = 2, al_event = ''status_changed'', al_old = old,
     al_new = Some (status_json s), al_created_at = t, al_prev_hash = [], al_entry_hash = []\<rparr>"

text \<open>The sample case: opened, submitted, returned and submitted again.\<close>

definition lived_db :: db where
  "lived_db = (demo_at submitted)\<lparr>audits :=
     [past_row 1 None draft (days 19990), past_row 2 (Some (status_json draft)) submitted (days 19991),
      past_row 3 (Some (status_json submitted)) draft (days 19993), past_row 4 (Some (status_json draft)) submitted (days 19995)]\<rparr>"

lemma lived_db_ok: "replayed lived_db" "log_in_order demo_env lived_db" "records lived_db = [demo_case submitted]"
proof -
  show recs: "records lived_db = [demo_case submitted]" by (simp add: lived_db_def)
  have rows: "status_rows lived_db k = (if k = 1 then audits lived_db else [])" for k
    by (simp add: status_rows_def lived_db_def past_row_def)
  have "er_created_at (demo_case submitted) = days 19990" "er_stage_entered_at (demo_case submitted) = days 19995"
    by (simp_all add: demo_case_def)
  then show "replayed lived_db"
    by (simp add: replayed_def lives_def recs rows) (simp add: lived_db_def past_row_def)
  show "log_in_order demo_env lived_db"
    by (simp add: log_in_order_def lived_db_def past_row_def days_def demo_env_def)
qed


section \<open>The properties\<close>





text \<open>What the figures of a stage count: the active ones are exactly the cases that have this status now, the
  passes are the active and the closed visits together, the total is the number of cases that have ever been
  there and never more than the passes, the share lies between 0 and 100, and an average is missing exactly when
  no visit has ended or the stage is the last one.\<close>

theorem stage_figures_count_cases:
  assumes "tbl_ok er_id (records d)" and "f \<in> set (stage_stats e d)"
  shows "st_active f = length (filter (\<lambda>r. er_status r = st_status f) (records d)) \<and>
    st_passes f = st_active f + st_closed f \<and>
    st_total f = length (filter (\<lambda>r. \<exists>v\<in>set (visits_of e d r). vi_status v = JStr (status_value (st_status f))) (records d)) \<and>
    st_total f \<le> st_passes f \<and> 0 \<le> st_share_pct f \<and> st_share_pct f \<le> 100 \<and>
    (st_avg_days f = None \<longleftrightarrow> st_closed f = 0 \<or> st_status f = finalized) \<and>
    (st_longest_days f = None \<longleftrightarrow> st_active f = 0 \<or> st_status f = finalized)"
proof (cases "records d = []")
  case True
  then show ?thesis using assms(2) by (auto simp: stage_stats_def no_stat_def)
next
  case False
  then obtain s where f: "f = stage_stat_of e d s" using assms(2) by (auto simp: stage_stats_def)
  let ?b = "stage_bucket e d s"
  have total: "length (bk_records ?b) =
      length (filter (\<lambda>r. \<exists>v\<in>set (visits_of e d r). vi_status v = JStr (status_value s)) (records d))"
    unfolding stage_bucket_records [OF assms(1)] visits_to_def by (simp add: filter_empty_conv)
  then have "length (bk_records ?b) \<le> length (records d)" by simp
  note share = percent_bounds [OF this]
  have "avg_days (bk_finished ?b) = None \<longleftrightarrow> bk_closed ?b = 0"
    using stage_bucket_finished [of e d s] by (cases "bk_finished ?b") (auto simp: avg_days_def)
  then show ?thesis
    using total share stage_bucket_total [of e d s] stage_bucket_passes [of e d s] stage_bucket_active [of e d s]
    by (simp add: f stage_stat_of_def Let_def longest_days_def)
qed

theorem stage_figures_count_cases_witness:
  "map st_active (stage_stats demo_env lived_db) = [0, 1, 0, 0, 0]"
proof -
  have ok: "tbl_ok er_id (records lived_db)" by (simp add: lived_db_ok(3) tbl_ok_def)
  have act: "st_active f = length (filter (\<lambda>r. er_status r = st_status f) (records lived_db))"
    if "f \<in> set (stage_stats demo_env lived_db)" for f
    using stage_figures_count_cases [OF ok that] by blast
  have "map st_active (stage_stats demo_env lived_db) =
      map (\<lambda>f. length (filter (\<lambda>r. er_status r = st_status f) (records lived_db))) (stage_stats demo_env lived_db)"
    by (rule map_cong [OF refl]) (rule act)
  also have "\<dots> = map (\<lambda>s. length (filter (\<lambda>r. er_status r = s) (records lived_db))) (map st_status (stage_stats demo_env lived_db))"
    by simp
  also have "map st_status (stage_stats demo_env lived_db) = STAGE_ORDER"
    by (simp add: stage_stats_def stage_stat_of_def no_stat_def Let_def comp_def)
  finally show ?thesis by (simp add: STAGE_ORDER_def lived_db_ok(3))
qed

end
