(* ===== verification/Dashboard.thy ===== *)
theory Dashboard
  imports Stats OrgUnits People
begin

text \<open>
  The pages of \<open>routers/dashboard.py\<close>: the overview of human resources with its averages per unit, evaluator and
  question, the pipeline, the trend over the periods, the contracts that end, the pages of one person, and the
  cards of each role. Everything here reads; nothing is written.
\<close>

section \<open>The filter by site\<close>

text \<open>\<open>None\<close>: no filter. A site in which nobody is gives the empty list.\<close>

definition units_of :: "db \<Rightarrow> ustr option \<Rightarrow> ustr list option" where
  "units_of d site = (case site of
     None \<Rightarrow> None
   | Some s \<Rightarrow> if s = [] then None else Some (units_in_site (remdups (map p_org_unit (personnels d))) s))"

definition in_site :: "db \<Rightarrow> ustr option \<Rightarrow> evaluation_record \<Rightarrow> bool" where
  "in_site d site r = (case units_of d site of
     None \<Rightarrow> True
   | Some us \<Rightarrow> \<exists>p\<in>set (personnels d). p_id p = er_subject r \<and> p_org_unit p \<in> set us)"

definition final_in :: "db \<Rightarrow> ustr option \<Rightarrow> evaluation_record list" where
  "final_in d site = filter (in_site d site) (finalized_cases d)"

definition with_result :: "evaluation_record list \<Rightarrow> evaluation_record list" where
  "with_result = filter (\<lambda>r. er_final_pct r \<noteq> None)"

section \<open>The overview\<close>

record outcome_mix =
  om_strong :: "rat option"
  om_weak :: "rat option"
  om_strong_from :: rat
  om_weak_to :: rat
  om_people :: nat

text \<open>The lower end of the highest band, and the limit of the improvement plans.\<close>

definition strong_threshold :: "rules \<Rightarrow> rat" where
  "strong_threshold r = (let n = length (r_thresholds r) in
     if 2 \<le> n then fst (r_thresholds r ! (n - 2)) else r_plan_max_pct r)"

text \<open>The latest result of each person (\<open>row_number() = 1\<close>).\<close>

definition latest_results :: "db \<Rightarrow> ustr option \<Rightarrow> rat list" where
  "latest_results d site = map
     (\<lambda>g. fl (the (er_final_pct (hd (nulls_last er_finalized_at (sort_key (\<lambda>r. - the (er_finalized_at r))) (snd g))))))
     (group_by er_subject (with_result (final_in d site)))"

definition outcome_mix_of :: "db \<Rightarrow> ustr option \<Rightarrow> outcome_mix" where
  "outcome_mix_of d site =
     (let rules = current_rules d; low = r_plan_max_pct rules; high = strong_threshold rules;
          rows = latest_results d site; people = length rows
      in \<lparr>om_strong = (if people = 0 then None else Some (percent_of (length (filter (\<lambda>x. high \<le> x) rows)) people)),
          om_weak = (if people = 0 then None else Some (percent_of (length (filter (\<lambda>x. x \<le> low) rows)) people)),
          om_strong_from = high, om_weak_to = low, om_people = people\<rparr>)"

record unit_stat =
  us_unit :: ustr
  us_avg :: "rat option"
  us_general :: "rat option"
  us_specialized :: "rat option"
  us_site :: "ustr option"
  us_count :: nat

definition unit_stats :: "env \<Rightarrow> (rat list \<Rightarrow> rat) \<Rightarrow> db \<Rightarrow> ustr option \<Rightarrow> unit_stat list" where
  "unit_stats e avg d site = map (\<lambda>(u, rows).
     let n = int (length rows);
         figure = (\<lambda>f. suppressed_avg e (rounded 1 (sql_avg avg (map (\<lambda>p. f (snd p)) rows))) n)
     in \<lparr>us_unit = u, us_avg = figure er_final_pct, us_general = figure er_general_pct,
         us_specialized = figure er_specialized_pct, us_site = site_of u, us_count = length rows\<rparr>)
     (group_by (\<lambda>p. p_org_unit (fst p)) (with_person d (with_result (final_in d site))))"

record evaluator_stat =
  vs_user :: int
  vs_username :: string
  vs_name :: "ustr option"
  vs_avg :: "rat option"
  vs_subordinates :: nat
  vs_count :: nat

definition evaluator_stats :: "env \<Rightarrow> (rat list \<Rightarrow> rat) \<Rightarrow> db \<Rightarrow> ustr option \<Rightarrow> evaluator_stat list" where
  "evaluator_stats e avg d site = map (\<lambda>(x, rows).
     \<lparr>vs_user = u_id x, vs_username = u_username x, vs_name = account_name d x,
      vs_avg = suppressed_avg e (rounded 1 (sql_avg avg (map (\<lambda>p. er_final_pct (snd p)) rows))) (int (length rows)),
      vs_subordinates = length (filter (\<lambda>a. ea_supervisor a = Some (u_id x)) (accesses d)),
      vs_count = length rows\<rparr>)
     (group_by fst (concat (map (\<lambda>r. case Option.bind (er_supervisor r) (get_user d) of None \<Rightarrow> [] | Some x \<Rightarrow> [(x, r)])
        (with_result (final_in d site)))))"

text \<open>The score rows of the given cases with their questions.\<close>

definition scored_questions :: "db \<Rightarrow> evaluation_record list \<Rightarrow> (indicator \<times> evaluation_score) list" where
  "scored_questions d rs = concat (map (\<lambda>s. case get_indicator d (es_indicator s) of None \<Rightarrow> [] | Some i \<Rightarrow> [(i, s)])
     (filter (\<lambda>s. es_record s \<in> er_id ` set rs) (scores d)))"

record indicator_stat =
  ns_indicator :: int
  ns_category :: ustr
  ns_description :: ustr
  ns_avg :: "rat option"

definition score_avg :: "(rat list \<Rightarrow> rat) \<Rightarrow> (indicator \<times> evaluation_score) list \<Rightarrow> rat" where
  "score_avg avg rows = avg (map (\<lambda>p. of_int (es_score (snd p))) rows)"

text \<open>The first five by their average; small groups are blanked after the choice.\<close>

definition indicator_stats ::
  "env \<Rightarrow> (rat list \<Rightarrow> rat) \<Rightarrow> db \<Rightarrow> ustr option \<Rightarrow> indicator_section \<Rightarrow> bool \<Rightarrow> indicator_stat list" where
  "indicator_stats e avg d site sec weakest = map (\<lambda>(i, rows).
     \<lparr>ns_indicator = in_id i, ns_category = in_category i, ns_description = in_description i,
      ns_avg = suppressed_avg e (rounded 2 (Some (score_avg avg rows))) (int (length rows))\<rparr>)
     (take 5 ((if weakest then sort_key (\<lambda>g. score_avg avg (snd g)) else sort_desc (\<lambda>g. score_avg avg (snd g)))
        (group_by fst (filter (\<lambda>p. in_section (fst p) = sec) (scored_questions d (final_in d site))))))"

record person_stat =
  ps_person :: int
  ps_name :: ustr
  ps_unit :: ustr
  ps_site :: "ustr option"
  ps_final :: rat

definition lowest_people :: "db \<Rightarrow> ustr option \<Rightarrow> person_stat list" where
  "lowest_people d site = map (\<lambda>(p, r).
     \<lparr>ps_person = p_id p, ps_name = p_full_name p, ps_unit = p_org_unit p, ps_site = site_of (p_org_unit p),
      ps_final = fl (the (er_final_pct r))\<rparr>)
     (take 20 (sort_key (\<lambda>q. the (er_final_pct (snd q))) (with_person d (with_result (final_in d site)))))"

record overview =
  ov_total :: nat
  ov_avg :: "rat option"
  ov_mix :: outcome_mix
  ov_units :: "unit_stat list"
  ov_evaluators :: "evaluator_stat list"
  ov_lowest :: "indicator_stat list"
  ov_highest :: "indicator_stat list"
  ov_lowest_specialized :: "indicator_stat list"
  ov_highest_specialized :: "indicator_stat list"
  ov_lowest_units :: "unit_stat list"
  ov_lowest_people :: "person_stat list"

definition dashboard_overview :: "env \<Rightarrow> (rat list \<Rightarrow> rat) \<Rightarrow> db \<Rightarrow> current_user \<Rightarrow> ustr option \<Rightarrow> overview result" where
  "dashboard_overview e avg d u site = bindE (require_roles [hr] u) (\<lambda>_.
     let units = unit_stats e avg d site in
     Inr \<lparr>ov_total = length (final_in d site),
          ov_avg = rounded 1 (sql_avg avg (map er_final_pct (final_in d site))),
          ov_mix = outcome_mix_of d site, ov_units = units, ov_evaluators = evaluator_stats e avg d site,
          ov_lowest = indicator_stats e avg d site general True,
          ov_highest = indicator_stats e avg d site general False,
          ov_lowest_specialized = indicator_stats e avg d site specialized True,
          ov_highest_specialized = indicator_stats e avg d site specialized False,
          ov_lowest_units = take 5 (sort_key (\<lambda>x. the (us_avg x)) (filter (\<lambda>x. us_avg x \<noteq> None) units)),
          ov_lowest_people = lowest_people d site\<rparr>)"

section \<open>Pipeline, periods, stages, contracts\<close>

record pipeline_stat =
  pl_status :: evaluation_status
  pl_count :: nat
  pl_oldest :: "moment option"

definition pipeline :: "db \<Rightarrow> current_user \<Rightarrow> pipeline_stat list result" where
  "pipeline d u = bindE (require_roles [hr] u) (\<lambda>_. Inr (map (\<lambda>s.
     let rs = filter (\<lambda>r. er_status r = s) (records d) in
     \<lparr>pl_status = s, pl_count = length rs,
      pl_oldest = (if rs = [] then None else Some (Min (set (map er_created_at rs))))\<rparr>) STAGE_ORDER))"

record period_point =
  pp_period :: "int option"
  pp_name :: "ustr option"
  pp_starts :: "date option"
  pp_avg :: "rat option"
  pp_count :: nat

text \<open>The cases without a period come last, in a row without a name.\<close>

definition period_trend :: "env \<Rightarrow> (rat list \<Rightarrow> rat) \<Rightarrow> db \<Rightarrow> current_user \<Rightarrow> ustr option \<Rightarrow> period_point list result" where
  "period_trend e avg d u site = bindE (require_roles [hr] u) (\<lambda>_. Inr (map (\<lambda>(k, rows).
     \<lparr>pp_period = map_option ep_id k,
      pp_name = (case k of Some p \<Rightarrow> if ep_name p = [] then None else Some (ep_name p) | None \<Rightarrow> None),
      pp_starts = map_option ep_starts_on k,
      pp_avg = suppressed_avg e (rounded 1 (sql_avg avg (map er_final_pct rows))) (int (length rows)),
      pp_count = length rows\<rparr>)
     (nulls_last fst (sort_key (\<lambda>g. ep_starts_on (the (fst g))))
       (group_by (\<lambda>r. Option.bind (er_period r) (get_period d)) (with_result (final_in d site))))))"

definition stage_statistics :: "env \<Rightarrow> db \<Rightarrow> current_user \<Rightarrow> stage_stat list result" where
  "stage_statistics e d u = bindE (require_roles [hr] u) (\<lambda>_. Inr (stage_stats e d))"

record ending_contract =
  ec_person :: int
  ec_name :: ustr
  ec_unit :: ustr
  ec_end :: date
  ec_days :: int
  ec_has_open :: bool

definition expiring_contracts :: "env \<Rightarrow> db \<Rightarrow> current_user \<Rightarrow> int \<Rightarrow> ending_contract list result" where
  "expiring_contracts e d u n = bindE (require_roles [hr] u) (\<lambda>_.
     bindE (require (1 \<le> n \<and> n \<le> 365) (HTTPException 422 ''invalid number of days'')) (\<lambda>_. Inr (map (\<lambda>p.
       \<lparr>ec_person = p_id p, ec_name = p_full_name p, ec_unit = p_org_unit p, ec_end = p_contract_end p,
        ec_days = p_contract_end p - today e, ec_has_open = (\<exists>r\<in>set (records d). er_subject r = p_id p \<and> is_open r)\<rparr>)
       (sort_key p_contract_end (filter (\<lambda>p. p_status p = p_active \<and> p_contract_end p \<le> today e + n) (personnels d))))))"

section \<open>One person\<close>

definition person_guard :: "db \<Rightarrow> current_user \<Rightarrow> int \<Rightarrow> unit result" where
  "person_guard d u k = require (can_view_personnel d k u) (HTTPException 403 ''not allowed'')"

definition personnel_radar :: "(rat list \<Rightarrow> rat) \<Rightarrow> db \<Rightarrow> current_user \<Rightarrow> int \<Rightarrow> (ustr \<times> rat) list result" where
  "personnel_radar avg d u k = bindE (person_guard d u k) (\<lambda>_.
     Inr (map (\<lambda>(c, rows). (c, py_round 2 (fl (score_avg avg rows))))
       (group_by (\<lambda>p. in_category (fst p)) (scored_questions d (filter (\<lambda>r. er_subject r = k) (finalized_cases d))))))"

record trend_point =
  tp_code :: string
  tp_finalized :: string
  tp_final :: rat

text \<open>\<open>float(None)\<close> raises.\<close>

definition trend_point_of :: "evaluation_record \<Rightarrow> trend_point list \<Rightarrow> trend_point list result" where
  "trend_point_of r ps = (case er_final_pct r of
     None \<Rightarrow> Inl (Uncaught TypeError)
   | Some x \<Rightarrow> Inr (ps @ [\<lparr>tp_code = er_code r, tp_finalized = iso_moment (the (er_finalized_at r)), tp_final = fl x\<rparr>]))"

definition personnel_trend :: "db \<Rightarrow> current_user \<Rightarrow> int \<Rightarrow> trend_point list result" where
  "personnel_trend d u k = bindE (person_guard d u k) (\<lambda>_.
     foldE trend_point_of (sort_key (\<lambda>r. the (er_finalized_at r))
       (filter (\<lambda>r. er_subject r = k \<and> er_finalized_at r \<noteq> None) (finalized_cases d))) [])"

record running_case =
  rc_id :: int
  rc_code :: string
  rc_status :: evaluation_status
  rc_was_returned :: bool
  rc_created_at :: moment

definition personnel_in_progress :: "db \<Rightarrow> current_user \<Rightarrow> int \<Rightarrow> running_case option result" where
  "personnel_in_progress d u k = bindE (person_guard d u k) (\<lambda>_. Inr (
     case sort_key (\<lambda>r. - er_created_at r) (filter (\<lambda>r. er_subject r = k \<and> is_open r) (records d)) of
       [] \<Rightarrow> None
     | r # _ \<Rightarrow> Some \<lparr>rc_id = er_id r, rc_code = er_code r, rc_status = er_status r,
         rc_was_returned = (\<exists>l\<in>set (audits d). al_event l = ''evaluation_returned'' \<and> al_record l = Some (er_id r)),
         rc_created_at = er_created_at r\<rparr>))"

section \<open>The cards of a role\<close>

record card =
  cd_key :: string
  cd_value :: rat

definition count_records :: "db \<Rightarrow> (evaluation_record \<Rightarrow> bool) \<Rightarrow> rat" where
  "count_records d P = of_nat (length (filter P (records d)))"

definition supervisor_cards :: "db \<Rightarrow> int \<Rightarrow> card list" where
  "supervisor_cards d k =
     (let mine = (\<lambda>r. er_supervisor r = Some k) in
      [\<lparr>cd_key = ''subordinates'', cd_value = of_nat (length (filter (\<lambda>a. ea_supervisor a = Some k) (accesses d)))\<rparr>,
       \<lparr>cd_key = ''drafts'', cd_value = count_records d (\<lambda>r. mine r \<and> er_status r = draft)\<rparr>,
       \<lparr>cd_key = ''in_review'',
        cd_value = count_records d (\<lambda>r. mine r \<and> er_status r \<in> set [submitted, hr_approved, deputy_approved])\<rparr>,
       \<lparr>cd_key = ''finalized'', cd_value = count_records d (\<lambda>r. mine r \<and> er_status r = finalized)\<rparr>])"

definition deputy_cards :: "db \<Rightarrow> int \<Rightarrow> card list" where
  "deputy_cards d k =
     (let mine = (\<lambda>r. er_deputy r = Some k) in
      [\<lparr>cd_key = ''awaiting_me'',
        cd_value = count_records d (\<lambda>r. mine r \<and> er_status r = hr_approved \<and> er_supervisor r \<noteq> None)\<rparr>,
       \<lparr>cd_key = ''manager_scoring'',
        cd_value = count_records d (\<lambda>r. mine r \<and> er_status r = hr_approved \<and> er_supervisor r = None)\<rparr>,
       \<lparr>cd_key = ''finalized'', cd_value = count_records d (\<lambda>r. mine r \<and> er_status r = finalized)\<rparr>])"

definition ceo_cards :: "db \<Rightarrow> int \<Rightarrow> card list" where
  "ceo_cards d k =
     (let mine = (\<lambda>r. er_ceo r = k) in
      [\<lparr>cd_key = ''awaiting_me'', cd_value = count_records d (\<lambda>r. mine r \<and> er_status r = deputy_approved)\<rparr>,
       \<lparr>cd_key = ''finalized'', cd_value = count_records d (\<lambda>r. mine r \<and> er_status r = finalized)\<rparr>,
       \<lparr>cd_key = ''total'', cd_value = count_records d mine\<rparr>])"

definition hr_cards :: "db \<Rightarrow> card list" where
  "hr_cards d =
     (let eligible = length (filter (\<lambda>p. p_status p = p_active) (personnels d));
          covered = length (first_seen (map er_subject (finalized_cases d)))
      in [\<lparr>cd_key = ''eligible'', cd_value = of_nat eligible\<rparr>,
          \<lparr>cd_key = ''awaiting_hr'', cd_value = count_records d (\<lambda>r. er_status r = submitted)\<rparr>,
          \<lparr>cd_key = ''finalized'', cd_value = of_nat (length (finalized_cases d))\<rparr>,
          \<lparr>cd_key = ''completion'', cd_value = (if eligible = 0 then 0 else percent_of covered eligible)\<rparr>])"

definition employee_cards :: "(rat list \<Rightarrow> rat) \<Rightarrow> db \<Rightarrow> int \<Rightarrow> card list" where
  "employee_cards avg d k =
     (let mine = (\<lambda>r. er_subject r = k \<and> er_status r = finalized) in
      [\<lparr>cd_key = ''finalized'', cd_value = count_records d mine\<rparr>,
       \<lparr>cd_key = ''avg'', cd_value = (case rounded 1 (sql_avg avg (map er_final_pct (filter mine (records d)))) of
          None \<Rightarrow> 0 | Some x \<Rightarrow> x)\<rparr>,
       \<lparr>cd_key = ''pending_ack'', cd_value = count_records d (\<lambda>r. mine r \<and> er_acknowledged_at r = None)\<rparr>])"

definition role_overview :: "(rat list \<Rightarrow> rat) \<Rightarrow> db \<Rightarrow> current_user \<Rightarrow> (user_role \<times> card list) result" where
  "role_overview avg d u =
     (if cu_role u = employee \<and> \<not> is_module_enabled d ''employee_overview_cards''
      then Inl (HTTPException 403 ''the cards of employees are switched off'')
      else Inr (cu_role u, (case cu_role u of
         unit_supervisor \<Rightarrow> supervisor_cards d (cu_id u)
       | deputy \<Rightarrow> deputy_cards d (cu_id u)
       | ceo \<Rightarrow> ceo_cards d (cu_id u)
       | hr \<Rightarrow> hr_cards d
       | employee \<Rightarrow> (case cu_personnel_id u of None \<Rightarrow> [] | Some k \<Rightarrow> employee_cards avg d k))))"

end
