(* ===== verification/Analytics.thy ===== *)
theory Analytics
  imports Dashboard
begin

text \<open>
  The pages of \<open>routers/analytics.py\<close>: the mirror of an evaluator, who compares the own scores with those of the
  others, and the executive view, which has no names. The lemmas say on what each of them may depend.
\<close>

section \<open>Three-valued conditions\<close>

text \<open>A comparison with \<open>NULL\<close> is unknown; a row is selected when its condition is true.\<close>

type_synonym tri = "bool option"

definition sql_eq :: "'a option \<Rightarrow> 'a \<Rightarrow> tri" where
  "sql_eq v x = map_option (\<lambda>y. y = x) v"

definition sql_not :: "tri \<Rightarrow> tri" where
  "sql_not = map_option Not"

definition sql_and :: "tri \<Rightarrow> tri \<Rightarrow> tri" where
  "sql_and a b = (if a = Some False \<or> b = Some False then Some False else if a = Some True \<and> b = Some True then Some True else None)"

definition sql_or :: "tri \<Rightarrow> tri \<Rightarrow> tri" where
  "sql_or a b = sql_not (sql_and (sql_not a) (sql_not b))"

definition is_null :: "'a option \<Rightarrow> tri" where
  "is_null v = Some (v = None)"

section \<open>Order statistics\<close>

definition median :: "rat list \<Rightarrow> rat option" where
  "median xs = (if xs = [] then None
     else let m = length xs div 2 in
       if odd (length xs) then Some (xs ! m) else Some (fl (fl (xs ! (m - 1) + xs ! m) / 2)))"

definition percentile :: "rat list \<Rightarrow> rat \<Rightarrow> rat option" where
  "percentile xs q = (if xs = [] then None
     else Some (xs ! min (length xs - 1) (nat (rne (fl (fl q * of_nat (length xs - 1)))))))"

section \<open>The mirror of an evaluator\<close>

text \<open>The cases scored by the user; the condition is unknown for some cases without a supervisor.\<close>

definition mine :: "current_user \<Rightarrow> evaluation_record \<Rightarrow> tri" where
  "mine u r = (if cu_role u = deputy
     then sql_or (sql_eq (er_supervisor r) (cu_id u)) (sql_and (is_null (er_supervisor r)) (sql_eq (er_deputy r) (cu_id u)))
     else sql_eq (er_supervisor r) (cu_id u))"

text \<open>Score rows with their cases, of the cases that meet the condition.\<close>

definition scores_where :: "db \<Rightarrow> (evaluation_record \<Rightarrow> tri) \<Rightarrow> (evaluation_score \<times> evaluation_record) list" where
  "scores_where d c = concat (map (\<lambda>s. case get_record d (es_record s) of
       None \<Rightarrow> []
     | Some r \<Rightarrow> if er_status r = finalized \<and> c r = Some True then [(s, r)] else []) (scores d))"

definition my_scores :: "db \<Rightarrow> current_user \<Rightarrow> (evaluation_score \<times> evaluation_record) list" where
  "my_scores d u = scores_where d (mine u)"

definition other_scores :: "db \<Rightarrow> current_user \<Rightarrow> (evaluation_score \<times> evaluation_record) list" where
  "other_scores d u = scores_where d (\<lambda>r. sql_not (mine u r))"

definition people_of :: "(evaluation_score \<times> evaluation_record) list \<Rightarrow> nat" where
  "people_of rows = length (first_seen (map (\<lambda>p. er_subject (snd p)) rows))"

definition avg_score :: "(rat list \<Rightarrow> rat) \<Rightarrow> (evaluation_score \<times> evaluation_record) list \<Rightarrow> rat option" where
  "avg_score avg rows = rounded 2 (sql_avg avg (map (\<lambda>p. Some (of_int (es_score (fst p)))) rows))"

record score_share =
  sh_score :: int
  sh_mine :: nat
  sh_my_share :: rat
  sh_org_share :: "rat option"

definition with_score :: "int \<Rightarrow> (evaluation_score \<times> evaluation_record) list \<Rightarrow> nat" where
  "with_score n rows = length (filter (\<lambda>p. es_score (fst p) = n) rows)"

definition score_distribution ::
  "env \<Rightarrow> (evaluation_score \<times> evaluation_record) list \<Rightarrow> (evaluation_score \<times> evaluation_record) list \<Rightarrow> score_share list" where
  "score_distribution e my others = map (\<lambda>n.
     \<lparr>sh_score = n, sh_mine = with_score n my,
      sh_my_share = (if my = [] then 0 else percent_of (with_score n my) (length my)),
      sh_org_share = (if others = [] \<or> is_below_cohort e (int (people_of others)) then None
        else Some (percent_of (with_score n others) (length others)))\<rparr>) [1..5]"

record indicator_gap =
  gp_indicator :: int
  gp_category :: ustr
  gp_description :: ustr
  gp_my_avg :: "rat option"
  gp_org_avg :: "rat option"
  gp_my_count :: nat

definition on_question :: "int \<Rightarrow> (evaluation_score \<times> evaluation_record) list \<Rightarrow> (evaluation_score \<times> evaluation_record) list" where
  "on_question k = filter (\<lambda>p. es_indicator (fst p) = k)"

definition org_avg_on :: "env \<Rightarrow> (rat list \<Rightarrow> rat) \<Rightarrow> (evaluation_score \<times> evaluation_record) list \<Rightarrow> rat option" where
  "org_avg_on e avg rows = suppressed_avg e (avg_score avg rows) (int (people_of rows))"

definition questions_in_order :: "db \<Rightarrow> indicator list" where
  "questions_in_order d = sort_key (\<lambda>i. if in_section i = general then 0 else 1 :: nat) (sort_key in_order (indicators d))"

text \<open>The widest gap first, the questions without a comparison last.\<close>

definition gap_key :: "indicator_gap \<Rightarrow> rat" where
  "gap_key g = (case gp_org_avg g of None \<Rightarrow> -1
     | Some x \<Rightarrow> \<bar>fl ((case gp_my_avg g of None \<Rightarrow> 0 | Some y \<Rightarrow> y) - x)\<bar>)"

definition indicator_gaps ::
  "env \<Rightarrow> (rat list \<Rightarrow> rat) \<Rightarrow> db \<Rightarrow> (evaluation_score \<times> evaluation_record) list \<Rightarrow>
   (evaluation_score \<times> evaluation_record) list \<Rightarrow> indicator_gap list" where
  "indicator_gaps e avg d my others = sort_desc gap_key (map (\<lambda>i.
     \<lparr>gp_indicator = in_id i, gp_category = in_category i, gp_description = in_description i,
      gp_my_avg = avg_score avg (on_question (in_id i) my),
      gp_org_avg = org_avg_on e avg (on_question (in_id i) others),
      gp_my_count = length (on_question (in_id i) my)\<rparr>)
     (filter (\<lambda>i. on_question (in_id i) my \<noteq> []) (questions_in_order d)))"

text \<open>\<open>trim\<close> takes away spaces only.\<close>

definition has_evidence :: "evaluation_score \<Rightarrow> bool" where
  "has_evidence s \<longleftrightarrow> (case es_evidence s of None \<Rightarrow> False | Some t \<Rightarrow> \<exists>c\<in>set t. c \<noteq> 32)"

record scoring_profile =
  sp_count :: nat
  sp_avg :: "rat option"
  sp_org_avg :: "rat option"
  sp_org_people :: nat
  sp_distribution :: "score_share list"
  sp_gaps :: "indicator_gap list"
  sp_evidence_rate :: "rat option"
  sp_median_days :: "rat option"
  sp_open :: nat

definition my_scoring_profile :: "env \<Rightarrow> (rat list \<Rightarrow> rat) \<Rightarrow> db \<Rightarrow> current_user \<Rightarrow> scoring_profile result" where
  "my_scoring_profile e avg d u = bindE (require_roles [unit_supervisor, deputy] u) (\<lambda>_.
     let my = my_scores d u; others = other_scores d u;
         open_mine = filter (\<lambda>r. is_open r \<and> mine u r = Some True \<and> er_status r = draft) (records d);
         waiting = sort (map (\<lambda>r. fl (total_seconds (now e - er_stage_entered_at r) / 86400)) open_mine)
     in Inr \<lparr>sp_count = length my, sp_avg = avg_score avg my,
          sp_org_avg = suppressed_avg e (avg_score avg others) (int (people_of others)),
          sp_org_people = people_of others, sp_distribution = score_distribution e my others,
          sp_gaps = indicator_gaps e avg d my others,
          sp_evidence_rate = (if my = [] then None
            else Some (percent_of (length (filter (\<lambda>p. has_evidence (fst p)) my)) (length my))),
          sp_median_days = rounded 1 (median waiting), sp_open = length open_mine\<rparr>)"

section \<open>The executive view\<close>

record unit_performance =
  up_unit :: ustr
  up_avg :: "rat option"
  up_count :: nat

text \<open>Unit, average and count, the best unit first.\<close>

definition unit_rows :: "(rat list \<Rightarrow> rat) \<Rightarrow> db \<Rightarrow> (ustr \<times> rat \<times> nat) list" where
  "unit_rows avg d = sort_desc (\<lambda>(u, a, n). a) (map (\<lambda>(u, rows).
     (u, avg (map (\<lambda>p. the (er_final_pct (snd p))) rows), length rows))
     (group_by (\<lambda>p. p_org_unit (fst p)) (with_person d (with_result (finalized_cases d)))))"

record site_performance =
  sf_site :: ustr
  sf_avg :: "rat option"
  sf_count :: nat

text \<open>The running total of a site in floats: the averages of its units times their counts.\<close>

definition add_unit :: "rat \<times> nat \<Rightarrow> rat \<times> nat \<Rightarrow> rat \<times> nat" where
  "add_unit b x = (fl (fst b + fl (fl (fst x) * of_nat (snd x))), snd b + snd x)"

definition site_totals :: "(ustr \<times> rat \<times> nat) list \<Rightarrow> (ustr \<times> rat \<times> nat) list" where
  "site_totals rows = map (\<lambda>(s, us). (the s, foldl add_unit (0, 0) (map snd us)))
     (filter (\<lambda>g. fst g \<noteq> None) (group_by (\<lambda>x. site_of (fst x)) rows))"

definition site_performances :: "env \<Rightarrow> (ustr \<times> rat \<times> nat) list \<Rightarrow> site_performance list" where
  "site_performances e rows = map (\<lambda>(s, total, n).
     \<lparr>sf_site = s, sf_avg = suppressed_avg e (Some (py_round 1 (fl (total / of_nat n)))) (int n), sf_count = n\<rparr>)
     (sort_desc (\<lambda>(s, total, n). fl (total / of_nat n)) (site_totals rows))"

record recommendation_slice =
  rs_label :: ustr
  rs_count :: nat
  rs_share :: rat
  rs_band :: "nat option"

text \<open>The position of a label in the active scheme; of two equal labels the last counts.\<close>

definition band_of :: "rules \<Rightarrow> ustr \<Rightarrow> nat option" where
  "band_of r = map_of (rev (zip (map snd (r_thresholds r)) [0..<length (r_thresholds r)]))"

definition recommendation_mix :: "db \<Rightarrow> recommendation_slice list" where
  "recommendation_mix d =
     (let rows = map (\<lambda>(l, rs). (the l, length rs))
            (group_by er_recommendation (filter (\<lambda>r. er_recommendation r \<noteq> None) (finalized_cases d)));
          total = sum_list (map snd rows); band = band_of (current_rules d);
          place = (\<lambda>l. case band l of Some i \<Rightarrow> i | None \<Rightarrow> card (set (map snd (r_thresholds (current_rules d)))))
      in map (\<lambda>(l, n). \<lparr>rs_label = l, rs_count = n, rs_share = percent_of n total, rs_band = band l\<rparr>)
           (sort_key (\<lambda>(l, n). place l) (sort_key (\<lambda>(l, n). - int n) rows)))"

record cycle_time =
  ct_count :: nat
  ct_median :: "rat option"
  ct_p90 :: "rat option"
  ct_oldest :: "rat option"
  ct_open :: nat

definition days_between :: "moment \<Rightarrow> moment \<Rightarrow> rat" where
  "days_between a b = fl (total_seconds (b - a) / 86400)"

definition cycle_time_of :: "env \<Rightarrow> db \<Rightarrow> cycle_time" where
  "cycle_time_of e d =
     (let durations = sort (map (\<lambda>r. days_between (er_created_at r) (the (er_finalized_at r)))
            (filter (\<lambda>r. er_finalized_at r \<noteq> None) (finalized_cases d)));
          ages = sort (map (\<lambda>r. days_between (er_stage_entered_at r) (now e)) (filter is_open (records d)))
      in \<lparr>ct_count = length durations, ct_median = rounded 1 (median durations),
          ct_p90 = rounded 1 (percentile durations (9/10)),
          ct_oldest = (if ages = [] then None else rounded 1 (Some (last ages))), ct_open = length ages\<rparr>)"

record contract_exposure =
  cx_days :: int
  cx_expiring :: nat
  cx_uncovered :: nat

definition EXPOSURE_HORIZONS :: "int list" where
  "EXPOSURE_HORIZONS = [30, 60, 90]"

definition exposure_within :: "env \<Rightarrow> db \<Rightarrow> int \<Rightarrow> contract_exposure" where
  "exposure_within e d n =
     (let ps = filter (\<lambda>p. p_status p = p_active \<and> p_contract_end p \<le> today e + n) (personnels d)
      in \<lparr>cx_days = n, cx_expiring = length ps,
          cx_uncovered = length (filter (\<lambda>p. \<not> (\<exists>r\<in>set (finalized_cases d). er_subject r = p_id p)) ps)\<rparr>)"

record executive =
  ex_total :: nat
  ex_avg :: "rat option"
  ex_units :: "unit_performance list"
  ex_sites :: "site_performance list"
  ex_mix :: "recommendation_slice list"
  ex_cycle :: cycle_time
  ex_exposure :: "contract_exposure list"

definition executive_overview :: "env \<Rightarrow> (rat list \<Rightarrow> rat) \<Rightarrow> db \<Rightarrow> current_user \<Rightarrow> executive result" where
  "executive_overview e avg d u = bindE (require_roles [ceo, deputy] u) (\<lambda>_.
     let total = length (finalized_cases d); rows = unit_rows avg d in
     Inr \<lparr>ex_total = total,
          ex_avg = suppressed_avg e (rounded 1 (sql_avg avg (map er_final_pct (finalized_cases d)))) (int total),
          ex_units = map (\<lambda>(un, a, n). \<lparr>up_unit = un, up_avg = suppressed_avg e (rounded 1 (Some a)) (int n), up_count = n\<rparr>) rows,
          ex_sites = site_performances e rows, ex_mix = recommendation_mix d,
          ex_cycle = cycle_time_of e d, ex_exposure = map (exposure_within e d) EXPOSURE_HORIZONS\<rparr>)"

end
