(* ===== verification/Reports.thy ===== *)
theory Reports
  imports Dashboard Workbooks Inbox
begin

text \<open>
  The reports of \<open>routers/reports.py\<close>: one set of filters, the summary of the finished cases that pass them, one
  question, one person against the own unit, and the workbook with its row in the log. \<open>midnight\<close> is the moment at
  which the database lets a day begin.
\<close>

section \<open>The filters\<close>

record report_filter =
  rf_period :: "int option"
  rf_unit :: "ustr option"
  rf_person :: "int option"
  rf_from :: "date option"
  rf_to :: "date option"
  rf_status :: "personnel_status option"
  rf_end_from :: "date option"
  rf_end_to :: "date option"

text \<open>The range is checked when the filters are read, before anybody looks at who is asking.\<close>

definition check_filter :: "report_filter \<Rightarrow> unit result" where
  "check_filter f = require (case (rf_from f, rf_to f) of (Some a, Some b) \<Rightarrow> a \<le> b | _ \<Rightarrow> True)
     (HTTPException 400 ''the range ends before it begins'')"

text \<open>The day after the last one that a \<open>date\<close> can hold does not exist.\<close>

definition LAST_DAY :: date where
  "LAST_DAY = 3652059"

definition day_after :: "date option \<Rightarrow> date option result" where
  "day_after v = (case v of None \<Rightarrow> Inr None
   | Some n \<Rightarrow> if n = LAST_DAY then Inl (Uncaught OverflowError) else Inr (Some (n + 1)))"

definition in_range :: "(date \<Rightarrow> moment) \<Rightarrow> int option \<Rightarrow> date option \<Rightarrow> date option \<Rightarrow> evaluation_record \<Rightarrow> bool" where
  "in_range midnight period from before r \<longleftrightarrow>
     opt_holds (\<lambda>k. er_period r = Some k) period \<and>
     opt_holds (\<lambda>n. midnight n \<le> er_created_at r) from \<and>
     opt_holds (\<lambda>n. er_created_at r < midnight n) before"

definition passes_report :: "(date \<Rightarrow> moment) \<Rightarrow> report_filter \<Rightarrow> date option \<Rightarrow> personnel \<times> evaluation_record \<Rightarrow> bool" where
  "passes_report midnight f before q = (case q of (p, r) \<Rightarrow>
     in_range midnight (rf_period f) (rf_from f) before r \<and>
     opt_holds (\<lambda>s. s = [] \<or> p_org_unit p = s) (rf_unit f) \<and>
     opt_holds (\<lambda>k. er_subject r = k) (rf_person f) \<and>
     opt_holds (\<lambda>s. p_status p = s) (rf_status f) \<and>
     opt_holds (\<lambda>n. n \<le> p_contract_end p) (rf_end_from f) \<and>
     opt_holds (\<lambda>n. p_contract_end p \<le> n) (rf_end_to f))"

definition report_rows :: "(date \<Rightarrow> moment) \<Rightarrow> db \<Rightarrow> report_filter \<Rightarrow> (personnel \<times> evaluation_record) list result" where
  "report_rows midnight d f = bindE (day_after (rf_to f)) (\<lambda>before.
     Inr (filter (passes_report midnight f before) (with_person d (finalized_cases d))))"

section \<open>The summary\<close>

record unit_average =
  ua_unit :: ustr
  ua_avg :: "rat option"
  ua_count :: nat

record question_average =
  qa_indicator :: int
  qa_category :: ustr
  qa_description :: ustr
  qa_section :: indicator_section
  qa_avg :: "rat option"
  qa_count :: nat

record report_summary =
  sm_total :: nat
  sm_avg :: "rat option"
  sm_units :: "unit_average list"
  sm_questions :: "question_average list"

text \<open>Blanked for a small group, unless the reader has named the person.\<close>

definition overall :: "env \<Rightarrow> report_filter \<Rightarrow> rat option \<Rightarrow> nat \<Rightarrow> rat option" where
  "overall e f v n = (if rf_person f = None then suppressed_avg e v (int n) else v)"

definition unit_averages ::
  "env \<Rightarrow> (rat list \<Rightarrow> rat) \<Rightarrow> nat \<Rightarrow> (ustr \<times> rat) list \<Rightarrow> unit_average list" where
  "unit_averages e avg digits rows = map (\<lambda>(u, xs).
     \<lparr>ua_unit = u, ua_avg = suppressed_avg e (rounded digits (Some (avg (map snd xs)))) (int (length xs)), ua_count = length xs\<rparr>)
     (sort_desc (\<lambda>g. avg (map snd (snd g))) (group_by fst rows))"

definition question_averages :: "env \<Rightarrow> (rat list \<Rightarrow> rat) \<Rightarrow> (indicator \<times> evaluation_score) list \<Rightarrow> question_average list" where
  "question_averages e avg rows = map (\<lambda>(i, xs).
     \<lparr>qa_indicator = in_id i, qa_category = in_category i, qa_description = in_description i, qa_section = in_section i,
      qa_avg = suppressed_avg e (rounded 2 (Some (score_avg avg xs))) (int (length xs)), qa_count = length xs\<rparr>)
     (sort_key (\<lambda>g. if in_section (fst g) = general then 0 else 1 :: nat)
       (sort_key (\<lambda>g. in_order (fst g)) (group_by fst rows)))"

definition summary_data :: "env \<Rightarrow> (rat list \<Rightarrow> rat) \<Rightarrow> (date \<Rightarrow> moment) \<Rightarrow> db \<Rightarrow> report_filter \<Rightarrow> report_summary result" where
  "summary_data e avg midnight d f = bindE (report_rows midnight d f) (\<lambda>rows.
     Inr \<lparr>sm_total = length rows,
          sm_avg = overall e f (rounded 1 (sql_avg avg (map (\<lambda>q. er_final_pct (snd q)) rows))) (length rows),
          sm_units = unit_averages e avg 1 (map (\<lambda>(p, r). (p_org_unit p, the (er_final_pct r)))
            (filter (\<lambda>q. er_final_pct (snd q) \<noteq> None) rows)),
          sm_questions = question_averages e avg (scored_questions d (map snd rows))\<rparr>)"

definition report_summary_of ::
  "env \<Rightarrow> (rat list \<Rightarrow> rat) \<Rightarrow> (date \<Rightarrow> moment) \<Rightarrow> db \<Rightarrow> current_user \<Rightarrow> report_filter \<Rightarrow> report_summary result" where
  "report_summary_of e avg midnight d u f = bindE (check_filter f) (\<lambda>_.
     bindE (require_roles [hr] u) (\<lambda>_. summary_data e avg midnight d f))"

section \<open>One question\<close>

record breakdown =
  bd_indicator :: int
  bd_category :: ustr
  bd_description :: ustr
  bd_avg :: "rat option"
  bd_count :: nat
  bd_units :: "unit_average list"

definition indicator_breakdown ::
  "env \<Rightarrow> (rat list \<Rightarrow> rat) \<Rightarrow> (date \<Rightarrow> moment) \<Rightarrow> db \<Rightarrow> current_user \<Rightarrow> int \<Rightarrow> report_filter \<Rightarrow> breakdown result" where
  "indicator_breakdown e avg midnight d u k f = bindE (check_filter f) (\<lambda>_. bindE (require_roles [hr] u) (\<lambda>_.
     case get_indicator d k of
       None \<Rightarrow> Inl (HTTPException 404 ''question not found'')
     | Some i \<Rightarrow> bindE (report_rows midnight d f) (\<lambda>rows.
         let xs = concat (map (\<lambda>s. map (\<lambda>q. (p_org_unit (fst q), of_int (es_score s)))
                (filter (\<lambda>q. er_id (snd q) = es_record s) rows)) (filter (\<lambda>s. es_indicator s = k) (scores d)))
         in Inr \<lparr>bd_indicator = in_id i, bd_category = in_category i, bd_description = in_description i,
              bd_avg = overall e f (rounded 2 (sql_avg avg (map (\<lambda>x. Some (snd x)) xs))) (length xs),
              bd_count = length xs, bd_units = unit_averages e avg 2 xs\<rparr>)))"

section \<open>One person against the own unit\<close>

record comparison =
  cm_person :: int
  cm_name :: ustr
  cm_unit :: ustr
  cm_own_avg :: "rat option"
  cm_unit_avg :: "rat option"
  cm_count :: nat
  cm_unit_count :: nat
  cm_points :: "trend_point list"

definition point_of :: "evaluation_record \<Rightarrow> trend_point" where
  "point_of r = \<lparr>tp_code = er_code r,
     tp_finalized = (case er_finalized_at r of None \<Rightarrow> [] | Some t \<Rightarrow> iso_moment t), tp_final = fl (the (er_final_pct r))\<rparr>"

definition employee_vs_unit ::
  "env \<Rightarrow> (rat list \<Rightarrow> rat) \<Rightarrow> (date \<Rightarrow> moment) \<Rightarrow> db \<Rightarrow> current_user \<Rightarrow> int \<Rightarrow> int option \<Rightarrow> date option \<Rightarrow> date option \<Rightarrow>
     comparison result" where
  "employee_vs_unit e avg midnight d u k period from til = bindE (require_roles [hr] u) (\<lambda>_.
     case get_personnel d k of
       None \<Rightarrow> Inl (HTTPException 404 ''person not found'')
     | Some p \<Rightarrow> bindE (day_after til) (\<lambda>before.
         let rows = filter (in_range midnight period from before) (with_result (finalized_cases d));
             own = nulls_last er_finalized_at (sort_key (\<lambda>r. the (er_finalized_at r))) (filter (\<lambda>r. er_subject r = k) rows);
             points = map point_of own;
             unit = filter (\<lambda>q. p_org_unit (fst q) = p_org_unit p) (with_person d rows)
         in Inr \<lparr>cm_person = p_id p, cm_name = p_full_name p, cm_unit = p_org_unit p,
              cm_own_avg = (if points = [] then None
                else Some (py_round 1 (fl (float_sum (map tp_final points) / of_nat (length points))))),
              cm_unit_avg = suppressed_avg e (rounded 1 (sql_avg avg (map (\<lambda>q. er_final_pct (snd q)) unit))) (int (length unit)),
              cm_count = length points, cm_unit_count = length unit, cm_points = points\<rparr>))"

section \<open>The workbook\<close>

text \<open>A float in a cell is a number; \<open>num_cell\<close> stands for the text that the file has of it.\<close>

definition num_cell :: "env \<Rightarrow> rat \<Rightarrow> cell" where
  "num_cell e x = Value (float_text e x)"

definition count_cell :: "nat \<Rightarrow> cell" where
  "count_cell n = Value (int_text (int n))"

definition SUPPRESSED :: ustr where
  "SUPPRESSED = 8212 # lit '' (fewer people than can be shown)''"

definition cell_or_suppressed :: "env \<Rightarrow> rat option \<Rightarrow> cell" where
  "cell_or_suppressed e v = (case v of None \<Rightarrow> Text SUPPRESSED | Some x \<Rightarrow> num_cell e x)"

text \<open>The three sheets, each without its line of titles.\<close>

definition report_sheets :: "env \<Rightarrow> report_summary \<Rightarrow> cell list list list" where
  "report_sheets e s = map (map (map neutralise))
     [[[Text (lit ''finished evaluations''), count_cell (sm_total s)], [Text (lit ''average''), cell_or_suppressed e (sm_avg s)]],
      map (\<lambda>x. [Text (ua_unit x), cell_or_suppressed e (ua_avg x), count_cell (ua_count x)]) (sm_units s),
      map (\<lambda>x. [Text (qa_category x), Text (qa_description x), cell_or_suppressed e (qa_avg x), count_cell (qa_count x)])
        (sm_questions s)]"

definition filter_json :: "report_filter \<Rightarrow> (string \<times> json) list" where
  "filter_json f = concat
     [case rf_period f of None \<Rightarrow> [] | Some k \<Rightarrow> [(''period_id'', JText (int_text k))],
      case rf_unit f of None \<Rightarrow> [] | Some s \<Rightarrow> [(''org_unit'', JText s)],
      case rf_person f of None \<Rightarrow> [] | Some k \<Rightarrow> [(''personnel_id'', JText (int_text k))],
      case rf_from f of None \<Rightarrow> [] | Some n \<Rightarrow> [(''created_from'', JStr (iso_date n))],
      case rf_to f of None \<Rightarrow> [] | Some n \<Rightarrow> [(''created_to'', JStr (iso_date n))],
      case rf_status f of None \<Rightarrow> []
      | Some s \<Rightarrow> [(''personnel_status'', JStr (if s = p_active then ''PersonnelStatus.active'' else ''PersonnelStatus.inactive''))],
      case rf_end_from f of None \<Rightarrow> [] | Some n \<Rightarrow> [(''contract_end_from'', JStr (iso_date n))],
      case rf_end_to f of None \<Rightarrow> [] | Some n \<Rightarrow> [(''contract_end_to'', JStr (iso_date n))]]"

definition export_report ::
  "env \<Rightarrow> (rat list \<Rightarrow> rat) \<Rightarrow> (date \<Rightarrow> moment) \<Rightarrow> current_user \<Rightarrow> report_filter \<Rightarrow> db \<Rightarrow> (cell list list list \<times> db) result" where
  "export_report e avg midnight u f d = bindE (report_summary_of e avg midnight d u f) (\<lambda>s.
     Inr (report_sheets e s, log_event e (cu_id u) ''report_excel_exported'' None None
       (Some (JObj [(''filters'', JObj (filter_json f)), (''row_count'', JInt (int (sm_total s)))])) d))"

end
