(* ===== verification/Sheets.thy ===== *)
theory Sheets
  imports Reports Plans
begin

text \<open>
  The remaining workbooks of \<open>services/excel.py\<close> as rows of cells: cases, accounts, the log and the plans. The
  personnel sheet is in Workbooks, the report in Reports. Arguments stand for what is not in the model:
  \<open>jalali_of\<close> for \<open>jdatetime\<close>, \<open>repr\<close> for the text Python makes of a dictionary, and the column \<open>created_at\<close> of
  accounts and plans. Every row goes through the guard against formulas.
\<close>

definition jalali_moment :: "(date \<Rightarrow> int \<times> int \<times> int) \<Rightarrow> moment \<Rightarrow> ustr" where
  "jalali_moment jalali_of t =
     (let minute = t div 60000000 mod 1440 in
      jalali_text jalali_of (Some (t div 86400000000 + 719163)) @ [32, 1587, 1575, 1593, 1578, 32] @
      persian_digits (pad_to 2 (minute div 60) @ [58] @ pad_to 2 (minute mod 60)))"

fun status_label :: "evaluation_status \<Rightarrow> ustr" where
  "status_label draft = lit ''draft''"
| "status_label submitted = lit ''submitted''"
| "status_label hr_approved = lit ''approved by human resources''"
| "status_label deputy_approved = lit ''approved by the deputy''"
| "status_label finalized = lit ''finalized''"
| "status_label cancelled = lit ''cancelled''"

definition optional_number :: "env \<Rightarrow> rat option \<Rightarrow> cell" where
  "optional_number e v = (case v of None \<Rightarrow> Blank | Some x \<Rightarrow> Value (float_text e (fl x)))"

definition evaluation_cells :: "env \<Rightarrow> (date \<Rightarrow> int \<times> int \<times> int) \<Rightarrow> personnel \<times> evaluation_record \<Rightarrow> cell list" where
  "evaluation_cells e jalali_of q = (case q of (p, r) \<Rightarrow> map neutralise
     [Text (lit (er_code r)), Text (p_full_name p), Text (p_org_unit p), Text (status_label (er_status r)),
      optional_number e (er_general_pct r), optional_number e (er_specialized_pct r),
      optional_number e (case er_bonus_points r of None \<Rightarrow> None | Some x \<Rightarrow> if x = 0 then None else Some x),
      optional_number e (er_final_pct r), Text (or_empty (er_recommendation r)),
      Text (jalali_moment jalali_of (er_created_at r)),
      Text (case er_finalized_at r of None \<Rightarrow> [] | Some t \<Rightarrow> jalali_moment jalali_of t)])"

definition evaluation_sheet :: "env \<Rightarrow> (date \<Rightarrow> int \<times> int \<times> int) \<Rightarrow> db \<Rightarrow> evaluation_record list \<Rightarrow> cell list list" where
  "evaluation_sheet e jalali_of d rs = map (evaluation_cells e jalali_of) (with_person d rs)"

fun role_label :: "user_role \<Rightarrow> ustr" where
  "role_label unit_supervisor = lit ''unit supervisor''"
| "role_label hr = lit ''human resources''"
| "role_label deputy = lit ''deputy''"
| "role_label ceo = lit ''chief executive''"
| "role_label employee = lit ''employee''"

definition linked_name :: "db \<Rightarrow> user \<Rightarrow> ustr option" where
  "linked_name d x = map_option p_full_name (Option.bind (u_personnel_id x) (get_personnel d))"

definition user_cells :: "(date \<Rightarrow> int \<times> int \<times> int) \<Rightarrow> (user \<Rightarrow> moment) \<Rightarrow> db \<Rightarrow> user \<Rightarrow> cell list" where
  "user_cells jalali_of created d x = map neutralise
     [Text (lit (u_username x)),
      Text (case linked_name d x of Some (c # cs) \<Rightarrow> c # cs | _ \<Rightarrow> display_name d x),
      Text (role_label (u_role x)), Text (lit (if u_is_active x then ''active'' else ''inactive'')),
      Text (or_empty (linked_name d x)), Text (jalali_moment jalali_of (created x))]"

definition user_sheet :: "(date \<Rightarrow> int \<times> int \<times> int) \<Rightarrow> (user \<Rightarrow> moment) \<Rightarrow> db \<Rightarrow> user list \<Rightarrow> cell list list" where
  "user_sheet jalali_of created d xs = map (user_cells jalali_of created d) xs"

text \<open>An event without a label is shown by its name; an empty or missing payload is an empty cell.\<close>

definition payload_text :: "(json \<Rightarrow> ustr) \<Rightarrow> json option \<Rightarrow> ustr" where
  "payload_text repr v = (case v of None \<Rightarrow> [] | Some j \<Rightarrow> if truthy j then repr j else [])"

definition audit_cells ::
  "(date \<Rightarrow> int \<times> int \<times> int) \<Rightarrow> (json \<Rightarrow> ustr) \<Rightarrow> (string \<Rightarrow> ustr option) \<Rightarrow> audit_view \<Rightarrow> cell list" where
  "audit_cells jalali_of repr label v =
     (let l = vl_row v in map neutralise
     [Text (jalali_moment jalali_of (al_created_at l)),
      Text (case vl_name v of Some (c # cs) \<Rightarrow> c # cs | _ \<Rightarrow> 35 # int_text (al_actor l)),
      Text (case label (al_event l) of None \<Rightarrow> lit (al_event l) | Some t \<Rightarrow> t),
      Text (case vl_code v of None \<Rightarrow> [] | Some c \<Rightarrow> lit c),
      Text (payload_text repr (al_old l)), Text (payload_text repr (al_new l))])"

definition audit_sheet ::
  "(date \<Rightarrow> int \<times> int \<times> int) \<Rightarrow> (json \<Rightarrow> ustr) \<Rightarrow> (string \<Rightarrow> ustr option) \<Rightarrow> audit_view list \<Rightarrow> cell list list" where
  "audit_sheet jalali_of repr label vs = map (audit_cells jalali_of repr label) vs"

fun plan_status_label :: "plan_status \<Rightarrow> ustr" where
  "plan_status_label plan_open = lit ''open''"
| "plan_status_label plan_completed = lit ''completed''"
| "plan_status_label plan_cancelled = lit ''cancelled''"

definition plan_cells :: "(date \<Rightarrow> int \<times> int \<times> int) \<Rightarrow> (improvement_plan \<Rightarrow> moment) \<Rightarrow> db \<Rightarrow> plan_row \<Rightarrow> cell list" where
  "plan_cells jalali_of created d x =
     (let p = lr_plan x in map neutralise
     [Text (ip_title p), Text (personnel_name d (ip_personnel p)),
      Text (case lr_code x of None \<Rightarrow> [] | Some c \<Rightarrow> lit c), Text (plan_status_label (ip_status p)),
      Text (jalali_text jalali_of (Some (ip_review_date p))),
      Text (int_text (int (length (filter pg_done (lr_goals x)))) @ [47] @ int_text (int (length (lr_goals x)))),
      Text (or_empty (lr_owner x)), Text (jalali_moment jalali_of (created p))])"

definition plan_sheet :: "(date \<Rightarrow> int \<times> int \<times> int) \<Rightarrow> (improvement_plan \<Rightarrow> moment) \<Rightarrow> db \<Rightarrow> plan_row list \<Rightarrow> cell list list" where
  "plan_sheet jalali_of created d xs = map (plan_cells jalali_of created d) xs"

section \<open>No cell is a formula\<close>

definition inert :: "cell \<Rightarrow> bool" where
  "inert c \<longleftrightarrow> (case c of Text (x # xs) \<Rightarrow> x \<notin> set FORMULA_TRIGGERS | _ \<Rightarrow> True)"

lemma neutralise_inert [simp]: "inert (neutralise c)"
  by (auto simp: inert_def neutralise_def FORMULA_TRIGGERS_def split: cell.splits list.splits)

lemma neutralise_harmless: "inert c \<Longrightarrow> neutralise c = c"
  by (auto simp: inert_def neutralise_def split: cell.splits list.splits)

lemma map_neutralise_inert: "c \<in> set (map neutralise cs) \<Longrightarrow> inert c"
  by auto

end
