(* ===== verification/AnalyticsProperties.thy ===== *)
theory AnalyticsProperties
  imports Analytics Sheets Samples
begin

text \<open>The properties of the pages with figures: what they may depend on, and that they agree with each other.\<close>

section \<open>Small groups\<close>

lemma people_of_card: "people_of rows = card ((\<lambda>p. er_subject (snd p)) ` set rows)"
  unfolding people_of_def by (metis distinct_card first_seen_distinct first_seen_set list.set_map)

lemma people_of_filter: "people_of (filter P rows) \<le> people_of rows"
  unfolding people_of_card by (rule card_mono) auto

text \<open>The scores and the evidence of all cases that the user has not scored, replaced by others.\<close>

definition scored_by :: "db \<Rightarrow> current_user \<Rightarrow> evaluation_score \<Rightarrow> bool" where
  "scored_by d u s \<longleftrightarrow> (\<exists>r. get_record d (es_record s) = Some r \<and> mine u r = Some True)"

definition rescored ::
  "db \<Rightarrow> current_user \<Rightarrow> (evaluation_score \<Rightarrow> int \<times> ustr option) \<Rightarrow> evaluation_score \<Rightarrow> evaluation_score" where
  "rescored d u g s = (if scored_by d u s then s else s\<lparr>es_score := fst (g s), es_evidence := snd (g s)\<rparr>)"

definition others_rescored :: "db \<Rightarrow> current_user \<Rightarrow> (evaluation_score \<Rightarrow> int \<times> ustr option) \<Rightarrow> db" where
  "others_rescored d u g = d\<lparr>scores := map (rescored d u g) (scores d)\<rparr>"

lemma rescored_sel [simp]: "es_record (rescored d u g s) = es_record s" "es_indicator (rescored d u g s) = es_indicator s"
  by (simp_all add: rescored_def)

lemma rescored_tables [simp]: "get_record (others_rescored d u g) = get_record d" "records (others_rescored d u g) = records d"
  "indicators (others_rescored d u g) = indicators d"
  by (simp_all add: others_rescored_def get_record_def fun_eq_iff)

lemma scores_where_rescored:
  "scores_where (others_rescored d u g) c = map (\<lambda>p. (rescored d u g (fst p), snd p)) (scores_where d c)"
proof -
  have "concat (map (\<lambda>s. case get_record d (es_record s) of None \<Rightarrow> []
          | Some r \<Rightarrow> if er_status r = finalized \<and> c r = Some True then [(s, r)] else []) (map (rescored d u g) ss)) =
      map (\<lambda>p. (rescored d u g (fst p), snd p)) (concat (map (\<lambda>s. case get_record d (es_record s) of None \<Rightarrow> []
          | Some r \<Rightarrow> if er_status r = finalized \<and> c r = Some True then [(s, r)] else []) ss))" for ss
    by (induction ss) (auto split: option.split)
  then show ?thesis unfolding scores_where_def rescored_tables by (simp add: others_rescored_def)
qed

lemma my_scores_rescored: "my_scores (others_rescored d u g) u = my_scores d u"
proof -
  have "rescored d u g s = s" if "(s, r) \<in> set (my_scores d u)" for s r
    using that by (auto simp: my_scores_def scores_where_def rescored_def scored_by_def split: option.splits if_splits)
  then show ?thesis unfolding my_scores_def scores_where_rescored
    by (intro map_idI) (auto simp: my_scores_def)
qed

lemma people_of_rescored [simp]: "people_of (map (\<lambda>p. (h p, snd p)) rows) = people_of rows"
  by (simp add: people_of_def comp_def)

lemma org_avg_small:
  assumes "is_below_cohort e (int (people_of rows))"
  shows "org_avg_on e avg (on_question k rows) = None"
proof -
  have "people_of (on_question k rows) \<le> people_of rows" unfolding on_question_def by (rule people_of_filter)
  then show ?thesis using assms by (simp add: org_avg_on_def suppressed_avg_def is_below_cohort_def)
qed

text \<open>C18. The mirror of an evaluator hides a small group: as long as the others are fewer people than the cohort
  limit, nothing in the profile, neither the averages nor the distribution, the gaps, their order or the rates,
  depends on the scores and the evidence in the cases of the others.\<close>

theorem mirror_hides_small_groups:
  assumes "is_below_cohort e (int (people_of (other_scores d u)))"
  shows "my_scoring_profile e avg (others_rescored d u g) u = my_scoring_profile e avg d u"
proof -
  let ?d = "others_rescored d u g"
  have others: "other_scores ?d u = map (\<lambda>p. (rescored d u g (fst p), snd p)) (other_scores d u)"
    by (simp add: other_scores_def scores_where_rescored)
  then have people: "people_of (other_scores ?d u) = people_of (other_scores d u)" by simp
  then have small: "is_below_cohort e (int (people_of (other_scores ?d u)))" using assms by simp
  have "score_distribution e (my_scores d u) (other_scores ?d u) = score_distribution e (my_scores d u) (other_scores d u)"
    using assms small by (simp add: score_distribution_def)
  moreover have "indicator_gaps e avg ?d (my_scores d u) (other_scores ?d u) = indicator_gaps e avg d (my_scores d u) (other_scores d u)"
    using org_avg_small [OF assms] org_avg_small [OF small] by (simp add: indicator_gaps_def questions_in_order_def)
  ultimately show ?thesis
    using assms small people
    by (simp add: my_scoring_profile_def my_scores_rescored suppressed_avg_def Let_def)
qed

definition strict_db :: db where
  "strict_db = (demo_at finalized)\<lparr>records := [demo_case finalized, (demo_case finalized)\<lparr>er_id := 2, er_subject := 7, er_supervisor := Some 6\<rparr>],
     scores := [demo_score 1 4, (demo_score 2 2)\<lparr>es_record := 2\<rparr>]\<rparr>"

lemma strict_others: "other_scores strict_db demo_supervisor =
    [((demo_score 2 2)\<lparr>es_record := 2\<rparr>, (demo_case finalized)\<lparr>er_id := 2, er_subject := 7, er_supervisor := Some 6\<rparr>)]"
  by (simp add: other_scores_def scores_where_def strict_db_def get_record_def tbl_get_def demo_score_def mine_def sql_eq_def
      sql_not_def demo_supervisor_def)

theorem mirror_hides_small_groups_witness:
  "my_scoring_profile demo_env mean (others_rescored strict_db demo_supervisor (\<lambda>s. (5, None))) demo_supervisor =
     my_scoring_profile demo_env mean strict_db demo_supervisor"
  by (rule mirror_hides_small_groups)
    (simp add: strict_others people_of_def first_seen_def is_below_cohort_def demo_env_def default_settings_def)

text \<open>The comparison leaves out the cases of managers: a finished case without a unit supervisor that the user has
  not scored as the deputy is neither among the own nor among the other cases, since the condition is unknown for
  it and so is its negation.\<close>

theorem mirror_leaves_out_managers:
  assumes "er_supervisor r = None" and "cu_role u = deputy \<longrightarrow> er_deputy r \<noteq> Some (cu_id u)"
  shows "(s, r) \<notin> set (my_scores d u) \<and> (s, r) \<notin> set (other_scores d u)"
proof -
  have "mine u r \<noteq> Some True \<and> sql_not (mine u r) \<noteq> Some True"
    using assms by (cases "er_deputy r")
      (auto simp: mine_def sql_eq_def sql_or_def sql_and_def sql_not_def is_null_def)
  then show ?thesis
    by (auto simp: my_scores_def other_scores_def scores_where_def split: option.splits if_splits)
qed

definition manager_case :: evaluation_record where
  "manager_case = (demo_case finalized)\<lparr>er_supervisor := None\<rparr>"

theorem mirror_leaves_out_managers_witness:
  "(demo_score 1 4, manager_case) \<notin> set (other_scores ((demo_at finalized)\<lparr>records := [manager_case]\<rparr>) demo_supervisor)"
  using mirror_leaves_out_managers [of manager_case demo_supervisor "demo_score 1 4" "(demo_at finalized)\<lparr>records := [manager_case]\<rparr>"]
  by (simp add: manager_case_def demo_supervisor_def)

section \<open>The executive view\<close>

lemma group_by_map: "group_by key (map f xs) = map (\<lambda>g. (fst g, map f (snd g))) (group_by (\<lambda>x. key (f x)) xs)"
  by (simp add: group_by_def comp_def filter_map)

definition nameless_person :: "personnel \<Rightarrow> personnel" where
  "nameless_person p = p\<lparr>p_code := [], p_full_name := [], p_job_title := []\<rparr>"

definition nameless_case :: "evaluation_record \<Rightarrow> evaluation_record" where
  "nameless_case r = r\<lparr>er_code := [], er_verify_token := None, er_supervisor := None, er_deputy := None, er_ceo := 0,
     er_hr := None, er_bonus_reason := None, er_evaluator_comment := None, er_final_snapshot := None, er_self_note := None,
     er_objection_reason := None, er_objection_resolution := None\<rparr>"

text \<open>What is left when every name, code and text about a person is taken away, and all accounts, scores and comments.\<close>

definition nameless :: "db \<Rightarrow> db" where
  "nameless d = d\<lparr>personnels := map nameless_person (personnels d), records := map nameless_case (records d),
     users := [], accesses := [], scores := [], comments := [], assessments := [], assessment_scores := [], audits := [],
     notifications := [], deliveries := [], documents := [], plans := [], goals := []\<rparr>"

lemma nameless_sel [simp]:
  "p_id (nameless_person p) = p_id p" "p_org_unit (nameless_person p) = p_org_unit p"
  "p_status (nameless_person p) = p_status p" "p_contract_end (nameless_person p) = p_contract_end p"
  "er_status (nameless_case r) = er_status r" "er_subject (nameless_case r) = er_subject r"
  "er_final_pct (nameless_case r) = er_final_pct r" "er_recommendation (nameless_case r) = er_recommendation r"
  "er_created_at (nameless_case r) = er_created_at r" "er_finalized_at (nameless_case r) = er_finalized_at r"
  "er_stage_entered_at (nameless_case r) = er_stage_entered_at r" "is_open (nameless_case r) = is_open r"
  by (simp_all add: nameless_person_def nameless_case_def is_open_def)

lemma nameless_tables [simp]:
  "personnels (nameless d) = map nameless_person (personnels d)" "records (nameless d) = map nameless_case (records d)"
  "finalized_cases (nameless d) = map nameless_case (finalized_cases d)" "current_rules (nameless d) = current_rules d"
  by (simp_all add: nameless_def finalized_cases_def filter_map comp_def current_rules_def active_scheme_def)

lemma get_personnel_nameless: "get_personnel (nameless d) k = map_option nameless_person (get_personnel d k)"
proof -
  have "find (\<lambda>p. p_id p = k) (map nameless_person ps) = map_option nameless_person (find (\<lambda>p. p_id p = k) ps)" for ps
    by (induction ps) auto
  then show ?thesis by (simp add: get_personnel_def tbl_get_def)
qed

lemma with_person_nameless:
  "with_person (nameless d) (map nameless_case rs) = map (map_prod nameless_person nameless_case) (with_person d rs)"
  by (induction rs) (auto simp: with_person_def get_personnel_nameless split: option.split)

lemma unit_rows_nameless: "unit_rows avg (nameless d) = unit_rows avg d"
proof -
  have "with_result (map nameless_case rs) = map nameless_case (with_result rs)" for rs
    by (simp add: with_result_def filter_map comp_def)
  then show ?thesis
    by (simp add: unit_rows_def with_person_nameless group_by_map case_prod_unfold comp_def)
qed

lemma recommendation_mix_nameless: "recommendation_mix (nameless d) = recommendation_mix d"
  unfolding recommendation_mix_def nameless_tables by (simp add: filter_map comp_def group_by_map case_prod_unfold)

lemma cycle_time_nameless: "cycle_time_of e (nameless d) = cycle_time_of e d"
  by (simp add: cycle_time_of_def filter_map comp_def)

lemma exposure_nameless: "exposure_within e (nameless d) n = exposure_within e d n"
  by (simp add: exposure_within_def filter_map comp_def Let_def)

text \<open>C19. The executive view names nobody: it is the same, to the last figure, on a database in which every name,
  personnel code, job title, case code and text is blank, the evaluators of the cases are unknown and all
  accounts, single scores, comments and the log are gone.\<close>

theorem executive_view_names_nobody:
  "executive_overview e avg (nameless d) u = executive_overview e avg d u"
  by (simp add: executive_overview_def unit_rows_nameless recommendation_mix_nameless cycle_time_nameless
      exposure_nameless [abs_def] Let_def comp_def)

end
