(* ===== verification/FigureProperties.thy ===== *)
theory FigureProperties
  imports AnalyticsProperties
begin

text \<open>The figures of different pages against each other, their bounds, the workbooks, and where a page says something
  else than its comments.\<close>

section \<open>The pages agree\<close>

text \<open>The figures of the units over the given cases.\<close>

definition unit_figure ::
  "env \<Rightarrow> (rat list \<Rightarrow> rat) \<Rightarrow> (personnel \<times> evaluation_record) list \<Rightarrow> ustr \<Rightarrow> ustr \<times> rat option \<times> nat" where
  "unit_figure e avg w un = (let rows = filter (\<lambda>p. p_org_unit (fst p) = un) w in
     (un, suppressed_avg e (rounded 1 (Some (avg (map (\<lambda>p. the (er_final_pct (snd p))) rows)))) (int (length rows)), length rows))"

lemma group_by_image: "f ` set (group_by key xs) = (\<lambda>k. f (k, filter (\<lambda>x. key x = k) xs)) ` key ` set xs"
  by (simp add: group_by_def image_image)

lemma with_person_filter: "with_person d (filter P rs) = filter (\<lambda>q. P (snd q)) (with_person d rs)"
  by (induction rs) (auto simp: with_person_def split: option.split)

lemma with_result_all: "q \<in> set (with_person d (with_result rs)) \<Longrightarrow> er_final_pct (snd q) \<noteq> None"
  by (cases q) (auto simp: with_person_mem with_result_def)

lemma values_of_full: "\<forall>x\<in>set xs. f x \<noteq> None \<Longrightarrow> values_of (map f xs) = map (\<lambda>x. the (f x)) xs"
  by (induction xs) (auto simp: values_of_def)

lemma sql_avg_full:
  "\<forall>x\<in>set xs. f x \<noteq> None \<Longrightarrow> xs \<noteq> [] \<Longrightarrow> sql_avg avg (map f xs) = Some (avg (map (\<lambda>x. the (f x)) xs))"
  by (simp add: sql_avg_def values_of_full)

lemma dashboard_units:
  "(\<lambda>f. (us_unit f, us_avg f, us_count f)) ` set (unit_stats e avg d site) =
     unit_figure e avg (with_person d (with_result (final_in d site))) `
       (\<lambda>p. p_org_unit (fst p)) ` set (with_person d (with_result (final_in d site)))"
proof -
  let ?w = "with_person d (with_result (final_in d site))"
  have "sql_avg avg (map (\<lambda>p. er_final_pct (snd p)) (filter (\<lambda>p. p_org_unit (fst p) = un) ?w)) =
      Some (avg (map (\<lambda>p. the (er_final_pct (snd p))) (filter (\<lambda>p. p_org_unit (fst p) = un) ?w)))"
    if "un \<in> (\<lambda>p. p_org_unit (fst p)) ` set ?w" for un
    using that with_result_all by (intro sql_avg_full) (auto simp: filter_empty_conv)
  then show ?thesis
    unfolding unit_stats_def set_map image_image group_by_image
    by (intro image_cong refl) (simp add: unit_figure_def Let_def)
qed

lemma executive_units:
  "(\<lambda>(un, a, n). (un, suppressed_avg e (rounded 1 (Some a)) (int n), n)) ` set (unit_rows avg d) =
     unit_figure e avg (with_person d (with_result (finalized_cases d))) `
       (\<lambda>p. p_org_unit (fst p)) ` set (with_person d (with_result (finalized_cases d)))"
  by (simp add: unit_rows_def image_image group_by_image case_prod_unfold unit_figure_def Let_def)

lemma report_units:
  fixes rows :: "(personnel \<times> evaluation_record) list"
  shows "(\<lambda>f. (ua_unit f, ua_avg f, ua_count f)) `
      set (unit_averages e avg 1 (map (\<lambda>(p, r). (p_org_unit p, the (er_final_pct r))) rows)) =
    unit_figure e avg rows ` (\<lambda>p. p_org_unit (fst p)) ` set rows"
  by (simp add: unit_averages_def image_image group_by_image group_by_map case_prod_unfold unit_figure_def Let_def comp_def)

definition no_filter :: report_filter where
  "no_filter = \<lparr>rf_period = None, rf_unit = None, rf_person = None, rf_from = None, rf_to = None, rf_status = None,
     rf_end_from = None, rf_end_to = None\<rparr>"

lemma no_filter_rows: "report_rows midnight d no_filter = Inr (with_person d (finalized_cases d))"
  by (simp add: report_rows_def day_after_def no_filter_def passes_report_def in_range_def opt_holds_def case_prod_unfold)

text \<open>C20. The pages agree: the dashboard without a site, the report without a filter and the executive view, which group
  and average by three different queries, show the same units with the same averages, blanked for the same units,
  and the same counts.\<close>

theorem unit_figures_agree:
  assumes "dashboard_overview e avg d u None = Inr dash" and "report_summary_of e avg midnight d u' no_filter = Inr rep"
    and "executive_overview e avg d u'' = Inr ex"
  shows "(\<lambda>f. (us_unit f, us_avg f, us_count f)) ` set (ov_units dash) =
      (\<lambda>f. (ua_unit f, ua_avg f, ua_count f)) ` set (sm_units rep) \<and>
    (\<lambda>f. (up_unit f, up_avg f, up_count f)) ` set (ex_units ex) =
      (\<lambda>f. (ua_unit f, ua_avg f, ua_count f)) ` set (sm_units rep)"
proof -
  let ?w = "with_person d (with_result (finalized_cases d))"
  have all: "final_in d None = finalized_cases d" by (simp add: final_in_def in_site_def units_of_def)
  have "ov_units dash = unit_stats e avg d None"
    using assms(1) by (auto simp: dashboard_overview_def bindE_Inr_iff Let_def)
  moreover have "sm_units rep = unit_averages e avg 1 (map (\<lambda>(p, r). (p_org_unit p, the (er_final_pct r))) ?w)"
    using assms(2) by (auto simp: report_summary_of_def summary_data_def no_filter_rows bindE_Inr_iff with_result_def with_person_filter)
  moreover have "ex_units ex = map (\<lambda>(un, a, n). \<lparr>up_unit = un, up_avg = suppressed_avg e (rounded 1 (Some a)) (int n), up_count = n\<rparr>)
      (unit_rows avg d)"
    using assms(3) by (auto simp: executive_overview_def bindE_Inr_iff Let_def)
  then have "(\<lambda>f. (up_unit f, up_avg f, up_count f)) ` set (ex_units ex) =
      (\<lambda>(un, a, n). (un, suppressed_avg e (rounded 1 (Some a)) (int n), n)) ` set (unit_rows avg d)"
    by (simp add: image_image case_prod_unfold)
  ultimately show ?thesis
    by (simp only: dashboard_units executive_units report_units all)
qed

theorem unit_figures_agree_witness:
  "\<exists>dash rep. dashboard_overview demo_env mean (demo_at finalized) demo_hr None = Inr dash \<and>
     report_summary_of demo_env mean days (demo_at finalized) demo_hr no_filter = Inr rep \<and>
     (\<lambda>f. (us_unit f, us_avg f, us_count f)) ` set (ov_units dash) =
      (\<lambda>f. (ua_unit f, ua_avg f, ua_count f)) ` set (sm_units rep)"
proof -
  obtain dash where 1: "dashboard_overview demo_env mean (demo_at finalized) demo_hr None = Inr dash"
    by (simp add: dashboard_overview_def require_roles_def demo_hr_def Let_def)
  obtain rep where 2: "report_summary_of demo_env mean days (demo_at finalized) demo_hr no_filter = Inr rep"
    by (simp add: report_summary_of_def check_filter_def no_filter_rows summary_data_def require_roles_def demo_hr_def)
      (simp add: no_filter_def)
  obtain ex where 3: "executive_overview demo_env mean (demo_at finalized) demo_ceo = Inr ex"
    by (simp add: executive_overview_def require_roles_def demo_ceo_def Let_def)
  from 1 2 conjunct1 [OF unit_figures_agree [OF 1 2 3]] show ?thesis
    by (intro exI [of _ dash] exI [of _ rep] conjI)
qed

section \<open>Every result is counted once\<close>

lemma sum_nulls_last: "sum_list (map f (nulls_last g (sort_key k) xs)) = (sum_list (map f xs) :: nat)"
proof -
  have "sum_list (map f (sort_key k ys)) = sum_list (map f ys)" for ys
  proof -
    have "sum_mset (mset (map f (sort_key k ys))) = sum_mset (mset (map f ys))" by (simp only: mset_map mset_sort)
    then show ?thesis by (simp only: sum_mset_sum_list)
  qed
  moreover have "sum_list (map f (filter P xs)) + sum_list (map f (filter (\<lambda>x. \<not> P x) xs)) = sum_list (map f xs)" for P
    by (induction xs) auto
  from this [of "\<lambda>x. g x \<noteq> None"] have "sum_list (map f (filter (\<lambda>x. g x \<noteq> None) xs)) + sum_list (map f (filter (\<lambda>x. g x = None) xs)) = sum_list (map f xs)"
    by simp
  ultimately show ?thesis by (simp add: nulls_last_def)
qed

text \<open>C21. Every finished result is counted once: where the rows refer to existing people and every finished case has its
  result, the counts of the periods on the trend and the counts of the units both add up to the total that the
  overview shows for the same site, cases without a period and people outside every known site included.\<close>

theorem every_result_is_counted_once:
  assumes "period_trend e avg d u site = Inr points" and "dashboard_overview e avg d u site = Inr dash"
    and "\<forall>r\<in>set (finalized_cases d). get_personnel d (er_subject r) \<noteq> None \<and> er_final_pct r \<noteq> None"
  shows "sum_list (map pp_count points) = ov_total dash \<and> sum_list (map us_count (ov_units dash)) = ov_total dash"
proof -
  have w: "with_result (final_in d site) = final_in d site"
    unfolding with_result_def final_in_def filter_filter by (rule filter_cong) (use assms(3) in auto)
  have dash: "ov_total dash = length (final_in d site)" "ov_units dash = unit_stats e avg d site"
    using assms(2) by (auto simp: dashboard_overview_def bindE_Inr_iff Let_def)
  have "sum_list (map pp_count points) =
      sum_list (map (\<lambda>g. length (snd g)) (group_by (\<lambda>r. Option.bind (er_period r) (get_period d)) (final_in d site)))"
    using assms(1) by (auto simp: period_trend_def bindE_Inr_iff w comp_def case_prod_unfold sum_nulls_last)
  moreover have "sum_list (map us_count (ov_units dash)) =
      sum_list (map (\<lambda>g. length (snd g)) (group_by (\<lambda>p. p_org_unit (fst p)) (with_person d (final_in d site))))"
    by (simp add: dash unit_stats_def w comp_def case_prod_unfold Let_def)
  moreover have "length (with_person d (final_in d site)) = length (final_in d site)"
    using assms(3) by (intro with_person_length) (simp add: final_in_def)
  ultimately show ?thesis by (simp add: group_by_count dash)
qed

theorem every_result_is_counted_once_witness:
  "\<exists>points. period_trend demo_env mean (demo_at finalized) demo_hr None = Inr points \<and> sum_list (map pp_count points) = 1"
proof -
  obtain dash where 1: "dashboard_overview demo_env mean (demo_at finalized) demo_hr None = Inr dash"
    by (simp add: dashboard_overview_def require_roles_def demo_hr_def Let_def)
  obtain points where 2: "period_trend demo_env mean (demo_at finalized) demo_hr None = Inr points"
    by (simp add: period_trend_def require_roles_def demo_hr_def)
  have fin: "finalized_cases (demo_at finalized) = [demo_case finalized]" by (simp add: finalized_cases_def)
  have "get_personnel (demo_at finalized) 1 = Some (demo_person 1)"
    by (simp add: get_personnel_def demo_at_def demo_db_def tbl_get_def demo_person_def)
  then have "\<forall>r\<in>set (finalized_cases (demo_at finalized)). get_personnel (demo_at finalized) (er_subject r) \<noteq> None \<and> er_final_pct r \<noteq> None"
    by (simp add: fin)
  from every_result_is_counted_once [OF 2 1 this] 1 2 show ?thesis
    by (auto simp: dashboard_overview_def bindE_Inr_iff Let_def final_in_def in_site_def units_of_def fin)
qed

section \<open>Bounds\<close>




end
