(* ===== verification/FigureFindings.thy ===== *)
theory FigureFindings
  imports FigureProperties
begin

text \<open>The workbooks, and four places where a page with figures says something else than its comments.\<close>




section \<open>Coverage above one hundred\<close>

definition departed_db :: db where
  "departed_db = demo_db\<lparr>personnels := [(demo_person 1)\<lparr>p_status := p_inactive\<rparr>, demo_person 2],
     records := [demo_case finalized, (demo_case finalized)\<lparr>er_id := 2, er_subject := 2\<rparr>]\<rparr>"

text \<open>The share of completed evaluations on the card of human resources counts people who have left in the numerator,
  but not in the denominator: with one active person and one who has left it is 200 percent.\<close>

theorem completion_exceeds_hundred:
  "\<exists>cards. role_overview mean departed_db demo_hr = Inr (hr, cards) \<and> \<lparr>cd_key = ''completion'', cd_value = 200\<rparr> \<in> set cards"
proof -
  have "finalized_cases departed_db = records departed_db" by (simp add: finalized_cases_def departed_db_def)
  moreover have "percent_of 2 1 = 200"
    using py_round_int [of 200 1] by (simp add: percent_of_def fl_numeral)
  ultimately have "hr_cards departed_db ! 3 = \<lparr>cd_key = ''completion'', cd_value = 200\<rparr>"
    by (simp add: hr_cards_def Let_def departed_db_def first_seen_def demo_person_def numeral_2_eq_2)
  moreover have "hr_cards departed_db ! 3 \<in> set (hr_cards departed_db)" by (rule nth_mem) (simp add: hr_cards_def Let_def)
  ultimately show ?thesis by (simp add: role_overview_def demo_hr_def)
qed

section \<open>The limit of the improvement plans\<close>

definition boundary_db :: db where
  "boundary_db = (demo_at finalized)\<lparr>records := [(demo_case finalized)\<lparr>er_final_pct := Some 75\<rparr>]\<rparr>"

text \<open>A result exactly at the limit of the improvement plans is counted among those that need one, and refused when
  the plan is to be written.\<close>

theorem boundary_result_gets_no_plan:
  "om_weak (outcome_mix_of boundary_db None) = Some 100 \<and>
   create_plan demo_env demo_hr \<lparr>li_record = 1, li_title = lit ''Plan'', li_review_date = 739300, li_owner = None,
     li_summary = None, li_goals = []\<rparr> boundary_db = Inl (HTTPException 400 ''the result is not below the limit'')"
proof -
  have legacy: "current_rules boundary_db = LEGACY_RULES"
    by (simp add: current_rules_def active_scheme_def boundary_db_def demo_at_def demo_db_def empty_db_def)
  have "latest_results boundary_db None = [75]"
    by (simp add: latest_results_def with_result_def final_in_def in_site_def units_of_def finalized_cases_def boundary_db_def
        group_by_def first_seen_def nulls_last_def fl_numeral)
  moreover have "percent_of 1 1 = 100" using py_round_int [of 100 1] by (simp add: percent_of_def fl_numeral)
  moreover have limit: "r_plan_max_pct LEGACY_RULES = 75" by (simp add: LEGACY_RULES_def IMPROVEMENT_PLAN_MAX_PCT_def FINAL_RESULT_THRESHOLDS_def)
  ultimately have "om_weak (outcome_mix_of boundary_db None) = Some 100"
    by (simp add: outcome_mix_of_def Let_def legacy)
  moreover have "get_record boundary_db 1 = Some ((demo_case finalized)\<lparr>er_final_pct := Some 75\<rparr>)"
    by (simp add: boundary_db_def demo_at_def get_record_def tbl_get_def demo_case_def)
  moreover have "\<not> below_limit boundary_db ((demo_case finalized)\<lparr>er_final_pct := Some 75\<rparr>)"
    by (simp add: below_limit_def rules_for_record_def boundary_db_def demo_at_def demo_db_def empty_db_def active_scheme_def
        limit fl_numeral)
  moreover have "require_roles [hr] demo_hr = Inr ()" by (simp add: require_roles_def demo_hr_def)
  moreover have "text_within PLAN_TITLE_MAX (strip (lit ''Plan''))" by code_simp
  ultimately show ?thesis
    by (simp add: create_plan_def plan_input_ok_def)
qed

end
