(* ===== verification/Settings.thy ===== *)
theory Settings
  imports Workbooks Accounts Delivery
begin

text \<open>
  The settings that are changed from the panel: \<open>core/integrations.py\<close>, \<open>services/integrations.py\<close> and their pages in
  \<open>routers/administration.py\<close>. A stored row covers the value of the process's configuration (\<open>defaults\<close>, an
  argument: what \<open>.env\<close> says); what the code reads is a copy of the effective values in the memory of the process,
  which a save renews. The session does not write before it reads (\<open>autoflush=False\<close>): a changed row is
  seen by the queries of the same request, a new one is not.
\<close>

section \<open>The fields\<close>

datatype setting_kind = kind_text | kind_number | kind_bool

datatype setting_value = SInt int | SBool bool | SText ustr

record setting_field =
  fd_key :: string
  fd_kind :: setting_kind
  fd_min :: "int option"
  fd_max :: "int option"

definition EDITABLE :: "setting_field list" where
  "EDITABLE = map (\<lambda>(k, t). \<lparr>fd_key = k, fd_kind = t, fd_min = None, fd_max = None\<rparr>)
     [(''smtp_host'', kind_text), (''smtp_port'', kind_number), (''smtp_from'', kind_text),
      (''smtp_use_starttls'', kind_bool), (''smtp_use_ssl'', kind_bool), (''sms_url'', kind_text),
      (''sms_method'', kind_text), (''sms_headers'', kind_text), (''sms_body'', kind_text),
      (''sms_success_contains'', kind_text)]"

definition SECRET_KEYS :: "string list" where
  "SECRET_KEYS = [''smtp_username'', ''smtp_password'', ''sms_api_key'']"

definition POLICY :: "setting_field list" where
  "POLICY = map (\<lambda>(k, a, b). \<lparr>fd_key = k, fd_kind = kind_number, fd_min = Some a, fd_max = Some b\<rparr>)
     [(''objection_window_days'', 1, 365), (''min_cohort_size'', 1, 100), (''contract_expiry_alert_days'', 1, 365),
      (''sla_reminder_days'', 1, 90), (''improvement_review_alert_days'', 1, 90), (''notification_dedup_days'', 1, 90),
      (''login_max_failed_attempts'', 3, 50), (''login_lockout_minutes'', 1, 1440)]"

definition field_of :: "string \<Rightarrow> setting_field option" where
  "field_of k = find (\<lambda>f. fd_key f = k) (EDITABLE @ POLICY)"

section \<open>Reading and writing values\<close>

definition parse_setting :: "setting_field \<Rightarrow> ustr \<Rightarrow> py_exc + setting_value" where
  "parse_setting f raw = (case fd_kind f of
     kind_number \<Rightarrow> (case py_int raw of None \<Rightarrow> Inl (ValueError ''not a number'') | Some n \<Rightarrow> Inr (SInt n))
   | kind_bool \<Rightarrow> Inr (SBool (raw = lit ''true''))
   | kind_text \<Rightarrow> Inr (SText raw))"

fun serialise :: "setting_value \<Rightarrow> ustr" where
  "serialise (SBool b) = lit (if b then ''true'' else ''false'')"
| "serialise (SInt n) = int_text n"
| "serialise (SText t) = t"

text \<open>\<open>int(value)\<close> of a value of the request; a truth value counts as 0 or 1.\<close>

fun int_of_value :: "setting_value \<Rightarrow> int option" where
  "int_of_value (SInt n) = Some n"
| "int_of_value (SBool b) = Some (if b then 1 else 0)"
| "int_of_value (SText t) = py_int t"

definition validated :: "setting_field \<Rightarrow> setting_value \<Rightarrow> py_exc + setting_value" where
  "validated f v = (case fd_kind f of
     kind_bool \<Rightarrow> (case v of
         SBool b \<Rightarrow> Inr (SBool b)
       | SText t \<Rightarrow> if t = lit ''true'' then Inr (SBool True) else if t = lit ''false'' then Inr (SBool False)
                    else Inl (ValueError ''on or off'')
       | SInt n \<Rightarrow> Inl (ValueError ''on or off''))
   | kind_text \<Rightarrow> Inr v
   | kind_number \<Rightarrow> (case int_of_value v of
         None \<Rightarrow> Inl (ValueError ''not a number'')
       | Some n \<Rightarrow>
           if \<exists>a. fd_min f = Some a \<and> n < a then Inl (ValueError ''below the minimum'')
           else if \<exists>b. fd_max f = Some b \<and> b < n then Inl (ValueError ''above the maximum'')
           else Inr (SInt n)))"

text \<open>The effective value of a key over the rows that a query returns; a row that cannot be read is passed over.\<close>

definition effective :: "(string \<Rightarrow> setting_value) \<Rightarrow> (string \<times> ustr) list \<Rightarrow> string \<Rightarrow> setting_value" where
  "effective defaults rows k = (case field_of k of
     None \<Rightarrow> defaults k
   | Some f \<Rightarrow> (case map_of rows k of
        None \<Rightarrow> defaults k
      | Some raw \<Rightarrow> (case parse_setting f raw of Inl _ \<Rightarrow> defaults k | Inr v \<Rightarrow> v)))"

text \<open>The rows that exist, changed in place, and the new ones that wait for the commit.\<close>

fun save_one ::
  "string list \<Rightarrow> string \<times> setting_value \<Rightarrow> (string \<times> ustr) list \<times> (string \<times> ustr) list \<Rightarrow>
   py_exc + (string \<times> ustr) list \<times> (string \<times> ustr) list" where
  "save_one allowed (k, v) (rows, new) = (case field_of k of
     None \<Rightarrow> Inr (rows, new)
   | Some f \<Rightarrow>
      if k \<notin> set allowed then Inr (rows, new)
      else bindE (validated f v) (\<lambda>x.
        if map_of rows k = None then Inr (rows, new @ [(k, serialise x)])
        else Inr (map (\<lambda>r. if fst r = k then (k, serialise x) else r) rows, new)))"

definition save_settings ::
  "string list \<Rightarrow> (string \<times> setting_value) list \<Rightarrow> (string \<times> ustr) list \<Rightarrow>
   py_exc + (string \<times> ustr) list \<times> (string \<times> ustr) list" where
  "save_settings allowed vs rows = foldE (save_one allowed) vs (rows, [])"

section \<open>The pages\<close>

record panel =
  pn_db :: db
  pn_rows :: "(string \<times> ustr) list"
  pn_live :: "string \<Rightarrow> setting_value"

definition refresh_settings ::
  "(string \<Rightarrow> setting_value) \<Rightarrow> (string \<times> ustr) list \<Rightarrow> (string \<Rightarrow> setting_value) \<Rightarrow> string \<Rightarrow> setting_value" where
  "refresh_settings defaults rows live k = (if field_of k = None then live k else effective defaults rows k)"

definition fields_shown ::
  "(string \<Rightarrow> setting_value) \<Rightarrow> setting_field list \<Rightarrow> panel \<Rightarrow> (setting_field \<times> setting_value) list" where
  "fields_shown defaults fs p = map (\<lambda>f. (f, effective defaults (pn_rows p) (fd_key f))) fs"

record integration_settings =
  is_fields :: "(setting_field \<times> setting_value) list"
  is_secrets :: "(string \<times> bool) list"
  is_channels :: "delivery_channel list"

definition read_integrations ::
  "env \<Rightarrow> (string \<Rightarrow> setting_value) \<Rightarrow> (string \<Rightarrow> ustr) \<Rightarrow> current_user \<Rightarrow> panel \<Rightarrow> integration_settings result" where
  "read_integrations e defaults secret u p = bindE (require_capability [manage_integrations] u (pn_db p)) (\<lambda>_.
     Inr \<lparr>is_fields = fields_shown defaults EDITABLE p,
          is_secrets = map (\<lambda>k. (k, secret k \<noteq> [])) SECRET_KEYS, is_channels = channels_on e\<rparr>)"

text \<open>The log row names every known key of the request.\<close>

definition update_integrations ::
  "env \<Rightarrow> (string \<Rightarrow> setting_value) \<Rightarrow> (string \<Rightarrow> ustr) \<Rightarrow> current_user \<Rightarrow> (string \<times> setting_value) list \<Rightarrow> panel \<Rightarrow>
   (integration_settings \<times> panel) result" where
  "update_integrations e defaults secret u vs p = bindE (require_capability [manage_integrations] u (pn_db p)) (\<lambda>_.
     bindE (uncaught (save_settings (map fd_key EDITABLE) vs (pn_rows p))) (\<lambda>(rows, new).
       let p' = \<lparr>pn_db = log_event e (cu_id u) ''integration_settings_changed'' None None
                   (Some (JObj [(''keys'', JList (map JStr (sort (filter (\<lambda>k. field_of k \<noteq> None) (map fst vs)))))])) (pn_db p),
                 pn_rows = rows @ new, pn_live = refresh_settings defaults rows (pn_live p)\<rparr>
       in bindE (read_integrations e defaults secret u p') (\<lambda>v. Inr (v, p'))))"

definition read_policy ::
  "(string \<Rightarrow> setting_value) \<Rightarrow> current_user \<Rightarrow> panel \<Rightarrow> (setting_field \<times> setting_value) list result" where
  "read_policy defaults u p = bindE (require_capability [manage_modules] u (pn_db p)) (\<lambda>_.
     Inr (fields_shown defaults POLICY p))"

fun value_json :: "setting_value \<Rightarrow> json" where
  "value_json (SInt n) = JInt n"
| "value_json (SBool b) = JBool b"
| "value_json (SText t) = JText t"

fun refusal :: "py_exc \<Rightarrow> http_error" where
  "refusal (ValueError t) = HTTPException 400 t"
| "refusal x = Uncaught x"

definition update_policy ::
  "env \<Rightarrow> (string \<Rightarrow> setting_value) \<Rightarrow> current_user \<Rightarrow> (string \<times> setting_value) list \<Rightarrow> panel \<Rightarrow>
   ((setting_field \<times> setting_value) list \<times> panel) result" where
  "update_policy e defaults u vs p = bindE (require_capability [manage_modules] u (pn_db p)) (\<lambda>_.
     case save_settings (map fd_key POLICY) vs (pn_rows p) of
       Inl x \<Rightarrow> Inl (refusal x)
     | Inr (rows, new) \<Rightarrow>
         let p' = \<lparr>pn_db = log_event e (cu_id u) ''policy_settings_changed'' None None
                     (Some (JObj (map (\<lambda>(k, v). (k, value_json v)) (filter (\<lambda>q. fst q \<in> set (map fd_key POLICY)) vs)))) (pn_db p),
                   pn_rows = rows @ new, pn_live = refresh_settings defaults rows (pn_live p)\<rparr>
         in bindE (read_policy defaults u p') (\<lambda>v. Inr (v, p')))"

text \<open>The test message: the copy in memory is renewed whatever comes of it. \<open>send\<close> is what the channel does.\<close>

definition channel_named :: "string \<Rightarrow> delivery_channel option" where
  "channel_named t = (if t = ''email'' then Some email else if t = ''sms'' then Some sms else None)"

definition test_integration ::
  "env \<Rightarrow> (string \<Rightarrow> setting_value) \<Rightarrow> (delivery_channel \<Rightarrow> ustr \<Rightarrow> send_outcome) \<Rightarrow> current_user \<Rightarrow> string \<Rightarrow> ustr \<Rightarrow>
   panel \<Rightarrow> bool result \<times> panel" where
  "test_integration e defaults send u channel recipient p = (case require_capability [manage_integrations] u (pn_db p) of
     Inl x \<Rightarrow> (Inl x, p)
   | Inr _ \<Rightarrow>
      let p1 = p\<lparr>pn_live := refresh_settings defaults (pn_rows p) (pn_live p)\<rparr> in
      (case channel_named channel of
        None \<Rightarrow> (Inl (HTTPException 400 ''unknown channel''), p1)
      | Some k \<Rightarrow>
         if k \<notin> set (channels_on e) then (Inr False, p1)
         else (case send k recipient of
             SendFailed t r \<Rightarrow> (Inr False, p1)
           | SendCrashed t \<Rightarrow> (Inl (Uncaught (ValueError t)), p1)
           | SendOk \<Rightarrow> (Inr True, p1\<lparr>pn_db := log_event e (cu_id u) ''integration_test_sent'' None None
               (Some (JObj [(''channel'', JStr channel)])) (pn_db p1)\<rparr>))))"

text \<open>What a start of the service loads.\<close>

definition load_settings :: "(string \<Rightarrow> setting_value) \<Rightarrow> panel \<Rightarrow> panel" where
  "load_settings defaults p = p\<lparr>pn_live := refresh_settings defaults (pn_rows p) defaults\<rparr>"

datatype panel_request =
    UpdatePolicy current_user "(string \<times> setting_value) list"
  | UpdateIntegrations current_user "(string \<times> setting_value) list"
  | TestIntegration current_user string ustr
  | Restart

fun panel_step ::
  "env \<Rightarrow> (string \<Rightarrow> setting_value) \<Rightarrow> (string \<Rightarrow> ustr) \<Rightarrow> (delivery_channel \<Rightarrow> ustr \<Rightarrow> send_outcome) \<Rightarrow>
   panel_request \<Rightarrow> panel \<Rightarrow> panel" where
  "panel_step e defaults secret send (UpdatePolicy u vs) p =
     (case update_policy e defaults u vs p of Inl _ \<Rightarrow> p | Inr (v, p') \<Rightarrow> p')"
| "panel_step e defaults secret send (UpdateIntegrations u vs) p =
     (case update_integrations e defaults secret u vs p of Inl _ \<Rightarrow> p | Inr (v, p') \<Rightarrow> p')"
| "panel_step e defaults secret send (TestIntegration u channel recipient) p =
     snd (test_integration e defaults send u channel recipient p)"
| "panel_step e defaults secret send Restart p = load_settings defaults p"

text \<open>The policies as the other components read them.\<close>

definition live_int :: "(string \<Rightarrow> setting_value) \<Rightarrow> string \<Rightarrow> int" where
  "live_int live k = (case live k of SInt n \<Rightarrow> n | _ \<Rightarrow> 0)"

definition in_force :: "(string \<Rightarrow> setting_value) \<Rightarrow> settings \<Rightarrow> settings" where
  "in_force live c = c\<lparr>objection_window_days := live_int live ''objection_window_days'',
     min_cohort_size := live_int live ''min_cohort_size'',
     contract_expiry_alert_days := live_int live ''contract_expiry_alert_days'',
     sla_reminder_days := live_int live ''sla_reminder_days'',
     improvement_review_alert_days := live_int live ''improvement_review_alert_days'',
     notification_dedup_days := live_int live ''notification_dedup_days'',
     login_max_failed_attempts := live_int live ''login_max_failed_attempts'',
     login_lockout_minutes := live_int live ''login_lockout_minutes''\<rparr>"

end
