(* ===== verification/SettingsProperties.thy ===== *)
theory SettingsProperties
  imports Settings Samples
begin

text \<open>The properties of the settings: their limits hold whatever is sent, a saved value is read back and when it is in force.\<close>

section \<open>Reading what was written\<close>

lemma py_int_text: "0 \<le> n \<Longrightarrow> n \<le> 4000 \<Longrightarrow> py_int (int_text n) = Some n"
  using py_int_digits [OF digits_of_digits, of "nat n"] digits_of_short [of "nat n"] by (simp add: int_text_def digits_value_of)

definition within_limits :: "setting_field \<Rightarrow> int \<Rightarrow> bool" where
  "within_limits f n \<longleftrightarrow> (\<forall>a. fd_min f = Some a \<longrightarrow> a \<le> n) \<and> (\<forall>b. fd_max f = Some b \<longrightarrow> n \<le> b)"

lemma policy_checked:
  "\<forall>f\<in>set POLICY. field_of (fd_key f) = Some f \<and> fd_kind f = kind_number \<and> fd_key f \<notin> set (map fd_key EDITABLE) \<and>
     1 \<le> the (fd_min f) \<and> the (fd_max f) \<le> 1440 \<and> fd_min f \<noteq> None \<and> fd_max f \<noteq> None"
  by code_simp

lemma policy_field:
  assumes "f \<in> set POLICY"
  shows "field_of (fd_key f) = Some f" and "fd_kind f = kind_number" and "within_limits f n \<Longrightarrow> 1 \<le> n \<and> n \<le> 1440"
    and "fd_key f \<notin> set (map fd_key EDITABLE)"
proof -
  note f = bspec [OF policy_checked assms]
  then show "field_of (fd_key f) = Some f" "fd_kind f = kind_number" "fd_key f \<notin> set (map fd_key EDITABLE)" by simp_all
  show "within_limits f n \<Longrightarrow> 1 \<le> n \<and> n \<le> 1440" using f by (fastforce simp: within_limits_def)
qed

lemma editable_field: "\<forall>f\<in>set EDITABLE. field_of (fd_key f) = Some f \<and> fd_key f \<notin> set (map fd_key POLICY)"
  by code_simp

lemma validated_policy:
  assumes "f \<in> set POLICY" and "validated f v = Inr x"
  shows "\<exists>n. x = SInt n \<and> within_limits f n \<and> parse_setting f (serialise x) = Inr x"
proof -
  note p = policy_field [OF assms(1)]
  obtain n where n: "x = SInt n" "within_limits f n"
    using assms(2) p(2) by (force simp: validated_def within_limits_def not_less split: option.splits if_splits)
  moreover have "py_int (int_text n) = Some n" using p(3) [OF n(2)] by (intro py_int_text) simp_all
  ultimately show ?thesis using p(2) by (simp add: parse_setting_def)
qed

section \<open>One save\<close>

text \<open>What one row of the table is after a save, and where it is seen.\<close>

definition all_rows :: "(string \<times> ustr) list \<times> (string \<times> ustr) list \<Rightarrow> (string \<times> ustr) list" where
  "all_rows s = fst s @ snd s"

lemma map_of_replace: "map_of (map (\<lambda>r. if fst r = k then (k, y) else r) rows) j =
    (if j = k \<and> map_of rows k \<noteq> None then Some y else map_of rows j)"
  by (induction rows) auto

definition written_value :: "string list \<Rightarrow> string \<Rightarrow> setting_value \<Rightarrow> ustr option" where
  "written_value allowed k v = (case field_of k of
     None \<Rightarrow> None
   | Some f \<Rightarrow> if k \<in> set allowed then (case validated f v of Inl _ \<Rightarrow> None | Inr x \<Rightarrow> Some (serialise x)) else None)"

definition written :: "string list \<Rightarrow> (string \<times> setting_value) list \<Rightarrow> string \<Rightarrow> ustr option" where
  "written allowed vs k = Option.bind (map_of vs k) (written_value allowed k)"

lemma save_one_rows:
  assumes "save_one allowed (k, v) (rows, new) = Inr (rows', new')" and "map_of new k = None"
  shows "map_of rows' j = (if j = k \<and> map_of rows k \<noteq> None \<and> written_value allowed k v \<noteq> None
      then written_value allowed k v else map_of rows j) \<and>
    map_of new' j = (if j = k \<and> map_of rows k = None then written_value allowed k v else map_of new j)"
proof (cases "field_of k")
  case None
  then show ?thesis using assms by (simp add: written_value_def)
next
  case (Some f)
  show ?thesis
  proof (cases "k \<in> set allowed")
    case True
    then obtain x where x: "validated f v = Inr x" using assms(1) Some by (auto simp: bindE_Inr_iff)
    then show ?thesis using assms True Some
      by (auto simp: written_value_def map_of_replace map_add_def split: option.splits if_splits)
  next
    case False
    then show ?thesis using assms Some by (simp add: written_value_def)
  qed
qed

text \<open>The rows seen at once hold the new values of the keys that were stored, the waiting ones those of the others.\<close>

lemma save_rows:
  assumes "foldE (save_one allowed) vs (rows0, new0) = Inr (rows, new)" and "distinct (map fst vs)"
    and "\<forall>k\<in>set (map fst vs). map_of new0 k = None"
  shows "map_of rows j = (if map_of rows0 j \<noteq> None \<and> written allowed vs j \<noteq> None then written allowed vs j else map_of rows0 j) \<and>
    map_of new j = (if map_of rows0 j = None \<and> map_of new0 j = None then written allowed vs j else map_of new0 j)"
  using assms
proof (induction vs arbitrary: rows0 new0)
  case Nil
  then show ?case by (simp add: written_def)
next
  case (Cons q vs)
  obtain k v where q: "q = (k, v)" by fastforce
  obtain rows1 new1 where one: "save_one allowed (k, v) (rows0, new0) = Inr (rows1, new1)"
    and rest: "foldE (save_one allowed) vs (rows1, new1) = Inr (rows, new)"
    using Cons.prems(1) unfolding q foldE.simps bindE_Inr_iff by (metis surj_pair)
  have fresh: "map_of new0 k = None" using Cons.prems(3) by (simp add: q)
  note step = save_one_rows [OF one fresh]
  have k: "map_of vs k = None" "k \<notin> set (map fst vs)" using Cons.prems(2) by (auto simp: q map_of_eq_None_iff)
  have "\<forall>i\<in>set (map fst vs). map_of new1 i = None"
    using k(2) Cons.prems(3) step by (metis (no_types, lifting) list.set_intros(2) list.simps(9))
  moreover have "distinct (map fst vs)" using Cons.prems(2) by simp
  ultimately have IH: "map_of rows j = (if map_of rows1 j \<noteq> None \<and> written allowed vs j \<noteq> None then written allowed vs j else map_of rows1 j) \<and>
    map_of new j = (if map_of rows1 j = None \<and> map_of new1 j = None then written allowed vs j else map_of new1 j)"
    by (intro Cons.IH [OF rest])
  have "written allowed (q # vs) j = (if j = k then written_value allowed k v else written allowed vs j)"
    by (simp add: written_def q)
  moreover have "written allowed vs k = None" using k by (simp add: written_def)
  ultimately show ?case using IH step fresh by (auto split: if_splits)
qed

lemma save_checks:
  assumes "foldE (save_one allowed) vs s0 = Inr s" and "(k, v) \<in> set vs" and "field_of k = Some f" and "k \<in> set allowed"
  shows "\<exists>x. validated f v = Inr x"
  using assms(1,2)
proof (induction vs arbitrary: s0)
  case (Cons q vs)
  obtain rows new where s0: "s0 = (rows, new)" by fastforce
  obtain s1 where one: "save_one allowed q s0 = Inr s1" and rest: "foldE (save_one allowed) vs s1 = Inr s"
    using Cons.prems(1) unfolding foldE.simps bindE_Inr_iff by blast
  show ?case
  proof (cases "q = (k, v)")
    case True
    then show ?thesis using one assms(3,4) by (auto simp: s0 bindE_Inr_iff)
  next
    case False
    then show ?thesis using Cons.IH [OF rest] Cons.prems(2) by simp
  qed
qed simp

lemma saved:
  assumes "save_settings allowed vs rows0 = Inr (rows, new)" and "distinct (map fst vs)"
  shows "map_of rows j = (if map_of rows0 j \<noteq> None \<and> written allowed vs j \<noteq> None then written allowed vs j else map_of rows0 j)"
    and "map_of (rows @ new) j = (case written allowed vs j of Some y \<Rightarrow> Some y | None \<Rightarrow> map_of rows0 j)"
proof -
  note s = save_rows [OF assms(1) [unfolded save_settings_def] assms(2), of j]
  then show "map_of rows j = (if map_of rows0 j \<noteq> None \<and> written allowed vs j \<noteq> None then written allowed vs j else map_of rows0 j)"
    by simp
  show "map_of (rows @ new) j = (case written allowed vs j of Some y \<Rightarrow> Some y | None \<Rightarrow> map_of rows0 j)"
    using s by (auto simp: map_add_def split: option.splits if_splits)
qed

text \<open>The value a policy has after a request that was accepted.\<close>

definition asked_for :: "(string \<Rightarrow> setting_value) \<Rightarrow> (string \<times> ustr) list \<Rightarrow> (string \<times> setting_value) list \<Rightarrow> setting_field \<Rightarrow> setting_value" where
  "asked_for defaults rows vs f = (case map_of vs (fd_key f) of
     None \<Rightarrow> effective defaults rows (fd_key f)
   | Some v \<Rightarrow> (case validated f v of Inr x \<Rightarrow> x | Inl _ \<Rightarrow> v))"

lemma policy_saved:
  assumes save: "save_settings (map fd_key POLICY) vs rows0 = Inr (rows, new)" and vs: "distinct (map fst vs)"
    and f: "f \<in> set POLICY"
  shows "effective defaults (rows @ new) (fd_key f) = asked_for defaults rows0 vs f"
    and "effective defaults rows (fd_key f) =
      (if map_of rows0 (fd_key f) = None then defaults (fd_key f) else asked_for defaults rows0 vs f)"
proof -
  note p = policy_field(1) [OF f]
  have wr: "written (map fd_key POLICY) vs (fd_key f) = (case map_of vs (fd_key f) of None \<Rightarrow> None
      | Some v \<Rightarrow> (case validated f v of Inl _ \<Rightarrow> None | Inr x \<Rightarrow> Some (serialise x)))"
    using f p by (simp add: written_def written_value_def split: option.split)
  have reread: "\<exists>x. validated f v = Inr x \<and> parse_setting f (serialise x) = Inr x" if "map_of vs (fd_key f) = Some v" for v
  proof -
    have "(fd_key f, v) \<in> set vs" by (rule map_of_SomeD [OF that])
    then obtain x where "validated f v = Inr x"
      using save_checks [OF save [unfolded save_settings_def] _ p] f by auto
    then show ?thesis using validated_policy [OF f] by blast
  qed
  show "effective defaults (rows @ new) (fd_key f) = asked_for defaults rows0 vs f"
  proof (cases "map_of vs (fd_key f)")
    case None
    then show ?thesis unfolding effective_def saved(2) [OF save vs] asked_for_def by (simp add: wr p)
  next
    case (Some v)
    with reread obtain x where "validated f v = Inr x" "parse_setting f (serialise x) = Inr x" by blast
    then show ?thesis using Some unfolding effective_def saved(2) [OF save vs] asked_for_def by (simp add: wr p)
  qed
  show "effective defaults rows (fd_key f) =
      (if map_of rows0 (fd_key f) = None then defaults (fd_key f) else asked_for defaults rows0 vs f)"
  proof (cases "map_of vs (fd_key f)")
    case None
    then show ?thesis unfolding effective_def saved(1) [OF save vs] asked_for_def by (simp add: wr p split: option.split)
  next
    case (Some v)
    with reread obtain x where "validated f v = Inr x" "parse_setting f (serialise x) = Inr x" by blast
    then show ?thesis using Some unfolding effective_def saved(1) [OF save vs] asked_for_def by (simp add: wr p)
  qed
qed

section \<open>Limits\<close>

definition policies_within :: "(string \<Rightarrow> setting_value) \<Rightarrow> bool" where
  "policies_within vals \<longleftrightarrow> (\<forall>f\<in>set POLICY. \<exists>n. vals (fd_key f) = SInt n \<and> within_limits f n)"

definition rows_within :: "(string \<times> ustr) list \<Rightarrow> bool" where
  "rows_within rows \<longleftrightarrow> (\<forall>f\<in>set POLICY. \<forall>raw. (fd_key f, raw) \<in> set rows \<longrightarrow>
     (\<exists>n. parse_setting f raw = Inr (SInt n) \<and> within_limits f n))"

lemma effective_within: "policies_within defaults \<Longrightarrow> rows_within rows \<Longrightarrow> policies_within (effective defaults rows)"
  unfolding policies_within_def
proof
  fix f
  assume d: "\<forall>f\<in>set POLICY. \<exists>n. defaults (fd_key f) = SInt n \<and> within_limits f n" and r: "rows_within rows" and f: "f \<in> set POLICY"
  show "\<exists>n. effective defaults rows (fd_key f) = SInt n \<and> within_limits f n"
  proof (cases "map_of rows (fd_key f)")
    case None
    then show ?thesis using d f policy_field(1) [OF f] by (simp add: effective_def)
  next
    case (Some raw)
    then have "(fd_key f, raw) \<in> set rows" by (rule map_of_SomeD)
    then obtain n where "parse_setting f raw = Inr (SInt n)" "within_limits f n"
      using r f unfolding rows_within_def by blast
    then show ?thesis using Some policy_field(1) [OF f] by (simp add: effective_def)
  qed
qed

lemma refresh_policy: "f \<in> set POLICY \<Longrightarrow> refresh_settings defaults rows live (fd_key f) = effective defaults rows (fd_key f)"
  by (simp add: refresh_settings_def policy_field(1))

lemma refresh_within:
  assumes "policies_within defaults" and "rows_within rows"
  shows "policies_within (refresh_settings defaults rows live)"
  using effective_within [OF assms] by (auto simp: policies_within_def refresh_policy)

lemma save_one_within:
  assumes "rows_within (fst s)" and "rows_within (snd s)" and "save_one allowed q s = Inr s'"
  shows "rows_within (fst s') \<and> rows_within (snd s')"
proof -
  obtain k v rows new where e: "q = (k, v)" "s = (rows, new)" by (metis surj_pair)
  have good: "\<exists>n. parse_setting f (serialise x) = Inr (SInt n) \<and> within_limits f n"
    if "field_of k = Some f" "validated f x' = Inr x" "f' \<in> set POLICY" "fd_key f' = k" for f f' x x'
  proof -
    have "f' = f" using policy_field(1) [OF that(3)] that(1,4) by simp
    then show ?thesis using validated_policy [of f x' x] that by auto
  qed
  show ?thesis
  proof (cases "field_of k")
    case None
    then show ?thesis using assms by (auto simp: e)
  next
    case (Some f)
    show ?thesis
    proof (cases "k \<in> set allowed")
      case False
      then show ?thesis using assms Some by (auto simp: e)
    next
      case True
      then obtain x where x: "validated f v = Inr x"
        and s': "s' = (if map_of rows k = None then (rows, new @ [(k, serialise x)])
          else (map (\<lambda>r. if fst r = k then (k, serialise x) else r) rows, new))"
        using assms(3) Some by (auto simp: e bindE_Inr_iff split: if_splits)
      have "\<exists>n. parse_setting f' (serialise x) = Inr (SInt n) \<and> within_limits f' n" if "f' \<in> set POLICY" "fd_key f' = k" for f'
        using good [OF Some x that] policy_field(1) [OF that(1)] Some that(2) by simp
      then show ?thesis using assms(1,2)
        by (auto simp: s' e rows_within_def image_iff)
    qed
  qed
qed

lemma save_within:
  assumes "foldE (save_one allowed) vs s0 = Inr s" and "rows_within (fst s0)" and "rows_within (snd s0)"
  shows "rows_within (fst s) \<and> rows_within (snd s)"
  using assms
proof (induction vs arbitrary: s0)
  case (Cons q vs)
  obtain s1 where one: "save_one allowed q s0 = Inr s1" and rest: "foldE (save_one allowed) vs s1 = Inr s"
    using Cons.prems(1) unfolding foldE.simps bindE_Inr_iff by blast
  show ?case using Cons.IH [OF rest] save_one_within [OF Cons.prems(2,3) one] by blast
qed simp

lemma save_settings_within: "save_settings allowed vs rows0 = Inr (rows, new) \<Longrightarrow> rows_within rows0 \<Longrightarrow> rows_within rows \<and> rows_within (rows @ new)"
  using save_within [of allowed vs "(rows0, [])" "(rows, new)"] by (auto simp: save_settings_def rows_within_def)

definition panel_ok :: "panel \<Rightarrow> bool" where
  "panel_ok p \<longleftrightarrow> rows_within (pn_rows p) \<and> policies_within (pn_live p)"

lemma panel_step_ok:
  assumes "policies_within defaults" and "panel_ok p"
  shows "panel_ok (panel_step e defaults secret send c p)"
proof (cases c)
  case (UpdatePolicy u vs)
  then show ?thesis using assms save_settings_within [of "map fd_key POLICY" vs "pn_rows p"]
    by (auto simp: panel_ok_def update_policy_def bindE_Inr_iff Let_def refresh_within split: sum.splits)
next
  case (UpdateIntegrations u vs)
  then show ?thesis using assms save_settings_within [of "map fd_key EDITABLE" vs "pn_rows p"]
    by (auto simp: panel_ok_def update_integrations_def bindE_Inr_iff uncaught_def Let_def refresh_within split: sum.splits)
next
  case (TestIntegration u t a)
  then show ?thesis using assms
    by (auto simp: panel_ok_def test_integration_def Let_def refresh_within split: sum.split option.split send_outcome.split)
next
  case Restart
  then show ?thesis using assms by (simp add: panel_ok_def load_settings_def refresh_within)
qed

section \<open>The properties\<close>

definition env_file :: "string \<Rightarrow> setting_value" where
  "env_file k = (case map_of [(''objection_window_days'', 7), (''min_cohort_size'', 5), (''contract_expiry_alert_days'', 30),
      (''sla_reminder_days'', 3), (''improvement_review_alert_days'', 7), (''notification_dedup_days'', 7),
      (''login_max_failed_attempts'', 5), (''login_lockout_minutes'', 15), (''smtp_port'', 587)] k of
     Some n \<Rightarrow> SInt n | None \<Rightarrow> SText [])"

definition keeper_db :: db where
  "keeper_db = (demo_at draft)\<lparr>capabilities := [\<lparr>uc_id = 1, uc_user = 2, uc_capability = manage_modules, uc_granted_by = None\<rparr>,
     \<lparr>uc_id = 2, uc_user = 2, uc_capability = manage_integrations, uc_granted_by = None\<rparr>]\<rparr>"

definition keeper :: current_user where
  "keeper = \<lparr>cu_id = 2, cu_username = ''user'', cu_role = support, cu_personnel_id = None\<rparr>"

definition first_panel :: panel where
  "first_panel = \<lparr>pn_db = keeper_db, pn_rows = [(''sla_reminder_days'', lit ''4'')], pn_live = env_file\<rparr>"

lemma env_file_within: "policies_within env_file"
proof -
  have "\<forall>f\<in>set POLICY. case env_file (fd_key f) of SInt n \<Rightarrow> the (fd_min f) \<le> n \<and> n \<le> the (fd_max f) | _ \<Rightarrow> False"
    by (simp add: POLICY_def env_file_def)
  then have "\<exists>n. env_file (fd_key f) = SInt n \<and> within_limits f n" if "f \<in> set POLICY" for f
    using that by (cases "env_file (fd_key f)") (auto simp: within_limits_def dest!: bspec)
  then show ?thesis by (simp add: policies_within_def)
qed

lemma keeper_capabilities: "capabilities_of keeper_db (cu_id keeper) = {manage_modules, manage_integrations}"
proof -
  have "{c \<in> set (capabilities keeper_db). uc_user c = 2} = set (capabilities keeper_db)"
    by (auto simp: keeper_db_def)
  then show ?thesis by (simp add: capabilities_of_def keeper_def) (simp add: keeper_db_def)
qed

lemma capabilities_of_log: "capabilities_of (log_event e a t r x y d) k = capabilities_of d k"
  by (simp add: capabilities_of_def frame_simps)

lemma keeper_may: "require_capability [manage_modules] keeper keeper_db = Inr ()"
    "require_capability [manage_integrations] keeper keeper_db = Inr ()"
  by (simp_all add: require_capability_def keeper_capabilities)

lemma first_panel_ok: "panel_ok first_panel"
proof -
  have "rows_within [(''sla_reminder_days'', lit ''4'')]"
    unfolding rows_within_def
  proof (intro ballI allI impI)
    fix f raw
    assume f: "f \<in> set POLICY" "(fd_key f, raw) \<in> set [(''sla_reminder_days'', lit ''4'')]"
    then have raw: "raw = int_text 4" and key: "fd_key f = ''sla_reminder_days''"
      by (simp_all add: int_text_def digits_of.simps lit_def)
    have "parse_setting f raw = Inr (SInt 4)" using policy_field(2) [OF f(1)] by (simp add: parse_setting_def raw py_int_text)
    moreover have "within_limits f 4" using f(1) key by (auto simp: within_limits_def POLICY_def)
    ultimately show "\<exists>n. parse_setting f raw = Inr (SInt n) \<and> within_limits f n" by blast
  qed
  then show ?thesis using env_file_within by (simp add: panel_ok_def first_panel_def)
qed

interpretation panel_sys: invariant_system "\<lambda>c p. if policies_within defaults then panel_step e defaults secret send c p else p" panel_ok
  for defaults :: "string \<Rightarrow> setting_value" and e secret send
  by unfold_locales (simp add: panel_step_ok)

text \<open>C17. The policies keep within their limits: whatever is sent to the settings pages, in whatever order, with
  restarts and test messages in between, every policy that the rest of the program reads is a number between the
  limits of its field, so the cohort limit never falls below one and a lock never ends at once.\<close>

theorem policies_keep_within_limits:
  assumes "policies_within defaults" and "panel_ok p"
    and "live = pn_live (fold (panel_step e defaults secret send) cs p)"
  shows "(\<forall>f\<in>set POLICY. \<exists>n. live (fd_key f) = SInt n \<and> within_limits f n) \<and>
    1 \<le> min_cohort_size (in_force live c) \<and> 1 \<le> objection_window_days (in_force live c) \<and>
    3 \<le> login_max_failed_attempts (in_force live c) \<and> 1 \<le> login_lockout_minutes (in_force live c)"
proof -
  have "panel_ok (fold (panel_step e defaults secret send) cs p)"
    using panel_sys.run_inv [OF assms(2), of defaults e secret send cs] assms(1) by simp
  then have all: "\<forall>f\<in>set POLICY. \<exists>n. live (fd_key f) = SInt n \<and> within_limits f n"
    by (simp add: panel_ok_def policies_within_def assms(3))
  moreover have "1 \<le> live_int live ''min_cohort_size'' \<and> 1 \<le> live_int live ''objection_window_days'' \<and>
      3 \<le> live_int live ''login_max_failed_attempts'' \<and> 1 \<le> live_int live ''login_lockout_minutes''"
    using all by (auto simp: POLICY_def within_limits_def live_int_def)
  ultimately show ?thesis by (simp add: in_force_def)
qed

theorem policies_keep_within_limits_witness:
  "1 \<le> min_cohort_size (in_force (pn_live (fold (panel_step demo_env env_file (\<lambda>k. []) (\<lambda>k a. SendOk))
     [UpdatePolicy keeper [(''min_cohort_size'', SInt 0)], Restart] first_panel)) default_settings)"
  using policies_keep_within_limits [OF env_file_within first_panel_ok refl] by blast

text \<open>C30. What is saved is read back: after a request that was accepted, the page of the policies shows for every field
  the value that was asked for, as a number, and the old one where nothing was asked; a restart puts exactly these
  values in force.\<close>

theorem saved_policies_are_read_back:
  assumes "update_policy e defaults u vs p = Inr (view, p')" and "distinct (map fst vs)"
  shows "view = map (\<lambda>f. (f, asked_for defaults (pn_rows p) vs f)) POLICY \<and>
    (\<forall>f\<in>set POLICY. pn_live (load_settings defaults p') (fd_key f) = asked_for defaults (pn_rows p) vs f)"
proof -
  obtain rows new where save: "save_settings (map fd_key POLICY) vs (pn_rows p) = Inr (rows, new)"
    and p': "pn_rows p' = rows @ new" and view: "view = fields_shown defaults POLICY p'"
    using assms(1) by (auto simp: update_policy_def read_policy_def bindE_Inr_iff Let_def split: sum.splits)
  have "effective defaults (pn_rows p') (fd_key f) = asked_for defaults (pn_rows p) vs f" if "f \<in> set POLICY" for f
    unfolding p' by (rule policy_saved(1) [OF save assms(2) that])
  then show ?thesis by (simp add: view fields_shown_def load_settings_def refresh_policy)
qed

lemma first_panel_saves:
  "\<exists>view p'. update_policy demo_env env_file keeper [(''min_cohort_size'', SInt 8), (''sla_reminder_days'', SText (int_text 9))]
     first_panel = Inr (view, p')"
proof -
  have "field_of ''min_cohort_size'' = Some (POLICY ! 1)" "field_of ''sla_reminder_days'' = Some (POLICY ! 3)"
    by (simp_all add: field_of_def EDITABLE_def POLICY_def)
  moreover have "validated (POLICY ! 1) (SInt 8) = Inr (SInt 8)" "validated (POLICY ! 3) (SText (int_text 9)) = Inr (SInt 9)"
    by (simp_all add: validated_def POLICY_def py_int_text)
  moreover have "{''min_cohort_size'', ''sla_reminder_days''} \<subseteq> set (map fd_key POLICY)" by (simp add: POLICY_def)
  ultimately show ?thesis
    by (simp add: update_policy_def read_policy_def first_panel_def save_settings_def Let_def keeper_may
        require_capability_def keeper_capabilities capabilities_of_log)
qed

theorem saved_policies_are_read_back_witness:
  "\<exists>view p'. update_policy demo_env env_file keeper [(''min_cohort_size'', SInt 8), (''sla_reminder_days'', SText (int_text 9))]
     first_panel = Inr (view, p') \<and> (POLICY ! 1, SInt 8) \<in> set view \<and> (POLICY ! 3, SInt 9) \<in> set view"
proof -
  let ?vs = "[(''min_cohort_size'', SInt 8), (''sla_reminder_days'', SText (int_text 9))]"
  obtain view p' where up: "update_policy demo_env env_file keeper ?vs first_panel = Inr (view, p')"
    using first_panel_saves by blast
  let ?g = "\<lambda>f. (f, asked_for env_file (pn_rows first_panel) ?vs f)"
  have view: "view = map ?g POLICY" using saved_policies_are_read_back [OF up] by simp
  have "asked_for env_file (pn_rows first_panel) ?vs (POLICY ! 1) = SInt 8"
    "asked_for env_file (pn_rows first_panel) ?vs (POLICY ! 3) = SInt 9"
    by (simp_all add: asked_for_def POLICY_def validated_def py_int_text)
  moreover have "?g (POLICY ! 1) \<in> set view" "?g (POLICY ! 3) \<in> set view"
    unfolding view list.set_map by (rule imageI, rule nth_mem, simp add: POLICY_def)+
  ultimately have "(POLICY ! 1, SInt 8) \<in> set view" "(POLICY ! 3, SInt 9) \<in> set view" by simp_all
  then show ?thesis using up by blast
qed

text \<open>A value that is saved for the first time is shown at once and not in force: the copy that the program reads is renewed
  from a query that does not see the new row, so until the next save or restart the value of the configuration
  file counts. A key that has a row already is in force at once.\<close>

theorem first_save_is_not_in_force:
  assumes "update_policy e defaults u vs p = Inr (view, p')" and "distinct (map fst vs)" and "f \<in> set POLICY"
  shows "pn_live p' (fd_key f) =
    (if map_of (pn_rows p) (fd_key f) = None then defaults (fd_key f) else asked_for defaults (pn_rows p) vs f)"
proof -
  obtain rows new where save: "save_settings (map fd_key POLICY) vs (pn_rows p) = Inr (rows, new)"
    and live: "pn_live p' = refresh_settings defaults rows (pn_live p)"
    using assms(1) by (auto simp: update_policy_def read_policy_def bindE_Inr_iff Let_def split: sum.splits)
  show ?thesis using policy_saved(2) [OF save assms(2,3)] by (simp add: live refresh_policy assms(3))
qed

theorem first_save_is_not_in_force_witness:
  "\<exists>view p'. update_policy demo_env env_file keeper [(''min_cohort_size'', SInt 8), (''sla_reminder_days'', SText (int_text 9))]
     first_panel = Inr (view, p') \<and> pn_live p' ''min_cohort_size'' = SInt 5 \<and> pn_live p' ''sla_reminder_days'' = SInt 9"
proof -
  let ?vs = "[(''min_cohort_size'', SInt 8), (''sla_reminder_days'', SText (int_text 9))]"
  obtain view p' where up: "update_policy demo_env env_file keeper ?vs first_panel = Inr (view, p')"
    using first_panel_saves by blast
  have "POLICY ! 1 \<in> set POLICY" "POLICY ! 3 \<in> set POLICY" by (simp_all add: POLICY_def)
  then have "pn_live p' (fd_key (POLICY ! 1)) = env_file (fd_key (POLICY ! 1)) \<and>
      pn_live p' (fd_key (POLICY ! 3)) = asked_for env_file (pn_rows first_panel) ?vs (POLICY ! 3)"
    using first_save_is_not_in_force [OF up] by (simp add: first_panel_def) (simp add: POLICY_def)
  then have "pn_live p' ''min_cohort_size'' = SInt 5 \<and> pn_live p' ''sla_reminder_days'' = SInt 9"
    by (simp add: POLICY_def env_file_def asked_for_def validated_def py_int_text)
  then show ?thesis using up by blast
qed

text \<open>The two forms keep apart: the page of the channels never changes the value of a policy, and the page of the policies
  never changes the address of a server, whatever keys the request carries.\<close>

theorem forms_keep_apart:
  assumes "distinct (map fst vs)"
  shows "(update_integrations e defaults secret u vs p = Inr (view, p') \<longrightarrow>
      fields_shown defaults POLICY p' = fields_shown defaults POLICY p) \<and>
    (update_policy e defaults u vs p = Inr (view', p') \<longrightarrow>
      fields_shown defaults EDITABLE p' = fields_shown defaults EDITABLE p)"
proof (intro conjI impI)
  assume "update_integrations e defaults secret u vs p = Inr (view, p')"
  then obtain rows new where save: "save_settings (map fd_key EDITABLE) vs (pn_rows p) = Inr (rows, new)"
    and p': "pn_rows p' = rows @ new"
    by (auto simp: update_integrations_def bindE_Inr_iff uncaught_def Let_def split: sum.splits)
  have w: "written (map fd_key EDITABLE) vs (fd_key f) = None" if "f \<in> set POLICY" for f
    using policy_field(4) [OF that] by (auto simp: written_def written_value_def split: option.split bind_splits)
  show "fields_shown defaults POLICY p' = fields_shown defaults POLICY p"
    unfolding fields_shown_def effective_def p' saved(2) [OF save assms] by (intro map_cong [OF refl]) (simp add: w cong: option.case_cong)
next
  assume "update_policy e defaults u vs p = Inr (view', p')"
  then obtain rows new where save: "save_settings (map fd_key POLICY) vs (pn_rows p) = Inr (rows, new)"
    and p': "pn_rows p' = rows @ new"
    by (auto simp: update_policy_def read_policy_def bindE_Inr_iff Let_def split: sum.splits)
  have w: "written (map fd_key POLICY) vs (fd_key f) = None" if "f \<in> set EDITABLE" for f
    using bspec [OF editable_field that] by (auto simp: written_def written_value_def split: option.split bind_splits)
  show "fields_shown defaults EDITABLE p' = fields_shown defaults EDITABLE p"
    unfolding fields_shown_def effective_def p' saved(2) [OF save assms] by (intro map_cong [OF refl]) (simp add: w cong: option.case_cong)
qed

theorem forms_keep_apart_witness:
  "\<exists>view p'. update_policy demo_env env_file keeper [(''min_cohort_size'', SInt 8), (''sla_reminder_days'', SText (int_text 9))]
     first_panel = Inr (view, p') \<and> fields_shown env_file EDITABLE p' = fields_shown env_file EDITABLE first_panel"
proof -
  obtain view p' where up: "update_policy demo_env env_file keeper [(''min_cohort_size'', SInt 8), (''sla_reminder_days'', SText (int_text 9))]
     first_panel = Inr (view, p')"
    using first_panel_saves by blast
  have "fields_shown env_file EDITABLE p' = fields_shown env_file EDITABLE first_panel"
    by (rule mp [OF conjunct2 [OF forms_keep_apart] up]) simp
  then show ?thesis using up by blast
qed

text \<open>A number that is no number is refused with a message on the page of the policies, and ends the request on the page of
  the channels with an exception that nothing catches.\<close>

theorem bad_port_is_a_server_error:
  "update_integrations demo_env env_file (\<lambda>k. []) keeper [(''smtp_port'', SText (lit ''x''))] first_panel =
     Inl (Uncaught (ValueError ''not a number''))"
proof -
  have "py_int (lit ''x'') = None"
    by (simp add: py_int_def strip_def lit_def is_space_def unsigned_int_def digit_value_def DIGIT_ZEROS_def)
  moreover have "field_of ''smtp_port'' = Some (EDITABLE ! 1)" "''smtp_port'' \<in> set (map fd_key EDITABLE)"
    by (simp_all add: field_of_def EDITABLE_def)
  moreover have "fd_kind (EDITABLE ! 1) = kind_number" by (simp add: EDITABLE_def)
  ultimately have "save_settings (map fd_key EDITABLE) [(''smtp_port'', SText (lit ''x''))] (pn_rows first_panel) =
      Inl (ValueError ''not a number'')"
    by (simp add: save_settings_def validated_def first_panel_def)
  then show ?thesis by (simp add: update_integrations_def first_panel_def keeper_may)
qed

end
