(* ===== verification/Preview.thy ===== *)
theory Preview
  imports Documents Aggregates
begin

text \<open>
  The pages of \<open>routers/scoring_schemes.py\<close> that only read: the history of the versions and the preview of a scheme on
  past cases, which computes their results again with the numbers that are proposed.
\<close>

section \<open>The history\<close>

record scheme_view =
  sv_scheme :: scoring_scheme
  sv_author :: "(string \<times> ustr) option"
  sv_activator :: "(string \<times> ustr) option"

definition scheme_account :: "db \<Rightarrow> int option \<Rightarrow> (string \<times> ustr) option" where
  "scheme_account d k = (case k of None \<Rightarrow> None | Some j \<Rightarrow>
     if j = 0 then None else map_option (\<lambda>x. (u_username x, display_name d x)) (get_user d j))"

definition scheme_read :: "db \<Rightarrow> scoring_scheme \<Rightarrow> scheme_view" where
  "scheme_read d s = \<lparr>sv_scheme = s, sv_author = scheme_account d (ss_created_by s),
     sv_activator = scheme_account d (ss_activated_by s)\<rparr>"

definition list_schemes :: "db \<Rightarrow> current_user \<Rightarrow> scheme_view list result" where
  "list_schemes d u = bindE (require_capability [manage_scoring] u d) (\<lambda>_.
     Inr (map (scheme_read d) (sort_key (\<lambda>s. - ss_version s) (schemes d))))"

section \<open>The preview\<close>

definition PREVIEW_LIMIT :: int where
  "PREVIEW_LIMIT = 200"

record reclassified_case =
  rk_code :: string
  rk_unit :: ustr
  rk_current_pct :: rat
  rk_proposed_pct :: rat
  rk_current :: ustr
  rk_proposed :: ustr

definition reclassified :: "reclassified_case \<Rightarrow> bool" where
  "reclassified c \<longleftrightarrow> rk_current c \<noteq> rk_proposed c"

text \<open>The finished cases, the last ones first; in descending order the database puts a missing moment first.\<close>

definition recent_cases :: "db \<Rightarrow> int \<Rightarrow> evaluation_record list" where
  "recent_cases d limit =
     (let rs = filter (\<lambda>r. er_final_pct r \<noteq> None) (finalized_cases d) in
      take (nat limit) (filter (\<lambda>r. er_finalized_at r = None) rs @
        sort_key (\<lambda>r. - the (er_finalized_at r)) (filter (\<lambda>r. er_finalized_at r \<noteq> None) rs)))"

text \<open>A case without scores, or with a question that is gone, is passed over.\<close>

definition preview_case :: "db \<Rightarrow> rules \<Rightarrow> evaluation_record \<Rightarrow> reclassified_case list \<Rightarrow> py_exc + reclassified_case list" where
  "preview_case d rules r cs =
     (let rows = scores_as_dicts d r in
      if rows = [] \<or> (\<exists>s\<in>set rows. by_id (indicators d) (sr_indicator s) = None) then Inr cs
      else bindE (compute_result rows (by_id (indicators d)) rules (bonus_of r)) (\<lambda>c.
        Inr (cs @ [\<lparr>rk_code = er_code r,
          rk_unit = (case get_personnel d (er_subject r) of Some p \<Rightarrow> p_org_unit p | None \<Rightarrow> [8212]),
          rk_current_pct = fl (the (er_final_pct r)), rk_proposed_pct = cr_final c,
          rk_current = (case er_recommendation r of None \<Rightarrow> [8212] | Some t \<Rightarrow> if t = [] then [8212] else t),
          rk_proposed = cr_recommendation c\<rparr>])))"

record scheme_preview =
  pv_sample :: nat
  pv_changed :: nat
  pv_transitions :: "((ustr \<times> ustr) \<times> nat) list"
  pv_cases :: "reclassified_case list"

text \<open>The moves between two labels, the most frequent first, and the cases that move.\<close>

definition preview_of :: "reclassified_case list \<Rightarrow> scheme_preview" where
  "preview_of cs =
     (let moved = filter reclassified cs in
      \<lparr>pv_sample = length cs, pv_changed = length moved,
       pv_transitions = sort_key (\<lambda>t. - int (snd t))
         (map (\<lambda>g. (fst g, length (snd g))) (group_by (\<lambda>c. (rk_current c, rk_proposed c)) moved)),
       pv_cases = moved\<rparr>)"

definition preview_scheme :: "db \<Rightarrow> current_user \<Rightarrow> scheme_input \<Rightarrow> int \<Rightarrow> scheme_preview result" where
  "preview_scheme d u q limit =
     bindE (require_capability [manage_scoring] u d) (\<lambda>_.
     bindE (require (1 \<le> limit \<and> limit \<le> PREVIEW_LIMIT) (HTTPException 422 ''invalid limit'')) (\<lambda>_.
     case validate_scheme q of
       Inl t \<Rightarrow> Inl (HTTPException 422 t)
     | Inr q \<Rightarrow> bindE (uncaught (foldE (preview_case d (rules_from_input q)) (recent_cases d limit) [])) (\<lambda>cs.
         Inr (preview_of cs))))"

section \<open>The question list\<close>

text \<open>\<open>list_indicators\<close> of \<open>routers/indicators.py\<close>: the questions with the number of scores that use them.\<close>

definition list_indicators :: "db \<Rightarrow> indicator_section option \<Rightarrow> bool \<Rightarrow> (indicator \<times> nat) list" where
  "list_indicators d section include_inactive =
     map (\<lambda>i. (i, scored_count d (in_id i)))
       (sort_key (\<lambda>i. if in_section i = general then 0 else 1 :: nat) (sort_key in_order
         (filter (\<lambda>i. (section = None \<or> section = Some (in_section i)) \<and> (include_inactive \<or> in_active i)) (indicators d))))"

section \<open>The rules for the form\<close>

text \<open>\<open>routers/config.py\<close>: what the form for scores checks on its own side, always the rules of the active scheme.\<close>

record form_rules =
  fr_evidence_min :: int
  fr_evidence_max :: int
  fr_evidence_scores :: "int list"
  fr_general_weight :: rat
  fr_specialized_weight :: rat
  fr_bonus_max :: rat
  fr_bonus_reason_min :: nat

definition get_config :: "db \<Rightarrow> form_rules" where
  "get_config d = (let r = current_rules d in
     \<lparr>fr_evidence_min = r_evidence_min r, fr_evidence_max = r_evidence_max r, fr_evidence_scores = r_evidence_scores r,
      fr_general_weight = r_general_weight r, fr_specialized_weight = r_specialized_weight r,
      fr_bonus_max = r_bonus_max r, fr_bonus_reason_min = BONUS_REASON_MIN\<rparr>)"

section \<open>The preview computes\<close>

lemma preview_of_adds_up:
  "pv_changed (preview_of cs) = length (pv_cases (preview_of cs)) \<and> pv_changed (preview_of cs) \<le> pv_sample (preview_of cs) \<and>
    sum_list (map snd (pv_transitions (preview_of cs))) = pv_changed (preview_of cs) \<and> pv_sample (preview_of cs) = length cs"
proof -
  let ?ts = "map (\<lambda>g. (fst g, length (snd g))) (group_by (\<lambda>c. (rk_current c, rk_proposed c)) (filter reclassified cs))"
  have "mset (map snd (sort_key (\<lambda>t. - int (snd t)) ?ts)) = mset (map snd ?ts)" by (simp only: mset_map mset_sort)
  then have "sum_list (map snd (sort_key (\<lambda>t. - int (snd t)) ?ts)) = sum_list (map snd ?ts)"
    by (simp only: sum_mset_sum_list [symmetric])
  also have "\<dots> = length (filter reclassified cs)"
    using group_by_count [of "\<lambda>c. (rk_current c, rk_proposed c)" "filter reclassified cs"] by (simp add: comp_def)
  finally show ?thesis by (simp add: preview_of_def Let_def)
qed

lemma foldE_add_row_cong:
  "(\<And>s. s \<in> set rows \<Longrightarrow> inds (sr_indicator s) = inds' (sr_indicator s)) \<Longrightarrow>
    foldE (add_row inds r) rows t = foldE (add_row inds' r) rows t"
proof (induction rows arbitrary: t)
  case (Cons s rows)
  then have "add_row inds r s t = add_row inds' r s t" by (simp add: add_row_def)
  moreover have "foldE (add_row inds r) rows = foldE (add_row inds' r) rows" using Cons by (intro ext) simp
  ultimately show ?case by simp
qed simp

lemma compute_result_cong:
  assumes "\<And>s. s \<in> set rows \<Longrightarrow> inds (sr_indicator s) = inds' (sr_indicator s)"
  shows "compute_result rows inds r bonus = compute_result rows inds' r bonus"
  using foldE_add_row_cong [of rows inds inds' r zero_sums] assms by (simp add: compute_result_def)

text \<open>The version of the rules appears in the result and nowhere else.\<close>

lemma compute_result_version:
  assumes "compute_result rows inds r bonus = Inr c" and "r' = r\<lparr>r_version := v\<rparr>"
  shows "compute_result rows inds r' bonus = Inr (c\<lparr>cr_version := v\<rparr>)"
proof -
  have "add_row inds r' = add_row inds r"
    by (simp add: fun_eq_iff add_row_def weight_for_def assms(2) split: option.split)
  moreover have same: "base_percentage r' = base_percentage r" "applied_bonus r' = applied_bonus r" "r_version r' = v"
    by (simp_all add: fun_eq_iff base_percentage_def applied_bonus_def assms(2))
  moreover have "final_percentage r' = final_percentage r" by (simp add: fun_eq_iff final_percentage_def same)
  moreover have "recommendation_for r' = recommendation_for r"
    by (simp add: fun_eq_iff recommendation_for_def assms(2) split: option.split)
  ultimately show ?thesis using assms(1) by (auto simp: compute_result_Inr Let_def)
qed

end
