(* ===== verification/PreviewProperties.thy ===== *)
theory PreviewProperties
  imports Preview CaseProperties
begin

text \<open>The properties of the preview of a scheme.\<close>

lemma checked_rules: "validate_scheme q = Inr q' \<Longrightarrow> q' = q \<and> si_thresholds q \<noteq> []"
  using validate_scheme_Inr [of q q'] checked_thresholds(2) [of q q'] by simp

lemma preview_case_total:
  assumes "r_thresholds rules \<noteq> []"
  shows "\<exists>ys. preview_case d rules r cs = Inr (cs @ ys) \<and> length ys \<le> 1"
proof (cases "scores_as_dicts d r = [] \<or> (\<exists>s\<in>set (scores_as_dicts d r). by_id (indicators d) (sr_indicator s) = None)")
  case True
  then show ?thesis by (simp add: preview_case_def)
next
  case False
  then have "\<forall>s\<in>set (scores_as_dicts d r). by_id (indicators d) (sr_indicator s) \<noteq> None" by simp
  then obtain c where "compute_result (scores_as_dicts d r) (by_id (indicators d)) rules (bonus_of r) = Inr c"
    using compute_result_total [OF _ assms] by blast
  then show ?thesis using False by (simp add: preview_case_def Let_def)
qed

lemma preview_cases_total:
  assumes "r_thresholds rules \<noteq> []"
  shows "\<exists>ys. foldE (preview_case d rules) rs cs = Inr (cs @ ys) \<and> length ys \<le> length rs"
proof (induction rs arbitrary: cs)
  case (Cons r rs)
  obtain ys where ys: "preview_case d rules r cs = Inr (cs @ ys)" "length ys \<le> 1"
    using preview_case_total [OF assms] by blast
  obtain zs where "foldE (preview_case d rules) rs (cs @ ys) = Inr ((cs @ ys) @ zs)" "length zs \<le> length rs"
    using Cons.IH [of "cs @ ys"] by blast
  then show ?case using ys by (intro exI [of _ "ys @ zs"]) simp
qed simp

lemma preview_Inr:
  assumes "manage_scoring \<in> capabilities_of d (cu_id u)" and "1 \<le> limit" "limit \<le> PREVIEW_LIMIT" and "validate_scheme q = Inr q'"
    and "foldE (preview_case d (rules_from_input q)) (recent_cases d limit) [] = Inr cs"
  shows "preview_scheme d u q limit = Inr (preview_of cs)"
  using assms checked_rules [OF assms(4)] by (simp add: preview_scheme_def require_capability_def)

text \<open>A preview always answers and adds up: for every valid input the computation meets no exception on any database, the
  sample is never larger than the limit, and the moves between labels add up to the number of cases that move.\<close>

theorem preview_answers_and_adds_up:
  assumes "manage_scoring \<in> capabilities_of d (cu_id u)" and "1 \<le> limit" and "limit \<le> PREVIEW_LIMIT"
    and "validate_scheme q = Inr q'"
  shows "\<exists>v. preview_scheme d u q limit = Inr v \<and> int (pv_sample v) \<le> limit \<and> pv_changed v \<le> pv_sample v \<and>
    length (pv_cases v) = pv_changed v \<and> sum_list (map snd (pv_transitions v)) = pv_changed v"
proof -
  have "r_thresholds (rules_from_input q) \<noteq> []" using checked_rules [OF assms(4)] by (simp add: rules_from_input_def)
  from preview_cases_total [OF this, of d "recent_cases d limit" "[]"]
  obtain cs where cs: "foldE (preview_case d (rules_from_input q)) (recent_cases d limit) [] = Inr cs"
    and len: "length cs \<le> length (recent_cases d limit)" by auto
  have "length (recent_cases d limit) \<le> nat limit" by (simp add: recent_cases_def Let_def)
  then have "int (length cs) \<le> limit" using len assms(2) by linarith
  then show ?thesis using preview_Inr [OF assms cs] preview_of_adds_up [of cs] by auto
qed

text \<open>The rules of a case as the input of a new scheme would state them.\<close>

definition same_numbers :: "scheme_input \<Rightarrow> rules \<Rightarrow> bool" where
  "same_numbers q r \<longleftrightarrow> rules_from_input q = r\<lparr>r_version := None\<rparr>"

lemma result_by_all_questions:
  assumes ok: "tbl_ok in_id (indicators d)" and c: "result_of d r = Inr c"
  shows "compute_result (scores_as_dicts d r) (by_id (indicators d)) (rules_for_record d r) (bonus_of r) = Inr c \<and>
    (\<forall>s\<in>set (scores_as_dicts d r). by_id (indicators d) (sr_indicator s) \<noteq> None)"
proof -
  let ?inds = "by_id (indicators_for_record d r)" and ?rows = "scores_as_dicts d r"
  have sub: "by_id (indicators d) k = ?inds k" if "?inds k \<noteq> None" for k
  proof -
    from that obtain i where i: "?inds k = Some i" by blast
    then have "i \<in> set (indicators_for_record d r)" "in_id i = k" by (auto dest: tbl_get_Some_set)
    then have "i \<in> set (indicators d)" by (simp add: indicators_for_record_def)
    then show ?thesis using i ok \<open>in_id i = k\<close> tbl_get_in by fastforce
  qed
  have known: "?inds (sr_indicator s) \<noteq> None" if "s \<in> set ?rows" for s
  proof -
    have "foldE (add_row ?inds (rules_for_record d r)) rows t = Inr t' \<Longrightarrow> s \<in> set rows \<Longrightarrow> ?inds (sr_indicator s) \<noteq> None" for rows t t'
      by (induction rows arbitrary: t) (auto simp: add_row_def bindE_Inr_iff split: option.splits)
    then show ?thesis using c that by (auto simp: result_of_def compute_result_Inr)
  qed
  then have "compute_result ?rows (by_id (indicators d)) (rules_for_record d r) (bonus_of r) =
      compute_result ?rows ?inds (rules_for_record d r) (bonus_of r)"
    by (intro compute_result_cong) (simp add: sub)
  then show ?thesis using c known sub by (auto simp: result_of_def)
qed

text \<open>C16. The preview agrees with what is stored: on a database whose results match their answers, the preview of a scheme
  with the numbers that the finished cases were judged by moves nobody from one label to another.\<close>

theorem preview_agrees_with_the_results:
  assumes "results_ok e d" and "tbl_ok in_id (indicators d)" and "preview_scheme d u q limit = Inr v"
    and "\<forall>r\<in>set (finalized_cases d). same_numbers q (rules_for_record d r)"
  shows "pv_changed v = 0 \<and> pv_transitions v = [] \<and> pv_cases v = []"
proof -
  obtain q' cs where q': "validate_scheme q = Inr q'"
    and cs: "foldE (preview_case d (rules_from_input q)) (recent_cases d limit) [] = Inr cs" and v: "v = preview_of cs"
    using assms(3) checked_rules
    by (auto simp: preview_scheme_def bindE_Inr_iff uncaught_def split: sum.splits)
  have labels: "\<forall>b\<in>set (si_thresholds q). snd b \<noteq> []"
    using validate_scheme_Inr [OF q'] by (auto simp: scheme_fields_ok_def band_ok_def)
  have same: "\<not> reclassified c" if "foldE (preview_case d (rules_from_input q)) rs cs0 = Inr cs1" "set rs \<subseteq> set (finalized_cases d)"
      "\<forall>c\<in>set cs0. \<not> reclassified c" "c \<in> set cs1" for rs cs0 cs1 c
    using that
  proof (induction rs arbitrary: cs0)
    case (Cons r rs)
    obtain cs2 where one: "preview_case d (rules_from_input q) r cs0 = Inr cs2"
      and rest: "foldE (preview_case d (rules_from_input q)) rs cs2 = Inr cs1"
      using Cons.prems(1) by (auto simp: bindE_Inr_iff)
    have r: "r \<in> set (finalized_cases d)" "er_status r = finalized" "r \<in> set (records d)"
      using Cons.prems(2) by (auto simp: finalized_cases_def)
    obtain c where c: "result_of d r = Inr c" and stored: "er_recommendation r = Some (cr_recommendation c)"
      using assms(1) r by (auto simp: results_ok_def result_matches_def result_stored_def)
    note comp = result_by_all_questions [OF assms(2) c]
    have rules: "rules_from_input q = (rules_for_record d r)\<lparr>r_version := None\<rparr>"
      using assms(4) r(1) by (simp add: same_numbers_def)
    have p: "compute_result (scores_as_dicts d r) (by_id (indicators d)) (rules_from_input q) (bonus_of r) = Inr (c\<lparr>cr_version := None\<rparr>)"
      using compute_result_version [OF conjunct1 [OF comp] rules] .
    have "cr_recommendation c \<noteq> []"
    proof -
      have "recommendation_for (rules_from_input q) x = Inr l \<Longrightarrow> l \<in> snd ` set (si_thresholds q)" for x l
        using band_for_Some [of "si_thresholds q" x] checked_rules [OF q']
        by (auto simp: recommendation_for_def rules_from_input_def split: option.splits)
      moreover have "\<exists>x. recommendation_for (rules_from_input q) x = Inr (cr_recommendation c)"
        using p by (cases c) (auto simp: compute_result_Inr Let_def)
      ultimately show ?thesis using labels by fastforce
    qed
    then have "cs2 = cs0 \<or> (\<exists>x. cs2 = cs0 @ [x] \<and> \<not> reclassified x)"
      using one p stored by (auto simp: preview_case_def Let_def reclassified_def split: if_splits)
    then have "\<forall>c\<in>set cs2. \<not> reclassified c" using Cons.prems(3) by auto
    then show ?case using Cons.IH [OF rest] Cons.prems(2,4) by simp
  qed simp
  have "set (recent_cases d limit) \<subseteq> set (finalized_cases d)"
    by (auto simp: recent_cases_def Let_def dest!: in_set_takeD)
  then have "filter reclassified cs = []" using same [OF cs] by (simp add: filter_empty_conv)
  then show ?thesis by (simp add: v preview_of_def)
qed

definition legacy_input :: scheme_input where
  "legacy_input = \<lparr>si_name = lit ''Rules'', si_general_weight = fl (6/10), si_specialized_weight = fl (4/10),
     si_evidence_scores = [1, 5], si_evidence_min = 3, si_evidence_max = 40, si_bonus_max = 5, si_plan_max_pct = 75,
     si_thresholds = FINAL_RESULT_THRESHOLDS, si_weights = []\<rparr>"

lemma legacy_input_valid: "validate_scheme legacy_input = Inr legacy_input"
  by code_simp

lemma legacy_input_same: "same_numbers legacy_input LEGACY_RULES"
  by (simp add: same_numbers_def rules_from_input_def legacy_input_def LEGACY_RULES_def GENERAL_SECTION_WEIGHT_def
      SPECIALIZED_SECTION_WEIGHT_def BONUS_MAX_POINTS_def IMPROVEMENT_PLAN_MAX_PCT_def FINAL_RESULT_THRESHOLDS_def)

definition scorer_db :: db where
  "scorer_db = (demo_at finalized)\<lparr>capabilities := [\<lparr>uc_id = 1, uc_user = 1, uc_capability = manage_scoring, uc_granted_by = None\<rparr>]\<rparr>"

lemma scorer_may: "manage_scoring \<in> capabilities_of scorer_db (cu_id demo_hr)"
  unfolding capabilities_of_def
  by (rule image_eqI [of _ _ "\<lparr>uc_id = 1, uc_user = 1, uc_capability = manage_scoring, uc_granted_by = None\<rparr>"])
    (simp_all add: scorer_db_def demo_hr_def)

theorem preview_answers_and_adds_up_witness:
  "\<exists>v. preview_scheme scorer_db demo_hr legacy_input 200 = Inr v \<and> int (pv_sample v) \<le> 200 \<and> pv_changed v \<le> pv_sample v"
  using preview_answers_and_adds_up [OF scorer_may _ _ legacy_input_valid, of 200] by (auto simp: PREVIEW_LIMIT_def)

lemma scorer_db_ok: "results_ok demo_env scorer_db" "tbl_ok in_id (indicators scorer_db)"
    "\<forall>r\<in>set (finalized_cases scorer_db). same_numbers legacy_input (rules_for_record scorer_db r)"
proof -
  have "result_matches demo_env scorer_db = result_matches demo_env (demo_at finalized)"
    by (rule result_matches_same) (simp_all add: scorer_db_def)
  moreover have "cases_ok scorer_db = cases_ok (demo_at finalized)"
    by (simp add: cases_ok_def one_open_def case_ok_def own_evaluator_def scorer_db_def)
  moreover have "framework_fk scorer_db = framework_fk (demo_at finalized)"
    by (simp add: framework_fk_def get_framework_def scorer_db_def)
  ultimately show "results_ok demo_env scorer_db"
    using demo_results_ok [of finalized] by (simp add: results_ok_def) (simp add: scorer_db_def)
  show "tbl_ok in_id (indicators scorer_db)"
    by (simp add: scorer_db_def demo_at_def demo_db_def demo_indicator_def tbl_ok_def)
  have "rules_for_record scorer_db (demo_case finalized) = LEGACY_RULES"
    by (simp add: rules_for_record_def active_scheme_def scorer_db_def demo_at_def demo_db_def empty_db_def)
  then show "\<forall>r\<in>set (finalized_cases scorer_db). same_numbers legacy_input (rules_for_record scorer_db r)"
    using legacy_input_same by (simp add: finalized_cases_def scorer_db_def)
qed

theorem preview_agrees_with_the_results_witness:
  "\<exists>v. preview_scheme scorer_db demo_hr legacy_input 200 = Inr v \<and> pv_changed v = 0"
proof -
  have "r_thresholds (rules_from_input legacy_input) \<noteq> []"
    using checked_rules [OF legacy_input_valid] by (simp add: rules_from_input_def)
  from preview_cases_total [OF this, of scorer_db "recent_cases scorer_db 200" "[]"]
  obtain cs where "foldE (preview_case scorer_db (rules_from_input legacy_input)) (recent_cases scorer_db 200) [] = Inr cs" by auto
  then have v: "preview_scheme scorer_db demo_hr legacy_input 200 = Inr (preview_of cs)"
    by (intro preview_Inr [OF scorer_may _ _ legacy_input_valid]) (simp_all add: PREVIEW_LIMIT_def)
  then show ?thesis using preview_agrees_with_the_results [OF scorer_db_ok(1,2) v scorer_db_ok(3)] by blast
qed

section \<open>The form\<close>

text \<open>Two versions: the case was made under the first one, which has been retired since.\<close>

definition version_of :: "int \<Rightarrow> scheme_status \<Rightarrow> int \<Rightarrow> scoring_scheme" where
  "version_of k s words = \<lparr>ss_id = k, ss_version = k, ss_name = lit ''Rules'', ss_status = s, ss_general_weight = 6/10,
     ss_specialized_weight = 4/10, ss_evidence_scores = [1, 5], ss_evidence_min = words, ss_evidence_max = 40,
     ss_bonus_max = 5, ss_plan_max_pct = 75, ss_thresholds = FINAL_RESULT_THRESHOLDS, ss_weights = [],
     ss_created_by = None, ss_activated_by = None, ss_activated_at = None, ss_retired_at = None\<rparr>"

definition two_versions :: db where
  "two_versions = (demo_at draft)\<lparr>schemes := [version_of 1 scheme_retired 3, version_of 2 scheme_active 10],
     records := [(demo_case draft)\<lparr>er_scheme := Some 1\<rparr>]\<rparr>"

text \<open>The form of an open case can show other rules than the ones it is checked by: the page reads the active scheme, the
  submission the one that is stamped on the case.\<close>

theorem form_can_show_other_rules:
  "\<exists>r\<in>set (records two_versions). er_status r = draft \<and>
     fr_evidence_min (get_config two_versions) = 10 \<and> r_evidence_min (rules_for_record two_versions r) = 3"
proof -
  have "active_scheme two_versions = Some (version_of 2 scheme_active 10)"
    by (simp add: active_scheme_def two_versions_def) (simp add: version_of_def)
  then have "current_rules two_versions = rules_from (version_of 2 scheme_active 10)" by (simp add: current_rules_def)
  moreover have "rules_for_record two_versions ((demo_case draft)\<lparr>er_scheme := Some 1\<rparr>) = rules_from (version_of 1 scheme_retired 3)"
    by (simp add: rules_for_record_def two_versions_def get_scheme_def tbl_get_def) (simp add: version_of_def)
  ultimately show ?thesis
    by (simp add: get_config_def two_versions_def rules_from_def Let_def) (simp add: version_of_def demo_case_def)
qed

end
