(* ===== verification/Startup.thy ===== *)
theory Startup
  imports Accounts Import
begin

text \<open>
  What happens before the first request: the checks of the configuration (\<open>core/config.py\<close>), the search for accounts
  of the published demonstration (\<open>core/startup_checks.py\<close>), and the account that is made when nobody could grant
  anything (\<open>services/bootstrap_admin.py\<close>). A refused start is \<open>Inl\<close> of its message.
\<close>

section \<open>The configuration\<close>

record app_config =
  ac_environment :: string
  ac_database_url :: ustr
  ac_jwt_secret :: ustr
  ac_cors_origins :: ustr
  ac_public_url :: ustr
  ac_seed_demo :: bool
  ac_forwarded_ips :: ustr

definition INSECURE_SECRET :: ustr where
  "INSECURE_SECRET = lit ''change-this-to-a-long-random-string''"

definition starts_with :: "ustr \<Rightarrow> ustr \<Rightarrow> bool" where
  "starts_with p t \<longleftrightarrow> take (length p) t = p"

definition cors_origins_list :: "app_config \<Rightarrow> ustr list" where
  "cors_origins_list c = filter (\<lambda>t. t \<noteq> []) (map strip (split_on 44 (ac_cors_origins c)))"

definition normalised_url :: "app_config \<Rightarrow> app_config" where
  "normalised_url c = (let t = ac_database_url c in
     if starts_with (lit ''postgres://'') t
     then c\<lparr>ac_database_url := lit ''postgresql+psycopg://'' @ drop (length ''postgres://'') t\<rparr>
     else if starts_with (lit ''postgresql://'') t
     then c\<lparr>ac_database_url := lit ''postgresql+psycopg://'' @ drop (length ''postgresql://'') t\<rparr>
     else c)"

text \<open>No letter outside ASCII becomes a letter of the markers below by \<open>lower()\<close>.\<close>

definition lowered :: "ustr \<Rightarrow> ustr" where
  "lowered = map (\<lambda>c. if 65 \<le> c \<and> c \<le> 90 then c + 32 else c)"

fun has_part :: "ustr \<Rightarrow> ustr \<Rightarrow> bool" where
  "has_part p [] = (p = [])"
| "has_part p (c # cs) = (starts_with p (c # cs) \<or> has_part p cs)"

definition INSECURE_MARKERS :: "ustr list" where
  "INSECURE_MARKERS = [lit ''localhost'', lit ''127.0.0.1'', lit ''0.0.0.0'']"

definition looks_local :: "ustr \<Rightarrow> bool" where
  "looks_local t \<longleftrightarrow> (\<exists>m\<in>set INSECURE_MARKERS. has_part m (lowered t))"

definition is_https :: "ustr \<Rightarrow> bool" where
  "is_https t \<longleftrightarrow> starts_with (lit ''https://'') (lowered t)"

fun check_origins :: "ustr list \<Rightarrow> string + unit" where
  "check_origins [] = Inr ()"
| "check_origins (t # ts) = (if looks_local t then Inl ''a development origin''
     else if \<not> is_https t then Inl ''an origin without https'' else check_origins ts)"

text \<open>The validators in the order in which they are declared.\<close>

definition check_config :: "app_config \<Rightarrow> string + app_config" where
  "check_config c0 = (let c = normalised_url c0 in
     if ac_environment c \<noteq> ''production'' then Inr c
     else if ac_jwt_secret c = INSECURE_SECRET \<or> length (strip (ac_jwt_secret c)) < 32 then Inl ''insecure secret''
     else if ac_seed_demo c then Inl ''demonstration data in production''
     else if strip (ac_forwarded_ips c) = lit ''*'' then Inl ''every proxy is trusted''
     else bindE (check_origins (cors_origins_list c)) (\<lambda>_.
       if looks_local (ac_public_url c) then Inl ''a development address''
       else if \<not> is_https (ac_public_url c) then Inl ''an address without https''
       else Inr c))"

section \<open>Accounts of the demonstration\<close>

definition DEMO_USERNAMES :: "string list" where
  "DEMO_USERNAMES = [''hr1'', ''sup1'', ''sup2'', ''dep1'', ''ceo1'']"

definition DEMO_PASSWORD :: string where
  "DEMO_PASSWORD = ''DbsPulse@12345''"

definition find_active_demo_accounts :: "env \<Rightarrow> db \<Rightarrow> string list" where
  "find_active_demo_accounts e d = sort (map u_username
     (filter (\<lambda>x. u_username x \<in> set DEMO_USERNAMES \<and> u_is_active x \<and> password_matches e DEMO_PASSWORD (u_password_hash x)) (users d)))"

definition assert_no_demo_credentials :: "env \<Rightarrow> app_config \<Rightarrow> db \<Rightarrow> string + unit" where
  "assert_no_demo_credentials e c d = (if ac_environment c \<noteq> ''production'' then Inr ()
     else if find_active_demo_accounts e d = [] then Inr () else Inl ''active demonstration accounts'')"

section \<open>The first account\<close>

definition has_active_admin :: "db \<Rightarrow> bool" where
  "has_active_admin d \<longleftrightarrow> (\<exists>x\<in>set (users d). u_is_active x \<and> has_capability d (u_id x) manage_capabilities)"

definition name_suffix :: "nat \<Rightarrow> string" where
  "name_suffix n = map char_of (digits_of n)"

definition unique_username :: "db \<Rightarrow> string \<Rightarrow> string option" where
  "unique_username d base = (if user_by_name d base = None then Some base
     else find (\<lambda>name. user_by_name d name = None) (map (\<lambda>n. base @ name_suffix n) [2..<100]))"

definition admin_user :: "env \<Rightarrow> string \<Rightarrow> string \<Rightarrow> db \<Rightarrow> user" where
  "admin_user e password name d = \<lparr>u_id = tbl_next u_id (users d), u_personnel_id = None, u_username = name,
     u_full_name = Some (lit ''system administrator''), u_password_hash = password_digest e password, u_role = support,
     u_is_active = True, u_must_change_password = True, u_token_version = 0, u_email = None, u_phone = None,
     u_notify_by_email = False, u_notify_by_sms = False\<rparr>"

definition ALL_CAPABILITIES :: "capability list" where
  "ALL_CAPABILITIES = [manage_users, manage_capabilities, manage_scoring, manage_integrations, view_audit_log,
     manage_modules, view_diagnostics, manage_personnel]"

text \<open>The password and the wanted name are arguments: what the environment of the process says, else a random text and
  \<open>admin\<close>.\<close>

definition ensure_bootstrap_admin :: "env \<Rightarrow> string \<Rightarrow> string \<Rightarrow> db \<Rightarrow> string + string option \<times> db" where
  "ensure_bootstrap_admin e password base d =
     (if has_active_admin d then Inr (None, d)
      else case unique_username d base of
        None \<Rightarrow> Inl ''no free user name for the administrator''
      | Some name \<Rightarrow>
          (let x = admin_user e password name d
           in Inr (Some name, fold (grant (u_id x) None) ALL_CAPABILITIES (d\<lparr>users := users d @ [x]\<rparr>))))"

definition service_start :: "env \<Rightarrow> app_config \<Rightarrow> bool \<Rightarrow> string \<Rightarrow> string \<Rightarrow> db \<Rightarrow> string + db" where
  "service_start e c bootstrap password base d =
     bindE (assert_no_demo_credentials e c d) (\<lambda>_.
       if bootstrap then bindE (ensure_bootstrap_admin e password base d) (\<lambda>(n, d'). Inr d') else Inr d)"

section \<open>What a start does\<close>

lemma find_satisfies: "find P xs = Some y \<Longrightarrow> P y"
  by (auto simp: find_Some_iff)

lemma unique_username_free:
  assumes "unique_username d base = Some name"
  shows "user_by_name d name = None"
proof (cases "user_by_name d base = None")
  case True
  then show ?thesis using assms by (simp add: unique_username_def)
next
  case False
  show ?thesis using find_satisfies [OF assms [unfolded unique_username_def if_not_P [OF False]]] .
qed

text \<open>The foreign key of the capabilities.\<close>

definition holders_known :: "db \<Rightarrow> bool" where
  "holders_known d \<longleftrightarrow> uc_user ` set (capabilities d) \<subseteq> u_id ` set (users d)"

lemma has_capability_of: "has_capability d k c \<longleftrightarrow> c \<in> capabilities_of d k"
  by (auto simp: has_capability_def capabilities_of_def)

lemma has_active_admin_iff: "has_active_admin d \<longleftrightarrow> (\<exists>x\<in>set (users d). u_is_active x \<and> manage_capabilities \<in> capabilities_of d (u_id x))"
  by (simp add: has_active_admin_def has_capability_of)

lemma all_capabilities_granted: "c \<in> set ALL_CAPABILITIES"
  by (cases c) (simp_all add: ALL_CAPABILITIES_def)

lemma bootstrap_admin:
  assumes "ensure_bootstrap_admin e password base d = Inr (Some name, d')"
  defines "x \<equiv> admin_user e password name d"
  shows "users d' = users d @ [x] \<and> user_by_name d name = None \<and> capabilities_of d' (u_id x) = UNIV \<and> audits d' = audits d \<and>
    d' = fold (grant (u_id x) None) ALL_CAPABILITIES (d\<lparr>users := users d @ [x]\<rparr>)"
proof -
  have d': "d' = fold (grant (u_id x) None) ALL_CAPABILITIES (d\<lparr>users := users d @ [x]\<rparr>)" and "unique_username d base = Some name"
    using assms by (auto simp: ensure_bootstrap_admin_def Let_def split: if_splits option.splits)
  moreover have "capabilities_of d' (u_id x) = UNIV"
    by (auto simp: d' fold_grant_capabilities all_capabilities_granted)
  ultimately show ?thesis using unique_username_free by (auto simp: d')
qed

lemma bootstrap_accounts_ok:
  assumes ok: "accounts_ok d" "holders_known d" and run: "ensure_bootstrap_admin e password base d = Inr (n, d')"
  shows "accounts_ok d' \<and> holders_known d'"
proof (cases n)
  case None
  then show ?thesis using assms by (auto simp: ensure_bootstrap_admin_def Let_def split: if_splits option.splits)
next
  case (Some name)
  let ?x = "admin_user e password name d"
  let ?d = "d\<lparr>users := users d @ [?x]\<rparr>"
  note b = bootstrap_admin [OF run [unfolded Some]]
  then have d': "d' = fold (grant (u_id ?x) None) ALL_CAPABILITIES ?d" and free: "user_by_name d name = None" by blast+
  have id: "u_id ?x = tbl_next u_id (users d)" by (simp add: admin_user_def)
  have fresh: "u_id ?x \<notin> u_id ` set (users d)"
    using tbl_next_gt [of _ "users d" u_id] by (auto simp: id) (metis less_irrefl)
  have "uc_user c \<noteq> u_id ?x" if "c \<in> set (capabilities d)" for c
    using ok(2) fresh that unfolding holders_known_def image_subset_iff by metis
  then have none: "capabilities_of ?d (u_id ?x) = {}" by (auto simp: capabilities_of_def)
  have name: "u_username ?x \<notin> u_username ` set (users d)"
    using free by (auto simp: admin_user_def user_by_name_def find_None_iff)
  have caps: "caps_ok d'"
    unfolding d' by (rule fold_grant_caps_ok) (use ok none in \<open>simp_all add: ALL_CAPABILITIES_def accounts_ok_def caps_ok_def\<close>)
  have users: "users_ok d'"
    using ok fresh name by (auto simp: d' accounts_ok_def users_ok_def tbl_ok_def) (simp add: admin_user_def)
  have grants: "grants_logged d'"
    unfolding grants_logged_def
  proof (intro ballI allI impI)
    fix c g assume c: "c \<in> set (capabilities d')" "uc_granted_by c = Some g"
    then have "c \<in> set (capabilities d)" using fold_grant_rows [of c "u_id ?x" None ALL_CAPABILITIES ?d] by (auto simp: d')
    then show "g \<in> al_actor ` set (audits d')" using ok(1) c(2) by (auto simp: accounts_ok_def grants_logged_def d')
  qed
  have rest: "seats_known d'" "segregated d'" "accesses_ok d'"
    using ok(1) fresh by (auto simp: d' accounts_ok_def seats_known_def segregated_def own_evaluator_def accesses_ok_def)
  have "holders_known d'"
  proof -
    have "uc_user c = u_id ?x \<or> c \<in> set (capabilities ?d)"
      if "c \<in> set (capabilities (fold (grant (u_id ?x) None) cs ?d))" for c cs
      using that by (induction cs rule: rev_induct) (auto simp: grant_def)
    then have "uc_user c = u_id ?x \<or> c \<in> set (capabilities d)" if "c \<in> set (capabilities d')" for c
      using that by (simp add: d')
    moreover have "uc_user c \<in> u_id ` set (users d)" if "c \<in> set (capabilities d)" for c
      using ok(2) that by (auto simp: holders_known_def)
    ultimately show ?thesis by (auto simp: holders_known_def d')
  qed
  then show ?thesis using caps users grants rest by (simp add: accounts_ok_def)
qed

end
