(* ===== verification/StartupProperties.thy ===== *)
theory StartupProperties
  imports Startup Samples
begin

text \<open>The properties of a start of the service.\<close>

lemma find_none_upt: "find P (map f [a..<n]) = None \<longleftrightarrow> (\<forall>i\<in>{a..<n}. \<not> P (f i))"
  by (auto simp: find_None_iff)

lemma unique_username_None: "unique_username d base = None \<longleftrightarrow> user_by_name d base \<noteq> None \<and>
    (\<forall>i\<in>{2..<100}. user_by_name d (base @ name_suffix i) \<noteq> None)"
  unfolding unique_username_def by (subst if_distrib [of "\<lambda>v. v = None"], subst find_none_upt) simp

lemma bootstrap_refused: "(\<exists>t. ensure_bootstrap_admin e password base d = Inl t) \<longleftrightarrow>
    \<not> has_active_admin d \<and> unique_username d base = None"
  by (simp add: ensure_bootstrap_admin_def Let_def split: option.split)

text \<open>C32. After a start somebody can grant: a start that is not refused leaves an active account that may give capabilities,
  whatever was done to the accounts before; it keeps the accounts well formed, touches nobody who was there, adds
  at most one account, which must change its password, and the next start adds none. It is refused exactly when
  nobody can grant and the wanted name and its ninety-eight variants are all taken.\<close>

theorem somebody_can_grant_after_a_start:
  assumes "accounts_ok d" and "holders_known d"
  shows "(ensure_bootstrap_admin e password base d = Inr (n, d') \<longrightarrow>
      has_active_admin d' \<and> accounts_ok d' \<and> ensure_bootstrap_admin e password' base' d' = Inr (None, d') \<and>
      (\<exists>xs. users d' = users d @ xs \<and> length xs \<le> 1 \<and> (\<forall>x\<in>set xs. u_must_change_password x \<and> u_role x = support))) \<and>
    ((\<exists>t. ensure_bootstrap_admin e password base d = Inl t) \<longleftrightarrow> \<not> has_active_admin d \<and> user_by_name d base \<noteq> None \<and>
      (\<forall>i\<in>{2..<100}. user_by_name d (base @ name_suffix i) \<noteq> None))"
proof (intro conjI impI)
  assume run: "ensure_bootstrap_admin e password base d = Inr (n, d')"
  have admin: "has_active_admin d' \<and> (\<exists>xs. users d' = users d @ xs \<and> length xs \<le> 1 \<and>
      (\<forall>x\<in>set xs. u_must_change_password x \<and> u_role x = support))"
  proof (cases n)
    case None
    then have "d' = d" "has_active_admin d" using run by (auto simp: ensure_bootstrap_admin_def Let_def split: if_splits option.splits)
    then show ?thesis by simp
  next
    case (Some name)
    let ?x = "admin_user e password name d"
    have u: "users d' = users d @ [?x]" and c: "capabilities_of d' (u_id ?x) = UNIV"
      using bootstrap_admin [OF run [unfolded Some]] by blast+
    have "?x \<in> set (users d')" by (simp add: u)
    moreover have "u_is_active ?x" by (simp add: admin_user_def)
    ultimately have "has_active_admin d'" using c by (auto simp: has_active_admin_iff)
    moreover have "u_must_change_password ?x \<and> u_role ?x = support" by (simp add: admin_user_def)
    ultimately show ?thesis using u by (intro conjI exI [of _ "[?x]"]) simp_all
  qed
  then show "has_active_admin d'" and "\<exists>xs. users d' = users d @ xs \<and> length xs \<le> 1 \<and>
      (\<forall>x\<in>set xs. u_must_change_password x \<and> u_role x = support)" by blast+
  show "accounts_ok d'" using bootstrap_accounts_ok [OF assms run] by blast
  show "ensure_bootstrap_admin e password' base' d' = Inr (None, d')" using admin by (simp add: ensure_bootstrap_admin_def)
next
  show "(\<exists>t. ensure_bootstrap_admin e password base d = Inl t) \<longleftrightarrow> \<not> has_active_admin d \<and> user_by_name d base \<noteq> None \<and>
      (\<forall>i\<in>{2..<100}. user_by_name d (base @ name_suffix i) \<noteq> None)"
    unfolding bootstrap_refused unique_username_None by (rule refl)
qed

text \<open>A locked installation: the only account that could grant has been deactivated.\<close>

definition locked_db :: db where
  "locked_db = empty_db\<lparr>users := [(demo_user 1 support None)\<lparr>u_username := ''admin'', u_is_active := False\<rparr>]\<rparr>"

theorem somebody_can_grant_after_a_start_witness:
  "\<exists>d'. ensure_bootstrap_admin demo_env ''a long password'' ''admin'' locked_db = Inr (Some ''admin2'', d') \<and> has_active_admin d'"
proof -
  have ok: "accounts_ok locked_db" "holders_known locked_db"
    by (simp_all add: locked_db_def empty_db_def accounts_ok_def users_ok_def tbl_ok_def caps_ok_def grants_logged_def seats_known_def
        segregated_def accesses_ok_def holders_known_def demo_user_def)
  have none: "\<not> has_active_admin locked_db" by (simp add: has_active_admin_def locked_db_def)
  have taken: "user_by_name locked_db name = None \<longleftrightarrow> name \<noteq> ''admin''" for name
    by (auto simp: user_by_name_def locked_db_def)
  have two: "name_suffix 2 = ''2''" by code_simp
  have "[2..<100] = (2::nat) # [3..<100]" by (subst upt_conv_Cons) simp_all
  then have "unique_username locked_db ''admin'' = Some ''admin2''"
    by (simp add: unique_username_def taken two)
  then obtain d' where run: "ensure_bootstrap_admin demo_env ''a long password'' ''admin'' locked_db = Inr (Some ''admin2'', d')"
    using none by (simp add: ensure_bootstrap_admin_def Let_def)
  then show ?thesis using conjunct1 [OF somebody_can_grant_after_a_start [OF ok]] by blast
qed

end
