(* ===== verification/UserPages.thy ===== *)
theory UserPages
  imports Sheets Accounts
begin

text \<open>
  The pages of \<open>routers/users.py\<close> that read: the filtered list of accounts, page by page, and the workbook of the same
  rows, whose download is logged. \<open>like\<close> is the comparison \<open>ILIKE\<close> of the database, \<open>order\<close> the order it sorts the rows
  in, which depends on its collation; \<open>created\<close> is the column \<open>created_at\<close>.
\<close>

record user_filter =
  uf_role :: "user_role option"
  uf_query :: "ustr option"
  uf_active :: "bool option"

text \<open>A name that is missing matches no pattern.\<close>

definition matches_name :: "(ustr \<Rightarrow> ustr \<Rightarrow> bool) \<Rightarrow> ustr \<Rightarrow> ustr option \<Rightarrow> bool" where
  "matches_name like pattern t \<longleftrightarrow> (case t of None \<Rightarrow> False | Some s \<Rightarrow> like pattern s)"

definition passes_user_filter :: "(ustr \<Rightarrow> ustr \<Rightarrow> bool) \<Rightarrow> db \<Rightarrow> user_filter \<Rightarrow> user \<Rightarrow> bool" where
  "passes_user_filter like d f x \<longleftrightarrow>
     (case uf_role f of None \<Rightarrow> True | Some r \<Rightarrow> u_role x = r) \<and>
     (case uf_query f of None \<Rightarrow> True
      | Some q \<Rightarrow> q = [] \<or> (let pattern = [37] @ strip q @ [37] in
          like pattern (lit (u_username x)) \<or> matches_name like pattern (u_full_name x) \<or>
          matches_name like pattern (linked_name d x))) \<and>
     (case uf_active f of None \<Rightarrow> True | Some b \<Rightarrow> u_is_active x = b)"

datatype user_column = col_username | col_display_name | col_role

text \<open>The text that a column is sorted by.\<close>

definition user_sort_text :: "db \<Rightarrow> user_column \<Rightarrow> user \<Rightarrow> ustr" where
  "user_sort_text d c x = (case c of
     col_username \<Rightarrow> lit (u_username x)
   | col_display_name \<Rightarrow> (case linked_name d x of Some t \<Rightarrow> t
       | None \<Rightarrow> (case u_full_name x of Some t \<Rightarrow> t | None \<Rightarrow> lit (u_username x)))
   | col_role \<Rightarrow> (if u_role x = support then lit ''technical support'' else role_label (u_role x)))"

record user_read =
  rd_user :: user
  rd_display_name :: ustr

definition user_read_of :: "db \<Rightarrow> user \<Rightarrow> user_read" where
  "user_read_of d x = \<lparr>rd_user = x, rd_display_name =
     (case linked_name d x of Some (c # cs) \<Rightarrow> c # cs | _ \<Rightarrow> display_name d x)\<rparr>"

definition filtered_users ::
  "(ustr \<Rightarrow> ustr \<Rightarrow> bool) \<Rightarrow> ((user \<Rightarrow> ustr) \<Rightarrow> bool \<Rightarrow> user list \<Rightarrow> user list) \<Rightarrow> db \<Rightarrow> user_filter \<Rightarrow> user_column \<Rightarrow> bool \<Rightarrow> user list" where
  "filtered_users like order d f c down = order (user_sort_text d c) down (filter (passes_user_filter like d f) (users d))"

definition list_users ::
  "(ustr \<Rightarrow> ustr \<Rightarrow> bool) \<Rightarrow> ((user \<Rightarrow> ustr) \<Rightarrow> bool \<Rightarrow> user list \<Rightarrow> user list) \<Rightarrow> db \<Rightarrow> current_user \<Rightarrow> user_filter \<Rightarrow>
   user_column \<Rightarrow> bool \<Rightarrow> int \<Rightarrow> int \<Rightarrow> (nat \<times> user_read list) result" where
  "list_users like order d u f c down limit offset =
     bindE (require_capability [manage_users] u d) (\<lambda>_.
     bindE (require (1 \<le> limit \<and> limit \<le> 1000 \<and> 0 \<le> offset) (HTTPException 422 ''invalid page'')) (\<lambda>_.
       Inr (length (filter (passes_user_filter like d f) (users d)),
            map (user_read_of d) (take (nat limit) (drop (nat offset) (filtered_users like order d f c down))))))"

definition export_users ::
  "env \<Rightarrow> (date \<Rightarrow> int \<times> int \<times> int) \<Rightarrow> (user \<Rightarrow> moment) \<Rightarrow> (ustr \<Rightarrow> ustr \<Rightarrow> bool) \<Rightarrow>
   ((user \<Rightarrow> ustr) \<Rightarrow> bool \<Rightarrow> user list \<Rightarrow> user list) \<Rightarrow> current_user \<Rightarrow> user_filter \<Rightarrow> user_column \<Rightarrow> bool \<Rightarrow> db \<Rightarrow>
   (cell list list \<times> db) result" where
  "export_users e jalali_of created like order u f c down d =
     bindE (require_capability [manage_users] u d) (\<lambda>_.
       Inr (user_sheet jalali_of created d (filtered_users like order d f c down),
            log_event e (cu_id u) ''users_excel_exported'' None None None d))"

section \<open>Pages and names\<close>

text \<open>The name in the list is the display name of the account.\<close>

lemma listed_name: "rd_display_name (user_read_of d x) = display_name d x"
  by (auto simp: user_read_of_def linked_name_def display_name_def Let_def split: option.splits list.splits bind_splits)

lemma pages_cover: "concat (map (\<lambda>i. take n (drop (i * n) xs)) [0..<k]) = take (k * n) xs"
proof (induction k)
  case (Suc k)
  have "Suc k * n = k * n + n" by simp
  then have "take (Suc k * n) xs = take (k * n) xs @ take n (drop (k * n) xs)" by (simp only: take_add)
  then show ?case using Suc by simp
qed simp

text \<open>The pages together show every matching account once, in the order of the list.\<close>

lemma pages_list_everybody:
  assumes "manage_users \<in> capabilities_of d (cu_id u)" and "1 \<le> n" and "n \<le> 1000"
    and "length (filtered_users like order d f c down) \<le> k * n"
  shows "concat (map (\<lambda>i. case list_users like order d u f c down (int n) (int (i * n)) of Inr (t, rows) \<Rightarrow> rows | Inl _ \<Rightarrow> [])
      [0..<k]) = map (user_read_of d) (filtered_users like order d f c down)"
proof -
  have "(case list_users like order d u f c down (int n) (int (i * n)) of Inr (t, rows) \<Rightarrow> rows | Inl _ \<Rightarrow> []) =
      map (user_read_of d) (take n (drop (i * n) (filtered_users like order d f c down)))" for i
    using assms(1-3) by (simp add: list_users_def require_capability_def del: of_nat_mult)
  then show ?thesis using pages_cover [of n "map (user_read_of d) (filtered_users like order d f c down)" k] assms(4)
    by (simp add: take_map drop_map)
qed

end
