(* ===== verification/Channels.thy ===== *)
theory Channels
  imports Settings Startup "HOL-Library.AList"
begin

text \<open>
  The channels of \<open>services/channels\<close>: which ones can be used with the settings in force, the message that the mail
  channel hands over, and the request that the SMS channel fills in from its templates. The mail server
  (\<open>mail\<close>), the HTTP client (\<open>http\<close>), the JSON reader of the header setting (\<open>loads\<close>) and \<open>str.upper\<close>
  (\<open>upper\<close>) are arguments.
\<close>

section \<open>Settings and availability\<close>

record channel_settings =
  ch_console :: bool
  ch_base_url :: ustr
  ch_smtp_host :: ustr
  ch_smtp_port :: int
  ch_smtp_from :: ustr
  ch_smtp_username :: ustr
  ch_smtp_starttls :: bool
  ch_smtp_ssl :: bool
  ch_sms_url :: ustr
  ch_sms_method :: ustr
  ch_sms_headers :: ustr
  ch_sms_body :: ustr
  ch_sms_api_key :: ustr
  ch_sms_success :: ustr

definition live_bool :: "(string \<Rightarrow> setting_value) \<Rightarrow> string \<Rightarrow> bool" where
  "live_bool live k \<longleftrightarrow> live k = SBool True"

definition channel_settings_of ::
  "bool \<Rightarrow> ustr \<Rightarrow> (string \<Rightarrow> setting_value) \<Rightarrow> (string \<Rightarrow> ustr) \<Rightarrow> channel_settings" where
  "channel_settings_of console base live secret = \<lparr>ch_console = console, ch_base_url = base,
     ch_smtp_host = serialise (live ''smtp_host''), ch_smtp_port = live_int live ''smtp_port'',
     ch_smtp_from = serialise (live ''smtp_from''), ch_smtp_username = secret ''smtp_username'',
     ch_smtp_starttls = live_bool live ''smtp_use_starttls'', ch_smtp_ssl = live_bool live ''smtp_use_ssl'',
     ch_sms_url = serialise (live ''sms_url''), ch_sms_method = serialise (live ''sms_method''),
     ch_sms_headers = serialise (live ''sms_headers''), ch_sms_body = serialise (live ''sms_body''),
     ch_sms_api_key = secret ''sms_api_key'', ch_sms_success = serialise (live ''sms_success_contains'')\<rparr>"

datatype channel = ConsoleChannel delivery_channel | SmtpChannel | HttpSmsChannel

fun channel_kind :: "channel \<Rightarrow> delivery_channel" where
  "channel_kind (ConsoleChannel k) = k"
| "channel_kind SmtpChannel = email"
| "channel_kind HttpSmsChannel = sms"

fun is_configured :: "channel_settings \<Rightarrow> channel \<Rightarrow> bool" where
  "is_configured c (ConsoleChannel k) = True"
| "is_configured c SmtpChannel = (ch_smtp_host c \<noteq> [] \<and> ch_smtp_from c \<noteq> [])"
| "is_configured c HttpSmsChannel = (ch_sms_url c \<noteq> [])"

definition all_channels :: "channel_settings \<Rightarrow> channel list" where
  "all_channels c = (if ch_console c then [ConsoleChannel email, ConsoleChannel sms] else [SmtpChannel, HttpSmsChannel])"

definition available :: "channel_settings \<Rightarrow> channel list" where
  "available c = filter (is_configured c) (all_channels c)"

definition channel_for :: "channel_settings \<Rightarrow> delivery_channel \<Rightarrow> channel option" where
  "channel_for c k = find (\<lambda>ch. channel_kind ch = k) (available c)"

section \<open>Messages\<close>

record message =
  ms_recipient :: ustr
  ms_subject :: ustr
  ms_body :: ustr
  ms_link :: ustr

definition subject_for :: "notification \<Rightarrow> ustr" where
  "subject_for n = lit ''DbsPulse '' @ [8212] @ lit '' '' @ take 60 (nt_message n)"

text \<open>The base address without the slashes at its end, and the link after it; an empty link adds nothing.\<close>

definition with_link :: "channel_settings \<Rightarrow> ustr \<Rightarrow> message \<Rightarrow> ustr" where
  "with_link c sep m = (if ms_link m = [] then ms_body m
     else ms_body m @ sep @ rev (dropWhile (\<lambda>x. x = 47) (rev (ch_base_url c))) @ ms_link m)"

section \<open>Mail\<close>

record mail =
  ml_host :: ustr
  ml_port :: int
  ml_ssl :: bool
  ml_starttls :: bool
  ml_login :: bool
  ml_from :: ustr
  ml_to :: ustr
  ml_subject :: ustr
  ml_text :: ustr

datatype mail_outcome = MailTaken | MailReply int | MailRefused | MailUnreachable | MailCrashed string

definition smtp_send :: "channel_settings \<Rightarrow> (mail \<Rightarrow> mail_outcome) \<Rightarrow> message \<Rightarrow> send_outcome" where
  "smtp_send c mail m =
     (if \<not> is_configured c SmtpChannel then SendFailed ''mail is not configured'' False
      else case mail \<lparr>ml_host = ch_smtp_host c, ml_port = ch_smtp_port c, ml_ssl = ch_smtp_ssl c,
          ml_starttls = (ch_smtp_starttls c \<and> \<not> ch_smtp_ssl c), ml_login = (ch_smtp_username c \<noteq> []),
          ml_from = ch_smtp_from c, ml_to = ms_recipient m, ml_subject = ms_subject m, ml_text = with_link c [10, 10] m\<rparr> of
        MailTaken \<Rightarrow> SendOk
      | MailReply code \<Rightarrow> SendFailed ''an answer of the server'' (smtp_retryable code)
      | MailRefused \<Rightarrow> SendFailed ''the recipient was refused'' False
      | MailUnreachable \<Rightarrow> SendFailed ''no connection'' True
      | MailCrashed t \<Rightarrow> SendCrashed t)"

section \<open>Filling in a template\<close>

text \<open>\<open>str.replace\<close>: from left to right, without looking at what has been put in. The searched text is not empty.\<close>

fun replace_all :: "ustr \<Rightarrow> ustr \<Rightarrow> ustr \<Rightarrow> ustr" where
  "replace_all old new [] = []"
| "replace_all old new (c # cs) = (if old \<noteq> [] \<and> starts_with old (c # cs)
     then new @ replace_all old new (drop (length old - 1) cs) else c # replace_all old new cs)"

text \<open>\<open>urllib.parse.quote\<close>: the bytes of the character in UTF-8, those that are not safe as a percent sign and two digits.\<close>

definition url_safe :: "nat \<Rightarrow> bool" where
  "url_safe c \<longleftrightarrow> 48 \<le> c \<and> c \<le> 57 \<or> 65 \<le> c \<and> c \<le> 90 \<or> 97 \<le> c \<and> c \<le> 122 \<or> c \<in> {95, 46, 45, 126, 47}"

definition utf8 :: "nat \<Rightarrow> nat list" where
  "utf8 c = (if c < 128 then [c] else if c < 2048 then [192 + c div 64, 128 + c mod 64]
     else if c < 65536 then [224 + c div 4096, 128 + c div 64 mod 64, 128 + c mod 64]
     else [240 + c div 262144, 128 + c div 4096 mod 64, 128 + c div 64 mod 64, 128 + c mod 64])"

definition upper_hex :: "nat \<Rightarrow> nat" where
  "upper_hex n = (if n < 10 then 48 + n else 55 + n)"

definition quote_char :: "nat \<Rightarrow> ustr" where
  "quote_char c = (if url_safe c then [c] else concat (map (\<lambda>b. [37, upper_hex (b div 16), upper_hex (b mod 16)]) (utf8 c)))"

datatype quoting = Url | Json

fun escape_for :: "quoting \<Rightarrow> ustr \<Rightarrow> ustr" where
  "escape_for Url t = concat (map quote_char t)"
| "escape_for Json t = concat (map escape_char t)"

definition render :: "ustr \<Rightarrow> ustr \<Rightarrow> ustr \<Rightarrow> ustr \<Rightarrow> quoting \<Rightarrow> ustr" where
  "render key template recipient body q =
     replace_all (lit ''{api_key}'') (escape_for q key)
       (replace_all (lit ''{message}'') (escape_for q body)
         (replace_all (lit ''{recipient}'') (escape_for q recipient) template))"

section \<open>SMS\<close>

record sms_request =
  rq_url :: ustr
  rq_method :: ustr
  rq_headers :: "(ustr \<times> ustr) list"
  rq_data :: "ustr option"

datatype header_setting = NotJson | NotAnObject | Headers "(ustr \<times> ustr) list"

datatype http_outcome = Answered ustr | HttpError int | Unreachable | HttpCrashed string

text \<open>A text with half of a surrogate pair cannot be written as bytes.\<close>

definition encodable :: "ustr \<Rightarrow> bool" where
  "encodable t \<longleftrightarrow> (\<forall>c\<in>set t. c < 55296 \<or> 57343 < c)"

definition sms_headers_of :: "(ustr \<Rightarrow> ustr) \<Rightarrow> (ustr \<times> ustr) list \<Rightarrow> (ustr \<times> ustr) list" where
  "sms_headers_of fill hs =
     fold (\<lambda>(k, v). AList.update k (fill v)) hs [(lit ''Content-Type'', lit ''application/json'')]"

definition sms_send ::
  "channel_settings \<Rightarrow> (ustr \<Rightarrow> ustr) \<Rightarrow> (ustr \<Rightarrow> header_setting) \<Rightarrow> (sms_request \<Rightarrow> http_outcome) \<Rightarrow> message \<Rightarrow> send_outcome" where
  "sms_send c upper loads http m =
     (if \<not> is_configured c HttpSmsChannel then SendFailed ''the SMS service is not configured'' False
      else
        let t = with_link c [10] m;
            fill = (\<lambda>template. render (ch_sms_api_key c) template (ms_recipient m) t);
            data = fill (ch_sms_body c) Json;
            request = (\<lambda>hs. \<lparr>rq_url = fill (ch_sms_url c) Url, rq_method = upper (ch_sms_method c), rq_headers = hs,
                rq_data = (if ch_sms_body c = [] then None else Some data)\<rparr>);
            answer = (\<lambda>hs. case http (request hs) of
                HttpError status \<Rightarrow> SendFailed ''an error of the service'' (sms_retryable status)
              | Unreachable \<Rightarrow> SendFailed ''no connection'' True
              | HttpCrashed x \<Rightarrow> SendCrashed x
              | Answered payload \<Rightarrow>
                  if ch_sms_success c \<noteq> [] \<and> \<not> has_part (ch_sms_success c) payload
                  then SendFailed ''the answer has no sign of success'' True else SendOk)
        in if \<not> encodable (ms_recipient m) \<or> \<not> encodable t \<or> \<not> encodable (ch_sms_api_key c) then SendCrashed ''no such bytes''
           else if ch_sms_body c \<noteq> [] \<and> \<not> encodable data then SendCrashed ''no such bytes''
           else if ch_sms_headers c = [] then answer (sms_headers_of (\<lambda>v. fill v Json) [])
           else case loads (ch_sms_headers c) of
               NotJson \<Rightarrow> SendFailed ''the headers are not JSON'' False
             | NotAnObject \<Rightarrow> SendCrashed ''no items''
             | Headers hs \<Rightarrow> answer (sms_headers_of (\<lambda>v. fill v Json) hs))"

section \<open>What the sweep sends with\<close>

fun channel_send ::
  "channel_settings \<Rightarrow> (mail \<Rightarrow> mail_outcome) \<Rightarrow> (ustr \<Rightarrow> ustr) \<Rightarrow> (ustr \<Rightarrow> header_setting) \<Rightarrow>
   (sms_request \<Rightarrow> http_outcome) \<Rightarrow> channel \<Rightarrow> message \<Rightarrow> send_outcome" where
  "channel_send c mail upper loads http (ConsoleChannel k) m = SendOk"
| "channel_send c mail upper loads http SmtpChannel m = smtp_send c mail m"
| "channel_send c mail upper loads http HttpSmsChannel m = sms_send c upper loads http m"

definition message_for :: "notification_delivery \<Rightarrow> notification \<Rightarrow> message" where
  "message_for v n = \<lparr>ms_recipient = lit (nd_recipient v), ms_subject = subject_for n, ms_body = nt_message n,
     ms_link = (case nt_link n of None \<Rightarrow> [] | Some t \<Rightarrow> lit t)\<rparr>"

text \<open>The sender of a sweep; \<open>channels_on\<close> of the environment is \<open>kinds_on\<close>, so the first case is never met.\<close>

definition kinds_on :: "channel_settings \<Rightarrow> delivery_channel list" where
  "kinds_on c = map channel_kind (available c)"

definition outbound ::
  "channel_settings \<Rightarrow> (mail \<Rightarrow> mail_outcome) \<Rightarrow> (ustr \<Rightarrow> ustr) \<Rightarrow> (ustr \<Rightarrow> header_setting) \<Rightarrow> (sms_request \<Rightarrow> http_outcome) \<Rightarrow> sender" where
  "outbound c mail upper loads http v n = (case channel_for c (nd_channel v) of
     None \<Rightarrow> SendCrashed ''no channel''
   | Some ch \<Rightarrow> channel_send c mail upper loads http ch (message_for v n))"

end
