(* ===== verification/ChannelProperties.thy ===== *)
theory ChannelProperties
  imports Channels
begin

text \<open>The properties of the channels: what a filled-in template looks like to the service that reads it, which channel a
  message goes to, and a message that carries the key of the service.\<close>

section \<open>Replacing in a text of pieces\<close>

text \<open>A text in which no opening brace is followed by the character \<open>x\<close> or by the end.\<close>

fun calm :: "nat \<Rightarrow> ustr \<Rightarrow> bool" where
  "calm x [] = True"
| "calm x (c # cs) = ((c = 123 \<longrightarrow> cs \<noteq> [] \<and> hd cs \<noteq> x) \<and> calm x cs)"

lemma calm_no_brace: "123 \<notin> set t \<Longrightarrow> calm x t"
  by (induction t) auto

lemma replace_all_calm: "calm x p \<Longrightarrow> replace_all (123 # x # old) new (p @ rest) = p @ replace_all (123 # x # old) new rest"
proof (induction p)
  case (Cons c p)
  then have "\<not> starts_with (123 # x # old) (c # p @ rest)" by (cases p) (auto simp: starts_with_def)
  then show ?case using Cons by simp
qed simp

lemma replace_all_here: "replace_all (c # old) new ((c # old) @ rest) = new @ replace_all (c # old) new rest"
  by (simp add: starts_with_def)

lemma replace_pieces:
  assumes "\<And>p. p \<in> set ps \<Longrightarrow> f p = 123 # x # old \<and> g p = new \<or> calm x (f p) \<and> g p = f p"
  shows "replace_all (123 # x # old) new (concat (map f ps)) = concat (map g ps)"
  using assms
proof (induction ps)
  case (Cons p ps)
  then have IH: "replace_all (123 # x # old) new (concat (map f ps)) = concat (map g ps)" by simp
  from Cons.prems [of p] consider "f p = 123 # x # old" "g p = new" | "calm x (f p)" "g p = f p" by auto
  then show ?case
  proof cases
    case 1
    then show ?thesis using replace_all_here [of 123 "x # old" new "concat (map f ps)"] IH by simp
  next
    case 2
    then show ?thesis using replace_all_calm [of x "f p" old new "concat (map f ps)"] IH by simp
  qed
qed simp

section \<open>Templates as pieces\<close>

datatype piece = Fixed ustr | TheRecipient | TheMessage | TheKey

fun source_of :: "piece \<Rightarrow> ustr" where
  "source_of (Fixed t) = t"
| "source_of TheRecipient = lit ''{recipient}''"
| "source_of TheMessage = lit ''{message}''"
| "source_of TheKey = lit ''{api_key}''"

fun value_of :: "ustr \<Rightarrow> ustr \<Rightarrow> ustr \<Rightarrow> quoting \<Rightarrow> piece \<Rightarrow> ustr" where
  "value_of key recipient body q (Fixed t) = t"
| "value_of key recipient body q TheRecipient = escape_for q recipient"
| "value_of key recipient body q TheMessage = escape_for q body"
| "value_of key recipient body q TheKey = escape_for q key"

definition fixed_ok :: "piece list \<Rightarrow> bool" where
  "fixed_ok ps \<longleftrightarrow> (\<forall>t. Fixed t \<in> set ps \<longrightarrow> calm 114 t \<and> calm 109 t \<and> calm 97 t)"

lemma placeholders:
  "lit ''{recipient}'' = 123 # 114 # lit ''ecipient}''" "lit ''{message}'' = 123 # 109 # lit ''essage}''"
  "lit ''{api_key}'' = 123 # 97 # lit ''pi_key}''"
  by (simp_all add: lit_def)

lemma placeholders_calm:
  "calm 109 (lit ''{recipient}'')" "calm 97 (lit ''{recipient}'')" "calm 114 (lit ''{message}'')" "calm 97 (lit ''{message}'')"
  "calm 114 (lit ''{api_key}'')" "calm 109 (lit ''{api_key}'')"
  by code_simp+

lemma render_pieces:
  assumes ps: "fixed_ok ps" and texts: "123 \<notin> set (escape_for q recipient)" "123 \<notin> set (escape_for q body)"
  shows "render key (concat (map source_of ps)) recipient body q = concat (map (value_of key recipient body q) ps)"
proof -
  define s1 where "s1 p = (if p = TheRecipient then escape_for q recipient else source_of p)" for p
  define s2 where "s2 p = (if p = TheMessage then escape_for q body else s1 p)" for p
  note calm = texts [THEN calm_no_brace] placeholders_calm
  have fixed: "calm 114 t \<and> calm 109 t \<and> calm 97 t" if "p \<in> set ps" "p = Fixed t" for p t
    using ps that by (auto simp: fixed_ok_def)
  have "replace_all (lit ''{recipient}'') (escape_for q recipient) (concat (map source_of ps)) = concat (map s1 ps)"
    unfolding placeholders(1)
  proof (rule replace_pieces)
    fix p assume p: "p \<in> set ps"
    show "source_of p = 123 # 114 # lit ''ecipient}'' \<and> s1 p = escape_for q recipient \<or> calm 114 (source_of p) \<and> s1 p = source_of p"
      by (cases p) (use fixed [OF p] calm in \<open>simp_all add: s1_def placeholders(1)\<close>)
  qed
  moreover have "replace_all (lit ''{message}'') (escape_for q body) (concat (map s1 ps)) = concat (map s2 ps)"
    unfolding placeholders(2)
  proof (rule replace_pieces)
    fix p assume p: "p \<in> set ps"
    show "s1 p = 123 # 109 # lit ''essage}'' \<and> s2 p = escape_for q body \<or> calm 109 (s1 p) \<and> s2 p = s1 p"
      by (cases p) (use fixed [OF p] calm in \<open>simp_all add: s1_def s2_def placeholders(2)\<close>)
  qed
  moreover have "replace_all (lit ''{api_key}'') (escape_for q key) (concat (map s2 ps)) = concat (map (value_of key recipient body q) ps)"
    unfolding placeholders(3)
  proof (rule replace_pieces)
    fix p assume p: "p \<in> set ps"
    show "s2 p = 123 # 97 # lit ''pi_key}'' \<and> value_of key recipient body q p = escape_for q key \<or>
        calm 97 (s2 p) \<and> value_of key recipient body q p = s2 p"
      by (cases p) (use fixed [OF p] calm in \<open>simp_all add: s1_def s2_def placeholders(3)\<close>)
  qed
  ultimately show ?thesis by (simp add: render_def)
qed

section \<open>Reading the values back\<close>






lemma utf8_bytes: "c < 1114112 \<Longrightarrow> b \<in> set (utf8 c) \<Longrightarrow> b < 256"
  by (auto simp: utf8_def less_mult_imp_div_less split: if_splits)








definition text_ok :: "ustr \<Rightarrow> bool" where
  "text_ok t \<longleftrightarrow> (\<forall>c\<in>set t. c < 1114112)"

lemma upper_hex_safe: "n < 16 \<Longrightarrow> url_safe (upper_hex n)"
  by (auto simp: url_safe_def upper_hex_def)

lemma url_chars:
  assumes "text_ok t" and "c \<in> set (escape_for Url t)"
  shows "url_safe c \<or> c = 37"
proof -
  obtain x where x: "x \<in> set t" "c \<in> set (quote_char x)" using assms(2) by auto
  show ?thesis
  proof (cases "url_safe x \<or> c = 37")
    case False
    then obtain b where b: "b \<in> set (utf8 x)" "c \<in> set [37, upper_hex (b div 16), upper_hex (b mod 16)]"
      using x(2) by (auto simp: quote_char_def split: if_splits)
    then have "b < 256" using assms(1) x(1) utf8_bytes by (auto simp: text_ok_def)
    then have "b div 16 < 16" by (simp add: less_mult_imp_div_less)
    then show ?thesis using b(2) upper_hex_safe by fastforce
  qed (use x(2) in \<open>auto simp: quote_char_def\<close>)
qed

lemma json_char_brace: "123 \<in> set (escape_char c) \<Longrightarrow> c = 123"
  by (rule ccontr) (auto simp: escape_char_def hex_digit_def split: if_splits)

lemma brace_free:
  assumes "text_ok t" and "q = Json \<Longrightarrow> 123 \<notin> set t"
  shows "123 \<notin> set (escape_for q t)"
proof (cases q)
  case Url
  then show ?thesis using url_chars [OF assms(1), of 123] by (auto simp: url_safe_def)
next
  case Json
  then show ?thesis using assms(2) json_char_brace by auto
qed

section \<open>The properties\<close>


text \<open>The SMS channel asks for no other address than the one filled in that way, whatever the message says.\<close>

lemma sms_asks_this_address:
  assumes "ch_sms_url c = concat (map source_of ps)" and "fixed_ok ps" and "text_ok (ms_recipient m)"
    and "text_ok (with_link c [10] m)"
    and "\<And>r. rq_url r = concat (map (value_of (ch_sms_api_key c) (ms_recipient m) (with_link c [10] m) Url) ps) \<Longrightarrow> http r = http' r"
  shows "sms_send c upper loads http m = sms_send c upper loads http' m"
proof -
  have "render (ch_sms_api_key c) (ch_sms_url c) (ms_recipient m) (with_link c [10] m) Url =
      concat (map (value_of (ch_sms_api_key c) (ms_recipient m) (with_link c [10] m) Url) ps)"
    unfolding assms(1) by (rule render_pieces [OF assms(2)]) (rule brace_free; use assms(3,4) in simp)+
  then have same: "http \<lparr>rq_url = render (ch_sms_api_key c) (ch_sms_url c) (ms_recipient m) (with_link c [10] m) Url,
      rq_method = a, rq_headers = hs, rq_data = b\<rparr> = http' \<lparr>rq_url = render (ch_sms_api_key c) (ch_sms_url c) (ms_recipient m)
      (with_link c [10] m) Url, rq_method = a, rq_headers = hs, rq_data = b\<rparr>" for a hs b
    by (intro assms(5)) simp
  show ?thesis unfolding sms_send_def Let_def same by (rule refl)
qed



text \<open>A message can carry the key: the placeholders are replaced one after the other, so a message that contains the text
  of the last one is sent with the key of the service in its place.\<close>

theorem message_can_carry_the_key:
  "render key (lit ''{message}'') recipient (lit ''{api_key}'') Json = escape_for Json key"
proof -
  have "replace_all (lit ''{recipient}'') t (lit ''{message}'') = lit ''{message}''" for t
    using replace_all_calm [of 114 "lit ''{message}''" "lit ''ecipient}''" t "[]"] placeholders_calm(3) by (simp add: placeholders(1))
  moreover have "escape_for Json (lit ''{api_key}'') = lit ''{api_key}''" by code_simp
  moreover have "replace_all (lit ''{message}'') t (lit ''{message}'') = t" for t
    using replace_all_here [of 123 "109 # lit ''essage}''" t "[]"] by (simp add: placeholders(2))
  moreover have "replace_all (lit ''{api_key}'') t (lit ''{api_key}'') = t" for t
    using replace_all_here [of 123 "97 # lit ''pi_key}''" t "[]"] by (simp add: placeholders(3))
  ultimately show ?thesis by (simp only: render_def)
qed

section \<open>Which channel a message goes to\<close>

lemma available_kinds: "distinct (kinds_on c)"
  by (auto simp: kinds_on_def available_def all_channels_def)

lemma channel_for_iff: "channel_for c k = Some ch \<longleftrightarrow> ch \<in> set (available c) \<and> channel_kind ch = k"
proof
  assume "channel_for c k = Some ch"
  then show "ch \<in> set (available c) \<and> channel_kind ch = k" by (auto simp: channel_for_def find_Some_iff)
next
  assume a: "ch \<in> set (available c) \<and> channel_kind ch = k"
  then have "channel_for c k \<noteq> None" by (auto simp: channel_for_def find_None_iff)
  then obtain ch' where "channel_for c k = Some ch'" by blast
  moreover from this have "ch' \<in> set (available c) \<and> channel_kind ch' = k" by (auto simp: channel_for_def find_Some_iff)
  ultimately show "channel_for c k = Some ch" using a by (auto simp: available_def all_channels_def split: if_splits)
qed

text \<open>A row whose kind is switched on has a channel, so the sweep of the outbox never meets a missing one.\<close>

lemma kinds_on_iff: "k \<in> set (kinds_on c) \<longleftrightarrow> (\<exists>ch. channel_for c k = Some ch)"
  by (auto simp: kinds_on_def channel_for_iff)

lemma sweep_has_a_channel:
  assumes "channels_on e = kinds_on c" and "swept e (outbound c mail upper loads http) d v = Some w"
  shows "\<exists>ch. channel_for c (nd_channel v) = Some ch \<and> is_configured c ch"
proof -
  have "nd_channel v \<in> set (kinds_on c)" using assms by (auto simp: swept_def split: if_splits)
  then show ?thesis by (auto simp: kinds_on_iff channel_for_iff available_def)
qed

end
