(* ===== verification/Spec2Isabelle.thy ===== *)
theory Spec2Isabelle
  imports RuleProperties CaseProperties AccessProperties CatalogueProperties MessageProperties
    CaseFindings SignInProperties AccountProperties PeriodProperties
    PeopleProperties ImportProperties PlanProperties JobProperties InboxProperties
    StatsProperties AnalyticsProperties FigureProperties FigureFindings
    SettingsProperties PreviewProperties StartupProperties UserPages ChannelProperties
begin

text \<open>NafasHR, the backend of a system for staff evaluations (Python, FastAPI, SQLAlchemy), as a
  shallow embedding of \<open>src/backend/app\<close>.

  The program. A person is evaluated by a chain of users: a unit supervisor scores, human resources
  checks, a deputy approves, the chief executive finalizes; chains may lack the supervisor (the
  deputy scores) or both (the chief executive scores), or the deputy alone. The case
  (\<open>evaluation_records\<close>) carries the chain, the status, the scores, the result columns and
  two stamps: the version of the scoring scheme and the version of the question list it is judged
  by. Every request handler reads and writes the database in one transaction and appends to an audit
  log whose rows are chained by digests. Notices are written for the people concerned and, where
  they ask for it, copied into an outbox that a periodic sweep empties.

  How the model corresponds to the code. A table of the database is the list of its rows, each a
  record with the columns of the ORM class; \<open>db\<close> (Schema) is the record of tables. A handler is a function from the environment, its input and the database to
  \<open>http_error + result\<close>: a raised \<open>HTTPException\<close> is \<open>Inl\<close> of its status, other
  exceptions are \<open>Inl (uncaught e)\<close>, and since a request that raises is rolled back, the
  database of an error is the old one. Guards stand in the order of the code. What a request reads
  from outside is the record \<open>env\<close> (Environment): the clock, the settings, the digest
  function, the text of a float, the rounding of a NUMERIC column, the iteration order of a set, the
  configured channels, random tokens, the password functions, the PDF renderer and the order of a
  query sorted by name. They are
  parameters: no definition is made up for them, and the properties that rely on one of them say so
  in a hypothesis (\<open>iterates\<close>: a set yields each element once; \<open>arranges\<close>: a
  sorted query returns the same rows; \<open>well_behaved\<close>: a channel only fails with the documented exception). The pages with figures
  take what they ask the database and the calendar as arguments of their own: \<open>avg\<close>, the average over a
  column (\<open>averages\<close>: it lies between the least and the greatest value, \<open>mean\<close> does), \<open>midnight\<close>, the
  moment a date is compared as, \<open>jalali_of\<close>, the calendar, \<open>repr\<close>, the text of a dictionary,
  \<open>like\<close> and \<open>order\<close>, the comparison ILIKE and the order by a collation; the settings take \<open>defaults\<close> and \<open>secret\<close>,
  what the configuration file says, and \<open>send\<close>, what a channel does with a message; the channels take \<open>mail\<close>,
  \<open>http\<close>, \<open>loads\<close> and \<open>upper\<close>, the mail server, the HTTP client, the reader of JSON and \<open>str.upper\<close>. Floats are the rationals they denote, each
  operation followed by the rounding to binary64 (\<open>fl\<close>), and \<open>round(x, n)\<close> is written
  out on them; magnitudes beyond the binary64 range do not occur in the percentages computed here.

  Theories, from the bottom:
  Prelude: results, text, time, tables with an integer key, the simplification collections.
  PyFloat, PyText: the floats and the string operations the program uses.
  Schema: \<open>models/\<close>. Environment: the parameters above.
  AuditChain: \<open>services/audit.py\<close>, rows as canonical JSON, the chain of digests.
  Schemes: \<open>services/scoring_scheme.py\<close>, \<open>schemas/scoring_scheme.py\<close> and the requests of
  \<open>routers/scoring_schemes.py\<close>. Scoring: \<open>services/evaluation.py\<close>.
  Frameworks: \<open>services/indicator_framework.py\<close> and \<open>routers/indicators.py\<close>.
  Access: \<open>api/deps.py\<close>, \<open>services/authorization.py\<close>, \<open>services/self_evaluation.py\<close>,
  \<open>services/evaluation_window.py\<close>, \<open>core/modules.py\<close>, \<open>routers/evaluation_access.py\<close>.
  Notifications and Delivery: \<open>services/notifications.py\<close>, \<open>services/delivery.py\<close>.
  Workflow: \<open>services/workflow.py\<close>. SelfAssessment: \<open>services/self_assessment.py\<close> and
  \<open>routers/me.py\<close>. Documents: \<open>services/snapshot.py\<close>, \<open>services/documents.py\<close>,
  \<open>routers/verify.py\<close>. Evaluations: \<open>routers/evaluations.py\<close>.
  Sessions: \<open>services/sessions.py\<close>, \<open>services/login_guard.py\<close>, \<open>routers/auth.py\<close>.
  Accounts: \<open>routers/users.py\<close> and the capabilities and modules of \<open>routers/administration.py\<close>.
  Periods: \<open>routers/periods.py\<close> and \<open>services/bulk_evaluation.py\<close>.
  OrgUnits: \<open>services/org_unit.py\<close>, \<open>routers/org_units.py\<close>. People: \<open>routers/personnel.py\<close>.
  Import: \<open>services/personnel_import.py\<close> and the import pages. Workbooks: the sheet of the people in
  \<open>services/excel.py\<close> and the way back through the import; Sheets: the other workbooks.
  Plans: \<open>routers/improvement_plans.py\<close>. Scheduled: \<open>services/scheduled.py\<close>,
  \<open>services/scheduler_lock.py\<close>, \<open>routers/admin.py\<close>. Inbox: \<open>routers/notifications.py\<close> and
  \<open>routers/audit_log.py\<close>.
  Aggregates: grouping, averages, shares and orders of a query. Stats: \<open>services/stage_stats.py\<close>.
  Dashboard: \<open>routers/dashboard.py\<close>. Analytics: \<open>routers/analytics.py\<close>, with the three-valued
  conditions of the database. Reports: \<open>routers/reports.py\<close> and the workbook of the report.
  Preview: the history and the preview of \<open>routers/scoring_schemes.py\<close>, the list of the questions and \<open>routers/config.py\<close>. UserPages: the list
  and the export of \<open>routers/users.py\<close>. Settings: \<open>core/integrations.py\<close>, \<open>services/integrations.py\<close> and their pages.
  Channels: \<open>services/channels\<close>. Startup: \<open>core/config.py\<close>, \<open>core/startup_checks.py\<close>, \<open>services/bootstrap_admin.py\<close>.
  CaseMachine, ResultIntegrity, AuditTrail, Progress: what the requests of that router do together.
  Samples: a small database for concrete runs. The theories named \<open>...Properties\<close>,
  CaseFindings and FigureFindings: the properties, each with an application at a concrete input.

  What is shown. RuleProperties: bounds and monotonicity of the percentages, the completeness of the
  recommendation table, the life of a scheme version (four eyes, one active, stamped versions never
  change). CaseProperties: the handlers refine an abstract case machine (\<open>case_step\<close>) and keep the
  well-formedness of the cases; the stored result is the result of the stored answers; closed cases
  are final; exactly the owner of a stage can approve, exactly the scorer can submit; the audit log
  verifies after every run and knows every status. AccessProperties: identity, chains, the
  submission window. CatalogueProperties: the catalogue and its versions, self-assessments.
  MessageProperties: the log as evidence, notices, reminders, the outbox, documents. CaseFindings:
  the transition table and two divergences. SignInProperties: when a refresh is granted, what a
  replayed token and a changed password do, the bound on guesses. AccountProperties: what the
  requests on accounts and capabilities keep, and how the separation of duties can be stepped
  around. PeriodProperties: the periods, cases and results together stay well formed under the
  requests of both routers; a batch does what its preview says, once, and opens the cases the
  evaluators would open. PeopleProperties: personnel files, chains, accounts and cases stay well formed
  together; a departure is complete and who can carry it out; every case of a batch has an assignee;
  units and the people filed under them. ImportProperties: the import writes what its preview announces,
  keeps the files well formed and reads back what the export has written. PlanProperties: plans and
  goals stay well formed, who may write what, which results get a plan. JobProperties: a run of the
  jobs reminds everybody it has to, a second one nobody, a failing one leaves nothing behind, and
  which case makes every run fail. InboxProperties: what a user's requests on notices may touch and
  what technical support sees of the log. StatsProperties: the log of a case replays to its
  status, the visits the statistics count are the life of the case cut into pieces, and what the
  counters of a stage count. AnalyticsProperties: what the mirror of an evaluator and the executive
  view cannot reveal. FigureProperties: the pages agree on the units, every result is counted once,
  an average that is shown is a percentage over a large enough group. FigureFindings: no exported cell
  is a formula, and two figures that say something else than their comments. SettingsProperties: the
  policies keep within their limits whatever the pages are sent, a saved value is read back, and when it is in
  force. PreviewProperties: a preview always answers, and agrees with the stored results under the same
  numbers. StartupProperties: after a start somebody can grant capabilities. ChannelProperties: the
  service that gets a request filled in from a template reads the values as they were, and one message that carries
  the key of the service.

  Locales. \<open>row_store\<close>: a table with a key, interpreted on every table that is read and updated by
  its key. \<open>invariant_system\<close>: a handler of requests and what one request keeps, with the lemma about
  sequences of requests; interpreted on the handlers of every router and on the settings pages. \<open>event_sink\<close>: the log that a
  handler appends to. \<open>rounding\<close>: a monotone rounding that fixes the ends of the scale.

  Bounds. No definition uses fuel: loops over the rows of a query are folds over lists, and the one
  recursion that is not structural (the digits of a number) has a termination proof.

  Not modelled. Texts shown to people are Persian in the code and paraphrased in English here, since
  they have no influence on the behaviour (their lengths are bounded nowhere). Concurrency: a
  request is one atomic step, as the row locks and unique indexes of the handlers intend. HTTP
  parsing, signing of tokens, the ORM, PostgreSQL, the rendering of PDF files and of the bytes of a
  workbook, the network clients of mail and SMS, metrics, readiness, rate limiting, the reading of the process environment,
  the messages of invalid input, the thread that repeats the periodic jobs, the scripts that prepare an
  installation and the migrations are code of other packages or glue around them, without a state of
  their own. Within modelled parts: labels, colours, help texts and column widths, and the empty template of
  the import.\<close>

end
